(* ===== verification/Prelude.thy ===== *)
theory Prelude
  imports Main "HOL-Library.Word"
begin

text \<open>
  Shared vocabulary of the development: the byte and identifier types, the collections of
  facts the component theories add to, and generic lemmas on lists and words.

  Bytes are 8-bit words, file identifiers 16-bit words. A C buffer with its length is a
  \<open>byte list\<close>; a pointer into a buffer with a length, as \<open>tlv_ctx_t\<close> holds it, is an
  offset with a length (\<open>region\<close>), read back with \<open>slice\<close>.
\<close>

unbundle bit_operations_syntax

named_theorems plat_simps \<open>effect of a platform call on the fields of the state\<close>
named_theorems bound_intros \<open>length bounds on the response buffer\<close>

type_synonym byte = "8 word"
type_synonym bytes = "8 word list"
type_synonym fid = "16 word"
type_synonym u16 = "16 word"
type_synonym u32 = "32 word"
type_synonym u64 = "64 word"
type_synonym region = "nat \<times> nat"

subsection \<open>Regions of a buffer\<close>

fun slice :: "bytes \<Rightarrow> region \<Rightarrow> bytes" where
  "slice d (off, len) = take len (drop off d)"

fun in_range :: "bytes \<Rightarrow> region \<Rightarrow> bool" where
  "in_range d (off, len) = (off + len \<le> length d)"

lemma length_slice [simp]: "in_range d r \<Longrightarrow> length (slice d r) = snd r"
  by (cases r) simp

lemma length_slice_le: "length (slice d r) \<le> snd r"
  by (cases r) simp

lemma slice_append_left: "in_range d r \<Longrightarrow> slice (d @ e) r = slice d r"
  by (cases r) simp

text \<open>Overwriting a region with bytes of the same length changes exactly that region.\<close>

definition splice :: "bytes \<Rightarrow> region \<Rightarrow> bytes \<Rightarrow> bytes" where
  "splice d r v = take (fst r) d @ v @ drop (fst r + snd r) d"

lemma length_splice:
  "in_range d r \<Longrightarrow> length (splice d r v) = length d - snd r + length v"
  by (cases r) (simp add: splice_def)

lemma slice_splice_same:
  "in_range d r \<Longrightarrow> length v = snd r \<Longrightarrow> slice (splice d r v) r = v"
  by (cases r) (simp add: splice_def)

lemma take_splice: "in_range d r \<Longrightarrow> n \<le> fst r \<Longrightarrow> take n (splice d r v) = take n d"
  by (cases r) (simp add: splice_def min_def)

lemma drop_splice:
  assumes "in_range d r" and "length v = snd r" and "fst r + snd r \<le> n"
  shows "drop n (splice d r v) = drop n d"
proof -
  obtain off len where r: "r = (off, len)" by (cases r)
  obtain m where m: "n = off + len + m" using assms(3) r by (auto simp: le_iff_add)
  show ?thesis using assms r m by (simp add: splice_def add.commute add.left_commute)
qed

text \<open>A zeroed buffer of a given size, filled from the front.\<close>

definition fit :: "nat \<Rightarrow> bytes \<Rightarrow> bytes" where
  "fit n d = take n (d @ replicate n 0)"

lemma length_fit [simp]: "length (fit n d) = n"
  by (simp add: fit_def)

lemma fit_exact [simp]: "length d = n \<Longrightarrow> fit n d = d"
  by (auto simp: fit_def)

lemma fit_pad: "length d \<le> n \<Longrightarrow> fit n d = d @ replicate (n - length d) 0"
  by (simp add: fit_def)

subsection \<open>Lists\<close>

lemma take_filter_sorted_min:
  assumes "sorted (x # xs)" and "y \<in> set (x # xs)"
  shows "x \<le> y"
  using assms by auto

lemma list_all_replicate: "list_all P (replicate n x) \<longleftrightarrow> n = 0 \<or> P x"
  by (induction n) auto

subsection \<open>Words\<close>

lemma unat_byte_less: "unat (b :: byte) < 256"
  using unsigned_less [of b] by simp

lemma unat_of_nat_byte: "n < 256 \<Longrightarrow> unat (word_of_nat n :: byte) = n"
  by (simp add: unat_of_nat take_bit_eq_mod)

lemma unat_and_le: "unat ((b :: 'a::len word) AND m) \<le> unat m"
  by (metis word_and_le1 word_le_nat_alt)

lemma word_pos_dec:
  fixes w :: "'a::len word"
  assumes "w \<noteq> 0"
  shows "unat (w - 1) = unat w - 1" and "unat (w - 1) < unat w"
  using assms by (simp_all add: unat_minus_one unat_gt_0)

end
