(* ===== verification/Platform.thy ===== *)
theory Platform
  imports Prelude
begin

text \<open>
  The boundary to the SDK the firmware is linked with (the submodule \<open>pico-keys-sdk\<close>,
  which is not part of the repository) and to mbedTLS. Everything the sources call there is
  a field of the record \<open>sdk\<close> and a parameter of the definitions that use it. What the code
  relies on is stated as the named hypotheses of this theory.

  The storage the firmware sees is a map from file identifiers to contents: a \<open>file_t *\<close> is
  a \<open>fid option\<close> (\<open>None\<close> is the null pointer), \<open>file_search\<close> returns a pointer exactly for
  the identifiers in the domain, and a file that exists but has no data is bound to the
  empty list. Every call that writes storage is a parameter that may fail, and appends to
  the trace \<open>wlog\<close> the request it made, so that the order of writes can be stated.

  All that the environment decides (whether a write or a synchronous commit succeeds, the
  random bytes, whether an allocation succeeds) is a function of the counter \<open>tick\<close>, which
  every such call advances, so no two calls are forced to have the same outcome.
\<close>

subsection \<open>Result codes and status words\<close>

datatype sw =
    SW_OK
  | SW_CLA_NOT_SUPPORTED
  | SW_INS_NOT_SUPPORTED
  | SW_SECURITY_STATUS_NOT_SATISFIED
  | SW_CONDITIONS_NOT_SATISFIED
  | SW_INCORRECT_PARAMS
  | SW_INCORRECT_P1P2
  | SW_WRONG_DATA
  | SW_WRONG_LENGTH
  | SW_DATA_INVALID
  | SW_FILE_FULL
  | SW_FILE_NOT_FOUND
  | SW_EXEC_ERROR
  | SW_MEMORY_FAILURE
  | SW_SET byte byte

datatype rc =
    PICOKEYS_OK
  | PICOKEYS_ERR_NULL_PARAM
  | PICOKEYS_ERR_NO_MEMORY
  | PICOKEYS_ERR_MEMORY_FATAL
  | PICOKEYS_ERR_FILE_NOT_FOUND
  | PICOKEYS_EXEC_ERROR
  | PICOKEYS_WRONG_DATA
  | PICOKEYS_WRONG_LENGTH
  | PICOKEYS_WRONG_SIGNATURE
  | PICOKEYS_OTHER int
  | PICOKEYS_SW sw

datatype md = MD_SHA1 | MD_SHA256 | MD_SHA384 | MD_SHA512

text \<open>The curves of mbedTLS the firmware names, and a key pair as mbedTLS keeps it.\<close>

datatype curve =
    MBEDTLS_ECP_DP_NONE
  | MBEDTLS_ECP_DP_SECP256R1
  | MBEDTLS_ECP_DP_SECP384R1
  | MBEDTLS_ECP_DP_SECP521R1
  | MBEDTLS_ECP_DP_SECP256K1
  | MBEDTLS_ECP_DP_CURVE25519
  | MBEDTLS_ECP_DP_CURVE448
  | MBEDTLS_ECP_DP_ED25519
  | MBEDTLS_ECP_DP_ED448
  | MBEDTLS_ECP_DP_BP256R1
  | MBEDTLS_ECP_DP_BP384R1
  | MBEDTLS_ECP_DP_BP512R1

record keypair =
  kp_grp :: curve
  kp_d :: bytes
  kp_Q :: "bytes \<times> bytes"

text \<open>What the code tells the X.509 writer of mbedTLS, setter by setter.\<close>

record x509write_cert =
  crt_version :: nat
  crt_not_before :: string
  crt_not_after :: string
  crt_issuer_name :: string
  crt_subject_name :: string
  crt_serial :: bytes
  crt_subject_key :: keypair
  crt_issuer_key :: keypair
  crt_md_alg :: md
  crt_basic_constraints :: "int \<times> int"
  crt_subject_key_identifier :: bool
  crt_authority_key_identifier :: bool
  crt_key_usage :: byte

text \<open>The same for a certificate signing request; the extension has an identifier and a value.\<close>

record x509write_csr =
  csr_subject_name :: bytes
  csr_key :: keypair
  csr_md_alg :: md
  csr_extension :: "bytes \<times> bytes"

text \<open>The event that ends a wait for the button (\<open>EV_BUTTON_PRESSED\<close> and its siblings).\<close>

datatype button = EV_BUTTON_PRESSED | EV_BUTTON_TIMEOUT | EV_BUTTON_CANCELLED

text \<open>
  What the TinyCBOR iterator shows of a value. The contents of a container are the flat
  sequence of its items (in a map, keys and values alternate); an item on which the decoder
  stops with an error is \<open>CBad\<close> with its code, and nothing behind it is ever seen. Negative
  integers carry the encoded argument \<open>n\<close> of \<open>-1 - n\<close>.
\<close>

datatype cbor =
    CUInt u64
  | CNInt u64
  | CBytes bytes
  | CText bytes
  | CBool bool
  | CArray "cbor list"
  | CMap "cbor list"
  | COther
  | CBad int

subsection \<open>The SDK as a parameter\<close>

type_synonym files = "fid \<rightharpoonup> bytes"

record sdk =
  sdk_put :: "nat \<Rightarrow> files \<Rightarrow> fid option \<Rightarrow> bytes \<Rightarrow> rc \<times> files"
  sdk_new :: "nat \<Rightarrow> files \<Rightarrow> fid \<Rightarrow> fid option \<times> files"
  sdk_delete :: "nat \<Rightarrow> files \<Rightarrow> fid option \<Rightarrow> rc \<times> files"
  sdk_clear :: "nat \<Rightarrow> files \<Rightarrow> fid option \<Rightarrow> files"
  sdk_commit_sync :: "nat \<Rightarrow> nat \<Rightarrow> bool"
  sdk_dynamic :: "files \<Rightarrow> fid list"
  sdk_random :: "nat \<Rightarrow> nat \<Rightarrow> bytes"
  sdk_button :: "nat \<Rightarrow> button"
  sdk_calloc :: "nat \<Rightarrow> nat \<Rightarrow> bool"
  sdk_buffer_size :: nat
  sdk_tlv_find :: "bytes \<Rightarrow> u16 \<Rightarrow> region option"
  sdk_tlv_walk :: "bytes \<Rightarrow> (u16 \<times> region) list"
  sdk_tlv_format_len :: "nat \<Rightarrow> bytes"
  sdk_tlv_len_tag :: "u16 \<Rightarrow> nat \<Rightarrow> nat"
  sdk_get_u16 :: "bytes \<Rightarrow> u16"
  sdk_get_u32 :: "bytes \<Rightarrow> u32"
  sdk_get_u64 :: "bytes \<Rightarrow> u64"
  sdk_put_u64 :: "u64 \<Rightarrow> bytes"
  sdk_md_size :: "md \<Rightarrow> nat"
  sdk_hmac :: "md \<Rightarrow> bytes \<Rightarrow> bytes \<Rightarrow> int \<times> bytes"
  sdk_hkdf :: "md \<Rightarrow> bytes \<Rightarrow> bytes \<Rightarrow> bytes \<Rightarrow> nat \<Rightarrow> int \<times> bytes"
  sdk_kbase :: bytes
  sdk_aead_enc :: "nat \<Rightarrow> bytes \<Rightarrow> bytes \<Rightarrow> nat \<Rightarrow> rc \<times> bytes"
  sdk_aead_dec :: "bytes \<Rightarrow> bytes \<Rightarrow> nat \<Rightarrow> rc \<times> bytes"
  sdk_pin_verifier :: "bytes \<Rightarrow> bytes"
  sdk_double_hash :: "bytes \<Rightarrow> bytes"
  sdk_serial_str :: bytes
  sdk_serial_hash :: bytes
  sdk_serial_id :: bytes
  sdk_is_nk :: bool
  sdk_app_exists :: "bytes \<Rightarrow> bool"
  sdk_pin_session :: "bytes \<Rightarrow> bytes"
  sdk_hash_multi :: "bytes \<Rightarrow> bytes"
  sdk_otp_key :: "bytes option"
  sdk_digest :: "md \<Rightarrow> bytes \<Rightarrow> int \<times> bytes"
  sdk_aes_enc :: "bytes \<Rightarrow> bytes option \<Rightarrow> bytes \<Rightarrow> rc \<times> bytes"
  sdk_aes_dec :: "bytes \<Rightarrow> bytes option \<Rightarrow> bytes \<Rightarrow> rc \<times> bytes"
  sdk_ecdh_setup :: "nat \<Rightarrow> int"
  sdk_ecdh_gen :: "nat \<Rightarrow> int \<times> bytes"
  sdk_mpi_lset :: "nat \<Rightarrow> int"
  sdk_mpi_read :: "nat \<Rightarrow> bytes \<Rightarrow> int"
  sdk_mpi_write :: "bytes \<Rightarrow> nat \<Rightarrow> int \<times> bytes"
  sdk_ecdh_shared :: "nat \<Rightarrow> bytes \<Rightarrow> bytes \<times> bytes \<Rightarrow> int \<times> bytes"
  sdk_ecdh_public :: "bytes \<Rightarrow> bytes \<times> bytes"
  sdk_point_write :: "bytes \<times> bytes \<Rightarrow> int \<times> bytes"
  sdk_cbor_dec :: "bytes \<Rightarrow> int + cbor"
  sdk_cbor_enc :: "cbor \<Rightarrow> int + bytes"
  sdk_put_u16 :: "u16 \<Rightarrow> bytes"
  sdk_put_u16_le :: "u16 \<Rightarrow> bytes"
  sdk_get_u16_le :: "bytes \<Rightarrow> u16"
  sdk_get_u32_le :: "bytes \<Rightarrow> u32"
  sdk_aes_ecb :: "bytes \<Rightarrow> bytes \<Rightarrow> int \<times> bytes"
  sdk_hkdf_inplace :: "md \<Rightarrow> bytes \<Rightarrow> region \<Rightarrow> region \<Rightarrow> bytes \<Rightarrow> int \<times> bytes"
  sdk_chacha_enc :: "bytes \<Rightarrow> bytes \<Rightarrow> bytes \<Rightarrow> bytes \<Rightarrow> int \<times> bytes \<times> bytes"
  sdk_chacha_dec :: "bytes \<Rightarrow> bytes \<Rightarrow> bytes \<Rightarrow> bytes \<Rightarrow> bytes \<Rightarrow> int \<times> bytes"
  sdk_rtc_time :: "nat \<Rightarrow> u64 option"
  sdk_scan_flash :: "nat \<Rightarrow> files \<Rightarrow> files"
  sdk_curve_bits :: "curve \<Rightarrow> nat option"
  sdk_ec_genkey :: "nat \<Rightarrow> curve \<Rightarrow> int \<times> keypair"
  sdk_ec_read_key :: "curve \<Rightarrow> keypair \<Rightarrow> bytes \<Rightarrow> int \<times> keypair"
  sdk_ec_write_key :: "keypair \<Rightarrow> nat \<Rightarrow> int \<times> nat \<times> bytes"
  sdk_ec_calc_public :: "nat \<Rightarrow> keypair \<Rightarrow> int \<times> keypair"
  sdk_x509_der :: "nat \<Rightarrow> x509write_cert \<Rightarrow> nat \<Rightarrow> int \<times> bytes"
  sdk_cbor_enc_buf :: "nat \<Rightarrow> cbor \<Rightarrow> int + bytes"
  sdk_point_write_full :: "bytes \<times> bytes \<Rightarrow> int \<times> bytes"
  sdk_ecdsa_sign :: "nat \<Rightarrow> keypair \<Rightarrow> bytes \<Rightarrow> int \<times> bytes"
  sdk_put_u32 :: "u32 \<Rightarrow> bytes"
  sdk_ctap_error :: "byte \<Rightarrow> sw"
  sdk_eddsa_sign :: "nat \<Rightarrow> keypair \<Rightarrow> bytes \<Rightarrow> int \<times> bytes"
  sdk_cbor_raw :: "bytes \<Rightarrow> nat \<Rightarrow> bytes"
  sdk_put_u32_le :: "u32 \<Rightarrow> bytes"
  sdk_x509_csr :: "nat \<Rightarrow> x509write_csr \<Rightarrow> nat \<Rightarrow> int \<times> bytes"
  sdk_init_flash :: "nat \<Rightarrow> files \<Rightarrow> files"
  sdk_enabled_k1 :: bool
  sdk_phy_vid :: u16
  sdk_no_power_reset :: bool

subsection \<open>The state every component shares\<close>

datatype flash_op =
    New fid
  | Put fid bytes
  | Delete fid
  | Clear fid
  | Commit
  | CommitSync bool

record plat =
  files :: files
  tick :: nat
  wlog :: "flash_op list"
  res_APDU :: bytes
  ne :: nat
  millis :: u32
  user_present_time_limit :: u32
  phy_kb :: bool

record apdu =
  cla :: byte
  ins :: byte
  p1 :: byte
  p2 :: byte
  nc_data :: bytes

abbreviation nc :: "apdu \<Rightarrow> nat" where
  "nc a \<equiv> length (nc_data a)"

subsection \<open>Reading files\<close>

definition file_search :: "'a plat_scheme \<Rightarrow> fid \<Rightarrow> fid option" where
  "file_search s f = (if files s f = None then None else Some f)"

definition file_get_data :: "'a plat_scheme \<Rightarrow> fid option \<Rightarrow> bytes" where
  "file_get_data s p = (case p of None \<Rightarrow> []
     | Some f \<Rightarrow> (case files s f of None \<Rightarrow> [] | Some d \<Rightarrow> d))"

definition file_get_size :: "'a plat_scheme \<Rightarrow> fid option \<Rightarrow> nat" where
  "file_get_size s p = length (file_get_data s p)"

definition file_has_data :: "'a plat_scheme \<Rightarrow> fid option \<Rightarrow> bool" where
  "file_has_data s p \<longleftrightarrow> file_get_data s p \<noteq> []"

subsection \<open>Calls that change the platform state\<close>

definition file_put_data :: "sdk \<Rightarrow> fid option \<Rightarrow> bytes \<Rightarrow> 'a plat_scheme \<Rightarrow> rc \<times> 'a plat_scheme" where
  "file_put_data k p d s =
     (let (r, fs) = sdk_put k (tick s) (files s) p d
      in (r, s\<lparr>files := fs, tick := Suc (tick s),
                wlog := wlog s @ (case p of None \<Rightarrow> [] | Some f \<Rightarrow> [Put f d])\<rparr>))"

definition file_new :: "sdk \<Rightarrow> fid \<Rightarrow> 'a plat_scheme \<Rightarrow> fid option \<times> 'a plat_scheme" where
  "file_new k f s =
     (let (p, fs) = sdk_new k (tick s) (files s) f
      in (p, s\<lparr>files := fs, tick := Suc (tick s), wlog := wlog s @ [New f]\<rparr>))"

definition file_delete_no_commit :: "sdk \<Rightarrow> fid option \<Rightarrow> 'a plat_scheme \<Rightarrow> rc \<times> 'a plat_scheme" where
  "file_delete_no_commit k p s =
     (let (r, fs) = sdk_delete k (tick s) (files s) p
      in (r, s\<lparr>files := fs, tick := Suc (tick s),
                wlog := wlog s @ (case p of None \<Rightarrow> [] | Some f \<Rightarrow> [Delete f])\<rparr>))"

definition flash_commit :: "'a plat_scheme \<Rightarrow> 'a plat_scheme" where
  "flash_commit s = s\<lparr>wlog := wlog s @ [Commit]\<rparr>"

definition flash_commit_sync :: "sdk \<Rightarrow> nat \<Rightarrow> 'a plat_scheme \<Rightarrow> bool \<times> 'a plat_scheme" where
  "flash_commit_sync k ms s =
     (let b = sdk_commit_sync k (tick s) ms
      in (b, s\<lparr>tick := Suc (tick s), wlog := wlog s @ [CommitSync b]\<rparr>))"

definition file_delete :: "sdk \<Rightarrow> fid option \<Rightarrow> 'a plat_scheme \<Rightarrow> rc \<times> 'a plat_scheme" where
  "file_delete k p s = (let (r, s1) = file_delete_no_commit k p s in (r, flash_commit s1))"

definition flash_clear_file :: "sdk \<Rightarrow> fid option \<Rightarrow> 'a plat_scheme \<Rightarrow> 'a plat_scheme" where
  "flash_clear_file k p s =
     s\<lparr>files := sdk_clear k (tick s) (files s) p, tick := Suc (tick s),
       wlog := wlog s @ (case p of None \<Rightarrow> [] | Some f \<Rightarrow> [Clear f])\<rparr>"

definition random_fill_buffer :: "sdk \<Rightarrow> nat \<Rightarrow> 'a plat_scheme \<Rightarrow> bytes \<times> 'a plat_scheme" where
  "random_fill_buffer k n s = (sdk_random k (tick s) n, s\<lparr>tick := Suc (tick s)\<rparr>)"

definition calloc :: "sdk \<Rightarrow> nat \<Rightarrow> 'a plat_scheme \<Rightarrow> bool \<times> 'a plat_scheme" where
  "calloc k n s = (sdk_calloc k (tick s) n, s\<lparr>tick := Suc (tick s)\<rparr>)"

definition res_append :: "bytes \<Rightarrow> 'a plat_scheme \<Rightarrow> 'a plat_scheme" where
  "res_append d s = s\<lparr>res_APDU := res_APDU s @ d\<rparr>"

definition set_ne :: "'a plat_scheme \<Rightarrow> 'a plat_scheme" where
  "set_ne s = s\<lparr>ne := length (res_APDU s)\<rparr>"

definition tlv_get :: "sdk \<Rightarrow> bytes \<Rightarrow> u16 \<Rightarrow> bytes option" where
  "tlv_get k d t = map_option (slice d) (sdk_tlv_find k d t)"

lemmas plat_ops =
  file_put_data_def file_new_def file_delete_no_commit_def flash_commit_def
  flash_commit_sync_def file_delete_def flash_clear_file_def random_fill_buffer_def
  calloc_def res_append_def set_ne_def

lemmas file_reads = file_search_def file_get_data_def file_get_size_def file_has_data_def

subsection \<open>What the code relies on\<close>

text \<open>
  Storage. A successful write binds the pointed-to file to the data; a write that fails
  leaves the files as they were. \<open>file_new\<close> returns the existing file or
  an empty one. Deletion and clearing touch only their own file. This is how the test double
  of the storage in \<open>tests/fido_resident_container_test.c\<close> behaves.
\<close>

definition put_law :: "sdk \<Rightarrow> bool" where
  "put_law k \<longleftrightarrow> (\<forall>n fs p d r fs'. sdk_put k n fs p d = (r, fs') \<longrightarrow>
     (r = PICOKEYS_OK \<longrightarrow> (\<exists>f. p = Some f \<and> fs' = fs(f \<mapsto> d))) \<and>
     (r \<noteq> PICOKEYS_OK \<longrightarrow> fs' = fs))"

definition new_law :: "sdk \<Rightarrow> bool" where
  "new_law k \<longleftrightarrow> (\<forall>n fs f p fs'. sdk_new k n fs f = (p, fs') \<longrightarrow>
     (p = None \<and> fs' = fs) \<or>
     (p = Some f \<and> fs' = (if fs f = None then fs(f \<mapsto> []) else fs)))"

definition delete_law :: "sdk \<Rightarrow> bool" where
  "delete_law k \<longleftrightarrow> (\<forall>n fs p r fs'. sdk_delete k n fs p = (r, fs') \<longrightarrow>
     (r = PICOKEYS_OK \<longrightarrow> (\<exists>f. p = Some f \<and> fs' = fs(f := None))) \<and>
     (r \<noteq> PICOKEYS_OK \<longrightarrow> fs' = fs))"

definition clear_law :: "sdk \<Rightarrow> bool" where
  "clear_law k \<longleftrightarrow> (\<forall>n fs p. sdk_clear k n fs p =
     (case p of None \<Rightarrow> fs | Some f \<Rightarrow> if fs f = None then fs else fs(f \<mapsto> [])))"

definition flash_laws :: "sdk \<Rightarrow> bool" where
  "flash_laws k \<longleftrightarrow> put_law k \<and> new_law k \<and> delete_law k \<and> clear_law k"

text \<open>
  Enumeration of the dynamic files. The identifiers the OATH component uses for its
  credentials are not in the static table \<open>file_entries\<close>, so its files are dynamic ones.
\<close>

definition dynamic_law :: "sdk \<Rightarrow> bool" where
  "dynamic_law k \<longleftrightarrow> (\<forall>fs. distinct (sdk_dynamic k fs) \<and> set (sdk_dynamic k fs) \<subseteq> dom fs \<and>
     (\<forall>f. f \<in> dom fs \<and> 0xBA00 \<le> f \<and> f \<le> 0xBAFF \<longrightarrow> f \<in> set (sdk_dynamic k fs)))"

text \<open>TLV lookup returns a region inside the buffer, behind a tag and a length byte.\<close>

definition tlv_law :: "sdk \<Rightarrow> bool" where
  "tlv_law k \<longleftrightarrow> (\<forall>d t off len. sdk_tlv_find k d t = Some (off, len) \<longrightarrow>
     2 \<le> off \<and> off + len \<le> length d)"

text \<open>Digest sizes of the hashes, and the lengths HMAC returns.\<close>

definition md_law :: "sdk \<Rightarrow> bool" where
  "md_law k \<longleftrightarrow> sdk_md_size k MD_SHA1 = 20 \<and> sdk_md_size k MD_SHA256 = 32 \<and>
     sdk_md_size k MD_SHA384 = 48 \<and> sdk_md_size k MD_SHA512 = 64 \<and>
     (\<forall>m key d. length (snd (sdk_hmac k m key d)) = sdk_md_size k m)"

text \<open>Authenticated encryption: 12 bytes of nonce and 16 of tag, and decryption inverts it.\<close>

definition aead_law :: "sdk \<Rightarrow> bool" where
  "aead_law k \<longleftrightarrow> (\<forall>n key d v c. sdk_aead_enc k n key d v = (PICOKEYS_OK, c) \<longrightarrow>
     length c = length d + 28 \<and> sdk_aead_dec k key c v = (PICOKEYS_OK, d))"

text \<open>ChaCha20-Poly1305: a key, a nonce, the additional data and the text give a text of the same length and a tag.\<close>

definition chacha_law :: "sdk \<Rightarrow> bool" where
  "chacha_law k \<longleftrightarrow> (\<forall>key iv aad d c t. sdk_chacha_enc k key iv aad d = (0, c, t) \<longrightarrow>
     length c = length d \<and> length t = 16 \<and> sdk_chacha_dec k key iv aad t c = (0, d))"

text \<open>Reading and writing a big-endian 64-bit counter.\<close>

definition u64_law :: "sdk \<Rightarrow> bool" where
  "u64_law k \<longleftrightarrow> (\<forall>v d. length (sdk_put_u64 k v) = 8 \<and> sdk_get_u64 k (sdk_put_u64 k v @ d) = v)"

text \<open>The same for 16-bit integers in both orders.\<close>

definition u16_law :: "sdk \<Rightarrow> bool" where
  "u16_law k \<longleftrightarrow> (\<forall>v d. length (sdk_put_u16 k v) = 2 \<and> sdk_get_u16 k (sdk_put_u16 k v @ d) = v)"

definition u16_le_law :: "sdk \<Rightarrow> bool" where
  "u16_le_law k \<longleftrightarrow> (\<forall>v. sdk_put_u16_le k v = [ucast v, ucast (drop_bit 8 v)]) \<and>
     (\<forall>a b d. sdk_get_u16_le k (a # b # d) = ucast a OR push_bit 8 (ucast b))"

text \<open>A private key read for a curve is written out as it was read.\<close>

definition ec_key_law :: "sdk \<Rightarrow> bool" where
  "ec_key_law k \<longleftrightarrow>
     (\<forall>c kp d kp'. sdk_ec_read_key k c kp d = (0, kp') \<longrightarrow> sdk_ec_write_key k kp' (length d) = (0, length d, d)) \<and>
     (\<forall>n kp kp' len. sdk_ec_calc_public k n kp = (0, kp') \<longrightarrow> sdk_ec_write_key k kp' len = sdk_ec_write_key k kp len)"

text \<open>
  The CBOR encoder over a buffer, with maps of indefinite length: what it writes fits, and the
  decoder finds it at the start of any buffer.
\<close>

definition cbor_buf_law :: "sdk \<Rightarrow> bool" where
  "cbor_buf_law k \<longleftrightarrow> (\<forall>n c d r. sdk_cbor_enc_buf k n c = Inr d \<longrightarrow> length d \<le> n \<and> sdk_cbor_dec k (d @ r) = Inr c)"

text \<open>Rereading the flash finds the files as the firmware left them.\<close>

definition scan_law :: "sdk \<Rightarrow> bool" where
  "scan_law k \<longleftrightarrow> (\<forall>n fs. sdk_scan_flash k n fs = fs)"

text \<open>The stored PIN verifiers are 32 bytes.\<close>

definition verifier_law :: "sdk \<Rightarrow> bool" where
  "verifier_law k \<longleftrightarrow> (\<forall>p. length (sdk_pin_verifier k p) = 32 \<and> length (sdk_double_hash k p) = 32)"

text \<open>AES in CBC mode: lengths are kept and decryption inverts encryption.\<close>

definition aes_law :: "sdk \<Rightarrow> bool" where
  "aes_law k \<longleftrightarrow> (\<forall>key iv d c. sdk_aes_enc k key iv d = (PICOKEYS_OK, c) \<longrightarrow>
     length c = length d \<and> sdk_aes_dec k key iv c = (PICOKEYS_OK, d))"

text \<open>Random buffers have the length asked for, and the keys derived from a PIN are 32 bytes.\<close>

definition random_law :: "sdk \<Rightarrow> bool" where
  "random_law k \<longleftrightarrow> (\<forall>n len. length (sdk_random k n len) = len)"

definition session_law :: "sdk \<Rightarrow> bool" where
  "session_law k \<longleftrightarrow> (\<forall>p. length (sdk_pin_session k p) = 32 \<and> length (sdk_hash_multi k p) = 32)"

subsection \<open>Steps that touch only storage\<close>

text \<open>
  Most internal routines change nothing but the files, the trace and the event counter. The
  relation below says so once; it is transitive, so a routine composed of such steps is one.
\<close>

definition store_step :: "'a plat_scheme \<Rightarrow> 'a plat_scheme \<Rightarrow> bool" where
  "store_step s t \<longleftrightarrow> (\<exists>fs n w. t = s\<lparr>files := fs, tick := n, wlog := w\<rparr>)"

lemma store_stepI [intro]: "t = s\<lparr>files := fs, tick := n, wlog := w\<rparr> \<Longrightarrow> store_step s t"
  unfolding store_step_def by blast

lemma store_step_update [simp, intro]: "store_step s (s\<lparr>files := fs, tick := n, wlog := w\<rparr>)"
  by (rule store_stepI) (rule refl)

lemma store_step_refl [simp, intro]: "store_step s s"
  by (rule store_stepI [where fs = "files s" and n = "tick s" and w = "wlog s"]) simp

lemma store_step_tick [simp]: "store_step s (s\<lparr>tick := n\<rparr>)"
  by (rule store_stepI [where fs = "files s" and w = "wlog s"]) simp

lemma store_step_trans [trans]: "store_step s t \<Longrightarrow> store_step t u \<Longrightarrow> store_step s u"
  unfolding store_step_def by (elim exE) (simp, blast)

lemma store_step_fields:
  assumes "store_step s t"
  shows "res_APDU t = res_APDU s" "ne t = ne s" "millis t = millis s"
    "user_present_time_limit t = user_present_time_limit s" "phy_kb t = phy_kb s"
    "plat.more t = plat.more s"
  using assms by (auto simp: store_step_def)

lemma file_put_data_step: "file_put_data k p d s = (r, t) \<Longrightarrow> store_step s t"
  by (auto simp: file_put_data_def Let_def split: prod.splits)

lemma file_new_step: "file_new k f s = (p, t) \<Longrightarrow> store_step s t"
  by (auto simp: file_new_def Let_def split: prod.splits)

lemma file_delete_no_commit_step: "file_delete_no_commit k p s = (r, t) \<Longrightarrow> store_step s t"
  by (auto simp: file_delete_no_commit_def Let_def split: prod.splits)

lemma flash_commit_step [simp]: "store_step s (flash_commit s)"
  by (rule store_stepI [where fs = "files s" and n = "tick s"]) (simp add: flash_commit_def)

lemma flash_commit_sync_step: "flash_commit_sync k ms s = (b, t) \<Longrightarrow> store_step s t"
  by (auto simp: flash_commit_sync_def Let_def intro: store_stepI [where fs = "files s"])

lemma file_delete_step: "file_delete k p s = (r, t) \<Longrightarrow> store_step s t"
  by (auto simp: file_delete_def split: prod.splits
      intro: store_step_trans [OF _ flash_commit_step] dest: file_delete_no_commit_step)

lemma flash_clear_file_step [simp]: "store_step s (flash_clear_file k p s)"
  by (simp add: flash_clear_file_def)

lemma random_fill_buffer_step: "random_fill_buffer k n s = (d, t) \<Longrightarrow> store_step s t"
  by (auto simp: random_fill_buffer_def)

lemma calloc_step: "calloc k n s = (b, t) \<Longrightarrow> store_step s t"
  by (auto simp: calloc_def)

lemmas store_steps =
  file_put_data_step file_new_step file_delete_no_commit_step flash_commit_sync_step
  file_delete_step random_fill_buffer_step calloc_step

subsection \<open>Effects of the calls on the files\<close>

lemma flash_commit_files [simp]: "files (flash_commit s) = files s"
  by (simp add: flash_commit_def)

lemma flash_commit_sync_files: "flash_commit_sync k ms s = (b, t) \<Longrightarrow> files t = files s"
  by (auto simp: flash_commit_sync_def Let_def)

lemma random_fill_buffer_files: "random_fill_buffer k n s = (d, t) \<Longrightarrow> files t = files s"
  by (auto simp: random_fill_buffer_def)

lemma calloc_files: "calloc k n s = (b, t) \<Longrightarrow> files t = files s"
  by (auto simp: calloc_def)

lemma calloc_wlog: "calloc k n s = (b, t) \<Longrightarrow> wlog t = wlog s"
  by (auto simp: calloc_def)

lemma file_put_data_cases:
  assumes "put_law k" and "file_put_data k p d s = (r, t)"
  shows "r \<noteq> PICOKEYS_OK \<and> files t = files s \<or>
    r = PICOKEYS_OK \<and> (\<exists>f. p = Some f \<and> files t = (files s)(f \<mapsto> d))"
  using assms by (fastforce simp: file_put_data_def put_law_def Let_def split: prod.splits)

lemma file_put_data_ok:
  assumes "put_law k" and "file_put_data k p d s = (PICOKEYS_OK, t)"
  shows "\<exists>f. p = Some f \<and> files t = (files s)(f \<mapsto> d) \<and> wlog t = wlog s @ [Put f d]"
  using assms by (fastforce simp: file_put_data_def put_law_def Let_def split: prod.splits)

lemma file_put_data_frame:
  assumes "put_law k" and "file_put_data k p d s = (r, t)" and "p \<noteq> Some g"
  shows "files t g = files s g"
  using file_put_data_cases [OF assms(1,2)] assms(3) by (auto simp: fun_upd_apply split: if_splits)

lemma file_new_cases:
  assumes "new_law k" and "file_new k f s = (p, t)"
  shows "p = None \<and> files t = files s \<or>
    p = Some f \<and> files t = (if files s f = None then (files s)(f \<mapsto> []) else files s)"
  using assms by (fastforce simp: file_new_def new_law_def Let_def split: prod.splits)

lemma file_new_frame:
  assumes "new_law k" and "file_new k f s = (p, t)" and "f \<noteq> g"
  shows "files t g = files s g"
  using file_new_cases [OF assms(1,2)] assms(3) by (auto split: if_splits)

lemma file_delete_no_commit_cases:
  assumes "delete_law k" and "file_delete_no_commit k p s = (r, t)"
  shows "r \<noteq> PICOKEYS_OK \<and> files t = files s \<or>
    r = PICOKEYS_OK \<and> (\<exists>f. p = Some f \<and> files t = (files s)(f := None))"
  using assms by (fastforce simp: file_delete_no_commit_def delete_law_def Let_def split: prod.splits)

lemma file_delete_cases:
  assumes "delete_law k" and "file_delete k p s = (r, t)"
  shows "r \<noteq> PICOKEYS_OK \<and> files t = files s \<or>
    r = PICOKEYS_OK \<and> (\<exists>f. p = Some f \<and> files t = (files s)(f := None))"
proof -
  obtain t0 where t0: "file_delete_no_commit k p s = (r, t0)" and t: "t = flash_commit t0"
    using assms(2) by (auto simp: file_delete_def split: prod.splits)
  show ?thesis using file_delete_no_commit_cases [OF assms(1) t0] by (simp add: t)
qed

lemma flash_clear_file_files:
  assumes "clear_law k"
  shows "files (flash_clear_file k p s) = (case p of None \<Rightarrow> files s
     | Some f \<Rightarrow> if files s f = None then files s else (files s)(f \<mapsto> []))"
  using assms by (simp add: flash_clear_file_def clear_law_def)

lemma file_search_data [simp]:
  "file_has_data s (file_search s f) \<longleftrightarrow> (\<exists>d. files s f = Some d \<and> d \<noteq> [])"
  "file_get_data s (file_search s f) = (case files s f of None \<Rightarrow> [] | Some d \<Rightarrow> d)"
  by (auto simp: file_reads split: option.splits)

lemma file_has_data_Some:
  "file_has_data s (Some f) \<longleftrightarrow> (\<exists>d. files s f = Some d \<and> d \<noteq> [])"
  by (auto simp: file_reads split: option.splits)

lemma file_has_data_None [simp]: "\<not> file_has_data s None"
  by (simp add: file_reads)

lemma file_reads_cong:
  assumes "files s = files t"
  shows "file_get_data s p = file_get_data t p" "file_has_data s p = file_has_data t p"
    "file_search s f = file_search t f" "file_get_size s p = file_get_size t p"
  using assms by (auto simp: file_reads split: option.splits)

lemma tlv_get_in_range:
  assumes "tlv_law k" and "tlv_get k d t = Some v"
  shows "length v \<le> length d"
  using assms by (fastforce simp: tlv_get_def tlv_law_def)

text \<open>The storage accepts writes to a file (space is left for it).\<close>

definition accepts :: "sdk \<Rightarrow> fid \<Rightarrow> bool" where
  "accepts k f \<longleftrightarrow> (\<forall>n fs d. length d \<le> 1024 \<longrightarrow> fst (sdk_put k n fs (Some f) d) = PICOKEYS_OK)"

lemma accepts_put:
  assumes "put_law k" and "accepts k f" and "length d \<le> 1024" and "file_put_data k (Some f) d s = (r, t)"
  shows "files t = (files s)(f \<mapsto> d)"
proof -
  have "r = PICOKEYS_OK"
    using assms(2-4) by (auto simp: accepts_def file_put_data_def Let_def split: prod.splits)
       (metis fst_conv)
  with assms(1,4) show ?thesis using file_put_data_ok [of k "Some f" d s t] by auto
qed

text \<open>Deleting an existing file never fails.\<close>

definition deletes :: "sdk \<Rightarrow> bool" where
  "deletes k \<longleftrightarrow> (\<forall>n fs f. fs f \<noteq> None \<longrightarrow> fst (sdk_delete k n fs (Some f)) = PICOKEYS_OK)"

lemma file_delete_no_commit_gone:
  assumes "delete_law k" and "deletes k" and "files s f \<noteq> None"
  shows "files (snd (file_delete_no_commit k (Some f) s)) = (files s)(f := None)"
  using assms file_delete_no_commit_cases [of k "Some f" s _ "snd (file_delete_no_commit k (Some f) s)", OF assms(1) surjective_pairing]
  by (auto simp: file_delete_no_commit_def deletes_def Let_def split: prod.splits) (metis fst_conv option.distinct(1))+

end
