(* ===== verification/Cbor.thy ===== *)
theory Cbor
  imports Platform
begin

text \<open>
  Reading CBOR requests: the macros of \<open>src/fido/ctap2_cbor.h\<close> over the TinyCBOR iterator and
  \<open>COSE_read_key\<close> of \<open>src/fido/cbor.c\<close>. An iterator inside a container is the list of the
  items still ahead. Advancing decodes the next item, so a malformed one is reported when the
  iterator reaches it. \<open>CBOR_ASSERT\<close> and \<open>CBOR_CHECK\<close>, which jump to the error label, are the
  left injection. Memory exhaustion inside the duplication of a string is not modelled.
\<close>

datatype ctap_error =
    CborErrorImproperValue
  | CborError int
  | CTAP byte
  | CTAP_RC rc

text \<open>What an operation returns to \<open>cbor_parse\<close>: \<open>None\<close> is success.\<close>

definition ctap_status :: "ctap_error option \<Rightarrow> ctap_error option" where
  "ctap_status e = (case e of Some CborErrorImproperValue \<Rightarrow> Some (CTAP 0x11) | _ \<Rightarrow> e)"

definition cbor_advance :: "cbor list \<Rightarrow> ctap_error + cbor list" where
  "cbor_advance xs = (case tl xs of CBad e # _ \<Rightarrow> Inl (CborError e) | r \<Rightarrow> Inr r)"

definition field_uint :: "cbor list \<Rightarrow> ctap_error + u64 \<times> cbor list" where
  "field_uint xs =
     (case xs of
        CUInt v # _ \<Rightarrow> map_sum id (Pair v) (cbor_advance xs)
      | _ \<Rightarrow> Inl CborErrorImproperValue)"

definition field_int :: "cbor list \<Rightarrow> ctap_error + u64 \<times> cbor list" where
  "field_int xs =
     (case xs of
        CUInt v # _ \<Rightarrow> map_sum id (Pair v) (cbor_advance xs)
      | CNInt v # _ \<Rightarrow> map_sum id (Pair (- v - 1)) (cbor_advance xs)
      | _ \<Rightarrow> Inl CborErrorImproperValue)"

definition field_bytes :: "cbor list \<Rightarrow> ctap_error + bytes \<times> cbor list" where
  "field_bytes xs =
     (case xs of
        CBytes d # _ \<Rightarrow> map_sum id (Pair d) (cbor_advance xs)
      | _ \<Rightarrow> Inl CborErrorImproperValue)"

definition field_text :: "cbor list \<Rightarrow> ctap_error + bytes \<times> cbor list" where
  "field_text xs =
     (case xs of
        CText d # _ \<Rightarrow> map_sum id (Pair d) (cbor_advance xs)
      | _ \<Rightarrow> Inl CborErrorImproperValue)"

text \<open>
  The loop of \<open>CBOR_PARSE_MAP_START\<close>: the body reads a key and what it wants of the value. Each
  iteration consumes an item, so the number of items is enough fuel.
\<close>

fun cbor_items :: "('s \<Rightarrow> cbor list \<Rightarrow> ctap_error + 's \<times> cbor list) \<Rightarrow> nat \<Rightarrow> 's \<Rightarrow> cbor list \<Rightarrow> ctap_error + 's" where
  "cbor_items body fuel st [] = Inr st"
| "cbor_items body 0 st (x # xs) = Inr st"
| "cbor_items body (Suc n) st (x # xs) =
     (case body st (x # xs) of
        Inl e \<Rightarrow> Inl e
      | Inr (st, r) \<Rightarrow> cbor_items body n st r)"

definition cbor_map :: "('s \<Rightarrow> cbor list \<Rightarrow> ctap_error + 's \<times> cbor list) \<Rightarrow> 's \<Rightarrow> cbor \<Rightarrow> ctap_error + 's" where
  "cbor_map body st c =
     (case c of
        CMap xs \<Rightarrow> (case xs of CBad e # _ \<Rightarrow> Inl (CborError e) | _ \<Rightarrow> cbor_items body (length xs) st xs)
      | _ \<Rightarrow> Inl CborErrorImproperValue)"

text \<open>The key fields a COSE key map may set (64-bit integers in two's complement).\<close>

record cose_key =
  cose_kty :: u64
  cose_alg :: u64
  cose_crv :: u64
  cose_kax :: "bytes option"
  cose_kay :: "bytes option"

definition cose_empty :: cose_key where
  "cose_empty = \<lparr>cose_kty = 0, cose_alg = 0, cose_crv = 0, cose_kax = None, cose_kay = None\<rparr>"

definition cose_field :: "cose_key \<Rightarrow> cbor list \<Rightarrow> ctap_error + cose_key \<times> cbor list" where
  "cose_field q xs =
     (case field_int xs of
        Inl e \<Rightarrow> Inl e
      | Inr (kkey, xs) \<Rightarrow>
          if kkey = 1 then map_sum id (map_prod (\<lambda>v. q\<lparr>cose_kty := v\<rparr>) id) (field_int xs)
          else if kkey = 3 then map_sum id (map_prod (\<lambda>v. q\<lparr>cose_alg := v\<rparr>) id) (field_int xs)
          else if kkey = -1 then map_sum id (map_prod (\<lambda>v. q\<lparr>cose_crv := v\<rparr>) id) (field_int xs)
          else if kkey = -2 then map_sum id (map_prod (\<lambda>v. q\<lparr>cose_kax := Some v\<rparr>) id) (field_bytes xs)
          else if kkey = -3 then map_sum id (map_prod (\<lambda>v. q\<lparr>cose_kay := Some v\<rparr>) id) (field_bytes xs)
          else map_sum id (Pair q) (cbor_advance xs))"

definition COSE_read_key :: "cose_key \<Rightarrow> cbor list \<Rightarrow> ctap_error + cose_key \<times> cbor list" where
  "COSE_read_key q xs =
     (case xs of
        [] \<Rightarrow> Inl CborErrorImproperValue
      | c # _ \<Rightarrow>
          (case cbor_map cose_field q c of
             Inl e \<Rightarrow> Inl e
           | Inr q \<Rightarrow> map_sum id (Pair q) (cbor_advance xs)))"

subsection \<open>Every field read consumes an item\<close>

lemma cbor_advance_length: "cbor_advance xs = Inr r \<Longrightarrow> r = tl xs"
  by (auto simp: cbor_advance_def split: list.splits cbor.splits)

lemma cbor_advance_empty [simp]: "cbor_advance [] = Inr []"
  by (simp add: cbor_advance_def)

lemma field_reads_shorter:
  "field_uint xs = Inr (v, r) \<Longrightarrow> length r < length xs"
  "field_int xs = Inr (w, r) \<Longrightarrow> length r < length xs"
  "field_bytes xs = Inr (d, r) \<Longrightarrow> length r < length xs"
  "field_text xs = Inr (d, r) \<Longrightarrow> length r < length xs"
  by (auto simp: field_uint_def field_int_def field_bytes_def field_text_def map_sum_def
      split: list.splits cbor.splits sum.splits dest!: cbor_advance_length)

text \<open>More fuel than items changes nothing, when the body consumes at every iteration.\<close>

lemma cbor_items_fuel:
  assumes "\<And>st xs st' r. body st xs = Inr (st', r) \<Longrightarrow> length r < length xs"
    and "length xs \<le> n" and "length xs \<le> m"
  shows "cbor_items body n st xs = cbor_items body m st xs"
  using assms(2,3)
proof (induction n arbitrary: m st xs)
  case 0
  then show ?case by simp
next
  case (Suc n)
  show ?case
  proof (cases xs)
    case Nil
    then show ?thesis by simp
  next
    case (Cons x ys)
    then obtain m' where m: "m = Suc m'" using Suc.prems by (cases m) auto
    show ?thesis
    proof (cases "body st xs")
      case (Inl e)
      then show ?thesis by (simp add: Cons m)
    next
      case (Inr p)
      obtain st' r where p: "p = (st', r)" by (cases p)
      have "length r < length xs" using assms(1) Inr p by blast
      then have "cbor_items body n st' r = cbor_items body m' st' r"
        using Suc.prems m by (intro Suc.IH) auto
      then show ?thesis using Inr by (simp add: Cons m p)
    qed
  qed
qed

end
