(* ===== verification/Presence.thy ===== *)
theory Presence
  imports Platform
begin

text \<open>
  User presence (\<open>src/fido/fido.c\<close>: \<open>wait_button_pressed\<close>, \<open>check_user_presence\<close>) for the
  hardware builds (\<open>PICO_PLATFORM\<close>, \<open>ESP_PLATFORM\<close>). The blocking loop over the event queue
  ends with one of three events, which the platform supplies; \<open>force_button_wait\<close> is set for
  the duration of the wait and restored, so it does not appear in the state.
\<close>

definition wait_button_pressed :: "sdk \<Rightarrow> 'a plat_scheme \<Rightarrow> nat \<times> 'a plat_scheme" where
  "wait_button_pressed k s =
     (let val = sdk_button k (tick s)
      in (if val = EV_BUTTON_TIMEOUT then 1
          else if val = EV_BUTTON_CANCELLED then 2
          else 0,
          s\<lparr>tick := Suc (tick s)\<rparr>))"

abbreviation (input) TRANSPORT_TIME_LIMIT :: u32 where
  "TRANSPORT_TIME_LIMIT \<equiv> 30000"

definition check_user_presence :: "sdk \<Rightarrow> 'a plat_scheme \<Rightarrow> bool \<times> 'a plat_scheme" where
  "check_user_presence k s =
     (if user_present_time_limit s = 0 \<or>
         user_present_time_limit s + TRANSPORT_TIME_LIMIT < millis s
      then (let (ret, s1) = wait_button_pressed k s in (if ret > 0 then (False, s1) else (True, s1)))
      else (True, s))"

lemma wait_button_pressed_state:
  "wait_button_pressed k s = (r, t) \<Longrightarrow> t = s\<lparr>tick := Suc (tick s)\<rparr>"
  by (simp add: wait_button_pressed_def Let_def)

lemma check_user_presence_state:
  "check_user_presence k s = (b, t) \<Longrightarrow> t = s \<or> t = s\<lparr>tick := Suc (tick s)\<rparr>"
  by (auto simp: check_user_presence_def Let_def dest: wait_button_pressed_state
      split: prod.splits if_splits)

lemma check_user_presence_pressed:
  assumes "user_present_time_limit s = 0"
  shows "fst (check_user_presence k s) \<longleftrightarrow> sdk_button k (tick s) = EV_BUTTON_PRESSED"
  using assms
  by (cases "sdk_button k (tick s)")
     (auto simp: check_user_presence_def wait_button_pressed_def Let_def)

end
