(* ===== verification/Fido_State.thy ===== *)
theory Fido_State
  imports Cbor Presence
begin

text \<open>
  The state of the FIDO2 authenticator that the client PIN protocol works on (the globals of
  \<open>src/fido/fido.c\<close> and \<open>src/fido/cbor_client_pin.c\<close>), the epoch of the authorization session
  (\<open>src/fido/object_authorization.c\<close>) and the device key (\<open>load_keydev\<close> and its companions).

  The pointers \<open>ef_pin\<close>, \<open>ef_keydev\<close> and their siblings, which \<open>scan_files_fido\<close> looks up once,
  are looked up at each use: the files of the static table always exist. A token's \<open>data\<close>
  pointer is the contents it points to.
\<close>

abbreviation (input) EF_KEY_DEV :: fid where "EF_KEY_DEV \<equiv> 0xCC00"
abbreviation (input) EF_COUNTER :: fid where "EF_COUNTER \<equiv> 0xC000"
abbreviation (input) EF_OPTS :: fid where "EF_OPTS \<equiv> 0xC001"
abbreviation (input) EF_PIN :: fid where "EF_PIN \<equiv> 0x1080"
abbreviation (input) EF_AUTHTOKEN :: fid where "EF_AUTHTOKEN \<equiv> 0x1090"
abbreviation (input) EF_PAUTHTOKEN :: fid where "EF_PAUTHTOKEN \<equiv> 0x1091"
abbreviation (input) EF_MINPINLEN :: fid where "EF_MINPINLEN \<equiv> 0x1100"
abbreviation (input) EF_PIN_COMPLEXITY_POLICY :: fid where "EF_PIN_COMPLEXITY_POLICY \<equiv> 0x1102"
abbreviation (input) EF_DEV_STATE :: fid where "EF_DEV_STATE \<equiv> 0x1103"

record pinUvAuthToken =
  paut_data :: bytes
  in_use :: bool
  permissions :: byte
  rp_id_hash :: bytes
  has_rp_id :: bool
  user_present :: bool
  user_verified :: bool

record persistentPinUvAuthToken =
  ppaut_data :: bytes
  ppaut_permissions :: byte

record fido = plat +
  paut :: pinUvAuthToken
  ppaut :: persistentPinUvAuthToken
  usage_timer :: u32
  initial_usage_time_limit :: u32
  max_usage_time_period :: u32
  needs_power_cycle :: bool
  new_pin_mismatches :: byte
  session_pin :: bytes
  hkey_init :: bool
  hkey_d :: bytes
  hkey_Qp :: "bytes \<times> bytes"
  has_keydev_dec :: bool
  keydev_dec :: bytes
  object_session_epoch :: u32

text \<open>The byte a pointer into a file's data reads; behind the end it is modelled as zero.\<close>

definition byte_at :: "bytes \<Rightarrow> nat \<Rightarrow> byte" where
  "byte_at d i = (if i < length d then d ! i else 0)"

subsection \<open>The epoch of the authorization session\<close>

definition session_invalidate :: "'a fido_scheme \<Rightarrow> 'a fido_scheme" where
  "session_invalidate s =
     (let e = object_session_epoch s + 1
      in s\<lparr>object_session_epoch := (if e = 0 then 1 else e)\<rparr>)"

datatype object_fact =
    FILE_OBJECT_FACT_OWNING_APPLICATION
  | FILE_OBJECT_FACT_SESSION_BOUND
  | FILE_OBJECT_FACT_INTERNAL_FIRMWARE
  | FILE_OBJECT_FACT_USER_PRESENCE
  | FILE_OBJECT_FACT_USER_VERIFICATION
  | FILE_OBJECT_FACT_APP_PIN

record authorization_evidence =
  ev_user_presence :: bool
  ev_user_verification :: bool
  ev_pin_uv_auth :: bool

record authorization_context =
  facts :: "object_fact set"
  session_epoch :: u32
  facts_epoch :: u32

definition authorization_context_build ::
    "authorization_evidence option \<Rightarrow> bool \<Rightarrow> 'a fido_scheme \<Rightarrow> authorization_context" where
  "authorization_context_build evidence internal_firmware s =
     \<lparr>facts = {FILE_OBJECT_FACT_OWNING_APPLICATION, FILE_OBJECT_FACT_SESSION_BOUND} \<union>
        (if internal_firmware then {FILE_OBJECT_FACT_INTERNAL_FIRMWARE}
         else case evidence of
           None \<Rightarrow> {}
         | Some ev \<Rightarrow>
             (if ev_user_presence ev then {FILE_OBJECT_FACT_USER_PRESENCE} else {}) \<union>
             (if ev_user_verification ev then {FILE_OBJECT_FACT_USER_VERIFICATION} else {}) \<union>
             (if ev_pin_uv_auth ev
              then {FILE_OBJECT_FACT_APP_PIN, FILE_OBJECT_FACT_USER_VERIFICATION} else {})),
      session_epoch = object_session_epoch s,
      facts_epoch = object_session_epoch s\<rparr>"

text \<open>
  The epoch is never zero once it is not: the counter skips zero when it wraps, so no context
  built earlier can carry the epoch of the current session after one invalidation.
\<close>

lemma session_invalidate_epoch:
  "object_session_epoch (session_invalidate s) \<noteq> 0"
  "object_session_epoch s \<noteq> 0 \<Longrightarrow> object_session_epoch (session_invalidate s) \<noteq> object_session_epoch s"
  by (auto simp: session_invalidate_def Let_def)

lemma session_invalidate_frame [simp]:
  "files (session_invalidate s) = files s" "paut (session_invalidate s) = paut s"
  "ppaut (session_invalidate s) = ppaut s" "wlog (session_invalidate s) = wlog s"
  "tick (session_invalidate s) = tick s" "needs_power_cycle (session_invalidate s) = needs_power_cycle s"
  "new_pin_mismatches (session_invalidate s) = new_pin_mismatches s"
  "session_pin (session_invalidate s) = session_pin s" "usage_timer (session_invalidate s) = usage_timer s"
  "res_APDU (session_invalidate s) = res_APDU s" "hkey_d (session_invalidate s) = hkey_d s"
  "hkey_init (session_invalidate s) = hkey_init s" "hkey_Qp (session_invalidate s) = hkey_Qp s"
  "millis (session_invalidate s) = millis s"
  "initial_usage_time_limit (session_invalidate s) = initial_usage_time_limit s"
  "max_usage_time_period (session_invalidate s) = max_usage_time_period s"
  "user_present_time_limit (session_invalidate s) = user_present_time_limit s"
  "has_keydev_dec (session_invalidate s) = has_keydev_dec s" "keydev_dec (session_invalidate s) = keydev_dec s"
  by (simp_all add: session_invalidate_def Let_def)

subsection \<open>The device key\<close>

text \<open>
  \<open>load_keydev\<close> fills the caller's buffer; \<open>key0\<close> is what the buffer held, returned where the
  code leaves it untouched.
\<close>

definition load_keydev :: "sdk \<Rightarrow> bytes \<Rightarrow> 'a fido_scheme \<Rightarrow> rc \<times> bytes \<times> 'a fido_scheme" where
  "load_keydev k key0 s =
     (let ef = file_search s EF_KEY_DEV; d = file_get_data s ef; n = length d; format = d ! 0
      in if \<not> has_keydev_dec s \<and> \<not> file_has_data s ef then (PICOKEYS_ERR_MEMORY_FATAL, key0, s)
         else if has_keydev_dec s then (PICOKEYS_OK, keydev_dec s, s)
         else if n = 32
         then (case sdk_otp_key k of
                 None \<Rightarrow> (PICOKEYS_OK, d, s)
               | Some otp \<Rightarrow>
                   let (ret, key) = sdk_aes_dec k otp None d
                   in (if ret \<noteq> PICOKEYS_OK then PICOKEYS_EXEC_ERROR else PICOKEYS_OK, key, s))
         else if (n = 33 \<or> n = 61) \<and> (format = 0x01 \<or> format = 0x02 \<or> format = 0x03)
         then let (ret, key, s) =
                (if format = 0x02 \<or> format = 0x03
                 then let version = (if format = 0x03 then 2 else 1);
                          (ret, key) = sdk_aead_dec k (session_pin s) (tl (fit 61 d)) version
                      in if ret \<noteq> PICOKEYS_OK then (PICOKEYS_EXEC_ERROR, key0, s)
                         else if format = 0x02
                         then let (ret, ct) = sdk_aead_enc k (tick s) (session_pin s) key 2;
                                  s = s\<lparr>tick := Suc (tick s)\<rparr>
                              in if ret \<noteq> PICOKEYS_OK then (PICOKEYS_EXEC_ERROR, key, s)
                                 else let (_, s) = file_put_data k ef (0x03 # fit 60 ct) s
                                      in (PICOKEYS_OK, key, flash_commit s)
                         else (PICOKEYS_OK, key, s)
                 else (PICOKEYS_OK, take 32 (tl d), s))
              in if ret \<noteq> PICOKEYS_OK then (ret, key, s)
                 else let (ret, key) = sdk_aes_dec k (sdk_kbase k) (Some (sdk_serial_hash k)) key
                      in (if ret \<noteq> PICOKEYS_OK then PICOKEYS_EXEC_ERROR else PICOKEYS_OK, key, s)
         else (PICOKEYS_OK, key0, s))"

definition encrypt_keydev_f1 :: "sdk \<Rightarrow> bytes \<Rightarrow> 'a fido_scheme \<Rightarrow> rc \<times> 'a fido_scheme" where
  "encrypt_keydev_f1 k keydev s =
     (let (ret, ct) = sdk_aes_enc k (sdk_kbase k) (Some (sdk_serial_hash k)) keydev
      in if ret \<noteq> PICOKEYS_OK then (ret, s)
         else let (ret, s) = file_put_data k (file_search s EF_KEY_DEV) (0x01 # fit 32 ct) s
              in (ret, flash_commit s))"

text \<open>
  The device key in plain format is encrypted under the session key of the PIN. The code does
  not look at the result of the encryption or of the write.
\<close>

definition check_keydev_encrypted :: "sdk \<Rightarrow> bytes \<Rightarrow> 'a fido_scheme \<Rightarrow> rc \<times> 'a fido_scheme" where
  "check_keydev_encrypted k pin_token s =
     (let ef = file_search s EF_KEY_DEV; d = file_get_data s ef
      in if file_has_data s ef \<and> d ! 0 = 0x01
         then let (_, ct) = sdk_aead_enc k (tick s) pin_token (fit 32 (tl d)) 2;
                  s = s\<lparr>tick := Suc (tick s)\<rparr>;
                  (_, s) = file_put_data k ef (0x03 # fit 60 ct) s
              in (PICOKEYS_OK, flash_commit s)
         else (PICOKEYS_OK, s))"

subsection \<open>Options and counters\<close>

definition get_opts :: "'a plat_scheme \<Rightarrow> byte" where
  "get_opts s =
     (let ef = file_search s EF_OPTS in if file_has_data s ef then file_get_data s ef ! 0 else 0)"

definition set_opts :: "sdk \<Rightarrow> byte \<Rightarrow> 'a plat_scheme \<Rightarrow> 'a plat_scheme" where
  "set_opts k opts s =
     (let (_, s) = file_put_data k (file_search s EF_OPTS) [opts] s in flash_commit s)"

abbreviation (input) DEV_STATE_DEV_ID :: byte where "DEV_STATE_DEV_ID \<equiv> 1"
abbreviation (input) DEV_STATE_CRED_STATE :: byte where "DEV_STATE_CRED_STATE \<equiv> 2"

text \<open>
  A device identifier and a credential state of sixteen random bytes each. With both bits of
  the request set the code renews only the first.
\<close>

definition dev_state_update :: "sdk \<Rightarrow> byte \<Rightarrow> 'a plat_scheme \<Rightarrow> rc \<times> 'a plat_scheme" where
  "dev_state_update k state s =
     (let ef = file_search s EF_DEV_STATE
      in case ef of
           None \<Rightarrow> (PICOKEYS_ERR_FILE_NOT_FOUND, s)
         | Some _ \<Rightarrow>
             let s = (if file_get_size s ef = 32
                      then let d = file_get_data s ef;
                               (d, s) = (if state AND DEV_STATE_DEV_ID \<noteq> 0
                                         then let (r, s) = random_fill_buffer k 16 s in (r @ drop 16 d, s)
                                         else if state AND DEV_STATE_CRED_STATE \<noteq> 0
                                         then let (r, s) = random_fill_buffer k 16 s in (take 16 d @ r, s)
                                         else (d, s))
                           in snd (file_put_data k ef d s)
                      else let (r, s) = random_fill_buffer k 32 s in snd (file_put_data k ef r s))
             in (PICOKEYS_OK, flash_commit s))"

end
