(* ===== verification/Client_Pin.thy ===== *)
theory Client_Pin
  imports Fido_State
begin

text \<open>
  The client PIN protocol (\<open>src/fido/cbor_client_pin.c\<close>): the life of the PIN/UV auth token,
  the key agreement, the two PIN protocols, the PIN policy and the command itself. Every
  definition has the name of the C function it translates; \<open>cbor_client_pin\<close> is split into its
  parse loop and one definition per subcommand.
\<close>

abbreviation (input) PIN_LEGACY_DATA_LEN :: nat where "PIN_LEGACY_DATA_LEN \<equiv> 34"
abbreviation (input) PIN_DATA_LEN :: nat where "PIN_DATA_LEN \<equiv> 35"
abbreviation (input) PIN_RETRY_COMMIT_TIMEOUT_MS :: nat where "PIN_RETRY_COMMIT_TIMEOUT_MS \<equiv> 500"
abbreviation (input) MAX_PIN_RETRIES :: byte where "MAX_PIN_RETRIES \<equiv> 8"
abbreviation (input) IV_SIZE :: nat where "IV_SIZE \<equiv> 16"

abbreviation (input) CTAP_PERMISSION_MC :: "'a::len word" where "CTAP_PERMISSION_MC \<equiv> 0x01"
abbreviation (input) CTAP_PERMISSION_GA :: "'a::len word" where "CTAP_PERMISSION_GA \<equiv> 0x02"
abbreviation (input) CTAP_PERMISSION_CM :: "'a::len word" where "CTAP_PERMISSION_CM \<equiv> 0x04"
abbreviation (input) CTAP_PERMISSION_BE :: "'a::len word" where "CTAP_PERMISSION_BE \<equiv> 0x08"
abbreviation (input) CTAP_PERMISSION_LBW :: "'a::len word" where "CTAP_PERMISSION_LBW \<equiv> 0x10"
abbreviation (input) CTAP_PERMISSION_ACFG :: "'a::len word" where "CTAP_PERMISSION_ACFG \<equiv> 0x20"
abbreviation (input) CTAP_PERMISSION_PCMR :: "'a::len word" where "CTAP_PERMISSION_PCMR \<equiv> 0x40"

abbreviation (input) CTAP1_ERR_INVALID_PARAMETER :: ctap_error where "CTAP1_ERR_INVALID_PARAMETER \<equiv> CTAP 0x02"
abbreviation (input) CTAP2_ERR_INVALID_CBOR :: ctap_error where "CTAP2_ERR_INVALID_CBOR \<equiv> CTAP 0x12"
abbreviation (input) CTAP2_ERR_MISSING_PARAMETER :: ctap_error where "CTAP2_ERR_MISSING_PARAMETER \<equiv> CTAP 0x14"
abbreviation (input) CTAP2_ERR_PROCESSING :: ctap_error where "CTAP2_ERR_PROCESSING \<equiv> CTAP 0x21"
abbreviation (input) CTAP2_ERR_UNSUPPORTED_OPTION :: ctap_error where "CTAP2_ERR_UNSUPPORTED_OPTION \<equiv> CTAP 0x2B"
abbreviation (input) CTAP2_ERR_NOT_ALLOWED :: ctap_error where "CTAP2_ERR_NOT_ALLOWED \<equiv> CTAP 0x30"
abbreviation (input) CTAP2_ERR_PIN_INVALID :: ctap_error where "CTAP2_ERR_PIN_INVALID \<equiv> CTAP 0x31"
abbreviation (input) CTAP2_ERR_PIN_BLOCKED :: ctap_error where "CTAP2_ERR_PIN_BLOCKED \<equiv> CTAP 0x32"
abbreviation (input) CTAP2_ERR_PIN_AUTH_INVALID :: ctap_error where "CTAP2_ERR_PIN_AUTH_INVALID \<equiv> CTAP 0x33"
abbreviation (input) CTAP2_ERR_PIN_AUTH_BLOCKED :: ctap_error where "CTAP2_ERR_PIN_AUTH_BLOCKED \<equiv> CTAP 0x34"
abbreviation (input) CTAP2_ERR_PIN_NOT_SET :: ctap_error where "CTAP2_ERR_PIN_NOT_SET \<equiv> CTAP 0x35"
abbreviation (input) CTAP2_ERR_PIN_POLICY_VIOLATION :: ctap_error where "CTAP2_ERR_PIN_POLICY_VIOLATION \<equiv> CTAP 0x37"
abbreviation (input) CTAP2_ERR_UNAUTHORIZED_PERMISSION :: ctap_error where "CTAP2_ERR_UNAUTHORIZED_PERMISSION \<equiv> CTAP 0x40"

subsection \<open>The stored PIN record\<close>

text \<open>
  A record is the retry counter, the number of code points, from version 1 on a format byte,
  and a verifier of 32 bytes. It is loaded into a buffer of 35 bytes with its own length.
\<close>

definition load_pin_data :: "sdk \<Rightarrow> fid option \<Rightarrow> 'a plat_scheme \<Rightarrow> (bytes \<times> nat) option" where
  "load_pin_data k ef s =
     (let len = file_get_size s ef; d = file_get_data s ef
      in if d = [] \<or> (len \<noteq> PIN_LEGACY_DATA_LEN \<and> len \<noteq> PIN_DATA_LEN) then None
         else Some (fit PIN_DATA_LEN d, len))"

definition persist_pin_retry_counter ::
    "sdk \<Rightarrow> fid option \<Rightarrow> bytes \<Rightarrow> nat \<Rightarrow> 'a plat_scheme \<Rightarrow> bool \<times> 'a plat_scheme" where
  "persist_pin_retry_counter k ef pin_data len s =
     (let (ret, s) = file_put_data k ef (take len pin_data) s
      in if ret \<noteq> PICOKEYS_OK then (False, s)
         else let (done, s) = flash_commit_sync k PIN_RETRY_COMMIT_TIMEOUT_MS s
              in if \<not> done \<or> file_get_size s ef \<noteq> len \<or> file_get_data s ef = [] then (False, s)
                 else (file_get_data s ef ! 0 = pin_data ! 0, s))"

subsection \<open>The life of the token\<close>

definition beginUsingPinUvAuthToken :: "bool \<Rightarrow> 'a fido_scheme \<Rightarrow> 'a fido_scheme" where
  "beginUsingPinUvAuthToken userIsPresent s =
     session_invalidate (s\<lparr>paut := (paut s)\<lparr>user_present := userIsPresent, user_verified := True, in_use := True\<rparr>,
       initial_usage_time_limit := millis s, usage_timer := millis s\<rparr>)"

definition clearUserPresentFlag :: "'a fido_scheme \<Rightarrow> 'a fido_scheme" where
  "clearUserPresentFlag s =
     (if in_use (paut s) \<and> user_present (paut s)
      then session_invalidate (s\<lparr>paut := (paut s)\<lparr>user_present := False\<rparr>\<rparr>) else s)"

definition clearUserVerifiedFlag :: "'a fido_scheme \<Rightarrow> 'a fido_scheme" where
  "clearUserVerifiedFlag s =
     (if in_use (paut s) \<and> user_verified (paut s)
      then session_invalidate (s\<lparr>paut := (paut s)\<lparr>user_verified := False\<rparr>\<rparr>) else s)"

definition clearPinUvAuthTokenPermissionsExceptLbw :: "'a fido_scheme \<Rightarrow> 'a fido_scheme" where
  "clearPinUvAuthTokenPermissionsExceptLbw s =
     (if in_use (paut s) \<and> permissions (paut s) \<noteq> CTAP_PERMISSION_LBW
      then session_invalidate (s\<lparr>paut := (paut s)\<lparr>permissions := CTAP_PERMISSION_LBW\<rparr>\<rparr>) else s)"

definition stopUsingPinUvAuthToken :: "'a fido_scheme \<Rightarrow> 'a fido_scheme" where
  "stopUsingPinUvAuthToken s =
     (let p = paut s;
          token_active = (in_use p \<or> permissions p \<noteq> 0 \<or> has_rp_id p \<or> user_present p \<or> user_verified p);
          s = s\<lparr>paut := p\<lparr>permissions := 0, in_use := False, rp_id_hash := replicate 32 0,
                  has_rp_id := False, user_present := False, user_verified := False\<rparr>,
                usage_timer := 0, initial_usage_time_limit := 0, user_present_time_limit := 0\<rparr>
      in if token_active then session_invalidate s else s)"

definition getUserPresentFlagValue :: "'a fido_scheme \<Rightarrow> bool \<times> 'a fido_scheme" where
  "getUserPresentFlagValue s =
     (let s = (if \<not> in_use (paut s) then s\<lparr>paut := (paut s)\<lparr>user_present := False\<rparr>\<rparr> else s)
      in (user_present (paut s), s))"

definition getUserVerifiedFlagValue :: "'a fido_scheme \<Rightarrow> bool \<times> 'a fido_scheme" where
  "getUserVerifiedFlagValue s =
     (let s = (if \<not> in_use (paut s) then s\<lparr>paut := (paut s)\<lparr>user_verified := False\<rparr>\<rparr> else s)
      in (user_verified (paut s), s))"

definition TRANSPORT_TIME_LIMIT :: u32 where
  "TRANSPORT_TIME_LIMIT = 30 * 1000"

text \<open>Timer arithmetic is on 32 bits and wraps, as it does in the code.\<close>

definition pin_uv_auth_token_tick :: "'a fido_scheme \<Rightarrow> 'a fido_scheme" where
  "pin_uv_auth_token_tick s =
     (let now = millis s
      in if usage_timer s = 0 then s
         else if in_use (paut s) \<and>
                 (usage_timer s + max_usage_time_period s \<le> now \<or> initial_usage_time_limit s = 0 \<or>
                  initial_usage_time_limit s + TRANSPORT_TIME_LIMIT \<le> now)
         then stopUsingPinUvAuthToken s
         else if user_present_time_limit s = 0 \<or> user_present_time_limit s + TRANSPORT_TIME_LIMIT \<le> now
         then clearUserPresentFlag s else s)"

definition resetAuthToken :: "sdk \<Rightarrow> bool \<Rightarrow> 'a plat_scheme \<Rightarrow> 'a plat_scheme" where
  "resetAuthToken k persistent s =
     (let ef = file_search s (if persistent then EF_PAUTHTOKEN else EF_AUTHTOKEN);
          (t, s) = random_fill_buffer k 32 s;
          (_, s) = file_put_data k ef t s
      in flash_commit s)"

definition resetPinUvAuthToken :: "sdk \<Rightarrow> 'a fido_scheme \<Rightarrow> 'a fido_scheme" where
  "resetPinUvAuthToken k s =
     (let s = resetAuthToken k False s
      in session_invalidate (s\<lparr>paut := (paut s)\<lparr>permissions := 0,
           paut_data := file_get_data s (file_search s EF_AUTHTOKEN)\<rparr>\<rparr>))"

definition resetPersistentPinUvAuthToken :: "sdk \<Rightarrow> 'a fido_scheme \<Rightarrow> 'a fido_scheme" where
  "resetPersistentPinUvAuthToken k s =
     (let s = resetAuthToken k True s
      in session_invalidate (s\<lparr>ppaut := (ppaut s)\<lparr>ppaut_permissions := 0,
           ppaut_data := file_get_data s (file_search s EF_PAUTHTOKEN)\<rparr>\<rparr>))"

subsection \<open>Key agreement\<close>

text \<open>A new key pair replaces the old one only when every step of its generation succeeded.\<close>

definition regenerate :: "sdk \<Rightarrow> 'a fido_scheme \<Rightarrow> int \<times> 'a fido_scheme" where
  "regenerate k s =
     (let n = tick s; s = s\<lparr>tick := Suc n\<rparr>;
          ret = sdk_ecdh_setup k n
      in if ret \<noteq> 0 then (ret, s)
         else let (ret, d) = sdk_ecdh_gen k n
              in if ret \<noteq> 0 then (ret, s)
                 else let ret = sdk_mpi_lset k n
                      in if ret \<noteq> 0 then (ret, s)
                         else (0, s\<lparr>hkey_d := d, hkey_Qp := ([], []), hkey_init := True\<rparr>))"

definition kdf :: "sdk \<Rightarrow> byte \<Rightarrow> bytes \<Rightarrow> int \<times> bytes" where
  "kdf k protocol z =
     (let (ret, buf) = sdk_mpi_write k z 32
      in if ret \<noteq> 0 then (ret, [])
         else if protocol = 1 then sdk_digest k MD_SHA256 buf
         else if protocol = 2
         then let (ret, k1) = sdk_hkdf k MD_SHA256 [] buf
                    [0x43, 0x54, 0x41, 0x50, 0x32, 0x20, 0x48, 0x4d, 0x41, 0x43, 0x20, 0x6b, 0x65, 0x79] 32
              in if ret \<noteq> 0 then (ret, [])
                 else let (ret, k2) = sdk_hkdf k MD_SHA256 [] buf
                            [0x43, 0x54, 0x41, 0x50, 0x32, 0x20, 0x41, 0x45, 0x53, 0x20, 0x6b, 0x65, 0x79] 32
                      in (ret, k1 @ k2)
         else (-1, []))"

text \<open>The status of the shared computation is overwritten by that of the key derivation.\<close>

definition ecdh :: "sdk \<Rightarrow> byte \<Rightarrow> bytes \<times> bytes \<Rightarrow> 'a fido_scheme \<Rightarrow> (int \<times> bytes) \<times> 'a fido_scheme" where
  "ecdh k protocol Q s =
     (let (_, z) = sdk_ecdh_shared k (tick s) (hkey_d s) Q
      in (kdf k protocol z, s\<lparr>tick := Suc (tick s)\<rparr>))"

definition initialize :: "sdk \<Rightarrow> 'a fido_scheme \<Rightarrow> 'a fido_scheme" where
  "initialize k s = resetPinUvAuthToken k (snd (regenerate k s))"

subsection \<open>The two PIN protocols\<close>

definition encrypt :: "sdk \<Rightarrow> byte \<Rightarrow> bytes \<Rightarrow> bytes \<Rightarrow> 'a plat_scheme \<Rightarrow> (rc \<times> bytes) \<times> 'a plat_scheme" where
  "encrypt k protocol key d s =
     (if protocol = 1 then (sdk_aes_enc k (take 32 key) None d, s)
      else if protocol = 2
      then let (iv, s) = random_fill_buffer k IV_SIZE s;
               (ret, ct) = sdk_aes_enc k (take 32 (drop 32 key)) (Some iv) d
           in ((ret, iv @ ct), s)
      else ((PICOKEYS_OTHER (-1), []), s))"

definition decrypt :: "sdk \<Rightarrow> byte \<Rightarrow> bytes \<Rightarrow> bytes \<Rightarrow> rc \<times> bytes" where
  "decrypt k protocol key d =
     (if protocol = 1 then sdk_aes_dec k (take 32 key) None d
      else if protocol = 2
      then sdk_aes_dec k (take 32 (drop 32 key)) (Some (take IV_SIZE d)) (drop IV_SIZE d)
      else (PICOKEYS_OTHER (-1), []))"

text \<open>
  The code compares sixteen or thirty-two bytes of the caller's parameter without looking at
  its length; a shorter parameter, whose comparison reads past it, is modelled as different.
\<close>

definition verify :: "sdk \<Rightarrow> byte \<Rightarrow> bytes \<Rightarrow> bytes \<Rightarrow> bytes \<Rightarrow> bool" where
  "verify k protocol key d sign =
     (let (ret, hmac) = sdk_hmac k MD_SHA256 (take 32 key) d
      in if ret \<noteq> 0 then False
         else if protocol = 1 then take 16 sign = take 16 hmac
         else if protocol = 2 then take 32 sign = take 32 hmac
         else False)"

definition authenticate :: "sdk \<Rightarrow> byte \<Rightarrow> bytes \<Rightarrow> bytes \<Rightarrow> int \<times> bytes" where
  "authenticate k protocol key d =
     (let (ret, hmac) = sdk_hmac k MD_SHA256 (take 32 key) d
      in if ret \<noteq> 0 then (ret, [])
         else if protocol = 1 then (0, take 16 hmac)
         else if protocol = 2 then (0, take 32 hmac)
         else (-1, []))"

subsection \<open>The PIN policy\<close>

definition is_upper :: "byte \<Rightarrow> bool" where
  "is_upper b \<longleftrightarrow> b \<ge> 0x41 \<and> b \<le> 0x5a"

definition is_lower :: "byte \<Rightarrow> bool" where
  "is_lower b \<longleftrightarrow> b \<ge> 0x61 \<and> b \<le> 0x7a"

definition is_digit :: "byte \<Rightarrow> bool" where
  "is_digit b \<longleftrightarrow> b \<ge> 0x30 \<and> b \<le> 0x39"

definition is_symbol :: "byte \<Rightarrow> bool" where
  "is_symbol b \<longleftrightarrow> \<not> is_upper b \<and> \<not> is_lower b \<and> \<not> is_digit b"

definition PIN_POLICY_UPPER :: u16 where "PIN_POLICY_UPPER = 0x1"
definition PIN_POLICY_LOWER :: u16 where "PIN_POLICY_LOWER = 0x2"
definition PIN_POLICY_DIGIT :: u16 where "PIN_POLICY_DIGIT = 0x4"
definition PIN_POLICY_SYMBOL :: u16 where "PIN_POLICY_SYMBOL = 0x8"

definition pin_policy_pass :: "sdk \<Rightarrow> bytes \<Rightarrow> 'a plat_scheme \<Rightarrow> bool" where
  "pin_policy_pass k pin s =
     (let ef = file_search s EF_PIN_COMPLEXITY_POLICY
      in if \<not> file_has_data s ef then True
         else let policy = sdk_get_u16 k (file_get_data s ef)
              in if policy = 0 then True
                 else if policy AND PIN_POLICY_UPPER \<noteq> 0 \<and> \<not> list_ex is_upper pin then False
                 else if policy AND PIN_POLICY_LOWER \<noteq> 0 \<and> \<not> list_ex is_lower pin then False
                 else if policy AND PIN_POLICY_DIGIT \<noteq> 0 \<and> \<not> list_ex is_digit pin then False
                 else if policy AND PIN_POLICY_SYMBOL \<noteq> 0 \<and> \<not> list_ex is_symbol pin then False
                 else True)"

fun pin_codepoint_len :: "bytes \<Rightarrow> u16" where
  "pin_codepoint_len [] = 0"
| "pin_codepoint_len (b # pin) = (if b AND 0xC0 \<noteq> 0x80 then 1 else 0) + pin_codepoint_len pin"

text \<open>
  The new PIN in its zero-padded buffer: at most 63 bytes, at least as many code points as the
  policy file asks for, and of the classes the complexity policy asks for.
\<close>

definition min_pin_len :: "'a plat_scheme \<Rightarrow> byte" where
  "min_pin_len s =
     (let ef = file_search s EF_MINPINLEN in if file_has_data s ef then file_get_data s ef ! 0 else 4)"

definition new_pin_check :: "sdk \<Rightarrow> bytes \<Rightarrow> nat \<Rightarrow> 'a plat_scheme \<Rightarrow> bytes option" where
  "new_pin_check k paddedNewPin plain_len s =
     (if plain_len > 64 \<or> paddedNewPin ! 63 \<noteq> 0 then None
      else let pin = takeWhile (\<lambda>b. b \<noteq> 0) paddedNewPin
           in if pin_codepoint_len pin < ucast (min_pin_len s) then None
              else if \<not> pin_policy_pass k pin s then None
              else Some pin)"

subsection \<open>The request\<close>

record client_pin_req =
  pinUvAuthProtocol :: u64
  subcommand :: u64
  req_cose :: cose_key
  pinUvAuthParam :: "bytes option"
  newPinEnc :: "bytes option"
  pinHashEnc :: "bytes option"
  req_permissions :: u64
  rpId :: "bytes option"
  val_c :: u64

definition client_pin_init :: client_pin_req where
  "client_pin_init = \<lparr>pinUvAuthProtocol = 0, subcommand = 0, req_cose = cose_empty,
     pinUvAuthParam = None, newPinEnc = None, pinHashEnc = None, req_permissions = 0, rpId = None,
     val_c = 1\<rparr>"

text \<open>
  One iteration of the parse loop. Keys must be ascending and the first two present; the value
  of a key the loop does not know is not skipped, and is read as the next key.
\<close>

definition client_pin_field :: "client_pin_req \<Rightarrow> cbor list \<Rightarrow> ctap_error + client_pin_req \<times> cbor list" where
  "client_pin_field r xs =
     (case field_uint xs of
        Inl e \<Rightarrow> Inl e
      | Inr (val_u, xs) \<Rightarrow>
          if val_c r \<le> 2 \<and> val_c r \<noteq> val_u then Inl CTAP2_ERR_MISSING_PARAMETER
          else if val_u < val_c r then Inl CTAP2_ERR_INVALID_CBOR
          else let r = r\<lparr>val_c := val_u + 1\<rparr>
               in if val_u = 0x01 then map_sum id (map_prod (\<lambda>v. r\<lparr>pinUvAuthProtocol := v\<rparr>) id) (field_uint xs)
                  else if val_u = 0x02 then map_sum id (map_prod (\<lambda>v. r\<lparr>subcommand := v\<rparr>) id) (field_uint xs)
                  else if val_u = 0x03 then map_sum id (map_prod (\<lambda>v. r\<lparr>req_cose := v\<rparr>) id) (COSE_read_key (req_cose r) xs)
                  else if val_u = 0x04 then map_sum id (map_prod (\<lambda>v. r\<lparr>pinUvAuthParam := Some v\<rparr>) id) (field_bytes xs)
                  else if val_u = 0x05 then map_sum id (map_prod (\<lambda>v. r\<lparr>newPinEnc := Some v\<rparr>) id) (field_bytes xs)
                  else if val_u = 0x06 then map_sum id (map_prod (\<lambda>v. r\<lparr>pinHashEnc := Some v\<rparr>) id) (field_bytes xs)
                  else if val_u = 0x09 then map_sum id (map_prod (\<lambda>v. r\<lparr>req_permissions := v\<rparr>) id) (field_uint xs)
                  else if val_u = 0x0A then map_sum id (map_prod (\<lambda>v. r\<lparr>rpId := Some v\<rparr>) id) (field_text xs)
                  else Inr (r, xs))"

subsection \<open>Reading subcommands\<close>

definition cbor_emit :: "sdk \<Rightarrow> cbor \<Rightarrow> ctap_error + bytes" where
  "cbor_emit k c = (case sdk_cbor_enc k c of Inl e \<Rightarrow> Inl (CborError e) | Inr d \<Rightarrow> Inr d)"

definition get_pin_retries :: "sdk \<Rightarrow> 'a fido_scheme \<Rightarrow> (ctap_error + bytes) \<times> 'a fido_scheme" where
  "get_pin_retries k s =
     (cbor_emit k (CMap ([CUInt 0x03, CUInt (ucast (byte_at (file_get_data s (file_search s EF_PIN)) 0))] @
        (if needs_power_cycle s then [CUInt 0x04, CBool True] else []))), s)"

text \<open>
  A COSE key map of five entries for the Weierstrass curves (coordinates of \<open>plen\<close> bytes) and
  four for the others. \<open>nalg\<close> is the negated algorithm identifier, which the encoder takes.
\<close>

definition COSE_key_params :: "sdk \<Rightarrow> u64 \<Rightarrow> u64 \<Rightarrow> nat \<Rightarrow> bytes \<times> bytes \<Rightarrow> ctap_error + cbor" where
  "COSE_key_params k crv nalg plen Q =
     (let kty = (if crv = 1 \<or> crv = 2 \<or> crv = 3 \<or> crv = 8 then 2 else 1);
          hd = [CUInt 1, CUInt kty, CUInt 3, CNInt (nalg - 1), CNInt 0, CUInt crv, CNInt 1]
      in if kty = 2
         then (case sdk_mpi_write k (fst Q) plen of
                 (ret, x) \<Rightarrow> if ret \<noteq> 0 then Inl (CborError ret)
                   else (case sdk_mpi_write k (snd Q) plen of
                     (ret, y) \<Rightarrow> if ret \<noteq> 0 then Inl (CborError ret)
                       else Inr (CMap (hd @ [CBytes x, CNInt 2, CBytes y]))))
         else (case sdk_point_write k Q of
                 (ret, x) \<Rightarrow> if ret \<noteq> 0 then Inl (CborError ret) else Inr (CMap (hd @ [CBytes x]))))"

definition COSE_key_shared :: "sdk \<Rightarrow> 'a fido_scheme \<Rightarrow> ctap_error + cbor" where
  "COSE_key_shared k s = COSE_key_params k 1 25 32 (sdk_ecdh_public k (hkey_d s))"

definition get_key_agreement :: "sdk \<Rightarrow> client_pin_req \<Rightarrow> 'a fido_scheme \<Rightarrow> (ctap_error + bytes) \<times> 'a fido_scheme" where
  "get_key_agreement k r s =
     (if pinUvAuthProtocol r = 1 \<or> pinUvAuthProtocol r = 2
      then (case COSE_key_shared k s of
              Inl e \<Rightarrow> (Inl e, s)
            | Inr c \<Rightarrow> (cbor_emit k (CMap [CUInt 0x01, c]), s))
      else if pinUvAuthProtocol r = 0 then (Inl CTAP2_ERR_MISSING_PARAMETER, s)
      else (Inl CTAP1_ERR_INVALID_PARAMETER, s))"

end
