(* ===== verification/Client_Pin_Commands.thy ===== *)
theory Client_Pin_Commands
  imports Client_Pin
begin

text \<open>
  The subcommands of \<open>cbor_client_pin\<close> (\<open>src/fido/cbor_client_pin.c\<close>) that change the PIN or
  hand out a token, and the command itself. A jump to the error label with a code is the left
  injection; the right one carries the response.
\<close>

text \<open>The casts of lengths to sixteen bits.\<close>

definition u16_take :: "bytes \<Rightarrow> bytes" where
  "u16_take d = take (length d mod 65536) d"

text \<open>The coordinates of the platform's key are read into the context of the key agreement.\<close>

definition read_peer_key :: "sdk \<Rightarrow> bytes \<Rightarrow> bytes \<Rightarrow> 'a fido_scheme \<Rightarrow> bool \<times> 'a fido_scheme" where
  "read_peer_key k x y s =
     (let n = tick s; s = s\<lparr>tick := Suc (Suc n)\<rparr>
      in if sdk_mpi_read k n x \<noteq> 0 then (False, s)
         else let s = s\<lparr>hkey_Qp := (x, snd (hkey_Qp s))\<rparr>
              in if sdk_mpi_read k (Suc n) y \<noteq> 0 then (False, s)
                 else (True, s\<lparr>hkey_Qp := (fst (hkey_Qp s), y)\<rparr>))"

subsection \<open>Checking the PIN\<close>

text \<open>
  What follows a wrong PIN: a new key agreement key, and a mismatch counted towards the power
  cycle unless the last try was just spent.
\<close>

definition pin_mismatch :: "sdk \<Rightarrow> byte \<Rightarrow> 'a fido_scheme \<Rightarrow> ctap_error \<times> 'a fido_scheme" where
  "pin_mismatch k retries s =
     (let (_, s) = regenerate k s
      in if retries = 0 then (CTAP2_ERR_PIN_BLOCKED, s)
         else let s = s\<lparr>new_pin_mismatches := new_pin_mismatches s + 1\<rparr>
              in if new_pin_mismatches s \<ge> 3
                 then (CTAP2_ERR_PIN_AUTH_BLOCKED, s\<lparr>needs_power_cycle := True\<rparr>)
                 else (CTAP2_ERR_PIN_INVALID, s))"

text \<open>
  What follows the right PIN of a legacy record: the record becomes one of the new format, and
  the device key, still encrypted under the old session key, is stored in plain format.
\<close>

definition pin_upgrade ::
    "sdk \<Rightarrow> bytes \<Rightarrow> bytes \<Rightarrow> 'a fido_scheme \<Rightarrow> (ctap_error + bytes \<times> bytes \<times> bytes) \<times> 'a fido_scheme" where
  "pin_upgrade k pin_data pin s =
     (let pin_data = take 2 pin_data @ [1] @ fit 32 (sdk_pin_verifier k pin);
          s = s\<lparr>session_pin := sdk_hash_multi k pin\<rparr>;
          (ret, keydev, s) = load_keydev k (replicate 32 0) s
      in if ret \<noteq> PICOKEYS_OK then (Inl CTAP2_ERR_PIN_INVALID, s)
         else let (_, s) = encrypt_keydev_f1 k keydev s
              in (Inr (pin_data, pin, keydev), s))"

definition pin_hash_matches :: "sdk \<Rightarrow> bytes \<Rightarrow> nat \<Rightarrow> bytes \<Rightarrow> bool" where
  "pin_hash_matches k pin_data len pin \<longleftrightarrow>
     (if len = PIN_LEGACY_DATA_LEN then sdk_double_hash k pin = take 32 (drop 2 pin_data)
      else sdk_pin_verifier k pin = take 32 (drop 3 pin_data))"

text \<open>
  The part changing the PIN and obtaining a token share: one try is spent and persisted, the
  hash is decrypted and its verifier compared with the stored one. The result is the record to
  write back, the PIN hash, and the caller's key buffer.
\<close>

definition check_pin_hash ::
    "sdk \<Rightarrow> byte \<Rightarrow> bytes \<Rightarrow> bytes \<Rightarrow> 'a fido_scheme \<Rightarrow> (ctap_error + bytes \<times> bytes \<times> bytes) \<times> 'a fido_scheme" where
  "check_pin_hash k protocol sharedSecret hashEnc s =
     (let ef_pin = file_search s EF_PIN
      in case load_pin_data k ef_pin s of
           None \<Rightarrow> (Inl CTAP2_ERR_PROCESSING, s)
         | Some (pin_data, len) \<Rightarrow>
             let pin_data = pin_data[0 := pin_data ! 0 - 1];
                 (ok, s) = persist_pin_retry_counter k ef_pin pin_data len s
             in if \<not> ok then (Inl CTAP2_ERR_PROCESSING, s)
                else let retries = pin_data ! 0;
                         (ret, plain) = decrypt k protocol sharedSecret (u16_take hashEnc)
                     in if ret \<noteq> PICOKEYS_OK then (Inl CTAP2_ERR_PIN_AUTH_INVALID, s)
                        else let pin = fit 16 plain
                             in if \<not> pin_hash_matches k pin_data len pin
                                then let (e, s) = pin_mismatch k retries s in (Inl e, s)
                                else if len = PIN_LEGACY_DATA_LEN then pin_upgrade k pin_data pin s
                                else (Inr (pin_data, pin, replicate 32 0), s))"

subsection \<open>Setting the PIN\<close>

definition pin_record :: "sdk \<Rightarrow> bytes \<Rightarrow> bytes \<Rightarrow> bytes" where
  "pin_record k pin dhash =
     [MAX_PIN_RETRIES, ucast (pin_codepoint_len pin), 1] @ fit 32 (sdk_pin_verifier k (take 16 dhash))"

definition set_pin :: "sdk \<Rightarrow> client_pin_req \<Rightarrow> 'a fido_scheme \<Rightarrow> (ctap_error + bytes) \<times> 'a fido_scheme" where
  "set_pin k r s =
     (case (cose_kax (req_cose r), cose_kay (req_cose r), newPinEnc r, pinUvAuthParam r) of
        (Some kax, Some kay, Some newPin, Some param) \<Rightarrow>
          let proto = ucast (pinUvAuthProtocol r); ef_pin = file_search s EF_PIN; n = length newPin
          in if pinUvAuthProtocol r = 0 \<or> cose_alg (req_cose r) = 0 then (Inl CTAP2_ERR_MISSING_PARAMETER, s)
             else if pinUvAuthProtocol r \<noteq> 1 \<and> pinUvAuthProtocol r \<noteq> 2 then (Inl CTAP1_ERR_INVALID_PARAMETER, s)
             else if file_has_data s ef_pin then (Inl CTAP2_ERR_NOT_ALLOWED, s)
             else if (pinUvAuthProtocol r = 1 \<and> (n < 64 \<or> n mod 16 \<noteq> 0)) \<or>
                     (pinUvAuthProtocol r = 2 \<and> (n < 64 + IV_SIZE \<or> (n - IV_SIZE) mod 16 \<noteq> 0))
             then (Inl CTAP1_ERR_INVALID_PARAMETER, s)
             else let (ok, s) = read_peer_key k kax kay s
                  in if \<not> ok then (Inl CTAP1_ERR_INVALID_PARAMETER, s)
                     else let ((ret, sharedSecret), s) = ecdh k proto (hkey_Qp s) s
                          in if ret \<noteq> 0 then (Inl CTAP1_ERR_INVALID_PARAMETER, s)
                             else if \<not> verify k proto sharedSecret (u16_take newPin) param
                             then (Inl CTAP2_ERR_PIN_AUTH_INVALID, s)
                             else let plain_len = (if pinUvAuthProtocol r = 1 then n else n - IV_SIZE) mod 65536
                                  in if plain_len > 256 + IV_SIZE then (Inl CTAP1_ERR_INVALID_PARAMETER, s)
                                     else let (ret, plain) = decrypt k proto sharedSecret (u16_take newPin)
                                          in if ret \<noteq> PICOKEYS_OK then (Inl CTAP2_ERR_PIN_AUTH_INVALID, s)
                                             else (case new_pin_check k (fit (256 + IV_SIZE) plain) plain_len s of
                                               None \<Rightarrow> (Inl CTAP2_ERR_PIN_POLICY_VIOLATION, s)
                                             | Some pin \<Rightarrow>
                                                 let dhash = snd (sdk_digest k MD_SHA256 pin);
                                                     (_, s) = file_put_data k ef_pin (pin_record k pin dhash) s;
                                                     s = flash_commit s;
                                                     s = s\<lparr>session_pin := sdk_pin_session k (take 16 dhash)\<rparr>;
                                                     (ret, s) = check_keydev_encrypted k (session_pin s) s
                                                 in if ret \<noteq> PICOKEYS_OK then (Inl (CTAP_RC ret), s)
                                                    else (Inr [], s\<lparr>new_pin_mismatches := 0, needs_power_cycle := False\<rparr>))
      | _ \<Rightarrow> (Inl CTAP2_ERR_MISSING_PARAMETER, s))"

subsection \<open>Changing the PIN\<close>

text \<open>Whether the minimum length file demands a change of the PIN, and clearing the demand.\<close>

definition force_change_pin :: "'a plat_scheme \<Rightarrow> bool" where
  "force_change_pin s =
     (let ef = file_search s EF_MINPINLEN in file_has_data s ef \<and> byte_at (file_get_data s ef) 1 = 1)"

definition clear_force_change :: "sdk \<Rightarrow> 'a plat_scheme \<Rightarrow> 'a plat_scheme" where
  "clear_force_change k s =
     (let ef = file_search s EF_MINPINLEN
      in if force_change_pin s then snd (file_put_data k ef ((file_get_data s ef)[1 := 0]) s) else s)"

text \<open>The end of the command, once the current PIN was right and its record restored.\<close>

definition change_pin_finish ::
    "sdk \<Rightarrow> client_pin_req \<Rightarrow> bytes \<Rightarrow> bytes \<Rightarrow> bytes \<Rightarrow> 'a fido_scheme \<Rightarrow> (ctap_error + bytes) \<times> 'a fido_scheme" where
  "change_pin_finish k r sharedSecret newPin keydev0 s =
     (let proto = ucast (pinUvAuthProtocol r); ef_pin = file_search s EF_PIN; n = length newPin;
          plain_len = (if pinUvAuthProtocol r = 1 then n else n - IV_SIZE) mod 65536
      in if plain_len > 256 + IV_SIZE then (Inl CTAP1_ERR_INVALID_PARAMETER, s)
         else let (ret, plain) = decrypt k proto sharedSecret (u16_take newPin)
              in if ret \<noteq> PICOKEYS_OK then (Inl CTAP2_ERR_PIN_AUTH_INVALID, s)
                 else (case new_pin_check k (fit (256 + IV_SIZE) plain) plain_len s of
                   None \<Rightarrow> (Inl CTAP2_ERR_PIN_POLICY_VIOLATION, s)
                 | Some pin \<Rightarrow>
                     let (ret, keydev, s) = load_keydev k keydev0 s
                     in if ret \<noteq> PICOKEYS_OK then (Inl CTAP2_ERR_PIN_INVALID, s)
                        else let (_, s) = encrypt_keydev_f1 k keydev s;
                                 dhash = snd (sdk_digest k MD_SHA256 pin);
                                 s = s\<lparr>session_pin := sdk_pin_session k (take 16 dhash)\<rparr>;
                                 (ret, s) = check_keydev_encrypted k (session_pin s) s
                             in if ret \<noteq> PICOKEYS_OK then (Inl (CTAP_RC ret), s)
                                else let s = flash_commit s; rec = pin_record k pin dhash
                                     in if force_change_pin s \<and>
                                           drop 3 rec = take 32 (drop 3 (file_get_data s ef_pin))
                                        then (Inl CTAP2_ERR_PIN_POLICY_VIOLATION, s)
                                        else let (_, s) = file_put_data k ef_pin rec s;
                                                 s = flash_commit (clear_force_change k s);
                                                 s = resetPersistentPinUvAuthToken k (resetPinUvAuthToken k s)
                                             in (Inr [], s\<lparr>needs_power_cycle := False\<rparr>)))"

definition change_pin :: "sdk \<Rightarrow> client_pin_req \<Rightarrow> 'a fido_scheme \<Rightarrow> (ctap_error + bytes) \<times> 'a fido_scheme" where
  "change_pin k r s =
     (case (cose_kax (req_cose r), cose_kay (req_cose r), newPinEnc r, pinUvAuthParam r, pinHashEnc r) of
        (Some kax, Some kay, Some newPin, Some param, Some pinHash) \<Rightarrow>
          let proto = ucast (pinUvAuthProtocol r); ef_pin = file_search s EF_PIN; n = length newPin
          in if pinUvAuthProtocol r = 0 \<or> cose_alg (req_cose r) = 0 then (Inl CTAP2_ERR_MISSING_PARAMETER, s)
             else if pinUvAuthProtocol r \<noteq> 1 \<and> pinUvAuthProtocol r \<noteq> 2 then (Inl CTAP1_ERR_INVALID_PARAMETER, s)
             else if \<not> file_has_data s ef_pin then (Inl CTAP2_ERR_PIN_NOT_SET, s)
             else if file_get_data s ef_pin ! 0 = 0 then (Inl CTAP2_ERR_PIN_BLOCKED, s)
             else if (pinUvAuthProtocol r = 1 \<and> (n < 64 \<or> n mod 16 \<noteq> 0 \<or> length pinHash \<noteq> 16)) \<or>
                     (pinUvAuthProtocol r = 2 \<and>
                      (n < 64 + IV_SIZE \<or> (n - IV_SIZE) mod 16 \<noteq> 0 \<or> length pinHash \<noteq> 16 + IV_SIZE))
             then (Inl CTAP1_ERR_INVALID_PARAMETER, s)
             else if (pinUvAuthProtocol r = 1 \<and> n > 256) \<or> (pinUvAuthProtocol r = 2 \<and> n > 256 + IV_SIZE)
             then (Inl CTAP1_ERR_INVALID_PARAMETER, s)
             else let (ok, s) = read_peer_key k kax kay s
                  in if \<not> ok then (Inl CTAP1_ERR_INVALID_PARAMETER, s)
                     else if needs_power_cycle s then (Inl CTAP2_ERR_PIN_AUTH_BLOCKED, s)
                     else let ((ret, sharedSecret), s) = ecdh k proto (hkey_Qp s) s
                          in if ret \<noteq> 0 then (Inl CTAP1_ERR_INVALID_PARAMETER, s)
                             else if \<not> verify k proto sharedSecret (u16_take (newPin @ pinHash)) param
                             then (Inl CTAP2_ERR_PIN_AUTH_INVALID, s)
                             else (case check_pin_hash k proto sharedSecret pinHash s of
                               (Inl e, s) \<Rightarrow> (Inl e, s)
                             | (Inr (pin_data, pin, keydev), s) \<Rightarrow>
                                 let s = s\<lparr>session_pin := sdk_pin_session k pin\<rparr>;
                                     pin_data = pin_data[0 := MAX_PIN_RETRIES];
                                     (_, s) = file_put_data k ef_pin pin_data s;
                                     s = flash_commit s;
                                     (ret, s) = check_keydev_encrypted k (session_pin s) s
                                 in if ret \<noteq> PICOKEYS_OK then (Inl (CTAP_RC ret), s)
                                    else change_pin_finish k r sharedSecret newPin keydev
                                           (s\<lparr>new_pin_mismatches := 0\<rparr>))
      | _ \<Rightarrow> (Inl CTAP2_ERR_MISSING_PARAMETER, s))"

subsection \<open>Obtaining a token\<close>

text \<open>The checks on the requested permissions; \<open>None\<close> lets the request pass.\<close>

definition permission_error :: "client_pin_req \<Rightarrow> ctap_error option" where
  "permission_error r =
     (if subcommand r = 0x5 \<and> (req_permissions r \<noteq> 0 \<or> rpId r \<noteq> None) then Some CTAP1_ERR_INVALID_PARAMETER
      else if subcommand r = 0x9
      then if req_permissions r = 0 then Some CTAP1_ERR_INVALID_PARAMETER
           else if req_permissions r AND CTAP_PERMISSION_BE \<noteq> 0 then Some CTAP2_ERR_UNAUTHORIZED_PERMISSION
           else if req_permissions r AND CTAP_PERMISSION_PCMR \<noteq> 0 \<and> req_permissions r \<noteq> CTAP_PERMISSION_PCMR
           then Some CTAP2_ERR_UNAUTHORIZED_PERMISSION
           else None
      else None)"

text \<open>
  The token handed out: the persistent one for the read-only permission, a fresh one
  otherwise, bound to the relying party when the request names one.
\<close>

definition issue_token :: "sdk \<Rightarrow> client_pin_req \<Rightarrow> 'a fido_scheme \<Rightarrow> bytes \<times> 'a fido_scheme" where
  "issue_token k r s =
     (if req_permissions r AND CTAP_PERMISSION_PCMR \<noteq> 0
      then let s = s\<lparr>ppaut := (ppaut s)\<lparr>ppaut_permissions := CTAP_PERMISSION_PCMR\<rparr>\<rparr>
           in (ppaut_data (ppaut s), s)
      else let s = beginUsingPinUvAuthToken False (resetPinUvAuthToken k s);
               perms = (if subcommand r = 0x05 then CTAP_PERMISSION_MC OR CTAP_PERMISSION_GA
                        else req_permissions r);
               s = s\<lparr>paut := (paut s)\<lparr>permissions := ucast perms\<rparr>\<rparr>;
               s = (case rpId r of
                      Some rp \<Rightarrow> s\<lparr>paut := (paut s)\<lparr>rp_id_hash := snd (sdk_digest k MD_SHA256 rp),
                                     has_rp_id := True\<rparr>\<rparr>
                    | None \<Rightarrow> s\<lparr>paut := (paut s)\<lparr>has_rp_id := False\<rparr>\<rparr>)
           in (paut_data (paut s), s))"

definition get_token_finish ::
    "sdk \<Rightarrow> client_pin_req \<Rightarrow> bytes \<Rightarrow> 'a fido_scheme \<Rightarrow> (ctap_error + bytes) \<times> 'a fido_scheme" where
  "get_token_finish k r sharedSecret s =
     (if force_change_pin s
      then (Inl (if subcommand r = 0x09 \<and> req_permissions r = CTAP_PERMISSION_ACFG \<and> rpId r = None
                 then CTAP2_ERR_PIN_POLICY_VIOLATION else CTAP2_ERR_PIN_INVALID), s)
      else let proto = ucast (pinUvAuthProtocol r);
               (token, s) = issue_token k r s;
               ((_, enc), s) = encrypt k proto sharedSecret (fit 32 token) s;
               poff = (if pinUvAuthProtocol r = 1 then 0 else IV_SIZE)
           in case cbor_emit k (CMap [CUInt 0x02, CBytes (fit (32 + poff) enc)]) of
                Inl e \<Rightarrow> (Inl e, s)
              | Inr d \<Rightarrow> (Inr d, s\<lparr>needs_power_cycle := False\<rparr>))"

definition get_token :: "sdk \<Rightarrow> client_pin_req \<Rightarrow> 'a fido_scheme \<Rightarrow> (ctap_error + bytes) \<times> 'a fido_scheme" where
  "get_token k r s =
     (case (cose_kax (req_cose r), cose_kay (req_cose r), pinHashEnc r) of
        (Some kax, Some kay, Some pinHash) \<Rightarrow>
          let proto = ucast (pinUvAuthProtocol r); ef_pin = file_search s EF_PIN
          in if pinUvAuthProtocol r = 0 \<or> cose_alg (req_cose r) = 0 then (Inl CTAP2_ERR_MISSING_PARAMETER, s)
             else if pinUvAuthProtocol r \<noteq> 1 \<and> pinUvAuthProtocol r \<noteq> 2 then (Inl CTAP1_ERR_INVALID_PARAMETER, s)
             else (case permission_error r of
               Some e \<Rightarrow> (Inl e, s)
             | None \<Rightarrow>
                 if \<not> file_has_data s ef_pin then (Inl CTAP2_ERR_PIN_NOT_SET, s)
                 else if file_get_data s ef_pin ! 0 = 0 then (Inl CTAP2_ERR_PIN_BLOCKED, s)
                 else let (ok, s) = read_peer_key k kax kay s
                      in if \<not> ok then (Inl CTAP1_ERR_INVALID_PARAMETER, s)
                         else if needs_power_cycle s then (Inl CTAP2_ERR_PIN_AUTH_BLOCKED, s)
                         else let ((ret, sharedSecret), s) = ecdh k proto (hkey_Qp s) s
                              in if ret \<noteq> 0 then (Inl CTAP1_ERR_INVALID_PARAMETER, s)
                                 else (case check_pin_hash k proto sharedSecret pinHash s of
                                   (Inl e, s) \<Rightarrow> (Inl e, s)
                                 | (Inr (pin_data, pin, keydev), s) \<Rightarrow>
                                     let s = s\<lparr>session_pin := sdk_pin_session k pin\<rparr>;
                                         (ret, s) = check_keydev_encrypted k (session_pin s) s
                                     in if ret \<noteq> PICOKEYS_OK then (Inl (CTAP_RC ret), s)
                                        else let pin_data = pin_data[0 := MAX_PIN_RETRIES];
                                                 s = s\<lparr>new_pin_mismatches := 0\<rparr>;
                                                 (_, s) = file_put_data k ef_pin pin_data s
                                             in get_token_finish k r sharedSecret (flash_commit s)))
      | _ \<Rightarrow> (Inl CTAP2_ERR_MISSING_PARAMETER, s))"

subsection \<open>The command\<close>

definition client_pin_subcommand ::
    "sdk \<Rightarrow> client_pin_req \<Rightarrow> 'a fido_scheme \<Rightarrow> (ctap_error + bytes) \<times> 'a fido_scheme" where
  "client_pin_subcommand k r s =
     (if subcommand r = 0x0 then (Inl CTAP2_ERR_MISSING_PARAMETER, s)
      else if subcommand r = 0x1 then get_pin_retries k s
      else if subcommand r = 0x2 then get_key_agreement k r s
      else if subcommand r = 0x3 then set_pin k r s
      else if subcommand r = 0x4 then change_pin k r s
      else if subcommand r = 0x9 \<or> subcommand r = 0x5 then get_token k r s
      else (Inl CTAP2_ERR_UNSUPPORTED_OPTION, s))"

definition cbor_client_pin :: "sdk \<Rightarrow> bytes \<Rightarrow> 'a fido_scheme \<Rightarrow> ctap_error option \<times> 'a fido_scheme" where
  "cbor_client_pin k d s =
     (case sdk_cbor_dec k d of
        Inl e \<Rightarrow> (ctap_status (Some (CborError e)), s)
      | Inr m \<Rightarrow>
          let s = (if \<not> hkey_init s then initialize k s else s)
          in case cbor_map client_pin_field client_pin_init m of
               Inl e \<Rightarrow> (ctap_status (Some e), s)
             | Inr r \<Rightarrow>
                 (case client_pin_subcommand k r s of
                    (Inl e, s) \<Rightarrow> (ctap_status (Some e), s)
                  | (Inr resp, s) \<Rightarrow> (None, s\<lparr>res_APDU := resp\<rparr>)))"

end
