(* ===== verification/Retry.thy ===== *)
theory Retry
  imports Platform
begin

text \<open>
  The contract of a try-limited secret, shared by the PIN of the OATH applet and the FIDO
  client PIN: a stored retry counter, spent before a guess is compared. A guess ends in one
  of three ways. \<open>Accepted\<close> and \<open>Rejected\<close> tell the caller whether the guess was right;
  \<open>Refused\<close> (no tries left, a storage error, a malformed request) tells nothing about it.

  The locale \<open>retry_limited\<close> states what an implementation promises for a single guess; its
  lemmas bound what any sequence of guesses can learn.
\<close>

datatype verdict = Accepted | Rejected | Refused

fun guess_all :: "('s \<Rightarrow> 'p \<Rightarrow> verdict \<times> 's) \<Rightarrow> 's \<Rightarrow> 'p list \<Rightarrow> verdict list \<times> 's" where
  "guess_all attempt s [] = ([], s)"
| "guess_all attempt s (p # ps) =
     (let (v, t) = attempt s p; (vs, u) = guess_all attempt t ps in (v # vs, u))"

text \<open>Every guess of a sequence is wrong in the state it is made in.\<close>

fun wrong_run :: "('s \<Rightarrow> 'p \<Rightarrow> verdict \<times> 's) \<Rightarrow> ('s \<Rightarrow> 'p \<Rightarrow> bool) \<Rightarrow> 's \<Rightarrow> 'p list \<Rightarrow> bool" where
  "wrong_run attempt right s [] = True"
| "wrong_run attempt right s (p # ps) =
     (\<not> right s p \<and> wrong_run attempt right (snd (attempt s p)) ps)"

locale retry_spent =
  fixes attempt :: "'s \<Rightarrow> 'p \<Rightarrow> verdict \<times> 's"
    and inv :: "'s \<Rightarrow> bool"
    and retries :: "'s \<Rightarrow> nat"
    and right :: "'s \<Rightarrow> 'p \<Rightarrow> bool"
  assumes inv_attempt: "\<And>s p v t. inv s \<Longrightarrow> \<not> right s p \<Longrightarrow> attempt s p = (v, t) \<Longrightarrow> inv t"
    and accepted_right: "\<And>s p t. inv s \<Longrightarrow> attempt s p = (Accepted, t) \<Longrightarrow> right s p"
    and rejected_spends: "\<And>s p t. inv s \<Longrightarrow> \<not> right s p \<Longrightarrow> attempt s p = (Rejected, t) \<Longrightarrow>
      Suc (retries t) \<le> retries s"
    and refused_keeps: "\<And>s p t. inv s \<Longrightarrow> \<not> right s p \<Longrightarrow> attempt s p = (Refused, t) \<Longrightarrow>
      retries t \<le> retries s"
begin

lemma wrong_run_rejected:
  assumes "inv s" and "wrong_run attempt right s ps" and "guess_all attempt s ps = (vs, t)"
  shows "Accepted \<notin> set vs \<and> count_list vs Rejected + retries t \<le> retries s"
  using assms
proof (induction ps arbitrary: s vs)
  case Nil
  then show ?case by simp
next
  case (Cons p ps)
  obtain v u where a: "attempt s p = (v, u)" by (cases "attempt s p")
  obtain ws w where g: "guess_all attempt u ps = (ws, w)" by (cases "guess_all attempt u ps")
  have vs: "vs = v # ws" and t: "w = t" using Cons.prems(3) a g by auto
  have n: "\<not> right s p" and r: "wrong_run attempt right u ps" using Cons.prems(2) a by auto
  have v: "v \<noteq> Accepted" using accepted_right [OF Cons.prems(1)] a n by auto
  have iu: "inv u" using inv_attempt [OF Cons.prems(1) n a] .
  have IH: "Accepted \<notin> set ws \<and> count_list ws Rejected + retries t \<le> retries u"
    using Cons.IH [OF iu r] g t by simp
  show ?case
  proof (cases v)
    case Accepted
    with v show ?thesis by simp
  next
    case Rejected
    then have "Suc (retries u) \<le> retries s" using rejected_spends [OF Cons.prems(1) n] a by simp
    with IH Rejected vs show ?thesis by simp
  next
    case Refused
    then have "retries u \<le> retries s" using refused_keeps [OF Cons.prems(1) n] a by simp
    with IH Refused vs show ?thesis by simp
  qed
qed

end

text \<open>When the secret cannot change under a failing guess, wrongness need be known only at the start.\<close>

locale retry_limited = retry_spent +
  assumes accepted_tries: "\<And>s p t. inv s \<Longrightarrow> attempt s p = (Accepted, t) \<Longrightarrow> 0 < retries s"
    and wrong_same_secret: "\<And>s p q v t. inv s \<Longrightarrow> attempt s p = (v, t) \<Longrightarrow> v \<noteq> Accepted \<Longrightarrow>
      right t q \<Longrightarrow> right s q"
    and rejected_wrong: "\<And>s p t. inv s \<Longrightarrow> attempt s p = (Rejected, t) \<Longrightarrow> \<not> right s p"
    and refused_keeps_all: "\<And>s p t. inv s \<Longrightarrow> attempt s p = (Refused, t) \<Longrightarrow> retries t \<le> retries s"
    and refused_inv: "\<And>s p t. inv s \<Longrightarrow> attempt s p = (Refused, t) \<Longrightarrow> inv t"
begin

lemma wrong_guesses_run:
  assumes "inv s" and "\<forall>p \<in> set ps. \<not> right s p"
  shows "wrong_run attempt right s ps"
  using assms
proof (induction ps arbitrary: s)
  case Nil
  then show ?case by simp
next
  case (Cons p ps)
  obtain v u where a: "attempt s p = (v, u)" by (cases "attempt s p")
  have v: "v \<noteq> Accepted" using accepted_right [OF Cons.prems(1)] a Cons.prems(2) by auto
  have "\<forall>q \<in> set ps. \<not> right u q"
    using Cons.prems(2) wrong_same_secret [OF Cons.prems(1) a v] by auto
  with Cons.IH [OF inv_attempt [OF Cons.prems(1) _ a]] Cons.prems(2) a show ?case by simp
qed

lemma wrong_guesses_rejected:
  assumes "inv s" and "\<forall>p \<in> set ps. \<not> right s p" and "guess_all attempt s ps = (vs, t)"
  shows "Accepted \<notin> set vs \<and> count_list vs Rejected + retries t \<le> retries s"
  by (rule wrong_run_rejected [OF assms(1) wrong_guesses_run [OF assms(1,2)] assms(3)])

lemma exhausted_refuses:
  assumes "inv s" and "retries s = 0" and "attempt s p = (v, t)"
  shows "v = Refused \<and> retries t = 0"
proof (cases v)
  case Accepted
  with assms have False using accepted_tries [of s p t] by simp
  then show ?thesis ..
next
  case Rejected
  with assms have False using rejected_spends [of s p t] rejected_wrong [of s p t] by simp
  then show ?thesis ..
next
  case Refused
  with assms show ?thesis using refused_keeps_all [of s p t] by simp
qed

lemma exhausted_stays:
  assumes "inv s" and "retries s = 0" and "guess_all attempt s ps = (vs, t)"
  shows "set vs \<subseteq> {Refused}"
  using assms
proof (induction ps arbitrary: s vs)
  case Nil
  then show ?case by simp
next
  case (Cons p ps)
  obtain v u where a: "attempt s p = (v, u)" by (cases "attempt s p")
  obtain ws w where g: "guess_all attempt u ps = (ws, w)" by (cases "guess_all attempt u ps")
  have v: "v = Refused" "retries u = 0" using exhausted_refuses [OF Cons.prems(1,2) a] by simp_all
  then have "inv u" using refused_inv [OF Cons.prems(1)] a by simp
  then have "set ws \<subseteq> {Refused}" using Cons.IH [OF _ v(2)] g Cons.prems(3) a by simp
  then show ?case using Cons.prems(3) a g v(1) by auto
qed

end

end
