(* ===== verification/Ref_Platform.thy ===== *)
theory Ref_Platform
  imports Platform
begin

text \<open>
  A concrete platform on which the properties are exercised. Its storage behaves like the
  test double of \<open>tests/fido_resident_container_test.c\<close> (a fixed capacity per file, writes
  past it refused, deletion of a missing file refused, commits that succeed), its TLV walk
  is the one-byte-tag BER-TLV format the applets exchange, and its cryptographic functions
  are transparent stand-ins with the documented lengths. Nothing in the model depends on it:
  every property is stated for an arbitrary platform with the named laws.
\<close>

subsection \<open>Storage\<close>

definition ref_put :: "nat \<Rightarrow> files \<Rightarrow> fid option \<Rightarrow> bytes \<Rightarrow> rc \<times> files" where
  "ref_put n fs p d = (case p of None \<Rightarrow> (PICOKEYS_ERR_NO_MEMORY, fs)
     | Some f \<Rightarrow> if length d > 1024 then (PICOKEYS_ERR_NO_MEMORY, fs)
                 else (PICOKEYS_OK, fs(f \<mapsto> d)))"

definition ref_new :: "nat \<Rightarrow> files \<Rightarrow> fid \<Rightarrow> fid option \<times> files" where
  "ref_new n fs f = (Some f, if fs f = None then fs(f \<mapsto> []) else fs)"

definition ref_delete :: "nat \<Rightarrow> files \<Rightarrow> fid option \<Rightarrow> rc \<times> files" where
  "ref_delete n fs p = (case p of None \<Rightarrow> (PICOKEYS_ERR_FILE_NOT_FOUND, fs)
     | Some f \<Rightarrow> if fs f = None then (PICOKEYS_ERR_FILE_NOT_FOUND, fs)
                 else (PICOKEYS_OK, fs(f := None)))"

definition ref_clear :: "nat \<Rightarrow> files \<Rightarrow> fid option \<Rightarrow> files" where
  "ref_clear n fs p = (case p of None \<Rightarrow> fs
     | Some f \<Rightarrow> if fs f = None then fs else fs(f \<mapsto> []))"

definition ref_dynamic :: "files \<Rightarrow> fid list" where
  "ref_dynamic fs =
     filter (\<lambda>f. fs f \<noteq> None) (map (\<lambda>i. 0xBA00 + word_of_nat i) [0..<256])"

subsection \<open>TLV\<close>

text \<open>The value region of the next entry, for the three forms of the length.\<close>

fun ref_tlv_head :: "bytes \<Rightarrow> (nat \<times> nat) option" where
  "ref_tlv_head (t # l # d) =
     (if l < 0x80 then Some (2, unat l)
      else if l = 0x81 then (case d of a # _ \<Rightarrow> Some (3, unat a) | _ \<Rightarrow> None)
      else if l = 0x82 then (case d of a # b # _ \<Rightarrow> Some (4, unat a * 256 + unat b) | _ \<Rightarrow> None)
      else None)"
| "ref_tlv_head _ = None"

fun ref_tlv_walk_from :: "nat \<Rightarrow> nat \<Rightarrow> bytes \<Rightarrow> (u16 \<times> region) list" where
  "ref_tlv_walk_from 0 pos d = []"
| "ref_tlv_walk_from (Suc n) pos d =
     (case ref_tlv_head (drop pos d) of
        None \<Rightarrow> []
      | Some (h, len) \<Rightarrow>
          if pos + h + len \<le> length d
          then (ucast (d ! pos), pos + h, len) # ref_tlv_walk_from n (pos + h + len) d
          else [])"

definition ref_tlv_walk :: "bytes \<Rightarrow> (u16 \<times> region) list" where
  "ref_tlv_walk d = ref_tlv_walk_from (length d) 0 d"

definition ref_tlv_find :: "bytes \<Rightarrow> u16 \<Rightarrow> region option" where
  "ref_tlv_find d t = map_of (ref_tlv_walk d) t"

definition ref_format_len :: "nat \<Rightarrow> bytes" where
  "ref_format_len n =
     (if n < 128 then [word_of_nat n]
      else if n < 256 then [0x81, word_of_nat n]
      else [0x82, word_of_nat (n div 256), word_of_nat (n mod 256)])"

definition ref_len_tag :: "u16 \<Rightarrow> nat \<Rightarrow> nat" where
  "ref_len_tag t n = (if t > 0xff then 2 else 1) + length (ref_format_len n) + n"

subsection \<open>Integers and cryptography\<close>

definition ref_get_be :: "nat \<Rightarrow> bytes \<Rightarrow> nat" where
  "ref_get_be n d = foldl (\<lambda>v b. v * 256 + unat b) 0 (fit n d)"

fun ref_put_be :: "nat \<Rightarrow> nat \<Rightarrow> bytes" where
  "ref_put_be 0 v = []"
| "ref_put_be (Suc n) v = ref_put_be n (v div 256) @ [word_of_nat (v mod 256)]"

definition ref_md_size :: "md \<Rightarrow> nat" where
  "ref_md_size m = (case m of MD_SHA1 \<Rightarrow> 20 | MD_SHA256 \<Rightarrow> 32 | MD_SHA384 \<Rightarrow> 48 | MD_SHA512 \<Rightarrow> 64)"

text \<open>
  A small codec for the CBOR the examples exchange: integers below 24, strings of fewer than
  24 bytes or with a one-byte length, and maps of fewer than 24 entries.
\<close>

fun ref_cbor_items :: "nat \<Rightarrow> nat \<Rightarrow> bytes \<Rightarrow> cbor list \<times> bytes" where
  "ref_cbor_items 0 n d = ([], d)"
| "ref_cbor_items (Suc fuel) 0 d = ([], d)"
| "ref_cbor_items (Suc fuel) (Suc n) [] = ([CBad 257], [])"
| "ref_cbor_items (Suc fuel) (Suc n) (h # d) =
     (let v = unat (h AND 0x1f); (len, d) = (if v = 24 then (unat (hd d), tl d) else (v, d));
          (item, d) =
            (if h < 0x20 then (CUInt (word_of_nat len), d)
             else if h < 0x40 then (CNInt (word_of_nat len), d)
             else if h < 0x60 then (CBytes (take len d), drop len d)
             else if h < 0x80 then (CText (take len d), drop len d)
             else if h \<ge> 0xa0 \<and> h < 0xb8
             then (let (xs, d) = ref_cbor_items fuel (2 * v) d in (CMap xs, d))
             else if h = 0xf5 then (CBool True, d) else if h = 0xf4 then (CBool False, d)
             else (COther, d));
          (items, d) = ref_cbor_items fuel n d
      in (item # items, d))"

definition ref_cbor_dec :: "bytes \<Rightarrow> int + cbor" where
  "ref_cbor_dec d = (if d = [] then Inl 257 else Inr (hd (fst (ref_cbor_items (2 * length d) 1 d))))"

definition ref_cbor_head :: "byte \<Rightarrow> nat \<Rightarrow> bytes" where
  "ref_cbor_head m n = (if n < 24 then [m + word_of_nat n] else [m + 24, word_of_nat n])"

fun ref_cbor_bytes :: "cbor \<Rightarrow> bytes" where
  "ref_cbor_bytes (CUInt v) = ref_cbor_head 0 (unat v)"
| "ref_cbor_bytes (CNInt v) = ref_cbor_head 0x20 (unat v)"
| "ref_cbor_bytes (CBytes d) = ref_cbor_head 0x40 (length d) @ d"
| "ref_cbor_bytes (CText d) = ref_cbor_head 0x60 (length d) @ d"
| "ref_cbor_bytes (CBool b) = [if b then 0xf5 else 0xf4]"
| "ref_cbor_bytes (CArray xs) = ref_cbor_head 0x80 (length xs) @ concat (map ref_cbor_bytes xs)"
| "ref_cbor_bytes (CMap xs) = ref_cbor_head 0xa0 (length xs div 2) @ concat (map ref_cbor_bytes xs)"
| "ref_cbor_bytes COther = [0xf6]"
| "ref_cbor_bytes (CBad e) = []"

definition ref_cbor_enc :: "cbor \<Rightarrow> int + bytes" where
  "ref_cbor_enc c = Inr (ref_cbor_bytes c)"

text \<open>The values this codec can carry, and the encoder that refuses the others.\<close>

fun ref_cbor_small :: "cbor \<Rightarrow> bool" where
  "ref_cbor_small (CUInt v) = (v < 256)"
| "ref_cbor_small (CNInt v) = (v < 256)"
| "ref_cbor_small (CBytes d) = (length d < 256)"
| "ref_cbor_small (CText d) = (length d < 256)"
| "ref_cbor_small (CBool b) = True"
| "ref_cbor_small (CMap xs) = (length xs < 48 \<and> even (length xs) \<and> list_all ref_cbor_small xs)"
| "ref_cbor_small c = False"

definition ref_cbor_enc_buf :: "nat \<Rightarrow> cbor \<Rightarrow> int + bytes" where
  "ref_cbor_enc_buf n c =
     (if ref_cbor_small c \<and> length (ref_cbor_bytes c) \<le> n then Inr (ref_cbor_bytes c) else Inl (- 1))"

definition ref_sdk :: sdk where
  "ref_sdk =
     \<lparr>sdk_put = ref_put, sdk_new = ref_new, sdk_delete = ref_delete, sdk_clear = ref_clear,
      sdk_commit_sync = (\<lambda>n ms. True), sdk_dynamic = ref_dynamic,
      sdk_random = (\<lambda>n len. replicate len (word_of_nat n)),
      sdk_button = (\<lambda>n. EV_BUTTON_PRESSED), sdk_calloc = (\<lambda>n len. True),
      sdk_buffer_size = 2048,
      sdk_tlv_find = ref_tlv_find, sdk_tlv_walk = ref_tlv_walk,
      sdk_tlv_format_len = ref_format_len, sdk_tlv_len_tag = ref_len_tag,
      sdk_get_u16 = (\<lambda>d. word_of_nat (ref_get_be 2 d)),
      sdk_get_u32 = (\<lambda>d. word_of_nat (ref_get_be 4 d)),
      sdk_get_u64 = (\<lambda>d. word_of_nat (ref_get_be 8 d)),
      sdk_put_u64 = (\<lambda>v. ref_put_be 8 (unat v)),
      sdk_md_size = ref_md_size,
      sdk_hmac = (\<lambda>m key d. (0, fit (ref_md_size m) (key @ d))),
      sdk_hkdf = (\<lambda>m salt ikm info n. (0, fit n (ikm @ info))),
      sdk_kbase = replicate 32 0x5a,
      sdk_aead_enc = (\<lambda>n key d v. (PICOKEYS_OK, replicate 12 0xee @ d @ replicate 16 0xdd)),
      sdk_aead_dec = (\<lambda>key c v. (PICOKEYS_OK, take (length c - 28) (drop 12 c))),
      sdk_pin_verifier = (\<lambda>p. fit 32 p), sdk_double_hash = (\<lambda>p. fit 32 (p @ p)),
      sdk_serial_str = replicate 8 0x31, sdk_serial_hash = replicate 32 0x77,
      sdk_serial_id = replicate 8 0x12, sdk_is_nk = False, sdk_app_exists = (\<lambda>aid. False),
      sdk_pin_session = (\<lambda>p. fit 32 (0x53 # p)), sdk_hash_multi = (\<lambda>p. fit 32 (0x4d # p)),
      sdk_otp_key = None, sdk_digest = (\<lambda>m d. (0, fit (ref_md_size m) d)),
      sdk_aes_enc = (\<lambda>key iv d. (PICOKEYS_OK, rev d)),
      sdk_aes_dec = (\<lambda>key iv c. (PICOKEYS_OK, rev c)),
      sdk_ecdh_setup = (\<lambda>n. 0), sdk_ecdh_gen = (\<lambda>n. (0, replicate 32 (word_of_nat n))),
      sdk_mpi_lset = (\<lambda>n. 0), sdk_mpi_read = (\<lambda>n d. 0), sdk_mpi_write = (\<lambda>z n. (0, fit n z)),
      sdk_ecdh_shared = (\<lambda>n d q. (0, fit 32 (fst q @ d))),
      sdk_ecdh_public = (\<lambda>d. (d, d)),
      sdk_point_write = (\<lambda>q. (0, fst q)), sdk_cbor_dec = ref_cbor_dec, sdk_cbor_enc = ref_cbor_enc,
      sdk_put_u16 = (\<lambda>v. ref_put_be 2 (unat v)),
      sdk_put_u16_le = (\<lambda>v. [ucast v, ucast (drop_bit 8 v)]),
      sdk_get_u16_le = (\<lambda>d. ucast (d ! 0) OR push_bit 8 (ucast (d ! 1))),
      sdk_get_u32_le = (\<lambda>d. word_of_nat (ref_get_be 4 (rev (take 4 d)))),
      sdk_aes_ecb = (\<lambda>key d. (0, rev (take 16 d))),
      sdk_hkdf_inplace = (\<lambda>m salt ikm info d. (0, fit (length d) (salt @ d))),
      sdk_chacha_enc = (\<lambda>key iv aad d. (0, rev d, fit 16 (iv @ aad))),
      sdk_chacha_dec = (\<lambda>key iv aad t c. (if t = fit 16 (iv @ aad) then 0 else - 1, rev c)),
      sdk_rtc_time = (\<lambda>n. None), sdk_scan_flash = (\<lambda>n fs. fs),
      sdk_curve_bits = (\<lambda>c. if c = MBEDTLS_ECP_DP_NONE then None else Some 256),
      sdk_ec_genkey = (\<lambda>n c. (0, \<lparr>kp_grp = c, kp_d = replicate 32 (word_of_nat n), kp_Q = ([], [])\<rparr>)),
      sdk_ec_read_key = (\<lambda>c kp d. (0, kp\<lparr>kp_grp := c, kp_d := d\<rparr>)),
      sdk_ec_write_key = (\<lambda>kp len. (0, length (kp_d kp), kp_d kp)),
      sdk_ec_calc_public = (\<lambda>n kp. (0, kp\<lparr>kp_Q := (kp_d kp, kp_d kp)\<rparr>)),
      sdk_x509_der = (\<lambda>n crt len. (3, [0x30, 1, 0])), sdk_cbor_enc_buf = ref_cbor_enc_buf,
      sdk_point_write_full = (\<lambda>q. (0, 4 # fit 32 (fst q) @ fit 32 (snd q))),
      sdk_ecdsa_sign = (\<lambda>n kp d. (0, fit 70 (kp_d kp @ d))),
      sdk_put_u32 = (\<lambda>v. ref_put_be 4 (unat v)), sdk_ctap_error = SW_SET 0,
      sdk_eddsa_sign = (\<lambda>n kp d. (0, fit 64 (kp_d kp @ d))), sdk_cbor_raw = (\<lambda>d i. d),
      sdk_put_u32_le = (\<lambda>v. rev (ref_put_be 4 (unat v))), sdk_x509_csr = (\<lambda>n csr len. (3, [0x30, 1, 0])),
      sdk_init_flash = (\<lambda>n fs. Map.empty), sdk_enabled_k1 = True, sdk_phy_vid = 0xFEFF,
      sdk_no_power_reset = False\<rparr>"

lemma ref_sdk_sel [simp]:
  "sdk_put ref_sdk = ref_put" "sdk_new ref_sdk = ref_new" "sdk_delete ref_sdk = ref_delete"
  "sdk_clear ref_sdk = ref_clear" "sdk_commit_sync ref_sdk n ms" "sdk_dynamic ref_sdk = ref_dynamic"
  "sdk_random ref_sdk n len = replicate len (word_of_nat n)"
  "sdk_button ref_sdk n = EV_BUTTON_PRESSED" "sdk_calloc ref_sdk n len"
  "sdk_buffer_size ref_sdk = 2048" "sdk_tlv_find ref_sdk = ref_tlv_find"
  "sdk_tlv_walk ref_sdk = ref_tlv_walk" "sdk_tlv_format_len ref_sdk = ref_format_len"
  "sdk_tlv_len_tag ref_sdk = ref_len_tag"
  "sdk_get_u16 ref_sdk d = word_of_nat (ref_get_be 2 d)"
  "sdk_get_u32 ref_sdk d = word_of_nat (ref_get_be 4 d)"
  "sdk_get_u64 ref_sdk d = word_of_nat (ref_get_be 8 d)"
  "sdk_put_u64 ref_sdk w = ref_put_be 8 (unat w)"
  "sdk_md_size ref_sdk = ref_md_size"
  "sdk_hmac ref_sdk m key d = (0, fit (ref_md_size m) (key @ d))"
  "sdk_hkdf ref_sdk m salt ikm info n = (0, fit n (ikm @ info))"
  "sdk_aead_enc ref_sdk n key d v = (PICOKEYS_OK, replicate 12 0xee @ d @ replicate 16 0xdd)"
  "sdk_aead_dec ref_sdk key c v = (PICOKEYS_OK, take (length c - 28) (drop 12 c))"
  "sdk_pin_verifier ref_sdk p = fit 32 p" "sdk_double_hash ref_sdk p = fit 32 (p @ p)"
  "sdk_pin_session ref_sdk p = fit 32 (0x53 # p)" "sdk_hash_multi ref_sdk p = fit 32 (0x4d # p)"
  "sdk_otp_key ref_sdk = None" "sdk_digest ref_sdk m d = (0, fit (ref_md_size m) d)"
  "sdk_aes_enc ref_sdk key iv d = (PICOKEYS_OK, rev d)"
  "sdk_aes_dec ref_sdk key iv d = (PICOKEYS_OK, rev d)"
  "sdk_ecdh_setup ref_sdk n = 0" "sdk_ecdh_gen ref_sdk n = (0, replicate 32 (word_of_nat n))"
  "sdk_mpi_lset ref_sdk n = 0" "sdk_mpi_read ref_sdk n d = 0" "sdk_mpi_write ref_sdk z len = (0, fit len z)"
  "sdk_ecdh_shared ref_sdk n d q = (0, fit 32 (fst q @ d))" "sdk_ecdh_public ref_sdk d = (d, d)"
  "sdk_cbor_dec ref_sdk = ref_cbor_dec" "sdk_cbor_enc ref_sdk = ref_cbor_enc"
  "sdk_put_u16 ref_sdk w2 = ref_put_be 2 (unat w2)" "sdk_put_u16_le ref_sdk w2 = [ucast w2, ucast (drop_bit 8 w2)]"
  "sdk_get_u16_le ref_sdk d = ucast (d ! 0) OR push_bit 8 (ucast (d ! 1))"
  "sdk_get_u32_le ref_sdk d = word_of_nat (ref_get_be 4 (rev (take 4 d)))"
  "sdk_aes_ecb ref_sdk key d = (0, rev (take 16 d))" "sdk_scan_flash ref_sdk n fs = fs"
  "sdk_chacha_enc ref_sdk key nonce aad d = (0, rev d, fit 16 (nonce @ aad))"
  "sdk_chacha_dec ref_sdk key nonce aad t d = (if t = fit 16 (nonce @ aad) then 0 else - 1, rev d)"
  "sdk_rtc_time ref_sdk n = None"
  "sdk_hkdf_inplace ref_sdk m salt from_region info_region d = (0, fit (length d) (salt @ d))"
  "sdk_curve_bits ref_sdk cu = (if cu = MBEDTLS_ECP_DP_NONE then None else Some 256)"
  "sdk_ec_genkey ref_sdk n cu = (0, \<lparr>kp_grp = cu, kp_d = replicate 32 (word_of_nat n), kp_Q = ([], [])\<rparr>)"
  "sdk_ec_read_key ref_sdk cu kp d = (0, kp\<lparr>kp_grp := cu, kp_d := d\<rparr>)"
  "sdk_ec_write_key ref_sdk kp len = (0, length (kp_d kp), kp_d kp)"
  "sdk_ec_calc_public ref_sdk n kp = (0, kp\<lparr>kp_Q := (kp_d kp, kp_d kp)\<rparr>)"
  "sdk_x509_der ref_sdk n crt len = (3, [0x30, 1, 0])" "sdk_cbor_enc_buf ref_sdk = ref_cbor_enc_buf"
  "sdk_point_write_full ref_sdk q = (0, 4 # fit 32 (fst q) @ fit 32 (snd q))"
  "sdk_ecdsa_sign ref_sdk n kp d = (0, fit 70 (kp_d kp @ d))" "sdk_put_u32 ref_sdk v4 = ref_put_be 4 (unat v4)" "sdk_serial_str ref_sdk = replicate 8 0x31"
  "sdk_serial_id ref_sdk = replicate 8 0x12"
  "sdk_kbase ref_sdk = replicate 32 0x5a" "sdk_serial_hash ref_sdk = replicate 32 0x77"
  by (simp_all add: ref_sdk_def)

text \<open>The definitions a concrete run on this platform unfolds.\<close>

lemmas ref_eval = ref_put_def ref_new_def ref_delete_def ref_clear_def ref_tlv_find_def
  ref_tlv_walk_def ref_md_size_def plat_ops file_reads tlv_get_def Let_def fit_def

subsection \<open>The laws hold\<close>

lemma ref_flash_laws: "flash_laws ref_sdk"
  unfolding flash_laws_def put_law_def new_law_def delete_law_def clear_law_def
  by (auto simp: ref_sdk_def ref_put_def ref_new_def ref_delete_def ref_clear_def
      split: option.splits if_splits)

lemma ref_put_law: "put_law ref_sdk" and ref_new_law: "new_law ref_sdk"
  and ref_delete_law: "delete_law ref_sdk" and ref_clear_law: "clear_law ref_sdk"
  using ref_flash_laws by (simp_all add: flash_laws_def)

lemma ref_dynamic_law: "dynamic_law ref_sdk"
proof -
  have d: "distinct (map (\<lambda>i. 0xBA00 + word_of_nat i :: fid) [0..<256])"
    by (auto simp: distinct_map inj_on_def word_of_nat_eq_iff take_bit_eq_mod)
  have m: "f \<in> (\<lambda>i. 0xBA00 + word_of_nat i) ` {0..<256}" if "0xBA00 \<le> f" "f \<le> 0xBAFF" for f :: fid
  proof -
    have "unat (f - 0xBA00) < 256"
      using that by (simp add: unat_sub word_le_nat_alt)
    moreover have "f = 0xBA00 + word_of_nat (unat (f - 0xBA00))" by simp
    ultimately show ?thesis by (metis atLeastLessThan_iff imageI zero_le)
  qed
  show ?thesis
    unfolding dynamic_law_def using d m by (auto simp: ref_sdk_def ref_dynamic_def)
qed

lemma ref_tlv_head_ge: "ref_tlv_head d = Some (h, len) \<Longrightarrow> 2 \<le> h"
  by (cases d rule: ref_tlv_head.cases) (auto split: if_splits list.splits)

lemma ref_tlv_walk_from_bounds:
  "(t, off, len) \<in> set (ref_tlv_walk_from n pos d) \<Longrightarrow> pos + 2 \<le> off \<and> off + len \<le> length d"
proof (induction n arbitrary: pos)
  case 0
  then show ?case by simp
next
  case (Suc n)
  show ?case
  proof (cases "ref_tlv_head (drop pos d)")
    case None
    with Suc.prems show ?thesis by simp
  next
    case (Some hl)
    obtain h l where hl: "hl = (h, l)" by (cases hl)
    have h: "2 \<le> h" using ref_tlv_head_ge Some hl by blast
    have le: "pos + h + l \<le> length d"
      and mem: "off = pos + h \<and> len = l \<or> (t, off, len) \<in> set (ref_tlv_walk_from n (pos + h + l) d)"
      using Suc.prems Some hl by (auto split: if_splits)
    from mem show ?thesis
    proof
      assume "off = pos + h \<and> len = l"
      with h le show ?thesis by simp
    next
      assume "(t, off, len) \<in> set (ref_tlv_walk_from n (pos + h + l) d)"
      from Suc.IH [OF this] h show ?thesis by simp
    qed
  qed
qed

lemma ref_tlv_law: "tlv_law ref_sdk"
proof -
  have "2 \<le> off \<and> off + len \<le> length d" if "ref_tlv_find d t = Some (off, len)" for d t off len
    using ref_tlv_walk_from_bounds [of t off len "length d" 0 d] map_of_SomeD [of "ref_tlv_walk d" t] that
    by (simp add: ref_tlv_find_def ref_tlv_walk_def)
  then show ?thesis by (simp add: tlv_law_def ref_sdk_def)
qed

lemma ref_md_law: "md_law ref_sdk"
  by (simp add: md_law_def ref_sdk_def ref_md_size_def)

lemma ref_aead_law: "aead_law ref_sdk"
  by (simp add: aead_law_def ref_sdk_def)

lemma ref_aes_law: "aes_law ref_sdk"
  by (simp add: aes_law_def)

lemma ref_random_law: "random_law ref_sdk"
  by (simp add: random_law_def)

lemma ref_session_law: "session_law ref_sdk"
  by (simp add: session_law_def)

lemma ref_verifier_law: "verifier_law ref_sdk"
  by (simp add: verifier_law_def ref_sdk_def)

lemma length_ref_put_be [simp]: "length (ref_put_be n v) = n"
  by (induction n arbitrary: v) auto

lemma ref_get_put_be: "v < 256 ^ n \<Longrightarrow> ref_get_be n (ref_put_be n v @ d) = v"
proof (induction n arbitrary: v d)
  case 0
  then show ?case by (simp add: ref_get_be_def fit_def)
next
  case (Suc n)
  have "v div 256 < 256 ^ n" using Suc.prems by (simp add: less_mult_imp_div_less mult.commute)
  then have "ref_get_be n (ref_put_be n (v div 256) @ []) = v div 256" by (rule Suc.IH)
  then show ?case
    by (simp add: ref_get_be_def fit_def unat_of_nat_byte)
qed

lemma ref_u64_law: "u64_law ref_sdk"
proof -
  have "unat (v :: u64) < 256 ^ 8" for v
    using unsigned_less [of v] by simp
  then show ?thesis
    unfolding u64_law_def ref_sdk_def by (simp add: ref_get_put_be)
qed

lemma ref_u16_law: "u16_law ref_sdk"
proof -
  have "unat (v :: u16) < 256 ^ 2" for v
    using unsigned_less [of v] by simp
  then show ?thesis
    unfolding u16_law_def ref_sdk_def by (simp add: ref_get_put_be)
qed

lemma ref_u16_le_law: "u16_le_law ref_sdk"
  by (simp add: u16_le_law_def)

lemma ref_ec_key_law: "ec_key_law ref_sdk"
  by (simp add: ec_key_law_def)

lemma ref_chacha_law: "chacha_law ref_sdk"
  by (simp add: chacha_law_def)

lemma ref_scan_law: "scan_law ref_sdk"
  by (simp add: scan_law_def)

lemmas ref_laws = ref_flash_laws ref_put_law ref_new_law ref_delete_law ref_clear_law
  ref_dynamic_law ref_tlv_law ref_md_law ref_aead_law ref_verifier_law ref_u64_law
  ref_aes_law ref_random_law ref_session_law ref_u16_law ref_u16_le_law ref_ec_key_law
  ref_scan_law ref_chacha_law

end
