(* ===== verification/Client_Pin_Properties.thy ===== *)
theory Client_Pin_Properties
  imports Client_Pin_Commands Retry Ref_Platform
begin

text \<open>
  What the client PIN promises: a try is spent in storage before a PIN is compared, no run of
  wrong PINs gets more answers than there are tries, three wrong answers need a power cycle,
  and a token is handed out only for the stored PIN and only with what was asked for.
\<close>

subsection \<open>Frames\<close>

text \<open>What a step that touches only storage leaves of the authenticator's state.\<close>

lemma fido_store_step:
  assumes "store_step s (t :: 'a fido_scheme)"
  shows "paut t = paut s" "ppaut t = ppaut s" "needs_power_cycle t = needs_power_cycle s"
    "new_pin_mismatches t = new_pin_mismatches s" "session_pin t = session_pin s"
    "hkey_d t = hkey_d s" "hkey_init t = hkey_init s" "hkey_Qp t = hkey_Qp s"
    "object_session_epoch t = object_session_epoch s" "usage_timer t = usage_timer s"
    "initial_usage_time_limit t = initial_usage_time_limit s"
    "has_keydev_dec t = has_keydev_dec s" "keydev_dec t = keydev_dec s"
  using assms by (auto simp: store_step_def)

lemma store_step_from_tick: "store_step (s\<lparr>tick := n\<rparr>) t \<Longrightarrow> store_step s t"
  by (rule store_step_trans [OF store_step_tick])

lemma store_step_commit: "store_step s t \<Longrightarrow> store_step s (flash_commit t)"
  by (rule store_step_trans [OF _ flash_commit_step])

lemma load_keydev_step: "load_keydev k key0 s = (r, key, t) \<Longrightarrow> store_step s t"
  unfolding load_keydev_def Let_def
  by (auto split: option.splits prod.splits if_splits intro!: store_step_commit
      dest!: file_put_data_step store_step_from_tick)

lemma encrypt_keydev_f1_step: "encrypt_keydev_f1 k key s = (r, t) \<Longrightarrow> store_step s t"
  unfolding encrypt_keydev_f1_def Let_def
  by (auto split: prod.splits if_splits intro!: store_step_commit
      dest!: file_put_data_step store_step_from_tick)

lemma check_keydev_encrypted_step: "check_keydev_encrypted k p s = (r, t) \<Longrightarrow> store_step s t"
  unfolding check_keydev_encrypted_def Let_def
  by (auto split: prod.splits if_splits intro!: store_step_commit
      dest!: file_put_data_step store_step_from_tick)

lemma check_keydev_encrypted_ok: "check_keydev_encrypted k p s = (r, t) \<Longrightarrow> r = PICOKEYS_OK"
  by (auto simp: check_keydev_encrypted_def Let_def split: prod.splits if_splits)

lemma file_search_Some: "file_search s f = Some g \<Longrightarrow> g = f"
  by (simp add: file_search_def split: if_splits)

lemma file_search_not: "g \<noteq> f \<Longrightarrow> file_search s f \<noteq> Some g"
  by (simp add: file_search_def)

lemma keydev_frames:
  assumes "put_law k" and "g \<noteq> EF_KEY_DEV"
  shows "load_keydev k key0 s = (r, key, t) \<Longrightarrow> files t g = files s g"
    and "encrypt_keydev_f1 k key s = (r', t') \<Longrightarrow> files t' g = files s g"
    and "check_keydev_encrypted k p s = (r'', t'') \<Longrightarrow> files t'' g = files s g"
proof -
  note fr = file_put_data_frame [OF assms(1) _ file_search_not [OF assms(2)]]
  show "load_keydev k key0 s = (r, key, t) \<Longrightarrow> files t g = files s g"
    unfolding load_keydev_def Let_def
    by (auto split: option.splits prod.splits if_splits dest!: fr)
  show "encrypt_keydev_f1 k key s = (r', t') \<Longrightarrow> files t' g = files s g"
    unfolding encrypt_keydev_f1_def Let_def by (auto split: prod.splits if_splits dest!: fr)
  show "check_keydev_encrypted k p s = (r'', t'') \<Longrightarrow> files t'' g = files s g"
    unfolding check_keydev_encrypted_def Let_def by (auto split: prod.splits if_splits dest!: fr)
qed

lemma regenerate_frame:
  "files (snd (regenerate k s)) = files s" "wlog (snd (regenerate k s)) = wlog s"
  "needs_power_cycle (snd (regenerate k s)) = needs_power_cycle s"
  "new_pin_mismatches (snd (regenerate k s)) = new_pin_mismatches s"
  "paut (snd (regenerate k s)) = paut s" "ppaut (snd (regenerate k s)) = ppaut s"
  "session_pin (snd (regenerate k s)) = session_pin s"
  by (simp_all add: regenerate_def Let_def split: prod.splits)

lemma read_peer_key_frame:
  assumes "read_peer_key k x y s = (b, t)"
  shows "files t = files s" "wlog t = wlog s" "needs_power_cycle t = needs_power_cycle s"
    "new_pin_mismatches t = new_pin_mismatches s" "paut t = paut s" "ppaut t = ppaut s"
    "hkey_d t = hkey_d s" "millis t = millis s" "tick t = tick s + 2" "b \<Longrightarrow> hkey_Qp t = (x, y)" "session_pin t = session_pin s"
  using assms by (auto simp: read_peer_key_def Let_def split: if_splits)

lemma ecdh_frame:
  assumes "ecdh k p Q s = (r, t)"
  shows "t = s\<lparr>tick := Suc (tick s)\<rparr>" "r = kdf k p (snd (sdk_ecdh_shared k (tick s) (hkey_d s) Q))"
  using assms by (auto simp: ecdh_def split: prod.splits)

subsection \<open>One comparison of a PIN\<close>

lemma persist_pin_retry_counter_outcome:
  assumes put: "put_law k" and p: "persist_pin_retry_counter k (Some f) pd len s = (ok, t)"
  shows "store_step s t"
    and "ok \<Longrightarrow> files t = (files s)(f \<mapsto> take len pd) \<and> wlog t = wlog s @ [Put f (take len pd), CommitSync True]"
    and "files t = files s \<or> files t = (files s)(f \<mapsto> take len pd)"
proof -
  obtain r u where u: "file_put_data k (Some f) (take len pd) s = (r, u)"
    by (cases "file_put_data k (Some f) (take len pd) s")
  obtain b v where v: "flash_commit_sync k 500 u = (b, v)" by (cases "flash_commit_sync k 500 u")
  have fv: "files v = files u" using flash_commit_sync_files [OF v] .
  have wv: "wlog v = wlog u @ [CommitSync b]" using v by (auto simp: flash_commit_sync_def Let_def)
  have ev: "t = (if r \<noteq> PICOKEYS_OK then u else v)" "ok \<Longrightarrow> r = PICOKEYS_OK \<and> b"
    using p by (auto simp: persist_pin_retry_counter_def u v Let_def split: if_splits)
  show "store_step s t"
    using ev file_put_data_step [OF u] flash_commit_sync_step [OF v] store_step_trans by auto
  show "files t = files s \<or> files t = (files s)(f \<mapsto> take len pd)"
    using ev fv file_put_data_cases [OF put u] by auto
  show "ok \<Longrightarrow> files t = (files s)(f \<mapsto> take len pd) \<and> wlog t = wlog s @ [Put f (take len pd), CommitSync True]"
    using ev(1) ev(2) fv wv file_put_data_ok [OF put] u by fastforce
qed

lemma load_pin_data_iff:
  "load_pin_data k (file_search s EF_PIN) s = Some (pd, len) \<longleftrightarrow>
   (\<exists>d. files s EF_PIN = Some d \<and> (length d = 34 \<or> length d = 35) \<and> len = length d \<and> pd = fit 35 d)"
  by (auto simp: load_pin_data_def file_reads Let_def split: option.splits if_splits)

text \<open>The comparison against a stored record.\<close>

definition stored_pin_matches :: "sdk \<Rightarrow> bytes \<Rightarrow> bytes \<Rightarrow> bool" where
  "stored_pin_matches k d pin \<longleftrightarrow>
     (if length d = 34 then sdk_double_hash k pin = drop 2 d else sdk_pin_verifier k pin = drop 3 d)"

lemma pin_hash_matches_stored:
  assumes "length d = 34 \<or> length d = 35"
  shows "pin_hash_matches k ((fit 35 d)[0 := c]) (length d) pin \<longleftrightarrow> stored_pin_matches k d pin"
  using assms by (auto simp: pin_hash_matches_def stored_pin_matches_def fit_def drop_update_cancel)

lemma stored_pin_matches_counter:
  "length d = 34 \<or> length d = 35 \<Longrightarrow> stored_pin_matches k (d[0 := c]) pin = stored_pin_matches k d pin"
  by (auto simp: stored_pin_matches_def drop_update_cancel)

text \<open>
  The outcomes of the shared check when it does not find the right PIN: either an error before
  the comparison, or a mismatch; in both cases the files change at most by one spent try.
\<close>

definition spent :: "bytes \<Rightarrow> bytes" where
  "spent d = d[0 := d ! 0 - 1]"

lemma length_spent [simp]: "length (spent d) = length d"
  by (simp add: spent_def)

lemma check_pin_hash_outcome:
  assumes put: "put_law k" and d: "files s EF_PIN = Some d" "length d = 34 \<or> length d = 35"
    and c: "check_pin_hash k p ss h s = (res, t)"
  obtains (early) e where "res = Inl e" "e = CTAP2_ERR_PROCESSING \<or> e = CTAP2_ERR_PIN_AUTH_INVALID"
      "store_step s t" "files t = files s \<or> files t = (files s)(EF_PIN \<mapsto> spent d)"
  | (mismatch) plain e u where "decrypt k p ss (u16_take h) = (PICOKEYS_OK, plain)"
      "\<not> stored_pin_matches k d (fit 16 plain)" "store_step s u"
      "files u = (files s)(EF_PIN \<mapsto> spent d)"
      "wlog u = wlog s @ [Put EF_PIN (spent d), CommitSync True]"
      "res = Inl e" "pin_mismatch k (d ! 0 - 1) u = (e, t)"
  | (match) plain u where "decrypt k p ss (u16_take h) = (PICOKEYS_OK, plain)"
      "stored_pin_matches k d (fit 16 plain)" "store_step s u"
      "files u = (files s)(EF_PIN \<mapsto> spent d)"
      "wlog u = wlog s @ [Put EF_PIN (spent d), CommitSync True]"
      "(res, t) = (if length d = 34 then pin_upgrade k ((fit 35 d)[0 := d ! 0 - 1]) (fit 16 plain) u
         else (Inr (spent d, fit 16 plain, replicate 32 0), u))"
proof -
  let ?pd = "(fit 35 d)[0 := d ! 0 - 1]"
  have ld: "load_pin_data k (file_search s EF_PIN) s = Some (fit 35 d, length d)"
    using d by (simp add: load_pin_data_iff)
  have ld': "load_pin_data k (Some EF_PIN) s = Some (fit 35 d, length d)"
    using ld d by (simp add: file_search_def)
  have fs: "file_search s EF_PIN = Some EF_PIN" using d by (simp add: file_search_def)
  have h0: "fit 35 d ! 0 = d ! 0" "?pd ! 0 = d ! 0 - 1" using d(2) by (auto simp: fit_def nth_append)
  have tk: "take (length d) ?pd = spent d"
    using d(2) by (auto simp: spent_def fit_def take_update_swap)
  obtain ok u where u: "persist_pin_retry_counter k (Some EF_PIN) ?pd (length d) s = (ok, u)"
    by (cases "persist_pin_retry_counter k (Some EF_PIN) ?pd (length d) s")
  note po = persist_pin_retry_counter_outcome [OF put u, unfolded tk]
  obtain r plain where dec: "decrypt k p ss (u16_take h) = (r, plain)"
    by (cases "decrypt k p ss (u16_take h)")
  have eval: "(res, t) =
    (if \<not> ok then (Inl CTAP2_ERR_PROCESSING, u)
     else if r \<noteq> PICOKEYS_OK then (Inl CTAP2_ERR_PIN_AUTH_INVALID, u)
     else if \<not> stored_pin_matches k d (fit 16 plain)
     then (let (e, s) = pin_mismatch k (d ! 0 - 1) u in (Inl e, s))
     else if length d = 34 then pin_upgrade k ?pd (fit 16 plain) u
     else (Inr (?pd, fit 16 plain, replicate 32 0), u))"
    using c [symmetric] d(2)
    by (simp add: check_pin_hash_def ld' fs u dec Let_def h0 pin_hash_matches_stored [OF d(2)])
  show thesis
  proof (cases "ok \<and> r = PICOKEYS_OK")
    case False
    then have "t = u" "\<exists>e. res = Inl e \<and> (e = CTAP2_ERR_PROCESSING \<or> e = CTAP2_ERR_PIN_AUTH_INVALID)"
      using eval by (auto split: if_splits)
    with po(1,3) early show thesis by blast
  next
    case True
    then have up: "files u = (files s)(EF_PIN \<mapsto> spent d)"
      "wlog u = wlog s @ [Put EF_PIN (spent d), CommitSync True]" using po(2) by auto
    show thesis
    proof (cases "stored_pin_matches k d (fit 16 plain)")
      case False
      obtain e v where m: "pin_mismatch k (d ! 0 - 1) u = (e, v)" by (cases "pin_mismatch k (d ! 0 - 1) u")
      have "res = Inl e" "t = v" using eval True False m by auto
      with mismatch [OF _ False po(1) up] dec True m show thesis by auto
    next
      case m: True
      have "?pd = spent d" if "length d \<noteq> 34" using d(2) that by (simp add: spent_def)
      with match [OF _ m po(1) up] dec True eval m show thesis by auto
    qed
  qed
qed

subsection \<open>Requests as guesses\<close>

text \<open>
  The PIN hash a request carries: what the code decrypts from it in the state it runs in, with
  the secret of the key agreement.
\<close>

definition request_secret :: "sdk \<Rightarrow> 'a fido_scheme \<Rightarrow> client_pin_req \<Rightarrow> bytes" where
  "request_secret k s r =
     snd (kdf k (ucast (pinUvAuthProtocol r))
       (snd (sdk_ecdh_shared k (tick s + 2) (hkey_d s)
          (the (cose_kax (req_cose r)), the (cose_kay (req_cose r))))))"

definition request_pin :: "sdk \<Rightarrow> 'a fido_scheme \<Rightarrow> client_pin_req \<Rightarrow> bytes option" where
  "request_pin k s r =
     (case pinHashEnc r of
        None \<Rightarrow> None
      | Some h \<Rightarrow>
          (case decrypt k (ucast (pinUvAuthProtocol r)) (request_secret k s r) (u16_take h) of
             (ret, plain) \<Rightarrow> if ret = PICOKEYS_OK then Some (fit 16 plain) else None))"

definition request_right :: "sdk \<Rightarrow> 'a fido_scheme \<Rightarrow> client_pin_req \<Rightarrow> bool" where
  "request_right k s r \<longleftrightarrow>
     (\<exists>d pin. files s EF_PIN = Some d \<and> request_pin k s r = Some pin \<and> stored_pin_matches k d pin)"

definition pin_command :: "sdk \<Rightarrow> client_pin_req \<Rightarrow> 'a fido_scheme \<Rightarrow> (ctap_error + bytes) \<times> 'a fido_scheme" where
  "pin_command k r s = (if subcommand r = 0x4 then change_pin k r s else get_token k r s)"

definition pin_tries :: "'a fido_scheme \<Rightarrow> nat" where
  "pin_tries s = (case files s EF_PIN of Some (b # _) \<Rightarrow> unat b | _ \<Rightarrow> 0)"

text \<open>An answer that the PIN was wrong, given while PINs were still being compared.\<close>

definition pin_attempt :: "sdk \<Rightarrow> 'a fido_scheme \<Rightarrow> client_pin_req \<Rightarrow> verdict \<times> 'a fido_scheme" where
  "pin_attempt k s r =
     (let (res, t) = pin_command k r s
      in (case res of
            Inr _ \<Rightarrow> Accepted
          | Inl e \<Rightarrow>
              if (e = CTAP2_ERR_PIN_INVALID \<or> e = CTAP2_ERR_PIN_BLOCKED \<or> e = CTAP2_ERR_PIN_AUTH_BLOCKED) \<and>
                 \<not> needs_power_cycle s \<and> pin_tries s \<noteq> 0
              then Rejected else Refused, t))"

text \<open>Nothing that concerns the PIN differs between two states.\<close>

definition same_pin_state :: "'a fido_scheme \<Rightarrow> 'a fido_scheme \<Rightarrow> bool" where
  "same_pin_state s t \<longleftrightarrow> files t = files s \<and> wlog t = wlog s \<and>
     needs_power_cycle t = needs_power_cycle s \<and> new_pin_mismatches t = new_pin_mismatches s \<and>
     paut t = paut s \<and> ppaut t = ppaut s \<and> millis t = millis s"

lemma same_pin_state_refl [simp]: "same_pin_state s s"
  by (simp add: same_pin_state_def)

lemma pin_tries_eq: "files s EF_PIN = Some d \<Longrightarrow> d \<noteq> [] \<Longrightarrow> pin_tries s = unat (d ! 0)"
  by (cases d) (simp_all add: pin_tries_def)

lemma pin_tries_cong: "files t EF_PIN = files s EF_PIN \<Longrightarrow> pin_tries t = pin_tries s"
  by (simp add: pin_tries_def)

text \<open>
  Both commands: an early answer that says nothing about the PIN and changes nothing of it, or
  the shared check on the decrypted hash, with its error passed on.
\<close>

lemma key_agreement_prefix:
  assumes "read_peer_key k x y s = (b, u)" and "ecdh k p (hkey_Qp u) u = ((ret, ss), v)"
  shows "same_pin_state s u" "same_pin_state s v" "hkey_d v = hkey_d s"
    "b \<Longrightarrow> (ret, ss) = kdf k p (snd (sdk_ecdh_shared k (tick s + 2) (hkey_d s) (x, y)))"
proof -
  note r = read_peer_key_frame [OF assms(1)] and e = ecdh_frame [OF assms(2)]
  show "same_pin_state s u" using r by (simp add: same_pin_state_def)
  show "same_pin_state s v" using r by (simp add: same_pin_state_def e(1))
  show "hkey_d v = hkey_d s" using r by (simp add: e(1))
  show "b \<Longrightarrow> (ret, ss) = kdf k p (snd (sdk_ecdh_shared k (tick s + 2) (hkey_d s) (x, y)))"
    using r e(2) by simp
qed

lemma get_token_cases:
  assumes "get_token k r s = (res, t)"
  obtains (early) e where "res = Inl e" "same_pin_state s t"
      "e = CTAP2_ERR_PIN_BLOCKED \<longrightarrow> pin_tries s = 0" "e = CTAP2_ERR_PIN_AUTH_BLOCKED \<longrightarrow> needs_power_cycle s"
      "e \<noteq> CTAP2_ERR_PIN_INVALID"
  | (checked) d h u c v where "files s EF_PIN = Some d" "d \<noteq> []" "d ! 0 \<noteq> 0" "pinHashEnc r = Some h"
      "\<not> needs_power_cycle s" "permission_error r = None" "same_pin_state s u"
      "check_pin_hash k (ucast (pinUvAuthProtocol r)) (request_secret k s r) h u = (c, v)"
      "\<And>e. c = Inl e \<Longrightarrow> res = Inl e \<and> t = v"
      "\<And>pd pin kd. c = Inr (pd, pin, kd) \<Longrightarrow>
         \<exists>w x y. check_keydev_encrypted k (sdk_pin_session k pin) (v\<lparr>session_pin := sdk_pin_session k pin\<rparr>) = (PICOKEYS_OK, w) \<and>
           file_put_data k (Some EF_PIN) (pd[0 := MAX_PIN_RETRIES]) (w\<lparr>new_pin_mismatches := 0\<rparr>) = (x, y) \<and>
           get_token_finish k r (request_secret k s r) (flash_commit y) = (res, t)"
proof (cases "\<exists>x y h. cose_kax (req_cose r) = Some x \<and> cose_kay (req_cose r) = Some y \<and>
    pinHashEnc r = Some h \<and> pinUvAuthProtocol r \<noteq> 0 \<and> cose_alg (req_cose r) \<noteq> 0 \<and>
    (pinUvAuthProtocol r = 1 \<or> pinUvAuthProtocol r = 2) \<and> permission_error r = None \<and>
    file_has_data s (file_search s EF_PIN) \<and> file_get_data s (file_search s EF_PIN) ! 0 \<noteq> 0")
  case False
  have "t = s \<and> (\<exists>e. res = Inl e \<and> (e = CTAP2_ERR_PIN_BLOCKED \<longrightarrow> pin_tries s = 0) \<and>
    e \<noteq> CTAP2_ERR_PIN_AUTH_BLOCKED \<and> e \<noteq> CTAP2_ERR_PIN_INVALID)"
    using assms False
    by (auto simp: get_token_def Let_def permission_error_def pin_tries_eq split: option.splits if_splits)
  with early show thesis by auto
next
  case True
  then obtain x y h where xyh: "cose_kax (req_cose r) = Some x" "cose_kay (req_cose r) = Some y"
    "pinHashEnc r = Some h" "pinUvAuthProtocol r \<noteq> 0" "cose_alg (req_cose r) \<noteq> 0"
    "pinUvAuthProtocol r = 1 \<or> pinUvAuthProtocol r = 2" "permission_error r = None"
    and fh: "file_has_data s (file_search s EF_PIN)" "file_get_data s (file_search s EF_PIN) ! 0 \<noteq> 0" by blast
  obtain d where d: "files s EF_PIN = Some d" "d \<noteq> []" "d ! 0 \<noteq> 0" using fh by auto
  have fs: "file_search s EF_PIN = Some EF_PIN" using d by (simp add: file_search_def)
  let ?p = "ucast (pinUvAuthProtocol r)"
  obtain b u where u: "read_peer_key k x y s = (b, u)" by (cases "read_peer_key k x y s")
  obtain ret ss v where v: "ecdh k ?p (hkey_Qp u) u = ((ret, ss), v)" by (cases "ecdh k ?p (hkey_Qp u) u") auto
  obtain c w where w: "check_pin_hash k ?p ss h v = (c, w)" by (cases "check_pin_hash k ?p ss h v")
  note ka = key_agreement_prefix [OF u v]
  have ss: "b \<Longrightarrow> ss = request_secret k s r"
    using ka(4) by (simp add: request_secret_def xyh) (metis snd_conv)
  have ev: "(res, t) =
    (if \<not> b then (Inl CTAP1_ERR_INVALID_PARAMETER, u)
     else if needs_power_cycle u then (Inl CTAP2_ERR_PIN_AUTH_BLOCKED, u)
     else if ret \<noteq> 0 then (Inl CTAP1_ERR_INVALID_PARAMETER, v)
     else (case (c, w) of
        (Inl e, s) \<Rightarrow> (Inl e, s)
      | (Inr (pin_data, pin, keydev), s) \<Rightarrow>
          let s = s\<lparr>session_pin := sdk_pin_session k pin\<rparr>;
              (ret, s) = check_keydev_encrypted k (session_pin s) s
          in if ret \<noteq> PICOKEYS_OK then (Inl (CTAP_RC ret), s)
             else let pin_data = pin_data[0 := MAX_PIN_RETRIES];
                      s = s\<lparr>new_pin_mismatches := 0\<rparr>;
                      (_, s) = file_put_data k (Some EF_PIN) pin_data s
                  in get_token_finish k r ss (flash_commit s)))"
    using assms xyh fh d unfolding get_token_def
    by (simp add: u v w fs Let_def cong: if_cong) (auto split: if_splits)
  show thesis
  proof (cases "b \<and> \<not> needs_power_cycle u \<and> ret = 0")
    case False
    then show thesis using ev ka(1,2) early by (auto simp: same_pin_state_def split: if_splits)
  next
    case True
    have npc: "\<not> needs_power_cycle s" using True ka(1) by (simp add: same_pin_state_def)
    have ssr: "ss = request_secret k s r" using ss True by simp
    show thesis
    proof (rule checked [OF d xyh(3) npc xyh(7) ka(2), of c w])
      show "check_pin_hash k ?p (request_secret k s r) h v = (c, w)" using w ssr by simp
    next
      fix e
      assume "c = Inl e"
      with ev True show "res = Inl e \<and> t = w" by simp
    next
      fix pd pin kd
      assume c: "c = Inr (pd, pin, kd)"
      let ?w = "w\<lparr>session_pin := sdk_pin_session k pin\<rparr>"
      obtain q w' where q: "check_keydev_encrypted k (sdk_pin_session k pin) ?w = (q, w')"
        by (cases "check_keydev_encrypted k (sdk_pin_session k pin) ?w")
      have ok: "q = PICOKEYS_OK" by (rule check_keydev_encrypted_ok [OF q])
      obtain x y where y: "file_put_data k (Some EF_PIN) (pd[0 := MAX_PIN_RETRIES]) (w'\<lparr>new_pin_mismatches := 0\<rparr>) = (x, y)"
        by (cases "file_put_data k (Some EF_PIN) (pd[0 := MAX_PIN_RETRIES]) (w'\<lparr>new_pin_mismatches := 0\<rparr>)")
      have "get_token_finish k r (request_secret k s r) (flash_commit y) = (res, t)"
        using ev True c q y ssr by (simp add: ok)
      with q ok y show "\<exists>w' x y. check_keydev_encrypted k (sdk_pin_session k pin) ?w = (PICOKEYS_OK, w') \<and>
           file_put_data k (Some EF_PIN) (pd[0 := MAX_PIN_RETRIES]) (w'\<lparr>new_pin_mismatches := 0\<rparr>) = (x, y) \<and>
           get_token_finish k r (request_secret k s r) (flash_commit y) = (res, t)" by blast
    qed
  qed
qed

text \<open>The same for changing the PIN, as far as it does not find the right one.\<close>

lemma change_pin_cases:
  assumes "change_pin k r s = (res, t)"
  obtains (early) e where "res = Inl e" "same_pin_state s t"
      "e = CTAP2_ERR_PIN_BLOCKED \<longrightarrow> pin_tries s = 0" "e = CTAP2_ERR_PIN_AUTH_BLOCKED \<longrightarrow> needs_power_cycle s"
      "e \<noteq> CTAP2_ERR_PIN_INVALID"
  | (checked) d h n u c v where "files s EF_PIN = Some d" "d \<noteq> []" "d ! 0 \<noteq> 0" "pinHashEnc r = Some h"
      "newPinEnc r = Some n" "\<not> needs_power_cycle s" "same_pin_state s u"
      "check_pin_hash k (ucast (pinUvAuthProtocol r)) (request_secret k s r) h u = (c, v)"
      "\<And>e. c = Inl e \<Longrightarrow> res = Inl e \<and> t = v"
      "\<And>pd pin kd. c = Inr (pd, pin, kd) \<Longrightarrow>
         \<exists>x y w. file_put_data k (Some EF_PIN) (pd[0 := MAX_PIN_RETRIES]) (v\<lparr>session_pin := sdk_pin_session k pin\<rparr>) = (x, y) \<and>
           check_keydev_encrypted k (sdk_pin_session k pin) (flash_commit y) = (PICOKEYS_OK, w) \<and>
           change_pin_finish k r (request_secret k s r) n kd (w\<lparr>new_pin_mismatches := 0\<rparr>) = (res, t)"
proof (cases "\<exists>x y h n m. cose_kax (req_cose r) = Some x \<and> cose_kay (req_cose r) = Some y \<and>
    pinHashEnc r = Some h \<and> newPinEnc r = Some n \<and> pinUvAuthParam r = Some m \<and>
    pinUvAuthProtocol r \<noteq> 0 \<and> cose_alg (req_cose r) \<noteq> 0 \<and>
    (pinUvAuthProtocol r = 1 \<or> pinUvAuthProtocol r = 2) \<and>
    file_has_data s (file_search s EF_PIN) \<and> file_get_data s (file_search s EF_PIN) ! 0 \<noteq> 0 \<and>
    \<not> ((pinUvAuthProtocol r = 1 \<and> (length n < 64 \<or> length n mod 16 \<noteq> 0 \<or> length h \<noteq> 16)) \<or>
       (pinUvAuthProtocol r = 2 \<and>
         (length n < 64 + IV_SIZE \<or> (length n - IV_SIZE) mod 16 \<noteq> 0 \<or> length h \<noteq> 16 + IV_SIZE))) \<and>
    \<not> ((pinUvAuthProtocol r = 1 \<and> length n > 256) \<or> (pinUvAuthProtocol r = 2 \<and> length n > 256 + IV_SIZE))")
  case False
  have "t = s \<and> (\<exists>e. res = Inl e \<and> (e = CTAP2_ERR_PIN_BLOCKED \<longrightarrow> pin_tries s = 0) \<and>
    e \<noteq> CTAP2_ERR_PIN_AUTH_BLOCKED \<and> e \<noteq> CTAP2_ERR_PIN_INVALID)"
    using assms False
    by (auto simp: change_pin_def Let_def pin_tries_eq simp del: not_less split: option.splits if_splits)
  with early show thesis by auto
next
  case True
  then obtain x y h n m where xyh: "cose_kax (req_cose r) = Some x" "cose_kay (req_cose r) = Some y"
    "pinHashEnc r = Some h" "newPinEnc r = Some n" "pinUvAuthParam r = Some m"
    "pinUvAuthProtocol r \<noteq> 0" "cose_alg (req_cose r) \<noteq> 0"
    and pr: "\<not> (pinUvAuthProtocol r \<noteq> 1 \<and> pinUvAuthProtocol r \<noteq> 2)"
    and fh: "file_has_data s (file_search s EF_PIN)" "file_get_data s (file_search s EF_PIN) ! 0 \<noteq> 0"
    and g: "\<not> ((pinUvAuthProtocol r = 1 \<and> (length n < 64 \<or> length n mod 16 \<noteq> 0 \<or> length h \<noteq> 16)) \<or>
       (pinUvAuthProtocol r = 2 \<and>
         (length n < 64 + IV_SIZE \<or> (length n - IV_SIZE) mod 16 \<noteq> 0 \<or> length h \<noteq> 16 + IV_SIZE)))"
      "\<not> ((pinUvAuthProtocol r = 1 \<and> length n > 256) \<or> (pinUvAuthProtocol r = 2 \<and> length n > 256 + IV_SIZE))"
    by blast
  obtain d where d: "files s EF_PIN = Some d" "d \<noteq> []" "d ! 0 \<noteq> 0" using fh by auto
  have fs: "file_search s EF_PIN = Some EF_PIN" using d by (simp add: file_search_def)
  let ?p = "ucast (pinUvAuthProtocol r)"
  obtain b u where u: "read_peer_key k x y s = (b, u)" by (cases "read_peer_key k x y s")
  obtain ret ss v where v: "ecdh k ?p (hkey_Qp u) u = ((ret, ss), v)" by (cases "ecdh k ?p (hkey_Qp u) u") auto
  obtain c w where w: "check_pin_hash k ?p ss h v = (c, w)" by (cases "check_pin_hash k ?p ss h v")
  note ka = key_agreement_prefix [OF u v]
  have ss: "b \<Longrightarrow> ss = request_secret k s r"
    using ka(4) by (simp add: request_secret_def xyh) (metis snd_conv)
  have ev: "(res, t) =
    (if \<not> b then (Inl CTAP1_ERR_INVALID_PARAMETER, u)
     else if needs_power_cycle u then (Inl CTAP2_ERR_PIN_AUTH_BLOCKED, u)
     else if ret \<noteq> 0 then (Inl CTAP1_ERR_INVALID_PARAMETER, v)
     else if \<not> verify k ?p ss (u16_take (n @ h)) m then (Inl CTAP2_ERR_PIN_AUTH_INVALID, v)
     else (case (c, w) of
        (Inl e, s) \<Rightarrow> (Inl e, s)
      | (Inr (pin_data, pin, keydev), s) \<Rightarrow>
          let s = s\<lparr>session_pin := sdk_pin_session k pin\<rparr>;
              pin_data = pin_data[0 := MAX_PIN_RETRIES];
              (_, s) = file_put_data k (Some EF_PIN) pin_data s;
              s = flash_commit s;
              (ret, s) = check_keydev_encrypted k (session_pin s) s
          in if ret \<noteq> PICOKEYS_OK then (Inl (CTAP_RC ret), s)
             else change_pin_finish k r ss n keydev (s\<lparr>new_pin_mismatches := 0\<rparr>)))"
  proof -
    have nz: "file_get_data s (Some EF_PIN) ! 0 \<noteq> 0" "file_has_data s (Some EF_PIN)" using fh fs by simp_all
    show ?thesis
      using assms unfolding change_pin_def xyh Let_def fs
      by (simp only: option.case prod.case xyh pr g nz u v w if_False simp_thms Let_def split: if_splits)
  qed
  show thesis
  proof (cases "b \<and> \<not> needs_power_cycle u \<and> ret = 0 \<and> verify k ?p ss (u16_take (n @ h)) m")
    case False
    then show thesis using ev ka(1,2) early by (auto simp: same_pin_state_def split: if_splits)
  next
    case True
    have npc: "\<not> needs_power_cycle s" using True ka(1) by (simp add: same_pin_state_def)
    have ssr: "ss = request_secret k s r" using ss True by simp
    show thesis
    proof (rule checked [OF d xyh(3,4) npc ka(2), of c w])
      show "check_pin_hash k ?p (request_secret k s r) h v = (c, w)" using w ssr by simp
    next
      fix e
      assume "c = Inl e"
      with ev True show "res = Inl e \<and> t = w" by simp
    next
      fix pd pin kd
      assume c: "c = Inr (pd, pin, kd)"
      let ?w = "w\<lparr>session_pin := sdk_pin_session k pin\<rparr>"
      obtain x y where y: "file_put_data k (Some EF_PIN) (pd[0 := MAX_PIN_RETRIES]) ?w = (x, y)"
        by (cases "file_put_data k (Some EF_PIN) (pd[0 := MAX_PIN_RETRIES]) ?w")
      have sp: "session_pin (flash_commit y) = sdk_pin_session k pin"
        using fido_store_step(5) [OF store_step_commit [OF file_put_data_step [OF y]]] by simp
      obtain q w' where q: "check_keydev_encrypted k (sdk_pin_session k pin) (flash_commit y) = (q, w')"
        by (cases "check_keydev_encrypted k (sdk_pin_session k pin) (flash_commit y)")
      have ok: "q = PICOKEYS_OK" by (rule check_keydev_encrypted_ok [OF q])
      have "change_pin_finish k r (request_secret k s r) n kd (w'\<lparr>new_pin_mismatches := 0\<rparr>) = (res, t)"
        using ev True c q y ssr sp by (simp add: ok Let_def)
      with q ok y show "\<exists>x y w'. file_put_data k (Some EF_PIN) (pd[0 := MAX_PIN_RETRIES]) ?w = (x, y) \<and>
           check_keydev_encrypted k (sdk_pin_session k pin) (flash_commit y) = (PICOKEYS_OK, w') \<and>
           change_pin_finish k r (request_secret k s r) n kd (w'\<lparr>new_pin_mismatches := 0\<rparr>) = (res, t)" by blast
    qed
  qed
qed

subsection \<open>Wrong PINs\<close>

lemma same_pin_state_tries: "same_pin_state s t \<Longrightarrow> pin_tries t = pin_tries s"
  by (simp add: same_pin_state_def pin_tries_def)

lemma load_pin_data_None:
  assumes "check_pin_hash k p ss h s = (c, t)" and "files s EF_PIN = Some d" "\<not> (length d = 34 \<or> length d = 35)"
  shows "c = Inl CTAP2_ERR_PROCESSING \<and> t = s"
proof -
  have "load_pin_data k (file_search s EF_PIN) s = None"
    using assms(2,3) by (simp add: load_pin_data_def file_reads)
  with assms(1) show ?thesis by (auto simp: check_pin_hash_def Let_def)
qed

text \<open>
  What a request with a wrong PIN does: nothing that concerns the PIN, or an error with at most
  one try spent, or a mismatch.
\<close>

lemma wrong_request_outcome:
  assumes put: "put_law k" and c: "pin_command k r s = (res, t)" and w: "\<not> request_right k s r"
  obtains (early) e where "res = Inl e" "same_pin_state s t"
      "e = CTAP2_ERR_PIN_BLOCKED \<longrightarrow> pin_tries s = 0" "e = CTAP2_ERR_PIN_AUTH_BLOCKED \<longrightarrow> needs_power_cycle s"
      "e \<noteq> CTAP2_ERR_PIN_INVALID"
  | (aborted) d e u where "files s EF_PIN = Some d" "d \<noteq> []" "d ! 0 \<noteq> 0" "res = Inl e"
      "e = CTAP2_ERR_PROCESSING \<or> e = CTAP2_ERR_PIN_AUTH_INVALID"
      "same_pin_state s u" "store_step u t" "files t = files s \<or> files t = (files s)(EF_PIN \<mapsto> spent d)"
  | (mismatch) d e u where "files s EF_PIN = Some d" "length d = 34 \<or> length d = 35" "d ! 0 \<noteq> 0"
      "\<not> needs_power_cycle s" "res = Inl e" "files u = (files s)(EF_PIN \<mapsto> spent d)"
      "wlog u = wlog s @ [Put EF_PIN (spent d), CommitSync True]"
      "needs_power_cycle u = needs_power_cycle s" "new_pin_mismatches u = new_pin_mismatches s"
      "paut u = paut s" "ppaut u = ppaut s" "pin_mismatch k (d ! 0 - 1) u = (e, t)"
proof -
  note outer = that
  have main: thesis
    if d: "files s EF_PIN = Some d" "d \<noteq> []" "d ! 0 \<noteq> 0" and h: "pinHashEnc r = Some h"
      and npc: "\<not> needs_power_cycle s" and su: "same_pin_state s u"
      and cp: "check_pin_hash k (ucast (pinUvAuthProtocol r)) (request_secret k s r) h u = (c', v)"
      and err: "\<And>e. c' = Inl e \<Longrightarrow> res = Inl e \<and> t = v" for d h u c' v
  proof (cases "length d = 34 \<or> length d = 35")
    case False
    have du: "files u EF_PIN = Some d" using d su by (simp add: same_pin_state_def)
    have "res = Inl CTAP2_ERR_PROCESSING" "t = u"
      using load_pin_data_None [OF cp du False] err by auto
    with outer(1) su show thesis by auto
  next
    case L: True
    have fu: "files u = files s" using su by (simp add: same_pin_state_def)
    have du: "files u EF_PIN = Some d" using d fu by simp
    show thesis using put du L cp
    proof (cases rule: check_pin_hash_outcome)
      case (early e)
      with outer(2) [OF d, of e u] err su fu show thesis by auto
    next
      case (mismatch plain e w)
      from mismatch(3) su have "needs_power_cycle w = needs_power_cycle s"
        "new_pin_mismatches w = new_pin_mismatches s" "paut w = paut s" "ppaut w = ppaut s"
        by (simp_all add: fido_store_step same_pin_state_def)
      moreover have "wlog u = wlog s" using su by (simp add: same_pin_state_def)
      moreover have "res = Inl e" "t = v" using err mismatch(6) by auto
      ultimately show thesis using outer(3) [OF d(1) L d(3) npc, of e w] mismatch fu by auto
    next
      case (match plain w)
      then have "request_right k s r"
        using d h by (auto simp: request_right_def request_pin_def)
      with w show thesis ..
    qed
  qed
  show thesis
  proof (cases "subcommand r = 0x4")
    case True
    then have "change_pin k r s = (res, t)" using c by (simp add: pin_command_def)
    then show thesis
    proof (cases rule: change_pin_cases)
      case (early e)
      then show thesis using outer(1) by blast
    next
      case (checked d h n u c v)
      show thesis by (rule main [OF checked(1,2,3,4,6,7,8)]) (rule checked(9))
    qed
  next
    case False
    then have "get_token k r s = (res, t)" using c by (simp add: pin_command_def)
    then show thesis
    proof (cases rule: get_token_cases)
      case (early e)
      then show thesis using outer(1) by blast
    next
      case (checked d h u c v)
      show thesis by (rule main [OF checked(1,2,3,4,5,7,8)]) (rule checked(9))
    qed
  qed
qed

lemma pin_mismatch_outcome:
  assumes "pin_mismatch k b s = (e, t)"
  shows "files t = files s" "wlog t = wlog s" "paut t = paut s" "ppaut t = ppaut s"
    "e = CTAP2_ERR_PIN_BLOCKED \<or> e = CTAP2_ERR_PIN_INVALID \<or> e = CTAP2_ERR_PIN_AUTH_BLOCKED"
    "b = 0 \<Longrightarrow> e = CTAP2_ERR_PIN_BLOCKED \<and> needs_power_cycle t = needs_power_cycle s \<and>
      new_pin_mismatches t = new_pin_mismatches s"
    "b \<noteq> 0 \<Longrightarrow> new_pin_mismatches t = new_pin_mismatches s + 1 \<and>
      needs_power_cycle t = (needs_power_cycle s \<or> new_pin_mismatches s + 1 \<ge> 3) \<and>
      e = (if new_pin_mismatches s + 1 \<ge> 3 then CTAP2_ERR_PIN_AUTH_BLOCKED else CTAP2_ERR_PIN_INVALID)"
  using assms
  by (auto simp: pin_mismatch_def Let_def regenerate_frame split: if_splits prod.splits)
    (metis regenerate_frame snd_conv)+

lemma pin_tries_spent:
  assumes "files s EF_PIN = Some d" and "d \<noteq> []" and "d ! 0 \<noteq> 0"
    and "files t EF_PIN = Some (spent d)"
  shows "Suc (pin_tries t) = pin_tries s" and "pin_tries t = unat (d ! 0 - 1)"
proof -
  have s: "pin_tries s = unat (d ! 0)" by (rule pin_tries_eq [OF assms(1,2)])
  show t: "pin_tries t = unat (d ! 0 - 1)"
    using assms(2) by (subst pin_tries_eq [OF assms(4)]) (auto simp: spent_def)
  have "unat (d ! 0) \<noteq> 0" using assms(3) by (simp add: unat_eq_zero)
  with s t word_pos_dec(1) [OF assms(3)] show "Suc (pin_tries t) = pin_tries s" by simp
qed

text \<open>Wrong answers still possible before a power cycle is needed.\<close>

definition pin_budget :: "'a fido_scheme \<Rightarrow> nat" where
  "pin_budget s = (if needs_power_cycle s \<or> pin_tries s = 0 then 0 else 3 - unat (new_pin_mismatches s))"

definition pin_counting :: "'a fido_scheme \<Rightarrow> bool" where
  "pin_counting s \<longleftrightarrow> needs_power_cycle s \<or> new_pin_mismatches s < 3"

lemma pin_attempt_wrong:
  assumes put: "put_law k" and a: "pin_attempt k s r = (v, t)" and w: "\<not> request_right k s r"
  shows "v \<noteq> Accepted"
    and "v = Rejected \<Longrightarrow> Suc (pin_tries t) = pin_tries s"
    and "pin_tries t \<le> pin_tries s"
    and "v = Rejected \<Longrightarrow> pin_counting s \<Longrightarrow> Suc (pin_budget t) \<le> pin_budget s"
    and "pin_counting s \<Longrightarrow> pin_budget t \<le> pin_budget s"
    and "pin_counting s \<Longrightarrow> pin_counting t"
proof -
  obtain res where c: "pin_command k r s = (res, t)"
    and v: "v = (case res of Inr _ \<Rightarrow> Accepted
          | Inl e \<Rightarrow>
              if (e = CTAP2_ERR_PIN_INVALID \<or> e = CTAP2_ERR_PIN_BLOCKED \<or> e = CTAP2_ERR_PIN_AUTH_BLOCKED) \<and>
                 \<not> needs_power_cycle s \<and> pin_tries s \<noteq> 0
              then Rejected else Refused)"
    using a by (auto simp: pin_attempt_def split: prod.splits)
  have "v \<noteq> Accepted \<and> (v = Rejected \<longrightarrow> Suc (pin_tries t) = pin_tries s) \<and> pin_tries t \<le> pin_tries s \<and>
    (v = Rejected \<longrightarrow> pin_counting s \<longrightarrow> Suc (pin_budget t) \<le> pin_budget s) \<and>
    (pin_counting s \<longrightarrow> pin_budget t \<le> pin_budget s) \<and> (pin_counting s \<longrightarrow> pin_counting t)"
    using put c w
  proof (cases rule: wrong_request_outcome)
    case (early e)
    then have "v = Refused" using v by auto
    moreover have "pin_budget t = pin_budget s" "pin_counting t = pin_counting s"
      using early(2) same_pin_state_tries [OF early(2)]
      by (simp_all add: pin_budget_def pin_counting_def same_pin_state_def)
    ultimately show ?thesis using same_pin_state_tries [OF early(2)] by simp
  next
    case (aborted d e u)
    then have v: "v = Refused" using v by auto
    have n: "needs_power_cycle t = needs_power_cycle s" "new_pin_mismatches t = new_pin_mismatches s"
      using aborted(6,7) by (simp_all add: fido_store_step same_pin_state_def)
    have "pin_tries t \<le> pin_tries s"
      using aborted(8) pin_tries_spent(1) [OF aborted(1-3), of t] pin_tries_cong [of t s] by fastforce
    with v n show ?thesis by (auto simp: pin_budget_def pin_counting_def)
  next
    case (mismatch d e u)
    note m = pin_mismatch_outcome [OF mismatch(12)]
    have ne: "d \<noteq> []" using mismatch(2) by auto
    have ft: "files t EF_PIN = Some (spent d)" using m(1) mismatch(6) by simp
    note sp = pin_tries_spent [OF mismatch(1) ne mismatch(3) ft]
    have tr: "pin_tries t = 0 \<longleftrightarrow> d ! 0 - 1 = 0" using sp(2) by (simp add: unat_eq_zero)
    have bud: "pin_counting s \<Longrightarrow> Suc (pin_budget t) \<le> pin_budget s \<and> pin_counting t"
    proof -
      assume cs: "pin_counting s"
      have lt: "new_pin_mismatches s < 3" using cs mismatch(4) by (simp add: pin_counting_def)
      then have ul: "unat (new_pin_mismatches s) < 3" by (simp add: word_less_nat_alt)
      have bs: "pin_budget s = 3 - unat (new_pin_mismatches s)"
        using mismatch(4) sp(1) by (auto simp: pin_budget_def)
      show "Suc (pin_budget t) \<le> pin_budget s \<and> pin_counting t"
      proof (cases "d ! 0 - 1 = 0")
        case True
        then show ?thesis
          using m(6) tr bs ul lt mismatch(8,9) by (simp add: pin_budget_def pin_counting_def)
      next
        case False
        then have n: "new_pin_mismatches t = new_pin_mismatches s + 1"
          "needs_power_cycle t = (new_pin_mismatches s + 1 \<ge> 3)"
          using m(7) mismatch(4,8,9) by auto
        have "unat (new_pin_mismatches s + 1) = Suc (unat (new_pin_mismatches s))"
          using ul by (simp add: unat_word_ariths)
        with n bs ul show ?thesis by (auto simp: pin_budget_def pin_counting_def)
      qed
    qed
    have "v = Rejected"
      using v mismatch(4,5) m(5) sp(1) by auto
    then show ?thesis using sp(1) bud by auto
  qed
  then show "v \<noteq> Accepted" "v = Rejected \<Longrightarrow> Suc (pin_tries t) = pin_tries s" "pin_tries t \<le> pin_tries s"
    "v = Rejected \<Longrightarrow> pin_counting s \<Longrightarrow> Suc (pin_budget t) \<le> pin_budget s" "pin_counting s \<Longrightarrow> pin_budget t \<le> pin_budget s"
    "pin_counting s \<Longrightarrow> pin_counting t" by auto
qed

end
