(* ===== verification/Client_Pin_Lockout.thy ===== *)
theory Client_Pin_Lockout
  imports Client_Pin_Properties
begin

text \<open>
  The lockout of the client PIN: two interpretations of the contract of \<open>Retry\<close>, one for the
  stored retry counter and one for the mismatches allowed before a power cycle, and the
  properties they give; then what exactly a wrong PIN changes and what a token costs.
\<close>

interpretation client_pin: retry_spent "pin_attempt k" "\<lambda>s. put_law k" pin_tries "request_right k"
  for k :: sdk
proof
  fix s t :: "'a fido_scheme" and p
  assume put: "put_law k"
  {
    assume "pin_attempt k s p = (Accepted, t)"
    then show "request_right k s p" using pin_attempt_wrong(1) [OF put] by blast
  next
    assume "\<not> request_right k s p" and "pin_attempt k s p = (Rejected, t)"
    then show "Suc (pin_tries t) \<le> pin_tries s" using pin_attempt_wrong(2) [OF put] by fastforce
  next
    assume "\<not> request_right k s p" and "pin_attempt k s p = (Refused, t)"
    then show "pin_tries t \<le> pin_tries s" using pin_attempt_wrong(3) [OF put] by blast
  }
qed

interpretation client_pin_power: retry_spent "pin_attempt k" "\<lambda>s. put_law k \<and> pin_counting s" pin_budget
    "request_right k"
  for k :: sdk
proof
  fix s t :: "'a fido_scheme" and p v
  assume i: "put_law k \<and> pin_counting s" and "\<not> request_right k s p" and "pin_attempt k s p = (v, t)"
  then show "put_law k \<and> pin_counting t" using pin_attempt_wrong(6) by blast
next
  fix s t :: "'a fido_scheme" and p
  assume i: "put_law k \<and> pin_counting s"
  {
    assume "pin_attempt k s p = (Accepted, t)"
    then show "request_right k s p" using pin_attempt_wrong(1) i by blast
  next
    assume "\<not> request_right k s p" and "pin_attempt k s p = (Rejected, t)"
    then show "Suc (pin_budget t) \<le> pin_budget s" using pin_attempt_wrong(4) i by blast
  next
    assume "\<not> request_right k s p" and "pin_attempt k s p = (Refused, t)"
    then show "pin_budget t \<le> pin_budget s" using pin_attempt_wrong(5) i by blast
  }
qed

subsection \<open>A concrete authenticator\<close>

definition ref_fido :: "files \<Rightarrow> fido" where
  "ref_fido fs =
     \<lparr>files = fs, tick = 0, wlog = [], res_APDU = [], ne = 0, millis = 100,
      user_present_time_limit = 0, phy_kb = False,
      paut = \<lparr>paut_data = [], in_use = False, permissions = 0, rp_id_hash = replicate 32 0,
              has_rp_id = False, user_present = False, user_verified = False\<rparr>,
      ppaut = \<lparr>ppaut_data = [], ppaut_permissions = 0\<rparr>,
      usage_timer = 0, initial_usage_time_limit = 0, max_usage_time_period = 600000,
      needs_power_cycle = False, new_pin_mismatches = 0, session_pin = replicate 32 0,
      hkey_init = True, hkey_d = [7], hkey_Qp = ([], []), has_keydev_dec = False, keydev_dec = [],
      object_session_epoch = 1\<rparr>"

definition ref_client_files :: files where
  "ref_client_files =
     [EF_PIN \<mapsto> [8, 4, 1] @ replicate 16 0x11 @ replicate 16 0, EF_AUTHTOKEN \<mapsto> replicate 32 1,
      EF_PAUTHTOKEN \<mapsto> replicate 32 2, EF_KEY_DEV \<mapsto> 1 # replicate 32 3]"

text \<open>A request with protocol one whose PIN hash is sixteen times the given byte.\<close>

definition ref_pin_req :: "u64 \<Rightarrow> u64 \<Rightarrow> byte \<Rightarrow> client_pin_req" where
  "ref_pin_req sub perms b =
     \<lparr>pinUvAuthProtocol = 1, subcommand = sub,
      req_cose = \<lparr>cose_kty = 2, cose_alg = -25, cose_crv = 1, cose_kax = Some [1], cose_kay = Some [2]\<rparr>,
      pinUvAuthParam = None, newPinEnc = None, pinHashEnc = Some (replicate 16 b),
      req_permissions = perms, rpId = None, val_c = 10\<rparr>"

lemma ref_request_pin: "request_pin ref_sdk s (ref_pin_req sub perms b) = Some (replicate 16 b)"
  by (simp add: request_pin_def ref_pin_req_def decrypt_def u16_take_def rev_replicate)

lemma ref_request_right:
  "request_right ref_sdk s (ref_pin_req sub perms b) \<longleftrightarrow>
   (\<exists>d. files s EF_PIN = Some d \<and> stored_pin_matches ref_sdk d (replicate 16 b))"
  by (auto simp: request_right_def ref_request_pin)

lemma ref_stored_pin:
  "stored_pin_matches ref_sdk ([8, 4, 1] @ replicate 16 0x11 @ replicate 16 0) (replicate 16 b) \<longleftrightarrow> b = 0x11"
  by (auto simp: stored_pin_matches_def fit_pad)

lemma ref_kdf: "kdf ref_sdk 1 z = (0, fit 32 (fit 32 z))"
  by (simp add: kdf_def ref_md_size_def)

lemma ref_decrypt: "decrypt ref_sdk 1 key (replicate n b) = (PICOKEYS_OK, replicate n b)"
  by (simp add: decrypt_def rev_replicate)

text \<open>The definitions a concrete run of the token commands unfolds.\<close>

lemmas ref_client_eval = get_token_def ref_pin_req_def permission_error_def ref_fido_def
  ref_client_files_def read_peer_key_def ecdh_def check_pin_hash_def load_pin_data_def
  persist_pin_retry_counter_def pin_hash_matches_def pin_mismatch_def regenerate_def u16_take_def
  ref_kdf ref_decrypt fit_pad plat_ops file_reads Let_def ref_put_def

subsection \<open>Wrong PINs\<close>

text \<open>
  C1: Over any sequence of requests to change the PIN or to obtain a token, none of which
  carries the stored PIN when it is processed, no request succeeds, and the number of times the
  authenticator answers that the PIN was wrong, plus the tries left at the end, is at most the
  number of tries there were.
\<close>
theorem client_pin_brute_force_bound:
  assumes "put_law k" and "wrong_run (pin_attempt k) (request_right k) s rs"
    and "guess_all (pin_attempt k) s rs = (vs, t)"
  shows "Accepted \<notin> set vs \<and> count_list vs Rejected + pin_tries t \<le> pin_tries s"
  by (rule client_pin.wrong_run_rejected [OF assms])

text \<open>
  C23: Over any such sequence, starting with fewer than three mismatches, at most three minus
  the mismatches so far are answered as wrong before the authenticator stops comparing PINs
  until the next power cycle.
\<close>
theorem client_pin_power_cycle_bound:
  assumes "put_law k" and "needs_power_cycle s \<or> new_pin_mismatches s < 3"
    and "wrong_run (pin_attempt k) (request_right k) s rs"
    and "guess_all (pin_attempt k) s rs = (vs, t)"
  shows "count_list vs Rejected \<le> (if needs_power_cycle s then 0 else 3 - unat (new_pin_mismatches s))"
proof -
  have "put_law k \<and> pin_counting s" using assms(1,2) by (simp add: pin_counting_def)
  from client_pin_power.wrong_run_rejected [OF this assms(3,4)]
  have "count_list vs Rejected \<le> pin_budget s" by simp
  also have "\<dots> \<le> (if needs_power_cycle s then 0 else 3 - unat (new_pin_mismatches s))"
    by (simp add: pin_budget_def)
  finally show ?thesis .
qed

text \<open>The stored PIN does not change under wrong requests, so a wrong request stays wrong.\<close>

lemma ref_wrong_stays:
  assumes d: "files s EF_PIN = Some d" "length d = 34 \<or> length d = 35"
    and w: "\<not> stored_pin_matches ref_sdk d (replicate 16 b)"
  shows "wrong_run (pin_attempt ref_sdk) (request_right ref_sdk) s (replicate n (ref_pin_req sub perms b))"
  using d w
proof (induction n arbitrary: s d)
  case 0
  then show ?case by simp
next
  case (Suc n)
  let ?r = "ref_pin_req sub perms b"
  have nr: "\<not> request_right ref_sdk s ?r" using Suc.prems by (auto simp: ref_request_right)
  obtain res t where c: "pin_command ref_sdk ?r s = (res, t)" by (cases "pin_command ref_sdk ?r s")
  have t: "snd (pin_attempt ref_sdk s ?r) = t" by (simp add: pin_attempt_def c)
  have "files t EF_PIN = Some d \<or> files t EF_PIN = Some (spent d)"
    using ref_put_law c nr
  proof (cases rule: wrong_request_outcome)
    case (early e)
    then show ?thesis using Suc.prems by (simp add: same_pin_state_def)
  next
    case (aborted d' e u)
    then show ?thesis using Suc.prems by auto
  next
    case (mismatch d' e u)
    then show ?thesis using Suc.prems pin_mismatch_outcome(1) [OF mismatch(12)] by simp
  qed
  then have "wrong_run (pin_attempt ref_sdk) (request_right ref_sdk) t (replicate n ?r)"
    using Suc.IH [of t d] Suc.IH [of t "spent d"] Suc.prems(2,3)
      stored_pin_matches_counter [OF Suc.prems(2)] by (auto simp: spent_def)
  then show ?case using nr t by simp
qed

lemma ref_wrong_run:
  "wrong_run (pin_attempt ref_sdk) (request_right ref_sdk) (ref_fido ref_client_files)
     (replicate n (ref_pin_req 5 0 0x22))"
  by (rule ref_wrong_stays [of _ "[8, 4, 1] @ replicate 16 0x11 @ replicate 16 0"])
     (simp_all only: ref_stored_pin, simp_all add: ref_fido_def ref_client_files_def)

theorem client_pin_brute_force_bound_witness:
  "Accepted \<notin> set (fst (guess_all (pin_attempt ref_sdk) (ref_fido ref_client_files) (replicate 20 (ref_pin_req 5 0 0x22))))"
  using client_pin_brute_force_bound [OF ref_put_law ref_wrong_run] by (metis prod.collapse)

theorem client_pin_power_cycle_bound_witness:
  "count_list (fst (guess_all (pin_attempt ref_sdk) (ref_fido ref_client_files)
     (replicate 20 (ref_pin_req 5 0 0x22)))) Rejected \<le> 3"
  using client_pin_power_cycle_bound [OF ref_put_law _ ref_wrong_run surjective_pairing]
  by (simp add: ref_fido_def)

text \<open>
  C24: When a request is answered with a wrong-PIN error because its PIN was compared and
  differs, exactly one try has been spent in storage, written and durably committed by the time of
  the answer, nothing else in storage has changed, no token was touched, and the answer and the power-cycle
  flag are those of the protocol: blocked when the last try is gone, the power cycle demanded at
  the third mismatch.
\<close>
theorem wrong_pin_answer:
  assumes "put_law k" and "pin_command k r s = (res, t)" and "\<not> request_right k s r"
    and "res = Inl e" and "e = CTAP2_ERR_PIN_INVALID \<or> e = CTAP2_ERR_PIN_BLOCKED \<or> e = CTAP2_ERR_PIN_AUTH_BLOCKED"
    and "\<not> needs_power_cycle s" and "pin_tries s \<noteq> 0"
  shows "\<exists>d. files s EF_PIN = Some d \<and> files t = (files s)(EF_PIN \<mapsto> d[0 := d ! 0 - 1]) \<and>
    wlog t = wlog s @ [Put EF_PIN (d[0 := d ! 0 - 1]), CommitSync True] \<and>
    paut t = paut s \<and> ppaut t = ppaut s \<and>
    (e = CTAP2_ERR_PIN_BLOCKED \<longleftrightarrow> pin_tries s = 1) \<and>
    (needs_power_cycle t \<longleftrightarrow> pin_tries s \<noteq> 1 \<and> new_pin_mismatches s + 1 \<ge> 3) \<and>
    (e = CTAP2_ERR_PIN_AUTH_BLOCKED \<longleftrightarrow> needs_power_cycle t)"
  using assms(1-3)
proof (cases rule: wrong_request_outcome)
  case (early e')
  then show ?thesis using assms(4-7) by auto
next
  case (aborted d e' u)
  then show ?thesis using assms(4,5) by auto
next
  case (mismatch d e' u)
  note m = pin_mismatch_outcome [OF mismatch(12)]
  have ne: "d \<noteq> []" using mismatch(2) by auto
  have "files t EF_PIN = Some (spent d)" using m(1) mismatch(6) by simp
  note sp = pin_tries_spent [OF mismatch(1) ne mismatch(3) this]
  have one: "pin_tries s = 1 \<longleftrightarrow> d ! 0 - 1 = 0" using sp by (auto simp: unat_eq_zero)
  have e: "e = e'" using assms(4) mismatch(5) by simp
  show ?thesis
    using m mismatch one e by (cases "d ! 0 - 1 = 0") (auto simp: spent_def)
qed

theorem wrong_pin_answer_witness:
  "\<exists>t. get_token ref_sdk (ref_pin_req 5 0 0x22) (ref_fido ref_client_files) = (Inl CTAP2_ERR_PIN_INVALID, t) \<and>
     files t EF_PIN = Some ([7, 4, 1] @ replicate 16 0x11 @ replicate 16 0)"
proof -
  let ?s = "ref_fido ref_client_files" and ?r = "ref_pin_req 5 0 0x22"
  have p: "pin_command ref_sdk ?r ?s = get_token ref_sdk ?r ?s" by (simp add: pin_command_def ref_pin_req_def)
  have nr: "\<not> request_right ref_sdk ?s ?r" using ref_wrong_run [of 1] by simp
  have e: "fst (get_token ref_sdk ?r ?s) = Inl CTAP2_ERR_PIN_INVALID"
    by (simp add: ref_client_eval word_le_nat_alt)
  then obtain t where t: "get_token ref_sdk ?r ?s = (Inl CTAP2_ERR_PIN_INVALID, t)" by (metis prod.collapse)
  have "pin_tries ?s = 8" by (simp add: pin_tries_def ref_fido_def ref_client_files_def)
  with wrong_pin_answer [OF ref_put_law p [unfolded t] nr refl] t show ?thesis
    by (auto simp: ref_fido_def ref_client_files_def)
qed

end
