(* ===== verification/Client_Pin_Token.thy ===== *)
theory Client_Pin_Token
  imports Client_Pin_Lockout
begin

text \<open>
  The token of the client PIN: what obtaining one takes and gives, how it ends, and what the
  two PIN protocols make of it on the wire.
\<close>

subsection \<open>Obtaining a token\<close>

lemma resetAuthToken_step: "store_step s (resetAuthToken k b s)"
  unfolding resetAuthToken_def Let_def
  by (auto split: prod.splits dest!: file_put_data_step random_fill_buffer_step
      intro: store_step_commit store_step_trans)

lemma resetAuthToken_files:
  assumes "put_law k"
  shows "g \<noteq> (if b then EF_PAUTHTOKEN else EF_AUTHTOKEN) \<Longrightarrow> files (resetAuthToken k b s) g = files s g"
  by (auto simp: resetAuthToken_def Let_def split: prod.splits if_splits
      dest!: random_fill_buffer_files file_put_data_frame [OF assms _ file_search_not])

text \<open>A renewed token: fresh data from its file, no permission, all else as it was.\<close>

lemma resetPinUvAuthToken_fields:
  "paut (resetPinUvAuthToken k s) = (paut s)\<lparr>permissions := 0,
     paut_data := file_get_data (resetPinUvAuthToken k s) (file_search (resetPinUvAuthToken k s) EF_AUTHTOKEN)\<rparr>"
  "ppaut (resetPinUvAuthToken k s) = ppaut s" "millis (resetPinUvAuthToken k s) = millis s"
  "new_pin_mismatches (resetPinUvAuthToken k s) = new_pin_mismatches s"
  "needs_power_cycle (resetPinUvAuthToken k s) = needs_power_cycle s"
  "files (resetPinUvAuthToken k s) = files (resetAuthToken k False s)"
  "object_session_epoch (resetPinUvAuthToken k s) \<noteq> 0"
  using fido_store_step [OF resetAuthToken_step [of s k False]] store_step_fields [OF resetAuthToken_step [of s k False]]
  by (simp_all add: resetPinUvAuthToken_def Let_def session_invalidate_epoch file_reads)

lemma encrypt_step: "encrypt k p key d s = (r, t) \<Longrightarrow> store_step s t"
  by (auto simp: encrypt_def Let_def split: if_splits prod.splits dest!: random_fill_buffer_step)

lemma encrypt_files: "encrypt k p key d s = (r, t) \<Longrightarrow> files t = files s"
  by (auto simp: encrypt_def Let_def split: if_splits prod.splits dest!: random_fill_buffer_files)

definition granted :: "client_pin_req \<Rightarrow> byte" where
  "granted r = (if subcommand r = 0x05 then CTAP_PERMISSION_MC OR CTAP_PERMISSION_GA
                else ucast (req_permissions r))"

lemma issue_token_fields:
  assumes "issue_token k r s = (tok, t)"
  shows "req_permissions r AND CTAP_PERMISSION_PCMR \<noteq> 0 \<Longrightarrow>
      t = s\<lparr>ppaut := (ppaut s)\<lparr>ppaut_permissions := CTAP_PERMISSION_PCMR\<rparr>\<rparr> \<and> tok = ppaut_data (ppaut s)"
    and "req_permissions r AND CTAP_PERMISSION_PCMR = 0 \<Longrightarrow>
      tok = paut_data (paut t) \<and> ppaut t = ppaut s \<and> in_use (paut t) \<and> user_verified (paut t) \<and>
      \<not> user_present (paut t) \<and> permissions (paut t) = granted r \<and>
      has_rp_id (paut t) = (rpId r \<noteq> None) \<and>
      (\<forall>rp. rpId r = Some rp \<longrightarrow> rp_id_hash (paut t) = snd (sdk_digest k MD_SHA256 rp)) \<and>
      paut_data (paut t) = file_get_data t (file_search t EF_AUTHTOKEN) \<and>
      usage_timer t = millis s \<and> initial_usage_time_limit t = millis s \<and>
      files t = files (resetAuthToken k False s)"
    and "new_pin_mismatches t = new_pin_mismatches s" "millis t = millis s"
proof -
  note rf = resetPinUvAuthToken_fields [of k s]
  have u: "(ucast ((CTAP_PERMISSION_MC :: u64) OR CTAP_PERMISSION_GA) :: byte) = CTAP_PERMISSION_MC OR CTAP_PERMISSION_GA"
    by simp
  show "req_permissions r AND CTAP_PERMISSION_PCMR \<noteq> 0 \<Longrightarrow>
      t = s\<lparr>ppaut := (ppaut s)\<lparr>ppaut_permissions := CTAP_PERMISSION_PCMR\<rparr>\<rparr> \<and> tok = ppaut_data (ppaut s)"
    using assms by (simp add: issue_token_def Let_def)
  show "new_pin_mismatches t = new_pin_mismatches s" "millis t = millis s"
    using assms rf by (auto simp: issue_token_def beginUsingPinUvAuthToken_def Let_def split: if_splits option.splits)
  assume p: "req_permissions r AND CTAP_PERMISSION_PCMR = 0"
  show "tok = paut_data (paut t) \<and> ppaut t = ppaut s \<and> in_use (paut t) \<and> user_verified (paut t) \<and>
      \<not> user_present (paut t) \<and> permissions (paut t) = granted r \<and>
      has_rp_id (paut t) = (rpId r \<noteq> None) \<and>
      (\<forall>rp. rpId r = Some rp \<longrightarrow> rp_id_hash (paut t) = snd (sdk_digest k MD_SHA256 rp)) \<and>
      paut_data (paut t) = file_get_data t (file_search t EF_AUTHTOKEN) \<and>
      usage_timer t = millis s \<and> initial_usage_time_limit t = millis s \<and>
      files t = files (resetAuthToken k False s)"
    using assms p rf
    by (cases "rpId r") (auto simp: issue_token_def beginUsingPinUvAuthToken_def granted_def Let_def file_reads)
qed

lemma get_token_finish_ok:
  assumes "get_token_finish k r ss s = (Inr resp, t)"
  obtains tok u v ret enc where "\<not> force_change_pin s" "issue_token k r s = (tok, u)"
    "encrypt k (ucast (pinUvAuthProtocol r)) ss (fit 32 tok) u = ((ret, enc), v)"
    "t = v\<lparr>needs_power_cycle := False\<rparr>"
    "cbor_emit k (CMap [CUInt 0x02, CBytes (fit (32 + (if pinUvAuthProtocol r = 1 then 0 else IV_SIZE)) enc)]) = Inr resp"
  using assms that
  by (auto simp: get_token_finish_def Let_def split: if_splits prod.splits sum.splits)

lemma pin_upgrade_frame:
  assumes "put_law k" and "pin_upgrade k pd pin s = (res, t)"
  shows "new_pin_mismatches t = new_pin_mismatches s" "paut t = paut s" "ppaut t = ppaut s"
    "millis t = millis s" "g \<noteq> EF_KEY_DEV \<Longrightarrow> files t g = files s g"
    "res = Inr (pd', pin', kd) \<Longrightarrow> pin' = pin \<and> pd' = take 2 pd @ [1] @ fit 32 (sdk_pin_verifier k pin)"
proof -
  let ?s = "s\<lparr>session_pin := sdk_hash_multi k pin\<rparr>"
  obtain ret key u where l: "load_keydev k (replicate 32 0) ?s = (ret, key, u)"
    by (cases "load_keydev k (replicate 32 0) ?s") auto
  obtain r2 v where e: "encrypt_keydev_f1 k key u = (r2, v)" by (cases "encrypt_keydev_f1 k key u")
  have t: "t = (if ret \<noteq> PICOKEYS_OK then u else v)"
    and r: "res = (if ret \<noteq> PICOKEYS_OK then Inl CTAP2_ERR_PIN_INVALID
              else Inr (take 2 pd @ [1] @ fit 32 (sdk_pin_verifier k pin), pin, key))"
    using assms(2) l e by (auto simp: pin_upgrade_def Let_def split: if_splits)
  note su = load_keydev_step [OF l] and sv = encrypt_keydev_f1_step [OF e]
  show "new_pin_mismatches t = new_pin_mismatches s" "paut t = paut s" "ppaut t = ppaut s" "millis t = millis s"
    using fido_store_step [OF su] fido_store_step [OF sv] store_step_fields [OF su] store_step_fields [OF sv] t
    by auto
  show "g \<noteq> EF_KEY_DEV \<Longrightarrow> files t g = files s g"
    using keydev_frames(1) [OF assms(1) _ l] keydev_frames(2) [OF assms(1) _ e] t by (auto split: if_splits)
  show "res = Inr (pd', pin', kd) \<Longrightarrow> pin' = pin \<and> pd' = take 2 pd @ [1] @ fit 32 (sdk_pin_verifier k pin)"
    using r by (auto split: if_splits)
qed

text \<open>The shared check, when it succeeds: the PIN was right, and only the PIN and key files changed.\<close>

lemma check_pin_hash_ok:
  assumes put: "put_law k" and d: "files s EF_PIN = Some d" and c: "check_pin_hash k p ss h s = (Inr (pd, pin, kd), t)"
  shows "\<exists>plain. decrypt k p ss (u16_take h) = (PICOKEYS_OK, plain) \<and> pin = fit 16 plain \<and>
      stored_pin_matches k d pin"
    and "length d = 34 \<or> length d = 35" and "length pd = 35"
    and "take 2 (pd[0 := b]) = take 2 (d[0 := b])"
    and "paut t = paut s" "ppaut t = ppaut s" "millis t = millis s" "new_pin_mismatches t = new_pin_mismatches s"
    and "\<And>g. g \<noteq> EF_PIN \<Longrightarrow> g \<noteq> EF_KEY_DEV \<Longrightarrow> files t g = files s g"
proof -
  show L: "length d = 34 \<or> length d = 35" using load_pin_data_None [OF c d] by blast
  have *: "(\<exists>plain. decrypt k p ss (u16_take h) = (PICOKEYS_OK, plain) \<and> pin = fit 16 plain \<and>
      stored_pin_matches k d pin) \<and> length pd = 35 \<and> take 2 (pd[0 := b]) = take 2 (d[0 := b]) \<and>
      paut t = paut s \<and> ppaut t = ppaut s \<and> millis t = millis s \<and>
      new_pin_mismatches t = new_pin_mismatches s \<and>
      (\<forall>g. g \<noteq> EF_PIN \<longrightarrow> g \<noteq> EF_KEY_DEV \<longrightarrow> files t g = files s g)"
    using put d L c
  proof (cases rule: check_pin_hash_outcome)
    case (match plain u)
    note su = fido_store_step [OF match(3)] store_step_fields [OF match(3)]
    show ?thesis
    proof (cases "length d = 34")
      case True
      then have up: "pin_upgrade k ((fit 35 d)[0 := d ! 0 - 1]) (fit 16 plain) u = (Inr (pd, pin, kd), t)"
        using match(6) by simp
      note f = pin_upgrade_frame(1-4) [OF put up] and g = pin_upgrade_frame(5) [OF put up]
        and e = pin_upgrade_frame(6) [OF put up refl]
      have "take 2 (pd[0 := b]) = take 2 (d[0 := b])"
        using e True by (cases d; cases "tl d") (auto simp: fit_def)
      with f g e match(1,2,4) su show ?thesis using True by auto
    next
      case False
      then have e: "pd = spent d" "pin = fit 16 plain" "t = u" using match(6) by auto
      have "take 2 (pd[0 := b]) = take 2 (d[0 := b])" by (simp add: e spent_def)
      with e match(1,2,4) su L False show ?thesis by auto
    qed
  qed auto
  then show "\<exists>plain. decrypt k p ss (u16_take h) = (PICOKEYS_OK, plain) \<and> pin = fit 16 plain \<and>
      stored_pin_matches k d pin" "length pd = 35" "take 2 (pd[0 := b]) = take 2 (d[0 := b])"
    "paut t = paut s" "ppaut t = ppaut s" "millis t = millis s" "new_pin_mismatches t = new_pin_mismatches s"
    "\<And>g. g \<noteq> EF_PIN \<Longrightarrow> g \<noteq> EF_KEY_DEV \<Longrightarrow> files t g = files s g" by blast+
qed

text \<open>Everything a successful request for a token says of the states before and after it.\<close>

lemma get_token_ok:
  assumes "put_law k" and "accepts k EF_PIN" and "get_token k r s = (Inr resp, t)"
  shows "request_right k s r \<and> permission_error r = None \<and> \<not> needs_power_cycle s \<and> 0 < pin_tries s \<and>
    pin_tries t = 8 \<and> new_pin_mismatches t = 0 \<and> \<not> needs_power_cycle t \<and>
    (if req_permissions r AND CTAP_PERMISSION_PCMR \<noteq> 0
     then paut t = paut s \<and> ppaut t = (ppaut s)\<lparr>ppaut_permissions := CTAP_PERMISSION_PCMR\<rparr>
     else ppaut t = ppaut s \<and> in_use (paut t) \<and> user_verified (paut t) \<and> \<not> user_present (paut t) \<and>
       permissions (paut t) = granted r \<and> has_rp_id (paut t) = (rpId r \<noteq> None) \<and>
       (\<forall>rp. rpId r = Some rp \<longrightarrow> rp_id_hash (paut t) = snd (sdk_digest k MD_SHA256 rp)) \<and>
       paut_data (paut t) = file_get_data t (file_search t EF_AUTHTOKEN) \<and>
       usage_timer t = millis s \<and> initial_usage_time_limit t = millis s)"
  using assms(3)
proof (cases rule: get_token_cases)
  case (early e)
  then show ?thesis by simp
next
  case (checked d h u c v)
  have "\<exists>pd pin kd. c = Inr (pd, pin, kd)" using checked(9) by (cases c) auto
  then obtain pd pin kd where c: "c = Inr (pd, pin, kd)" by blast
  have du: "files u EF_PIN = Some d" using checked(1,7) by (simp add: same_pin_state_def)
  note ok = check_pin_hash_ok [OF assms(1) du checked(8) [unfolded c]]
  obtain w x y where w: "check_keydev_encrypted k (sdk_pin_session k pin) (v\<lparr>session_pin := sdk_pin_session k pin\<rparr>) = (PICOKEYS_OK, w)"
    and y: "file_put_data k (Some EF_PIN) (pd[0 := MAX_PIN_RETRIES]) (w\<lparr>new_pin_mismatches := 0\<rparr>) = (x, y)"
    and fin: "get_token_finish k r (request_secret k s r) (flash_commit y) = (Inr resp, t)"
    using checked(10) [OF c] by blast
  obtain tok a b ret enc where i: "\<not> force_change_pin (flash_commit y)" "issue_token k r (flash_commit y) = (tok, a)"
    and e: "encrypt k (ucast (pinUvAuthProtocol r)) (request_secret k s r) (fit 32 tok) a = ((ret, enc), b)"
    and t: "t = b\<lparr>needs_power_cycle := False\<rparr>"
    using get_token_finish_ok [OF fin] by metis
  have sw: "store_step (v\<lparr>session_pin := sdk_pin_session k pin\<rparr>) w" by (rule check_keydev_encrypted_step [OF w])
  have sy: "store_step (w\<lparr>new_pin_mismatches := 0\<rparr>) (flash_commit y)"
    by (rule store_step_commit [OF file_put_data_step [OF y]])
  have sb: "store_step a b" by (rule encrypt_step [OF e])
  let ?s = "flash_commit y"
  have keep: "paut ?s = paut s" "ppaut ?s = ppaut s" "millis ?s = millis v" "new_pin_mismatches ?s = 0"
    using fido_store_step [OF sy] store_step_fields [OF sy] fido_store_step [OF sw] store_step_fields [OF sw]
      ok(5,6) checked(7) by (simp_all add: same_pin_state_def)
  have mv: "millis v = millis s"
    using ok(7) checked(7) by (simp add: same_pin_state_def)
  have len: "length (pd[0 := MAX_PIN_RETRIES]) \<le> 1024" using ok(3) by simp
  have fy: "files y = (files w)(EF_PIN \<mapsto> pd[0 := MAX_PIN_RETRIES])"
    using accepts_put [OF assms(1,2) len y] by simp
  have right: "request_right k s r"
    using ok(1) checked(1,4) by (auto simp: request_right_def request_pin_def)
  have tr: "0 < pin_tries s" using checked(1-3) by (simp add: pin_tries_eq unat_gt_0)
  have tt: "files b = files a" by (rule encrypt_files [OF e])
  have ft: "files t EF_PIN = Some (pd[0 := MAX_PIN_RETRIES])"
  proof (cases "req_permissions r AND CTAP_PERMISSION_PCMR = 0")
    case True
    with issue_token_fields(2) [OF i(2)] have "files a = files (resetAuthToken k False ?s)" by simp
    then show ?thesis using resetAuthToken_files [OF assms(1), of EF_PIN False ?s] by (simp add: t tt fy)
  next
    case False
    with issue_token_fields(1) [OF i(2)] show ?thesis by (simp add: t tt fy)
  qed
  have pt: "pin_tries t = 8" using ok(3) by (subst pin_tries_eq [OF ft]) auto
  note bb = fido_store_step [OF sb] store_step_fields [OF sb]
  show ?thesis
  proof (cases "req_permissions r AND CTAP_PERMISSION_PCMR = 0")
    case True
    show ?thesis
      using issue_token_fields(2) [OF i(2) True] issue_token_fields(3,4) [OF i(2)] right checked(5,6) tr pt True bb keep mv tt
      by (simp add: t file_reads)
  next
    case False
    show ?thesis
      using issue_token_fields(1) [OF i(2) False] right checked(5,6) tr pt False bb keep by (simp add: t)
  qed
qed

text \<open>
  C2: A token is handed out only when the request carries the stored PIN, while tries are left
  and no power cycle is due, and its permissions pass the checks. For the read-only permission
  the persistent token is given that permission and nothing of the other token changes;
  otherwise the token in use is a renewed one, with exactly the permissions asked for (those of
  make-credential and get-assertion for the legacy subcommand), bound to the relying party
  exactly when one is named, verified but without user presence, its timers starting now. The
  retry counter is back at its maximum and the mismatch count at zero.
\<close>
theorem token_requires_pin:
  assumes "put_law k" and "accepts k EF_PIN" and "get_token k r s = (Inr resp, t)"
  shows "request_right k s r \<and> permission_error r = None \<and> \<not> needs_power_cycle s \<and> 0 < pin_tries s \<and>
    pin_tries t = 8 \<and> new_pin_mismatches t = 0 \<and> \<not> needs_power_cycle t \<and>
    (if req_permissions r AND CTAP_PERMISSION_PCMR \<noteq> 0
     then paut t = paut s \<and> ppaut t = (ppaut s)\<lparr>ppaut_permissions := CTAP_PERMISSION_PCMR\<rparr>
     else ppaut t = ppaut s \<and> in_use (paut t) \<and> user_verified (paut t) \<and> \<not> user_present (paut t) \<and>
       permissions (paut t) = granted r \<and> has_rp_id (paut t) = (rpId r \<noteq> None) \<and>
       (\<forall>rp. rpId r = Some rp \<longrightarrow> rp_id_hash (paut t) = snd (sdk_digest k MD_SHA256 rp)) \<and>
       paut_data (paut t) = file_get_data t (file_search t EF_AUTHTOKEN) \<and>
       usage_timer t = millis s \<and> initial_usage_time_limit t = millis s)"
  by (rule get_token_ok [OF assms])

lemma ref_get_token:
  "\<exists>resp t. get_token ref_sdk (ref_pin_req 9 CTAP_PERMISSION_CM 0x11) (ref_fido ref_client_files) = (Inr resp, t)"
proof -
  let ?x = "get_token ref_sdk (ref_pin_req 9 CTAP_PERMISSION_CM 0x11) (ref_fido ref_client_files)"
  have "\<exists>resp. fst ?x = Inr resp"
    by (simp add: ref_client_eval check_keydev_encrypted_def get_token_finish_def force_change_pin_def
        issue_token_def resetPinUvAuthToken_def resetAuthToken_def beginUsingPinUvAuthToken_def
        session_invalidate_def encrypt_def cbor_emit_def ref_cbor_enc_def)
  then show ?thesis by (metis prod.collapse)
qed

theorem token_requires_pin_witness:
  "\<exists>resp t. get_token ref_sdk (ref_pin_req 9 CTAP_PERMISSION_CM 0x11) (ref_fido ref_client_files) = (Inr resp, t) \<and>
     in_use (paut t) \<and> permissions (paut t) = CTAP_PERMISSION_CM \<and> pin_tries t = 8"
proof -
  let ?r = "ref_pin_req 9 CTAP_PERMISSION_CM 0x11" and ?s = "ref_fido ref_client_files"
  let ?x = "get_token ref_sdk ?r ?s"
  obtain resp t where t: "?x = (Inr resp, t)" using ref_get_token by blast
  have "accepts ref_sdk EF_PIN" by (simp add: accepts_def ref_put_def)
  from token_requires_pin [OF ref_put_law this t] t show ?thesis
    by (simp add: ref_pin_req_def granted_def)
qed

end
