(* ===== verification/Client_Pin_Set.thy ===== *)
theory Client_Pin_Set
  imports Client_Pin_Token
begin

text \<open>
  Setting the PIN, what becomes of the device key when it is, the end of a token, and the
  routines of the two PIN protocols.
\<close>

subsection \<open>The wire format of the two protocols\<close>

text \<open>
  What \<open>encrypt\<close> produces under a shared secret, \<open>decrypt\<close> reads back under the same
  secret and protocol; protocol one keeps the length and protocol two puts a random
  initialisation vector in front.
\<close>
theorem pin_protocol_round_trip:
  assumes "aes_law k" and "random_law k" and "encrypt k p ss d s = ((PICOKEYS_OK, c), t)"
  shows "decrypt k p ss c = (PICOKEYS_OK, d) \<and> length c = length d + (if p = 1 then 0 else 16)"
proof -
  have p: "p = 1 \<or> p = 2" using assms(3) by (auto simp: encrypt_def split: if_splits)
  then show ?thesis
  proof
    assume "p = 1"
    then show ?thesis
      using assms(1,3) unfolding aes_law_def by (auto simp: encrypt_def decrypt_def)
  next
    assume p2: "p = 2"
    then obtain iv ct where c: "c = iv @ ct" and iv: "length iv = 16"
      and e: "sdk_aes_enc k (take 32 (drop 32 ss)) (Some iv) d = (PICOKEYS_OK, ct)"
      using assms(2,3) by (auto simp: encrypt_def random_fill_buffer_def random_law_def Let_def split: prod.splits)
    have "sdk_aes_dec k (take 32 (drop 32 ss)) (Some iv) ct = (PICOKEYS_OK, d)" "length ct = length d"
      using assms(1) e unfolding aes_law_def by blast+
    then show ?thesis by (simp add: p2 decrypt_def c iv)
  qed
qed

theorem pin_protocol_round_trip_witness:
  "\<exists>c t. encrypt ref_sdk 2 (replicate 64 1) (replicate 32 9) (ref_fido Map.empty) = ((PICOKEYS_OK, c), t) \<and>
     decrypt ref_sdk 2 (replicate 64 1) c = (PICOKEYS_OK, replicate 32 9) \<and> length c = 48"
proof -
  obtain c t where c: "encrypt ref_sdk 2 (replicate 64 1) (replicate 32 9) (ref_fido Map.empty) = ((PICOKEYS_OK, c), t)"
    by (auto simp: encrypt_def random_fill_buffer_def)
  from pin_protocol_round_trip [OF ref_aes_law ref_random_law c] c show ?thesis by auto
qed

subsection \<open>Counting characters\<close>

lemma cont_byte: "(x :: byte) AND 0xC0 = 0x80 \<longleftrightarrow> bit x 7 \<and> \<not> bit x 6"
proof
  assume h: "x AND 0xC0 = 0x80"
  have "bit (x AND 0xC0) 7" "\<not> bit (x AND 0xC0) 6" unfolding h by simp_all
  then show "bit x 7 \<and> \<not> bit x 6" by (simp add: bit_and_iff)
next
  assume b: "bit x 7 \<and> \<not> bit x 6"
  show "x AND 0xC0 = 0x80"
  proof (rule bit_word_eqI)
    fix n
    assume "n < LENGTH(8)"
    then consider "n = 0" | "n = 1" | "n = 2" | "n = 3" | "n = 4" | "n = 5" | "n = 6" | "n = 7" by fastforce
    then show "bit (x AND 0xC0) n = bit (0x80 :: byte) n"
      using b by cases (simp_all add: bit_and_iff)
  qed
qed

lemma of_nat_bit: "bit (word_of_nat n :: byte) i \<longleftrightarrow> i < 8 \<and> bit n i"
  by (simp add: bit_simps)

lemma nat_bit_small: "n < 2 ^ i \<Longrightarrow> i \<le> j \<Longrightarrow> \<not> bit (n :: nat) j"
  by (metis bit_take_bit_iff linorder_not_less take_bit_nat_eq_self)

text \<open>
  The encoding of a code point in UTF-8, as the reference the count is compared with.
\<close>

definition utf8_cont :: "nat \<Rightarrow> nat \<Rightarrow> byte" where
  "utf8_cont c i = 0x80 OR word_of_nat (c div 64 ^ i mod 64)"

definition utf8 :: "nat \<Rightarrow> bytes" where
  "utf8 c =
     (if c < 0x80 then [word_of_nat c]
      else if c < 0x800 then [0xC0 OR word_of_nat (c div 64), utf8_cont c 0]
      else if c < 0x10000 then [0xE0 OR word_of_nat (c div 64 ^ 2), utf8_cont c 1, utf8_cont c 0]
      else [0xF0 OR word_of_nat (c div 64 ^ 3), utf8_cont c 2, utf8_cont c 1, utf8_cont c 0])"

lemma utf8_cont_mask: "utf8_cont c i AND 0xC0 = 0x80"
  unfolding cont_byte utf8_cont_def
  using nat_bit_small [of "c div 64 ^ i mod 64" 6 6] by (simp add: bit_or_iff of_nat_bit)

lemma pin_codepoint_len_utf8: "pin_codepoint_len (utf8 c) = 1"
proof -
  have "\<not> (word_of_nat c AND 0xC0 = (0x80 :: byte))" if "c < 0x80"
    unfolding cont_byte using nat_bit_small [of c 7 7] that by (simp add: of_nat_bit)
  moreover have "\<not> ((0xC0 OR w) AND 0xC0 = (0x80 :: byte))" "\<not> ((0xE0 OR w) AND 0xC0 = (0x80 :: byte))"
    "\<not> ((0xF0 OR w) AND 0xC0 = (0x80 :: byte))" for w
    unfolding cont_byte by (simp_all add: bit_or_iff)
  ultimately show ?thesis by (simp add: utf8_def utf8_cont_mask)
qed

lemma pin_codepoint_len_append: "pin_codepoint_len (a @ b) = pin_codepoint_len a + pin_codepoint_len b"
  by (induction a) (simp_all add: add.assoc)

text \<open>
  The count of code points the PIN policy uses is, for every UTF-8 encoded text, the number
  of its characters (modulo two to the sixteen).
\<close>
theorem pin_codepoint_len_counts:
  "pin_codepoint_len (concat (map utf8 cs)) = word_of_nat (length cs)"
  by (induction cs) (simp_all add: pin_codepoint_len_append pin_codepoint_len_utf8)

subsection \<open>The device key under the PIN\<close>

text \<open>Authenticated encryption never fails.\<close>

definition encrypts :: "sdk \<Rightarrow> bool" where
  "encrypts k \<longleftrightarrow> (\<forall>n key d v. fst (sdk_aead_enc k n key d v) = PICOKEYS_OK)"

lemma load_keydev_plain:
  assumes "files s EF_KEY_DEV = Some (1 # kd)" and "length kd = 32" and "\<not> has_keydev_dec s"
  shows "load_keydev k key0 s =
    (let (ret, key) = sdk_aes_dec k (sdk_kbase k) (Some (sdk_serial_hash k)) kd
     in (if ret \<noteq> PICOKEYS_OK then PICOKEYS_EXEC_ERROR else PICOKEYS_OK, key, s))"
  using assms by (simp add: load_keydev_def file_reads Let_def)

lemma load_keydev_encrypted:
  assumes "files s EF_KEY_DEV = Some (3 # ct)" and "length ct = 60" and "\<not> has_keydev_dec s"
    and "sdk_aead_dec k (session_pin s) ct 2 = (PICOKEYS_OK, kd)"
  shows "load_keydev k key0 s =
    (let (ret, key) = sdk_aes_dec k (sdk_kbase k) (Some (sdk_serial_hash k)) kd
     in (if ret \<noteq> PICOKEYS_OK then PICOKEYS_EXEC_ERROR else PICOKEYS_OK, key, s))"
proof -
  have "tl (fit 61 (3 # ct)) = ct" using assms(2) by simp
  then show ?thesis using assms by (simp add: load_keydev_def file_reads Let_def)
qed

lemma check_keydev_encrypted_stores:
  assumes "put_law k" "accepts k EF_KEY_DEV" "aead_law k" "encrypts k"
    and "files s EF_KEY_DEV = Some (1 # kd)" and "length kd = 32"
    and "check_keydev_encrypted k p s = (r, t)"
  shows "\<exists>ct. files t = (files s)(EF_KEY_DEV \<mapsto> 3 # ct) \<and> length ct = 60 \<and>
    sdk_aead_dec k p ct 2 = (PICOKEYS_OK, kd)"
proof -
  obtain ct where e: "sdk_aead_enc k (tick s) p kd 2 = (PICOKEYS_OK, ct)"
    using assms(4) unfolding encrypts_def by (metis prod.collapse)
  have ct: "length ct = 60" "sdk_aead_dec k p ct 2 = (PICOKEYS_OK, kd)"
    using assms(3,6) e unfolding aead_law_def by force+
  obtain r' u where u: "file_put_data k (Some EF_KEY_DEV) (3 # ct) (s\<lparr>tick := Suc (tick s)\<rparr>) = (r', u)"
    by (cases "file_put_data k (Some EF_KEY_DEV) (3 # ct) (s\<lparr>tick := Suc (tick s)\<rparr>)")
  have fs: "file_search s EF_KEY_DEV = Some EF_KEY_DEV" "file_has_data s (Some EF_KEY_DEV)"
    "file_get_data s (Some EF_KEY_DEV) = 1 # kd"
    using assms(5) by (simp_all add: file_reads)
  have "t = flash_commit u"
    using assms(6,7) ct(1) e u by (simp add: check_keydev_encrypted_def fs Let_def)
  with accepts_put [OF assms(1,2) _ u] ct show ?thesis by (intro exI [of _ ct]) simp
qed

subsection \<open>Setting the PIN\<close>

lemma takeWhile_nonzero:
  assumes "i < length buf" and "buf ! i = (0 :: byte)"
  shows "length (takeWhile (\<lambda>b. b \<noteq> 0) buf) \<le> i"
proof (rule ccontr)
  assume "\<not> ?thesis"
  then have "i < length (takeWhile (\<lambda>b. b \<noteq> 0) buf)" by simp
  then have "takeWhile (\<lambda>b. b \<noteq> 0) buf ! i = buf ! i"
    and "takeWhile (\<lambda>b. b \<noteq> 0) buf ! i \<in> set (takeWhile (\<lambda>b. b \<noteq> 0) buf)"
    by (rule takeWhile_nth, rule nth_mem)
  then have "buf ! i \<noteq> 0" by (metis set_takeWhileD)
  with assms show False by simp
qed

lemma new_pin_check_ok:
  assumes "new_pin_check k buf n s = Some pin" and "64 \<le> length buf"
  shows "pin = takeWhile (\<lambda>b. b \<noteq> 0) buf" "length pin \<le> 63" "0 \<notin> set pin"
    "ucast (min_pin_len s) \<le> pin_codepoint_len pin" "pin_policy_pass k pin s" "n \<le> 64"
  using assms takeWhile_nonzero [of 63 buf]
  by (auto simp: new_pin_check_def Let_def not_less split: if_splits dest: set_takeWhileD)

lemma pin_record_props:
  assumes "verifier_law k"
  shows "length (pin_record k pin dh) = 35" "pin_record k pin dh ! 0 = 8"
    "stored_pin_matches k (pin_record k pin dh) (take 16 dh)"
  using assms by (simp_all add: pin_record_def stored_pin_matches_def verifier_law_def)

lemma set_pin_ok:
  fixes s t :: "'a fido_scheme"
  assumes "set_pin k r s = (Inr resp, t)"
  obtains pin buf n x ret and u y w :: "'a fido_scheme" where
    "\<not> file_has_data s (file_search s EF_PIN)" "same_pin_state s u" "has_keydev_dec u = has_keydev_dec s"
    "new_pin_check k (fit 272 buf) n u = Some pin"
    "file_put_data k (file_search s EF_PIN) (pin_record k pin (snd (sdk_digest k MD_SHA256 pin))) u = (x, y)"
    "check_keydev_encrypted k (sdk_pin_session k (take 16 (snd (sdk_digest k MD_SHA256 pin))))
       ((flash_commit y)\<lparr>session_pin := sdk_pin_session k (take 16 (snd (sdk_digest k MD_SHA256 pin)))\<rparr>) = (ret, w)"
    "t = w\<lparr>new_pin_mismatches := 0, needs_power_cycle := False\<rparr>"
proof -
  obtain kx ky np pm where o: "cose_kax (req_cose r) = Some kx" "cose_kay (req_cose r) = Some ky"
    "newPinEnc r = Some np" "pinUvAuthParam r = Some pm"
    using assms by (auto simp: set_pin_def split: option.splits)
  obtain b u where u: "read_peer_key k kx ky s = (b, u)" by (cases "read_peer_key k kx ky s")
  let ?p = "ucast (pinUvAuthProtocol r)"
  obtain ret ss v where v: "ecdh k ?p (hkey_Qp u) u = ((ret, ss), v)" by (cases "ecdh k ?p (hkey_Qp u) u") auto
  note ka = key_agreement_prefix [OF u v]
  have kd: "has_keydev_dec v = has_keydev_dec s"
    using u ecdh_frame(1) [OF v] by (auto simp: read_peer_key_def Let_def split: if_splits)
  obtain dr plain where d: "decrypt k ?p ss (u16_take np) = (dr, plain)" by (cases "decrypt k ?p ss (u16_take np)")
  let ?n = "(if pinUvAuthProtocol r = 1 then length np else length np - 16) mod 65536"
  have nd: "\<not> file_has_data s (file_search s EF_PIN)" "b" "ret = 0" "dr = PICOKEYS_OK"
    using assms by (auto simp: set_pin_def o u v d Let_def simp del: file_search_data split: if_splits)
  obtain pin where pin: "new_pin_check k (fit 272 plain) ?n v = Some pin"
    using assms by (auto simp: set_pin_def o u v d nd Let_def simp del: file_search_data split: if_splits option.splits)
  let ?dh = "snd (sdk_digest k MD_SHA256 pin)"
  obtain x y where y: "file_put_data k (file_search s EF_PIN) (pin_record k pin ?dh) v = (x, y)"
    by (cases "file_put_data k (file_search s EF_PIN) (pin_record k pin ?dh) v")
  let ?y = "(flash_commit y)\<lparr>session_pin := sdk_pin_session k (take 16 ?dh)\<rparr>"
  obtain cr w where w: "check_keydev_encrypted k (sdk_pin_session k (take 16 ?dh)) ?y = (cr, w)"
    by (cases "check_keydev_encrypted k (sdk_pin_session k (take 16 ?dh)) ?y")
  have "t = w\<lparr>new_pin_mismatches := 0, needs_power_cycle := False\<rparr>"
  proof -
    have pr: "pinUvAuthProtocol r = 1 \<or> pinUvAuthProtocol r = 2"
      using assms by (auto simp: set_pin_def o Let_def split: if_splits)
    then show ?thesis
      using assms check_keydev_encrypted_ok [OF w] pin y w v d nd
      by (elim disjE) (simp_all add: set_pin_def o u Let_def del: file_search_data split: if_splits)
  qed
  with that [OF nd(1) ka(2) kd pin y w] show thesis by blast
qed

text \<open>
  C25: Setting the PIN succeeds only when none is set. The new PIN then has at most 63 bytes, no
  zero byte, at least as many characters as the minimum, and satisfies the complexity policy;
  its record carries eight tries and is matched by the hash of the PIN and by the format the
  later comparisons use; the lockout state is cleared.
\<close>
theorem set_pin_spec:
  assumes "put_law k" and "accepts k EF_PIN" and "verifier_law k"
    and "files s EF_PIN \<noteq> None" and "set_pin k r s = (Inr resp, t)"
  shows "files s EF_PIN = Some [] \<and>
    (\<exists>pin d. files t EF_PIN = Some d \<and> length d = 35 \<and> pin_tries t = 8 \<and>
       stored_pin_matches k d (take 16 (snd (sdk_digest k MD_SHA256 pin))) \<and>
       session_pin t = sdk_pin_session k (take 16 (snd (sdk_digest k MD_SHA256 pin))) \<and>
       length pin \<le> 63 \<and> 0 \<notin> set pin \<and> ucast (min_pin_len s) \<le> pin_codepoint_len pin \<and>
       pin_policy_pass k pin s) \<and>
    \<not> needs_power_cycle t \<and> new_pin_mismatches t = 0"
  using assms(5)
proof (cases rule: set_pin_ok)
  case (1 pin buf n x ret u y w)
  let ?dh = "snd (sdk_digest k MD_SHA256 pin)"
  have s0: "files s EF_PIN = Some []" using assms(4) 1(1) by auto
  have fu: "files u = files s" using 1(2) by (simp add: same_pin_state_def)
  have fs: "file_search s EF_PIN = Some EF_PIN" using s0 by (simp add: file_search_def)
  note pr = pin_record_props [OF assms(3), of pin ?dh]
  have fy: "files y = (files u)(EF_PIN \<mapsto> pin_record k pin ?dh)"
    using accepts_put [OF assms(1,2) _ 1(5) [unfolded fs]] pr(1) by simp
  have fw: "files w EF_PIN = files y EF_PIN" using keydev_frames(3) [OF assms(1) _ 1(6)] by simp
  have ft: "files t EF_PIN = Some (pin_record k pin ?dh)" using fw fy 1(7) by simp
  have ne: "pin_record k pin ?dh \<noteq> []" by (simp add: pin_record_def)
  have tr: "pin_tries t = 8" using pin_tries_eq [OF ft ne] pr(2) by simp
  have se: "session_pin t = sdk_pin_session k (take 16 ?dh)"
    using fido_store_step(5) [OF check_keydev_encrypted_step [OF 1(6)]] 1(7) by simp
  note np = new_pin_check_ok [OF 1(4)]
  have "min_pin_len u = min_pin_len s" "pin_policy_pass k pin u = pin_policy_pass k pin s"
    by (simp_all only: min_pin_len_def pin_policy_pass_def file_reads_cong [OF fu])
  then show ?thesis using s0 ft pr tr se np 1(7) by auto
qed

text \<open>
  C26: Setting the PIN moves the device key from its plain format to the format encrypted under
  the session key of the PIN, and loading it gives the same key as before.
\<close>
theorem set_pin_keeps_device_key:
  assumes "put_law k" and "accepts k EF_KEY_DEV" and "aead_law k" and "encrypts k"
    and "files s EF_KEY_DEV = Some (1 # kd)" and "length kd = 32" and "\<not> has_keydev_dec s"
    and "set_pin k r s = (Inr resp, t)"
  shows "\<exists>ct. files t EF_KEY_DEV = Some (3 # ct) \<and> length ct = 60 \<and>
    load_keydev k key0 t = (fst (load_keydev k key0 s), fst (snd (load_keydev k key0 s)), t)"
  using assms(8)
proof (cases rule: set_pin_ok)
  case (1 pin buf n x ret u y w)
  let ?sp = "sdk_pin_session k (take 16 (snd (sdk_digest k MD_SHA256 pin)))"
  let ?y = "(flash_commit y)\<lparr>session_pin := ?sp\<rparr>"
  have "files y EF_KEY_DEV = files u EF_KEY_DEV"
    using file_put_data_frame [OF assms(1) 1(5) file_search_not] by simp
  then have fy: "files ?y EF_KEY_DEV = Some (1 # kd)" using assms(5) 1(2) by (simp add: same_pin_state_def)
  obtain ct where ct: "files w = (files ?y)(EF_KEY_DEV \<mapsto> 3 # ct)" "length ct = 60"
    "sdk_aead_dec k ?sp ct 2 = (PICOKEYS_OK, kd)"
    using check_keydev_encrypted_stores [OF assms(1-4) fy assms(6) 1(6)] by blast
  have st: "store_step ?y w" by (rule check_keydev_encrypted_step [OF 1(6)])
  have "session_pin t = ?sp" "has_keydev_dec t = has_keydev_dec s"
    using fido_store_step [OF st] fido_store_step [OF file_put_data_step [OF 1(5)]] 1(3,7)
    by (simp_all add: flash_commit_def)
  then have "load_keydev k key0 t = (let (ret, key) = sdk_aes_dec k (sdk_kbase k) (Some (sdk_serial_hash k)) kd
     in (if ret \<noteq> PICOKEYS_OK then PICOKEYS_EXEC_ERROR else PICOKEYS_OK, key, t))"
    using ct 1(7) assms(7) by (intro load_keydev_encrypted [of t ct]) simp_all
  with load_keydev_plain [OF assms(5-7)] ct 1(7) show ?thesis
    by (auto split: prod.splits)
qed

definition ref_set_req :: client_pin_req where
  "ref_set_req =
     (ref_pin_req 3 0 0)\<lparr>pinUvAuthParam := Some ([1, 7] @ replicate 14 0),
       newPinEnc := Some (replicate 60 0 @ [0x34, 0x33, 0x32, 0x31]), pinHashEnc := None\<rparr>"

definition ref_set_files :: files where
  "ref_set_files = [EF_PIN \<mapsto> [], EF_KEY_DEV \<mapsto> 1 # replicate 32 3]"

lemma ref_set_pin: "\<exists>t. set_pin ref_sdk ref_set_req (ref_fido ref_set_files) = (Inr [], t)"
proof -
  have f: "fit 272 ([0x31, 0x32, 0x33, 0x34] @ replicate 60 0) = [0x31, 0x32, 0x33, 0x34] @ replicate 268 (0 :: byte)"
    by (simp add: fit_pad replicate_add [symmetric])
  have c: "new_pin_check ref_sdk ([0x31, 0x32, 0x33, 0x34] @ replicate 268 (0 :: byte)) 64 s = Some [0x31, 0x32, 0x33, 0x34]"
    if "files s = ref_set_files" for s :: fido
    using that by (simp add: new_pin_check_def Let_def min_pin_len_def pin_policy_pass_def ref_set_files_def
        nth_append takeWhile_tail word_less_nat_alt)
  have h: "take 16 (fit 32 (1 # 7 # replicate 30 0 @ x)) = 1 # 7 # replicate 14 (0 :: byte)" for x
    by (simp add: fit_def)
  have "fst (set_pin ref_sdk ref_set_req (ref_fido ref_set_files)) = Inr []"
    using f c
    by (simp add: h set_pin_def ref_set_req_def ref_pin_req_def read_peer_key_def ecdh_def ref_kdf fit_pad
        verify_def decrypt_def u16_take_def ref_fido_def ref_set_files_def ref_md_size_def Let_def
        file_put_data_def file_search_def ref_put_def flash_commit_def check_keydev_encrypted_def
        pin_record_def file_get_data_def file_has_data_def file_get_size_def)
  then show ?thesis by (metis prod.collapse)
qed

theorem set_pin_spec_witness:
  "\<exists>t d. set_pin ref_sdk ref_set_req (ref_fido ref_set_files) = (Inr [], t) \<and>
     files t EF_PIN = Some d \<and> length d = 35 \<and> pin_tries t = 8"
proof -
  obtain t where t: "set_pin ref_sdk ref_set_req (ref_fido ref_set_files) = (Inr [], t)"
    using ref_set_pin by blast
  have a: "accepts ref_sdk EF_PIN" by (simp add: accepts_def ref_put_def)
  have n: "files (ref_fido ref_set_files) EF_PIN \<noteq> None" by (simp add: ref_fido_def ref_set_files_def)
  from set_pin_spec [OF ref_put_law a ref_verifier_law n t] t show ?thesis by blast
qed

theorem set_pin_keeps_device_key_witness:
  "\<exists>t. set_pin ref_sdk ref_set_req (ref_fido ref_set_files) = (Inr [], t) \<and>
     load_keydev ref_sdk [] t = (PICOKEYS_OK, replicate 32 3, t)"
proof -
  obtain t where t: "set_pin ref_sdk ref_set_req (ref_fido ref_set_files) = (Inr [], t)"
    using ref_set_pin by blast
  have a: "accepts ref_sdk EF_KEY_DEV" by (simp add: accepts_def ref_put_def)
  have e: "encrypts ref_sdk" by (simp add: encrypts_def)
  have n: "files (ref_fido ref_set_files) EF_KEY_DEV = Some (1 # replicate 32 3)" "length (replicate 32 (3 :: byte)) = 32"
    "\<not> has_keydev_dec (ref_fido ref_set_files)" by (simp_all add: ref_fido_def ref_set_files_def)
  have "load_keydev ref_sdk [] (ref_fido ref_set_files) = (PICOKEYS_OK, replicate 32 3, ref_fido ref_set_files)"
    using load_keydev_plain [OF n, of ref_sdk "[]"] by (simp add: rev_replicate)
  with set_pin_keeps_device_key [OF ref_put_law a ref_aead_law e n t, of "[]"] t show ?thesis by auto
qed

subsection \<open>The end of a token\<close>

text \<open>
  Thirty seconds after a token was taken into use (unless the millisecond clock wraps in
  between), the next command finds it gone: not in use, no permission, no relying party, no
  flag, timers cleared, and every authorization context built before is of an older epoch. No
  file changes.
\<close>
theorem token_expires:
  assumes "in_use (paut s)" and "usage_timer s \<noteq> 0" and "object_session_epoch s \<noteq> 0"
    and "unat (initial_usage_time_limit s) + 30000 \<le> unat (millis s)"
  shows "let t = pin_uv_auth_token_tick s in
    \<not> in_use (paut t) \<and> permissions (paut t) = 0 \<and> \<not> has_rp_id (paut t) \<and>
    \<not> user_present (paut t) \<and> \<not> user_verified (paut t) \<and> usage_timer t = 0 \<and>
    user_present_time_limit t = 0 \<and> object_session_epoch t \<noteq> object_session_epoch s \<and>
    facts_epoch (authorization_context_build ev b s) \<noteq> object_session_epoch t \<and> files t = files s"
proof -
  have "unat (millis s) < 2 ^ LENGTH(32)" by (rule unsigned_less)
  then have "unat (initial_usage_time_limit s) + 30000 < 2 ^ 32" using assms(4) by simp
  then have "unat (initial_usage_time_limit s + TRANSPORT_TIME_LIMIT) = unat (initial_usage_time_limit s) + 30000"
    by (simp add: TRANSPORT_TIME_LIMIT_def unat_word_ariths)
  then have "initial_usage_time_limit s + TRANSPORT_TIME_LIMIT \<le> millis s"
    using assms(4) by (simp add: word_le_nat_alt)
  then have t: "pin_uv_auth_token_tick s = stopUsingPinUvAuthToken s"
    using assms(1,2) by (simp add: pin_uv_auth_token_tick_def Let_def)
  show ?thesis
    using assms(1,3) session_invalidate_epoch(2) [of s]
    by (simp add: t stopUsingPinUvAuthToken_def Let_def authorization_context_build_def session_invalidate_def)
qed

theorem token_expires_witness:
  "let s = (ref_fido Map.empty)\<lparr>millis := 40000, usage_timer := 5, initial_usage_time_limit := 5,
         paut := (paut (ref_fido Map.empty))\<lparr>in_use := True, permissions := 3\<rparr>\<rparr>
   in \<not> in_use (paut (pin_uv_auth_token_tick s))"
  unfolding Let_def
  by (rule token_expires [unfolded Let_def, THEN conjunct1]) (simp_all add: ref_fido_def)

text \<open>
  C27: Narrowing a token to large-blob writing assigns that permission instead of intersecting
  with it: a token obtained with the PIN for other permissions, without the one to write large
  blobs, has it after the narrowing that follows its first use.
\<close>
theorem narrowing_grants_lbw:
  assumes "put_law k" and "accepts k EF_PIN" and "get_token k r s = (Inr resp, t)"
    and "req_permissions r AND CTAP_PERMISSION_PCMR = 0" and "granted r AND CTAP_PERMISSION_LBW = 0"
  shows "permissions (paut t) AND CTAP_PERMISSION_LBW = 0 \<and>
    permissions (paut (clearPinUvAuthTokenPermissionsExceptLbw t)) AND CTAP_PERMISSION_LBW \<noteq> 0"
proof -
  have "in_use (paut t)" "permissions (paut t) = granted r"
    using get_token_ok [OF assms(1-3)] assms(4) by simp_all
  with assms(5) show ?thesis by (auto simp: clearPinUvAuthTokenPermissionsExceptLbw_def)
qed

theorem narrowing_grants_lbw_witness:
  "\<exists>resp t. get_token ref_sdk (ref_pin_req 9 CTAP_PERMISSION_CM 0x11) (ref_fido ref_client_files) = (Inr resp, t) \<and>
     permissions (paut (clearPinUvAuthTokenPermissionsExceptLbw t)) AND CTAP_PERMISSION_LBW \<noteq> 0"
proof -
  let ?r = "ref_pin_req 9 CTAP_PERMISSION_CM 0x11"
  obtain resp t where t: "get_token ref_sdk ?r (ref_fido ref_client_files) = (Inr resp, t)"
    using ref_get_token by blast
  have "accepts ref_sdk EF_PIN" by (simp add: accepts_def ref_put_def)
  from narrowing_grants_lbw [OF ref_put_law this t] t show ?thesis
    by (auto simp: ref_pin_req_def granted_def)
qed

end
