(* ===== verification/Management.thy ===== *)
theory Management
  imports Presence
begin

text \<open>
  The management applet (\<open>src/fido/management.c\<close>): the device configuration in \<open>EF_DEV_CONF\<close>,
  the capability test \<open>cap_supported\<close> that every other applet asks before it answers, and the
  commands that read and write the configuration.
\<close>

abbreviation (input) EF_DEV_CONF :: fid where "EF_DEV_CONF \<equiv> 0x1122"

abbreviation (input) TAG_USB_SUPPORTED :: "'a::len word" where "TAG_USB_SUPPORTED \<equiv> 0x01"
abbreviation (input) TAG_SERIAL :: "'a::len word" where "TAG_SERIAL \<equiv> 0x02"
abbreviation (input) TAG_USB_ENABLED :: "'a::len word" where "TAG_USB_ENABLED \<equiv> 0x03"
abbreviation (input) TAG_FORM_FACTOR :: "'a::len word" where "TAG_FORM_FACTOR \<equiv> 0x04"
abbreviation (input) TAG_VERSION :: "'a::len word" where "TAG_VERSION \<equiv> 0x05"
abbreviation (input) TAG_DEVICE_FLAGS :: "'a::len word" where "TAG_DEVICE_FLAGS \<equiv> 0x08"
abbreviation (input) TAG_CONFIG_LOCK :: "'a::len word" where "TAG_CONFIG_LOCK \<equiv> 0x0A"

abbreviation (input) CAP_OTP :: u16 where "CAP_OTP \<equiv> 0x01"
abbreviation (input) CAP_U2F :: u16 where "CAP_U2F \<equiv> 0x02"
abbreviation (input) CAP_FIDO2 :: u16 where "CAP_FIDO2 \<equiv> 0x200"
abbreviation (input) CAP_OATH :: u16 where "CAP_OATH \<equiv> 0x20"
abbreviation (input) CAP_PIV :: u16 where "CAP_PIV \<equiv> 0x10"
abbreviation (input) CAP_OPENPGP :: u16 where "CAP_OPENPGP \<equiv> 0x08"

abbreviation (input) PICO_FIDO_VERSION_MAJOR :: byte where "PICO_FIDO_VERSION_MAJOR \<equiv> 7"
abbreviation (input) PICO_FIDO_VERSION_MINOR :: byte where "PICO_FIDO_VERSION_MINOR \<equiv> 6"

abbreviation (input) FLAG_EJECT :: byte where "FLAG_EJECT \<equiv> 0x80"

subsection \<open>Capabilities\<close>

fun cap_walk :: "sdk \<Rightarrow> u16 \<Rightarrow> bytes \<Rightarrow> (u16 \<times> region) list \<Rightarrow> bool" where
  "cap_walk k cap d [] = True"
| "cap_walk k cap d ((tag, off, len) # rest) =
     (if tag = TAG_USB_ENABLED
      then (let ecaps = (if len = 2 then sdk_get_u16 k (drop off d) else ucast (d ! off))
            in ecaps AND cap \<noteq> 0)
      else cap_walk k cap d rest)"

definition cap_supported :: "sdk \<Rightarrow> 'a plat_scheme \<Rightarrow> u16 \<Rightarrow> bool" where
  "cap_supported k s cap =
     (let ef = file_search s EF_DEV_CONF
      in if file_has_data s ef
         then cap_walk k cap (file_get_data s ef) (sdk_tlv_walk k (file_get_data s ef))
         else True)"

subsection \<open>Reading the configuration\<close>

definition openpgp_aid :: bytes where
  "openpgp_aid = [0xD2, 0x76, 0x00, 0x01, 0x24, 0x01]"

definition piv_aid :: bytes where
  "piv_aid = [0xA0, 0x00, 0x00, 0x03, 0x8]"

definition be16 :: "u16 \<Rightarrow> bytes" where
  "be16 v = [ucast (drop_bit 8 v), ucast (v AND 0xFF)]"

definition man_supported_caps :: "sdk \<Rightarrow> u16" where
  "man_supported_caps k =
     (let caps = CAP_FIDO2 OR CAP_OTP OR CAP_U2F OR CAP_OATH;
          caps = (if sdk_app_exists k openpgp_aid then caps OR CAP_OPENPGP else caps)
      in if sdk_app_exists k piv_aid then caps OR CAP_PIV else caps)"

definition man_enabled_caps :: "sdk \<Rightarrow> 'a plat_scheme \<Rightarrow> u16" where
  "man_enabled_caps k s =
     (let add = (\<lambda>c caps. if cap_supported k s c then caps OR c else caps)
      in add CAP_PIV (add CAP_OPENPGP (add CAP_OATH (add CAP_U2F (add CAP_OTP (add CAP_FIDO2 0))))))"

definition man_config_body :: "sdk \<Rightarrow> 'a plat_scheme \<Rightarrow> bytes" where
  "man_config_body k s =
     (let ef = file_search s EF_DEV_CONF;
          serial = take 4 (sdk_serial_id k)
      in [TAG_USB_SUPPORTED, 2] @ be16 (man_supported_caps k) @
         [TAG_SERIAL, 4] @ [(serial ! 0) AND NOT 0xFC] @ tl serial @
         [TAG_FORM_FACTOR, 1, 0x01] @
         [TAG_VERSION, 3, PICO_FIDO_VERSION_MAJOR, PICO_FIDO_VERSION_MINOR, 0] @
         (if \<not> file_has_data s ef
          then [TAG_USB_ENABLED, 2] @ be16 (man_enabled_caps k s) @
               [TAG_DEVICE_FLAGS, 1, FLAG_EJECT] @ [TAG_CONFIG_LOCK, 1, 0x00]
          else file_get_data s ef))"

definition man_get_config :: "sdk \<Rightarrow> 'a plat_scheme \<Rightarrow> 'a plat_scheme" where
  "man_get_config k s =
     (let body = man_config_body k s in s\<lparr>res_APDU := word_of_nat (length body) # body\<rparr>)"

definition cmd_read_config :: "sdk \<Rightarrow> 'a plat_scheme \<Rightarrow> sw \<times> 'a plat_scheme" where
  "cmd_read_config k s = (SW_OK, man_get_config k s)"

subsection \<open>Writing the configuration\<close>

definition cmd_write_config :: "sdk \<Rightarrow> apdu \<Rightarrow> 'a plat_scheme \<Rightarrow> sw \<times> 'a plat_scheme" where
  "cmd_write_config k a s =
     (if nc a < 1 then (SW_WRONG_DATA, s)
      else if unat (nc_data a ! 0) \<noteq> nc a - 1 then (SW_WRONG_DATA, s)
      else let (present, s) = check_user_presence k s
           in if \<not> present then (SW_CONDITIONS_NOT_SATISFIED, s)
              else let (ef, s) = file_new k EF_DEV_CONF s;
                       (_, s) = file_put_data k ef (tl (nc_data a)) s;
                       s = flash_commit s
                   in (SW_OK, s\<lparr>phy_kb := cap_supported k s CAP_OTP\<rparr>))"

subsection \<open>Properties\<close>

lemma cap_supported_unconfigured:
  "\<not> file_has_data s (Some EF_DEV_CONF) \<Longrightarrow> cap_supported k s c"
  by (auto simp: cap_supported_def file_reads Let_def split: option.splits)

lemma cap_supported_configured:
  assumes "files s EF_DEV_CONF = Some d" and "d \<noteq> []"
  shows "cap_supported k s c = cap_walk k c d (sdk_tlv_walk k d)"
  using assms by (simp add: cap_supported_def file_reads)

lemma cap_supported_cong:
  "files s EF_DEV_CONF = files t EF_DEV_CONF \<Longrightarrow> cap_supported k s c = cap_supported k t c"
  by (simp add: cap_supported_def file_reads)

text \<open>The first \<open>TAG_USB_ENABLED\<close> entry decides; a configuration without one enables everything.\<close>

lemma cap_walk_first:
  "cap_walk k cap d xs =
     (case List.find (\<lambda>(tag, r). tag = TAG_USB_ENABLED) xs of
        None \<Rightarrow> True
      | Some (tag, off, len) \<Rightarrow>
          (if len = 2 then sdk_get_u16 k (drop off d) else ucast (d ! off)) AND cap \<noteq> 0)"
  by (induction k cap d xs rule: cap_walk.induct) auto

lemma man_enabled_caps_unconfigured:
  assumes "\<not> file_has_data s (Some EF_DEV_CONF)"
  shows "man_enabled_caps k s = 0x23B"
  by (simp add: man_enabled_caps_def Let_def cap_supported_unconfigured [OF assms])

lemma man_get_config_files [simp]: "files (man_get_config k s) = files s"
  by (simp add: man_get_config_def Let_def)

text \<open>The first byte of the answer is the length of the rest.\<close>

lemma man_get_config_length:
  assumes "length (res_APDU (man_get_config k s)) \<le> 256"
  shows "unat (hd (res_APDU (man_get_config k s))) = length (res_APDU (man_get_config k s)) - 1"
  using assms by (simp add: man_get_config_def Let_def unat_of_nat_byte)

lemma man_get_config_suffix:
  assumes "files s EF_DEV_CONF = Some d" and "d \<noteq> []"
  shows "\<exists>h. res_APDU (man_get_config k s) = h @ d"
proof -
  have "\<exists>h. man_config_body k s = h @ d"
    using assms by (simp add: man_config_body_def Let_def file_reads del: append.simps
        flip: append_assoc)
  then show ?thesis by (auto simp: man_get_config_def Let_def)
qed

end
