(* ===== verification/Oath_Store.thy ===== *)
theory Oath_Store
  imports Management
begin

text \<open>
  The credential store of the OATH applet (\<open>src/fido/oath.c\<close>): the state of the applet, the
  encryption of secret keys at rest and the migration of older plaintext records, the
  enumeration of the credential files and the lookup by name. The commands are in
  \<open>Oath_Commands\<close>, the PIN of the applet in \<open>Oath_Pin\<close>.
\<close>

record oath = plat +
  validated :: bool
  oath_migration_done :: bool
  challenge :: bytes

abbreviation (input) EF_OATH_CRED :: fid where "EF_OATH_CRED \<equiv> 0xBA00"
abbreviation (input) EF_OATH_CODE :: fid where "EF_OATH_CODE \<equiv> 0xBAFF"
abbreviation (input) EF_OTP_PIN :: fid where "EF_OTP_PIN \<equiv> 0x10A0"

abbreviation (input) MAX_OATH_CRED :: nat where "MAX_OATH_CRED \<equiv> 255"
abbreviation (input) OATH_ACCESS_CODE_MAX_LEN :: nat where "OATH_ACCESS_CODE_MAX_LEN \<equiv> 65"
abbreviation (input) OATH_SECURE_KEY_VERSION :: byte where "OATH_SECURE_KEY_VERSION \<equiv> 1"
abbreviation (input) OATH_SECURE_KEY_OVERHEAD :: nat where "OATH_SECURE_KEY_OVERHEAD \<equiv> 4 + 1 + 12 + 16"
abbreviation (input) PIN_KDF_V2 :: nat where "PIN_KDF_V2 \<equiv> 2"
abbreviation (input) UINT16_MAX :: nat where "UINT16_MAX \<equiv> 65535"
abbreviation (input) UINT8_MAX :: nat where "UINT8_MAX \<equiv> 255"

abbreviation (input) TAG_NAME :: "'a::len word" where "TAG_NAME \<equiv> 0x71"
abbreviation (input) TAG_NAME_LIST :: "'a::len word" where "TAG_NAME_LIST \<equiv> 0x72"
abbreviation (input) TAG_KEY :: "'a::len word" where "TAG_KEY \<equiv> 0x73"
abbreviation (input) TAG_CHALLENGE :: "'a::len word" where "TAG_CHALLENGE \<equiv> 0x74"
abbreviation (input) TAG_RESPONSE :: "'a::len word" where "TAG_RESPONSE \<equiv> 0x75"
abbreviation (input) TAG_NO_RESPONSE :: "'a::len word" where "TAG_NO_RESPONSE \<equiv> 0x77"
abbreviation (input) TAG_PROPERTY :: "'a::len word" where "TAG_PROPERTY \<equiv> 0x78"
abbreviation (input) TAG_T_VERSION :: "'a::len word" where "TAG_T_VERSION \<equiv> 0x79"
abbreviation (input) TAG_IMF :: "'a::len word" where "TAG_IMF \<equiv> 0x7a"
abbreviation (input) TAG_ALGO :: "'a::len word" where "TAG_ALGO \<equiv> 0x7b"
abbreviation (input) TAG_TOUCH_RESPONSE :: "'a::len word" where "TAG_TOUCH_RESPONSE \<equiv> 0x7c"
abbreviation (input) TAG_PASSWORD :: "'a::len word" where "TAG_PASSWORD \<equiv> 0x80"
abbreviation (input) TAG_NEW_PASSWORD :: "'a::len word" where "TAG_NEW_PASSWORD \<equiv> 0x81"
abbreviation (input) TAG_PIN_COUNTER :: "'a::len word" where "TAG_PIN_COUNTER \<equiv> 0x82"
abbreviation (input) TAG_PWS_LOGIN :: "'a::len word" where "TAG_PWS_LOGIN \<equiv> 0x83"
abbreviation (input) TAG_PWS_PASSWORD :: "'a::len word" where "TAG_PWS_PASSWORD \<equiv> 0x84"
abbreviation (input) TAG_PWS_METADATA :: "'a::len word" where "TAG_PWS_METADATA \<equiv> 0x85"
abbreviation (input) TAG_SERIAL_NUMBER :: "'a::len word" where "TAG_SERIAL_NUMBER \<equiv> 0x8F"

abbreviation (input) ALG_HMAC_SHA1 :: byte where "ALG_HMAC_SHA1 \<equiv> 0x01"
abbreviation (input) ALG_HMAC_SHA256 :: byte where "ALG_HMAC_SHA256 \<equiv> 0x02"
abbreviation (input) ALG_HMAC_SHA512 :: byte where "ALG_HMAC_SHA512 \<equiv> 0x03"
abbreviation (input) ALG_MASK :: byte where "ALG_MASK \<equiv> 0x0f"
abbreviation (input) OATH_TYPE_HOTP :: byte where "OATH_TYPE_HOTP \<equiv> 0x10"
abbreviation (input) OATH_TYPE_MASK :: byte where "OATH_TYPE_MASK \<equiv> 0xf0"
abbreviation (input) PROP_TOUCH :: byte where "PROP_TOUCH \<equiv> 0x02"

subsection \<open>Keys at rest\<close>

definition oath_secure_key_magic :: bytes where
  "oath_secure_key_magic = [0x4F, 0x41, 0x54, 0x48]"

definition oath_key_is_secure :: "bytes \<Rightarrow> bool" where
  "oath_key_is_secure d \<longleftrightarrow>
     length d > OATH_SECURE_KEY_OVERHEAD \<and>
     take (length oath_secure_key_magic) d = oath_secure_key_magic \<and>
     d ! length oath_secure_key_magic = OATH_SECURE_KEY_VERSION"

definition oath_key_label :: bytes where
  "oath_key_label = [0x4F, 0x41, 0x54, 0x48, 0x2F, 0x4B, 0x45, 0x59, 0x53]"

definition oath_derive_key :: "sdk \<Rightarrow> rc \<times> bytes" where
  "oath_derive_key k =
     (let (ret, key) = sdk_hkdf k MD_SHA256 (sdk_serial_hash k) (sdk_kbase k) oath_key_label 32
      in (if ret = 0 then PICOKEYS_OK else PICOKEYS_EXEC_ERROR, key))"

definition oath_encrypt_key :: "sdk \<Rightarrow> bytes \<Rightarrow> 'a oath_scheme \<Rightarrow> rc \<times> bytes \<times> 'a oath_scheme" where
  "oath_encrypt_key k plain s =
     (let out_len = OATH_SECURE_KEY_OVERHEAD + length plain
      in if out_len > UINT16_MAX then (PICOKEYS_WRONG_DATA, [], s)
         else let (ok, s) = calloc k out_len s
              in if \<not> ok then (PICOKEYS_EXEC_ERROR, [], s)
                 else let (ret, key) = oath_derive_key k
                      in if ret \<noteq> PICOKEYS_OK then (ret, [], s)
                         else let (ret, ct) = sdk_aead_enc k (tick s) key plain PIN_KDF_V2;
                                  s = s\<lparr>tick := Suc (tick s)\<rparr>
                              in if ret \<noteq> PICOKEYS_OK then (ret, [], s)
                                 else (PICOKEYS_OK,
                                       oath_secure_key_magic @ [OATH_SECURE_KEY_VERSION] @ ct, s))"

definition oath_decrypt_key :: "sdk \<Rightarrow> bytes \<Rightarrow> 'a oath_scheme \<Rightarrow> rc \<times> bytes \<times> 'a oath_scheme" where
  "oath_decrypt_key k stored s =
     (if \<not> oath_key_is_secure stored
      then let (ok, s) = calloc k (length stored) s
           in if \<not> ok then (PICOKEYS_EXEC_ERROR, [], s) else (PICOKEYS_OK, stored, s)
      else let (ok, s) = calloc k (length stored - OATH_SECURE_KEY_OVERHEAD) s
           in if \<not> ok then (PICOKEYS_EXEC_ERROR, [], s)
              else let (ret, key) = oath_derive_key k
                   in if ret \<noteq> PICOKEYS_OK then (ret, [], s)
                      else let (ret, plain) = sdk_aead_dec k key
                                 (drop (length oath_secure_key_magic + 1) stored) PIN_KDF_V2
                           in if ret \<noteq> PICOKEYS_OK then (ret, [], s)
                              else (PICOKEYS_OK, plain, s))"

subsection \<open>Storing a credential or the access code\<close>

definition tlv_append :: "sdk \<Rightarrow> bytes \<Rightarrow> u16 \<Rightarrow> bytes \<Rightarrow> bytes" where
  "tlv_append k out tag d =
     out @ (if tag > 0xff then [ucast (drop_bit 8 tag)] else []) @ [ucast tag] @
     sdk_tlv_format_len k (length d) @ d"

fun oath_rewrite_len :: "sdk \<Rightarrow> nat \<Rightarrow> (u16 \<times> region) list \<Rightarrow> nat \<Rightarrow> nat" where
  "oath_rewrite_len k enc_len [] out_len = out_len"
| "oath_rewrite_len k enc_len ((tag, off, len) # rest) out_len =
     oath_rewrite_len k enc_len rest
       ((out_len + sdk_tlv_len_tag k tag (if tag = TAG_KEY then enc_len else len)) mod (UINT16_MAX + 1))"

fun oath_rewrite :: "sdk \<Rightarrow> bytes \<Rightarrow> bytes \<Rightarrow> (u16 \<times> region) list \<Rightarrow> bytes \<Rightarrow> bytes" where
  "oath_rewrite k d enc [] op = op"
| "oath_rewrite k d enc ((tag, r) # rest) op =
     oath_rewrite k d enc rest
       (if tag = TAG_KEY then tlv_append k op tag enc else tlv_append k op tag (slice d r))"

definition oath_put_credential_data :: "sdk \<Rightarrow> fid option \<Rightarrow> bytes \<Rightarrow> 'a oath_scheme \<Rightarrow> rc \<times> 'a oath_scheme" where
  "oath_put_credential_data k ef d s =
     (case tlv_get k d TAG_KEY of
        None \<Rightarrow> file_put_data k ef d s
      | Some key \<Rightarrow>
          if oath_key_is_secure key then file_put_data k ef d s
          else let (ret, encrypted, s) = oath_encrypt_key k key s
               in if ret \<noteq> PICOKEYS_OK then (ret, s)
                  else let items = sdk_tlv_walk k d;
                           out_len = oath_rewrite_len k (length encrypted) items 0;
                           (ok, s) = calloc k out_len s
                       in if \<not> ok then (PICOKEYS_EXEC_ERROR, s)
                          else file_put_data k ef (fit out_len (oath_rewrite k d encrypted items [])) s)"

definition oath_put_code_key :: "sdk \<Rightarrow> fid option \<Rightarrow> bytes \<Rightarrow> 'a oath_scheme \<Rightarrow> rc \<times> 'a oath_scheme" where
  "oath_put_code_key k ef key s =
     (if oath_key_is_secure key then file_put_data k ef key s
      else let (ret, encrypted, s) = oath_encrypt_key k key s
           in if ret \<noteq> PICOKEYS_OK then (ret, s) else file_put_data k ef encrypted s)"

subsection \<open>Migration of plaintext secrets\<close>

definition oath_migrate_credential :: "sdk \<Rightarrow> fid \<Rightarrow> 'a oath_scheme \<Rightarrow> rc \<times> bool \<times> 'a oath_scheme" where
  "oath_migrate_credential k f s =
     (if \<not> file_has_data s (Some f) then (PICOKEYS_OK, False, s)
      else case tlv_get k (file_get_data s (Some f)) TAG_KEY of
             None \<Rightarrow> (PICOKEYS_OK, False, s)
           | Some key \<Rightarrow>
               if oath_key_is_secure key then (PICOKEYS_OK, False, s)
               else let (ret, s') = oath_put_credential_data k (Some f) (file_get_data s (Some f)) s
                    in (ret, ret = PICOKEYS_OK, s'))"

definition is_oath_cred :: "fid \<Rightarrow> bool" where
  "is_oath_cred f \<longleftrightarrow> \<not> (f < EF_OATH_CRED \<or> f \<ge> EF_OATH_CRED + word_of_nat MAX_OATH_CRED)"

fun oath_migrate_creds :: "sdk \<Rightarrow> fid list \<Rightarrow> bool \<Rightarrow> 'a oath_scheme \<Rightarrow> rc \<times> bool \<times> 'a oath_scheme" where
  "oath_migrate_creds k [] changed s = (PICOKEYS_OK, changed, s)"
| "oath_migrate_creds k (f # fs) changed s =
     (if \<not> is_oath_cred f then oath_migrate_creds k fs changed s
      else let (ret, ch, s) = oath_migrate_credential k f s
           in if ret = PICOKEYS_OK then oath_migrate_creds k fs (changed \<or> ch) s
              else (ret, changed, s))"

definition oath_migrate_secrets :: "sdk \<Rightarrow> 'a oath_scheme \<Rightarrow> rc \<times> 'a oath_scheme" where
  "oath_migrate_secrets k s =
     (if oath_migration_done s then (PICOKEYS_OK, s)
      else let (ret, changed, s) = oath_migrate_creds k (sdk_dynamic k (files s)) False s
           in if ret \<noteq> PICOKEYS_OK then (ret, s)
              else let ef_code = file_search s EF_OATH_CODE;
                       code = file_get_data s ef_code;
                       (ret, changed, s) =
                         (if file_has_data s ef_code \<and> \<not> oath_key_is_secure code
                          then let (ret, s) = oath_put_code_key k ef_code code s in (ret, True, s)
                          else (PICOKEYS_OK, changed, s))
                   in if ret \<noteq> PICOKEYS_OK then (ret, s)
                      else let s = (if changed then flash_commit s else s)
                           in (PICOKEYS_OK, s\<lparr>oath_migration_done := True\<rparr>))"

subsection \<open>Enumeration and lookup\<close>

fun collect_oath_cred :: "nat \<Rightarrow> fid list \<Rightarrow> fid list \<Rightarrow> fid list" where
  "collect_oath_cred cap [] acc = acc"
| "collect_oath_cred cap (f # fs) acc =
     (if \<not> is_oath_cred f \<or> length acc \<ge> cap then collect_oath_cred cap fs acc
      else collect_oath_cred cap fs (acc @ [f]))"

definition present_oath_cred_fids :: "sdk \<Rightarrow> 'a oath_scheme \<Rightarrow> fid list" where
  "present_oath_cred_fids k s = sort (collect_oath_cred MAX_OATH_CRED (sdk_dynamic k (files s)) [])"

fun find_oath_cred_in :: "sdk \<Rightarrow> bytes \<Rightarrow> 'a oath_scheme \<Rightarrow> fid list \<Rightarrow> fid option" where
  "find_oath_cred_in k name s [] = None"
| "find_oath_cred_in k name s (f # fs) =
     (if file_has_data s (Some f) \<and> tlv_get k (file_get_data s (Some f)) TAG_NAME = Some name
      then Some f else find_oath_cred_in k name s fs)"

definition find_oath_cred :: "sdk \<Rightarrow> bytes \<Rightarrow> 'a oath_scheme \<Rightarrow> fid option" where
  "find_oath_cred k name s = find_oath_cred_in k name s (present_oath_cred_fids k s)"

subsection \<open>The store routines touch only storage\<close>

lemma oath_encrypt_key_step: "oath_encrypt_key k plain s = (r, c, t) \<Longrightarrow> store_step s t"
  by (auto simp: oath_encrypt_key_def Let_def split: prod.splits if_splits dest!: calloc_step
      intro: store_step_trans)

lemma oath_encrypt_key_files: "oath_encrypt_key k plain s = (r, c, t) \<Longrightarrow> files t = files s"
  by (auto simp: oath_encrypt_key_def Let_def split: prod.splits if_splits dest!: calloc_files)

lemma oath_decrypt_key_step: "oath_decrypt_key k stored s = (r, d, t) \<Longrightarrow> store_step s t"
  by (auto simp: oath_decrypt_key_def Let_def split: prod.splits if_splits dest!: calloc_step)

lemma oath_decrypt_key_files: "oath_decrypt_key k stored s = (r, d, t) \<Longrightarrow> files t = files s"
  by (auto simp: oath_decrypt_key_def Let_def split: prod.splits if_splits dest!: calloc_files)

lemma oath_put_credential_data_step:
  "oath_put_credential_data k ef d s = (r, t) \<Longrightarrow> store_step s t"
  unfolding oath_put_credential_data_def Let_def
  by (auto split: option.splits prod.splits if_splits intro: store_step_trans
      dest!: file_put_data_step oath_encrypt_key_step calloc_step)

lemma oath_put_code_key_step: "oath_put_code_key k ef key s = (r, t) \<Longrightarrow> store_step s t"
  unfolding oath_put_code_key_def Let_def
  by (auto split: prod.splits if_splits intro: store_step_trans
      dest!: file_put_data_step oath_encrypt_key_step)

lemma oath_migrate_credential_step:
  "oath_migrate_credential k f s = (r, c, t) \<Longrightarrow> store_step s t"
  unfolding oath_migrate_credential_def Let_def
  by (auto split: option.splits prod.splits if_splits dest!: oath_put_credential_data_step)

lemma oath_migrate_creds_step:
  "oath_migrate_creds k fs c0 s = (r, c, t) \<Longrightarrow> store_step s t"
proof (induction k fs c0 s arbitrary: r c t rule: oath_migrate_creds.induct)
  case (1 k changed s)
  then show ?case by simp
next
  case (2 k f fs changed s)
  obtain r1 c1 s1 where m: "oath_migrate_credential k f s = (r1, c1, s1)"
    by (cases "oath_migrate_credential k f s") auto
  with "2.prems" "2.IH" oath_migrate_credential_step [OF m] show ?case
    by (auto split: if_splits intro: store_step_trans)
qed

lemmas oath_steps = store_steps oath_encrypt_key_step oath_decrypt_key_step
  oath_put_credential_data_step oath_put_code_key_step oath_migrate_creds_step

subsection \<open>Keys at rest: the round trip\<close>

lemma length_magic [simp]: "length oath_secure_key_magic = 4"
  by (simp add: oath_secure_key_magic_def)

lemma oath_encrypt_key_secure:
  assumes "aead_law k" and "oath_encrypt_key k plain s = (PICOKEYS_OK, c, t)" and "plain \<noteq> []"
  shows "oath_key_is_secure c"
proof -
  obtain n key ct where e: "sdk_aead_enc k n key plain PIN_KDF_V2 = (PICOKEYS_OK, ct)"
    and c: "c = oath_secure_key_magic @ [OATH_SECURE_KEY_VERSION] @ ct"
    using assms(2) by (auto simp: oath_encrypt_key_def Let_def split: prod.splits if_splits)
  have "length ct = length plain + 28"
    using assms(1) e unfolding aead_law_def by blast
  with assms(3) show ?thesis
    by (cases plain) (simp_all add: oath_key_is_secure_def c nth_append)
qed

text \<open>
  What \<open>oath_encrypt_key\<close> produced, \<open>oath_decrypt_key\<close> reads back, whatever the state in
  which it runs, as long as its buffer can be allocated.
\<close>

lemma oath_decrypt_encrypt:
  assumes aead: "aead_law k"
    and enc: "oath_encrypt_key k plain s = (PICOKEYS_OK, c, t)"
    and plain: "plain \<noteq> []"
    and room: "sdk_calloc k (tick u) (length plain)"
  shows "\<exists>u'. oath_decrypt_key k c u = (PICOKEYS_OK, plain, u')"
proof -
  obtain n key ct where e: "sdk_aead_enc k n key plain PIN_KDF_V2 = (PICOKEYS_OK, ct)"
    and dk: "oath_derive_key k = (PICOKEYS_OK, key)"
    and c: "c = oath_secure_key_magic @ [OATH_SECURE_KEY_VERSION] @ ct"
    using enc by (auto simp: oath_encrypt_key_def Let_def split: prod.splits if_splits)
  have len: "length ct = length plain + 28"
    and dec: "sdk_aead_dec k key ct PIN_KDF_V2 = (PICOKEYS_OK, plain)"
    using aead e unfolding aead_law_def by blast+
  have sec: "oath_key_is_secure c" using oath_encrypt_key_secure [OF aead enc plain] .
  have "drop (length oath_secure_key_magic + 1) c = ct" by (simp add: c)
  moreover have "length c - OATH_SECURE_KEY_OVERHEAD = length plain" by (simp add: c len)
  ultimately show ?thesis
    using sec room dk dec by (simp add: oath_decrypt_key_def calloc_def)
qed

lemma oath_decrypt_plain:
  assumes "\<not> oath_key_is_secure stored" and "sdk_calloc k (tick u) (length stored)"
  shows "oath_decrypt_key k stored u = (PICOKEYS_OK, stored, u\<lparr>tick := Suc (tick u)\<rparr>)"
  using assms by (simp add: oath_decrypt_key_def calloc_def)

subsection \<open>Enumeration and lookup\<close>

lemma is_oath_cred_iff: "is_oath_cred f \<longleftrightarrow> 0xBA00 \<le> f \<and> f < 0xBAFF"
  by (auto simp: is_oath_cred_def not_less)

lemma collect_oath_cred_eq:
  "length acc \<le> cap \<Longrightarrow>
   collect_oath_cred cap fs acc = acc @ take (cap - length acc) (filter is_oath_cred fs)"
proof (induction cap fs acc rule: collect_oath_cred.induct)
  case (1 cap acc)
  then show ?case by simp
next
  case (2 cap f fs acc)
  show ?case
  proof (cases "is_oath_cred f \<and> length acc < cap")
    case True
    with 2 show ?thesis by (simp add: Suc_diff_Suc take_Cons')
  next
    case False
    with 2 show ?thesis by auto
  qed
qed

text \<open>There are only 255 identifiers, so the cap of the enumeration is never reached.\<close>

lemma card_oath_creds: "card {f. is_oath_cred f} \<le> MAX_OATH_CRED"
proof -
  have "{f. is_oath_cred f} \<subseteq> (\<lambda>i. 0xBA00 + word_of_nat i) ` {..<255}"
  proof
    fix f :: fid
    assume "f \<in> {f. is_oath_cred f}"
    then have b: "0xBA00 \<le> f" "f < 0xBAFF" by (auto simp: is_oath_cred_iff)
    have "unat (f - 0xBA00) < 255"
      using b by (simp add: unat_sub word_le_nat_alt word_less_nat_alt)
    moreover have "f = 0xBA00 + word_of_nat (unat (f - 0xBA00))" by simp
    ultimately show "f \<in> (\<lambda>i. 0xBA00 + word_of_nat i) ` {..<255}" by blast
  qed
  then have "card {f. is_oath_cred f} \<le> card ((\<lambda>i. 0xBA00 + word_of_nat i :: fid) ` {..<255})"
    by (intro card_mono) auto
  also have "\<dots> \<le> card {..<255::nat}" by (rule card_image_le) simp
  finally show ?thesis by simp
qed

lemma present_oath_cred_fids_set:
  assumes "dynamic_law k"
  shows "set (present_oath_cred_fids k s) = {f \<in> dom (files s). is_oath_cred f}"
    and "sorted (present_oath_cred_fids k s)"
    and "distinct (present_oath_cred_fids k s)"
proof -
  let ?l = "filter is_oath_cred (sdk_dynamic k (files s))"
  have d: "distinct (sdk_dynamic k (files s))" "set (sdk_dynamic k (files s)) \<subseteq> dom (files s)"
    and c: "\<And>f. f \<in> dom (files s) \<Longrightarrow> is_oath_cred f \<Longrightarrow> f \<in> set (sdk_dynamic k (files s))"
    using assms unfolding dynamic_law_def is_oath_cred_iff by (blast intro: less_imp_le)+
  have "length ?l = card (set ?l)"
    by (rule distinct_card [symmetric]) (simp add: d(1))
  also have "\<dots> \<le> MAX_OATH_CRED"
    by (rule order_trans [OF card_mono card_oath_creds]) auto
  finally have "collect_oath_cred MAX_OATH_CRED (sdk_dynamic k (files s)) [] = ?l"
    by (subst collect_oath_cred_eq) auto
  then have e: "present_oath_cred_fids k s = sort ?l" by (simp add: present_oath_cred_fids_def)
  show "set (present_oath_cred_fids k s) = {f \<in> dom (files s). is_oath_cred f}"
    using d(2) c by (auto simp: e)
  show "sorted (present_oath_cred_fids k s)" "distinct (present_oath_cred_fids k s)"
    using d(1) by (simp_all add: e)
qed

lemma find_oath_cred_in_Some:
  assumes "find_oath_cred_in k name s fs = Some f"
  shows "f \<in> set fs" and "file_has_data s (Some f)"
    and "tlv_get k (file_get_data s (Some f)) TAG_NAME = Some name"
  using assms by (induction k name s fs rule: find_oath_cred_in.induct) (auto split: if_splits)

lemma find_oath_cred_in_first:
  assumes "find_oath_cred_in k name s fs = Some f" and "sorted fs" and "g \<in> set fs"
    and "file_has_data s (Some g)" and "tlv_get k (file_get_data s (Some g)) TAG_NAME = Some name"
  shows "f \<le> g"
  using assms by (induction k name s fs rule: find_oath_cred_in.induct) (auto split: if_splits)

lemma find_oath_cred_in_None:
  "find_oath_cred_in k name s fs = None \<longleftrightarrow>
   (\<forall>f \<in> set fs. \<not> (file_has_data s (Some f) \<and>
      tlv_get k (file_get_data s (Some f)) TAG_NAME = Some name))"
  by (induction k name s fs rule: find_oath_cred_in.induct) auto

lemma find_oath_cred_data: "find_oath_cred k name s = Some f \<Longrightarrow> file_has_data s (Some f)"
  unfolding find_oath_cred_def by (rule find_oath_cred_in_Some)

lemma find_oath_cred_cong:
  assumes "files s = files t"
  shows "find_oath_cred k name s = find_oath_cred k name t"
proof -
  have "find_oath_cred_in k name s fs = find_oath_cred_in k name t fs" for fs
    by (induction fs) (simp_all add: file_reads_cong [OF assms])
  then show ?thesis by (simp add: find_oath_cred_def present_oath_cred_fids_def assms)
qed

end
