(* ===== verification/Oath_Commands.thy ===== *)
theory Oath_Commands
  imports Oath_Store
begin

text \<open>
  The commands of the OATH applet (\<open>src/fido/oath.c\<close>) except those on its PIN: selection, the
  writing, listing, renaming and deletion of credentials, the access code, and the
  calculation of one-time passwords. Each \<open>cmd_...\<close> is the C handler of the same name; its
  argument is the command APDU and its result the status word with the new state.
\<close>

subsection \<open>The bounded response buffer\<close>

definition oath_response_has_room :: "sdk \<Rightarrow> 'a plat_scheme \<Rightarrow> nat \<Rightarrow> bool" where
  "oath_response_has_room k s len \<longleftrightarrow>
     length (res_APDU s) \<le> sdk_buffer_size k \<and> len \<le> sdk_buffer_size k - length (res_APDU s)"

definition oath_response_append :: "sdk \<Rightarrow> byte \<Rightarrow> bytes \<Rightarrow> 'a plat_scheme \<Rightarrow> bool \<times> 'a plat_scheme" where
  "oath_response_append k tag d s =
     (if length d > UINT8_MAX \<or> \<not> oath_response_has_room k s (length d + 2) then (False, s)
      else (True, res_append ([tag, word_of_nat (length d)] @ d) s))"

subsection \<open>Selecting the applet\<close>

definition oath_select :: "sdk \<Rightarrow> 'a oath_scheme \<Rightarrow> rc \<times> 'a oath_scheme" where
  "oath_select k s =
     (if cap_supported k s CAP_OATH
      then let s = s\<lparr>validated := \<not> file_has_data s (file_search s EF_OATH_CODE) \<and>
                                  \<not> file_has_data s (file_search s EF_OTP_PIN)\<rparr>;
               (ret, s) = oath_migrate_secrets k s
           in if ret \<noteq> PICOKEYS_OK then (ret, s)
              else let serial = take 8 (sdk_serial_str k);
                       s = s\<lparr>res_APDU := []\<rparr>;
                       s = res_append ([TAG_T_VERSION, 3, PICO_FIDO_VERSION_MAJOR,
                             PICO_FIDO_VERSION_MINOR, 0, TAG_NAME, 8] @ serial) s;
                       s = (if file_has_data s (file_search s EF_OATH_CODE)
                            then let (c, s) = random_fill_buffer k 8 s;
                                     s = s\<lparr>challenge := c\<rparr>
                                 in res_append ([TAG_CHALLENGE, 8] @ challenge s @
                                      [TAG_ALGO, 1, ALG_HMAC_SHA1]) s
                            else s);
                       s = (if sdk_is_nk k
                            then let s = res_append ([TAG_SERIAL_NUMBER, 8] @ serial) s;
                                     pin = file_search s EF_OTP_PIN
                                 in if file_has_data s pin
                                    then res_append [TAG_PIN_COUNTER, 1, file_get_data s pin ! 0] s
                                    else s
                            else s)
                   in (PICOKEYS_OK, set_ne s)
      else (PICOKEYS_ERR_FILE_NOT_FOUND, s))"

subsection \<open>Writing and deleting credentials\<close>

text \<open>
  An HOTP credential carries its moving factor as an eight-byte TLV: a missing one is added
  as zero, a shorter one is extended with leading zeros in place.
\<close>

definition hotp_pad_imf :: "sdk \<Rightarrow> bytes \<Rightarrow> bytes" where
  "hotp_pad_imf k d =
     (case sdk_tlv_find k d TAG_IMF of
        None \<Rightarrow> d @ [0x7a, 0x08, 0, 0, 0, 0, 0, 0, 0, 0]
      | Some (off, len) \<Rightarrow>
          if len < 8
          then let extra = 8 - len
               in take (off - 1) d @ [8] @ replicate extra 0 @ drop off d
          else d)"

fun first_free_slot :: "fid set \<Rightarrow> nat \<Rightarrow> nat \<Rightarrow> nat option" where
  "first_free_slot used i 0 = None"
| "first_free_slot used i (Suc n) =
     (if EF_OATH_CRED + word_of_nat i \<notin> used then Some i else first_free_slot used (Suc i) n)"

definition oath_store_credential :: "sdk \<Rightarrow> bytes \<Rightarrow> bytes \<Rightarrow> 'a oath_scheme \<Rightarrow> sw \<times> 'a oath_scheme" where
  "oath_store_credential k name put_data s =
     (let ef = find_oath_cred k name s
      in if file_has_data s ef
         then let (ret, s) = oath_put_credential_data k ef put_data s
              in if ret \<noteq> PICOKEYS_OK then (SW_EXEC_ERROR, s) else (SW_OK, flash_commit s)
         else case first_free_slot (set (present_oath_cred_fids k s)) 0 MAX_OATH_CRED of
                None \<Rightarrow> (SW_FILE_FULL, s)
              | Some i \<Rightarrow>
                  let (tef, s) = file_new k (EF_OATH_CRED + word_of_nat i) s
                  in if tef = None then (SW_FILE_FULL, s)
                     else let (ret, s) = oath_put_credential_data k tef put_data s
                          in if ret \<noteq> PICOKEYS_OK then (SW_EXEC_ERROR, s)
                             else (SW_OK, flash_commit s))"

definition cmd_put :: "sdk \<Rightarrow> apdu \<Rightarrow> 'a oath_scheme \<Rightarrow> sw \<times> 'a oath_scheme" where
  "cmd_put k a s =
     (if \<not> validated s then (SW_SECURITY_STATUS_NOT_SATISFIED, s)
      else case tlv_get k (nc_data a) TAG_KEY of
        None \<Rightarrow> (SW_INCORRECT_PARAMS, s)
      | Some key \<Rightarrow>
          if length key < 2 then (SW_WRONG_DATA, s)
          else case tlv_get k (nc_data a) TAG_NAME of
            None \<Rightarrow> (SW_INCORRECT_PARAMS, s)
          | Some name \<Rightarrow>
              if key ! 0 AND OATH_TYPE_MASK = OATH_TYPE_HOTP
              then if nc a > UINT16_MAX - 10 then (SW_WRONG_LENGTH, s)
                   else let (ok, s) = calloc k (nc a + 10) s
                        in if \<not> ok then (SW_EXEC_ERROR, s)
                           else oath_store_credential k name (hotp_pad_imf k (nc_data a)) s
              else oath_store_credential k name (nc_data a) s)"

definition cmd_delete :: "sdk \<Rightarrow> apdu \<Rightarrow> 'a oath_scheme \<Rightarrow> sw \<times> 'a oath_scheme" where
  "cmd_delete k a s =
     (if \<not> validated s then (SW_SECURITY_STATUS_NOT_SATISFIED, s)
      else case tlv_get k (nc_data a) TAG_NAME of
        Some name \<Rightarrow>
          (case find_oath_cred k name s of
             Some ef \<Rightarrow> let (_, s) = file_delete k (Some ef) s in (SW_OK, s)
           | None \<Rightarrow> (SW_DATA_INVALID, s))
      | None \<Rightarrow> (SW_INCORRECT_PARAMS, s))"

definition get_oath_md_info :: "byte \<Rightarrow> md option" where
  "get_oath_md_info alg =
     (if alg AND ALG_MASK = ALG_HMAC_SHA1 then Some MD_SHA1
      else if alg AND ALG_MASK = ALG_HMAC_SHA256 then Some MD_SHA256
      else if alg AND ALG_MASK = ALG_HMAC_SHA512 then Some MD_SHA512
      else None)"

subsection \<open>The access code\<close>

definition oath_delete_code :: "sdk \<Rightarrow> 'a oath_scheme \<Rightarrow> sw \<times> 'a oath_scheme" where
  "oath_delete_code k s =
     (let (_, s) = file_delete k (file_search s EF_OATH_CODE) s
      in (SW_OK, s\<lparr>validated := True\<rparr>))"

definition cmd_set_code :: "sdk \<Rightarrow> apdu \<Rightarrow> 'a oath_scheme \<Rightarrow> sw \<times> 'a oath_scheme" where
  "cmd_set_code k a s =
     (if \<not> validated s then (SW_SECURITY_STATUS_NOT_SATISFIED, s)
      else if nc a = 0 then oath_delete_code k s
      else case tlv_get k (nc_data a) TAG_KEY of
        None \<Rightarrow> (SW_INCORRECT_PARAMS, s)
      | Some key \<Rightarrow>
          if length key = 1 \<or> length key > OATH_ACCESS_CODE_MAX_LEN then (SW_WRONG_DATA, s)
          else if length key = 0 then oath_delete_code k s
          else case tlv_get k (nc_data a) TAG_CHALLENGE of
            None \<Rightarrow> (SW_INCORRECT_PARAMS, s)
          | Some chal \<Rightarrow>
              (case tlv_get k (nc_data a) TAG_RESPONSE of
                 None \<Rightarrow> (SW_INCORRECT_PARAMS, s)
               | Some resp \<Rightarrow>
                   (case get_oath_md_info (key ! 0) of
                      None \<Rightarrow> (SW_INCORRECT_PARAMS, s)
                    | Some md \<Rightarrow>
                        let (r, hmac) = sdk_hmac k md (tl key) chal
                        in if r \<noteq> 0 then (SW_EXEC_ERROR, s)
                           else if length resp \<noteq> sdk_md_size k md then (SW_DATA_INVALID, s)
                           else if take (length resp) hmac \<noteq> resp then (SW_DATA_INVALID, s)
                           else let (c, s) = random_fill_buffer k 8 s;
                                    s = s\<lparr>challenge := c\<rparr>;
                                    (ef, s) = file_new k EF_OATH_CODE s;
                                    (ret, s) = oath_put_code_key k ef key s
                                in if ret \<noteq> PICOKEYS_OK then (SW_EXEC_ERROR, s)
                                   else (SW_OK, (flash_commit s)\<lparr>validated := False\<rparr>))))"

fun oath_delete_present :: "sdk \<Rightarrow> fid list \<Rightarrow> 'a oath_scheme \<Rightarrow> 'a oath_scheme" where
  "oath_delete_present k [] s = s"
| "oath_delete_present k (f # fs) s =
     (let ef = file_search s f
      in oath_delete_present k fs
           (if file_has_data s ef then snd (file_delete_no_commit k ef s) else s))"

definition cmd_reset :: "sdk \<Rightarrow> apdu \<Rightarrow> 'a oath_scheme \<Rightarrow> sw \<times> 'a oath_scheme" where
  "cmd_reset k a s =
     (if p1 a \<noteq> 0xde \<or> p2 a \<noteq> 0xad then (SW_INCORRECT_P1P2, s)
      else let s = oath_delete_present k (present_oath_cred_fids k s) s;
               (_, s) = file_delete_no_commit k (file_search s EF_OATH_CODE) s;
               s = flash_clear_file k (file_search s EF_OTP_PIN) s;
               s = flash_commit s
           in (SW_OK, s\<lparr>validated := True\<rparr>))"

definition cmd_validate :: "sdk \<Rightarrow> apdu \<Rightarrow> 'a oath_scheme \<Rightarrow> sw \<times> 'a oath_scheme" where
  "cmd_validate k a s =
     (case tlv_get k (nc_data a) TAG_CHALLENGE of
        None \<Rightarrow> (SW_INCORRECT_PARAMS, s)
      | Some chal \<Rightarrow>
          (case tlv_get k (nc_data a) TAG_RESPONSE of
             None \<Rightarrow> (SW_INCORRECT_PARAMS, s)
           | Some resp \<Rightarrow>
               let ef = file_search s EF_OATH_CODE
               in if \<not> file_has_data s ef then (SW_DATA_INVALID, s\<lparr>validated := True\<rparr>)
                  else let (ret, key, s) = oath_decrypt_key k (file_get_data s ef) s
                       in if ret \<noteq> PICOKEYS_OK then (SW_EXEC_ERROR, s)
                          else if length key < 2 \<or> length key > OATH_ACCESS_CODE_MAX_LEN
                          then (SW_WRONG_DATA, s)
                          else case get_oath_md_info (key ! 0) of
                            None \<Rightarrow> (SW_INCORRECT_PARAMS, s)
                          | Some md \<Rightarrow>
                              let (ret, hmac) = sdk_hmac k md (tl key) (challenge s)
                              in if ret \<noteq> 0 then (SW_EXEC_ERROR, s)
                                 else if length resp \<noteq> sdk_md_size k md then (SW_DATA_INVALID, s)
                                 else if take (length resp) hmac \<noteq> resp then (SW_DATA_INVALID, s)
                                 else let (ret, hmac) = sdk_hmac k md (tl key) chal
                                      in if ret \<noteq> 0 then (SW_EXEC_ERROR, s)
                                         else let s = s\<lparr>validated := True\<rparr>;
                                                  n = sdk_md_size k md
                                              in (SW_OK, set_ne (res_append
                                                   ([TAG_RESPONSE, word_of_nat n] @ take n hmac) s))))"

end
