(* ===== verification/Oath_Calculate.thy ===== *)
theory Oath_Calculate
  imports Oath_Commands
begin

text \<open>
  Listing and calculation (\<open>src/fido/oath.c\<close>): \<open>cmd_list\<close>, \<open>calculate_oath\<close> and the three
  commands built on it, renaming and reading of credentials. A loop over the credential
  files is a recursion over their sorted identifiers; a \<open>continue\<close> of the C loop is the
  recursive call with the state as it is.
\<close>

subsection \<open>Listing\<close>

definition oath_props :: "sdk \<Rightarrow> bytes \<Rightarrow> byte" where
  "oath_props k d =
     (if tlv_get k d TAG_PWS_LOGIN \<noteq> None \<or> tlv_get k d TAG_PWS_PASSWORD \<noteq> None \<or>
         tlv_get k d TAG_PWS_METADATA \<noteq> None then 0x4 else 0) OR
     (case tlv_get k d TAG_PROPERTY of
        Some p \<Rightarrow> if length p > 0 \<and> p ! 0 AND PROP_TOUCH \<noteq> 0 then 0x1 else 0
      | None \<Rightarrow> 0)"

fun oath_list_creds :: "sdk \<Rightarrow> bool \<Rightarrow> fid list \<Rightarrow> 'a oath_scheme \<Rightarrow> sw \<times> 'a oath_scheme" where
  "oath_list_creds k ext [] s = (SW_OK, set_ne s)"
| "oath_list_creds k ext (f # fs) s =
     (let d = file_get_data s (Some f); e = (if ext then 1 else 0)
      in if \<not> file_has_data s (Some f) then oath_list_creds k ext fs s
         else case (tlv_get k d TAG_NAME, tlv_get k d TAG_KEY) of
           (Some name, Some key) \<Rightarrow>
             let (ret, plain, s) = oath_decrypt_key k key s
             in if ret \<noteq> PICOKEYS_OK \<or> length plain < 2 then oath_list_creds k ext fs s
                else if length name > UINT8_MAX - 1 - e \<or>
                        \<not> oath_response_has_room k s (3 + length name + e)
                then (SW_WRONG_LENGTH, s)
                else oath_list_creds k ext fs
                       (res_append ([TAG_NAME_LIST, word_of_nat (length name + 1 + e), plain ! 0] @
                          name @ (if ext then [oath_props k d] else [])) s)
         | _ \<Rightarrow> oath_list_creds k ext fs s)"

definition cmd_list :: "sdk \<Rightarrow> apdu \<Rightarrow> 'a oath_scheme \<Rightarrow> sw \<times> 'a oath_scheme" where
  "cmd_list k a s =
     (if \<not> validated s then (SW_SECURITY_STATUS_NOT_SATISFIED, s)
      else oath_list_creds k (nc a = 1 \<and> nc_data a ! 0 = 0x01) (present_oath_cred_fids k s) s)"

subsection \<open>One-time passwords\<close>

definition oath_truncate :: "bytes \<Rightarrow> bytes" where
  "oath_truncate hmac =
     (let offset = unat (hmac ! (length hmac - 1) AND 0x0f)
      in [hmac ! offset AND 0x7f, hmac ! (offset + 1), hmac ! (offset + 2), hmac ! (offset + 3)])"

definition calculate_oath :: "sdk \<Rightarrow> byte \<Rightarrow> bytes \<Rightarrow> bytes \<Rightarrow> 'a plat_scheme \<Rightarrow> rc \<times> 'a plat_scheme" where
  "calculate_oath k trunc key chal s =
     (if length key < 2 then (PICOKEYS_WRONG_DATA, s)
      else case get_oath_md_info (key ! 0) of
        None \<Rightarrow> (PICOKEYS_SW SW_INCORRECT_PARAMS, s)
      | Some md \<Rightarrow>
          let (r, hmac) = sdk_hmac k md (drop 2 key) chal;
              hmac_size = sdk_md_size k md
          in if r \<noteq> 0 then (PICOKEYS_EXEC_ERROR, s)
             else if trunc = 0x01
             then if \<not> oath_response_has_room k s 7 then (PICOKEYS_WRONG_LENGTH, s)
                  else (PICOKEYS_OK, set_ne (res_append
                          ([4 + 1, key ! 1] @ oath_truncate (take hmac_size hmac)) s))
             else if \<not> oath_response_has_room k s (hmac_size + 2) then (PICOKEYS_WRONG_LENGTH, s)
             else (PICOKEYS_OK, set_ne (res_append
                     ([word_of_nat (hmac_size + 1), key ! 1] @ take hmac_size hmac) s)))"

text \<open>
  The moving factor of an HOTP record is the eight bytes at the start of its IMF value; the
  copy written back has the counter replaced and the size of the record.
\<close>

definition hotp_advance :: "sdk \<Rightarrow> bytes \<Rightarrow> region \<Rightarrow> bytes" where
  "hotp_advance k d imf =
     (let off = fst imf; v = sdk_get_u64 k (drop off d)
      in fit (length d) (take off d @ sdk_put_u64 k (v + 1) @ drop (off + 8) d))"

definition is_hotp_key :: "bytes \<Rightarrow> bool" where
  "is_hotp_key key \<longleftrightarrow> key ! 0 AND OATH_TYPE_MASK = OATH_TYPE_HOTP"

definition cmd_calculate :: "sdk \<Rightarrow> apdu \<Rightarrow> 'a oath_scheme \<Rightarrow> sw \<times> 'a oath_scheme" where
  "cmd_calculate k a s =
     (if p2 a \<noteq> 0x0 \<and> p2 a \<noteq> 0x1 then (SW_INCORRECT_P1P2, s)
      else if \<not> validated s then (SW_SECURITY_STATUS_NOT_SATISFIED, s)
      else case tlv_get k (nc_data a) TAG_CHALLENGE of
        None \<Rightarrow> (SW_INCORRECT_PARAMS, s)
      | Some req_chal \<Rightarrow>
          (case tlv_get k (nc_data a) TAG_NAME of
             None \<Rightarrow> (SW_INCORRECT_PARAMS, s)
           | Some name \<Rightarrow>
               let ef = find_oath_cred k name s; d = file_get_data s ef
               in if \<not> file_has_data s ef then (SW_DATA_INVALID, s)
                  else case tlv_get k d TAG_KEY of
                    None \<Rightarrow> (SW_INCORRECT_PARAMS, s)
                  | Some stored \<Rightarrow>
                      let (ret, key, s) = oath_decrypt_key k stored s
                      in if ret \<noteq> PICOKEYS_OK \<or> length key < 2 then (SW_EXEC_ERROR, s)
                         else let imf = sdk_tlv_find k d TAG_IMF; is_hotp = is_hotp_key key
                              in if is_hotp \<and> imf = None then (SW_INCORRECT_PARAMS, s)
                                 else let chal = (if is_hotp then slice d (the imf) else req_chal)
                                      in if \<not> oath_response_has_room k s 1 then (SW_WRONG_LENGTH, s)
                                         else let s = res_append [TAG_RESPONSE + p2 a] s;
                                                  (ret, s) = calculate_oath k (p2 a) key chal s
                                              in if ret \<noteq> PICOKEYS_OK then (SW_EXEC_ERROR, s)
                                                 else if is_hotp
                                                 then let (_, s) = file_put_data k ef
                                                                     (hotp_advance k d (the imf)) s
                                                      in (SW_OK, set_ne (flash_commit s))
                                                 else (SW_OK, set_ne s)))"

fun oath_calc_creds :: "sdk \<Rightarrow> byte \<Rightarrow> bytes \<Rightarrow> fid list \<Rightarrow> 'a oath_scheme \<Rightarrow> sw \<times> 'a oath_scheme" where
  "oath_calc_creds k p chal [] s = (SW_OK, set_ne s)"
| "oath_calc_creds k p chal (f # fs) s =
     (let d = file_get_data s (Some f)
      in if \<not> file_has_data s (Some f) then oath_calc_creds k p chal fs s
         else case (tlv_get k d TAG_NAME, tlv_get k d TAG_KEY) of
           (Some name, Some stored) \<Rightarrow>
             if length name > UINT8_MAX then (SW_WRONG_LENGTH, s)
             else let (ret, key, s) = oath_decrypt_key k stored s
                  in if ret \<noteq> PICOKEYS_OK \<or> length key < 2 then oath_calc_creds k p chal fs s
                     else let is_hotp = is_hotp_key key;
                              touch = (case tlv_get k d TAG_PROPERTY of
                                         None \<Rightarrow> False
                                       | Some prop \<Rightarrow> length prop > 0 \<and> prop ! 0 AND PROP_TOUCH \<noteq> 0);
                              response_len = (if is_hotp \<or> touch then 3 else 8)
                          in if \<not> oath_response_has_room k s (2 + length name + response_len)
                             then (SW_WRONG_LENGTH, s)
                             else let s = res_append ([TAG_NAME, word_of_nat (length name)] @ name) s
                                  in if is_hotp
                                     then oath_calc_creds k p chal fs
                                            (res_append [TAG_NO_RESPONSE, 1, key ! 1] s)
                                     else if touch
                                     then oath_calc_creds k p chal fs
                                            (res_append [TAG_TOUCH_RESPONSE, 1, key ! 1] s)
                                     else let s = res_append [TAG_RESPONSE + p] s;
                                              (ret, s) = calculate_oath k p key chal s
                                          in oath_calc_creds k p chal fs
                                               (if ret \<noteq> PICOKEYS_OK then res_append [1, key ! 1] s
                                                else s)
         | _ \<Rightarrow> oath_calc_creds k p chal fs s)"

definition cmd_calculate_all :: "sdk \<Rightarrow> apdu \<Rightarrow> 'a oath_scheme \<Rightarrow> sw \<times> 'a oath_scheme" where
  "cmd_calculate_all k a s =
     (if p2 a \<noteq> 0x0 \<and> p2 a \<noteq> 0x1 then (SW_INCORRECT_P1P2, s)
      else if \<not> validated s then (SW_SECURITY_STATUS_NOT_SATISFIED, s)
      else case tlv_get k (nc_data a) TAG_CHALLENGE of
        None \<Rightarrow> (SW_INCORRECT_PARAMS, s)
      | Some chal \<Rightarrow> oath_calc_creds k (p2 a) chal (present_oath_cred_fids k s) (s\<lparr>res_APDU := []\<rparr>))"

definition cmd_send_remaining :: "'a oath_scheme \<Rightarrow> sw \<times> 'a oath_scheme" where
  "cmd_send_remaining s = (SW_OK, s)"

definition cmd_verify_hotp :: "sdk \<Rightarrow> apdu \<Rightarrow> 'a oath_scheme \<Rightarrow> sw \<times> 'a oath_scheme" where
  "cmd_verify_hotp k a s =
     (if \<not> validated s then (SW_SECURITY_STATUS_NOT_SATISFIED, s)
      else case tlv_get k (nc_data a) TAG_NAME of
        None \<Rightarrow> (SW_INCORRECT_PARAMS, s)
      | Some name \<Rightarrow>
          let ef = find_oath_cred k name s; d = file_get_data s ef
          in if \<not> file_has_data s ef then (SW_DATA_INVALID, s)
             else case tlv_get k d TAG_KEY of
               None \<Rightarrow> (SW_INCORRECT_PARAMS, s)
             | Some stored \<Rightarrow>
                 let (ret, key, s) = oath_decrypt_key k stored s
                 in if ret \<noteq> PICOKEYS_OK \<or> length key < 2 then (SW_EXEC_ERROR, s)
                    else if \<not> is_hotp_key key then (SW_DATA_INVALID, s)
                    else case tlv_get k d TAG_IMF of
                      None \<Rightarrow> (SW_INCORRECT_PARAMS, s)
                    | Some chal \<Rightarrow>
                        if (case tlv_get k d TAG_PROPERTY of
                              None \<Rightarrow> False
                            | Some prop \<Rightarrow> length prop > 0 \<and> prop ! 0 AND PROP_TOUCH \<noteq> 0)
                        then (SW_CONDITIONS_NOT_SATISFIED, s)
                        else (case tlv_get k (nc_data a) TAG_RESPONSE of
                          None \<Rightarrow> (SW_INCORRECT_PARAMS, s)
                        | Some code \<Rightarrow>
                            if length code \<noteq> 4 then (SW_INCORRECT_PARAMS, s)
                            else let code_int = sdk_get_u32 k code;
                                     (ret, s) = calculate_oath k 0x01 key chal s
                                 in if ret \<noteq> PICOKEYS_OK then (SW_EXEC_ERROR, s)
                                    else let res_int = sdk_get_u32 k (drop 2 (res_APDU s));
                                             res_int = (if res_APDU s ! 1 = 6 then res_int mod 1000000
                                                        else res_int mod 100000000)
                                         in if res_int \<noteq> code_int then (SW_WRONG_DATA, s)
                                            else (SW_OK, s\<lparr>res_APDU := [], ne := 0\<rparr>)))"

subsection \<open>Renaming and reading a credential\<close>

definition oath_rename_data :: "bytes \<Rightarrow> region \<Rightarrow> bytes \<Rightarrow> bytes" where
  "oath_rename_data d r new =
     take (fst r - 1) d @ [word_of_nat (length new)] @ new @ drop (fst r + snd r) d"

definition cmd_rename :: "sdk \<Rightarrow> apdu \<Rightarrow> 'a oath_scheme \<Rightarrow> sw \<times> 'a oath_scheme" where
  "cmd_rename k a s =
     (if \<not> validated s then (SW_SECURITY_STATUS_NOT_SATISFIED, s)
      else if nc a = 0 \<or> nc_data a ! 0 \<noteq> TAG_NAME then (SW_WRONG_DATA, s)
      else case sdk_tlv_find k (nc_data a) TAG_NAME of
        None \<Rightarrow> (SW_WRONG_DATA, s)
      | Some r \<Rightarrow>
          let name = slice (nc_data a) r
          in case tlv_get k (drop (fst r + snd r) (nc_data a)) TAG_NAME of
            None \<Rightarrow> (SW_WRONG_DATA, s)
          | Some new_name \<Rightarrow>
              if name = new_name then (SW_WRONG_DATA, s)
              else let ef = find_oath_cred k name s; d = file_get_data s ef
                   in if \<not> file_has_data s ef then (SW_DATA_INVALID, s)
                      else case sdk_tlv_find k d TAG_NAME of
                        None \<Rightarrow> (SW_WRONG_DATA, s)
                      | Some rd \<Rightarrow>
                          let (_, s) = file_put_data k ef (oath_rename_data d rd new_name) s
                          in (SW_OK, flash_commit s))"

fun oath_append_tags :: "sdk \<Rightarrow> bytes \<Rightarrow> u16 list \<Rightarrow> 'a plat_scheme \<Rightarrow> bool \<times> 'a plat_scheme" where
  "oath_append_tags k d [] s = (True, s)"
| "oath_append_tags k d (t # ts) s =
     (case tlv_get k d t of
        None \<Rightarrow> oath_append_tags k d ts s
      | Some v \<Rightarrow> let (ok, s) = oath_response_append k (ucast t) v s
                   in if ok then oath_append_tags k d ts s else (False, s))"

definition cmd_get_credential :: "sdk \<Rightarrow> apdu \<Rightarrow> 'a oath_scheme \<Rightarrow> sw \<times> 'a oath_scheme" where
  "cmd_get_credential k a s =
     (if \<not> validated s then (SW_SECURITY_STATUS_NOT_SATISFIED, s)
      else if nc a < 3 then (SW_INCORRECT_PARAMS, s)
      else if nc_data a ! 0 \<noteq> TAG_NAME then (SW_WRONG_DATA, s)
      else case tlv_get k (nc_data a) TAG_NAME of
        None \<Rightarrow> (SW_WRONG_DATA, s)
      | Some name \<Rightarrow>
          let ef = find_oath_cred k name s
          in if \<not> file_has_data s ef then (SW_DATA_INVALID, s)
             else let (ok, s) = oath_append_tags k (file_get_data s ef)
                        [TAG_NAME, TAG_PWS_LOGIN, TAG_PWS_PASSWORD, TAG_PWS_METADATA, TAG_PROPERTY] s
                  in if ok then (SW_OK, set_ne s) else (SW_WRONG_LENGTH, s))"

end
