(* ===== verification/Dispatch.thy ===== *)
theory Dispatch
  imports Platform
begin

text \<open>
  Every applet of the firmware (\<open>fido.c\<close>, \<open>oath.c\<close>, \<open>otp.c\<close>, \<open>management.c\<close>) ends in the same
  loop: walk a table of \<open>cmd_t\<close> entries, call the handler of the first entry whose
  instruction byte matches, and answer \<open>SW_INS_NOT_SUPPORTED\<close> otherwise. The loop is modelled
  once; the locale \<open>applet\<close> is the contract between a table of handlers and the loop.
\<close>

fun run_cmd :: "(byte \<times> (apdu \<Rightarrow> 's \<Rightarrow> sw \<times> 's)) list \<Rightarrow> apdu \<Rightarrow> 's \<Rightarrow> sw \<times> 's" where
  "run_cmd [] a s = (SW_INS_NOT_SUPPORTED, s)"
| "run_cmd ((i, h) # cs) a s = (if i = ins a then h a s else run_cmd cs a s)"

lemma run_cmd_cases:
  assumes "run_cmd cs a s = (r, t)"
  shows "(ins a \<notin> fst ` set cs \<and> r = SW_INS_NOT_SUPPORTED \<and> t = s) \<or>
    (\<exists>h. (ins a, h) \<in> set cs \<and> h a s = (r, t))"
  using assms by (induction cs a s rule: run_cmd.induct) (auto split: if_splits)

lemma run_cmd_distinct:
  assumes "distinct (map fst cs)" and "(ins a, h) \<in> set cs"
  shows "run_cmd cs a s = h a s"
  using assms by (induction cs a s rule: run_cmd.induct) (force split: if_splits)+

text \<open>
  A handler table keeps a contract \<open>pre\<close>/\<open>post\<close> when every handler does and doing nothing
  does; then so does the loop, and a run over any sequence of commands keeps every
  invariant of this form.
\<close>

fun run_apdus :: "(apdu \<Rightarrow> 's \<Rightarrow> sw \<times> 's) \<Rightarrow> apdu list \<Rightarrow> 's \<Rightarrow> 's" where
  "run_apdus f [] s = s"
| "run_apdus f (a # as) s = run_apdus f as (snd (f a s))"

lemma run_apdus_invariant:
  assumes "\<And>a s. I s \<Longrightarrow> I (snd (f a s))" and "I s"
  shows "I (run_apdus f as s)"
  using assms(2) by (induction as arbitrary: s) (simp_all add: assms(1))

locale applet =
  fixes cmds :: "(byte \<times> (apdu \<Rightarrow> 's \<Rightarrow> sw \<times> 's)) list"
    and pre :: "'s \<Rightarrow> bool"
    and post :: "apdu \<Rightarrow> 's \<Rightarrow> sw \<Rightarrow> 's \<Rightarrow> bool"
  assumes handler: "\<And>i h a s r t. (i, h) \<in> set cmds \<Longrightarrow> i = ins a \<Longrightarrow> pre s \<Longrightarrow> h a s = (r, t) \<Longrightarrow> post a s r t"
    and unsupported: "\<And>a s. pre s \<Longrightarrow> ins a \<notin> fst ` set cmds \<Longrightarrow> post a s SW_INS_NOT_SUPPORTED s"
begin

lemma run_cmd_post: "pre s \<Longrightarrow> run_cmd cmds a s = (r, t) \<Longrightarrow> post a s r t"
  using run_cmd_cases [of cmds a s r t] handler unsupported by blast

end

end
