(* ===== verification/Oath_Pin.thy ===== *)
theory Oath_Pin
  imports Oath_Calculate Dispatch Retry
begin

text \<open>
  The PIN of the OATH applet (\<open>src/fido/oath.c\<close>): the record in \<open>EF_OTP_PIN\<close> with its retry
  counter in the first byte, the check that spends a try before it compares, the three
  commands, and the dispatch of all the applet's commands.
\<close>

abbreviation (input) MAX_OTP_COUNTER :: byte where "MAX_OTP_COUNTER \<equiv> 3"
abbreviation (input) OTP_PIN_FORMAT_V1 :: byte where "OTP_PIN_FORMAT_V1 \<equiv> 1"
abbreviation (input) OTP_PIN_LEGACY_SIZE :: nat where "OTP_PIN_LEGACY_SIZE \<equiv> 33"
abbreviation (input) OTP_PIN_V1_SIZE :: nat where "OTP_PIN_V1_SIZE \<equiv> 34"
abbreviation (input) OTP_PIN_RETRY_COMMIT_TIMEOUT_MS :: nat where "OTP_PIN_RETRY_COMMIT_TIMEOUT_MS \<equiv> 500"

definition otp_pin_matches :: "sdk \<Rightarrow> bytes \<Rightarrow> bytes \<Rightarrow> bool" where
  "otp_pin_matches k rec pin =
     (if length rec = OTP_PIN_V1_SIZE \<and> rec ! 1 = OTP_PIN_FORMAT_V1
      then take 32 (drop 2 rec) = sdk_pin_verifier k pin
      else if length rec = OTP_PIN_LEGACY_SIZE \<and> length pin > 0
      then take 32 (drop 1 rec) = sdk_double_hash k pin
      else False)"

definition otp_pin_record_v1 :: "sdk \<Rightarrow> bytes \<Rightarrow> bytes" where
  "otp_pin_record_v1 k pin = [MAX_OTP_COUNTER, OTP_PIN_FORMAT_V1] @ sdk_pin_verifier k pin"

datatype otp_pin_match_result =
    OTP_PIN_MATCH
  | OTP_PIN_MISMATCH
  | OTP_PIN_BLOCKED
  | OTP_PIN_STORAGE_ERROR

definition oath_check_pin ::
    "sdk \<Rightarrow> fid option \<Rightarrow> nat \<Rightarrow> bytes \<Rightarrow> 'a oath_scheme \<Rightarrow> otp_pin_match_result \<times> 'a oath_scheme" where
  "oath_check_pin k ef record_len pin s =
     (if \<not> file_has_data s ef \<or>
         (record_len \<noteq> OTP_PIN_LEGACY_SIZE \<and> record_len \<noteq> OTP_PIN_V1_SIZE)
      then (OTP_PIN_STORAGE_ERROR, s)
      else let rec = fit record_len (file_get_data s ef)
           in if rec ! 0 = 0 then (OTP_PIN_BLOCKED, s)
              else let rec = rec[0 := rec ! 0 - 1];
                       (ret, s) = file_put_data k ef rec s
                   in if ret \<noteq> PICOKEYS_OK then (OTP_PIN_STORAGE_ERROR, s)
                      else let (done, s) = flash_commit_sync k OTP_PIN_RETRY_COMMIT_TIMEOUT_MS s
                           in if \<not> done \<or> file_get_size s ef \<noteq> record_len \<or>
                                 \<not> file_has_data s ef \<or> file_get_data s ef ! 0 \<noteq> rec ! 0
                              then (OTP_PIN_STORAGE_ERROR, s)
                              else (if otp_pin_matches k (file_get_data s ef) pin
                                    then OTP_PIN_MATCH else OTP_PIN_MISMATCH, s))"

definition cmd_set_otp_pin :: "sdk \<Rightarrow> apdu \<Rightarrow> 'a oath_scheme \<Rightarrow> sw \<times> 'a oath_scheme" where
  "cmd_set_otp_pin k a s =
     (if \<not> validated s then (SW_SECURITY_STATUS_NOT_SATISFIED, s)
      else let ef = file_search s EF_OTP_PIN
           in if file_has_data s ef then (SW_CONDITIONS_NOT_SATISFIED, s)
              else case tlv_get k (nc_data a) TAG_PASSWORD of
                None \<Rightarrow> (SW_INCORRECT_PARAMS, s)
              | Some pw \<Rightarrow>
                  let (ret, s) = file_put_data k ef (otp_pin_record_v1 k pw) s
                  in if ret \<noteq> PICOKEYS_OK then (SW_MEMORY_FAILURE, s) else (SW_OK, flash_commit s))"

definition otp_pin_record_ok :: "'a oath_scheme \<Rightarrow> bool" where
  "otp_pin_record_ok s \<longleftrightarrow>
     (let ef = file_search s EF_OTP_PIN; record_len = file_get_size s ef
      in file_has_data s ef \<and>
         (record_len = OTP_PIN_LEGACY_SIZE \<or> record_len = OTP_PIN_V1_SIZE))"

definition cmd_change_otp_pin :: "sdk \<Rightarrow> apdu \<Rightarrow> 'a oath_scheme \<Rightarrow> sw \<times> 'a oath_scheme" where
  "cmd_change_otp_pin k a s =
     (let ef = file_search s EF_OTP_PIN; record_len = file_get_size s ef
      in if \<not> otp_pin_record_ok s then (SW_CONDITIONS_NOT_SATISFIED, s)
         else case tlv_get k (nc_data a) TAG_PASSWORD of
           None \<Rightarrow> (SW_INCORRECT_PARAMS, s)
         | Some pw \<Rightarrow>
             (case tlv_get k (nc_data a) TAG_NEW_PASSWORD of
                None \<Rightarrow> (SW_INCORRECT_PARAMS, s)
              | Some new_pw \<Rightarrow>
                  let (match, s) = oath_check_pin k ef record_len pw s
                  in if match = OTP_PIN_STORAGE_ERROR then (SW_MEMORY_FAILURE, s)
                     else if match \<noteq> OTP_PIN_MATCH then (SW_SECURITY_STATUS_NOT_SATISFIED, s)
                     else let (ret, s) = file_put_data k ef (otp_pin_record_v1 k new_pw) s
                          in if ret \<noteq> PICOKEYS_OK then (SW_MEMORY_FAILURE, s)
                             else (SW_OK, flash_commit s)))"

definition cmd_verify_otp_pin :: "sdk \<Rightarrow> apdu \<Rightarrow> 'a oath_scheme \<Rightarrow> sw \<times> 'a oath_scheme" where
  "cmd_verify_otp_pin k a s =
     (let ef = file_search s EF_OTP_PIN; record_len = file_get_size s ef
      in if \<not> otp_pin_record_ok s then (SW_CONDITIONS_NOT_SATISFIED, s)
         else case tlv_get k (nc_data a) TAG_PASSWORD of
           None \<Rightarrow> (SW_INCORRECT_PARAMS, s)
         | Some pw \<Rightarrow>
             let (match, s) = oath_check_pin k ef record_len pw s
             in if match = OTP_PIN_STORAGE_ERROR then (SW_MEMORY_FAILURE, s)
                else if match \<noteq> OTP_PIN_MATCH
                then (SW_SECURITY_STATUS_NOT_SATISFIED, s\<lparr>validated := False\<rparr>)
                else let (ret, s) = file_put_data k ef (otp_pin_record_v1 k pw) s
                     in if ret \<noteq> PICOKEYS_OK then (SW_MEMORY_FAILURE, s)
                        else (SW_OK, (flash_commit s)\<lparr>validated := True\<rparr>))"

subsection \<open>Dispatch\<close>

definition oath_cmds :: "sdk \<Rightarrow> (byte \<times> (apdu \<Rightarrow> 'a oath_scheme \<Rightarrow> sw \<times> 'a oath_scheme)) list" where
  "oath_cmds k =
     [(0x01, cmd_put k), (0x02, cmd_delete k), (0x03, cmd_set_code k), (0x04, cmd_reset k),
      (0x05, cmd_rename k), (0xa1, cmd_list k), (0xa3, cmd_validate k), (0xa2, cmd_calculate k),
      (0xa4, cmd_calculate_all k), (0xa5, \<lambda>_. cmd_send_remaining), (0xb4, cmd_set_otp_pin k),
      (0xb3, cmd_change_otp_pin k), (0xb2, cmd_verify_otp_pin k), (0xb1, cmd_verify_hotp k),
      (0xb5, cmd_get_credential k)]"

definition oath_process_apdu :: "sdk \<Rightarrow> apdu \<Rightarrow> 'a oath_scheme \<Rightarrow> sw \<times> 'a oath_scheme" where
  "oath_process_apdu k a s =
     (if cla a \<noteq> 0x00 then (SW_CLA_NOT_SUPPORTED, s)
      else if cap_supported k s CAP_OATH then run_cmd (oath_cmds k) a s
      else (SW_INS_NOT_SUPPORTED, s))"

end
