(* ===== verification/Oath_Pin_Properties.thy ===== *)
theory Oath_Pin_Properties
  imports Oath_Pin Ref_Platform
begin

text \<open>
  What the PIN of the OATH applet promises: no answer about a guess without a try that is spent
  and durably recorded, whatever the guess is, and no sequence of wrong guesses gets more answers than there are tries
  left (an interpretation of \<open>retry_limited\<close>).
\<close>

definition otp_pin_retries :: "'a oath_scheme \<Rightarrow> nat" where
  "otp_pin_retries s = (case files s EF_OTP_PIN of Some (b # _) \<Rightarrow> unat b | _ \<Rightarrow> 0)"

definition otp_pin_right :: "sdk \<Rightarrow> 'a oath_scheme \<Rightarrow> apdu \<Rightarrow> bool" where
  "otp_pin_right k s a \<longleftrightarrow>
     (case (files s EF_OTP_PIN, tlv_get k (nc_data a) TAG_PASSWORD) of
        (Some d, Some pw) \<Rightarrow> otp_pin_matches k d pw
      | _ \<Rightarrow> False)"

text \<open>
  The two commands that compare a PIN, as an attempt: \<open>INS_CHANGE_PIN\<close> or \<open>INS_VERIFY_PIN\<close>.
\<close>

definition otp_pin_attempt :: "sdk \<Rightarrow> 'a oath_scheme \<Rightarrow> apdu \<Rightarrow> verdict \<times> 'a oath_scheme" where
  "otp_pin_attempt k s a =
     (let (r, t) = (if ins a = 0xb3 then cmd_change_otp_pin k a s else cmd_verify_otp_pin k a s)
      in (if r = SW_OK then Accepted
          else if r = SW_SECURITY_STATUS_NOT_SATISFIED \<and> otp_pin_retries s \<noteq> 0 then Rejected
          else Refused, t))"

lemma otp_pin_matches_counter:
  "length d = 33 \<or> length d = 34 \<Longrightarrow> otp_pin_matches k (d[0 := c]) pin = otp_pin_matches k d pin"
  by (auto simp: otp_pin_matches_def drop_update_cancel)

text \<open>
  The check itself: with a well-formed record it either spends one try in storage and answers,
  or gives an answer that tells nothing about the PIN.
\<close>

lemma oath_check_pin_outcome:
  assumes put: "put_law k"
    and d: "files s EF_OTP_PIN = Some d" "length d = 33 \<or> length d = 34"
    and c: "oath_check_pin k (Some EF_OTP_PIN) (length d) pin s = (m, t)"
  shows "store_step s t \<and>
    (m = OTP_PIN_BLOCKED \<and> t = s \<and> d ! 0 = 0 \<or>
     m = OTP_PIN_STORAGE_ERROR \<and> d ! 0 \<noteq> 0 \<and>
       (files t = files s \<or> files t = (files s)(EF_OTP_PIN \<mapsto> d[0 := d ! 0 - 1])) \<or>
     m = (if otp_pin_matches k d pin then OTP_PIN_MATCH else OTP_PIN_MISMATCH) \<and> d ! 0 \<noteq> 0 \<and>
       files t = (files s)(EF_OTP_PIN \<mapsto> d[0 := d ! 0 - 1]) \<and>
       wlog t = wlog s @ [Put EF_OTP_PIN (d[0 := d ! 0 - 1]), CommitSync True])"
proof (cases "d ! 0 = 0")
  case True
  have "d \<noteq> []" using d by auto
  moreover have "fit (length d) (file_get_data s (Some EF_OTP_PIN)) = d" "file_has_data s (Some EF_OTP_PIN)"
    using d \<open>d \<noteq> []\<close> by (auto simp: file_reads)
  ultimately show ?thesis using True d(2) c by (auto simp: oath_check_pin_def Let_def)
next
  case False
  let ?r = "d[0 := d ! 0 - 1]"
  have ne: "d \<noteq> []" using d by auto
  obtain r u where u: "file_put_data k (Some EF_OTP_PIN) ?r s = (r, u)"
    by (cases "file_put_data k (Some EF_OTP_PIN) ?r s")
  obtain b v where v: "flash_commit_sync k 500 u = (b, v)" by (cases "flash_commit_sync k 500 u")
  have su: "store_step s u" and suv: "store_step s v"
    using file_put_data_step [OF u] flash_commit_sync_step [OF v] store_step_trans by blast+
  have fv: "files v = files u" using flash_commit_sync_files [OF v] .
  have wv: "wlog v = wlog u @ [CommitSync b]" using v by (auto simp: flash_commit_sync_def Let_def)
  have m: "otp_pin_matches k ?r pin = otp_pin_matches k d pin"
    by (rule otp_pin_matches_counter) (rule d(2))
  have eval: "(m, t) = (if r \<noteq> PICOKEYS_OK then (OTP_PIN_STORAGE_ERROR, u)
      else if \<not> b \<or> file_get_size v (Some EF_OTP_PIN) \<noteq> length d \<or>
              \<not> file_has_data v (Some EF_OTP_PIN) \<or>
              file_get_data v (Some EF_OTP_PIN) ! 0 \<noteq> ?r ! 0
      then (OTP_PIN_STORAGE_ERROR, v)
      else (if otp_pin_matches k (file_get_data v (Some EF_OTP_PIN)) pin
            then OTP_PIN_MATCH else OTP_PIN_MISMATCH, v))"
  proof -
    have L: "\<not> (length d \<noteq> 33 \<and> length d \<noteq> 34)" using d(2) by blast
    have F: "file_get_data s (Some EF_OTP_PIN) = d" "file_has_data s (Some EF_OTP_PIN)"
      using d(1) ne by (auto simp: file_reads)
    have "fit (length d) d = d" by simp
    then show ?thesis
      using c L by (simp only: oath_check_pin_def F Let_def False u v prod.case if_False simp_thms)
  qed
  show ?thesis
  proof (cases "r = PICOKEYS_OK")
    case r: False
    then show ?thesis
      using eval False su file_put_data_cases [OF put u] by auto
  next
    case r: True
    have fu: "files u = (files s)(EF_OTP_PIN \<mapsto> ?r)" and wu: "wlog u = wlog s @ [Put EF_OTP_PIN ?r]"
      using file_put_data_ok [OF put u [unfolded r]] by auto
    show ?thesis
    proof (cases b)
      case True
      then show ?thesis
        using eval r False suv fv fu wv wu ne m by (auto simp: file_reads)
    next
      case b: False
      then show ?thesis using eval r False suv fv fu by auto
    qed
  qed
qed

lemma otp_pin_record_ok_iff:
  "otp_pin_record_ok s \<longleftrightarrow> (\<exists>d. files s EF_OTP_PIN = Some d \<and> (length d = 33 \<or> length d = 34))"
  by (auto simp: otp_pin_record_ok_def file_get_size_def Let_def)

lemma otp_pin_retries_eq:
  "files s EF_OTP_PIN = Some d \<Longrightarrow> d \<noteq> [] \<Longrightarrow> otp_pin_retries s = unat (d ! 0)"
  by (cases d) (simp_all add: otp_pin_retries_def)

text \<open>Both commands, reduced to the outcome of the check.\<close>

lemma otp_pin_attempt_cases:
  assumes put: "put_law k" and a: "otp_pin_attempt k s a = (v, t)"
  shows "(v = Refused \<and> t = s) \<or>
    (\<exists>d pw m u. files s EF_OTP_PIN = Some d \<and> (length d = 33 \<or> length d = 34) \<and>
       tlv_get k (nc_data a) TAG_PASSWORD = Some pw \<and>
       oath_check_pin k (Some EF_OTP_PIN) (length d) pw s = (m, u) \<and>
       (m = OTP_PIN_BLOCKED \<and> v = Refused \<and> files t = files u \<or>
        m = OTP_PIN_STORAGE_ERROR \<and> v = Refused \<and> files t = files u \<or>
        m = OTP_PIN_MISMATCH \<and> v = Rejected \<and> files t = files u \<or>
        m = OTP_PIN_MATCH \<and> (v = Accepted \<or> v = Refused \<and> files t = files u)))"
proof (cases "\<exists>d pw. files s EF_OTP_PIN = Some d \<and> (length d = 33 \<or> length d = 34) \<and>
    tlv_get k (nc_data a) TAG_PASSWORD = Some pw")
  case False
  then show ?thesis
    using a by (auto simp: otp_pin_attempt_def cmd_change_otp_pin_def cmd_verify_otp_pin_def
        otp_pin_record_ok_iff Let_def split: if_splits option.splits)
next
  case True
  then obtain d pw where d: "files s EF_OTP_PIN = Some d" "length d = 33 \<or> length d = 34"
    and pw: "tlv_get k (nc_data a) TAG_PASSWORD = Some pw" by blast
  obtain m u where c: "oath_check_pin k (Some EF_OTP_PIN) (length d) pw s = (m, u)"
    by (cases "oath_check_pin k (Some EF_OTP_PIN) (length d) pw s")
  have ret: "otp_pin_retries s = unat (d ! 0)" using d by (auto intro: otp_pin_retries_eq)
  have o: "m = OTP_PIN_BLOCKED \<longleftrightarrow> d ! 0 = 0"
    using oath_check_pin_outcome [OF put d c] by (auto split: if_splits)
  have ok: "otp_pin_record_ok s" using d by (auto simp: otp_pin_record_ok_iff)
  have se: "file_search s EF_OTP_PIN = Some EF_OTP_PIN" "file_get_size s (Some EF_OTP_PIN) = length d"
    using d by (auto simp: file_reads)
  have fr: "files t' = files u" if "file_put_data k (Some EF_OTP_PIN) x u = (r', t')" "r' \<noteq> PICOKEYS_OK"
    for x r' t' using file_put_data_cases [OF put that(1)] that(2) by auto
  have "m = OTP_PIN_BLOCKED \<and> v = Refused \<and> files t = files u \<or>
        m = OTP_PIN_STORAGE_ERROR \<and> v = Refused \<and> files t = files u \<or>
        m = OTP_PIN_MISMATCH \<and> v = Rejected \<and> files t = files u \<or>
        m = OTP_PIN_MATCH \<and> (v = Accepted \<or> v = Refused \<and> files t = files u) \<or> (v = Refused \<and> t = s)"
    using a ok pw c ret o se
    by (cases m) (auto simp: otp_pin_attempt_def cmd_change_otp_pin_def cmd_verify_otp_pin_def
        Let_def unat_eq_0 dest: fr split: if_splits option.splits prod.splits)
  then show ?thesis using d pw c by blast
qed

text \<open>An attempt that does not succeed changes the files at most by spending one try.\<close>

lemma otp_pin_attempt_failed:
  assumes put: "put_law k" and a: "otp_pin_attempt k s a = (v, t)" and v: "v \<noteq> Accepted"
  shows "(v = Refused \<and> files t = files s) \<or>
    (\<exists>d. files s EF_OTP_PIN = Some d \<and> (length d = 33 \<or> length d = 34) \<and> d ! 0 \<noteq> 0 \<and>
       files t = (files s)(EF_OTP_PIN \<mapsto> d[0 := d ! 0 - 1]))"
  using otp_pin_attempt_cases [OF put a]
proof
  assume "v = Refused \<and> t = s"
  then show ?thesis by simp
next
  assume "\<exists>d pw m u. files s EF_OTP_PIN = Some d \<and> (length d = 33 \<or> length d = 34) \<and>
       tlv_get k (nc_data a) TAG_PASSWORD = Some pw \<and>
       oath_check_pin k (Some EF_OTP_PIN) (length d) pw s = (m, u) \<and>
       (m = OTP_PIN_BLOCKED \<and> v = Refused \<and> files t = files u \<or>
        m = OTP_PIN_STORAGE_ERROR \<and> v = Refused \<and> files t = files u \<or>
        m = OTP_PIN_MISMATCH \<and> v = Rejected \<and> files t = files u \<or>
        m = OTP_PIN_MATCH \<and> (v = Accepted \<or> v = Refused \<and> files t = files u))"
  then obtain d pw m u where d: "files s EF_OTP_PIN = Some d" "length d = 33 \<or> length d = 34"
    and c: "oath_check_pin k (Some EF_OTP_PIN) (length d) pw s = (m, u)"
    and t: "files t = files u" "v = Rejected \<longrightarrow> m = OTP_PIN_MISMATCH"
    using v by blast
  then show ?thesis
    using oath_check_pin_outcome [OF put d c] v by (cases v) (auto split: if_splits)
qed

lemma otp_pin_retries_spent:
  assumes "files s EF_OTP_PIN = Some d" and "length d = 33 \<or> length d = 34" and "d ! 0 \<noteq> 0"
    and "files t = (files s)(EF_OTP_PIN \<mapsto> d[0 := d ! 0 - 1])"
  shows "Suc (otp_pin_retries t) = otp_pin_retries s"
proof -
  have ne: "d \<noteq> []" using assms(2) by auto
  have "otp_pin_retries t = unat (d ! 0 - 1)"
    using assms(4) ne by (subst otp_pin_retries_eq [of t "d[0 := d ! 0 - 1]"]) auto
  moreover have "otp_pin_retries s = unat (d ! 0)" using assms(1) ne by (rule otp_pin_retries_eq)
  moreover have "unat (d ! 0) \<noteq> 0" using assms(3) by (simp add: unat_eq_zero)
  ultimately show ?thesis using word_pos_dec(1) [OF assms(3)] by simp
qed

lemma otp_pin_refused_keeps:
  assumes "put_law k" and "otp_pin_attempt k s p = (Refused, t)"
  shows "otp_pin_retries t \<le> otp_pin_retries s"
  using otp_pin_attempt_failed [OF assms] otp_pin_retries_spent [of s _ t]
  by (auto simp: otp_pin_retries_def)

interpretation otp_pin: retry_limited "otp_pin_attempt k" "\<lambda>s. put_law k" otp_pin_retries "otp_pin_right k"
  for k :: sdk
proof
  fix s t :: "'a oath_scheme" and p :: apdu
  assume put: "put_law k" and a: "otp_pin_attempt k s p = (Accepted, t)"
  obtain d pw u where d: "files s EF_OTP_PIN = Some d" "length d = 33 \<or> length d = 34"
    and pw: "tlv_get k (nc_data p) TAG_PASSWORD = Some pw"
    and c: "oath_check_pin k (Some EF_OTP_PIN) (length d) pw s = (OTP_PIN_MATCH, u)"
    using otp_pin_attempt_cases [OF put a] by auto
  have m: "otp_pin_matches k d pw" and nz: "d ! 0 \<noteq> 0"
    using oath_check_pin_outcome [OF put d c] by (auto split: if_splits)
  show "otp_pin_right k s p" using d pw m by (auto simp: otp_pin_right_def)
  have "d \<noteq> []" using d(2) by auto
  then show "0 < otp_pin_retries s" using nz by (simp add: otp_pin_retries_eq [OF d(1)] unat_gt_0)
next
  fix s t :: "'a oath_scheme" and p :: apdu
  assume put: "put_law k"
  assume a: "otp_pin_attempt k s p = (Rejected, t)"
  show "Suc (otp_pin_retries t) \<le> otp_pin_retries s"
    using otp_pin_attempt_failed [OF put a] otp_pin_retries_spent [of s _ t] by fastforce
next
  fix s t :: "'a oath_scheme" and p :: apdu
  assume put: "put_law k" and a: "otp_pin_attempt k s p = (Rejected, t)"
  obtain d pw u where d: "files s EF_OTP_PIN = Some d" "length d = 33 \<or> length d = 34"
    and pw: "tlv_get k (nc_data p) TAG_PASSWORD = Some pw"
    and c: "oath_check_pin k (Some EF_OTP_PIN) (length d) pw s = (OTP_PIN_MISMATCH, u)"
    using otp_pin_attempt_cases [OF put a] by auto
  have "\<not> otp_pin_matches k d pw"
    using oath_check_pin_outcome [OF put d c] by (auto split: if_splits)
  then show "\<not> otp_pin_right k s p" using d pw by (auto simp: otp_pin_right_def)
next
  fix s t :: "'a oath_scheme" and p q :: apdu and v
  assume put: "put_law k" and a: "otp_pin_attempt k s p = (v, t)" and v: "v \<noteq> Accepted"
    and "otp_pin_right k t q"
  then show "otp_pin_right k s q"
    using otp_pin_attempt_failed [OF put a v]
    by (auto simp: otp_pin_right_def otp_pin_matches_counter split: option.splits)
qed (auto dest: otp_pin_refused_keeps)

subsection \<open>A concrete applet\<close>

text \<open>A concrete applet on the reference platform, for the witnesses.\<close>

definition ref_oath :: "files \<Rightarrow> bool \<Rightarrow> oath" where
  "ref_oath fs v =
     \<lparr>files = fs, tick = 0, wlog = [], res_APDU = [], ne = 0, millis = 0,
      user_present_time_limit = 0, phy_kb = False,
      validated = v, oath_migration_done = True, challenge = [1, 2, 3, 4, 5, 6, 7, 8]\<rparr>"

definition oath_apdu :: "byte \<Rightarrow> bytes \<Rightarrow> apdu" where
  "oath_apdu i d = \<lparr>cla = 0, ins = i, p1 = 0, p2 = 0, nc_data = d\<rparr>"

text \<open>
  C20: However an attacker interleaves \<open>INS_VERIFY_PIN\<close> and \<open>INS_CHANGE_PIN\<close>, a sequence of guesses
  none of which is the stored PIN is never accepted, and the number of guesses the applet
  answers as wrong, plus the tries still left, never exceeds the tries there were. When no try is
  left, every further guess of any sequence is refused, the right PIN included.
\<close>
theorem otp_pin_brute_force_bound:
  assumes "put_law k" and "\<forall>a \<in> set as. \<not> otp_pin_right k s a"
    and "guess_all (otp_pin_attempt k) s as = (vs, t)"
  shows "Accepted \<notin> set vs \<and> count_list vs Rejected + otp_pin_retries t \<le> otp_pin_retries s \<and>
    (otp_pin_retries t = 0 \<longrightarrow> (\<forall>bs ws u. guess_all (otp_pin_attempt k) t bs = (ws, u) \<longrightarrow> set ws \<subseteq> {Refused}))"
  using otp_pin.wrong_guesses_rejected [OF assms] otp_pin.exhausted_stays [OF assms(1)] by blast

definition ref_pin_files :: files where
  "ref_pin_files = [EF_OTP_PIN \<mapsto> [3, 1, 0x31, 0x32] @ replicate 30 0]"

definition wrong_pin_apdu :: apdu where
  "wrong_pin_apdu = oath_apdu 0xb2 [0x80, 2, 0x31, 0x39]"

theorem otp_pin_brute_force_bound_witness:
  "count_list (fst (guess_all (otp_pin_attempt ref_sdk) (ref_oath ref_pin_files False)
     (replicate 10 wrong_pin_apdu))) Rejected \<le> 3"
proof -
  let ?s = "ref_oath ref_pin_files False" and ?as = "replicate 10 wrong_pin_apdu"
  have w: "\<forall>a \<in> set ?as. \<not> otp_pin_right ref_sdk ?s a"
    by (simp add: otp_pin_right_def wrong_pin_apdu_def oath_apdu_def ref_oath_def ref_pin_files_def
        otp_pin_matches_def ref_eval)
  have "otp_pin_retries ?s = 3" by (simp add: otp_pin_retries_def ref_oath_def ref_pin_files_def)
  then show ?thesis
    using otp_pin_brute_force_bound [OF ref_put_law w, of "fst (guess_all (otp_pin_attempt ref_sdk) ?s ?as)"
        "snd (guess_all (otp_pin_attempt ref_sdk) ?s ?as)"] by simp
qed

text \<open>
  C21: The check tells something of the PIN only when a try has been spent for it. What it asks of
  the storage, and the state it leaves, are the same for every PIN. Its answer depends on the PIN
  only when the counter has been lowered by one in the stored record and the synchronous commit
  behind that write has succeeded, as the only two requests; if the write, the commit or the
  reading back fails, or no try is left, every PIN gets the same answer.
\<close>
theorem otp_pin_try_spent_first:
  assumes "put_law k"
    and "files s EF_OTP_PIN = Some d" and "length d = 33 \<or> length d = 34"
    and "oath_check_pin k (Some EF_OTP_PIN) (length d) pin s = (m, t)"
  shows "(\<forall>pin'. snd (oath_check_pin k (Some EF_OTP_PIN) (length d) pin' s) = t) \<and>
    (if m = OTP_PIN_MATCH \<or> m = OTP_PIN_MISMATCH
     then d ! 0 \<noteq> 0 \<and> files t = (files s)(EF_OTP_PIN \<mapsto> d[0 := d ! 0 - 1]) \<and>
       wlog t = wlog s @ [Put EF_OTP_PIN (d[0 := d ! 0 - 1]), CommitSync True] \<and>
       (m = OTP_PIN_MATCH \<longleftrightarrow> otp_pin_matches k d pin)
     else \<forall>pin'. oath_check_pin k (Some EF_OTP_PIN) (length d) pin' s = (m, t))"
proof -
  have same: "snd (oath_check_pin k (Some EF_OTP_PIN) (length d) pin' s) = t \<and>
      (m \<noteq> OTP_PIN_MATCH \<and> m \<noteq> OTP_PIN_MISMATCH \<longrightarrow> oath_check_pin k (Some EF_OTP_PIN) (length d) pin' s = (m, t))" for pin'
    using assms(4) by (auto simp: oath_check_pin_def Let_def split: prod.splits if_splits)
  then show ?thesis using oath_check_pin_outcome [OF assms] by (auto split: if_splits)
qed

theorem otp_pin_try_spent_first_witness:
  "wlog (snd (oath_check_pin ref_sdk (Some EF_OTP_PIN) 34 [0x31, 0x39] (ref_oath ref_pin_files False))) =
     [Put EF_OTP_PIN ([2, 1, 0x31, 0x32] @ replicate 30 0), CommitSync True]"
proof -
  let ?d = "[3, 1, 0x31, 0x32] @ replicate 30 0 :: bytes" and ?s = "ref_oath ref_pin_files False"
  have m: "fst (oath_check_pin ref_sdk (Some EF_OTP_PIN) (length ?d) [0x31, 0x39] ?s) = OTP_PIN_MISMATCH"
    by (simp add: oath_check_pin_def otp_pin_matches_def ref_oath_def ref_pin_files_def ref_eval)
  have f: "files ?s EF_OTP_PIN = Some ?d" "length ?d = 33 \<or> length ?d = 34" "wlog ?s = []"
    by (simp_all add: ref_oath_def ref_pin_files_def)
  show ?thesis
    using otp_pin_try_spent_first [OF ref_put_law f(1,2), of "[0x31, 0x39]"
        "fst (oath_check_pin ref_sdk (Some EF_OTP_PIN) (length ?d) [0x31, 0x39] ?s)"
        "snd (oath_check_pin ref_sdk (Some EF_OTP_PIN) (length ?d) [0x31, 0x39] ?s)"] m f(3)
    by simp
qed

end
