(* ===== verification/Oath_Lock.thy ===== *)
theory Oath_Lock
  imports Oath_Pin_Properties
begin

text \<open>
  The lock of the OATH applet: which commands a locked applet refuses, what the others may
  change, and what it takes to unlock it. All are contracts of the command table
  (interpretations of \<open>applet\<close>).
\<close>

text \<open>
  The commands that do not ask whether the applet is unlocked: the reset, the response to the
  challenge, the rest of a long response, and checking and changing the PIN.
\<close>

definition oath_open :: "byte list" where
  "oath_open = [0x04, 0xa3, 0xa5, 0xb2, 0xb3]"

text \<open>A locked applet answers every other command with a refusal and keeps its state.\<close>

definition oath_refused :: "apdu \<Rightarrow> 'a oath_scheme \<Rightarrow> sw \<Rightarrow> 'a oath_scheme \<Rightarrow> bool" where
  "oath_refused a s r t \<longleftrightarrow>
     (ins a \<notin> set oath_open \<longrightarrow>
        t = s \<and> r \<in> {SW_SECURITY_STATUS_NOT_SATISFIED, SW_INCORRECT_P1P2, SW_INS_NOT_SUPPORTED})"

interpretation oath_locked: applet "oath_cmds k" "\<lambda>s. \<not> validated s" oath_refused
  for k :: sdk
proof
  fix i and h :: "apdu \<Rightarrow> 'a oath_scheme \<Rightarrow> sw \<times> 'a oath_scheme" and a s r t
  assume "(i, h) \<in> set (oath_cmds k)" and i: "i = ins a" and l: "\<not> validated s" and h: "h a s = (r, t)"
  then show "oath_refused a s r t"
    unfolding oath_cmds_def
    by (auto simp: oath_refused_def oath_open_def cmd_put_def cmd_delete_def cmd_set_code_def
        cmd_rename_def cmd_list_def cmd_calculate_def cmd_calculate_all_def cmd_verify_hotp_def
        cmd_set_otp_pin_def cmd_get_credential_def split: if_splits)
next
  fix a and s :: "'a oath_scheme"
  show "oath_refused a s SW_INS_NOT_SUPPORTED s" by (simp add: oath_refused_def)
qed

text \<open>What an open command may change in storage: the record of the PIN, and everything by the reset.\<close>

abbreviation (input) oath_reset :: "apdu \<Rightarrow> bool" where
  "oath_reset a \<equiv> ins a = 0x04 \<and> p1 a = 0xde \<and> p2 a = 0xad"

definition oath_pin_only :: "apdu \<Rightarrow> 'a oath_scheme \<Rightarrow> sw \<Rightarrow> 'a oath_scheme \<Rightarrow> bool" where
  "oath_pin_only a s r t \<longleftrightarrow> (\<not> oath_reset a \<longrightarrow> (\<forall>f. f \<noteq> EF_OTP_PIN \<longrightarrow> files t f = files s f))"

lemma oath_check_pin_frame:
  assumes "put_law k" and "oath_check_pin k p n pin s = (m, t)" and "p \<noteq> Some f"
  shows "files t f = files s f"
  using assms file_put_data_frame [OF assms(1) _ assms(3)] flash_commit_sync_files
  by (fastforce simp: oath_check_pin_def Let_def split: if_splits prod.splits)

lemma otp_pin_search: "f \<noteq> EF_OTP_PIN \<Longrightarrow> file_search s EF_OTP_PIN \<noteq> Some f"
  by (simp add: file_search_def)

lemma otp_pin_cmds_frame:
  assumes "put_law k" and "cmd_change_otp_pin k a s = (r, t) \<or> cmd_verify_otp_pin k a s = (r, t)" and "f \<noteq> EF_OTP_PIN"
  shows "files t f = files s f"
proof -
  note p = otp_pin_search [OF assms(3)]
  note frames = oath_check_pin_frame [OF assms(1) _ p] file_put_data_frame [OF assms(1) _ p]
  from assms(2) show ?thesis
    by (elim disjE)
      (force simp: cmd_change_otp_pin_def cmd_verify_otp_pin_def Let_def flash_commit_def dest!: frames
        split: option.splits prod.splits if_splits)+
qed

interpretation oath_keeps: applet "oath_cmds k" "\<lambda>s. put_law k \<and> \<not> validated s" oath_pin_only
  for k :: sdk
proof
  fix i and h :: "apdu \<Rightarrow> 'a oath_scheme \<Rightarrow> sw \<times> 'a oath_scheme" and a s r t
  assume m: "(i, h) \<in> set (oath_cmds k)" and i: "i = ins a"
    and l: "put_law k \<and> \<not> validated s" and h: "h a s = (r, t)"
  show "oath_pin_only a s r t"
  proof (cases "ins a \<in> set oath_open")
    case False
    then show ?thesis using oath_locked.handler [OF m i _ h] l by (simp add: oath_refused_def oath_pin_only_def)
  next
    case True
    then consider "i = 0x04" "h = cmd_reset k" | "h = cmd_validate k" | "h = (\<lambda>_. cmd_send_remaining)"
      | "h = cmd_change_otp_pin k \<or> h = cmd_verify_otp_pin k"
      using m i unfolding oath_cmds_def oath_open_def by auto
    then show ?thesis
    proof cases
      case 1
      then show ?thesis using h i by (auto simp: oath_pin_only_def cmd_reset_def split: if_splits)
    next
      case 2
      then have "files t = files s"
        using h by (auto simp: cmd_validate_def Let_def res_append_def set_ne_def dest: oath_decrypt_key_files
            split: option.splits prod.splits if_splits)
      then show ?thesis by (simp add: oath_pin_only_def)
    next
      case 3
      then show ?thesis using h by (simp add: oath_pin_only_def cmd_send_remaining_def)
    next
      case 4
      then show ?thesis using h l otp_pin_cmds_frame [of k a s r t] by (auto simp: oath_pin_only_def)
    qed
  qed
next
  fix a and s :: "'a oath_scheme"
  show "oath_pin_only a s SW_INS_NOT_SUPPORTED s" by (simp add: oath_pin_only_def)
qed

text \<open>What the access code in storage says about a request to unlock.\<close>

definition oath_code_proof :: "sdk \<Rightarrow> apdu \<Rightarrow> 'a oath_scheme \<Rightarrow> bool" where
  "oath_code_proof k a s \<longleftrightarrow>
     (\<exists>key md hmac resp u. oath_decrypt_key k (file_get_data s (Some EF_OATH_CODE)) s = (PICOKEYS_OK, key, u) \<and>
        get_oath_md_info (key ! 0) = Some md \<and>
        sdk_hmac k md (tl key) (challenge s) = (0, hmac) \<and>
        tlv_get k (nc_data a) TAG_RESPONSE = Some resp \<and>
        length resp = sdk_md_size k md \<and> take (length resp) hmac = resp)"

definition oath_unlocked_by :: "sdk \<Rightarrow> apdu \<Rightarrow> 'a oath_scheme \<Rightarrow> sw \<Rightarrow> 'a oath_scheme \<Rightarrow> bool" where
  "oath_unlocked_by k a s r t \<longleftrightarrow>
     (validated t \<longrightarrow>
        (ins a = 0x04 \<and> p1 a = 0xde \<and> p2 a = 0xad) \<or>
        (ins a = 0xa3 \<and> (\<not> file_has_data s (Some EF_OATH_CODE) \<or> oath_code_proof k a s)) \<or>
        (ins a = 0xb2 \<and> otp_pin_right k s a))"

lemma store_step_validated: "store_step s t \<Longrightarrow> validated (t :: 'a oath_scheme) = validated s"
  by (auto simp: store_step_def)

lemma store_step_challenge: "store_step s t \<Longrightarrow> challenge (t :: 'a oath_scheme) = challenge s"
  by (auto simp: store_step_def)

lemma set_ne_oath [simp]:
  "validated (set_ne s) = validated s" "validated (res_append d s) = validated s"
  "validated (flash_commit s) = validated s"
  by (simp_all add: set_ne_def res_append_def flash_commit_def)

lemma cmd_validate_unlock:
  assumes "cmd_validate k a s = (r, t)" and "\<not> validated s" and "validated t"
  shows "\<not> file_has_data s (Some EF_OATH_CODE) \<or> oath_code_proof k a s"
proof (cases "file_has_data s (Some EF_OATH_CODE)")
  case False
  then show ?thesis ..
next
  case True
  then have fs: "file_search s EF_OATH_CODE = Some EF_OATH_CODE"
    by (auto simp: file_reads split: option.splits)
  obtain ret key u where dk: "oath_decrypt_key k (file_get_data s (Some EF_OATH_CODE)) s = (ret, key, u)"
    by (cases "oath_decrypt_key k (file_get_data s (Some EF_OATH_CODE)) s")
  note st = oath_decrypt_key_step [OF dk]
  have vu: "\<not> validated u" using store_step_validated [OF st] assms(2) by simp
  have cu: "challenge u = challenge s" using store_step_challenge [OF st] .
  show ?thesis
    using assms True vu dk unfolding cmd_validate_def Let_def fs oath_code_proof_def
    by (auto simp: cu split: option.splits prod.splits if_splits)
qed

lemma cmd_verify_otp_pin_unlock:
  assumes "put_law k" and "cmd_verify_otp_pin k a s = (r, t)" and "ins a = 0xb2"
    and "\<not> validated s" and "validated t"
  shows "otp_pin_right k s a"
proof -
  have "r = SW_OK"
    using assms(2,4,5)
    by (auto simp: cmd_verify_otp_pin_def Let_def oath_check_pin_def
        dest!: file_put_data_step flash_commit_sync_step store_step_validated
        split: option.splits prod.splits if_splits)
  then have "otp_pin_attempt k s a = (Accepted, t)"
    using assms(2,3) by (simp add: otp_pin_attempt_def)
  then show ?thesis by (rule otp_pin.accepted_right [OF assms(1)])
qed

lemma cmd_change_otp_pin_locked:
  assumes "cmd_change_otp_pin k a s = (r, t)"
  shows "validated t = validated s"
  using assms
  by (auto simp: cmd_change_otp_pin_def Let_def oath_check_pin_def
      dest!: file_put_data_step flash_commit_sync_step store_step_validated
      split: option.splits prod.splits if_splits)

interpretation oath_unlock: applet "oath_cmds k" "\<lambda>s. put_law k \<and> \<not> validated s" "oath_unlocked_by k"
  for k :: sdk
proof
  fix i and h :: "apdu \<Rightarrow> 'a oath_scheme \<Rightarrow> sw \<times> 'a oath_scheme" and a s r t
  assume m: "(i, h) \<in> set (oath_cmds k)" and i: "i = ins a"
    and l: "put_law k \<and> \<not> validated s" and h: "h a s = (r, t)"
  show "oath_unlocked_by k a s r t"
  proof (cases "ins a \<in> set oath_open")
    case False
    then show ?thesis
      using oath_locked.handler [OF m i _ h] l by (simp add: oath_refused_def oath_unlocked_by_def)
  next
    case True
    then consider "i = 0x04" "h = cmd_reset k" | "i = 0xa3" "h = cmd_validate k"
      | "i = 0xa5" "h = (\<lambda>_. cmd_send_remaining)" | "i = 0xb3" "h = cmd_change_otp_pin k"
      | "i = 0xb2" "h = cmd_verify_otp_pin k"
      using m i unfolding oath_cmds_def oath_open_def by auto
    then show ?thesis
    proof cases
      case 1
      then show ?thesis using h i l
        by (auto simp: oath_unlocked_by_def cmd_reset_def Let_def split: if_splits prod.splits)
    next
      case 2
      then show ?thesis using h i l cmd_validate_unlock [of k a s r t]
        by (simp add: oath_unlocked_by_def)
    next
      case 3
      then show ?thesis using h i l by (auto simp: oath_unlocked_by_def cmd_send_remaining_def)
    next
      case 4
      then show ?thesis using h l cmd_change_otp_pin_locked [of k a s r t]
        by (simp add: oath_unlocked_by_def)
    next
      case 5
      then show ?thesis using h i l cmd_verify_otp_pin_unlock [of k a s r t]
        by (auto simp: oath_unlocked_by_def)
    qed
  qed
next
  fix a and s :: "'a oath_scheme"
  assume "put_law k \<and> \<not> validated s"
  then show "oath_unlocked_by k a s SW_INS_NOT_SUPPORTED s" by (simp add: oath_unlocked_by_def)
qed

subsection \<open>The properties of the lock\<close>

text \<open>
  C14: What a locked OATH applet does. Every command but the reset, the response to the challenge,
  the rest of a long response and the check and the change of the PIN is refused and leaves the
  whole state as it was. No command at all, but the reset with its magic parameters, changes a
  credential, the access code or any other file than the record of the PIN.
\<close>
theorem oath_locked_refuses:
  assumes "put_law k" and "\<not> validated s" and "oath_process_apdu k a s = (r, t)"
  shows "(ins a \<notin> {0x04, 0xa3, 0xa5, 0xb2, 0xb3} \<longrightarrow>
      t = s \<and> r \<in> {SW_SECURITY_STATUS_NOT_SATISFIED, SW_INCORRECT_P1P2, SW_INS_NOT_SUPPORTED, SW_CLA_NOT_SUPPORTED}) \<and>
    (\<not> (ins a = 0x04 \<and> p1 a = 0xde \<and> p2 a = 0xad) \<longrightarrow> (\<forall>f. f \<noteq> EF_OTP_PIN \<longrightarrow> files t f = files s f))"
  using assms oath_locked.run_cmd_post [of s k a r t] oath_keeps.run_cmd_post [of k s a r t]
  by (auto simp: oath_process_apdu_def oath_refused_def oath_pin_only_def oath_open_def split: if_splits)

theorem oath_locked_refuses_witness:
  "oath_process_apdu ref_sdk (oath_apdu 0xa1 []) (ref_oath (\<lambda>_. None) False) =
     (SW_SECURITY_STATUS_NOT_SATISFIED, ref_oath (\<lambda>_. None) False)"
proof -
  let ?s = "ref_oath (\<lambda>_. None) False" and ?a = "oath_apdu 0xa1 []"
  have r: "fst (oath_process_apdu ref_sdk ?a ?s) = SW_SECURITY_STATUS_NOT_SATISFIED"
    by (simp add: oath_process_apdu_def cap_supported_unconfigured file_has_data_Some oath_cmds_def
        cmd_list_def oath_apdu_def ref_oath_def)
  have "snd (oath_process_apdu ref_sdk ?a ?s) = ?s"
    using oath_locked_refuses [OF ref_put_law, of ?s ?a "fst (oath_process_apdu ref_sdk ?a ?s)"
        "snd (oath_process_apdu ref_sdk ?a ?s)"]
    by (simp add: ref_oath_def oath_apdu_def)
  with r show ?thesis by (simp add: prod_eq_iff)
qed

text \<open>
  C18: The only ways to unlock the OATH applet are a factory reset with its magic parameters, a
  \<open>VALIDATE\<close> whose response is the HMAC of the applet's challenge under the stored access code
  (or, when no access code is stored, any well-formed \<open>VALIDATE\<close>), and a PIN verification with
  a PIN that matches the stored record.
\<close>
theorem oath_unlock_requires_proof:
  assumes "put_law k" and "\<not> validated s" and "oath_process_apdu k a s = (r, t)" and "validated t"
  shows "(ins a = 0x04 \<and> p1 a = 0xde \<and> p2 a = 0xad) \<or>
    (ins a = 0xa3 \<and> (\<not> file_has_data s (Some EF_OATH_CODE) \<or> oath_code_proof k a s)) \<or>
    (ins a = 0xb2 \<and> otp_pin_right k s a)"
  using assms oath_unlock.run_cmd_post [of k s a r t]
  by (simp add: oath_process_apdu_def oath_unlocked_by_def split: if_splits)

text \<open>Unlocking with the right PIN, and the rule the theorem gives for it.\<close>

theorem oath_unlock_requires_proof_witness:
  "validated (snd (oath_process_apdu ref_sdk (oath_apdu 0xb2 [0x80, 2, 0x31, 0x32])
      (ref_oath ref_pin_files False))) \<and>
   otp_pin_right ref_sdk (ref_oath ref_pin_files False) (oath_apdu 0xb2 [0x80, 2, 0x31, 0x32])"
proof -
  let ?s = "ref_oath ref_pin_files False" and ?a = "oath_apdu 0xb2 [0x80, 2, 0x31, 0x32]"
  have v: "validated (snd (oath_process_apdu ref_sdk ?a ?s))"
    by (simp add: oath_process_apdu_def cap_supported_unconfigured oath_cmds_def
        cmd_verify_otp_pin_def oath_check_pin_def otp_pin_record_ok_def otp_pin_record_v1_def
        otp_pin_matches_def ref_oath_def oath_apdu_def ref_pin_files_def ref_eval)
  have "\<not> validated ?s" "ins ?a = 0xb2" by (simp_all add: ref_oath_def oath_apdu_def)
  then have "otp_pin_right ref_sdk ?s ?a"
    using oath_unlock_requires_proof [OF ref_put_law, of ?s ?a "fst (oath_process_apdu ref_sdk ?a ?s)"
        "snd (oath_process_apdu ref_sdk ?a ?s)"] v by simp
  with v show ?thesis ..
qed

end
