(* ===== verification/Oath_Bounds.thy ===== *)
theory Oath_Bounds
  imports Oath_Pin_Properties
begin

text \<open>
  The response buffer of the OATH applet has \<open>USB_BUFFER_SIZE\<close> bytes and is written through an
  index; here every command is shown to stay inside it, on every path.
\<close>

definition res_fits :: "sdk \<Rightarrow> 'a plat_scheme \<Rightarrow> bool" where
  "res_fits k s \<longleftrightarrow> length (res_APDU s) \<le> sdk_buffer_size k"

lemma res_fits_store_step [bound_intros]: "store_step s t \<Longrightarrow> res_fits k s \<Longrightarrow> res_fits k t"
  by (simp add: res_fits_def store_step_fields)

lemma res_fits_simps [simp]:
  "res_fits k (set_ne s) = res_fits k s" "res_fits k (flash_commit s) = res_fits k s"
  by (simp_all add: res_fits_def set_ne_def flash_commit_def)

lemma res_fits_append:
  "oath_response_has_room k s n \<Longrightarrow> length d \<le> n \<Longrightarrow> res_fits k (res_append d s)"
  by (auto simp: res_fits_def res_append_def oath_response_has_room_def)

lemma res_fits_append_iff:
  "res_fits k (res_append d s) \<longleftrightarrow> length (res_APDU s) + length d \<le> sdk_buffer_size k"
  by (simp add: res_fits_def res_append_def)

lemma res_fits_response_append:
  "oath_response_append k tag d s = (b, t) \<Longrightarrow> res_fits k s \<Longrightarrow> res_fits k t"
  by (auto simp: oath_response_append_def intro: res_fits_append split: if_splits)

lemma res_fits_list:
  "oath_list_creds k ext fs s = (r, t) \<Longrightarrow> res_fits k s \<Longrightarrow> res_fits k t"
proof (induction fs arbitrary: s ext)
  case Nil
  then show ?case by auto
next
  case (Cons f fs)
  let ?d = "file_get_data s (Some f)"
  show ?case
  proof (cases "file_has_data s (Some f)")
    case False
    with Cons show ?thesis by simp
  next
    case True
    show ?thesis
    proof (cases "(tlv_get k ?d TAG_NAME, tlv_get k ?d TAG_KEY)")
      case (Pair n ke)
      show ?thesis
      proof (cases "\<exists>name key. n = Some name \<and> ke = Some key")
        case False
        with Cons True Pair show ?thesis by (auto simp: Let_def split: option.splits)
      next
        case nk: True
        then obtain name key where nk: "n = Some name" "ke = Some key" by blast
        obtain ret plain u where dk: "oath_decrypt_key k key s = (ret, plain, u)"
          by (cases "oath_decrypt_key k key s")
        have u: "res_fits k u"
          using res_fits_store_step [OF oath_decrypt_key_step [OF dk] Cons.prems(2)] .
        show ?thesis
          using Cons.prems(1) True Pair nk dk u
          by (auto simp: Let_def oath_response_has_room_def res_fits_append_iff split: if_splits
              dest!: Cons.IH)
      qed
    qed
  qed
qed

lemma res_append_append: "res_append e (res_append d s) = res_append (d @ e) s"
  by (simp add: res_append_def)

lemma length_oath_truncate [simp]: "length (oath_truncate h) = 4"
  by (simp add: oath_truncate_def Let_def)

lemma calculate_oath_outcome:
  assumes "calculate_oath k p key chal s = (r, t)"
  shows "(r \<noteq> PICOKEYS_OK \<and> t = s) \<or> (r = PICOKEYS_OK \<and> res_fits k t)"
  using assms
  by (auto simp: calculate_oath_def Let_def res_fits_def res_append_def set_ne_def
      oath_response_has_room_def split: if_splits option.splits prod.splits)

lemma res_fits_calc:
  "oath_calc_creds k p chal fs s = (r, t) \<Longrightarrow> res_fits k s \<Longrightarrow> res_fits k t"
proof (induction fs arbitrary: s)
  case Nil
  then show ?case by auto
next
  case (Cons f fs)
  let ?d = "file_get_data s (Some f)"
  show ?case
  proof (cases "file_has_data s (Some f) \<and> tlv_get k ?d TAG_NAME \<noteq> None \<and> tlv_get k ?d TAG_KEY \<noteq> None")
    case False
    with Cons.prems(1) have "oath_calc_creds k p chal fs s = (r, t)"
      by (auto simp: Let_def split: option.splits if_splits)
    then show ?thesis using Cons.IH Cons.prems(2) by blast
  next
    case True
    then obtain name stored where nk: "tlv_get k ?d TAG_NAME = Some name" "tlv_get k ?d TAG_KEY = Some stored"
      by auto
    obtain ret key u where dk: "oath_decrypt_key k stored s = (ret, key, u)"
      by (cases "oath_decrypt_key k stored s")
    have u: "res_fits k u"
      using res_fits_store_step [OF oath_decrypt_key_step [OF dk] Cons.prems(2)] .
    define v where "v = res_append [TAG_RESPONSE + p] (res_append ([TAG_NAME, word_of_nat (length name)] @ name) u)"
    obtain rc w where calc: "calculate_oath k p key chal v = (rc, w)"
      by (cases "calculate_oath k p key chal v")
    have err: "res_fits k (res_append [1, key ! 1] w)"
      if "rc \<noteq> PICOKEYS_OK" "oath_response_has_room k u (2 + length name + 8)"
      using calculate_oath_outcome [OF calc] that
      by (auto simp: v_def res_append_append intro: res_fits_append)
    have ok: "res_fits k w" if "rc = PICOKEYS_OK"
      using calculate_oath_outcome [OF calc] that by auto
    show ?thesis
      using Cons.prems True nk dk u calc err ok
      by (auto simp: Let_def v_def res_append_append oath_response_has_room_def
          res_fits_append_iff split: if_splits dest!: Cons.IH)
  qed
qed

lemma res_fits_append_tags:
  "oath_append_tags k d ts s = (b, t) \<Longrightarrow> res_fits k s \<Longrightarrow> res_fits k t"
proof (induction ts arbitrary: s)
  case Nil
  then show ?case by simp
next
  case (Cons x ts)
  then show ?case
    by (auto split: option.splits prod.splits if_splits dest: res_fits_response_append)
qed

subsection \<open>Command by command\<close>

lemma res_fits_oath [simp]:
  "res_fits k ((s :: 'a oath_scheme)\<lparr>validated := b\<rparr>) = res_fits k s"
  "res_fits k ((s :: 'a oath_scheme)\<lparr>challenge := c\<rparr>) = res_fits k s"
  "res_fits k (flash_clear_file k p s) = res_fits k s"
  by (simp_all add: res_fits_def flash_clear_file_def)

lemma res_fits_steps:
  "file_put_data k p d s = (rc, t) \<Longrightarrow> res_fits k s \<Longrightarrow> res_fits k t"
  "file_new k f s = (q, t) \<Longrightarrow> res_fits k s \<Longrightarrow> res_fits k t"
  "file_delete k p s = (rc, t) \<Longrightarrow> res_fits k s \<Longrightarrow> res_fits k t"
  "file_delete_no_commit k p s = (rc, t) \<Longrightarrow> res_fits k s \<Longrightarrow> res_fits k t"
  "calloc k n s = (b, t) \<Longrightarrow> res_fits k s \<Longrightarrow> res_fits k t"
  "random_fill_buffer k n s = (d, t) \<Longrightarrow> res_fits k s \<Longrightarrow> res_fits k t"
  "flash_commit_sync k n s = (b, t) \<Longrightarrow> res_fits k s \<Longrightarrow> res_fits k t"
  by (auto intro: res_fits_store_step store_steps)

lemma res_fits_oath_steps:
  "oath_decrypt_key k x u = (rc, d, v) \<Longrightarrow> res_fits k u \<Longrightarrow> res_fits k v"
  "oath_put_credential_data k p d u = (rc, v) \<Longrightarrow> res_fits k u \<Longrightarrow> res_fits k v"
  "oath_put_code_key k p d u = (rc, v) \<Longrightarrow> res_fits k u \<Longrightarrow> res_fits k v"
  by (auto intro: res_fits_store_step oath_steps)

lemma res_fits_store_credential:
  "oath_store_credential k name d s = (r, t) \<Longrightarrow> res_fits k s \<Longrightarrow> res_fits k t"
  by (auto simp: oath_store_credential_def Let_def split: if_splits option.splits prod.splits
      dest: res_fits_oath_steps res_fits_steps)

lemma res_fits_put: "cmd_put k a s = (r, t) \<Longrightarrow> res_fits k s \<Longrightarrow> res_fits k t"
  by (auto simp: cmd_put_def split: if_splits option.splits prod.splits
      dest: res_fits_store_credential res_fits_steps)

lemma res_fits_delete: "cmd_delete k a s = (r, t) \<Longrightarrow> res_fits k s \<Longrightarrow> res_fits k t"
  by (auto simp: cmd_delete_def split: if_splits option.splits prod.splits dest: res_fits_steps)

lemma res_fits_set_code: "cmd_set_code k a s = (r, t) \<Longrightarrow> res_fits k s \<Longrightarrow> res_fits k t"
  by (auto simp: cmd_set_code_def oath_delete_code_def Let_def split: if_splits option.splits prod.splits
      dest!: res_fits_steps res_fits_oath_steps)

lemma res_fits_delete_present: "res_fits k s \<Longrightarrow> res_fits k (oath_delete_present k fs s)"
proof (induction fs arbitrary: s)
  case (Cons f fs)
  have "res_fits k (snd (file_delete_no_commit k p s))" for p
    using res_fits_steps(4) [of k p s, OF prod.collapse [symmetric]] Cons.prems by simp
  then show ?case using Cons by (simp add: Let_def)
qed simp

lemma res_fits_reset: "cmd_reset k a s = (r, t) \<Longrightarrow> res_fits k s \<Longrightarrow> res_fits k t"
  by (auto simp: cmd_reset_def Let_def split: if_splits prod.splits
      dest: res_fits_steps(4) intro: res_fits_delete_present)

lemma res_fits_rename: "cmd_rename k a s = (r, t) \<Longrightarrow> res_fits k s \<Longrightarrow> res_fits k t"
  by (auto simp: cmd_rename_def Let_def split: if_splits option.splits prod.splits
      dest: res_fits_steps(1))

lemma res_fits_cmd_list: "cmd_list k a s = (r, t) \<Longrightarrow> res_fits k s \<Longrightarrow> res_fits k t"
  by (auto simp: cmd_list_def split: if_splits dest: res_fits_list)

lemma res_fits_calculate_all: "cmd_calculate_all k a s = (r, t) \<Longrightarrow> res_fits k s \<Longrightarrow> res_fits k t"
proof -
  have "res_fits k (s\<lparr>res_APDU := []\<rparr>)" by (simp add: res_fits_def)
  then show "cmd_calculate_all k a s = (r, t) \<Longrightarrow> res_fits k s \<Longrightarrow> res_fits k t"
    by (auto simp: cmd_calculate_all_def split: if_splits option.splits dest: res_fits_calc)
qed

lemma calculate_oath_fits:
  "calculate_oath k p key chal s = (r, t) \<Longrightarrow> res_fits k s \<Longrightarrow> res_fits k t"
  using calculate_oath_outcome by fastforce

lemma res_fits_calculate: "cmd_calculate k a s = (r, t) \<Longrightarrow> res_fits k s \<Longrightarrow> res_fits k t"
  by (auto simp: cmd_calculate_def Let_def split: if_splits option.splits prod.splits
      dest!: calculate_oath_fits res_fits_steps(1) res_fits_oath_steps(1)
      intro: res_fits_append [where n = 1])

lemma res_fits_verify_hotp: "cmd_verify_hotp k a s = (r, t) \<Longrightarrow> res_fits k s \<Longrightarrow> res_fits k t"
  by (auto simp: cmd_verify_hotp_def Let_def res_fits_def [of k "s\<lparr>res_APDU := [], ne := 0\<rparr>" for s]
      split: if_splits option.splits prod.splits
      dest: calculate_oath_fits res_fits_oath_steps(1))

lemma res_fits_get_credential: "cmd_get_credential k a s = (r, t) \<Longrightarrow> res_fits k s \<Longrightarrow> res_fits k t"
  by (auto simp: cmd_get_credential_def Let_def simp del: oath_append_tags.simps
      split: if_splits option.splits prod.splits dest: res_fits_append_tags)

lemma res_fits_validate:
  assumes "md_law k" and "66 \<le> sdk_buffer_size k" and "res_APDU s = []"
    and "cmd_validate k a s = (r, t)"
  shows "res_fits k t"
proof -
  have sz: "sdk_md_size k m \<le> 64" for m
    using assms(1) by (cases m) (simp_all add: md_law_def)
  have "res_fits k s" using assms(3) by (simp add: res_fits_def)
  moreover have "res_fits k (set_ne (res_append ([x, y] @ take (sdk_md_size k m) h) (u\<lparr>validated := b\<rparr>)))"
    if "oath_decrypt_key k d s = (rc, key, u)" for x y m h b d rc key and u :: "'a oath_scheme"
    using store_step_fields(1) [OF oath_decrypt_key_step [OF that]] assms(2,3) sz [of m]
    by (simp add: res_fits_append_iff)
  ultimately show ?thesis
    using assms(4)
    by (auto simp: cmd_validate_def Let_def split: if_splits option.splits prod.splits
        dest: res_fits_oath_steps(1))
qed

lemma res_fits_check_pin:
  "oath_check_pin k ef n pin s = (m, t) \<Longrightarrow> res_fits k s \<Longrightarrow> res_fits k t"
  by (auto simp: oath_check_pin_def Let_def split: if_splits prod.splits dest!: res_fits_steps)

lemma res_fits_pin:
  "cmd_set_otp_pin k a s = (r, t) \<Longrightarrow> res_fits k s \<Longrightarrow> res_fits k t"
  "cmd_change_otp_pin k a s = (r, t) \<Longrightarrow> res_fits k s \<Longrightarrow> res_fits k t"
  "cmd_verify_otp_pin k a s = (r, t) \<Longrightarrow> res_fits k s \<Longrightarrow> res_fits k t"
  by (auto simp: cmd_set_otp_pin_def cmd_change_otp_pin_def cmd_verify_otp_pin_def Let_def
      split: if_splits option.splits prod.splits dest!: res_fits_check_pin res_fits_steps(1))

lemmas res_fits_cmds = res_fits_put res_fits_delete res_fits_set_code res_fits_reset
  res_fits_rename res_fits_cmd_list res_fits_calculate res_fits_calculate_all
  res_fits_verify_hotp res_fits_get_credential res_fits_pin

definition oath_buffer_ready :: "sdk \<Rightarrow> 'a oath_scheme \<Rightarrow> bool" where
  "oath_buffer_ready k s \<longleftrightarrow> md_law k \<and> 66 \<le> sdk_buffer_size k \<and> res_APDU s = []"

interpretation oath_bounded: applet "oath_cmds k" "oath_buffer_ready k" "\<lambda>a s r t. res_fits k t"
  for k :: sdk
proof
  fix i and h :: "apdu \<Rightarrow> 'a oath_scheme \<Rightarrow> sw \<times> 'a oath_scheme" and a s r t
  assume m: "(i, h) \<in> set (oath_cmds k)" and p: "oath_buffer_ready k s" and h: "h a s = (r, t)"
  have s: "res_fits k s" using p by (simp add: oath_buffer_ready_def res_fits_def)
  have v: "res_fits k t" if "cmd_validate k a s = (r, t)"
    using res_fits_validate [OF _ _ _ that] p by (simp add: oath_buffer_ready_def)
  show "res_fits k t"
    using m h s unfolding oath_cmds_def
    by (auto simp: cmd_send_remaining_def intro: v res_fits_cmds)
next
  fix a and s :: "'a oath_scheme"
  assume "oath_buffer_ready k s"
  then show "res_fits k s" by (simp add: oath_buffer_ready_def res_fits_def)
qed

text \<open>
  C19: Whatever the command and the stored credentials, a command of the OATH applet that starts
  with an empty response never writes past the end of the response buffer.
\<close>
theorem oath_response_bounded:
  assumes "md_law k" and "66 \<le> sdk_buffer_size k" and "res_APDU s = []"
    and "oath_process_apdu k a s = (r, t)"
  shows "length (res_APDU t) \<le> sdk_buffer_size k"
  using assms oath_bounded.run_cmd_post [of k s a r t]
  by (auto simp: oath_process_apdu_def oath_buffer_ready_def res_fits_def split: if_splits)

theorem oath_response_bounded_witness:
  "length (res_APDU (snd (oath_process_apdu ref_sdk (oath_apdu 0xa3 [0x74, 1, 7, 0x75, 1, 9])
     (ref_oath (\<lambda>_. None) True)))) \<le> 2048"
  using oath_response_bounded [OF ref_md_law, of "ref_oath (\<lambda>_. None) True"
      "oath_apdu 0xa3 [0x74, 1, 7, 0x75, 1, 9]"
      "fst (oath_process_apdu ref_sdk (oath_apdu 0xa3 [0x74, 1, 7, 0x75, 1, 9]) (ref_oath (\<lambda>_. None) True))"
      "snd (oath_process_apdu ref_sdk (oath_apdu 0xa3 [0x74, 1, 7, 0x75, 1, 9]) (ref_oath (\<lambda>_. None) True))"]
  by (simp add: ref_oath_def)

end
