(* ===== verification/Oath_Cred_Properties.thy ===== *)
theory Oath_Cred_Properties
  imports Oath_Lock
begin

text \<open>
  The credentials of the OATH applet: lookup by name, where a credential is stored, the
  moving factor of HOTP credentials, the access code, and the reset.
\<close>

subsection \<open>Lookup\<close>

definition oath_named :: "sdk \<Rightarrow> 'a oath_scheme \<Rightarrow> bytes \<Rightarrow> fid \<Rightarrow> bool" where
  "oath_named k s name f \<longleftrightarrow> is_oath_cred f \<and> file_has_data s (Some f) \<and>
     tlv_get k (file_get_data s (Some f)) TAG_NAME = Some name"

lemma oath_named_present:
  "dynamic_law k \<Longrightarrow> oath_named k s name f \<Longrightarrow> f \<in> set (present_oath_cred_fids k s)"
  by (auto simp: oath_named_def present_oath_cred_fids_set file_has_data_Some)

lemma find_oath_cred_Some:
  assumes "dynamic_law k" and "find_oath_cred k name s = Some f"
  shows "oath_named k s name f" and "oath_named k s name g \<Longrightarrow> f \<le> g"
proof -
  show "oath_named k s name f"
    using find_oath_cred_in_Some [OF assms(2) [unfolded find_oath_cred_def]]
      present_oath_cred_fids_set(1) [OF assms(1), of s] by (auto simp: oath_named_def)
  show "oath_named k s name g \<Longrightarrow> f \<le> g"
    using find_oath_cred_in_first [OF assms(2) [unfolded find_oath_cred_def]
        present_oath_cred_fids_set(2) [OF assms(1)]] oath_named_present [OF assms(1), of s name g]
    by (auto simp: oath_named_def)
qed

lemma find_oath_cred_None:
  assumes "dynamic_law k"
  shows "find_oath_cred k name s = None \<longleftrightarrow> (\<forall>f. \<not> oath_named k s name f)"
  unfolding find_oath_cred_def find_oath_cred_in_None
  using oath_named_present [OF assms, of s name] present_oath_cred_fids_set(1) [OF assms, of s]
  unfolding oath_named_def by blast

text \<open>
  Looking up a credential by name returns the lowest-numbered credential file that carries
  that name, and finds none exactly when there is none.
\<close>
theorem find_oath_cred_spec:
  assumes "dynamic_law k"
  shows "case find_oath_cred k name s of
      None \<Rightarrow> \<forall>f. \<not> oath_named k s name f
    | Some f \<Rightarrow> oath_named k s name f \<and> (\<forall>g. oath_named k s name g \<longrightarrow> f \<le> g)"
  using find_oath_cred_Some [OF assms, of name s] find_oath_cred_None [OF assms, of name s]
  by (auto split: option.splits)

definition ref_cred_files :: files where
  "ref_cred_files = [0xBA03 \<mapsto> [0x71, 1, 0x61, 0x73, 3, 0x21, 6, 9],
                     0xBA01 \<mapsto> [0x71, 1, 0x61, 0x73, 3, 0x11, 6, 9]]"

theorem find_oath_cred_spec_witness:
  "\<exists>f. find_oath_cred ref_sdk [0x61] (ref_oath ref_cred_files True) = Some f \<and> f \<le> 0xBA01"
proof -
  have "oath_named ref_sdk (ref_oath ref_cred_files True) [0x61] 0xBA01"
    by (simp add: oath_named_def is_oath_cred_iff ref_oath_def ref_cred_files_def ref_eval)
  then show ?thesis
    using find_oath_cred_spec [OF ref_dynamic_law, of "ref_oath ref_cred_files True" "[0x61]"]
    by (auto split: option.splits)
qed

subsection \<open>Where a credential is stored\<close>

lemma first_free_slot_Some:
  "first_free_slot used i n = Some j \<Longrightarrow> i \<le> j \<and> j < i + n \<and>
     EF_OATH_CRED + word_of_nat j \<notin> used \<and>
     (\<forall>m. i \<le> m \<longrightarrow> m < j \<longrightarrow> EF_OATH_CRED + word_of_nat m \<in> used)"
proof (induction used i n rule: first_free_slot.induct)
  case (1 used i)
  then show ?case by simp
next
  case (2 used i n)
  show ?case
  proof (cases "EF_OATH_CRED + word_of_nat i \<notin> used")
    case True
    with "2.prems" show ?thesis by simp
  next
    case False
    with 2 have IH: "Suc i \<le> j \<and> j < Suc i + n \<and> EF_OATH_CRED + word_of_nat j \<notin> used \<and>
        (\<forall>m. Suc i \<le> m \<longrightarrow> m < j \<longrightarrow> EF_OATH_CRED + word_of_nat m \<in> used)" by simp
    show ?thesis
    proof (intro conjI allI impI)
      fix m
      assume "i \<le> m" "m < j"
      then consider "m = i" | "Suc i \<le> m" by linarith
      then show "EF_OATH_CRED + word_of_nat m \<in> used"
        using False IH \<open>m < j\<close> by cases auto
    qed (use IH in auto)
  qed
qed

lemma is_oath_cred_slot: "i < 255 \<Longrightarrow> is_oath_cred (EF_OATH_CRED + word_of_nat i)"
proof -
  assume "i < 255"
  then have "unat (word_of_nat i :: fid) = i"
    by (simp add: unat_of_nat take_bit_eq_mod)
  then have "unat (EF_OATH_CRED + word_of_nat i) = 0xBA00 + i"
    using \<open>i < 255\<close> by (simp add: unat_word_ariths)
  then show ?thesis using \<open>i < 255\<close> by (simp add: is_oath_cred_iff word_le_nat_alt word_less_nat_alt)
qed

text \<open>A write of a credential either fails and changes nothing, or binds its own file.\<close>

lemma oath_put_credential_data_files:
  assumes "put_law k" and "oath_put_credential_data k ef d s = (r, t)"
  shows "(r \<noteq> PICOKEYS_OK \<and> files t = files s) \<or>
    (r = PICOKEYS_OK \<and> (\<exists>f d'. ef = Some f \<and> files t = (files s)(f \<mapsto> d') \<and>
       (d' = d \<or> (\<exists>key c v. tlv_get k d TAG_KEY = Some key \<and> \<not> oath_key_is_secure key \<and>
          oath_encrypt_key k key s = (PICOKEYS_OK, c, v) \<and>
          d' = fit (oath_rewrite_len k (length c) (sdk_tlv_walk k d) 0)
                 (oath_rewrite k d c (sdk_tlv_walk k d) [])))))"
proof (cases "\<exists>key. tlv_get k d TAG_KEY = Some key \<and> \<not> oath_key_is_secure key")
  case False
  then have "file_put_data k ef d s = (r, t)"
    using assms(2) by (auto simp: oath_put_credential_data_def split: option.splits)
  then show ?thesis using file_put_data_cases [OF assms(1)] by blast
next
  case True
  then obtain key where key: "tlv_get k d TAG_KEY = Some key" "\<not> oath_key_is_secure key" by blast
  obtain ret c u where e: "oath_encrypt_key k key s = (ret, c, u)" by (cases "oath_encrypt_key k key s")
  let ?n = "oath_rewrite_len k (length c) (sdk_tlv_walk k d) 0"
  obtain ok v where cl: "calloc k ?n u = (ok, v)" by (cases "calloc k ?n u")
  have fs: "files u = files s" "files v = files s"
    using oath_encrypt_key_files [OF e] calloc_files [OF cl] by simp_all
  show ?thesis
  proof (cases "ret = PICOKEYS_OK \<and> ok")
    case True
    then have p: "file_put_data k ef (fit ?n (oath_rewrite k d c (sdk_tlv_walk k d) [])) v = (r, t)"
      using assms(2) key e cl by (simp add: oath_put_credential_data_def Let_def)
    have e': "oath_encrypt_key k key s = (PICOKEYS_OK, c, u)" using e True by simp
    let ?d' = "fit ?n (oath_rewrite k d c (sdk_tlv_walk k d) [])"
    have w: "\<exists>key c v. tlv_get k d TAG_KEY = Some key \<and> \<not> oath_key_is_secure key \<and>
        oath_encrypt_key k key s = (PICOKEYS_OK, c, v) \<and>
        ?d' = fit (oath_rewrite_len k (length c) (sdk_tlv_walk k d) 0)
                (oath_rewrite k d c (sdk_tlv_walk k d) [])"
      by (rule exI [of _ key], rule exI [of _ c], rule exI [of _ u])
         (simp add: key e')
    from file_put_data_cases [OF assms(1) p] show ?thesis
    proof
      assume "r \<noteq> PICOKEYS_OK \<and> files t = files v"
      then show ?thesis using fs by simp
    next
      assume "r = PICOKEYS_OK \<and> (\<exists>f. ef = Some f \<and> files t = (files v)(f \<mapsto> ?d'))"
      then obtain f where "r = PICOKEYS_OK" "ef = Some f" "files t = (files s)(f \<mapsto> ?d')"
        using fs by auto
      then show ?thesis 
        using w by - (rule disjI2, rule conjI, assumption, rule exI [of _ f], rule exI [of _ ?d'], simp)
    qed
  next
    case False
    then show ?thesis
      using assms(2) key e cl fs by (auto simp: oath_put_credential_data_def Let_def split: if_splits)
  qed
qed

text \<open>The file a credential of a given name is written to.\<close>

definition oath_target :: "sdk \<Rightarrow> 'a oath_scheme \<Rightarrow> bytes \<Rightarrow> fid \<Rightarrow> bool" where
  "oath_target k s name f \<longleftrightarrow>
     (if \<exists>g. oath_named k s name g then find_oath_cred k name s = Some f
      else is_oath_cred f \<and> files s f = None \<and> (\<forall>g. is_oath_cred g \<and> g < f \<longrightarrow> files s g \<noteq> None))"

lemma oath_slot_lower:
  assumes "is_oath_cred g" and "g < EF_OATH_CRED + word_of_nat i" and "i < 255"
  shows "\<exists>m < i. g = EF_OATH_CRED + word_of_nat m"
proof -
  have i: "unat (EF_OATH_CRED + word_of_nat i) = 0xBA00 + i"
    using assms(3) by (simp add: unat_word_ariths unat_of_nat take_bit_eq_mod)
  have g: "0xBA00 \<le> unat g" using assms(1) by (simp add: is_oath_cred_iff word_le_nat_alt)
  have "unat g - 0xBA00 < i" using assms(2) i g by (simp add: word_less_nat_alt)
  moreover have "g = EF_OATH_CRED + word_of_nat (unat g - 0xBA00)"
    using g by (simp add: of_nat_diff)
  ultimately show ?thesis by blast
qed

lemma oath_store_credential_ok:
  assumes fl: "flash_laws k" and dy: "dynamic_law k"
    and st: "oath_store_credential k name d s = (SW_OK, t)"
  shows "\<exists>f d'. oath_target k s name f \<and> files t = (files s)(f \<mapsto> d')"
proof (cases "find_oath_cred k name s")
  case (Some f)
  have hd: "file_has_data s (Some f)" using find_oath_cred_data [OF Some] .
  obtain u where u: "oath_put_credential_data k (Some f) d s = (PICOKEYS_OK, u)" "t = flash_commit u"
    using st Some hd by (auto simp: oath_store_credential_def split: prod.splits if_splits)
  have "oath_target k s name f"
    using Some find_oath_cred_Some(1) [OF dy Some] by (auto simp: oath_target_def)
  then show ?thesis
    using oath_put_credential_data_files [of k "Some f" d s PICOKEYS_OK u] u fl
    by (auto simp: flash_laws_def)
next
  case None
  let ?used = "set (present_oath_cred_fids k s)"
  obtain i where i: "first_free_slot ?used 0 MAX_OATH_CRED = Some i"
    using st None by (auto simp: oath_store_credential_def split: option.splits)
  let ?f = "EF_OATH_CRED + word_of_nat i"
  obtain p u where u: "file_new k ?f s = (p, u)" by (cases "file_new k ?f s")
  obtain v where v: "p \<noteq> None" "oath_put_credential_data k p d u = (PICOKEYS_OK, v)" "t = flash_commit v"
    using st None i u by (auto simp: oath_store_credential_def split: prod.splits if_splits)
  note slot = first_free_slot_Some [OF i, simplified]
  have cred: "is_oath_cred ?f" using slot is_oath_cred_slot by simp
  have used: "?used = {f \<in> dom (files s). is_oath_cred f}"
    by (rule present_oath_cred_fids_set [OF dy])
  have free: "files s ?f = None" using slot cred by (auto simp: used)
  have low: "files s g \<noteq> None" if "is_oath_cred g" "g < ?f" for g
    using oath_slot_lower [OF that] slot by (auto simp: used)
  have p: "p = Some ?f" "files u = (files s)(?f \<mapsto> [])"
    using file_new_cases [of k ?f s p u] u v(1) fl free by (auto simp: flash_laws_def)
  have "oath_target k s name ?f"
    using None find_oath_cred_None [OF dy] cred free low by (auto simp: oath_target_def)
  then show ?thesis
    using oath_put_credential_data_files [of k p d u PICOKEYS_OK v] v p fl
    by (auto simp: flash_laws_def)
qed

text \<open>
  A credential that is stored successfully goes to the file that already carries its name
  (the lowest-numbered one), or else to the lowest-numbered free slot, and no other file of
  the device changes.
\<close>
theorem oath_store_credential_target:
  assumes "flash_laws k" and "dynamic_law k"
    and "oath_store_credential k name d s = (SW_OK, t)"
  shows "\<exists>f. oath_target k s name f \<and> is_oath_cred f \<and> (\<forall>g. g \<noteq> f \<longrightarrow> files t g = files s g)"
proof -
  obtain f d' where f: "oath_target k s name f" "files t = (files s)(f \<mapsto> d')"
    using oath_store_credential_ok [OF assms] by blast
  have "is_oath_cred f"
    using f(1) find_oath_cred_Some(1) [OF assms(2), of name s f]
    by (auto simp: oath_target_def oath_named_def split: if_splits)
  with f show ?thesis by auto
qed

theorem oath_store_credential_target_witness:
  "\<exists>f t. oath_store_credential ref_sdk [0x61] [0x71, 1, 0x61, 0x73, 3, 0x21, 6, 7]
           (ref_oath ref_cred_files True) = (SW_OK, t) \<and>
     (\<forall>g. g \<noteq> f \<longrightarrow> files t g = ref_cred_files g)"
proof -
  let ?s = "ref_oath ref_cred_files True" and ?d = "[0x71, 1, 0x61, 0x73, 3, 0x21, 6, 7] :: bytes"
  let ?x = "oath_store_credential ref_sdk [0x61] ?d ?s"
  have nm: "oath_named ref_sdk ?s [0x61] 0xBA01"
    by (simp add: oath_named_def is_oath_cred_iff ref_oath_def ref_cred_files_def ref_eval)
  obtain f where f: "find_oath_cred ref_sdk [0x61] ?s = Some f"
    using nm find_oath_cred_None [OF ref_dynamic_law, of "[0x61]" ?s]
    by (cases "find_oath_cred ref_sdk [0x61] ?s") auto
  have "file_has_data ?s (Some f)" using find_oath_cred_data [OF f] .
  then have "fst ?x = SW_OK"
    by (simp add: oath_store_credential_def f oath_put_credential_data_def oath_encrypt_key_def
        oath_derive_key_def oath_key_is_secure_def oath_secure_key_magic_def ref_eval
        ref_len_tag_def ref_format_len_def tlv_append_def)
  then have x: "?x = (SW_OK, snd ?x)" by (simp add: prod_eq_iff)
  then show ?thesis
    using oath_store_credential_target [OF ref_flash_laws ref_dynamic_law x]
    by (force simp: ref_oath_def)
qed

end
