(* ===== verification/Oath_Otp_Properties.thy ===== *)
theory Oath_Otp_Properties
  imports Oath_Cred_Properties
begin

text \<open>
  One-time passwords and the access code of the OATH applet: the moving factor of HOTP
  credentials when it is stored and when it advances, the truncation of the HMAC, and the
  round trip of the access code through storage; then the factory reset.
\<close>

subsection \<open>The moving factor\<close>

text \<open>
  Storing an HOTP credential whose moving factor is given in fewer than eight bytes widens
  it in place to eight bytes with the same value (leading zeros), corrects its length byte and
  leaves everything before and after it as it was.
\<close>
theorem hotp_pad_imf_value:
  assumes "tlv_law k" and "sdk_tlv_find k d TAG_IMF = Some (off, len)" and "len < 8"
  shows "slice (hotp_pad_imf k d) (off, 8) = replicate (8 - len) 0 @ slice d (off, len) \<and>
    hotp_pad_imf k d ! (off - 1) = 8 \<and>
    take (off - 1) (hotp_pad_imf k d) = take (off - 1) d \<and>
    drop (off + 8) (hotp_pad_imf k d) = drop (off + len) d"
proof -
  have b: "2 \<le> off" "off + len \<le> length d" using assms(1,2) unfolding tlv_law_def by blast+
  have p: "hotp_pad_imf k d = (take (off - 1) d @ [8]) @ replicate (8 - len) 0 @ drop off d"
    using assms(2,3) by (simp add: hotp_pad_imf_def Let_def)
  have l: "length (take (off - 1) d @ [8]) = off" using b by simp
  have dr: "drop off (hotp_pad_imf k d) = replicate (8 - len) 0 @ drop off d"
    unfolding p using l by (metis append_eq_conv_conj)
  have "drop (off + 8) (hotp_pad_imf k d) = drop 8 (drop off (hotp_pad_imf k d))"
    by (simp add: add.commute)
  then have "drop (off + 8) (hotp_pad_imf k d) = drop (off + len) d"
    unfolding dr using assms(3) by (simp add: add.commute)
  moreover have "slice (hotp_pad_imf k d) (off, 8) = replicate (8 - len) 0 @ slice d (off, len)"
    using assms(3) by (simp add: dr)
  moreover have "hotp_pad_imf k d ! (off - 1) = 8"
    unfolding p using b by (simp add: nth_append)
  moreover have "take (off - 1) (hotp_pad_imf k d) = take (off - 1) d"
    unfolding p using b by simp
  ultimately show ?thesis by simp
qed

theorem hotp_pad_imf_value_witness:
  "slice (hotp_pad_imf ref_sdk [0x73, 2, 0x11, 6, 0x7a, 2, 1, 2, 0x78, 1, 2]) (6, 8) = [0, 0, 0, 0, 0, 0, 1, 2]"
proof -
  let ?d = "[0x73, 2, 0x11, 6, 0x7a, 2, 1, 2, 0x78, 1, 2] :: bytes"
  have "sdk_tlv_find ref_sdk ?d TAG_IMF = Some (6, 2)" by (simp add: ref_eval)
  from hotp_pad_imf_value [OF ref_tlv_law this] show ?thesis
    by (simp add: numeral_eq_Suc)
qed

lemma hotp_advance_value:
  assumes "u64_law k" and "off + 8 \<le> length d"
  shows "length (hotp_advance k d (off, len)) = length d"
    and "sdk_get_u64 k (drop off (hotp_advance k d (off, len))) = sdk_get_u64 k (drop off d) + 1"
    and "take off (hotp_advance k d (off, len)) = take off d"
    and "drop (off + 8) (hotp_advance k d (off, len)) = drop (off + 8) d"
proof -
  let ?v = "sdk_put_u64 k (sdk_get_u64 k (drop off d) + 1)"
  have l: "length ?v = 8" using assms(1) by (simp add: u64_law_def)
  have h: "hotp_advance k d (off, len) = take off d @ ?v @ drop (off + 8) d"
    using assms(2) l by (simp add: hotp_advance_def Let_def)
  show "length (hotp_advance k d (off, len)) = length d" using assms(2) by (simp add: h l)
  show "sdk_get_u64 k (drop off (hotp_advance k d (off, len))) = sdk_get_u64 k (drop off d) + 1"
    using assms by (simp add: h u64_law_def)
  show "take off (hotp_advance k d (off, len)) = take off d" using assms(2) by (simp add: h)
  show "drop (off + 8) (hotp_advance k d (off, len)) = drop (off + 8) d"
    using assms(2) l by (simp add: h)
qed

lemma calculate_oath_files: "calculate_oath k p key chal s = (r, t) \<Longrightarrow> files t = files s"
  by (auto simp: calculate_oath_def Let_def res_append_def set_ne_def split: if_splits option.splits prod.splits)

lemma cmd_calculate_files:
  fixes s t u :: "'a oath_scheme"
  assumes c: "cmd_calculate k a s = (SW_OK, t)"
    and n: "tlv_get k (nc_data a) TAG_NAME = Some name" and f: "find_oath_cred k name s = Some f"
    and d: "files s f = Some d" and kk: "tlv_get k d TAG_KEY = Some stored"
    and dk: "oath_decrypt_key k stored s = (PICOKEYS_OK, key, u)"
  shows "if is_hotp_key key
    then \<exists>imf (v :: 'a oath_scheme) (w :: 'a oath_scheme) r. sdk_tlv_find k d TAG_IMF = Some imf \<and> files v = files s \<and>
      file_put_data k (Some f) (hotp_advance k d imf) v = (r, w) \<and> files t = files w
    else files t = files s"
proof -
  have fd: "file_get_data s (Some f) = d" using d by (simp add: file_reads)
  have fu: "files u = files s" using oath_decrypt_key_files [OF dk] .
  have fr: "files (res_append x v) = files v" "files (set_ne v) = files v" for x and v :: "'a oath_scheme"
    by (simp_all add: res_append_def set_ne_def)
  show ?thesis
    using c n f kk dk
    by (auto simp: cmd_calculate_def Let_def fd fr fu split: if_splits option.splits prod.splits
        dest!: calculate_oath_files) blast+
qed

text \<open>
  C22: Computing a one-time password with an HOTP credential advances its stored counter by one
  (modulo two to the 64), changes nothing else in the record and no other file; with a TOTP
  credential, whose record needs no counter, it changes no file.
\<close>
theorem cmd_calculate_counter:
  fixes s t u :: "'a oath_scheme"
  assumes "put_law k" and "u64_law k" and "accepts k f"
    and "cmd_calculate k a s = (SW_OK, t)"
    and "tlv_get k (nc_data a) TAG_NAME = Some name" and "find_oath_cred k name s = Some f"
    and "files s f = Some d" and "length d \<le> 1024" and "tlv_get k d TAG_KEY = Some stored"
    and "oath_decrypt_key k stored s = (PICOKEYS_OK, key, u)"
    and "is_hotp_key key \<longrightarrow> (\<exists>len. sdk_tlv_find k d TAG_IMF = Some (off, len)) \<and> off + 8 \<le> length d"
  shows "if is_hotp_key key
    then \<exists>d'. files t = (files s)(f \<mapsto> d') \<and> length d' = length d \<and>
      take off d' = take off d \<and> drop (off + 8) d' = drop (off + 8) d \<and>
      sdk_get_u64 k (drop off d') = sdk_get_u64 k (drop off d) + 1
    else files t = files s"
proof (cases "is_hotp_key key")
  case False
  then show ?thesis using cmd_calculate_files [OF assms(4-7,9,10)] by simp
next
  case True
  then obtain len where imf: "sdk_tlv_find k d TAG_IMF = Some (off, len)" "off + 8 \<le> length d" using assms(11) by blast
  then obtain v w :: "'a oath_scheme" and r where v: "files v = files s" "files t = files w"
    and p: "file_put_data k (Some f) (hotp_advance k d (off, len)) v = (r, w)"
    using cmd_calculate_files [OF assms(4-7,9,10)] True by auto
  note adv = hotp_advance_value [OF assms(2) imf(2), of len]
  have "files w = (files v)(f \<mapsto> hotp_advance k d (off, len))"
    using accepts_put [OF assms(1,3) _ p] assms(8) adv(1) by simp
  with v adv True show ?thesis by auto
qed

definition ref_hotp_record :: bytes where
  "ref_hotp_record = [0x71, 1, 0x61, 0x73, 4, 0x11, 6, 9, 9, 0x7a, 8, 0, 0, 0, 0, 0, 0, 0, 41]"

text \<open>The only credential of a device, at the lowest identifier.\<close>

lemma ref_single_cred:
  assumes "files s = [0xBA00 \<mapsto> d]" and "d \<noteq> []" and "tlv_get ref_sdk d TAG_NAME = Some name"
  shows "find_oath_cred ref_sdk name s = Some 0xBA00"
proof -
  have nm: "oath_named ref_sdk s name 0xBA00"
    using assms by (simp add: oath_named_def is_oath_cred_iff file_reads)
  then obtain f where f: "find_oath_cred ref_sdk name s = Some f"
    using find_oath_cred_None [OF ref_dynamic_law, of name s]
    by (cases "find_oath_cred ref_sdk name s") auto
  have "files s f \<noteq> None"
    using find_oath_cred_data [OF f] by (auto simp: file_reads split: option.splits)
  then have "f = 0xBA00" using assms(1) by (auto split: if_splits)
  with f show ?thesis by simp
qed

theorem cmd_calculate_counter_witness:
  "\<exists>t d'. cmd_calculate ref_sdk (oath_apdu 0xa2 [0x71, 1, 0x61, 0x74, 1, 5])
          (ref_oath [0xBA00 \<mapsto> ref_hotp_record] True) = (SW_OK, t) \<and>
     files t = [0xBA00 \<mapsto> d'] \<and> sdk_get_u64 ref_sdk (drop 11 d') = 42"
proof -
  let ?a = "oath_apdu 0xa2 [0x71, 1, 0x61, 0x74, 1, 5]"
  let ?s = "ref_oath [0xBA00 \<mapsto> ref_hotp_record] True"
  let ?x = "cmd_calculate ref_sdk ?a ?s"
  have tlv: "tlv_get ref_sdk (nc_data ?a) TAG_NAME = Some [0x61]"
    "tlv_get ref_sdk (nc_data ?a) TAG_CHALLENGE = Some [5]"
    "tlv_get ref_sdk ref_hotp_record TAG_NAME = Some [0x61]"
    "tlv_get ref_sdk ref_hotp_record TAG_KEY = Some [0x11, 6, 9, 9]"
    "sdk_tlv_find ref_sdk ref_hotp_record TAG_IMF = Some (11, 8)"
    by (simp_all add: oath_apdu_def ref_hotp_record_def ref_eval)
  have len: "length ref_hotp_record = 19" "ref_hotp_record \<noteq> []"
    by (simp_all add: ref_hotp_record_def)
  have fs: "files ?s = [0xBA00 \<mapsto> ref_hotp_record]" by (simp add: ref_oath_def)
  have f: "find_oath_cred ref_sdk [0x61] ?s = Some 0xBA00"
    by (rule ref_single_cred [OF fs len(2) tlv(3)])
  have dk: "oath_decrypt_key ref_sdk [0x11, 6, 9, 9] ?s = (PICOKEYS_OK, [0x11, 6, 9, 9], ?s\<lparr>tick := Suc (tick ?s)\<rparr>)"
    by (rule oath_decrypt_plain) (simp_all add: oath_key_is_secure_def)
  have hd: "file_has_data ?s (Some 0xBA00)" "file_get_data ?s (Some 0xBA00) = ref_hotp_record"
    using fs len(2) by (simp_all add: file_reads)
  have "length (hotp_advance ref_sdk ref_hotp_record (11, 8)) = 19"
    by (simp add: hotp_advance_def Let_def len)
  then have ok: "fst ?x = SW_OK"
    using tlv f dk hd
    by (simp add: cmd_calculate_def Let_def oath_apdu_def is_hotp_key_def ref_oath_def
        oath_response_has_room_def calculate_oath_def get_oath_md_info_def ref_md_size_def
        res_append_def set_ne_def file_put_data_def ref_put_def)
  then have x: "?x = (SW_OK, snd ?x)" by (simp add: prod_eq_iff)
  have acc: "accepts ref_sdk 0xBA00" by (simp add: accepts_def ref_put_def)
  have fs': "files ?s 0xBA00 = Some ref_hotp_record" by (simp add: fs)
  have "is_hotp_key [0x11, 6, 9, 9]" by (simp add: is_hotp_key_def)
  moreover have "sdk_get_u64 ref_sdk (drop 11 ref_hotp_record) = 41"
    by (simp add: ref_hotp_record_def ref_get_be_def fit_def)
  ultimately obtain d' where "files (snd ?x) = (files ?s)(0xBA00 \<mapsto> d')"
    "sdk_get_u64 ref_sdk (drop 11 d') = 41 + 1"
    using cmd_calculate_counter [OF ref_put_law ref_u64_law acc x tlv(1) f fs' _ tlv(4) dk, of 11] tlv(5) len
    by auto
  with fs x show ?thesis by (intro exI [of _ "snd ?x"] exI [of _ d']) simp
qed

subsection \<open>The truncated code\<close>

text \<open>The big-endian value of four bytes.\<close>

definition be32 :: "bytes \<Rightarrow> nat" where
  "be32 d = unat (d ! 0) * 2 ^ 24 + unat (d ! 1) * 2 ^ 16 + unat (d ! 2) * 2 ^ 8 + unat (d ! 3)"

lemma unat_and_7f: "unat ((b :: byte) AND 0x7f) = unat b mod 128"
proof -
  have b: "b AND 0x7f = take_bit 7 b" by (simp add: take_bit_eq_mask mask_eq_exp_minus_1)
  show ?thesis unfolding b by (simp only: unsigned_take_bit_eq) (simp add: take_bit_eq_mod)
qed

lemma be32_mod: "be32 [a, b, c, d] mod 2 ^ 31 = be32 [a AND 0x7f, b, c, d]"
proof -
  have b: "unat b < 256" "unat c < 256" "unat d < 256" using unat_byte_less by blast+
  have "unat a = unat a mod 128 + 128 * (unat a div 128)" by (simp add: mod_mult_div_eq)
  then have "unat a * 16777216 = unat a mod 128 * 16777216 + unat a div 128 * 2147483648" by linarith
  then have e: "be32 [a, b, c, d] = be32 [a AND 0x7f, b, c, d] + unat a div 128 * 2 ^ 31"
    by (simp add: be32_def unat_and_7f)
  have "unat (a AND 0x7f) < 128" by (simp add: unat_and_7f)
  then have "be32 [a AND 0x7f, b, c, d] < 2 ^ 31" using b by (simp add: be32_def)
  then show ?thesis by (simp add: e)
qed

lemma truncate_offset: "unat ((b :: byte) AND 0x0f) \<le> 15"
  using unat_and_le [of b "0x0f"] by simp

text \<open>
  A truncated calculation appends exactly six bytes: the length five, the number of digits
  and four bytes that are the dynamic truncation of the HMAC, the 31-bit value read at the offset
  given by the low nibble of its last byte; that offset always leaves four bytes in the digest.
\<close>
theorem calculate_oath_truncated:
  assumes "md_law k" and "calculate_oath k 1 key chal s = (PICOKEYS_OK, t)"
  shows "\<exists>md hmac off. get_oath_md_info (key ! 0) = Some md \<and>
    sdk_hmac k md (drop 2 key) chal = (0, hmac) \<and> off = unat (last hmac AND 0x0f) \<and>
    off + 3 < length hmac \<and>
    (\<exists>code. res_APDU t = res_APDU s @ [5, key ! 1] @ code \<and> length code = 4 \<and>
       be32 code = be32 (slice hmac (off, 4)) mod 2 ^ 31) \<and> ne t = length (res_APDU t)"
proof -
  obtain md hmac where md: "get_oath_md_info (key ! 0) = Some md"
    and h: "sdk_hmac k md (drop 2 key) chal = (0, hmac)"
    and t: "t = set_ne (res_append ([5, key ! 1] @ oath_truncate (take (sdk_md_size k md) hmac)) s)"
    using assms(2) by (auto simp: calculate_oath_def Let_def split: if_splits option.splits prod.splits)
  have l: "length hmac = sdk_md_size k md" using assms(1) h unfolding md_law_def by (metis snd_conv)
  then have ge: "20 \<le> length hmac" using assms(1) by (cases md) (simp_all add: md_law_def)
  let ?off = "unat (last hmac AND 0x0f)"
  have off: "?off + 3 < length hmac" using truncate_offset [of "last hmac"] ge by linarith
  have sl: "slice hmac (?off, 4) = [hmac ! ?off, hmac ! (?off + 1), hmac ! (?off + 2), hmac ! (?off + 3)]"
    using off by (simp add: numeral_eq_Suc take_Suc_conv_app_nth)
  have la: "hmac ! (length hmac - 1) = last hmac" using ge by (cases hmac rule: rev_cases) auto
  have tr: "oath_truncate (take (sdk_md_size k md) hmac) =
    [hmac ! ?off AND 0x7f, hmac ! (?off + 1), hmac ! (?off + 2), hmac ! (?off + 3)]"
    using la by (simp add: oath_truncate_def Let_def l [symmetric])
  show ?thesis
    by (intro exI [of _ md] exI [of _ hmac] exI [of _ ?off] conjI refl md h off
        exI [of _ "oath_truncate (take (sdk_md_size k md) hmac)"])
       (simp_all only: t tr sl be32_mod, simp_all add: res_append_def set_ne_def)
qed

theorem calculate_oath_truncated_witness:
  "\<exists>t. calculate_oath ref_sdk 1 (0x11 # 6 # replicate 20 0xa5) [5] (ref_oath Map.empty True) = (PICOKEYS_OK, t) \<and>
    (\<exists>code. res_APDU t = [5, 6] @ code \<and> be32 code = 0x25a5a5a5)"
proof -
  let ?key = "(0x11 # 6 # replicate 20 0xa5) :: bytes"
  have "fst (calculate_oath ref_sdk 1 ?key [5] (ref_oath Map.empty True)) = PICOKEYS_OK"
    by (simp add: calculate_oath_def get_oath_md_info_def oath_response_has_room_def ref_oath_def ref_eval)
  then obtain t where t: "calculate_oath ref_sdk 1 ?key [5] (ref_oath Map.empty True) = (PICOKEYS_OK, t)"
    by (metis prod.collapse)
  have md: "get_oath_md_info (?key ! 0) = Some MD_SHA1" by (simp add: get_oath_md_info_def)
  have h: "sdk_hmac ref_sdk MD_SHA1 (drop 2 ?key) [5] = (0, replicate 20 0xa5)"
    by (simp add: ref_md_size_def fit_def)
  have sl: "slice (replicate 20 0xa5) (unat (last (replicate 20 (0xa5 :: byte)) AND 0x0f), 4) = [0xa5, 0xa5, 0xa5, 0xa5]"
    by (simp, simp add: numeral_eq_Suc)
  from calculate_oath_truncated [OF ref_md_law t] md h obtain code where
    "res_APDU t = res_APDU (ref_oath Map.empty True) @ [5, ?key ! 1] @ code"
    "be32 code = be32 (slice (replicate 20 0xa5) (unat (last (replicate 20 (0xa5 :: byte)) AND 0x0f), 4)) mod 2 ^ 31"
    by auto
  then have "res_APDU t = [5, 6] @ code" "be32 code = 0x25a5a5a5"
    unfolding sl by (simp_all add: ref_oath_def be32_def)
  with t show ?thesis by blast
qed

subsection \<open>The access code\<close>

lemma oath_put_code_key_stored:
  fixes s t :: "'a oath_scheme"
  assumes "put_law k" and "oath_put_code_key k (Some f) key s = (PICOKEYS_OK, t)"
    and "\<not> oath_key_is_secure key"
  shows "\<exists>c (t0 :: 'a oath_scheme) t1. oath_encrypt_key k key t0 = (PICOKEYS_OK, c, t1) \<and> files t f = Some c"
  using assms(2,3)
  by (auto simp: oath_put_code_key_def split: prod.splits if_splits
      dest!: file_put_data_ok [OF assms(1)]) blast

lemma cmd_set_code_ok:
  fixes s t :: "'a oath_scheme"
  assumes c: "cmd_set_code k a s = (SW_OK, t)" and ke: "tlv_get k (nc_data a) TAG_KEY = Some key"
    and ln: "2 \<le> length key" and nz: "nc a \<noteq> 0"
  shows "\<exists>(u :: 'a oath_scheme) v w md. get_oath_md_info (key ! 0) = Some md \<and>
    length key \<le> OATH_ACCESS_CODE_MAX_LEN \<and>
    file_new k EF_OATH_CODE u = (w, v) \<and>
    (\<exists>x. oath_put_code_key k w key v = (PICOKEYS_OK, x) \<and> files t = files x) \<and> \<not> validated t"
proof -
  have ne: "key \<noteq> []" "length key \<noteq> 1" "length key \<noteq> Suc 0" using ln by auto
  show ?thesis
    using c ke nz ne
    by (auto simp: cmd_set_code_def Let_def split: if_splits option.splits prod.splits) blast
qed

lemma oath_put_code_key_None: "put_law k \<Longrightarrow> oath_put_code_key k None key s \<noteq> (PICOKEYS_OK, t)"
  using file_put_data_ok [of k None _ _ t]
  by (auto simp: oath_put_code_key_def split: prod.splits if_splits)

lemma get_oath_md_info_last: "get_oath_md_info b = Some md \<Longrightarrow> md = MD_SHA1 \<or> md = MD_SHA256 \<or> md = MD_SHA512"
  by (auto simp: get_oath_md_info_def split: if_splits)

text \<open>
  An access code that was set locks the applet, and from then on, in any state with the
  same stored code, validation succeeds exactly when the response is the HMAC of the current
  challenge under the key that was set; the lock opens on no other answer.
\<close>
theorem access_code_round_trip:
  fixes s t :: "'a oath_scheme" and u v :: "'b oath_scheme"
  assumes "put_law k" and "new_law k" and "aead_law k" and "md_law k"
    and hm: "\<forall>m key d. fst (sdk_hmac k m key d) = 0"
    and set: "cmd_set_code k a s = (SW_OK, t)" and ke: "tlv_get k (nc_data a) TAG_KEY = Some key"
    and ln: "2 \<le> length key" and nz: "nc a \<noteq> 0" and ns: "\<not> oath_key_is_secure key"
    and same: "files u EF_OATH_CODE = files t EF_OATH_CODE"
    and room: "sdk_calloc k (tick u) (length key)"
    and ch: "tlv_get k (nc_data b) TAG_CHALLENGE = Some chal"
    and rs: "tlv_get k (nc_data b) TAG_RESPONSE = Some resp"
    and val: "cmd_validate k b u = (r, v)"
  shows "\<exists>md. get_oath_md_info (key ! 0) = Some md \<and> \<not> validated t \<and>
    (r = SW_OK \<longleftrightarrow> resp = snd (sdk_hmac k md (tl key) (challenge u))) \<and>
    (validated v \<longleftrightarrow> validated u \<or> r = SW_OK)"
proof -
  obtain md u0 v0 w x where md: "get_oath_md_info (key ! 0) = Some md"
    and lk: "length key \<le> OATH_ACCESS_CODE_MAX_LEN"
    and n: "file_new k EF_OATH_CODE (u0 :: 'a oath_scheme) = (w, v0)"
    and p: "oath_put_code_key k w key v0 = (PICOKEYS_OK, x)" "files t = files x" and nv: "\<not> validated t"
    using cmd_set_code_ok [OF set ke ln nz] by blast
  have "w = Some EF_OATH_CODE"
    using file_new_cases [OF assms(2) n] p(1) oath_put_code_key_None [OF assms(1)] by auto
  with oath_put_code_key_stored [OF assms(1) _ ns] p obtain c t0 t1
    where e: "oath_encrypt_key k key (t0 :: 'a oath_scheme) = (PICOKEYS_OK, c, t1)"
    and fc: "files t EF_OATH_CODE = Some c" by metis
  have kn: "key \<noteq> []" using ln by auto
  obtain u' where d: "oath_decrypt_key k c u = (PICOKEYS_OK, key, u')"
    using oath_decrypt_encrypt [OF assms(3) e kn room] by blast
  have cn: "c \<noteq> []" using oath_encrypt_key_secure [OF assms(3) e kn] by (auto simp: oath_key_is_secure_def)
  have u': "challenge u' = challenge u" "validated u' = validated u"
    using oath_decrypt_key_step [OF d] by (auto simp: store_step_def)
  obtain h where h: "sdk_hmac k md (tl key) (challenge u) = (0, h)" using hm by (metis prod.collapse)
  obtain h2 where h2: "sdk_hmac k md (tl key) chal = (0, h2)" using hm by (metis prod.collapse)
  have l: "length h = sdk_md_size k md" using assms(4) h unfolding md_law_def by (metis snd_conv)
  have eq: "length resp \<noteq> length h \<or> take (length resp) h \<noteq> resp \<longleftrightarrow> resp \<noteq> h" by auto
  let ?v = "set_ne (res_append ([TAG_RESPONSE, word_of_nat (length h)] @ take (length h) h2) (u'\<lparr>validated := True\<rparr>))"
  have "cmd_validate k b u =
    (if length resp \<noteq> length h \<or> take (length resp) h \<noteq> resp then (SW_DATA_INVALID, u') else (SW_OK, ?v))"
    using lk ln cn by (simp add: cmd_validate_def Let_def ch rs same fc d u' h h2 md l)
  then have x: "(r, v) = (if resp \<noteq> h then (SW_DATA_INVALID, u') else (SW_OK, ?v))"
    unfolding eq val .
  have "(r = SW_OK \<longleftrightarrow> resp = h) \<and> (validated v \<longleftrightarrow> validated u \<or> r = SW_OK)"
  proof (cases "resp = h")
    case True
    with x have "r = SW_OK" "v = ?v" by simp_all
    with True show ?thesis by (simp add: set_ne_def res_append_def)
  next
    case False
    with x have "r = SW_DATA_INVALID" "v = u'" by simp_all
    with False show ?thesis by (simp add: u')
  qed
  with md nv h show ?thesis by simp
qed

theorem access_code_round_trip_witness:
  "\<exists>t v. cmd_set_code ref_sdk (oath_apdu 3 ([0x73, 2, 1, 9, 0x74, 1, 7, 0x75, 20] @ [9, 7, 0, 0, 0, 0, 0, 0, 0, 0, 0, 0, 0, 0, 0, 0, 0, 0, 0, 0]))
         (ref_oath Map.empty True) = (SW_OK, t) \<and> \<not> validated t \<and>
     cmd_validate ref_sdk (oath_apdu 0xa3 ([0x74, 1, 5, 0x75, 20] @ [9, 0, 0, 0, 0, 0, 0, 0, 0, 0, 0, 0, 0, 0, 0, 0, 0, 0, 0, 0])) t = (SW_OK, v) \<and>
     validated v"
proof -
  define a where "a = oath_apdu 3 ([0x73, 2, 1, 9, 0x74, 1, 7, 0x75, 20] @ [9, 7, 0, 0, 0, 0, 0, 0, 0, 0, 0, 0, 0, 0, 0, 0, 0, 0, 0, 0])"
  define h where "h = [9, 7, 0, 0, 0, 0, 0, 0, 0, 0, 0, 0, 0, 0, 0, 0, 0, 0, 0, 0 :: byte]"
  let ?x = "cmd_set_code ref_sdk a (ref_oath Map.empty True)"
  have tlv: "tlv_get ref_sdk (nc_data a) TAG_KEY = Some [1, 9]"
    "tlv_get ref_sdk (nc_data a) TAG_CHALLENGE = Some [7]"
    "tlv_get ref_sdk (nc_data a) TAG_RESPONSE = Some h"
    by (simp_all add: a_def h_def oath_apdu_def ref_eval)
  have nz: "nc_data a \<noteq> []" by (simp add: a_def oath_apdu_def)
  have ns: "\<not> oath_key_is_secure [1, 9]" by (simp add: oath_key_is_secure_def)
  have hm: "fit 20 [9, 7] = h" "length h = 20"
    by (simp_all add: h_def fit_def numeral_eq_Suc)
  have "fst ?x = SW_OK \<and> challenge (snd ?x) = replicate 8 0"
    by (simp add: cmd_set_code_def tlv nz hm get_oath_md_info_def ref_oath_def oath_put_code_key_def ns
        oath_encrypt_key_def oath_derive_key_def Let_def ref_md_size_def ref_new_def ref_put_def
        plat_ops)
  then obtain t where t: "?x = (SW_OK, t)" and c: "challenge t = replicate 8 0"
    by (metis prod.collapse)
  let ?b = "oath_apdu 0xa3 ([0x74, 1, 5, 0x75, 20] @ [9, 0, 0, 0, 0, 0, 0, 0, 0, 0, 0, 0, 0, 0, 0, 0, 0, 0, 0, 0])"
  have tb: "tlv_get ref_sdk (nc_data ?b) TAG_CHALLENGE = Some [5]"
    "tlv_get ref_sdk (nc_data ?b) TAG_RESPONSE = Some [9, 0, 0, 0, 0, 0, 0, 0, 0, 0, 0, 0, 0, 0, 0, 0, 0, 0, 0, 0]"
    by (simp_all add: oath_apdu_def ref_eval)
  obtain r v where v: "cmd_validate ref_sdk ?b t = (r, v)" by fastforce
  have "\<forall>m key d. fst (sdk_hmac ref_sdk m key d) = 0" by simp
  from access_code_round_trip [OF ref_put_law ref_new_law ref_aead_law ref_md_law this t tlv(1) _ _ ns
      refl _ tb v]
  obtain md where "get_oath_md_info 1 = Some md" "\<not> validated t"
    "r = SW_OK \<longleftrightarrow> [9, 0, 0, 0, 0, 0, 0, 0, 0, 0, 0, 0, 0, 0, 0, 0, 0, 0, 0, 0] = snd (sdk_hmac ref_sdk md [9] (challenge t))"
    "validated v \<longleftrightarrow> validated t \<or> r = SW_OK" using nz by auto
  then have "r = SW_OK \<and> validated v \<and> \<not> validated t"
    by (auto simp: get_oath_md_info_def ref_md_size_def c fit_def numeral_eq_Suc)
  with t v show ?thesis unfolding a_def by blast
qed

subsection \<open>The factory reset of the applet\<close>

lemma file_delete_no_commit_None:
  assumes "delete_law k"
  shows "files (snd (file_delete_no_commit k None s)) = files s"
  using file_delete_no_commit_cases [OF assms, of None s _ "snd (file_delete_no_commit k None s)", OF surjective_pairing]
  by auto

lemma oath_delete_present_files:
  assumes "delete_law k" and "deletes k"
  shows "files (oath_delete_present k fs s) g =
    (if g \<in> set fs \<and> file_has_data s (Some g) then None else files s g)"
  using assms
proof (induction k fs s rule: oath_delete_present.induct)
  case (1 k s)
  then show ?case by simp
next
  case (2 k f fs s)
  note IH = "2.IH" [OF refl "2.prems"]
  let ?t = "snd (file_delete_no_commit k (Some f) s)"
  show ?case
  proof (cases "file_has_data s (Some f)")
    case True
    then have f: "files s f \<noteq> None" by (auto simp: file_has_data_Some)
    have t: "files ?t = (files s)(f := None)" by (rule file_delete_no_commit_gone [OF "2.prems" f])
    then have g: "file_has_data ?t (Some g) \<longleftrightarrow> g \<noteq> f \<and> file_has_data s (Some g)"
      by (auto simp: file_has_data_Some)
    have "file_search s f = Some f" using f by (simp add: file_search_def)
    with True show ?thesis using IH by (auto simp: t g Let_def)
  next
    case False
    then have n: "\<not> file_has_data s (file_search s f)"
      by (auto simp: file_has_data_Some)
    show ?thesis using IH False n by (auto simp: Let_def simp del: file_search_data)
  qed
qed

text \<open>
  The reset with the right parameters always succeeds and leaves the applet open, with no
  credential that has data, no access code and no PIN; every other file is as it was. With other
  parameters it is refused and changes nothing.
\<close>
theorem cmd_reset_spec:
  assumes "delete_law k" and "clear_law k" and "dynamic_law k" and "deletes k"
    and "cmd_reset k a s = (r, t)"
  shows "if p1 a = 0xde \<and> p2 a = 0xad
    then r = SW_OK \<and> validated t \<and>
      (\<forall>f. is_oath_cred f \<longrightarrow> \<not> file_has_data t (Some f)) \<and> files t EF_OATH_CODE = None \<and>
      \<not> file_has_data t (Some EF_OTP_PIN) \<and>
      (\<forall>f. \<not> is_oath_cred f \<and> f \<noteq> EF_OATH_CODE \<and> f \<noteq> EF_OTP_PIN \<longrightarrow> files t f = files s f)
    else r = SW_INCORRECT_P1P2 \<and> t = s"
proof (cases "p1 a = 0xde \<and> p2 a = 0xad")
  case False
  then show ?thesis using assms(5) by (auto simp: cmd_reset_def)
next
  case True
  let ?u = "oath_delete_present k (present_oath_cred_fids k s) s"
  let ?v = "snd (file_delete_no_commit k (file_search ?u EF_OATH_CODE) ?u)"
  let ?w = "flash_clear_file k (file_search ?v EF_OTP_PIN) ?v"
  have rt: "r = SW_OK" "t = (flash_commit ?w)\<lparr>validated := True\<rparr>"
    using True assms(5) by (auto simp: cmd_reset_def Let_def split: prod.splits)
  have u: "files ?u g = (if is_oath_cred g \<and> file_has_data s (Some g) then None else files s g)" for g
    using oath_delete_present_files [OF assms(1,4), of "present_oath_cred_fids k s" s g]
      present_oath_cred_fids_set(1) [OF assms(3), of s]
    by (auto simp: file_has_data_Some)
  have v: "files ?v = (files ?u)(EF_OATH_CODE := None)"
  proof (cases "files ?u EF_OATH_CODE")
    case None
    then have "files ?v = files ?u"
      using file_delete_no_commit_None [OF assms(1)] by (simp add: file_search_def)
    with None show ?thesis by (simp add: fun_upd_idem)
  next
    case (Some d)
    then show ?thesis
      using file_delete_no_commit_gone [OF assms(1,4), of ?u EF_OATH_CODE] by (simp add: file_search_def)
  qed
  have w: "files t = (if files ?v EF_OTP_PIN = None then files ?v else (files ?v)(EF_OTP_PIN \<mapsto> []))"
    using flash_clear_file_files [OF assms(2), of "file_search ?v EF_OTP_PIN" ?v]
    by (simp add: rt(2) file_search_def split: option.splits)
  have c: "\<not> is_oath_cred EF_OATH_CODE" "\<not> is_oath_cred EF_OTP_PIN" by (simp_all add: is_oath_cred_iff)
  have "\<not> file_has_data t (Some f)" if "is_oath_cred f" for f
    using that c by (auto simp: file_has_data_Some w v u)
  moreover have "files t EF_OATH_CODE = None" by (simp add: w v)
  moreover have "\<not> file_has_data t (Some EF_OTP_PIN)" by (auto simp: file_has_data_Some w)
  moreover have "files t f = files s f"
    if "\<not> is_oath_cred f" "f \<noteq> EF_OATH_CODE" "f \<noteq> EF_OTP_PIN" for f
    using that by (simp add: w v u)
  ultimately show ?thesis using True rt by simp
qed

theorem cmd_reset_spec_witness:
  "\<exists>t. cmd_reset ref_sdk \<lparr>cla = 0, ins = 4, p1 = 0xde, p2 = 0xad, nc_data = []\<rparr>
     (ref_oath [0xBA00 \<mapsto> [1], EF_OATH_CODE \<mapsto> [2], 0x1234 \<mapsto> [3]] False) = (SW_OK, t) \<and>
     validated t \<and> \<not> file_has_data t (Some 0xBA00) \<and> files t EF_OATH_CODE = None \<and> files t 0x1234 = Some [3]"
proof -
  let ?a = "\<lparr>cla = 0, ins = 4, p1 = 0xde, p2 = 0xad, nc_data = []\<rparr>"
  let ?s = "ref_oath [0xBA00 \<mapsto> [1], EF_OATH_CODE \<mapsto> [2], 0x1234 \<mapsto> [3]] False"
  have d: "deletes ref_sdk" by (simp add: deletes_def ref_delete_def)
  have f: "files ?s 0x1234 = Some [3]" by (simp add: ref_oath_def)
  have i: "is_oath_cred 0xBA00" "\<not> is_oath_cred 0x1234" by (simp_all add: is_oath_cred_iff)
  obtain r t where t: "cmd_reset ref_sdk ?a ?s = (r, t)" by fastforce
  from cmd_reset_spec [OF ref_delete_law ref_clear_law ref_dynamic_law d t]
  have c: "r = SW_OK" "validated t" "\<forall>f. is_oath_cred f \<longrightarrow> \<not> file_has_data t (Some f)"
    "files t EF_OATH_CODE = None" "files t 0x1234 = files ?s 0x1234"
    using i by (simp_all split: if_splits)
  show ?thesis using t c(2,4,5) f c(3) [rule_format, OF i(1)] unfolding c(1) by metis
qed

end
