(* ===== verification/Object_Provider.thy ===== *)
theory Object_Provider
  imports Fido_State
begin

text \<open>
  The object layer of the SDK as the resident containers use it, and the provider of
  \<open>src/fido/object_provider.c\<close> that supplies its root key.

  The functions \<open>file_object_*\<close> and the layout of the objects they read and write belong to
  the SDK: they are fields of the record \<open>objs\<close>. An operation that authenticates or seals
  takes the provider's callbacks, that is the outcome of loading the root key (\<open>None\<close> when
  the code passes a null authenticator) and the test on the key domain. The root is loaded
  once by every such operation.
\<close>

record file_object_descriptor =
  object_type :: u16
  object_tag :: u16
  generation :: u32
  logical_size :: u32
  record_id :: u32
  stored_size :: u32
  policy_id :: u16
  key_domain :: u16
  protection :: byte
  flags :: u16

text \<open>
  The array of a manifest is the list of its first \<open>object_count\<close> entries; \<open>object\<close> is the
  single object of the manifest that describes one record.
\<close>

record file_object_manifest =
  namespace_id :: u16
  container_kind :: u16
  container_id :: u32
  man_generation :: u32
  previous_generation :: u32
  objects :: "file_object_descriptor list"
  has_object :: bool
  object :: "file_object_descriptor option"
  extension_size :: u32

abbreviation (input) FIDO_OBJECT_NAMESPACE :: u16 where "FIDO_OBJECT_NAMESPACE \<equiv> 2"

record provider =
  prov_root :: "rc \<times> bytes"
  prov_identity_valid :: "u16 \<Rightarrow> bool"

record objs =
  oa_init :: "nat \<Rightarrow> u16 \<Rightarrow> rc"
  oa_authenticator :: bool
  oa_protector :: bool
  oa_parse :: "provider option \<Rightarrow> bytes \<Rightarrow> rc \<times> file_object_manifest"
  oa_build :: "provider \<Rightarrow> file_object_manifest \<Rightarrow> nat \<Rightarrow> rc \<times> bytes"
  oa_header :: "bytes \<Rightarrow> file_object_descriptor \<Rightarrow> rc"
  oa_seal :: "provider \<Rightarrow> nat \<Rightarrow> file_object_manifest \<Rightarrow> bytes \<Rightarrow> bytes \<Rightarrow> nat \<Rightarrow> rc \<times> bytes"
  oa_unseal :: "provider \<Rightarrow> file_object_manifest \<Rightarrow> bytes \<Rightarrow> bytes \<Rightarrow> nat \<Rightarrow> rc \<times> bytes"
  oa_policy_hash :: "bytes \<Rightarrow> rc \<times> bytes"
  oa_policy_version :: byte
  oa_max_objects :: nat
  oa_manifest_header_size :: nat
  oa_descriptor_size :: nat
  oa_record_header_size :: nat
  oa_tag_size :: nat
  oa_authenticated_public :: byte
  oa_aead_secret :: byte
  oa_flag_inline :: u16
  oa_flag_mutable :: u16
  oa_flag_non_exportable :: u16

record resident = fido +
  crypto_provider_initialized :: bool

subsection \<open>The provider\<close>

definition fido_object_root_load :: "sdk \<Rightarrow> 'a fido_scheme \<Rightarrow> rc \<times> bytes \<times> 'a fido_scheme" where
  "fido_object_root_load k s = load_keydev k (replicate 32 0) s"

definition fido_object_identity_valid :: "u16 \<Rightarrow> bool" where
  "fido_object_identity_valid domain \<longleftrightarrow> domain = 0"

definition fido_object_crypto_provider_init :: "objs \<Rightarrow> 'a resident_scheme \<Rightarrow> rc \<times> 'a resident_scheme" where
  "fido_object_crypto_provider_init ob s =
     (if crypto_provider_initialized s then (PICOKEYS_OK, s)
      else let r = oa_init ob (tick s) FIDO_OBJECT_NAMESPACE; s = s\<lparr>tick := Suc (tick s)\<rparr>
           in (r, if r = PICOKEYS_OK then s\<lparr>crypto_provider_initialized := True\<rparr> else s))"

text \<open>A pointer to the authenticator or the protector is whether it is not null.\<close>

definition fido_object_manifest_authenticator :: "objs \<Rightarrow> 'a resident_scheme \<Rightarrow> bool \<times> 'a resident_scheme" where
  "fido_object_manifest_authenticator ob s =
     (let (r, s) = fido_object_crypto_provider_init ob s
      in if r \<noteq> PICOKEYS_OK then (False, s) else (oa_authenticator ob, s))"

definition fido_object_record_protector :: "objs \<Rightarrow> 'a resident_scheme \<Rightarrow> bool \<times> 'a resident_scheme" where
  "fido_object_record_protector ob s =
     (let (r, s) = fido_object_crypto_provider_init ob s
      in if r \<noteq> PICOKEYS_OK then (False, s) else (oa_protector ob, s))"

definition with_provider :: "sdk \<Rightarrow> 'a fido_scheme \<Rightarrow> provider \<times> 'a fido_scheme" where
  "with_provider k s =
     (let (r, root, s) = fido_object_root_load k s
      in (\<lparr>prov_root = (r, root), prov_identity_valid = fido_object_identity_valid\<rparr>, s))"

definition file_object_manifest_parse ::
    "sdk \<Rightarrow> objs \<Rightarrow> bool \<Rightarrow> bytes \<Rightarrow> 'a fido_scheme \<Rightarrow> rc \<times> file_object_manifest \<times> 'a fido_scheme" where
  "file_object_manifest_parse k ob auth d s =
     (if auth then let (p, s) = with_provider k s; (r, m) = oa_parse ob (Some p) d in (r, m, s)
      else let (r, m) = oa_parse ob None d in (r, m, s))"

definition file_object_manifest_build ::
    "sdk \<Rightarrow> objs \<Rightarrow> file_object_manifest \<Rightarrow> nat \<Rightarrow> 'a fido_scheme \<Rightarrow> rc \<times> bytes \<times> 'a fido_scheme" where
  "file_object_manifest_build k ob m capacity s =
     (let (p, s) = with_provider k s; (r, d) = oa_build ob p m capacity in (r, d, s))"

definition file_object_record_seal ::
    "sdk \<Rightarrow> objs \<Rightarrow> file_object_manifest \<Rightarrow> bytes \<Rightarrow> bytes \<Rightarrow> nat \<Rightarrow> 'a fido_scheme \<Rightarrow> rc \<times> bytes \<times> 'a fido_scheme" where
  "file_object_record_seal k ob m policy d capacity s =
     (let (p, s) = with_provider k s; (r, c) = oa_seal ob p (tick s) m policy d capacity
      in (r, c, s\<lparr>tick := Suc (tick s)\<rparr>))"

definition file_object_record_unseal ::
    "sdk \<Rightarrow> objs \<Rightarrow> file_object_manifest \<Rightarrow> bytes \<Rightarrow> bytes \<Rightarrow> nat \<Rightarrow> 'a fido_scheme \<Rightarrow> rc \<times> bytes \<times> 'a fido_scheme" where
  "file_object_record_unseal k ob m policy c capacity s =
     (let (p, s) = with_provider k s; (r, d) = oa_unseal ob p m policy c capacity in (r, d, s))"

end
