(* ===== verification/Resident_Container.thy ===== *)
theory Resident_Container
  imports Object_Provider
begin

text \<open>
  The containers of resident credentials (\<open>src/fido/resident_container.c\<close>): a credential slot
  has two manifest files and, for each of its four objects, two record files, so that an
  update writes the files the current manifest does not use and then switches manifests.

  An index into the two candidates stands for a pointer to one of them. A null pointer passed
  for an input buffer is \<open>None\<close>; output pointers are never null.
\<close>

abbreviation (input) EF_CRED :: fid where "EF_CRED \<equiv> 0xCF00"
abbreviation (input) FIDO_RESIDENT_CONTAINER_KIND :: u16 where "FIDO_RESIDENT_CONTAINER_KIND \<equiv> 1"
abbreviation (input) FIDO_RESIDENT_OBJECT_RP_ID_HASH :: u16 where "FIDO_RESIDENT_OBJECT_RP_ID_HASH \<equiv> 1"
abbreviation (input) FIDO_RESIDENT_OBJECT_CLIENT_ID :: u16 where "FIDO_RESIDENT_OBJECT_CLIENT_ID \<equiv> 2"
abbreviation (input) FIDO_RESIDENT_OBJECT_CREDENTIAL :: u16 where "FIDO_RESIDENT_OBJECT_CREDENTIAL \<equiv> 3"
abbreviation (input) FIDO_RESIDENT_OBJECT_PUBLIC_KEY :: u16 where "FIDO_RESIDENT_OBJECT_PUBLIC_KEY \<equiv> 4"
abbreviation (input) FIDO_RESIDENT_POLICY_ID :: u16 where "FIDO_RESIDENT_POLICY_ID \<equiv> 0x0200"
abbreviation (input) COMMIT_TIMEOUT :: nat where "COMMIT_TIMEOUT \<equiv> 5000"

text \<open>The object types the loops of the source run over, and the two manifest slots.\<close>

definition object_types :: "u16 list" where
  "object_types = [1, 2, 3, 4]"

record resident_manifest_candidate =
  cand_manifest :: file_object_manifest
  cand_slot :: byte
  cand_valid :: bool

record resident_container_write =
  w_object_type :: u16
  w_data :: "bytes option"
  w_data_size :: u32
  w_protection :: byte
  w_flags :: u16

subsection \<open>Identifiers\<close>

definition resident_manifest_fid :: "byte \<Rightarrow> byte \<Rightarrow> fid" where
  "resident_manifest_fid slot manifest_slot =
     (let prefix = (if manifest_slot = 0 then 0xd1 else 0xd2 :: byte)
      in ucast (push_bit 8 (ucast prefix :: u32) OR ucast slot))"

definition resident_record_fid :: "byte \<Rightarrow> byte \<Rightarrow> u16 \<Rightarrow> fid" where
  "resident_record_fid slot manifest_slot ty =
     (let prefix = (if manifest_slot = 0 then 0xd3 else 0xd7 :: byte)
      in ucast (push_bit 8 (ucast prefix + ucast ty - 1 :: u32) OR ucast slot))"

definition cred_fid :: "byte \<Rightarrow> fid" where
  "cred_fid slot = EF_CRED + ucast slot"

definition resident_object_type_valid :: "u16 \<Rightarrow> bool" where
  "resident_object_type_valid ty \<longleftrightarrow>
     FIDO_RESIDENT_OBJECT_RP_ID_HASH \<le> ty \<and> ty \<le> FIDO_RESIDENT_OBJECT_PUBLIC_KEY"

definition resident_record_id_valid :: "byte \<Rightarrow> file_object_descriptor \<Rightarrow> bool" where
  "resident_record_id_valid slot obj =
     (if \<not> resident_object_type_valid (object_type obj) \<or> record_id obj > 0xFFFF then False
      else let f = ucast (record_id obj)
           in f = resident_record_fid slot 0 (object_type obj) \<or>
              f = resident_record_fid slot 1 (object_type obj))"

definition resident_container_is_marker :: "'a plat_scheme \<Rightarrow> fid option \<Rightarrow> bool" where
  "resident_container_is_marker s file \<longleftrightarrow>
     (case file of
        None \<Rightarrow> False
      | Some f \<Rightarrow>
          let d = file_get_data s file
          in file_has_data s file \<and> file_get_size s file = 8 \<and>
             take 4 d = [0x50, 0x4b, 0x46, 0x31] \<and> d ! 4 = 1 \<and> d ! 5 = ucast f \<and>
             d ! 6 = 0 \<and> d ! 7 = 0)"

subsection \<open>Manifests\<close>

definition resident_replace_file :: "sdk \<Rightarrow> fid \<Rightarrow> bytes \<Rightarrow> 'a plat_scheme \<Rightarrow> rc \<times> 'a plat_scheme" where
  "resident_replace_file k f d s =
     (let file = file_search s f;
          (r, s) = (if file \<noteq> None then file_delete_no_commit k file s else (PICOKEYS_OK, s))
      in if r \<noteq> PICOKEYS_OK then (PICOKEYS_EXEC_ERROR, s)
         else let (file, s) = file_new k f s
              in if file = None then (PICOKEYS_ERR_NO_MEMORY, s) else file_put_data k file d s)"

fun find_object :: "file_object_descriptor list \<Rightarrow> u16 \<Rightarrow> nat option" where
  "find_object [] ty = None"
| "find_object (obj # objs) ty =
     (if object_type obj = ty \<and> object_tag obj = 0 then Some 0 else map_option Suc (find_object objs ty))"

text \<open>The index of the object instead of a pointer to it.\<close>

definition resident_manifest_find :: "file_object_manifest \<Rightarrow> u16 \<Rightarrow> nat option" where
  "resident_manifest_find m ty = find_object (objects m) ty"

definition resident_manifest_references_fid :: "file_object_manifest \<Rightarrow> fid \<Rightarrow> bool" where
  "resident_manifest_references_fid m f \<longleftrightarrow> list_ex (\<lambda>obj. record_id obj = ucast f) (objects m)"

definition resident_internal_policy :: "objs \<Rightarrow> bytes" where
  "resident_internal_policy ob =
     [oa_policy_version ob, 1, 0x1f, 0xff, 0x00, 0x00, 0x04, 0x60, 0x00, 0x00, 0x00, 0x00, 0x00, 0x01, 0x00, 0x00]"

definition resident_policy_hash :: "objs \<Rightarrow> rc \<times> bytes" where
  "resident_policy_hash ob = oa_policy_hash ob (resident_internal_policy ob)"

text \<open>The loop over the descriptors of a manifest; \<open>seen\<close> holds the types of the earlier ones.\<close>

fun check_objects ::
    "objs \<Rightarrow> byte \<Rightarrow> 'a plat_scheme \<Rightarrow> u16 list \<Rightarrow> file_object_descriptor list \<Rightarrow> rc" where
  "check_objects ob slot s seen [] = PICOKEYS_OK"
| "check_objects ob slot s seen (obj # objs) =
     (if \<not> resident_record_id_valid slot obj then PICOKEYS_WRONG_DATA
      else if object_type obj \<in> set seen then PICOKEYS_WRONG_DATA
      else let record = file_search s (ucast (record_id obj))
           in if \<not> file_has_data s record \<or> oa_header ob (file_get_data s record) obj \<noteq> PICOKEYS_OK
              then PICOKEYS_WRONG_DATA
              else check_objects ob slot s (seen @ [object_type obj]) objs)"

definition empty_manifest :: file_object_manifest where
  "empty_manifest =
     \<lparr>namespace_id = 0, container_kind = 0, container_id = 0, man_generation = 0,
      previous_generation = 0, objects = [], has_object = False, object = None, extension_size = 0\<rparr>"

definition empty_candidate :: resident_manifest_candidate where
  "empty_candidate = \<lparr>cand_manifest = empty_manifest, cand_slot = 0, cand_valid = False\<rparr>"

definition resident_manifest_parse_slot ::
    "sdk \<Rightarrow> objs \<Rightarrow> byte \<Rightarrow> byte \<Rightarrow> bool \<Rightarrow> 'a fido_scheme \<Rightarrow> rc \<times> resident_manifest_candidate \<times> 'a fido_scheme" where
  "resident_manifest_parse_slot k ob slot manifest_slot auth s =
     (let c = empty_candidate; file = file_search s (resident_manifest_fid slot manifest_slot)
      in if \<not> file_has_data s file then (PICOKEYS_ERR_FILE_NOT_FOUND, c, s)
         else let (r, m, s) = file_object_manifest_parse k ob auth (file_get_data s file) s;
                  c = c\<lparr>cand_manifest := m\<rparr>
              in if r \<noteq> PICOKEYS_OK then (r, c, s)
                 else if namespace_id m \<noteq> FIDO_OBJECT_NAMESPACE \<or> container_kind m \<noteq> FIDO_RESIDENT_CONTAINER_KIND \<or>
                         container_id m \<noteq> ucast slot \<or> objects m = []
                 then (PICOKEYS_WRONG_DATA, c, s)
                 else let r = check_objects ob slot s [] (objects m)
                      in if r \<noteq> PICOKEYS_OK then (r, c, s)
                         else (PICOKEYS_OK, c\<lparr>cand_slot := manifest_slot, cand_valid := True\<rparr>, s))"

type_synonym candidates = "resident_manifest_candidate \<times> resident_manifest_candidate"

definition cand :: "candidates \<Rightarrow> byte \<Rightarrow> resident_manifest_candidate" where
  "cand cs i = (if i = 0 then fst cs else snd cs)"

text \<open>
  One round of the loop over the two slots. \<open>Inl\<close> leaves the function with an error.
\<close>

definition load_step ::
    "resident_manifest_candidate \<Rightarrow> rc \<Rightarrow> resident_manifest_candidate option \<times> bool \<Rightarrow>
     rc + (resident_manifest_candidate option \<times> bool)" where
  "load_step c r st =
     (case st of (current, found) \<Rightarrow>
        if r = PICOKEYS_OK
        then (case current of
                None \<Rightarrow> Inr (Some c, True)
              | Some b \<Rightarrow>
                  if man_generation (cand_manifest b) = man_generation (cand_manifest c) then Inl PICOKEYS_WRONG_DATA
                  else if man_generation (cand_manifest c) > man_generation (cand_manifest b)
                  then Inr (Some c, True) else Inr (Some b, True))
        else if r \<noteq> PICOKEYS_ERR_FILE_NOT_FOUND \<and> r \<noteq> PICOKEYS_WRONG_DATA \<and> r \<noteq> PICOKEYS_WRONG_SIGNATURE
        then Inl r
        else Inr (current, found))"

definition resident_manifest_load ::
    "sdk \<Rightarrow> objs \<Rightarrow> byte \<Rightarrow> bool \<Rightarrow> 'a fido_scheme \<Rightarrow>
     rc \<times> candidates \<times> resident_manifest_candidate option \<times> 'a fido_scheme" where
  "resident_manifest_load k ob slot auth s =
     (let storage = file_has_data s (file_search s (resident_manifest_fid slot 0));
          (r, c0, s) = resident_manifest_parse_slot k ob slot 0 auth s
      in case load_step c0 r (None, False) of
           Inl r \<Rightarrow> (r, (c0, empty_candidate), None, s)
         | Inr st \<Rightarrow>
             let storage = (storage \<or> file_has_data s (file_search s (resident_manifest_fid slot 1)));
                 (r, c1, s) = resident_manifest_parse_slot k ob slot 1 auth s
             in case load_step c1 r st of
                  Inl r \<Rightarrow> (r, (c0, c1), fst st, s)
                | Inr (current, found) \<Rightarrow>
                    if \<not> found
                    then (if storage then PICOKEYS_WRONG_DATA else PICOKEYS_ERR_FILE_NOT_FOUND, (c0, c1), current, s)
                    else (PICOKEYS_OK, (c0, c1), current, s))"

subsection \<open>Records\<close>

definition resident_unseal ::
    "sdk \<Rightarrow> objs \<Rightarrow> file_object_manifest \<Rightarrow> file_object_descriptor \<Rightarrow> nat \<Rightarrow> 'a fido_scheme \<Rightarrow> rc \<times> bytes \<times> 'a fido_scheme" where
  "resident_unseal k ob m obj capacity s =
     (let rm = m\<lparr>objects := take 1 (objects m), has_object := True, object := Some obj\<rparr>;
          (r, policy) = resident_policy_hash ob
      in if r \<noteq> PICOKEYS_OK then (r, [], s)
         else let record = file_search s (ucast (record_id obj))
              in if \<not> file_has_data s record then (PICOKEYS_ERR_FILE_NOT_FOUND, [], s)
                 else file_object_record_unseal k ob rm policy (file_get_data s record) capacity s)"

fun validate_objects ::
    "sdk \<Rightarrow> objs \<Rightarrow> file_object_manifest \<Rightarrow> file_object_descriptor list \<Rightarrow> 'a fido_scheme \<Rightarrow> rc \<times> 'a fido_scheme" where
  "validate_objects k ob m [] s = (PICOKEYS_OK, s)"
| "validate_objects k ob m (obj # objs) s =
     (let n = unat (logical_size obj);
          (ok, s) = (if n > 0 then calloc k n s else (True, s))
      in if \<not> ok then (PICOKEYS_ERR_MEMORY_FATAL, s)
         else let (r, d, s) = resident_unseal k ob m obj n s
              in if r \<noteq> PICOKEYS_OK \<or> length d \<noteq> n
                 then (if r = PICOKEYS_OK then PICOKEYS_WRONG_LENGTH else r, s)
                 else validate_objects k ob m objs s)"

definition resident_manifest_validate ::
    "sdk \<Rightarrow> objs \<Rightarrow> resident_manifest_candidate \<Rightarrow> 'a fido_scheme \<Rightarrow> rc \<times> 'a fido_scheme" where
  "resident_manifest_validate k ob c s = validate_objects k ob (cand_manifest c) (objects (cand_manifest c)) s"

text \<open>The scan for foreign files where the records of a new container would go.\<close>

definition record_place_free :: "'a plat_scheme \<Rightarrow> fid \<Rightarrow> bool" where
  "record_place_free s f \<longleftrightarrow>
     (let record = file_search s f
      in \<not> (record \<noteq> None \<and>
            (\<not> file_has_data s record \<or> file_get_size s record < 4 \<or>
             take 4 (file_get_data s record) \<noteq> [0x50, 0x4b, 0x4f, 0x52])))"

definition resident_container_can_create ::
    "sdk \<Rightarrow> objs \<Rightarrow> byte \<Rightarrow> 'a resident_scheme \<Rightarrow> bool \<times> 'a resident_scheme" where
  "resident_container_can_create k ob slot s =
     (if file_search s (resident_manifest_fid slot 0) \<noteq> None \<or> file_search s (resident_manifest_fid slot 1) \<noteq> None
      then let (auth, s) = fido_object_manifest_authenticator ob s;
               (protector, s) = fido_object_record_protector ob s
           in if \<not> auth \<or> \<not> protector then (False, s)
              else let (r, cs, current, s) = resident_manifest_load k ob slot auth s
                   in if r \<noteq> PICOKEYS_OK then (False, s)
                      else let (r, s) = resident_manifest_validate k ob (the current) s in (r = PICOKEYS_OK, s)
      else (list_all (\<lambda>ms. list_all (\<lambda>ty. record_place_free s (resident_record_fid slot ms ty)) object_types) [0, 1], s))"

definition resident_descriptor ::
    "byte \<Rightarrow> byte \<Rightarrow> resident_container_write \<Rightarrow> u32 \<Rightarrow> file_object_descriptor" where
  "resident_descriptor slot manifest_slot w object_generation =
     \<lparr>object_type = w_object_type w, object_tag = 0, generation = object_generation,
      logical_size = w_data_size w,
      record_id = ucast (resident_record_fid slot manifest_slot (w_object_type w)),
      stored_size = w_data_size w, policy_id = FIDO_RESIDENT_POLICY_ID, key_domain = 0,
      protection = w_protection w, flags = w_flags w\<rparr>"

definition payload :: "resident_container_write \<Rightarrow> bytes" where
  "payload w = fit (unat (w_data_size w)) (case w_data w of None \<Rightarrow> [] | Some d \<Rightarrow> d)"

definition resident_record_write ::
    "sdk \<Rightarrow> objs \<Rightarrow> byte \<Rightarrow> byte \<Rightarrow> resident_container_write \<Rightarrow> u32 \<Rightarrow> u32 \<Rightarrow> 'a fido_scheme \<Rightarrow>
     rc \<times> file_object_descriptor \<times> 'a fido_scheme" where
  "resident_record_write k ob slot manifest_slot w object_generation container_generation s =
     (let f = resident_record_fid slot manifest_slot (w_object_type w);
          desc = resident_descriptor slot manifest_slot w object_generation;
          rm = empty_manifest\<lparr>namespace_id := FIDO_OBJECT_NAMESPACE, container_kind := FIDO_RESIDENT_CONTAINER_KIND,
                 container_id := ucast slot, man_generation := container_generation,
                 previous_generation := (if container_generation > 1 then container_generation - 1 else 0),
                 has_object := True, object := Some desc\<rparr>;
          (r, policy) = resident_policy_hash ob
      in if r \<noteq> PICOKEYS_OK then (r, desc, s)
         else if uint (w_data_size w) > 0xFFFFFFFF - int (oa_record_header_size ob) - int (oa_tag_size ob)
         then (PICOKEYS_WRONG_LENGTH, desc, s)
         else let n = oa_record_header_size ob + unat (w_data_size w) + oa_tag_size ob;
                  (ok, s) = calloc k n s
              in if \<not> ok then (PICOKEYS_ERR_MEMORY_FATAL, desc, s)
                 else let (r, c, s) = file_object_record_seal k ob rm policy (payload w) n s
                      in if r \<noteq> PICOKEYS_OK then (r, desc, s)
                         else if length c \<noteq> n then (PICOKEYS_WRONG_LENGTH, desc, s)
                         else let (r, s) = resident_replace_file k f c s in (r, desc, s))"

definition resident_marker :: "byte \<Rightarrow> bytes" where
  "resident_marker slot = [0x50, 0x4b, 0x46, 0x31, 1, slot, 0, 0]"

definition resident_marker_write :: "sdk \<Rightarrow> byte \<Rightarrow> 'a plat_scheme \<Rightarrow> rc \<times> 'a plat_scheme" where
  "resident_marker_write k slot s =
     (let (r, s) = resident_replace_file k (cred_fid slot) (resident_marker slot) s
      in if r \<noteq> PICOKEYS_OK then (r, s)
         else let (b, s) = flash_commit_sync k COMMIT_TIMEOUT s
              in (if b then PICOKEYS_OK else PICOKEYS_ERR_MEMORY_FATAL, s))"

end
