(* ===== verification/Resident_Commands.thy ===== *)
theory Resident_Commands
  imports Resident_Container
begin

text \<open>
  The operations on resident containers: the two-phase update with its cleanup, creation,
  reading with the fallback to the other manifest, replacement of the credential, deletion.
\<close>

subsection \<open>Update\<close>

text \<open>
  The loop over the writes. It carries the manifest under construction and leaves with an
  error at the first write that fails; \<open>seen\<close> holds the types of the earlier writes.
\<close>

definition put_object :: "file_object_manifest \<Rightarrow> nat option \<Rightarrow> file_object_descriptor \<Rightarrow> file_object_manifest" where
  "put_object m i desc =
     (case i of Some i \<Rightarrow> m\<lparr>objects := (objects m)[i := desc]\<rparr>
              | None \<Rightarrow> m\<lparr>objects := objects m @ [desc], has_object := True\<rparr>)"

fun write_objects ::
    "sdk \<Rightarrow> objs \<Rightarrow> byte \<Rightarrow> byte \<Rightarrow> u16 list \<Rightarrow> resident_container_write list \<Rightarrow> file_object_manifest \<Rightarrow>
     'a fido_scheme \<Rightarrow> rc \<times> file_object_manifest \<times> 'a fido_scheme" where
  "write_objects k ob slot target seen [] m s = (PICOKEYS_OK, m, s)"
| "write_objects k ob slot target seen (w # ws) m s =
     (if (w_data w = None \<and> w_data_size w > 0) \<or> \<not> resident_object_type_valid (w_object_type w) \<or>
         w_flags w AND oa_flag_inline ob \<noteq> 0 then (PICOKEYS_WRONG_DATA, m, s)
      else if w_object_type w \<in> set seen then (PICOKEYS_WRONG_DATA, m, s)
      else let i = resident_manifest_find m (w_object_type w);
               g = (case i of Some i \<Rightarrow> generation (objects m ! i) + 1 | None \<Rightarrow> 1)
           in if i \<noteq> None \<and> generation (objects m ! the i) = 0xFFFFFFFF then (PICOKEYS_WRONG_DATA, m, s)
              else let (r, desc, s) = resident_record_write k ob slot target w g (man_generation m) s
                   in if r \<noteq> PICOKEYS_OK then (r, m, s)
                      else if i = None \<and> \<not> length (objects m) < oa_max_objects ob then (PICOKEYS_ERR_NO_MEMORY, m, s)
                      else write_objects k ob slot target (seen @ [w_object_type w]) ws (put_object m i desc) s)"

definition delete_present :: "sdk \<Rightarrow> fid \<Rightarrow> 'a plat_scheme \<Rightarrow> 'a plat_scheme" where
  "delete_present k f s =
     (let file = file_search s f
      in if file \<noteq> None then snd (file_delete_no_commit k file s) else s)"

text \<open>The files of one manifest slot that the new manifest has no use for.\<close>

definition stale_fids :: "file_object_manifest \<Rightarrow> byte \<Rightarrow> byte \<Rightarrow> byte \<Rightarrow> fid list" where
  "stale_fids m slot target ms =
     (if ms \<noteq> target then [resident_manifest_fid slot ms] else []) @
     filter (\<lambda>f. \<not> resident_manifest_references_fid m f) (map (resident_record_fid slot ms) object_types)"

definition remove_stale :: "sdk \<Rightarrow> file_object_manifest \<Rightarrow> byte \<Rightarrow> byte \<Rightarrow> 'a plat_scheme \<Rightarrow> 'a plat_scheme" where
  "remove_stale k m slot target s =
     fold (delete_present k) (stale_fids m slot target 0 @ stale_fids m slot target 1) s"

text \<open>The first manifest of a container, and the successor of a manifest.\<close>

definition first_manifest :: "byte \<Rightarrow> file_object_manifest" where
  "first_manifest slot =
     empty_manifest\<lparr>namespace_id := FIDO_OBJECT_NAMESPACE, container_kind := FIDO_RESIDENT_CONTAINER_KIND,
       container_id := ucast slot, man_generation := 1\<rparr>"

definition next_manifest :: "file_object_manifest \<Rightarrow> file_object_manifest" where
  "next_manifest m = m\<lparr>previous_generation := man_generation m, man_generation := man_generation m + 1\<rparr>"

text \<open>The manifest an update starts from: the current one, or the previous one when the current does not validate.\<close>

definition choose_current ::
    "sdk \<Rightarrow> objs \<Rightarrow> candidates \<Rightarrow> resident_manifest_candidate option \<Rightarrow> 'a fido_scheme \<Rightarrow>
     rc \<times> resident_manifest_candidate option \<times> 'a fido_scheme" where
  "choose_current k ob cs current s =
     (case current of
        None \<Rightarrow> (PICOKEYS_OK, None, s)
      | Some c \<Rightarrow>
          let (status, s) = resident_manifest_validate k ob c s;
              previous = cand cs (cand_slot c XOR 1)
          in if status = PICOKEYS_OK then (PICOKEYS_OK, Some c, s)
             else if cand_valid previous
             then let (r, s) = resident_manifest_validate k ob previous s
                  in if r = PICOKEYS_OK then (PICOKEYS_OK, Some previous, s) else (status, None, s)
             else (status, None, s))"

definition max_manifest_size :: "objs \<Rightarrow> nat" where
  "max_manifest_size ob =
     oa_manifest_header_size ob + oa_max_objects ob * oa_descriptor_size ob + oa_tag_size ob"

text \<open>What an update does once the records are written: manifest, marker, cleanup.\<close>

definition switch_manifest ::
    "sdk \<Rightarrow> objs \<Rightarrow> byte \<Rightarrow> byte \<Rightarrow> file_object_manifest \<Rightarrow> 'a fido_scheme \<Rightarrow> rc \<times> 'a fido_scheme" where
  "switch_manifest k ob slot target m s =
     (let (b, s) = flash_commit_sync k COMMIT_TIMEOUT s
      in if \<not> b then (PICOKEYS_ERR_MEMORY_FATAL, s)
         else let (r, d, s) = file_object_manifest_build k ob m (max_manifest_size ob) s;
                  (r, s) = (if r = PICOKEYS_OK
                            then resident_replace_file k (resident_manifest_fid slot target) d s else (r, s))
              in if r \<noteq> PICOKEYS_OK then (r, s)
                 else let (b, s) = flash_commit_sync k COMMIT_TIMEOUT s
                      in if \<not> b then (PICOKEYS_ERR_MEMORY_FATAL, s)
                         else let (r, s) = (if \<not> resident_container_is_marker s (file_search s (cred_fid slot))
                                            then resident_marker_write k slot s else (PICOKEYS_OK, s))
                              in if r \<noteq> PICOKEYS_OK then (r, s)
                                 else (PICOKEYS_OK, flash_commit (remove_stale k m slot target s)))"

definition resident_container_update ::
    "sdk \<Rightarrow> objs \<Rightarrow> byte \<Rightarrow> resident_container_write list \<Rightarrow> 'a resident_scheme \<Rightarrow> rc \<times> 'a resident_scheme" where
  "resident_container_update k ob slot ws s =
     (if ws = [] \<or> length ws > oa_max_objects ob then (PICOKEYS_ERR_NULL_PARAM, s)
      else let (auth, s) = fido_object_manifest_authenticator ob s;
               (protector, s) = fido_object_record_protector ob s
      in if \<not> auth \<or> \<not> protector then (PICOKEYS_EXEC_ERROR, s)
      else let (r, cs, current, s) = resident_manifest_load k ob slot auth s
      in if r \<noteq> PICOKEYS_OK \<and> r \<noteq> PICOKEYS_ERR_FILE_NOT_FOUND then (r, s)
      else let creating = (r = PICOKEYS_ERR_FILE_NOT_FOUND);
               (free, s) = (if creating then resident_container_can_create k ob slot s else (True, s))
      in if creating \<and> \<not> free then (PICOKEYS_WRONG_DATA, s)
      else let (r, current, s) = choose_current k ob cs current s
      in if r \<noteq> PICOKEYS_OK then (r, s)
      else if current \<noteq> None \<and> (man_generation (cand_manifest (the current)) = 0xFFFFFFFF \<or>
              extension_size (cand_manifest (the current)) \<noteq> 0) then (PICOKEYS_WRONG_DATA, s)
      else let m = (case current of Some c \<Rightarrow> next_manifest (cand_manifest c) | None \<Rightarrow> first_manifest slot);
               target = (case current of Some c \<Rightarrow> cand_slot c XOR 1 | None \<Rightarrow> 0);
               (r, m, s) = write_objects k ob slot target [] ws m s
      in if r \<noteq> PICOKEYS_OK then (r, s) else switch_manifest k ob slot target m s)"

subsection \<open>The interface\<close>

definition container_writes :: "objs \<Rightarrow> bytes \<Rightarrow> bytes \<Rightarrow> bytes \<Rightarrow> bytes \<Rightarrow> resident_container_write list" where
  "container_writes ob rp cid cred pk =
     [\<lparr>w_object_type = FIDO_RESIDENT_OBJECT_RP_ID_HASH, w_data = Some rp, w_data_size = 32,
       w_protection = oa_authenticated_public ob, w_flags = 0\<rparr>,
      \<lparr>w_object_type = FIDO_RESIDENT_OBJECT_CLIENT_ID, w_data = Some cid, w_data_size = word_of_nat (length cid),
       w_protection = oa_authenticated_public ob, w_flags = 0\<rparr>,
      \<lparr>w_object_type = FIDO_RESIDENT_OBJECT_CREDENTIAL, w_data = Some cred, w_data_size = word_of_nat (length cred),
       w_protection = oa_aead_secret ob, w_flags = oa_flag_mutable ob OR oa_flag_non_exportable ob\<rparr>,
      \<lparr>w_object_type = FIDO_RESIDENT_OBJECT_PUBLIC_KEY, w_data = Some pk, w_data_size = word_of_nat (length pk),
       w_protection = oa_authenticated_public ob, w_flags = 0\<rparr>]"

definition resident_container_create ::
    "sdk \<Rightarrow> objs \<Rightarrow> byte \<Rightarrow> bytes option \<Rightarrow> bytes option \<Rightarrow> bytes option \<Rightarrow> bytes option \<Rightarrow>
     'a resident_scheme \<Rightarrow> rc \<times> 'a resident_scheme" where
  "resident_container_create k ob slot rp cid cred pk s =
     (case (rp, cid, cred, pk) of
        (Some rp, Some cid, Some cred, Some pk) \<Rightarrow>
          if int (length cid) > 0xFFFFFFFF \<or> int (length cred) > 0xFFFFFFFF \<or> int (length pk) > 0xFFFFFFFF
          then (PICOKEYS_ERR_NULL_PARAM, s)
          else resident_container_update k ob slot (container_writes ob rp cid cred pk) s
      | _ \<Rightarrow> (PICOKEYS_ERR_NULL_PARAM, s))"

definition credential_write :: "objs \<Rightarrow> bytes option \<Rightarrow> resident_container_write" where
  "credential_write ob cred =
     \<lparr>w_object_type = FIDO_RESIDENT_OBJECT_CREDENTIAL, w_data = cred,
      w_data_size = word_of_nat (case cred of None \<Rightarrow> 0 | Some d \<Rightarrow> length d),
      w_protection = oa_aead_secret ob, w_flags = oa_flag_mutable ob OR oa_flag_non_exportable ob\<rparr>"

definition resident_container_update_credential ::
    "sdk \<Rightarrow> objs \<Rightarrow> byte \<Rightarrow> bytes option \<Rightarrow> 'a resident_scheme \<Rightarrow> rc \<times> 'a resident_scheme" where
  "resident_container_update_credential k ob slot cred s =
     (if (case cred of None \<Rightarrow> False | Some d \<Rightarrow> int (length d) > 0xFFFFFFFF) then (PICOKEYS_ERR_NULL_PARAM, s)
      else resident_container_update k ob slot [credential_write ob cred] s)"

text \<open>The outcome with the size written through \<open>object_size\<close>.\<close>

definition resident_container_object_size ::
    "sdk \<Rightarrow> objs \<Rightarrow> byte \<Rightarrow> u16 \<Rightarrow> u32 \<Rightarrow> 'a resident_scheme \<Rightarrow> rc \<times> u32 \<times> 'a resident_scheme" where
  "resident_container_object_size k ob slot ty size0 s =
     (if \<not> resident_object_type_valid ty then (PICOKEYS_ERR_NULL_PARAM, size0, s)
      else let (auth, s) = fido_object_manifest_authenticator ob s
           in if \<not> auth then (PICOKEYS_EXEC_ERROR, 0, s)
              else let (r, cs, current, s) = resident_manifest_load k ob slot auth s
                   in if r \<noteq> PICOKEYS_OK then (r, 0, s)
                      else let m = cand_manifest (the current)
                           in case resident_manifest_find m ty of
                                None \<Rightarrow> (PICOKEYS_ERR_FILE_NOT_FOUND, 0, s)
                              | Some i \<Rightarrow> (PICOKEYS_OK, logical_size (objects m ! i), s))"

text \<open>
  The two attempts of \<open>resident_container_read\<close>. A triple of the status so far, the buffer
  and the number of bytes written; the boolean says that the function has returned.
\<close>

definition read_attempt ::
    "sdk \<Rightarrow> objs \<Rightarrow> u16 \<Rightarrow> resident_manifest_candidate \<Rightarrow> bool \<times> rc \<times> bytes \<times> nat \<Rightarrow> 'a fido_scheme \<Rightarrow>
     (bool \<times> rc \<times> bytes \<times> nat) \<times> 'a fido_scheme" where
  "read_attempt k ob ty c st s =
     (case st of (finished, r, buf, written) \<Rightarrow>
        if finished \<or> \<not> cand_valid c then (st, s)
        else case resident_manifest_find (cand_manifest c) ty of
               None \<Rightarrow> (st, s)
             | Some i \<Rightarrow>
                 let (r, d, s) = resident_unseal k ob (cand_manifest c) (objects (cand_manifest c) ! i) (length buf) s;
                     buf = take (length buf) (d @ drop (length d) buf)
                 in ((r = PICOKEYS_OK, r, buf, length d), s))"

definition resident_container_read ::
    "sdk \<Rightarrow> objs \<Rightarrow> byte \<Rightarrow> u16 \<Rightarrow> bytes \<Rightarrow> nat \<Rightarrow> 'a resident_scheme \<Rightarrow> rc \<times> bytes \<times> nat \<times> 'a resident_scheme" where
  "resident_container_read k ob slot ty buf written0 s =
     (if \<not> resident_object_type_valid ty then (PICOKEYS_ERR_NULL_PARAM, buf, written0, s)
      else let (auth, s) = fido_object_manifest_authenticator ob s;
               (protector, s) = fido_object_record_protector ob s
      in if \<not> auth \<or> \<not> protector then (PICOKEYS_EXEC_ERROR, buf, 0, s)
      else let (r, cs, current, s) = resident_manifest_load k ob slot auth s
      in if r \<noteq> PICOKEYS_OK then (r, buf, 0, s)
      else let c = the current;
               (st, s) = read_attempt k ob ty c (False, r, buf, 0) s;
               (st, s) = read_attempt k ob ty (cand cs (cand_slot c XOR 1)) st s
      in case st of (finished, r, buf, written) \<Rightarrow>
           if finished then (PICOKEYS_OK, buf, written, s)
           else (r, replicate (length buf) 0, written, s))"

definition container_fids :: "byte \<Rightarrow> byte \<Rightarrow> fid list" where
  "container_fids slot ms = map (resident_record_fid slot ms) object_types @ [resident_manifest_fid slot ms]"

definition resident_container_delete ::
    "sdk \<Rightarrow> objs \<Rightarrow> byte \<Rightarrow> 'a resident_scheme \<Rightarrow> rc \<times> 'a resident_scheme" where
  "resident_container_delete k ob slot s =
     (let marker = file_search s (cred_fid slot)
      in if \<not> resident_container_is_marker s marker then (PICOKEYS_ERR_FILE_NOT_FOUND, s)
         else let (auth, s) = fido_object_manifest_authenticator ob s;
                  (r, cs, current, s) = resident_manifest_load k ob slot auth s
              in if r \<noteq> PICOKEYS_OK then (r, s)
                 else let s = fold (delete_present k) (container_fids slot 0 @ container_fids slot 1) s;
                          (_, s) = file_delete_no_commit k marker s;
                          (b, s) = flash_commit_sync k COMMIT_TIMEOUT s
                      in (if b then PICOKEYS_OK else PICOKEYS_ERR_MEMORY_FATAL, s))"

end
