(* ===== verification/Flash_Trace.thy ===== *)
theory Flash_Trace
  imports Platform "HOL-Library.Sublist"
begin

text \<open>
  What a power failure leaves of the files. The trace \<open>wlog\<close> is replayed over the files:
  an operation is durable once a synchronous commit behind it has succeeded; of the operations
  behind the last such commit any subset may have reached the flash, in their order. This is
  weaker than the storage of \<open>tests/fido_resident_container_test.c\<close>, which keeps all or none.
\<close>

fun apply_op :: "flash_op \<Rightarrow> files \<Rightarrow> files" where
  "apply_op (New f) fs = (if fs f = None then fs(f \<mapsto> []) else fs)"
| "apply_op (Put f d) fs = fs(f \<mapsto> d)"
| "apply_op (Delete f) fs = fs(f := None)"
| "apply_op (Clear f) fs = (if fs f = None then fs else fs(f \<mapsto> []))"
| "apply_op Commit fs = fs"
| "apply_op (CommitSync b) fs = fs"

fun target_of :: "flash_op \<Rightarrow> fid option" where
  "target_of (New f) = Some f"
| "target_of (Put f d) = Some f"
| "target_of (Delete f) = Some f"
| "target_of (Clear f) = Some f"
| "target_of _ = None"

definition replay :: "files \<Rightarrow> flash_op list \<Rightarrow> files" where
  "replay fs w = fold apply_op w fs"

lemma replay_simps [simp]:
  "replay fs [] = fs" "replay fs (x # w) = replay (apply_op x fs) w"
  "replay fs (v @ w) = replay (replay fs v) w"
  by (simp_all add: replay_def)

lemma apply_op_other: "target_of x \<noteq> Some f \<Longrightarrow> apply_op x fs f = fs f"
  by (cases x) auto

lemma replay_other: "\<forall>x \<in> set w. target_of x \<noteq> Some f \<Longrightarrow> replay fs w f = fs f"
  by (induction w arbitrary: fs) (simp_all add: apply_op_other)

text \<open>
  \<open>crashes base pend w\<close>: the files after a power failure at some point of the trace \<open>w\<close>, when
  \<open>base\<close> is durable and \<open>pend\<close> has been requested since the last synchronous commit.
\<close>

definition persisted :: "files \<Rightarrow> flash_op list \<Rightarrow> files set" where
  "persisted base pend = (replay base) ` set (subseqs pend)"

fun crashes :: "files \<Rightarrow> flash_op list \<Rightarrow> flash_op list \<Rightarrow> files set" where
  "crashes base pend [] = persisted base pend"
| "crashes base pend (x # w) =
     (if x = CommitSync True then persisted base pend \<union> crashes (replay base pend) [] w
      else crashes base (pend @ [x]) w)"

lemma persistedE:
  assumes "fs \<in> persisted base pend"
  obtains b where "subseq b pend" and "fs = replay base b"
  using assms by (auto simp: persisted_def)

lemma crashes_append:
  assumes "CommitSync True \<notin> set a"
  shows "crashes base pend (a @ w) = crashes base (pend @ a) w"
  using assms by (induction a arbitrary: pend) auto

lemma crashes_plain:
  assumes "CommitSync True \<notin> set a"
  shows "crashes base pend a = persisted base (pend @ a)"
  using crashes_append [OF assms, of base pend "[]"] by simp

text \<open>A set closed under whatever part of the pending operations gets through contains the persisted states.\<close>

lemma persisted_subset:
  assumes "\<And>b. subseq b pend \<Longrightarrow> replay base b \<in> G"
  shows "persisted base pend \<subseteq> G"
  using assms by (auto elim!: persistedE)

lemma subseq_all: "subseq b w \<Longrightarrow> \<forall>x \<in> set w. P x \<Longrightarrow> \<forall>x \<in> set b. P x"
  using set_nths_subset [of w] by (auto simp: subseq_conv_nths)

subsection \<open>Successful calls and the trace\<close>

lemma file_put_data_replay:
  assumes "put_law k" and "file_put_data k (Some f) d s = (r, t)"
  shows "wlog t = wlog s @ [Put f d]" and "r = PICOKEYS_OK \<Longrightarrow> files t = (files s)(f \<mapsto> d)"
  using assms(2) file_put_data_ok [OF assms(1), of "Some f" d s t]
  by (auto simp: file_put_data_def Let_def split: prod.splits)

lemma file_new_replay:
  assumes "new_law k" and "file_new k f s = (p, t)"
  shows "wlog t = wlog s @ [New f]" and "p = None \<or> p = Some f"
    and "p \<noteq> None \<Longrightarrow> files t = apply_op (New f) (files s)"
  using assms(2) file_new_cases [OF assms] by (auto simp: file_new_def Let_def split: prod.splits)

lemma file_delete_no_commit_replay:
  assumes "delete_law k" and "file_delete_no_commit k (Some f) s = (r, t)"
  shows "wlog t = wlog s @ [Delete f]" and "r = PICOKEYS_OK \<Longrightarrow> files t = apply_op (Delete f) (files s)"
  using assms(2) file_delete_no_commit_cases [OF assms] by (auto simp: file_delete_no_commit_def Let_def split: prod.splits)

lemma flash_commit_sync_replay:
  assumes "flash_commit_sync k n s = (b, t)"
  shows "wlog t = wlog s @ [CommitSync b]" and "files t = files s"
  using assms by (auto simp: flash_commit_sync_def Let_def)

end
