(* ===== verification/Resident_Store.thy ===== *)
theory Resident_Store
  imports Resident_Commands Flash_Trace
begin

text \<open>
  When a container is in good order: its files are disjoint from everything else, the current
  manifest parses under the device key, its records open, and what lies in the other manifest
  slot is not newer. The contents of such a container are a map from object types to bytes.
\<close>

subsection \<open>File identifiers\<close>

definition fid_of :: "byte \<Rightarrow> byte \<Rightarrow> fid" where
  "fid_of p slot = ucast (push_bit 8 (ucast p :: u32) OR ucast slot)"

lemma fid_of_slot: "ucast (fid_of p slot) = slot"
  unfolding fid_of_def by (rule bit_word_eqI) (auto simp: bit_simps)

lemma fid_of_prefix: "ucast (drop_bit 8 (fid_of p slot)) = p"
  unfolding fid_of_def by (rule bit_word_eqI) (auto simp: bit_simps dest: bit_imp_le_length)

lemma fid_of_inject [simp]: "fid_of p slot = fid_of q slot' \<longleftrightarrow> p = q \<and> slot = slot'"
  by (metis fid_of_slot fid_of_prefix)

lemma manifest_fid_of: "resident_manifest_fid slot ms = fid_of (if ms = 0 then 0xd1 else 0xd2) slot"
  by (simp add: resident_manifest_fid_def fid_of_def Let_def)

lemma valid_types: "resident_object_type_valid ty \<longleftrightarrow> ty \<in> set object_types"
proof -
  have "ty \<in> {1, 2, 3, 4}" if "1 \<le> ty" "ty \<le> 4"
  proof -
    have "unat ty = 1 \<or> unat ty = 2 \<or> unat ty = 3 \<or> unat ty = 4" using that by (auto simp: word_le_nat_alt)
    then show ?thesis by (auto simp: word_unat_eq_iff)
  qed
  then show ?thesis by (auto simp: resident_object_type_valid_def object_types_def)
qed

lemma record_fid_of:
  assumes "ty \<in> set object_types"
  shows "resident_record_fid slot ms ty = fid_of ((if ms = 0 then 0xd2 else 0xd6) + ucast ty) slot"
  using assms by (auto simp: resident_record_fid_def fid_of_def Let_def object_types_def)

lemma fid_of_plus: "(push_bit 8 (ucast p) + ucast slot :: u16) = fid_of p slot"
proof -
  have "(push_bit 8 (ucast p) + ucast slot :: u16) = push_bit 8 (ucast p) OR ucast slot"
    by (rule disjunctive_add) (auto simp: bit_simps dest: bit_imp_le_length)
  also have "\<dots> = fid_of p slot"
    unfolding fid_of_def by (rule bit_word_eqI) (auto simp: bit_simps dest: bit_imp_le_length)
  finally show ?thesis .
qed

lemma cred_fid_of: "cred_fid slot = fid_of 0xcf slot"
  using fid_of_plus [where p = "0xcf" and slot = slot] by (simp add: cred_fid_def)

lemma key_dev_fid_of: "0xCC00 = fid_of 0xcc 0"
  by (simp add: fid_of_def)

lemma manifest_not_record [simp]:
  "ty \<in> set object_types \<Longrightarrow> resident_record_fid slot ms ty \<noteq> resident_manifest_fid slot' ms'"
  by (auto simp: record_fid_of manifest_fid_of object_types_def)

lemma key_dev_not_container [simp]:
  "resident_manifest_fid slot ms \<noteq> EF_KEY_DEV" "cred_fid slot \<noteq> EF_KEY_DEV"
  "ty \<in> set object_types \<Longrightarrow> resident_record_fid slot ms ty \<noteq> EF_KEY_DEV"
  by (auto simp: record_fid_of manifest_fid_of cred_fid_of key_dev_fid_of object_types_def)

lemma cred_not_container [simp]:
  "resident_manifest_fid slot ms \<noteq> cred_fid slot'"
  "ty \<in> set object_types \<Longrightarrow> resident_record_fid slot ms ty \<noteq> cred_fid slot'"
  by (auto simp: record_fid_of manifest_fid_of cred_fid_of object_types_def)

lemma record_fid_inject:
  assumes "ty \<in> set object_types" and "ty' \<in> set object_types"
  shows "resident_record_fid slot ms ty = resident_record_fid slot' ms' ty' \<longleftrightarrow>
    slot = slot' \<and> (ms = 0 \<longleftrightarrow> ms' = 0) \<and> ty = ty'"
  using assms by (auto simp: record_fid_of object_types_def split: if_splits)

lemma manifest_fid_inject:
  "resident_manifest_fid slot ms = resident_manifest_fid slot' ms' \<longleftrightarrow> slot = slot' \<and> (ms = 0 \<longleftrightarrow> ms' = 0)"
  by (auto simp: manifest_fid_of)

lemma ucast_fid_le [simp]: "ucast (f :: fid) \<le> (0xFFFF :: u32)"
proof -
  have "unat f < 65536" using unsigned_less [of f] by simp
  then show ?thesis by (simp add: word_le_nat_alt unsigned_ucast_eq take_bit_nat_eq_self)
qed

subsection \<open>What the code relies on of the object layer\<close>

text \<open>
  A sealed record opens under every manifest with the same identity and the same descriptor
  (whatever the generation of the manifest: records outlive the manifest they were written
  for), its header matches its descriptor, and a manifest that was built parses back.
\<close>

definition same_identity :: "file_object_manifest \<Rightarrow> file_object_manifest \<Rightarrow> bool" where
  "same_identity m m' \<longleftrightarrow> namespace_id m' = namespace_id m \<and> container_kind m' = container_kind m \<and>
     container_id m' = container_id m \<and> object m' = object m \<and> has_object m' = has_object m"

definition seal_law :: "objs \<Rightarrow> bool" where
  "seal_law ob \<longleftrightarrow> (\<forall>p n m desc policy d capacity c.
     oa_seal ob p n m policy d capacity = (PICOKEYS_OK, c) \<and> object m = Some desc \<longrightarrow>
     oa_header ob c desc = PICOKEYS_OK \<and>
     (\<forall>m' capacity'. same_identity m m' \<and> length d \<le> capacity' \<longrightarrow>
        oa_unseal ob p m' policy c capacity' = (PICOKEYS_OK, d)))"

definition build_law :: "objs \<Rightarrow> bool" where
  "build_law ob \<longleftrightarrow> (\<forall>p m capacity d. oa_build ob p m capacity = (PICOKEYS_OK, d) \<longrightarrow>
     d \<noteq> [] \<and> (\<exists>m'. oa_parse ob (Some p) d = (PICOKEYS_OK, m') \<and>
       namespace_id m' = namespace_id m \<and> container_kind m' = container_kind m \<and>
       container_id m' = container_id m \<and> man_generation m' = man_generation m \<and> objects m' = objects m))"

definition objs_laws :: "objs \<Rightarrow> bool" where
  "objs_laws ob \<longleftrightarrow> seal_law ob \<and> build_law ob \<and> 0 < oa_record_header_size ob \<and>
     fst (resident_policy_hash ob) = PICOKEYS_OK"

text \<open>The authenticator and the protector are available.\<close>

definition objs_available :: "objs \<Rightarrow> bool" where
  "objs_available ob \<longleftrightarrow> (\<forall>n ns. oa_init ob n ns = PICOKEYS_OK) \<and> oa_authenticator ob \<and> oa_protector ob"

subsection \<open>The provider\<close>

text \<open>
  Loading the device key writes only when it upgrades a key stored in the older encrypted
  format; a settled key is loaded without effect.
\<close>

definition key_settled :: "'a fido_scheme \<Rightarrow> bool" where
  "key_settled s \<longleftrightarrow> has_keydev_dec s \<or>
     (case files s EF_KEY_DEV of None \<Rightarrow> True | Some d \<Rightarrow> d = [] \<or> d ! 0 \<noteq> 0x02)"

definition the_provider :: "sdk \<Rightarrow> 'a fido_scheme \<Rightarrow> provider" where
  "the_provider k s = fst (with_provider k s)"

text \<open>The value a settled key loads as, from the fields it depends on.\<close>

definition keydev_value :: "sdk \<Rightarrow> bytes \<Rightarrow> bool \<Rightarrow> bytes \<Rightarrow> bytes \<Rightarrow> bytes \<Rightarrow> rc \<times> bytes" where
  "keydev_value k key0 dec keydev pin d =
     (if \<not> dec \<and> d = [] then (PICOKEYS_ERR_MEMORY_FATAL, key0)
      else if dec then (PICOKEYS_OK, keydev)
      else if length d = 32
      then (case sdk_otp_key k of None \<Rightarrow> (PICOKEYS_OK, d)
            | Some otp \<Rightarrow> let (ret, key) = sdk_aes_dec k otp None d
                in (if ret \<noteq> PICOKEYS_OK then PICOKEYS_EXEC_ERROR else PICOKEYS_OK, key))
      else if (length d = 33 \<or> length d = 61) \<and> (d ! 0 = 0x01 \<or> d ! 0 = 0x03)
      then let (ret, key) = (if d ! 0 = 0x03 then sdk_aead_dec k pin (tl (fit 61 d)) 2 else (PICOKEYS_OK, take 32 (tl d)))
           in if ret \<noteq> PICOKEYS_OK then (PICOKEYS_EXEC_ERROR, key0)
              else let (ret, key) = sdk_aes_dec k (sdk_kbase k) (Some (sdk_serial_hash k)) key
                   in (if ret \<noteq> PICOKEYS_OK then PICOKEYS_EXEC_ERROR else PICOKEYS_OK, key)
      else (PICOKEYS_OK, key0))"

lemma load_keydev_settled:
  fixes k :: sdk and key0 :: bytes
  assumes "key_settled s"
  defines "d \<equiv> (case files s EF_KEY_DEV of None \<Rightarrow> [] | Some d \<Rightarrow> d)"
  defines "v \<equiv> keydev_value k key0 (has_keydev_dec s) (keydev_dec s) (session_pin s) d"
  shows "load_keydev k key0 s = (fst v, snd v, s)"
proof -
  have d: "file_get_data s (file_search s EF_KEY_DEV) = d" "file_has_data s (file_search s EF_KEY_DEV) \<longleftrightarrow> d \<noteq> []"
    by (auto simp: d_def split: option.splits)
  have n: "has_keydev_dec s \<or> d = [] \<or> d ! 0 \<noteq> 0x02"
    using assms(1) by (auto simp: key_settled_def d_def split: option.splits)
  consider "has_keydev_dec s \<or> d = []" | "\<not> has_keydev_dec s" "d \<noteq> []" "length d = 32"
    | "\<not> has_keydev_dec s" "d \<noteq> []" "length d = 33 \<or> length d = 61" "d ! 0 = 0x01"
    | "\<not> has_keydev_dec s" "d \<noteq> []" "length d = 33 \<or> length d = 61" "d ! 0 = 0x03"
    | "\<not> has_keydev_dec s" "d \<noteq> []" "length d \<noteq> 32" "\<not> ((length d = 33 \<or> length d = 61) \<and> (d ! 0 = 0x01 \<or> d ! 0 = 0x03))"
    by blast
  then show ?thesis
  proof cases
    case 1
    then show ?thesis by (auto simp: load_keydev_def v_def keydev_value_def Let_def d simp del: file_search_data)
  next
    case 2
    then show ?thesis
      by (simp add: load_keydev_def v_def keydev_value_def Let_def d split_beta del: file_search_data split: option.splits)
  next
    case 3
    then have "length d \<noteq> 32" by auto
    with 3 show ?thesis
      by (simp add: load_keydev_def v_def keydev_value_def Let_def d split_beta del: file_search_data)
  next
    case 4
    then have "length d \<noteq> 32" by auto
    with 4 show ?thesis
      by (simp add: load_keydev_def v_def keydev_value_def Let_def d split_beta del: file_search_data)
  next
    case 5
    with n have c: "(length d = 33 \<or> length d = 61) = False \<or> (d ! 0 \<noteq> 0x01 \<and> d ! 0 \<noteq> 0x02 \<and> d ! 0 \<noteq> 0x03)" by blast
    then show ?thesis
    proof
      assume "(length d = 33 \<or> length d = 61) = False"
      with 5 show ?thesis by (simp add: load_keydev_def v_def keydev_value_def Let_def d del: file_search_data)
    next
      assume "d ! 0 \<noteq> 0x01 \<and> d ! 0 \<noteq> 0x02 \<and> d ! 0 \<noteq> 0x03"
      with 5 show ?thesis by (simp add: load_keydev_def v_def keydev_value_def Let_def d del: file_search_data)
    qed
  qed
qed

lemma with_provider_settled: "key_settled s \<Longrightarrow> with_provider k s = (the_provider k s, s)"
  by (simp add: the_provider_def with_provider_def fido_object_root_load_def load_keydev_settled)

lemma same_key:
  assumes "has_keydev_dec t = has_keydev_dec s" "keydev_dec t = keydev_dec s" "session_pin t = session_pin s"
    and "files t EF_KEY_DEV = files s EF_KEY_DEV" and "key_settled s"
  shows "key_settled t" "the_provider k t = the_provider k s"
proof -
  show t: "key_settled t" using assms by (simp add: key_settled_def)
  show "the_provider k t = the_provider k s"
    by (simp add: the_provider_def with_provider_def fido_object_root_load_def
        load_keydev_settled [OF t] load_keydev_settled [OF assms(5)] assms)
qed

subsection \<open>Containers in good order\<close>

definition policy :: "objs \<Rightarrow> bytes" where
  "policy ob = snd (resident_policy_hash ob)"

definition is_identity :: "byte \<Rightarrow> file_object_manifest \<Rightarrow> bool" where
  "is_identity slot m \<longleftrightarrow> namespace_id m = FIDO_OBJECT_NAMESPACE \<and>
     container_kind m = FIDO_RESIDENT_CONTAINER_KIND \<and> container_id m = ucast slot"

text \<open>The stored bytes \<open>c\<close> are a record of the descriptor that opens to \<open>v\<close>.\<close>

definition opens :: "objs \<Rightarrow> provider \<Rightarrow> byte \<Rightarrow> file_object_descriptor \<Rightarrow> bytes \<Rightarrow> bytes \<Rightarrow> bool" where
  "opens ob P slot desc c v \<longleftrightarrow> c \<noteq> [] \<and> oa_header ob c desc = PICOKEYS_OK \<and>
     unat (logical_size desc) = length v \<and>
     (\<forall>m capacity. is_identity slot m \<and> has_object m \<and> object m = Some desc \<and> length v \<le> capacity \<longrightarrow>
        oa_unseal ob P m (policy ob) c capacity = (PICOKEYS_OK, v))"

definition record_in :: "objs \<Rightarrow> provider \<Rightarrow> byte \<Rightarrow> files \<Rightarrow> (u16 \<rightharpoonup> bytes) \<Rightarrow> file_object_descriptor \<Rightarrow> bool" where
  "record_in ob P slot fs V desc \<longleftrightarrow> object_tag desc = 0 \<and> resident_record_id_valid slot desc \<and>
     (\<exists>c v. fs (ucast (record_id desc)) = Some c \<and> V (object_type desc) = Some v \<and> opens ob P slot desc c v)"

definition manifest_in :: "objs \<Rightarrow> provider \<Rightarrow> byte \<Rightarrow> byte \<Rightarrow> file_object_manifest \<Rightarrow> files \<Rightarrow> bool" where
  "manifest_in ob P slot c m fs \<longleftrightarrow>
     (\<exists>d. fs (resident_manifest_fid slot c) = Some d \<and> d \<noteq> [] \<and> oa_parse ob (Some P) d = (PICOKEYS_OK, m))"

definition soft :: "rc \<Rightarrow> bool" where
  "soft r \<longleftrightarrow> r = PICOKEYS_ERR_FILE_NOT_FOUND \<or> r = PICOKEYS_WRONG_DATA \<or> r = PICOKEYS_WRONG_SIGNATURE"

definition stale_manifest :: "objs \<Rightarrow> provider \<Rightarrow> byte \<Rightarrow> byte \<Rightarrow> u32 \<Rightarrow> files \<Rightarrow> bool" where
  "stale_manifest ob P slot c g fs \<longleftrightarrow>
     (\<forall>d r m. fs (resident_manifest_fid slot c) = Some d \<and> d \<noteq> [] \<and> oa_parse ob (Some P) d = (r, m) \<longrightarrow>
        soft r \<or> r = PICOKEYS_OK \<and> man_generation m < g)"

definition container_in ::
    "objs \<Rightarrow> provider \<Rightarrow> byte \<Rightarrow> byte \<Rightarrow> file_object_manifest \<Rightarrow> (u16 \<rightharpoonup> bytes) \<Rightarrow> files \<Rightarrow> bool" where
  "container_in ob P slot c m V fs \<longleftrightarrow> (c = 0 \<or> c = 1) \<and> manifest_in ob P slot c m fs \<and> is_identity slot m \<and>
     objects m \<noteq> [] \<and> distinct (map object_type (objects m)) \<and> dom V = object_type ` set (objects m) \<and>
     (\<forall>desc \<in> set (objects m). record_in ob P slot fs V desc) \<and>
     stale_manifest ob P slot (c XOR 1) (man_generation m) fs"

subsection \<open>Loading\<close>

lemma check_objects_result: "check_objects ob slot s seen ds = PICOKEYS_OK \<or> check_objects ob slot s seen ds = PICOKEYS_WRONG_DATA"
  by (induction ob slot s seen ds rule: check_objects.induct) (auto simp: Let_def)

lemma check_objects_ok:
  assumes "distinct (seen @ map object_type ds)" and "\<forall>desc \<in> set ds. record_in ob P slot (files s) V desc"
  shows "check_objects ob slot s seen ds = PICOKEYS_OK"
  using assms
proof (induction ds arbitrary: seen)
  case Nil
  then show ?case by simp
next
  case (Cons desc ds)
  then obtain c v where c: "files s (ucast (record_id desc)) = Some c" "opens ob P slot desc c v"
      "resident_record_id_valid slot desc"
    by (auto simp: record_in_def)
  have "distinct ((seen @ [object_type desc]) @ map object_type ds)" using Cons.prems(1) by simp
  then have "check_objects ob slot s (seen @ [object_type desc]) ds = PICOKEYS_OK"
    using Cons.prems(2) by (intro Cons.IH) simp_all
  with c Cons.prems(1) show ?case by (auto simp: opens_def Let_def)
qed

lemma parse_slot_settled:
  assumes "key_settled s"
  shows "\<exists>r c. resident_manifest_parse_slot k ob slot ms True s = (r, c, s) \<and> (cand_valid c \<longleftrightarrow> r = PICOKEYS_OK) \<and>
    (r = PICOKEYS_OK \<longrightarrow> manifest_in ob (the_provider k s) slot ms (cand_manifest c) (files s) \<and> cand_slot c = ms) \<and>
    (\<forall>g. stale_manifest ob (the_provider k s) slot ms g (files s) \<longrightarrow>
       soft r \<or> r = PICOKEYS_OK \<and> man_generation (cand_manifest c) < g)"
proof -
  let ?f = "resident_manifest_fid slot ms" and ?P = "the_provider k s"
  show ?thesis
  proof (cases "file_has_data s (file_search s ?f)")
    case False
    then show ?thesis
      by (simp add: resident_manifest_parse_slot_def Let_def empty_candidate_def soft_def del: file_search_data)
  next
    case True
    then obtain d where d: "files s ?f = Some d" "d \<noteq> []" by auto
    obtain r m where p: "oa_parse ob (Some ?P) d = (r, m)" by (cases "oa_parse ob (Some ?P) d")
    then show ?thesis
      using d check_objects_result [of ob slot s "[]" "objects m"]
      by (auto simp: resident_manifest_parse_slot_def file_object_manifest_parse_def with_provider_settled [OF assms]
          Let_def empty_candidate_def soft_def manifest_in_def stale_manifest_def)
  qed
qed

lemma parse_slot_current:
  assumes "key_settled s" and "container_in ob (the_provider k s) slot c m V (files s)"
  shows "resident_manifest_parse_slot k ob slot c True s =
    (PICOKEYS_OK, \<lparr>cand_manifest = m, cand_slot = c, cand_valid = True\<rparr>, s)"
proof -
  obtain d where d: "files s (resident_manifest_fid slot c) = Some d" "d \<noteq> []"
      "oa_parse ob (Some (the_provider k s)) d = (PICOKEYS_OK, m)"
    using assms(2) by (auto simp: container_in_def manifest_in_def)
  have "check_objects ob slot s [] (objects m) = PICOKEYS_OK"
    using assms(2) by (intro check_objects_ok [where P = "the_provider k s" and V = V]) (auto simp: container_in_def)
  with d assms(2) show ?thesis
    by (simp add: resident_manifest_parse_slot_def file_object_manifest_parse_def with_provider_settled [OF assms(1)]
        Let_def container_in_def is_identity_def empty_candidate_def)
qed

lemma load_current:
  assumes "key_settled s" and "container_in ob (the_provider k s) slot c m V (files s)"
  shows "\<exists>cs. resident_manifest_load k ob slot True s =
      (PICOKEYS_OK, cs, Some \<lparr>cand_manifest = m, cand_slot = c, cand_valid = True\<rparr>, s) \<and>
    (files s (resident_manifest_fid slot (c XOR 1)) = None \<longrightarrow> \<not> cand_valid (cand cs (c XOR 1)))"
proof -
  note cur = parse_slot_current [OF assms]
  obtain r c1 where o: "resident_manifest_parse_slot k ob slot (c XOR 1) True s = (r, c1, s)"
      and g: "soft r \<or> r = PICOKEYS_OK \<and> man_generation (cand_manifest c1) < man_generation m"
      and v: "cand_valid c1 \<longrightarrow> manifest_in ob (the_provider k s) slot (c XOR 1) (cand_manifest c1) (files s)"
    using parse_slot_settled [OF assms(1), of k ob slot "c XOR 1"] assms(2)
    by (auto simp: container_in_def)
  have "c = 0 \<or> c = 1" using assms(2) by (simp add: container_in_def)
  with cur o g v show ?thesis
    by (auto simp: resident_manifest_load_def load_step_def Let_def soft_def cand_def manifest_in_def)
qed

end
