(* ===== verification/Resident_Read.thy ===== *)
theory Resident_Read
  imports Resident_Store
begin

text \<open>
  Reading a container in good order: each of its objects, and what is missing.
\<close>

definition same_store :: "'a fido_scheme \<Rightarrow> 'a fido_scheme \<Rightarrow> bool" where
  "same_store s t \<longleftrightarrow> files t = files s \<and> wlog t = wlog s \<and> has_keydev_dec t = has_keydev_dec s \<and>
     keydev_dec t = keydev_dec s \<and> session_pin t = session_pin s"

lemma same_store_refl [simp]: "same_store s s"
  by (simp add: same_store_def)

lemma same_store_trans: "same_store s t \<Longrightarrow> same_store t u \<Longrightarrow> same_store s u"
  by (simp add: same_store_def)

lemma same_store_key:
  assumes "same_store s t" and "key_settled s"
  shows "key_settled t" "the_provider k t = the_provider k s" "files t = files s" "wlog t = wlog s"
  using assms same_key(1) [where s = s and t = t] same_key(2) [where s = s and t = t and k = k] by (simp_all add: same_store_def)

lemma authenticator_same: "fido_object_manifest_authenticator ob s = (b, t) \<Longrightarrow> same_store s t"
  by (auto simp: fido_object_manifest_authenticator_def fido_object_crypto_provider_init_def same_store_def Let_def
      split: if_splits)

lemma protector_same: "fido_object_record_protector ob s = (b, t) \<Longrightarrow> same_store s t"
  by (auto simp: fido_object_record_protector_def fido_object_crypto_provider_init_def same_store_def Let_def
      split: if_splits)

lemma calloc_same: "calloc k n s = (b, t) \<Longrightarrow> same_store s t"
  by (auto simp: calloc_def same_store_def)

lemma authenticator_available: "objs_available ob \<Longrightarrow> fst (fido_object_manifest_authenticator ob s)"
  by (auto simp: fido_object_manifest_authenticator_def fido_object_crypto_provider_init_def objs_available_def Let_def)

lemma protector_available: "objs_available ob \<Longrightarrow> fst (fido_object_record_protector ob s)"
  by (auto simp: fido_object_record_protector_def fido_object_crypto_provider_init_def objs_available_def Let_def)

text \<open>Both handles, with the state they leave.\<close>

lemma handles:
  assumes "objs_available ob"
  obtains t u where "fido_object_manifest_authenticator ob s = (True, t)"
    and "fido_object_record_protector ob t = (True, u)" and "same_store s t" and "same_store s u"
proof -
  obtain t where t: "fido_object_manifest_authenticator ob s = (True, t)"
    using authenticator_available [OF assms, of s] by (cases "fido_object_manifest_authenticator ob s") auto
  obtain u where u: "fido_object_record_protector ob t = (True, u)"
    using protector_available [OF assms, of t] by (cases "fido_object_record_protector ob t") auto
  show thesis
    using that t u authenticator_same [OF t] protector_same [OF u] same_store_trans by blast
qed

subsection \<open>Unsealing\<close>

lemma unseal_settled:
  assumes "key_settled s"
  shows "\<exists>r d. resident_unseal k ob m desc capacity s = (r, d, s)"
  by (auto simp: resident_unseal_def file_object_record_unseal_def with_provider_settled [OF assms] Let_def
      split: prod.splits)

lemma unseal_record:
  assumes "key_settled s" and "objs_laws ob" and "record_in ob (the_provider k s) slot (files s) V desc"
    and "is_identity slot m" and "V (object_type desc) = Some v" and "length v \<le> capacity"
  shows "resident_unseal k ob m desc capacity s = (PICOKEYS_OK, v, s)"
proof -
  obtain c where c: "files s (ucast (record_id desc)) = Some c" "opens ob (the_provider k s) slot desc c v"
    using assms(3,5) by (auto simp: record_in_def)
  have "resident_policy_hash ob = (PICOKEYS_OK, policy ob)"
    using assms(2) by (simp add: objs_laws_def policy_def prod_eq_iff)
  with c assms(4,6) show ?thesis
    by (simp add: resident_unseal_def file_object_record_unseal_def with_provider_settled [OF assms(1)] Let_def
        opens_def is_identity_def)
qed

text \<open>\<open>find_object\<close> finds the descriptor of a type.\<close>

lemma find_object_Some:
  "find_object ds ty = Some i \<Longrightarrow> i < length ds \<and> object_type (ds ! i) = ty \<and> object_tag (ds ! i) = 0"
  by (induction ds ty arbitrary: i rule: find_object.induct) (auto split: if_splits)

lemma find_object_None: "find_object ds ty = None \<longleftrightarrow> (\<forall>desc \<in> set ds. \<not> (object_type desc = ty \<and> object_tag desc = 0))"
  by (induction ds ty rule: find_object.induct) auto

lemma container_find:
  assumes "container_in ob P slot c m V fs"
  shows "V ty = Some v \<Longrightarrow> \<exists>i. resident_manifest_find m ty = Some i \<and> i < length (objects m) \<and> object_type (objects m ! i) = ty"
    and "V ty = None \<Longrightarrow> resident_manifest_find m ty = None"
proof -
  have tags: "\<forall>desc \<in> set (objects m). object_tag desc = 0" and dom: "dom V = object_type ` set (objects m)"
    using assms by (auto simp: container_in_def record_in_def)
  show "\<exists>i. resident_manifest_find m ty = Some i \<and> i < length (objects m) \<and> object_type (objects m ! i) = ty"
    if "V ty = Some v"
  proof -
    have "ty \<in> object_type ` set (objects m)" using that dom by auto
    then have "find_object (objects m) ty \<noteq> None" using tags by (auto simp: find_object_None)
    then show ?thesis using find_object_Some by (auto simp: resident_manifest_find_def)
  qed
  show "resident_manifest_find m ty = None" if "V ty = None"
    using that dom tags by (auto simp: resident_manifest_find_def find_object_None)
qed

lemma container_record:
  assumes "container_in ob P slot c m V fs" and "i < length (objects m)"
  shows "record_in ob P slot fs V (objects m ! i)"
  using assms by (simp add: container_in_def)

lemma container_types:
  assumes "container_in ob P slot c m V fs" and "V ty = Some v"
  shows "ty \<in> set object_types"
proof -
  have "ty \<in> object_type ` set (objects m)" using assms by (auto simp: container_in_def)
  then show ?thesis
    using assms(1) by (auto simp: container_in_def record_in_def resident_record_id_valid_def valid_types split: if_splits)
qed

subsection \<open>Reading\<close>

lemma container_read_object:
  assumes "key_settled s" and "objs_laws ob" and "objs_available ob"
    and "container_in ob (the_provider k s) slot c m V (files s)" and "V ty = Some v" and "length v \<le> length buf"
  shows "\<exists>t. resident_container_read k ob slot ty buf n s = (PICOKEYS_OK, v @ drop (length v) buf, length v, t) \<and>
    same_store s t"
proof -
  obtain t u where h: "fido_object_manifest_authenticator ob s = (True, t)"
      "fido_object_record_protector ob t = (True, u)" and su: "same_store s u"
    using handles [OF assms(3), of s] by blast
  note key = same_store_key [OF su assms(1)]
  obtain cs where l: "resident_manifest_load k ob slot True u =
      (PICOKEYS_OK, cs, Some \<lparr>cand_manifest = m, cand_slot = c, cand_valid = True\<rparr>, u)"
    using load_current [of u ob k slot c m V] key assms(4) by auto
  obtain i where i: "resident_manifest_find m ty = Some i" "i < length (objects m)" "object_type (objects m ! i) = ty"
    using container_find(1) [OF assms(4,5)] by blast
  have "resident_unseal k ob m (objects m ! i) (length buf) u = (PICOKEYS_OK, v, u)"
    using unseal_record [OF key(1) assms(2), of k slot V "objects m ! i" m v] key assms(4-6) i container_record [OF assms(4) i(2)]
    by (simp add: container_in_def)
  moreover have "resident_object_type_valid ty" using container_types [OF assms(4,5)] by (simp add: valid_types)
  ultimately show ?thesis
    using h l i(1) su assms(6) by (simp add: resident_container_read_def read_attempt_def Let_def)
qed

text \<open>
  An object that the only manifest does not have: nothing is read, and the answer is that
  all went well.
\<close>

lemma container_read_missing:
  assumes "key_settled s" and "objs_available ob" and "ty \<in> set object_types"
    and "container_in ob (the_provider k s) slot c m V (files s)" and "V ty = None"
    and "files s (resident_manifest_fid slot (c XOR 1)) = None"
  shows "\<exists>t. resident_container_read k ob slot ty buf n s = (PICOKEYS_OK, replicate (length buf) 0, 0, t)"
proof -
  obtain t u where h: "fido_object_manifest_authenticator ob s = (True, t)"
      "fido_object_record_protector ob t = (True, u)" and su: "same_store s u"
    using handles [OF assms(2), of s] by blast
  note key = same_store_key [OF su assms(1)]
  obtain cs where l: "resident_manifest_load k ob slot True u =
      (PICOKEYS_OK, cs, Some \<lparr>cand_manifest = m, cand_slot = c, cand_valid = True\<rparr>, u)"
      and nv: "\<not> cand_valid (cand cs (c XOR 1))"
    using load_current [of u ob k slot c m V] key assms(4,6) by auto
  show ?thesis
    using h l nv container_find(2) [OF assms(4,5)] assms(3)
    by (simp add: resident_container_read_def read_attempt_def Let_def valid_types)
qed

end
