(* ===== verification/Two_Phase.thy ===== *)
theory Two_Phase
  imports Flash_Trace
begin

text \<open>
  The contract of a two-phase update. Operations of the first phase keep the old view, the
  first synchronous commit makes everything the new view needs durable (\<open>ready\<close>), any part
  of the second phase leaves the old or the new view, and what follows keeps the new one. Then
  a power failure at any point leaves one of the two.
\<close>

lemma replay_closed:
  assumes "\<And>fs x. G fs \<Longrightarrow> E x \<Longrightarrow> G (apply_op x fs)" and "G fs" and "\<forall>x \<in> set w. E x"
  shows "G (replay fs w)"
  using assms(2,3) by (induction w arbitrary: fs) (simp_all add: assms(1))

lemma crashes_closed:
  assumes "\<And>fs x. G fs \<Longrightarrow> E x \<Longrightarrow> G (apply_op x fs)"
    and "G base" and "\<forall>x \<in> set (pend @ w). E x" and "fs \<in> crashes base pend w"
  shows "G fs"
proof -
  have p: "G fs" if "G base" "\<forall>x \<in> set pend. E x" "fs \<in> persisted base pend" for base pend fs
  proof (rule persistedE [OF that(3)])
    fix b assume b: "subseq b pend" "fs = replay base b"
    have "\<forall>x \<in> set b. E x" by (rule subseq_all [OF b(1) that(2)])
    with replay_closed [of G E base b] assms(1) that(1) show "G fs" unfolding b(2) by blast
  qed
  show ?thesis
    using assms(2-4)
  proof (induction base pend w rule: crashes.induct)
    case (1 base pend)
    then show ?case using p by simp
  next
    case (2 base pend x w)
    show ?case
    proof (cases "x = CommitSync True")
      case True
      then consider "fs \<in> persisted base pend" | "fs \<in> crashes (replay base pend) [] w"
        using "2.prems"(3) by auto
      then show ?thesis
      proof cases
        case 1
        then show ?thesis using p [OF _ _ 1] "2.prems"(1,2) by simp
      next
        case 2
        have "G (replay base pend)" using replay_closed [of G E, OF assms(1)] "2.prems"(1,2) by simp
        then show ?thesis using "2.IH"(1) True 2 "2.prems"(2) by simp
      qed
    next
      case False
      with 2 show ?thesis by simp
    qed
  qed
qed

locale two_phase =
  fixes old ready new :: "files \<Rightarrow> bool" and early mid late :: "flash_op \<Rightarrow> bool"
  assumes early_old: "\<And>fs x. old fs \<Longrightarrow> early x \<Longrightarrow> old (apply_op x fs)"
    and mid_ready: "\<And>fs w. ready fs \<Longrightarrow> \<forall>x \<in> set w. mid x \<Longrightarrow> old (replay fs w) \<or> new (replay fs w)"
    and late_new: "\<And>fs x. new fs \<Longrightarrow> late x \<Longrightarrow> new (apply_op x fs)"
begin

lemma early_replay: "old fs \<Longrightarrow> \<forall>x \<in> set w. early x \<Longrightarrow> old (replay fs w)"
  by (rule replay_closed [where E = early]) (simp_all add: early_old)

lemma late_replay: "new fs \<Longrightarrow> \<forall>x \<in> set w. late x \<Longrightarrow> new (replay fs w)"
  by (rule replay_closed [where E = late]) (simp_all add: late_new)

lemma first_phase:
  assumes "old base" and "\<forall>x \<in> set (pend @ a). early x" and "fs \<in> crashes base pend a"
  shows "old fs"
  by (rule crashes_closed [OF early_old assms])

lemma second_phase:
  assumes "old base" and "\<forall>x \<in> set (pend @ a). early x" and "CommitSync True \<notin> set a"
    and "ready (replay base (pend @ a))" and "\<forall>x \<in> set b. mid x" and "CommitSync True \<notin> set b"
    and "fs \<in> crashes base pend (a @ CommitSync True # b)"
  shows "old fs \<or> new fs"
proof -
  have "fs \<in> persisted base (pend @ a) \<or> fs \<in> persisted (replay base (pend @ a)) b"
    using assms(3,6,7) by (simp add: crashes_append crashes_plain)
  then show ?thesis
  proof
    assume "fs \<in> persisted base (pend @ a)"
    then show ?thesis using first_phase [OF assms(1,2), of fs] assms(3) by (simp add: crashes_plain)
  next
    assume "fs \<in> persisted (replay base (pend @ a)) b"
    then show ?thesis by (rule persistedE) (use assms(4,5) mid_ready subseq_all in blast)
  qed
qed

lemma third_phase:
  assumes "old base" and "\<forall>x \<in> set (pend @ a). early x" and "CommitSync True \<notin> set a"
    and "ready (replay base (pend @ a))" and "\<forall>x \<in> set b. mid x" and "CommitSync True \<notin> set b"
    and "new (replay base (pend @ a @ b))" and "\<forall>x \<in> set w. late x"
    and "fs \<in> crashes base pend (a @ CommitSync True # b @ CommitSync True # w)"
  shows "old fs \<or> new fs"
proof -
  have "fs \<in> crashes base pend (a @ CommitSync True # b) \<or>
      fs \<in> crashes (replay base (pend @ a @ b)) [] w"
    using assms(3,6,9) by (simp add: crashes_append crashes_plain)
  then show ?thesis
    using second_phase [OF assms(1-6)] crashes_closed [of new late "replay base (pend @ a @ b)" "[]" w fs]
      late_new assms(7,8) by auto
qed

end

end
