(* ===== verification/Resident_Phases.thy ===== *)
theory Resident_Phases
  imports Resident_Read Two_Phase
begin

text \<open>
  The phases of \<open>resident_container_update\<close>: what each asks the flash to do, and what the
  files hold when it succeeds.
\<close>

subsection \<open>Replacing a file\<close>

lemma replace_file_effect:
  assumes "flash_laws k" and "resident_replace_file k f d s = (r, t)"
  shows "store_step s t \<and> (\<exists>ops. wlog t = wlog s @ ops \<and> set ops \<subseteq> {Delete f, New f, Put f d} \<and>
    (r = PICOKEYS_OK \<longrightarrow> files t = (files s)(f \<mapsto> d) \<and> replay (files s) ops = files t))"
proof -
  have k: "put_law k" "new_law k" "delete_law k" using assms(1) by (simp_all add: flash_laws_def)
  define first where "first = (if file_search s f \<noteq> None then file_delete_no_commit k (file_search s f) s else (PICOKEYS_OK, s))"
  obtain r1 s1 where 1: "first = (r1, s1)" by (cases first)
  have c: "resident_replace_file k f d s = (if r1 \<noteq> PICOKEYS_OK then (PICOKEYS_EXEC_ERROR, s1)
      else let (file, s) = file_new k f s1
           in if file = None then (PICOKEYS_ERR_NO_MEMORY, s) else file_put_data k file d s)"
    using 1 by (simp add: resident_replace_file_def first_def Let_def)
  have "store_step s s1 \<and> (\<exists>ops. wlog s1 = wlog s @ ops \<and> set ops \<subseteq> {Delete f} \<and>
      (r1 = PICOKEYS_OK \<longrightarrow> files s1 = replay (files s) ops))"
  proof (cases "file_search s f = None")
    case True
    then show ?thesis using 1 by (simp add: first_def)
  next
    case False
    then have "file_delete_no_commit k (Some f) s = (r1, s1)" using 1 by (auto simp: first_def file_search_def split: if_splits)
    then show ?thesis
      using file_delete_no_commit_replay [OF k(3)] file_delete_no_commit_step by (intro conjI exI [of _ "[Delete f]"]) auto
  qed
  then obtain ops1 where s1: "store_step s s1" "wlog s1 = wlog s @ ops1" "set ops1 \<subseteq> {Delete f}"
      "r1 = PICOKEYS_OK \<Longrightarrow> files s1 = replay (files s) ops1" by blast
  show ?thesis
  proof (cases "r1 = PICOKEYS_OK")
    case False
    then show ?thesis using s1 c assms(2) by auto
  next
    case True
    obtain p s2 where 2: "file_new k f s1 = (p, s2)" by (cases "file_new k f s1")
    note n = file_new_replay [OF k(2) 2] file_new_step [OF 2]
    show ?thesis
    proof (cases p)
      case None
      then have "t = s2" "r \<noteq> PICOKEYS_OK" using c True 2 assms(2) by auto
      then show ?thesis
        using s1 n store_step_trans [OF s1(1) n(4)] by (intro conjI exI [of _ "ops1 @ [New f]"]) auto
    next
      case (Some f')
      then have p: "p = Some f" using n(2) by simp
      then have put: "file_put_data k (Some f) d s2 = (r, t)" using c True 2 assms(2) by simp
      note pp = file_put_data_replay [OF k(1) put] file_put_data_step [OF put]
      have s12: "store_step s t" using s1(1) n(4) pp(3) store_step_trans by blast
      have fs2: "files s2 = replay (files s) (ops1 @ [New f])" using n(3) p s1(4) True by simp
      have o: "files s2 g = files s g" if "g \<noteq> f" for g
        unfolding fs2 using s1(3) that by (intro replay_other) auto
      have "files t = (files s)(f \<mapsto> d)" if "r = PICOKEYS_OK"
        using pp(2) that o by (auto simp: fun_eq_iff)
      moreover have "replay (files s) (ops1 @ [New f, Put f d]) = files t" if "r = PICOKEYS_OK"
        using pp(2) that fs2 by simp
      ultimately show ?thesis
        using s1 n(1) pp(1) s12 by (intro conjI exI [of _ "ops1 @ [New f, Put f d]"]) auto
    qed
  qed
qed

subsection \<open>Writing one record\<close>

lemma record_write_effect:
  assumes "flash_laws k" and "objs_laws ob" and "key_settled s"
    and "resident_record_write k ob slot target w g G s = (r, desc, t)"
  defines "f \<equiv> resident_record_fid slot target (w_object_type w)"
  shows "store_step s t \<and> desc = resident_descriptor slot target w g \<and>
    (\<exists>ops. wlog t = wlog s @ ops \<and> (\<forall>x \<in> set ops. target_of x = Some f) \<and>
      (r = PICOKEYS_OK \<longrightarrow> files t = replay (files s) ops \<and>
        (\<exists>c. files t = (files s)(f \<mapsto> c) \<and> opens ob (the_provider k s) slot desc c (payload w))))"
proof -
  have pol: "resident_policy_hash ob = (PICOKEYS_OK, policy ob)"
    using assms(2) by (simp add: objs_laws_def policy_def prod_eq_iff)
  define rm where "rm = empty_manifest\<lparr>namespace_id := FIDO_OBJECT_NAMESPACE, container_kind := FIDO_RESIDENT_CONTAINER_KIND,
                 container_id := ucast slot, man_generation := G,
                 previous_generation := (if G > 1 then G - 1 else 0),
                 has_object := True, object := Some (resident_descriptor slot target w g)\<rparr>"
  define n where "n = oa_record_header_size ob + unat (w_data_size w) + oa_tag_size ob"
  obtain b s1 where 1: "calloc k n s = (b, s1)" by (cases "calloc k n s")
  obtain r2 c where sl: "oa_seal ob (the_provider k s) (tick s1) rm (policy ob) (payload w) n = (r2, c)"
    by (cases "oa_seal ob (the_provider k s) (tick s1) rm (policy ob) (payload w) n")
  have key1: "key_settled s1" "the_provider k s1 = the_provider k s"
    using same_store_key [OF calloc_same [OF 1] assms(3)] by simp_all
  define s2 where "s2 = s1\<lparr>tick := Suc (tick s1)\<rparr>"
  have seal: "file_object_record_seal k ob rm (policy ob) (payload w) n s1 = (r2, c, s2)"
    using sl by (simp add: file_object_record_seal_def with_provider_settled [OF key1(1)] key1(2) s2_def)
  have st: "store_step s s2" "files s2 = files s" "wlog s2 = wlog s" "store_step s s1" "files s1 = files s" "wlog s1 = wlog s"
    using calloc_step [OF 1] calloc_files [OF 1] calloc_wlog [OF 1]
      store_step_trans [OF calloc_step [OF 1] store_step_tick] by (simp_all add: s2_def)
  note rw = assms(4)[unfolded resident_record_write_def Let_def pol prod.case rm_def [symmetric] n_def [symmetric] 1 f_def [symmetric]]
  have d: "desc = resident_descriptor slot target w g" using rw by (auto split: if_splits prod.splits)
  consider "t = s" "r \<noteq> PICOKEYS_OK" | "t = s1" "r \<noteq> PICOKEYS_OK" | "t = s2" "r \<noteq> PICOKEYS_OK"
    | "r2 = PICOKEYS_OK" "length c = n" "resident_replace_file k f c s2 = (r, t)"
    using rw seal by (auto split: if_splits prod.splits)
  then show ?thesis
  proof cases
    case 4
    have si: "same_identity rm m" if "is_identity slot m" "has_object m" "object m = Some desc" for m
      using that d by (simp add: same_identity_def rm_def is_identity_def)
    have "object rm = Some desc" using d by (simp add: rm_def)
    moreover have "seal_law ob" using assms(2) by (simp add: objs_laws_def)
    ultimately have law: "oa_header ob c desc = PICOKEYS_OK \<and> (\<forall>m capacity. same_identity rm m \<and>
        length (payload w) \<le> capacity \<longrightarrow> oa_unseal ob (the_provider k s) m (policy ob) c capacity = (PICOKEYS_OK, payload w))"
      using sl 4(1) unfolding seal_law_def by blast
    have "c \<noteq> []" using 4(2) assms(2) by (auto simp: n_def objs_laws_def)
    moreover have "unat (logical_size desc) = length (payload w)"
      using d by (simp add: resident_descriptor_def payload_def)
    ultimately have "opens ob (the_provider k s) slot desc c (payload w)"
      using law si by (simp add: opens_def)
    moreover note replace_file_effect [OF assms(1) 4(3)]
    ultimately show ?thesis
      using d st store_step_trans [OF st(1)] by (fastforce simp: subset_iff)
  qed (use d st in simp_all)
qed

subsection \<open>Writing the records of an update\<close>

definition objects_in ::
    "objs \<Rightarrow> provider \<Rightarrow> byte \<Rightarrow> files \<Rightarrow> (u16 \<rightharpoonup> bytes) \<Rightarrow> file_object_descriptor list \<Rightarrow> bool" where
  "objects_in ob P slot fs V ds \<longleftrightarrow> distinct (map object_type ds) \<and> dom V = object_type ` set ds \<and>
     (\<forall>desc \<in> set ds. record_in ob P slot fs V desc)"

definition updates :: "(u16 \<rightharpoonup> bytes) \<Rightarrow> resident_container_write list \<Rightarrow> u16 \<rightharpoonup> bytes" where
  "updates V ws = fold (\<lambda>w V. V(w_object_type w \<mapsto> payload w)) ws V"

lemma updates_simps [simp]:
  "updates V [] = V" "updates V (w # ws) = updates (V(w_object_type w \<mapsto> payload w)) ws"
  by (simp_all add: updates_def)

text \<open>No descriptor refers to a record file the writes go to.\<close>

definition unreferenced :: "byte \<Rightarrow> byte \<Rightarrow> u16 set \<Rightarrow> file_object_descriptor list \<Rightarrow> bool" where
  "unreferenced slot target types ds \<longleftrightarrow>
     (\<forall>desc \<in> set ds. \<forall>ty \<in> types. ucast (record_id desc) \<noteq> resident_record_fid slot target ty)"

text \<open>The records of the given types are those of manifest slot \<open>c\<close>.\<close>

definition homed :: "byte \<Rightarrow> byte \<Rightarrow> u16 set \<Rightarrow> file_object_descriptor list \<Rightarrow> bool" where
  "homed slot c types ds \<longleftrightarrow>
     (\<forall>desc \<in> set ds. object_type desc \<in> types \<longrightarrow> record_id desc = ucast (resident_record_fid slot c (object_type desc)))"

lemma record_fid_u32 [simp]: "ucast (ucast (f :: fid) :: u32) = f"
  by (rule bit_word_eqI) (auto simp: bit_simps)

lemma homed_unreferenced:
  assumes "homed slot c types ds" and "\<forall>desc \<in> set ds. resident_record_id_valid slot desc"
    and "types \<subseteq> set object_types" and "c = 0 \<or> c = 1"
  shows "unreferenced slot (c XOR 1) types ds"
  unfolding unreferenced_def
proof (intro ballI notI)
  fix desc ty
  assume d: "desc \<in> set ds" and ty: "ty \<in> types" and e: "ucast (record_id desc) = resident_record_fid slot (c XOR 1) ty"
  have v: "object_type desc \<in> set object_types"
      "ucast (record_id desc) = resident_record_fid slot 0 (object_type desc) \<or>
       ucast (record_id desc) = resident_record_fid slot 1 (object_type desc)"
    using assms(2) d by (auto simp: resident_record_id_valid_def valid_types Let_def split: if_splits)
  then have "object_type desc = ty" using e ty assms(3) by (auto simp: record_fid_inject subset_iff)
  then have "ucast (record_id desc) = resident_record_fid slot c ty"
    using assms(1) d ty by (auto simp: homed_def)
  then show False using e ty assms(3,4) by (auto simp: record_fid_inject subset_iff)
qed

lemma record_in_other:
  assumes "record_in ob P slot fs V desc" and "fs' (ucast (record_id desc)) = fs (ucast (record_id desc))"
    and "V' (object_type desc) = V (object_type desc)"
  shows "record_in ob P slot fs' V' desc"
  using assms by (simp add: record_in_def)

lemma record_id_ucast: "resident_record_id_valid slot desc \<Longrightarrow> ucast (record_id desc) = (f :: fid) \<longleftrightarrow> record_id desc = ucast f"
proof -
  assume "resident_record_id_valid slot desc"
  then have "record_id desc \<le> 0xFFFF" by (auto simp: resident_record_id_valid_def not_less split: if_splits)
  then have "unat (record_id desc) < 2 ^ 16" by (simp add: word_le_nat_alt)
  then have "ucast (ucast (record_id desc) :: fid) = record_id desc"
    by (simp add: word_unat_eq_iff unsigned_ucast_eq unsigned_take_bit_eq take_bit_nat_eq_self)
  moreover have "ucast (ucast f :: u32) = f"
    by (rule bit_word_eqI) (auto simp: bit_simps)
  ultimately show ?thesis by metis
qed

lemma objects_in_put:
  assumes "objects_in ob P slot fs V (objects m)" and "ty \<in> set object_types"
    and "find_object (objects m) ty = i" and "object_type desc = ty"
    and "record_in ob P slot fs' (V(ty \<mapsto> v)) desc"
    and "\<forall>d \<in> set (objects m). fs' (ucast (record_id d)) = fs (ucast (record_id d))"
  shows "objects_in ob P slot fs' (V(ty \<mapsto> v)) (objects (put_object m i desc))"
proof (cases i)
  case None
  have n: "ty \<notin> object_type ` set (objects m)"
    using assms(1,3) None by (auto simp: find_object_None objects_in_def record_in_def)
  have "record_in ob P slot fs' (V(ty \<mapsto> v)) d" if "d \<in> set (objects m)" for d
  proof (rule record_in_other [of ob P slot fs V d])
    show "record_in ob P slot fs V d" using assms(1) that by (simp add: objects_in_def)
    have "object_type d \<noteq> ty" using n that by blast
    then show "(V(ty \<mapsto> v)) (object_type d) = V (object_type d)" by simp
  qed (use assms(6) that in simp)
  moreover have "objects (put_object m i desc) = objects m @ [desc]" by (simp add: put_object_def None)
  moreover have "dom (V(ty \<mapsto> v)) = object_type ` set (objects m @ [desc])"
    using assms(1,4) by (simp add: objects_in_def)
  moreover have "distinct (map object_type (objects m @ [desc]))"
    using assms(1,4) n by (simp add: objects_in_def)
  ultimately show ?thesis
    using assms(5) by (simp add: objects_in_def)
next
  case (Some j)
  note j = find_object_Some [OF assms(3)[unfolded Some]]
  let ?ds = "(objects m)[j := desc]"
  have t: "map object_type ?ds = map object_type (objects m)"
    using j assms(4) by (simp add: map_update list_update_same_conv)
  have "record_in ob P slot fs' (V(ty \<mapsto> v)) d" if "d \<in> set ?ds" for d
  proof -
    obtain l where l: "l < length (objects m)" "d = ?ds ! l" using \<open>d \<in> set ?ds\<close> by (auto simp: in_set_conv_nth)
    show ?thesis
    proof (cases "l = j")
      case True
      with l assms(5) show ?thesis by simp
    next
      case False
      then have "object_type (objects m ! l) \<noteq> ty"
        using assms(1) l(1) j nth_eq_iff_index_eq [of "map object_type (objects m)" l j] by (auto simp: objects_in_def)
      with False l assms(1,6) show ?thesis
        by (auto simp: objects_in_def intro!: record_in_other [of ob P slot fs V _ fs'])
    qed
  qed
  moreover have "dom (V(ty \<mapsto> v)) = object_type ` set ?ds"
    using t j assms(1) by (metis (no_types, lifting) dom_fun_upd insert_absorb list.set_map nth_mem
        image_eqI objects_in_def option.distinct(1))
  ultimately show ?thesis
    using assms(1) t by (simp add: objects_in_def put_object_def Some)
qed

lemma put_object_frame [simp]:
  "namespace_id (put_object m i desc) = namespace_id m" "container_kind (put_object m i desc) = container_kind m"
  "container_id (put_object m i desc) = container_id m" "man_generation (put_object m i desc) = man_generation m"
  by (simp_all add: put_object_def split: option.splits)

lemma set_put_object: "set (objects (put_object m i desc)) \<subseteq> insert desc (set (objects m))"
  by (auto simp: put_object_def dest: set_update_subset_insert [THEN subsetD] split: option.splits)

text \<open>The types of the writes that were carried out are valid and distinct.\<close>

lemma write_objects_types:
  "write_objects k ob slot target seen ws m s = (PICOKEYS_OK, m', t) \<Longrightarrow>
   distinct (map w_object_type ws) \<and> w_object_type ` set ws \<subseteq> set object_types \<and>
   set seen \<inter> w_object_type ` set ws = {}"
proof (induction ws arbitrary: seen m s)
  case Nil
  then show ?case by simp
next
  case (Cons w ws)
  obtain m1 s1 where "write_objects k ob slot target (seen @ [w_object_type w]) ws m1 s1 = (PICOKEYS_OK, m', t)"
    using Cons.prems by (auto simp: Let_def split: if_splits prod.splits)
  from Cons.IH [OF this] Cons.prems show ?case
    by (auto simp: Let_def valid_types split: if_splits)
qed

lemma put_object_unreferenced:
  assumes "unreferenced slot target (w_object_type ` set (w # ws)) (objects m)"
    and "distinct (map w_object_type (w # ws))" and "w_object_type ` set (w # ws) \<subseteq> set object_types"
  shows "unreferenced slot target (w_object_type ` set ws)
    (objects (put_object m i (resident_descriptor slot target w g)))"
proof -
  have "ucast (record_id d) \<noteq> resident_record_fid slot target (w_object_type w')"
    if "d = resident_descriptor slot target w g \<or> d \<in> set (objects m)" and "w' \<in> set ws" for d w'
    using that(1)
  proof
    assume d: "d = resident_descriptor slot target w g"
    have "ucast (ucast (resident_record_fid slot target (w_object_type w)) :: u32) =
        resident_record_fid slot target (w_object_type w)"
      by (rule bit_word_eqI) (auto simp: bit_simps)
    moreover have "w_object_type w \<noteq> w_object_type w'" using assms(2) that(2) by auto
    ultimately show ?thesis
      using d assms(3) that(2) by (auto simp: resident_descriptor_def record_fid_inject)
  next
    assume "d \<in> set (objects m)"
    then show ?thesis using assms(1) that(2) by (auto simp: unreferenced_def)
  qed
  then show ?thesis using set_put_object [of m i "resident_descriptor slot target w g"]
    by (auto simp: unreferenced_def)
qed

text \<open>One round of the loop: nothing happens, or the record is written and the loop ends or goes on.\<close>

lemma write_objects_round:
  assumes "write_objects k ob slot target seen (w # ws) m s = (r, m', t)"
  obtains "t = s" and "r \<noteq> PICOKEYS_OK"
  | g r1 desc s1 where "resident_record_write k ob slot target w g (man_generation m) s = (r1, desc, s1)"
      and "w_object_type w \<in> set object_types" and "r \<noteq> PICOKEYS_OK" and "t = s1"
  | g desc s1 where "resident_record_write k ob slot target w g (man_generation m) s = (PICOKEYS_OK, desc, s1)"
      and "w_object_type w \<in> set object_types"
      and "write_objects k ob slot target (seen @ [w_object_type w]) ws
             (put_object m (resident_manifest_find m (w_object_type w)) desc) s1 = (r, m', t)"
proof -
  define i where "i = resident_manifest_find m (w_object_type w)"
  define g where "g = (case i of Some i \<Rightarrow> generation (objects m ! i) + 1 | None \<Rightarrow> 1)"
  obtain r1 desc s1 where w: "resident_record_write k ob slot target w g (man_generation m) s = (r1, desc, s1)"
    by (cases "resident_record_write k ob slot target w g (man_generation m) s") auto
  have "t = s \<and> r \<noteq> PICOKEYS_OK \<or> w_object_type w \<in> set object_types \<and> (r \<noteq> PICOKEYS_OK \<and> t = s1 \<or>
      r1 = PICOKEYS_OK \<and> write_objects k ob slot target (seen @ [w_object_type w]) ws (put_object m i desc) s1 = (r, m', t))"
    using assms w by (simp add: Let_def i_def [symmetric] g_def [symmetric] valid_types split: if_splits)
  then show thesis using that w i_def by blast
qed

lemma record_write_key:
  assumes "flash_laws k" and "objs_laws ob" and "key_settled s" and "w_object_type w \<in> set object_types"
    and "resident_record_write k ob slot target w g G s = (PICOKEYS_OK, desc, t)"
  shows "key_settled t" "the_provider k t = the_provider k s"
proof -
  note e = record_write_effect [OF assms(1-3,5)]
  have f: "files t EF_KEY_DEV = files s EF_KEY_DEV" using e assms(4) by (auto intro!: replay_other)
  have "store_step s t" using e by blast
  then show "key_settled t" "the_provider k t = the_provider k s"
    using f same_key(1) [where s = s and t = t] same_key(2) [where s = s and t = t and k = k] assms(3)
    by (auto simp: store_step_def)
qed

lemma write_objects_ops:
  assumes "flash_laws k" and "objs_laws ob" and "key_settled s"
    and "write_objects k ob slot target seen ws m s = (r, m', t)"
  shows "store_step s t \<and> (\<exists>ops. wlog t = wlog s @ ops \<and>
    (\<forall>x \<in> set ops. \<exists>ty \<in> w_object_type ` set ws \<inter> set object_types. target_of x = Some (resident_record_fid slot target ty)) \<and>
    (r = PICOKEYS_OK \<longrightarrow> files t = replay (files s) ops))"
  using assms(3,4)
proof (induction ws arbitrary: seen m s)
  case Nil
  then show ?case by simp
next
  case (Cons w ws)
  from Cons.prems(2) show ?case
  proof (cases rule: write_objects_round)
    case 1
    then show ?thesis by simp
  next
    case (2 g r1 desc s1)
    from record_write_effect [OF assms(1,2) Cons.prems(1) 2(1)] obtain ops where "store_step s s1"
        "wlog s1 = wlog s @ ops" "\<forall>x \<in> set ops. target_of x = Some (resident_record_fid slot target (w_object_type w))" by blast
    with 2 show ?thesis by (intro conjI exI [of _ ops]) auto
  next
    case (3 g desc s1)
    from record_write_effect [OF assms(1,2) Cons.prems(1) 3(1)] obtain ops1 where s1: "store_step s s1"
        and o1: "wlog s1 = wlog s @ ops1" "files s1 = replay (files s) ops1"
        "\<forall>x \<in> set ops1. target_of x = Some (resident_record_fid slot target (w_object_type w))" by auto
    from Cons.IH [OF record_write_key(1) [OF assms(1,2) Cons.prems(1) 3(2,1)] 3(3)] obtain ops2 where
        s2: "store_step s1 t" and o2: "wlog t = wlog s1 @ ops2" "r = PICOKEYS_OK \<longrightarrow> files t = replay (files s1) ops2"
        "\<forall>x \<in> set ops2. \<exists>ty \<in> w_object_type ` set ws \<inter> set object_types. target_of x = Some (resident_record_fid slot target ty)" by blast
    show ?thesis
      using store_step_trans [OF s1 s2] o1 o2 3(2) by (intro conjI exI [of _ "ops1 @ ops2"]) auto
  qed
qed

lemma write_objects_in:
  assumes "flash_laws k" and "objs_laws ob" and "key_settled s" and "target = 0 \<or> target = 1"
    and "write_objects k ob slot target seen ws m s = (PICOKEYS_OK, m', t)"
    and "objects_in ob (the_provider k s) slot (files s) V (objects m)"
    and "unreferenced slot target (w_object_type ` set ws) (objects m)"
    and "homed slot target (set seen) (objects m)"
  shows "objects_in ob (the_provider k s) slot (files t) (updates V ws) (objects m') \<and>
    homed slot target (set seen \<union> w_object_type ` set ws) (objects m') \<and>
    namespace_id m' = namespace_id m \<and> container_kind m' = container_kind m \<and> container_id m' = container_id m \<and>
    man_generation m' = man_generation m \<and> (ws \<noteq> [] \<or> objects m \<noteq> [] \<longrightarrow> objects m' \<noteq> [])"
  using assms(3,5-8)
proof (induction ws arbitrary: seen m s V)
  case Nil
  then show ?case by simp
next
  case (Cons w ws)
  note types = write_objects_types [OF Cons.prems(2)]
  let ?ty = "w_object_type w"
  from Cons.prems(2) show ?case
  proof (cases rule: write_objects_round)
    case (3 g desc s1)
    let ?m1 = "put_object m (resident_manifest_find m ?ty) desc"
    note e = record_write_effect [OF assms(1,2) Cons.prems(1) 3(1)]
    note key = record_write_key [OF assms(1,2) Cons.prems(1) 3(2,1)]
    from e have d: "desc = resident_descriptor slot target w g" by blast
    from e obtain c where c: "files s1 = (files s)(resident_record_fid slot target ?ty \<mapsto> c)"
        "opens ob (the_provider k s) slot desc c (payload w)" by blast
    have u: "ucast (ucast (resident_record_fid slot target ?ty) :: u32) = resident_record_fid slot target ?ty"
      by (rule bit_word_eqI) (auto simp: bit_simps)
    have "record_in ob (the_provider k s) slot (files s1) (V(?ty \<mapsto> payload w)) desc"
      using c d u 3(2) assms(4)
      by (auto simp: record_in_def resident_descriptor_def resident_record_id_valid_def valid_types not_less)
    moreover have "\<forall>d \<in> set (objects m). files s1 (ucast (record_id d)) = files s (ucast (record_id d))"
      using Cons.prems(4) c(1) by (auto simp: unreferenced_def)
    ultimately have o1: "objects_in ob (the_provider k s) slot (files s1) (V(?ty \<mapsto> payload w)) (objects ?m1)"
      using Cons.prems(3) 3(2) d by (intro objects_in_put [where fs = "files s"])
         (auto simp: resident_manifest_find_def resident_descriptor_def)
    have un: "unreferenced slot target (w_object_type ` set ws) (objects ?m1)"
      using put_object_unreferenced [OF Cons.prems(4)] types d by simp
    have "homed slot target (set (seen @ [?ty])) (objects ?m1)"
      unfolding homed_def
    proof (intro ballI impI)
      fix x
      assume x: "x \<in> set (objects ?m1)" and tx: "object_type x \<in> set (seen @ [?ty])"
      have dm: "desc \<in> set (objects ?m1)"
        by (auto simp: put_object_def resident_manifest_find_def split: option.splits
            dest: find_object_Some intro: set_update_memI)
      show "record_id x = ucast (resident_record_fid slot target (object_type x))"
      proof (cases "x = desc")
        case True
        then show ?thesis using d by (simp add: resident_descriptor_def)
      next
        case False
        then have "x \<in> set (objects m)" using x set_put_object by blast
        moreover have "object_type x \<noteq> ?ty"
          using o1 x dm False d by (auto simp: objects_in_def distinct_map inj_on_def resident_descriptor_def)
        ultimately show ?thesis using Cons.prems(5) tx by (auto simp: homed_def)
      qed
    qed
    note ih = Cons.IH [OF key(1) 3(3), unfolded key(2), OF o1 un this]
    have "objects ?m1 \<noteq> []"
      by (auto simp: put_object_def resident_manifest_find_def split: option.splits dest: find_object_Some)
    with ih show ?thesis by (simp add: fun_upd_def)
  qed auto
qed

end
