(* ===== verification/Resident_Crash.thy ===== *)
theory Resident_Crash
  imports Resident_Phases
begin

text \<open>
  The update of a container as a two-phase update: interpretations of the contract for the
  container that is replaced and for the place of a new one.
\<close>

subsection \<open>The views\<close>

text \<open>Operations that touch nothing the container in slot \<open>c\<close> with manifest \<open>m\<close> depends on.\<close>

definition harmless :: "byte \<Rightarrow> byte \<Rightarrow> file_object_manifest \<Rightarrow> flash_op \<Rightarrow> bool" where
  "harmless slot c m x \<longleftrightarrow> (case target_of x of None \<Rightarrow> True
     | Some f \<Rightarrow> f \<noteq> resident_manifest_fid slot c \<and> (\<forall>desc \<in> set (objects m). f \<noteq> ucast (record_id desc)) \<and>
         (f = resident_manifest_fid slot (c XOR 1) \<longrightarrow> x = Delete f \<or> x = New f))"

definition record_op :: "byte \<Rightarrow> byte \<Rightarrow> u16 set \<Rightarrow> flash_op \<Rightarrow> bool" where
  "record_op slot target types x \<longleftrightarrow> (case target_of x of None \<Rightarrow> True
     | Some f \<Rightarrow> \<exists>ty \<in> types \<inter> set object_types. f = resident_record_fid slot target ty)"

definition no_manifest_put :: "byte \<Rightarrow> flash_op \<Rightarrow> bool" where
  "no_manifest_put slot x \<longleftrightarrow> (\<forall>ms \<in> {0, 1}. let f = resident_manifest_fid slot ms in
     target_of x = Some f \<longrightarrow> x = Delete f \<or> x = New f)"

definition manifest_op :: "byte \<Rightarrow> byte \<Rightarrow> bytes \<Rightarrow> flash_op \<Rightarrow> bool" where
  "manifest_op slot target d x \<longleftrightarrow> target_of x = None \<or>
     (let f = resident_manifest_fid slot target in x = Delete f \<or> x = New f \<or> x = Put f d)"

definition old_container ::
    "objs \<Rightarrow> provider \<Rightarrow> byte \<Rightarrow> byte \<Rightarrow> file_object_manifest \<Rightarrow> (u16 \<rightharpoonup> bytes) \<Rightarrow> u16 set \<Rightarrow> files \<Rightarrow> bool" where
  "old_container ob P slot c m V types fs \<longleftrightarrow>
     container_in ob P slot c m V fs \<and> unreferenced slot (c XOR 1) types (objects m)"

definition no_manifest :: "byte \<Rightarrow> byte \<Rightarrow> files \<Rightarrow> bool" where
  "no_manifest slot c fs \<longleftrightarrow> fs (resident_manifest_fid slot c) = None \<or> fs (resident_manifest_fid slot c) = Some []"

definition absent :: "byte \<Rightarrow> files \<Rightarrow> bool" where
  "absent slot fs \<longleftrightarrow> no_manifest slot 0 fs \<and> no_manifest slot 1 fs"

text \<open>Everything of the new container is there but its manifest file \<open>d\<close>.\<close>

definition prepared ::
    "objs \<Rightarrow> provider \<Rightarrow> byte \<Rightarrow> byte \<Rightarrow> file_object_manifest \<Rightarrow> (u16 \<rightharpoonup> bytes) \<Rightarrow> bytes \<Rightarrow> files \<Rightarrow> bool" where
  "prepared ob P slot target m V d fs \<longleftrightarrow> (target = 0 \<or> target = 1) \<and> d \<noteq> [] \<and>
     oa_parse ob (Some P) d = (PICOKEYS_OK, m) \<and> is_identity slot m \<and> objects m \<noteq> [] \<and>
     objects_in ob P slot fs V (objects m) \<and> stale_manifest ob P slot (target XOR 1) (man_generation m) fs"

lemma slot_xor [simp]: "c = 0 \<or> c = 1 \<Longrightarrow> ((c :: byte) XOR 1) XOR 1 = c"
  by (simp add: xor.assoc)

lemma slot_xor_eq: "c = 0 \<or> c = 1 \<Longrightarrow> (c XOR 1 = 0 \<longleftrightarrow> (c :: byte) \<noteq> 0) \<and> (c XOR 1 = 0 \<or> c XOR 1 = 1)"
  by auto

lemma record_fid_not_manifest:
  assumes "resident_record_id_valid slot desc"
  shows "ucast (record_id desc) \<noteq> resident_manifest_fid slot' ms"
  using assms by (auto simp: resident_record_id_valid_def valid_types Let_def split: if_splits)

lemma record_fid_not_cred:
  assumes "resident_record_id_valid slot desc"
  shows "ucast (record_id desc) \<noteq> cred_fid slot'"
  using assms by (auto simp: resident_record_id_valid_def valid_types Let_def split: if_splits)

lemma container_objects_in: "container_in ob P slot c m V fs \<Longrightarrow> objects_in ob P slot fs V (objects m)"
  by (simp add: container_in_def objects_in_def)

lemma container_xor: "container_in ob P slot c m V fs \<Longrightarrow> c = 0 \<or> c = 1"
  by (simp add: container_in_def)

text \<open>The container is still there when its files are, and nothing new is in the other manifest slot.\<close>

lemma container_in_other:
  assumes "container_in ob P slot c m V fs" and "fs' (resident_manifest_fid slot c) = fs (resident_manifest_fid slot c)"
    and "\<forall>desc \<in> set (objects m). fs' (ucast (record_id desc)) = fs (ucast (record_id desc))"
    and "let f = resident_manifest_fid slot (c XOR 1) in fs' f = fs f \<or> fs' f = None \<or> fs' f = Some []"
  shows "container_in ob P slot c m V fs'"
  using assms unfolding container_in_def manifest_in_def stale_manifest_def Let_def
  by (auto intro: record_in_other)

lemma container_in_harmless:
  assumes "container_in ob P slot c m V fs" and "harmless slot c m x"
  shows "container_in ob P slot c m V (apply_op x fs)"
proof (rule container_in_other [OF assms(1)])
  show "apply_op x fs (resident_manifest_fid slot c) = fs (resident_manifest_fid slot c)"
    using assms(2) by (intro apply_op_other) (auto simp: harmless_def split: option.splits)
  show "\<forall>desc \<in> set (objects m). apply_op x fs (ucast (record_id desc)) = fs (ucast (record_id desc))"
    using assms(2) by (auto intro!: apply_op_other simp: harmless_def split: option.splits)
  let ?f = "resident_manifest_fid slot (c XOR 1)"
  show "let f = ?f in apply_op x fs f = fs f \<or> apply_op x fs f = None \<or> apply_op x fs f = Some []"
  proof (cases "target_of x = Some ?f")
    case True
    then have "x = Delete ?f \<or> x = New ?f" using assms(2) by (auto simp: harmless_def)
    then show ?thesis by auto
  next
    case False
    then show ?thesis by (simp add: apply_op_other)
  qed
qed

lemma record_op_harmless:
  assumes "old_container ob P slot c m V types fs" and "record_op slot (c XOR 1) types x"
  shows "harmless slot c m x"
  using assms
  by (auto simp: old_container_def record_op_def harmless_def unreferenced_def split: option.splits) metis+

text \<open>What the second phase leaves of the manifest file.\<close>

lemma manifest_ops_replay:
  assumes "\<forall>x \<in> set w. manifest_op slot target d x"
  defines "f \<equiv> resident_manifest_fid slot target"
  shows "(replay fs w f = fs f \<or> replay fs w f = None \<or> replay fs w f = Some [] \<or> replay fs w f = Some d) \<and>
    (\<forall>g. g \<noteq> f \<longrightarrow> replay fs w g = fs g)"
  using assms(1)
proof (induction w arbitrary: fs)
  case Nil
  then show ?case by simp
next
  case (Cons x w)
  have x: "target_of x = None \<or> x = Delete f \<or> x = New f \<or> x = Put f d"
    using Cons.prems by (auto simp: manifest_op_def f_def Let_def)
  have "apply_op x fs f \<in> {fs f, None, Some [], Some d}" using x by (cases x) auto
  moreover have "\<forall>g. g \<noteq> f \<longrightarrow> apply_op x fs g = fs g" using x by (cases x) auto
  moreover have "\<forall>x \<in> set w. manifest_op slot target d x" using Cons.prems by simp
  note Cons.IH [OF this, of "apply_op x fs"]
  ultimately show ?case by (auto simp del: apply_op.simps)
qed

lemma stale_manifest_cong:
  "fs' (resident_manifest_fid slot c) = fs (resident_manifest_fid slot c) \<Longrightarrow>
   stale_manifest ob P slot c g fs' = stale_manifest ob P slot c g fs"
  by (simp add: stale_manifest_def)

lemma prepared_switch:
  assumes "prepared ob P slot target m V d fs" and "fs' (resident_manifest_fid slot target) = Some d"
    and "\<forall>g. g \<noteq> resident_manifest_fid slot target \<longrightarrow> fs' g = fs g"
  shows "container_in ob P slot target m V fs'"
proof -
  have t: "target = 0 \<or> target = 1" using assms(1) by (simp add: prepared_def)
  have "record_in ob P slot fs' V desc" if "desc \<in> set (objects m)" for desc
  proof (rule record_in_other)
    show r: "record_in ob P slot fs V desc" using assms(1) that by (simp add: prepared_def objects_in_def)
    then have "resident_record_id_valid slot desc" by (simp add: record_in_def)
    then show "fs' (ucast (record_id desc)) = fs (ucast (record_id desc))"
      using assms(3) record_fid_not_manifest by blast
  qed simp
  moreover have "resident_manifest_fid slot (target XOR 1) \<noteq> resident_manifest_fid slot target"
    using t by (auto simp: manifest_fid_inject)
  then have "fs' (resident_manifest_fid slot (target XOR 1)) = fs (resident_manifest_fid slot (target XOR 1))"
    using assms(3) by blast
  then have "stale_manifest ob P slot (target XOR 1) (man_generation m) fs'"
    using assms(1) stale_manifest_cong by (metis prepared_def)
  ultimately show ?thesis
    using assms(1,2) by (simp add: prepared_def container_in_def manifest_in_def objects_in_def)
qed

interpretation replacing: two_phase
    "old_container ob P slot c m V types"
    "\<lambda>fs. old_container ob P slot c m V types fs \<and> prepared ob P slot (c XOR 1) m' V' d fs"
    "container_in ob P slot (c XOR 1) m' V'"
    "harmless slot c m" "manifest_op slot (c XOR 1) d" "harmless slot (c XOR 1) m'"
  for ob P slot c m V types m' V' d
proof
  fix fs x
  assume "old_container ob P slot c m V types fs" and "harmless slot c m x"
  then show "old_container ob P slot c m V types (apply_op x fs)"
    using container_in_harmless by (fastforce simp: old_container_def)
next
  fix fs w
  assume a: "old_container ob P slot c m V types fs \<and> prepared ob P slot (c XOR 1) m' V' d fs"
    and w: "\<forall>x \<in> set w. manifest_op slot (c XOR 1) d x"
  let ?f = "resident_manifest_fid slot (c XOR 1)"
  note r = manifest_ops_replay [OF w, of fs]
  show "old_container ob P slot c m V types (replay fs w) \<or> container_in ob P slot (c XOR 1) m' V' (replay fs w)"
  proof (cases "replay fs w ?f = Some d")
    case True
    then show ?thesis using prepared_switch a r by blast
  next
    case False
    have c: "container_in ob P slot c m V fs" using a by (simp add: old_container_def)
    have "resident_manifest_fid slot c \<noteq> ?f" using container_xor [OF c] by (auto simp: manifest_fid_inject)
    moreover have "ucast (record_id desc) \<noteq> ?f" if "desc \<in> set (objects m)" for desc
      using c that record_fid_not_manifest by (auto simp: container_in_def record_in_def)
    ultimately have "container_in ob P slot c m V (replay fs w)"
      using r False by (intro container_in_other [OF c]) (auto simp: Let_def)
    then show ?thesis using a by (simp add: old_container_def)
  qed
next
  fix fs x
  assume "container_in ob P slot (c XOR 1) m' V' fs" and "harmless slot (c XOR 1) m' x"
  then show "container_in ob P slot (c XOR 1) m' V' (apply_op x fs)" by (rule container_in_harmless)
qed

interpretation creating: two_phase
    "absent slot" "\<lambda>fs. absent slot fs \<and> prepared ob P slot 0 m' V' d fs" "container_in ob P slot 0 m' V'"
    "no_manifest_put slot" "manifest_op slot 0 d" "harmless slot 0 m'"
  for ob P slot m' V' d
proof
  fix fs x
  assume a: "absent slot fs" and x: "no_manifest_put slot x"
  have "no_manifest slot ms (apply_op x fs)" if "ms = 0 \<or> ms = 1" "no_manifest slot ms fs" for ms
  proof (cases "target_of x = Some (resident_manifest_fid slot ms)")
    case True
    then have "x = Delete (resident_manifest_fid slot ms) \<or> x = New (resident_manifest_fid slot ms)"
      using x that(1) by (auto simp: no_manifest_put_def Let_def)
    then show ?thesis using that(2) by (auto simp: no_manifest_def)
  next
    case False
    then show ?thesis using that(2) by (simp add: no_manifest_def apply_op_other)
  qed
  then show "absent slot (apply_op x fs)" using a by (simp add: absent_def)
next
  fix fs w
  assume a: "absent slot fs \<and> prepared ob P slot 0 m' V' d fs" and w: "\<forall>x \<in> set w. manifest_op slot 0 d x"
  note r = manifest_ops_replay [OF w, of fs]
  have "resident_manifest_fid slot 1 \<noteq> resident_manifest_fid slot 0" by (simp add: manifest_fid_inject)
  then show "absent slot (replay fs w) \<or> container_in ob P slot 0 m' V' (replay fs w)"
    using r a prepared_switch [of ob P slot 0 m' V' d fs "replay fs w"] by (auto simp: absent_def no_manifest_def)
next
  fix fs x
  assume "container_in ob P slot 0 m' V' fs" and "harmless slot 0 m' x"
  then show "container_in ob P slot 0 m' V' (apply_op x fs)" by (rule container_in_harmless)
qed

subsection \<open>From the written records to the new manifest\<close>

text \<open>Deleting files the container does not need, whether or not the deletion succeeds.\<close>

lemma delete_present_effect:
  assumes "delete_law k"
  shows "store_step s (delete_present k f s) \<and>
    (\<exists>ops. wlog (delete_present k f s) = wlog s @ ops \<and> set ops \<subseteq> {Delete f}) \<and>
    (files (delete_present k f s) = files s \<or> files (delete_present k f s) = apply_op (Delete f) (files s))"
proof (cases "file_search s f = None")
  case True
  then show ?thesis by (simp add: delete_present_def)
next
  case False
  then have f: "file_search s f = Some f" by (simp add: file_search_def split: if_splits)
  obtain r t where t: "file_delete_no_commit k (Some f) s = (r, t)" by (cases "file_delete_no_commit k (Some f) s")
  then show ?thesis
    using file_delete_no_commit_cases [OF assms t] file_delete_no_commit_replay(1) [OF assms t]
      file_delete_no_commit_step [OF t] f
    by (auto simp: delete_present_def)
qed

lemma delete_all_effect:
  assumes "delete_law k"
  shows "store_step s (fold (delete_present k) ds s) \<and>
    (\<exists>ops. wlog (fold (delete_present k) ds s) = wlog s @ ops \<and> set ops \<subseteq> Delete ` set ds)"
proof (induction ds arbitrary: s)
  case Nil
  then show ?case by simp
next
  case (Cons f ds)
  obtain ops where 1: "store_step s (delete_present k f s)" "wlog (delete_present k f s) = wlog s @ ops" "set ops \<subseteq> {Delete f}"
    using delete_present_effect [OF assms, of s f] by blast
  obtain ops2 where 2: "store_step (delete_present k f s) (fold (delete_present k) ds (delete_present k f s))"
      "wlog (fold (delete_present k) ds (delete_present k f s)) = wlog (delete_present k f s) @ ops2" "set ops2 \<subseteq> Delete ` set ds"
    using Cons.IH [of "delete_present k f s"] by blast
  show ?case
    using 1 2 store_step_trans [OF 1(1) 2(1)] by (intro conjI exI [of _ "ops @ ops2"]) auto
qed

lemma delete_all_container:
  assumes "delete_law k" and "\<forall>f \<in> set ds. harmless slot c m (Delete f)" and "container_in ob P slot c m V (files s)"
  shows "container_in ob P slot c m V (files (fold (delete_present k) ds s))"
  using assms(2,3)
proof (induction ds arbitrary: s)
  case Nil
  then show ?case by simp
next
  case (Cons f ds)
  have "container_in ob P slot c m V (files (delete_present k f s))"
    using delete_present_effect [OF assms(1), of s f] Cons.prems container_in_harmless [of ob P slot c m V "files s" "Delete f"]
    by auto
  with Cons show ?case by simp
qed

lemma stale_fids_harmless:
  assumes "container_in ob P slot target m V fs" and "objects m' = objects m" and "ms = 0 \<or> ms = 1"
    and "f \<in> set (stale_fids m' slot target ms)"
  shows "harmless slot target m (Delete f)"
proof -
  have t: "target = 0 \<or> target = 1" using container_xor [OF assms(1)] .
  have valid: "\<forall>desc \<in> set (objects m). resident_record_id_valid slot desc"
    using assms(1) by (simp add: container_in_def record_in_def)
  consider "f = resident_manifest_fid slot ms" "ms \<noteq> target"
    | ty where "f = resident_record_fid slot ms ty" "ty \<in> set object_types" "\<not> resident_manifest_references_fid m' f"
    using assms(4) by (auto simp: stale_fids_def split: if_splits)
  then show ?thesis
  proof cases
    case 1
    have "f \<noteq> ucast (record_id desc)" if "desc \<in> set (objects m)" for desc
      using 1 valid that record_fid_not_manifest by metis
    then show ?thesis using 1 assms(3) t by (auto simp: harmless_def manifest_fid_inject)
  next
    case 2
    have n: "\<forall>desc \<in> set (objects m). f \<noteq> ucast (record_id desc)"
    proof
      fix desc
      assume d: "desc \<in> set (objects m)"
      then have "record_id desc \<noteq> ucast f"
        using 2 assms(2) by (simp add: resident_manifest_references_fid_def list_ex_iff)
      then show "f \<noteq> ucast (record_id desc)" using record_id_ucast [of slot desc f] valid d by blast
    qed
    have "f \<noteq> resident_manifest_fid slot c" for c using 2 by simp
    with n show ?thesis by (simp add: harmless_def)
  qed
qed

lemma remove_stale_effect:
  assumes "delete_law k" and "container_in ob P slot target m V (files s)" and "objects m' = objects m"
  shows "store_step s (remove_stale k m' slot target s) \<and> container_in ob P slot target m V (files (remove_stale k m' slot target s)) \<and>
    (\<exists>ops. wlog (remove_stale k m' slot target s) = wlog s @ ops \<and> (\<forall>x \<in> set ops. harmless slot target m x \<and> x \<noteq> CommitSync True))"
proof -
  let ?ds = "stale_fids m' slot target 0 @ stale_fids m' slot target 1"
  have h: "\<forall>f \<in> set ?ds. harmless slot target m (Delete f)"
    using stale_fids_harmless [OF assms(2,3)] by auto
  show ?thesis
    using delete_all_effect [OF assms(1), of s ?ds] delete_all_container [OF assms(1) h assms(2)] h
    unfolding remove_stale_def by fastforce
qed

text \<open>The marker file belongs to no container.\<close>

lemma marker_write_effect:
  assumes "flash_laws k" and "container_in ob P slot c m V (files s)" and "resident_marker_write k slot s = (r, t)"
  shows "store_step s t \<and> (\<exists>ops. wlog t = wlog s @ ops \<and> (\<forall>x \<in> set ops. harmless slot c m x) \<and>
    (r = PICOKEYS_OK \<longrightarrow> container_in ob P slot c m V (files t)))"
proof -
  let ?f = "cred_fid slot"
  obtain r1 s1 where 1: "resident_replace_file k ?f (resident_marker slot) s = (r1, s1)"
    by (cases "resident_replace_file k ?f (resident_marker slot) s")
  from replace_file_effect [OF assms(1) 1] obtain ops where e: "store_step s s1" "wlog s1 = wlog s @ ops"
      "set ops \<subseteq> {Delete ?f, New ?f, Put ?f (resident_marker slot)}" "r1 = PICOKEYS_OK \<Longrightarrow> replay (files s) ops = files s1" by blast
  have nf: "?f \<noteq> ucast (record_id desc)" if "desc \<in> set (objects m)" for desc
    using assms(2) that record_fid_not_cred [of slot desc slot] by (auto simp: container_in_def record_in_def)
  have h: "\<forall>x \<in> set ops. harmless slot c m x"
  proof
    fix x
    assume "x \<in> set ops"
    then have "target_of x = Some ?f" using e(3) by auto
    then show "harmless slot c m x"
      using nf cred_not_container(1) [of slot _ slot] by (auto simp: harmless_def dest: sym)
  qed
  have c: "container_in ob P slot c m V (files s1)" if "r1 = PICOKEYS_OK"
    using replay_closed [of "container_in ob P slot c m V" "harmless slot c m" "files s" ops] container_in_harmless assms(2) h e(4) that by auto
  show ?thesis
  proof (cases "r1 = PICOKEYS_OK")
    case False
    then show ?thesis using assms(3) 1 e h by (auto simp: resident_marker_write_def)
  next
    case True
    obtain b s2 where 2: "flash_commit_sync k COMMIT_TIMEOUT s1 = (b, s2)" by (cases "flash_commit_sync k COMMIT_TIMEOUT s1")
    have "harmless slot c m (CommitSync b)" by (simp add: harmless_def)
    then show ?thesis
      using assms(3) 1 2 True e h c flash_commit_sync_replay [OF 2] store_step_trans [OF e(1) flash_commit_sync_step [OF 2]]
      by (intro conjI exI [of _ "ops @ [CommitSync b]"]) (auto simp: resident_marker_write_def Let_def)
  qed
qed

text \<open>
  The second half of an update: it stops before or at the first commit or while the manifest
  is written, or it gets past the second commit and the new container is there.
\<close>

lemma switch_manifest_effect:
  assumes "flash_laws k" and "objs_laws ob" and "key_settled s" and "switch_manifest k ob slot target m s = (r, t)"
    and "target = 0 \<or> target = 1" and "is_identity slot m" and "objects m \<noteq> []"
    and "objects_in ob (the_provider k s) slot (files s) V (objects m)"
    and "stale_manifest ob (the_provider k s) slot (target XOR 1) (man_generation m) (files s)"
  defines "P \<equiv> the_provider k s"
  shows "\<exists>ops. wlog t = wlog s @ ops \<and>
    ((r \<noteq> PICOKEYS_OK \<and> (\<forall>x \<in> set ops. target_of x = None)) \<or>
     (\<exists>d m' b. objects m' = objects m \<and> prepared ob P slot target m' V d (files s) \<and> (\<forall>x \<in> set b. manifest_op slot target d x) \<and>
        CommitSync True \<notin> set b \<and>
        (r \<noteq> PICOKEYS_OK \<and> ops = CommitSync True # b \<or>
         (\<exists>w. ops = CommitSync True # b @ CommitSync True # w \<and> container_in ob P slot target m' V (replay (files s) b) \<and>
            (\<forall>x \<in> set w. harmless slot target m' x) \<and>
            (r = PICOKEYS_OK \<longrightarrow> container_in ob P slot target m' V (files t))))))"
proof -
  obtain b1 s1 where 1: "flash_commit_sync k COMMIT_TIMEOUT s = (b1, s1)" by (cases "flash_commit_sync k COMMIT_TIMEOUT s")
  note c1 = flash_commit_sync_replay [OF 1] flash_commit_sync_step [OF 1]
  show ?thesis
  proof (cases b1)
    case False
    then have "t = s1" "r \<noteq> PICOKEYS_OK" using assms(4) 1 by (auto simp: switch_manifest_def)
    then show ?thesis using c1(1) by (intro exI [of _ "[CommitSync b1]"]) simp
  next
    case True
    have key: "key_settled s1" "the_provider k s1 = P"
      using same_key(1) [where s = s and t = s1] same_key(2) [where s = s and t = s1 and k = k] assms(3) c1
      by (auto simp: store_step_def P_def)
    obtain r2 d where 2: "oa_build ob P m (max_manifest_size ob) = (r2, d)" by (cases "oa_build ob P m (max_manifest_size ob)")
    then have bd: "file_object_manifest_build k ob m (max_manifest_size ob) s1 = (r2, d, s1)"
      by (simp add: file_object_manifest_build_def with_provider_settled [OF key(1)] key(2))
    show ?thesis
    proof (cases "r2 = PICOKEYS_OK")
      case False
      then have "t = s1" "r \<noteq> PICOKEYS_OK" using assms(4) 1 True bd by (auto simp: switch_manifest_def)
      then show ?thesis using c1(1) by (intro exI [of _ "[CommitSync b1]"]) simp
    next
      case r2: True
      have "build_law ob" using assms(2) by (simp add: objs_laws_def)
      then obtain m' where m': "d \<noteq> []" "oa_parse ob (Some P) d = (PICOKEYS_OK, m')" "namespace_id m' = namespace_id m"
          "container_kind m' = container_kind m" "container_id m' = container_id m" "man_generation m' = man_generation m"
          "objects m' = objects m"
        using 2 r2 unfolding build_law_def by blast
      have prep: "prepared ob P slot target m' V d (files s)"
        using m' assms(5-9) by (simp add: prepared_def is_identity_def P_def)
      let ?f = "resident_manifest_fid slot target"
      obtain r3 s3 where 3: "resident_replace_file k ?f d s1 = (r3, s3)" by (cases "resident_replace_file k ?f d s1")
      from replace_file_effect [OF assms(1) 3] obtain b where b: "store_step s1 s3" "wlog s3 = wlog s1 @ b"
          "set b \<subseteq> {Delete ?f, New ?f, Put ?f d}" "r3 = PICOKEYS_OK \<Longrightarrow> files s3 = (files s1)(?f \<mapsto> d) \<and> replay (files s1) b = files s3" by blast
      have mo: "\<forall>x \<in> set b. manifest_op slot target d x" "CommitSync True \<notin> set b"
        using b(3) by (auto simp: manifest_op_def Let_def)
      have stopped: ?thesis if "wlog t = wlog s @ CommitSync True # b'" "\<forall>x \<in> set b'. manifest_op slot target d x"
          "CommitSync True \<notin> set b'" "r \<noteq> PICOKEYS_OK" for b'
        using that prep m'(7) by blast
      show ?thesis
      proof (cases "r3 = PICOKEYS_OK")
        case False
        then have "t = s3" "r \<noteq> PICOKEYS_OK" using assms(4) 1 True bd r2 3 by (auto simp: switch_manifest_def)
        then show ?thesis using c1(1) True b(2) mo by (intro stopped [of b]) auto
      next
        case r3: True
        obtain b4 s4 where 4: "flash_commit_sync k COMMIT_TIMEOUT s3 = (b4, s4)" by (cases "flash_commit_sync k COMMIT_TIMEOUT s3")
        note c4 = flash_commit_sync_replay [OF 4]
        show ?thesis
        proof (cases b4)
          case False
          then have "t = s4" "r \<noteq> PICOKEYS_OK" using assms(4) 1 True bd r2 3 r3 4 by (auto simp: switch_manifest_def)
          moreover have "manifest_op slot target d (CommitSync False)" by (simp add: manifest_op_def)
          ultimately show ?thesis
            using c1(1) True b(2) c4(1) False by (intro stopped [of "b @ [CommitSync False]"]) (use mo in auto)
        next
          case b4: True
          have new: "container_in ob P slot target m' V (files s3)"
            using prepared_switch [OF prep, of "files s3"] b(4) r3 c1(2) by simp
          then have new4: "container_in ob P slot target m' V (files s4)" using c4(2) by simp
          have rep: "replay (files s) b = files s3" using b(4) r3 c1(2) by simp
          define mk where "mk = (if \<not> resident_container_is_marker s4 (file_search s4 (cred_fid slot))
              then resident_marker_write k slot s4 else (PICOKEYS_OK, s4))"
          obtain r5 s5 where 5: "mk = (r5, s5)" by (cases mk)
          have e5: "\<exists>ops. wlog s5 = wlog s4 @ ops \<and> (\<forall>x \<in> set ops. harmless slot target m' x) \<and>
              (r5 = PICOKEYS_OK \<longrightarrow> container_in ob P slot target m' V (files s5))"
            using 5 new4 marker_write_effect [OF assms(1) new4, of r5 s5] by (auto simp: mk_def split: if_splits)
          then obtain w5 where w5: "wlog s5 = wlog s4 @ w5" "\<forall>x \<in> set w5. harmless slot target m' x"
              "r5 = PICOKEYS_OK \<Longrightarrow> container_in ob P slot target m' V (files s5)" by blast
          have rt: "(r, t) = (if r5 \<noteq> PICOKEYS_OK then (r5, s5) else (PICOKEYS_OK, flash_commit (remove_stale k m slot target s5)))"
            using assms(4) 1 True bd r2 3 r3 4 b4 5 by (simp add: switch_manifest_def mk_def Let_def split: if_splits)
          have log: "wlog s5 = wlog s @ CommitSync True # b @ CommitSync True # w5"
            using c1(1) True b(2) c4(1) b4 w5(1) by simp
          have finished: ?thesis if "wlog t = wlog s @ CommitSync True # b @ CommitSync True # w"
              "\<forall>x \<in> set w. harmless slot target m' x" "r = PICOKEYS_OK \<longrightarrow> container_in ob P slot target m' V (files t)" for w
            by (rule exI [where x = "CommitSync True # b @ CommitSync True # w"], rule conjI, rule that(1), rule disjI2,
                rule exI [where x = d], rule exI [where x = m'], rule exI [where x = b])
              (use that(2,3) new rep prep mo m'(7) in simp)
          show ?thesis
          proof (cases "r5 = PICOKEYS_OK")
            case False
            then show ?thesis using rt log w5(2) by (intro finished [of w5]) auto
          next
            case r5: True
            have "delete_law k" using assms(1) by (simp add: flash_laws_def)
            from remove_stale_effect [OF this w5(3) [OF r5], of m] m'(7) obtain w6 where w6:
                "container_in ob P slot target m' V (files (remove_stale k m slot target s5))"
                "wlog (remove_stale k m slot target s5) = wlog s5 @ w6" "\<forall>x \<in> set w6. harmless slot target m' x" by auto
            have t: "t = flash_commit (remove_stale k m slot target s5)" using rt r5 by simp
            show ?thesis
            proof (rule finished [of "w5 @ w6 @ [Commit]"])
              show "wlog t = wlog s @ CommitSync True # b @ CommitSync True # (w5 @ w6 @ [Commit])"
                unfolding t using log w6(2) by (simp add: flash_commit_def)
              show "\<forall>x \<in> set (w5 @ w6 @ [Commit]). harmless slot target m' x"
                using w5(2) w6(3) by (auto simp: harmless_def [of _ _ _ Commit])
              show "r = PICOKEYS_OK \<longrightarrow> container_in ob P slot target m' V (files t)"
                unfolding t using w6(1) by simp
            qed
          qed
        qed
      qed
    qed
  qed
qed

end
