(* ===== verification/Resident_Update.thy ===== *)
theory Resident_Update
  imports Resident_Crash
begin

text \<open>
  The whole update: it is atomic under power failures, whatever of the pending operations
  reaches the flash, and a successful one replaces exactly the objects written.
\<close>

definition allocates :: "sdk \<Rightarrow> bool" where
  "allocates k \<longleftrightarrow> (\<forall>n len. sdk_calloc k n len)"

lemma validate_current:
  assumes "allocates k" and "objs_laws ob" and "key_settled s" and "is_identity slot m"
    and "\<forall>desc \<in> set ds. record_in ob (the_provider k s) slot (files s) V desc"
  shows "\<exists>t. validate_objects k ob m ds s = (PICOKEYS_OK, t) \<and> same_store s t"
  using assms(3,5)
proof (induction ds arbitrary: s)
  case Nil
  then show ?case by simp
next
  case (Cons desc ds)
  let ?n = "unat (logical_size desc)"
  obtain s1 where 1: "(if ?n > 0 then calloc k ?n s else (True, s)) = (True, s1)" and s1: "same_store s s1"
    using assms(1) by (cases "?n > 0") (auto simp: calloc_def allocates_def same_store_def)
  note key = same_store_key [OF s1 Cons.prems(1)]
  obtain v where v: "V (object_type desc) = Some v" "?n = length v"
    using Cons.prems(2) by (auto simp: record_in_def opens_def)
  have "resident_unseal k ob m desc ?n s1 = (PICOKEYS_OK, v, s1)"
    using unseal_record [OF key(1) assms(2), of k slot V desc m v ?n] Cons.prems(2) assms(4) v key by simp
  moreover obtain t where "validate_objects k ob m ds s1 = (PICOKEYS_OK, t)" "same_store s1 t"
    using Cons.IH [OF key(1)] Cons.prems(2) key by auto
  ultimately show ?case using 1 v(2) same_store_trans [OF s1] by (cases "?n > 0") (auto simp: Let_def)
qed

lemma choose_current_container:
  assumes "allocates k" and "objs_laws ob" and "key_settled s" and "container_in ob (the_provider k s) slot c m V (files s)"
  shows "\<exists>t. choose_current k ob cs (Some \<lparr>cand_manifest = m, cand_slot = c, cand_valid = True\<rparr>) s =
    (PICOKEYS_OK, Some \<lparr>cand_manifest = m, cand_slot = c, cand_valid = True\<rparr>, t) \<and> same_store s t"
  using validate_current [OF assms(1-3), of slot m "objects m" V] assms(4)
  by (auto simp: choose_current_def resident_manifest_validate_def container_in_def Let_def)

lemma generation_less: "g \<noteq> 0xFFFFFFFF \<Longrightarrow> g < g + (1 :: u32)"
proof -
  assume "g \<noteq> 0xFFFFFFFF"
  then have "unat g \<noteq> unat (0xFFFFFFFF :: u32)" by (metis word_unat_eq_iff)
  moreover have "unat g < 2 ^ 32" using unsigned_less [of g] by simp
  ultimately have "unat g + 1 < 2 ^ 32" by simp
  then have "unat (g + 1) = unat g + 1" by (simp add: unat_word_ariths)
  then show ?thesis by (simp add: word_less_nat_alt)
qed

text \<open>What an update asked of the flash before it stopped, seen from the container it replaces.\<close>

lemma two_phase_update:
  assumes "flash_laws k" and "objs_laws ob" and "key_settled s" and "files s = replay base pend"
    and "container_in ob (the_provider k s) slot c m V base" and "\<forall>x \<in> set pend. harmless slot c m x"
    and "unreferenced slot (c XOR 1) (w_object_type ` set ws) (objects m)" and "man_generation m \<noteq> 0xFFFFFFFF" and "ws \<noteq> []"
    and "(case write_objects k ob slot (c XOR 1) [] ws (next_manifest m) s of (r, m', s) \<Rightarrow>
           if r \<noteq> PICOKEYS_OK then (r, s) else switch_manifest k ob slot (c XOR 1) m' s) = (r, t)"
  defines "P \<equiv> the_provider k s"
  shows "\<exists>w. wlog t = wlog s @ w \<and>
    (\<forall>fs \<in> crashes base pend w. container_in ob P slot c m V fs \<or> (\<exists>m'. container_in ob P slot (c XOR 1) m' (updates V ws) fs \<and> homed slot (c XOR 1) (w_object_type ` set ws) (objects m'))) \<and>
    (r = PICOKEYS_OK \<longrightarrow> (\<exists>m'. container_in ob P slot (c XOR 1) m' (updates V ws) (files t) \<and> homed slot (c XOR 1) (w_object_type ` set ws) (objects m')))"
proof -
  let ?types = "w_object_type ` set ws"
  note c = container_xor [OF assms(5)]
  have old: "old_container ob P slot c m V ?types base" using assms(5,7) by (simp add: old_container_def P_def)
  have olds: "old_container ob P slot c m V ?types (files s)"
    using replacing.early_replay [OF old assms(6)] assms(4) by simp
  obtain r1 m1 s1 where 1: "write_objects k ob slot (c XOR 1) [] ws (next_manifest m) s = (r1, m1, s1)"
    by (cases "write_objects k ob slot (c XOR 1) [] ws (next_manifest m) s") auto
  from write_objects_ops [OF assms(1-3) 1] obtain a where a: "store_step s s1" "wlog s1 = wlog s @ a"
      "\<forall>x \<in> set a. \<exists>ty \<in> ?types \<inter> set object_types. target_of x = Some (resident_record_fid slot (c XOR 1) ty)"
      "r1 = PICOKEYS_OK \<Longrightarrow> files s1 = replay (files s) a" by blast
  have rec: "record_op slot (c XOR 1) ?types x" if "x \<in> set a" for x
    using a(3) that by (fastforce simp: record_op_def)
  have ha: "\<forall>x \<in> set a. harmless slot c m x"
    using record_op_harmless [OF old] rec by blast
  have early: "\<forall>x \<in> set (pend @ a'). harmless slot c m x" if "\<forall>x \<in> set a'. harmless slot c m x" for a'
    using that assms(6) by auto
  have nc: "CommitSync True \<notin> set a" using a(3) by auto
  show ?thesis
  proof (cases "r1 = PICOKEYS_OK")
    case False
    then have "t = s1" "r \<noteq> PICOKEYS_OK" using assms(10) 1 by auto
    then show ?thesis
      using a(2) replacing.first_phase [OF old early [OF ha]] by (auto simp: old_container_def intro!: exI [of _ a])
  next
    case True
    have sw: "switch_manifest k ob slot (c XOR 1) m1 s1 = (r, t)" using assms(10) 1 True by simp
    have kf: "files s1 EF_KEY_DEV = files s EF_KEY_DEV"
      unfolding a(4) [OF True] using a(3) by (intro replay_other) auto
    have key: "key_settled s1" "the_provider k s1 = P"
      using same_key(1) [where s = s and t = s1] same_key(2) [where s = s and t = s1 and k = k] assms(3) a(1) kf
      by (auto simp: store_step_def P_def)
    have tgt: "c XOR 1 = 0 \<or> c XOR 1 = 1" using c by auto
    have cs: "container_in ob P slot c m V (files s)" using olds by (simp add: old_container_def)
    have nm: "objects (next_manifest m) = objects m" "namespace_id (next_manifest m) = namespace_id m"
      "container_kind (next_manifest m) = container_kind m" "container_id (next_manifest m) = container_id m"
      "man_generation (next_manifest m) = man_generation m + 1"
      by (simp_all add: next_manifest_def)
    note wi = write_objects_in [OF assms(1-3) tgt 1[unfolded True], of V, unfolded nm, folded P_def]
    have home: "homed slot (c XOR 1) ?types (objects m1)"
      using wi container_objects_in [OF cs] assms(7,9) cs by (auto simp: is_identity_def container_in_def homed_def)
    have wi: "objects_in ob P slot (files s1) (updates V ws) (objects m1)" "is_identity slot m1" "objects m1 \<noteq> []"
        "man_generation m1 = man_generation m + 1"
      using wi container_objects_in [OF cs] assms(7,9) cs by (auto simp: is_identity_def container_in_def homed_def)
    have c1: "container_in ob P slot c m V (files s1)"
      using replacing.early_replay [OF olds ha] a(4) [OF True] by (simp add: old_container_def)
    have "stale_manifest ob P slot ((c XOR 1) XOR 1) (man_generation m1) (files s1)"
      using c1 c generation_less [OF assms(8)] wi(4) by (auto simp: container_in_def manifest_in_def stale_manifest_def)
    from switch_manifest_effect [OF assms(1,2) key(1) sw tgt wi(2,3), unfolded key(2), OF wi(1) this]
    obtain ops where ops: "wlog t = wlog s1 @ ops"
      and cases: "(r \<noteq> PICOKEYS_OK \<and> (\<forall>x \<in> set ops. target_of x = None)) \<or>
       (\<exists>d m' b. objects m' = objects m1 \<and> prepared ob P slot (c XOR 1) m' (updates V ws) d (files s1) \<and> (\<forall>x \<in> set b. manifest_op slot (c XOR 1) d x) \<and>
        CommitSync True \<notin> set b \<and>
        (r \<noteq> PICOKEYS_OK \<and> ops = CommitSync True # b \<or>
         (\<exists>w. ops = CommitSync True # b @ CommitSync True # w \<and> container_in ob P slot (c XOR 1) m' (updates V ws) (replay (files s1) b) \<and>
            (\<forall>x \<in> set w. harmless slot (c XOR 1) m' x) \<and>
            (r = PICOKEYS_OK \<longrightarrow> container_in ob P slot (c XOR 1) m' (updates V ws) (files t)))))" by blast
    have log: "wlog t = wlog s @ a @ ops" using a(2) ops by simp
    have base1: "replay base (pend @ a) = files s1" using a(4) [OF True] assms(4) by simp
    from cases show ?thesis
    proof
      assume st: "r \<noteq> PICOKEYS_OK \<and> (\<forall>x \<in> set ops. target_of x = None)"
      then have "\<forall>x \<in> set (a @ ops). harmless slot c m x" using ha by (auto simp: harmless_def)
      from replacing.first_phase [OF old early [OF this]] log st show ?thesis
        by (auto simp: old_container_def intro!: exI [of _ "a @ ops"])
    next
      assume "\<exists>d m' b. objects m' = objects m1 \<and> prepared ob P slot (c XOR 1) m' (updates V ws) d (files s1) \<and> (\<forall>x \<in> set b. manifest_op slot (c XOR 1) d x) \<and>
        CommitSync True \<notin> set b \<and>
        (r \<noteq> PICOKEYS_OK \<and> ops = CommitSync True # b \<or>
         (\<exists>w. ops = CommitSync True # b @ CommitSync True # w \<and> container_in ob P slot (c XOR 1) m' (updates V ws) (replay (files s1) b) \<and>
            (\<forall>x \<in> set w. harmless slot (c XOR 1) m' x) \<and>
            (r = PICOKEYS_OK \<longrightarrow> container_in ob P slot (c XOR 1) m' (updates V ws) (files t))))"
      then obtain d m' b where om: "objects m' = objects m1" and p: "prepared ob P slot (c XOR 1) m' (updates V ws) d (files s1)"
          and b: "\<forall>x \<in> set b. manifest_op slot (c XOR 1) d x" "CommitSync True \<notin> set b"
          and o: "r \<noteq> PICOKEYS_OK \<and> ops = CommitSync True # b \<or>
         (\<exists>w. ops = CommitSync True # b @ CommitSync True # w \<and> container_in ob P slot (c XOR 1) m' (updates V ws) (replay (files s1) b) \<and>
            (\<forall>x \<in> set w. harmless slot (c XOR 1) m' x) \<and>
            (r = PICOKEYS_OK \<longrightarrow> container_in ob P slot (c XOR 1) m' (updates V ws) (files t)))" by blast
      have ready: "old_container ob P slot c m V ?types (replay base (pend @ a)) \<and>
          prepared ob P slot (c XOR 1) m' (updates V ws) d (replay base (pend @ a))"
        using p base1 c1 assms(7) by (simp add: old_container_def)
      have hm: "homed slot (c XOR 1) ?types (objects m')" using home om by simp
      from o show ?thesis
      proof (elim disjE exE conjE)
        assume r: "r \<noteq> PICOKEYS_OK" and o: "ops = CommitSync True # b"
        have "\<forall>fs \<in> crashes base pend (a @ ops). container_in ob P slot c m V fs \<or>
            container_in ob P slot (c XOR 1) m' (updates V ws) fs"
          using replacing.second_phase [OF old early [OF ha] nc ready b] o by (auto simp: old_container_def)
        then show ?thesis using log r hm by (intro exI [of _ "a @ ops"]) blast
      next
        fix w
        assume o: "ops = CommitSync True # b @ CommitSync True # w"
          and n: "container_in ob P slot (c XOR 1) m' (updates V ws) (replay (files s1) b)"
          and w: "\<forall>x \<in> set w. harmless slot (c XOR 1) m' x"
          and r: "r = PICOKEYS_OK \<longrightarrow> container_in ob P slot (c XOR 1) m' (updates V ws) (files t)"
        have "container_in ob P slot (c XOR 1) m' (updates V ws) (replay base (pend @ a @ b))"
          using n base1 by simp
        from replacing.third_phase [OF old early [OF ha] nc ready b this w] o
        have "\<forall>fs \<in> crashes base pend (a @ ops). container_in ob P slot c m V fs \<or>
            container_in ob P slot (c XOR 1) m' (updates V ws) fs"
          by (auto simp: old_container_def)
        then show ?thesis using log r hm by (intro exI [of _ "a @ ops"]) blast
      qed
    qed
  qed
qed

text \<open>The same for an update that creates the container.\<close>

lemma two_phase_create:
  assumes "flash_laws k" and "objs_laws ob" and "key_settled s" and "files s = replay base pend"
    and "absent slot base" and "\<forall>x \<in> set pend. no_manifest_put slot x" and "ws \<noteq> []"
    and "(case write_objects k ob slot 0 [] ws (first_manifest slot) s of (r, m', s) \<Rightarrow>
           if r \<noteq> PICOKEYS_OK then (r, s) else switch_manifest k ob slot 0 m' s) = (r, t)"
  defines "P \<equiv> the_provider k s"
  shows "\<exists>w. wlog t = wlog s @ w \<and>
    (\<forall>fs \<in> crashes base pend w. absent slot fs \<or>
       (\<exists>m'. container_in ob P slot 0 m' (updates Map.empty ws) fs \<and> homed slot 0 (w_object_type ` set ws) (objects m'))) \<and>
    (r = PICOKEYS_OK \<longrightarrow>
       (\<exists>m'. container_in ob P slot 0 m' (updates Map.empty ws) (files t) \<and> homed slot 0 (w_object_type ` set ws) (objects m')))"
proof -
  let ?types = "w_object_type ` set ws" and ?V = "updates Map.empty ws"
  have olds: "absent slot (files s)" using creating.early_replay [OF assms(5,6)] assms(4) by simp
  obtain r1 m1 s1 where 1: "write_objects k ob slot 0 [] ws (first_manifest slot) s = (r1, m1, s1)"
    by (cases "write_objects k ob slot 0 [] ws (first_manifest slot) s") auto
  from write_objects_ops [OF assms(1-3) 1] obtain a where a: "store_step s s1" "wlog s1 = wlog s @ a"
      "\<forall>x \<in> set a. \<exists>ty \<in> ?types \<inter> set object_types. target_of x = Some (resident_record_fid slot 0 ty)"
      "r1 = PICOKEYS_OK \<Longrightarrow> files s1 = replay (files s) a" by blast
  have ha: "\<forall>x \<in> set a. no_manifest_put slot x"
    using a(3) by (fastforce simp: no_manifest_put_def Let_def)
  have early: "\<forall>x \<in> set (pend @ a'). no_manifest_put slot x" if "\<forall>x \<in> set a'. no_manifest_put slot x" for a'
    using that assms(6) by auto
  have nc: "CommitSync True \<notin> set a" using a(3) by auto
  show ?thesis
  proof (cases "r1 = PICOKEYS_OK")
    case False
    then have "t = s1" "r \<noteq> PICOKEYS_OK" using assms(8) 1 by auto
    then show ?thesis
      using a(2) creating.first_phase [OF assms(5) early [OF ha]] by (auto intro!: exI [of _ a])
  next
    case True
    have sw: "switch_manifest k ob slot 0 m1 s1 = (r, t)" using assms(8) 1 True by simp
    have kf: "files s1 EF_KEY_DEV = files s EF_KEY_DEV"
      unfolding a(4) [OF True] using a(3) by (intro replay_other) auto
    have key: "key_settled s1" "the_provider k s1 = P"
      using same_key(1) [where s = s and t = s1] same_key(2) [where s = s and t = s1 and k = k] assms(3) a(1) kf
      by (auto simp: store_step_def P_def)
    have fm: "objects (first_manifest slot) = []" "is_identity slot (first_manifest slot)"
      by (simp_all add: first_manifest_def empty_manifest_def is_identity_def)
    note wi = write_objects_in [OF assms(1-3) _ 1[unfolded True], of Map.empty, unfolded fm, folded P_def]
    have wi: "objects_in ob P slot (files s1) ?V (objects m1)" "is_identity slot m1" "objects m1 \<noteq> []"
        "homed slot 0 ?types (objects m1)"
      using wi assms(7) fm(2) by (auto simp: is_identity_def homed_def unreferenced_def objects_in_def)
    have abs1: "absent slot (files s1)" using creating.early_replay [OF olds ha] a(4) [OF True] by simp
    then have "stale_manifest ob P slot (0 XOR 1) (man_generation m1) (files s1)"
      by (auto simp: absent_def no_manifest_def stale_manifest_def)
    from switch_manifest_effect [OF assms(1,2) key(1) sw _ wi(2,3), unfolded key(2), OF _ wi(1) this]
    obtain ops where ops: "wlog t = wlog s1 @ ops"
      and cases: "(r \<noteq> PICOKEYS_OK \<and> (\<forall>x \<in> set ops. target_of x = None)) \<or>
       (\<exists>d m' b. objects m' = objects m1 \<and> prepared ob P slot 0 m' ?V d (files s1) \<and> (\<forall>x \<in> set b. manifest_op slot 0 d x) \<and>
        CommitSync True \<notin> set b \<and>
        (r \<noteq> PICOKEYS_OK \<and> ops = CommitSync True # b \<or>
         (\<exists>w. ops = CommitSync True # b @ CommitSync True # w \<and> container_in ob P slot 0 m' ?V (replay (files s1) b) \<and>
            (\<forall>x \<in> set w. harmless slot 0 m' x) \<and>
            (r = PICOKEYS_OK \<longrightarrow> container_in ob P slot 0 m' ?V (files t)))))" by blast
    have log: "wlog t = wlog s @ a @ ops" using a(2) ops by simp
    have base1: "replay base (pend @ a) = files s1" using a(4) [OF True] assms(4) by simp
    from cases show ?thesis
    proof (elim disjE exE conjE)
      assume st: "r \<noteq> PICOKEYS_OK" "\<forall>x \<in> set ops. target_of x = None"
      then have "\<forall>x \<in> set (a @ ops). no_manifest_put slot x" using ha by (auto simp: no_manifest_put_def)
      from creating.first_phase [OF assms(5) early [OF this]] log st show ?thesis
        by (auto intro!: exI [of _ "a @ ops"])
    next
      fix d m' b
      assume om: "objects m' = objects m1" and p: "prepared ob P slot 0 m' ?V d (files s1)"
        and b: "\<forall>x \<in> set b. manifest_op slot 0 d x" "CommitSync True \<notin> set b"
        and r: "r \<noteq> PICOKEYS_OK" and o: "ops = CommitSync True # b"
      have ready: "absent slot (replay base (pend @ a)) \<and> prepared ob P slot 0 m' ?V d (replay base (pend @ a))"
        using p base1 abs1 by simp
      have "\<forall>fs \<in> crashes base pend (a @ ops). absent slot fs \<or> container_in ob P slot 0 m' ?V fs"
        using creating.second_phase [OF assms(5) early [OF ha] nc ready b] o by auto
      then show ?thesis using log r wi(4)[folded om] by (intro exI [of _ "a @ ops"]) blast
    next
      fix d m' b w
      assume om: "objects m' = objects m1" and p: "prepared ob P slot 0 m' ?V d (files s1)"
        and b: "\<forall>x \<in> set b. manifest_op slot 0 d x" "CommitSync True \<notin> set b"
        and o: "ops = CommitSync True # b @ CommitSync True # w"
        and n: "container_in ob P slot 0 m' ?V (replay (files s1) b)"
        and w: "\<forall>x \<in> set w. harmless slot 0 m' x"
        and r: "r = PICOKEYS_OK \<longrightarrow> container_in ob P slot 0 m' ?V (files t)"
      have ready: "absent slot (replay base (pend @ a)) \<and> prepared ob P slot 0 m' ?V d (replay base (pend @ a))"
        using p base1 abs1 by simp
      have "container_in ob P slot 0 m' ?V (replay base (pend @ a @ b))" using n base1 by simp
      from creating.third_phase [OF assms(5) early [OF ha] nc ready b this w] o
      have "\<forall>fs \<in> crashes base pend (a @ ops). absent slot fs \<or> container_in ob P slot 0 m' ?V fs" by auto
      then show ?thesis using log r wi(4)[folded om] by (intro exI [of _ "a @ ops"]) blast
    qed
  qed
qed

subsection \<open>The operations\<close>

text \<open>What comes before the writes changes nothing in the store.\<close>

lemma update_container:
  assumes "flash_laws k" and "objs_laws ob" and "allocates k" and "key_settled s" and "files s = replay base pend"
    and "container_in ob (the_provider k s) slot c m V base" and "\<forall>x \<in> set pend. harmless slot c m x"
    and "unreferenced slot (c XOR 1) (w_object_type ` set ws) (objects m)"
    and "resident_container_update k ob slot ws s = (r, t)"
  defines "P \<equiv> the_provider k s"
  shows "\<exists>w. wlog t = wlog s @ w \<and>
    (\<forall>fs \<in> crashes base pend w. container_in ob P slot c m V fs \<or>
       (\<exists>m'. container_in ob P slot (c XOR 1) m' (updates V ws) fs \<and> homed slot (c XOR 1) (w_object_type ` set ws) (objects m'))) \<and>
    (r = PICOKEYS_OK \<longrightarrow>
       (\<exists>m'. container_in ob P slot (c XOR 1) m' (updates V ws) (files t) \<and> homed slot (c XOR 1) (w_object_type ` set ws) (objects m')))"
proof -
  have stop: ?thesis if "wlog t = wlog s" "r \<noteq> PICOKEYS_OK"
  proof -
    have "old_container ob P slot c m V {} base" using assms(6) by (simp add: old_container_def P_def unreferenced_def)
    from replacing.first_phase [OF this, of pend "[]"] show ?thesis
      using that assms(7) by (intro exI [of _ "[]"]) (auto simp: old_container_def)
  qed
  show ?thesis
  proof (cases "ws = [] \<or> length ws > oa_max_objects ob")
    case True
    then have "r \<noteq> PICOKEYS_OK" "t = s" using assms(9) by (auto simp: resident_container_update_def)
    then show ?thesis using stop by simp
  next
    case ws: False
    obtain auth s1 where 1: "fido_object_manifest_authenticator ob s = (auth, s1)" by (cases "fido_object_manifest_authenticator ob s")
    obtain prot s2 where 2: "fido_object_record_protector ob s1 = (prot, s2)" by (cases "fido_object_record_protector ob s1")
    have s2: "same_store s s2" using same_store_trans [OF authenticator_same [OF 1] protector_same [OF 2]] .
    note k2 = same_store_key [OF s2 assms(4)]
    show ?thesis
    proof (cases "auth \<and> prot")
      case False
      then have "r \<noteq> PICOKEYS_OK" "t = s2" using assms(9) 1 2 ws by (auto simp: resident_container_update_def)
      then show ?thesis using stop k2(4) by simp
    next
      case True
      let ?cur = "\<lparr>cand_manifest = m, cand_slot = c, cand_valid = True\<rparr>"
      have "container_in ob P slot c m V (files s)"
        using replay_closed [of "container_in ob P slot c m V" "harmless slot c m" base pend] container_in_harmless assms(5-7)
        by (auto simp: P_def)
      then have c2: "container_in ob (the_provider k s2) slot c m V (files s2)" using k2 by (simp add: P_def)
      obtain cs where l: "resident_manifest_load k ob slot True s2 = (PICOKEYS_OK, cs, Some ?cur, s2)"
        using load_current [OF k2(1) c2] by blast
      obtain s3 where ch: "choose_current k ob cs (Some ?cur) s2 = (PICOKEYS_OK, Some ?cur, s3)" and s23: "same_store s2 s3"
        using choose_current_container [OF assms(3,2) k2(1) c2, of cs] by blast
      have s3: "same_store s s3" using same_store_trans [OF s2 s23] .
      note k3 = same_store_key [OF s3 assms(4)]
      show ?thesis
      proof (cases "man_generation m = 0xFFFFFFFF \<or> extension_size m \<noteq> 0")
        case g: True
        then have "r \<noteq> PICOKEYS_OK" "t = s3"
          using assms(9) 1 2 ws True l ch by (auto simp: resident_container_update_def Let_def)
        then show ?thesis using stop k3(4) by simp
      next
        case g: False
        have run: "(case write_objects k ob slot (c XOR 1) [] ws (next_manifest m) s3 of (r, m', s) \<Rightarrow>
            if r \<noteq> PICOKEYS_OK then (r, s) else switch_manifest k ob slot (c XOR 1) m' s) = (r, t)"
          using assms(9) 1 2 ws True l ch g by (simp add: resident_container_update_def Let_def)
        have b3: "files s3 = replay base pend" using k3(3) assms(5) by simp
        have c3: "container_in ob (the_provider k s3) slot c m V base" using assms(6) k3(2) by simp
        from two_phase_update [OF assms(1,2) k3(1) b3 c3 assms(7,8) _ _ run] g ws k3(2,4)
        show ?thesis by (simp add: P_def)
      qed
    qed
  qed
qed

lemma load_absent:
  assumes "key_settled s" and "absent slot (files s)"
  shows "\<exists>cs. resident_manifest_load k ob slot True s = (PICOKEYS_ERR_FILE_NOT_FOUND, cs, None, s)"
  using assms(2)
  by (auto simp: resident_manifest_load_def resident_manifest_parse_slot_def load_step_def absent_def no_manifest_def Let_def)

lemma create_container:
  assumes "flash_laws k" and "objs_laws ob" and "key_settled s" and "files s = replay base pend"
    and "absent slot base" and "\<forall>x \<in> set pend. no_manifest_put slot x"
    and "resident_container_update k ob slot ws s = (r, t)"
  defines "P \<equiv> the_provider k s"
  shows "\<exists>w. wlog t = wlog s @ w \<and>
    (\<forall>fs \<in> crashes base pend w. absent slot fs \<or>
       (\<exists>m'. container_in ob P slot 0 m' (updates Map.empty ws) fs \<and> homed slot 0 (w_object_type ` set ws) (objects m'))) \<and>
    (r = PICOKEYS_OK \<longrightarrow>
       (\<exists>m'. container_in ob P slot 0 m' (updates Map.empty ws) (files t) \<and> homed slot 0 (w_object_type ` set ws) (objects m')))"
proof -
  have stop: ?thesis if "wlog t = wlog s" "r \<noteq> PICOKEYS_OK"
    using creating.first_phase [OF assms(5), of pend "[]"] that assms(6) by (intro exI [of _ "[]"]) auto
  show ?thesis
  proof (cases "ws = [] \<or> length ws > oa_max_objects ob")
    case True
    then have "r \<noteq> PICOKEYS_OK" "t = s" using assms(7) by (auto simp: resident_container_update_def)
    then show ?thesis using stop by simp
  next
    case ws: False
    obtain auth s1 where 1: "fido_object_manifest_authenticator ob s = (auth, s1)" by (cases "fido_object_manifest_authenticator ob s")
    obtain prot s2 where 2: "fido_object_record_protector ob s1 = (prot, s2)" by (cases "fido_object_record_protector ob s1")
    have s2: "same_store s s2" using same_store_trans [OF authenticator_same [OF 1] protector_same [OF 2]] .
    note k2 = same_store_key [OF s2 assms(3)]
    have a2: "absent slot (files s2)" using creating.early_replay [OF assms(5,6)] assms(4) k2(3) by simp
    show ?thesis
    proof (cases "auth \<and> prot")
      case False
      then have "r \<noteq> PICOKEYS_OK" "t = s2" using assms(7) 1 2 ws by (auto simp: resident_container_update_def)
      then show ?thesis using stop k2(4) by simp
    next
      case True
      obtain cs where l: "resident_manifest_load k ob slot True s2 = (PICOKEYS_ERR_FILE_NOT_FOUND, cs, None, s2)"
        using load_absent [OF k2(1) a2] by blast
      obtain free s3 where f: "resident_container_can_create k ob slot s2 = (free, s3)" by (cases "resident_container_can_create k ob slot s2")
      have s23: "same_store s2 s3"
      proof (cases "file_search s2 (resident_manifest_fid slot 0) \<noteq> None \<or> file_search s2 (resident_manifest_fid slot 1) \<noteq> None")
        case False
        then show ?thesis using f by (simp add: resident_container_can_create_def)
      next
        case m: True
        obtain au s4 where 4: "fido_object_manifest_authenticator ob s2 = (au, s4)" by (cases "fido_object_manifest_authenticator ob s2")
        obtain pr s5 where 5: "fido_object_record_protector ob s4 = (pr, s5)" by (cases "fido_object_record_protector ob s4")
        have s5: "same_store s2 s5" using same_store_trans [OF authenticator_same [OF 4] protector_same [OF 5]] .
        note k5 = same_store_key [OF s5 k2(1)]
        have "absent slot (files s5)" using a2 k5(3) by simp
        then obtain cs where "resident_manifest_load k ob slot True s5 = (PICOKEYS_ERR_FILE_NOT_FOUND, cs, None, s5)"
          using load_absent [OF k5(1)] by blast
        then show ?thesis using f m 4 5 s5 by (auto simp: resident_container_can_create_def split: if_splits)
      qed
      have s3: "same_store s s3" using same_store_trans [OF s2 s23] .
      note k3 = same_store_key [OF s3 assms(3)]
      show ?thesis
      proof (cases free)
        case False
        then have "r \<noteq> PICOKEYS_OK" "t = s3"
          using assms(7) 1 2 ws True l f by (auto simp: resident_container_update_def Let_def)
        then show ?thesis using stop k3(4) by simp
      next
        case fr: True
        have run: "(case write_objects k ob slot 0 [] ws (first_manifest slot) s3 of (r, m', s) \<Rightarrow>
            if r \<noteq> PICOKEYS_OK then (r, s) else switch_manifest k ob slot 0 m' s) = (r, t)"
          using assms(7) 1 2 ws True l f fr by (simp add: resident_container_update_def choose_current_def Let_def)
        have b3: "files s3 = replay base pend" using k3(3) assms(4) by simp
        from two_phase_create [OF assms(1,2) k3(1) b3 assms(5,6) _ run] ws k3(2,4)
        show ?thesis by (simp add: P_def)
      qed
    qed
  qed
qed

end
