(* ===== verification/Resident_Liveness.thy ===== *)
theory Resident_Liveness
  imports Resident_Update
begin

text \<open>
  On a storage that accepts writes, an update succeeds. The sizes are those the storage of
  \<open>tests/fido_resident_container_test.c\<close> takes: 1024 bytes per file.
\<close>

definition reliable :: "sdk \<Rightarrow> bool" where
  "reliable k \<longleftrightarrow> (\<forall>f. accepts k f) \<and> (\<forall>n fs f. fst (sdk_new k n fs f) \<noteq> None) \<and> deletes k \<and>
     (\<forall>n ms. sdk_commit_sync k n ms) \<and> allocates k"

definition objs_reliable :: "objs \<Rightarrow> bool" where
  "objs_reliable ob \<longleftrightarrow>
     (\<forall>p n m policy d. object m \<noteq> None \<longrightarrow>
        (\<exists>c. oa_seal ob p n m policy d (oa_record_header_size ob + length d + oa_tag_size ob) = (PICOKEYS_OK, c) \<and>
             length c = oa_record_header_size ob + length d + oa_tag_size ob)) \<and>
     (\<forall>p m. length (objects m) \<le> oa_max_objects ob \<longrightarrow>
        (\<exists>d. oa_build ob p m (max_manifest_size ob) = (PICOKEYS_OK, d) \<and> length d \<le> 1024))"

lemma replace_file_ok:
  assumes "flash_laws k" and "reliable k" and "length d \<le> 1024"
  shows "fst (resident_replace_file k f d s) = PICOKEYS_OK"
proof -
  have k: "new_law k" using assms(1) by (simp add: flash_laws_def)
  have del: "fst (file_delete_no_commit k (Some f) s) = PICOKEYS_OK" if "files s f \<noteq> None"
    using assms(2) that by (auto simp: reliable_def deletes_def file_delete_no_commit_def Let_def split: prod.splits) (metis fst_conv)
  have new: "fst (file_new k f s') = Some f" for s' :: "'a plat_scheme"
  proof -
    obtain p u where n: "file_new k f s' = (p, u)" by (cases "file_new k f s'")
    then have "p = fst (sdk_new k (tick s') (files s') f)" by (auto simp: file_new_def Let_def split: prod.splits)
    then have "p \<noteq> None" using assms(2) by (simp add: reliable_def)
    then show ?thesis using file_new_replay(2) [OF k n] n by auto
  qed
  have put: "fst (file_put_data k (Some f) d s') = PICOKEYS_OK" for s' :: "'a plat_scheme"
    using assms(2,3) by (auto simp: reliable_def accepts_def file_put_data_def Let_def split: prod.splits) (metis fst_conv)
  have tail: "fst (case file_new k f s' of (file, s') \<Rightarrow>
      if file = None then (PICOKEYS_ERR_NO_MEMORY, s') else file_put_data k file d s') = PICOKEYS_OK" for s' :: "'a plat_scheme"
    using new [of s'] put by (cases "file_new k f s'") simp
  show ?thesis
  proof (cases "files s f = None")
    case True
    then show ?thesis using tail by (simp add: resident_replace_file_def file_search_def)
  next
    case False
    obtain u where "file_delete_no_commit k (Some f) s = (PICOKEYS_OK, u)"
      using del [OF False] by (cases "file_delete_no_commit k (Some f) s") simp
    with False show ?thesis using tail by (auto simp: resident_replace_file_def file_search_def)
  qed
qed

definition write_fits :: "objs \<Rightarrow> resident_container_write \<Rightarrow> bool" where
  "write_fits ob w \<longleftrightarrow> w_object_type w \<in> set object_types \<and> (w_data w = None \<longrightarrow> w_data_size w = 0) \<and>
     w_flags w AND oa_flag_inline ob = 0 \<and>
     oa_record_header_size ob + unat (w_data_size w) + oa_tag_size ob \<le> 1024"

lemma record_write_ok:
  assumes "flash_laws k" and "reliable k" and "objs_reliable ob" and "objs_laws ob" and "key_settled s" and "write_fits ob w"
  shows "fst (resident_record_write k ob slot target w g G s) = PICOKEYS_OK"
proof -
  let ?n = "oa_record_header_size ob + unat (w_data_size w) + oa_tag_size ob"
  have pol: "resident_policy_hash ob = (PICOKEYS_OK, policy ob)"
    using assms(4) by (simp add: objs_laws_def policy_def prod_eq_iff)
  obtain s1 where 1: "calloc k ?n s = (True, s1)"
    using assms(2) by (simp add: calloc_def reliable_def allocates_def)
  have key: "key_settled s1" using same_store_key(1) [OF calloc_same [OF 1] assms(5)] .
  have pl: "length (payload w) = unat (w_data_size w)" by (simp add: payload_def)
  define rm where "rm = empty_manifest\<lparr>namespace_id := FIDO_OBJECT_NAMESPACE,
      container_kind := FIDO_RESIDENT_CONTAINER_KIND, container_id := ucast slot, man_generation := G,
      previous_generation := (if G > 1 then G - 1 else 0), has_object := True,
      object := Some (resident_descriptor slot target w g)\<rparr>"
  have "object rm \<noteq> None" by (simp add: rm_def)
  then obtain c where c: "oa_seal ob (the_provider k s1) (tick s1) rm (policy ob) (payload w) ?n = (PICOKEYS_OK, c)"
      and l: "length c = ?n"
    using assms(3) unfolding objs_reliable_def pl [symmetric] by blast
  then obtain s2 where 2: "file_object_record_seal k ob rm (policy ob) (payload w) ?n s1 = (PICOKEYS_OK, c, s2)"
    by (simp add: file_object_record_seal_def with_provider_settled [OF key])
  obtain s3 where 3: "resident_replace_file k (resident_record_fid slot target (w_object_type w)) c s2 = (PICOKEYS_OK, s3)"
    using replace_file_ok [OF assms(1,2), of c "resident_record_fid slot target (w_object_type w)" s2] l assms(6)
    unfolding write_fits_def by (metis prod.collapse)
  have sz: "\<not> uint (w_data_size w) > 0xFFFFFFFF - int (oa_record_header_size ob) - int (oa_tag_size ob)"
  proof -
    have "oa_record_header_size ob + unat (w_data_size w) + oa_tag_size ob \<le> 1024" using assms(6) by (simp add: write_fits_def)
    moreover have "uint (w_data_size w) = int (unat (w_data_size w))" by simp
    ultimately show ?thesis by linarith
  qed
  show ?thesis
    unfolding resident_record_write_def Let_def pol prod.case rm_def [symmetric] 1 2 3 using l sz by simp
qed

lemma write_objects_ok:
  assumes "flash_laws k" and "reliable k" and "objs_reliable ob" and "objs_laws ob" and "key_settled s"
    and "\<forall>w \<in> set ws. write_fits ob w" and "distinct (map w_object_type ws)"
    and "set seen \<inter> w_object_type ` set ws = {}"
    and "\<forall>desc \<in> set (objects m). object_type desc \<in> w_object_type ` set ws \<longrightarrow> generation desc \<noteq> 0xFFFFFFFF"
    and "length (objects m) + length ws \<le> oa_max_objects ob"
  shows "\<exists>m' t. write_objects k ob slot target seen ws m s = (PICOKEYS_OK, m', t) \<and>
    length (objects m') \<le> oa_max_objects ob"
  using assms(5-10)
proof (induction ws arbitrary: seen m s)
  case Nil
  then show ?case by simp
next
  case (Cons w ws)
  let ?ty = "w_object_type w"
  define i where "i = resident_manifest_find m ?ty"
  define g where "g = (case i of Some i \<Rightarrow> generation (objects m ! i) + 1 | None \<Rightarrow> 1)"
  have wf: "write_fits ob w" using Cons.prems(2) by simp
  obtain desc s1 where 1: "resident_record_write k ob slot target w g (man_generation m) s = (PICOKEYS_OK, desc, s1)"
    using record_write_ok [OF assms(1-4) Cons.prems(1) wf, of slot target g "man_generation m"]
    by (cases "resident_record_write k ob slot target w g (man_generation m) s") auto
  have d: "object_type desc = ?ty"
    using record_write_effect [OF assms(1,4) Cons.prems(1) 1] by (simp add: resident_descriptor_def)
  have ty: "?ty \<in> set object_types" using wf by (simp add: write_fits_def)
  have gen: "\<not> (i \<noteq> None \<and> generation (objects m ! the i) = 0xFFFFFFFF)"
  proof (cases i)
    case (Some j)
    then have "j < length (objects m)" "object_type (objects m ! j) = ?ty"
      using find_object_Some [of "objects m" ?ty j] by (simp_all add: i_def resident_manifest_find_def)
    then show ?thesis using Cons.prems(5) Some by auto
  qed simp
  have len: "length (objects (put_object m i desc)) \<le> Suc (length (objects m))"
    by (simp add: put_object_def split: option.splits)
  have dist: "?ty \<notin> w_object_type ` set ws" using Cons.prems(3) by simp
  have gens: "\<forall>desc \<in> set (objects (put_object m i desc)). object_type desc \<in> w_object_type ` set ws \<longrightarrow>
      generation desc \<noteq> 0xFFFFFFFF"
  proof (intro ballI impI)
    fix x
    assume x: "x \<in> set (objects (put_object m i desc))" and tx: "object_type x \<in> w_object_type ` set ws"
    then have "x \<noteq> desc" using d dist by metis
    then have "x \<in> set (objects m)" using x set_put_object by blast
    then show "generation x \<noteq> 0xFFFFFFFF" using tx Cons.prems(5) by auto
  qed
  obtain m' t where "write_objects k ob slot target (seen @ [?ty]) ws (put_object m i desc) s1 = (PICOKEYS_OK, m', t)"
      "length (objects m') \<le> oa_max_objects ob"
    using Cons.IH [OF record_write_key(1) [OF assms(1,4) Cons.prems(1) ty 1], of "seen @ [?ty]" "put_object m i desc"]
      Cons.prems(2-4,6) gens dist len by auto
  then show ?case
    using 1 gen wf Cons.prems(4,6) ty
    by (cases "w_data w") (auto simp: Let_def i_def [symmetric] g_def [symmetric] write_fits_def valid_types)
qed

lemma switch_manifest_ok:
  assumes "flash_laws k" and "reliable k" and "objs_reliable ob" and "key_settled s"
    and "length (objects m) \<le> oa_max_objects ob"
  shows "fst (switch_manifest k ob slot target m s) = PICOKEYS_OK"
proof -
  have commit: "\<exists>t. flash_commit_sync k n s' = (True, t) \<and> store_step s' t \<and> files t = files s'" for n and s' :: "'a fido_scheme"
  proof -
    obtain b t where t: "flash_commit_sync k n s' = (b, t)" by (cases "flash_commit_sync k n s'")
    moreover have b using t assms(2) by (auto simp: flash_commit_sync_def reliable_def Let_def)
    ultimately show ?thesis using flash_commit_sync_step [OF t] flash_commit_sync_files [OF t] by simp
  qed
  obtain s1 where 1: "flash_commit_sync k COMMIT_TIMEOUT s = (True, s1)" "store_step s s1" "files s1 = files s"
    using commit by blast
  have key: "key_settled s1"
    using same_key(1) [where s = s and t = s1] assms(4) 1 by (auto simp: store_step_def)
  obtain d where d: "file_object_manifest_build k ob m (max_manifest_size ob) s1 = (PICOKEYS_OK, d, s1)" "length d \<le> 1024"
  proof -
    obtain d where "oa_build ob (the_provider k s1) m (max_manifest_size ob) = (PICOKEYS_OK, d)" "length d \<le> 1024"
      using assms(3,5) unfolding objs_reliable_def by blast
    then show thesis using that by (simp add: file_object_manifest_build_def with_provider_settled [OF key])
  qed
  obtain s2 where 2: "resident_replace_file k (resident_manifest_fid slot target) d s1 = (PICOKEYS_OK, s2)"
    using replace_file_ok [OF assms(1,2) d(2), of "resident_manifest_fid slot target" s1] by (metis prod.collapse)
  obtain s3 where 3: "flash_commit_sync k COMMIT_TIMEOUT s2 = (True, s3)" using commit by blast
  obtain s4 where 4: "resident_replace_file k (cred_fid slot) (resident_marker slot) s3 = (PICOKEYS_OK, s4)"
  proof -
    have "length (resident_marker slot) \<le> 1024" by (simp add: resident_marker_def)
    from replace_file_ok [OF assms(1,2) this, of "cred_fid slot" s3] show thesis using that by (metis prod.collapse)
  qed
  obtain s5 where 5: "flash_commit_sync k COMMIT_TIMEOUT s4 = (True, s5)" using commit by blast
  show ?thesis
    using 1 d 2 3 4 5 by (simp add: switch_manifest_def resident_marker_write_def Let_def)
qed

end
