(* ===== verification/Resident_Frame.thy ===== *)
theory Resident_Frame
  imports Resident_Update
begin

text \<open>
  The frame of the operations: whatever their outcome they change only the files of the
  credential slot they are given, and leave the device key alone.
\<close>

definition slot_fids :: "byte \<Rightarrow> fid set" where
  "slot_fids slot = {f. \<exists>ms. f = resident_manifest_fid slot ms \<or> (\<exists>ty \<in> set object_types. f = resident_record_fid slot ms ty)} \<union> {cred_fid slot}"

lemma slot_fidsI [intro, simp]:
  "resident_manifest_fid slot ms \<in> slot_fids slot" "cred_fid slot \<in> slot_fids slot"
  "ty \<in> set object_types \<Longrightarrow> resident_record_fid slot ms ty \<in> slot_fids slot"
  by (auto simp: slot_fids_def)

lemma key_not_slot [simp]: "EF_KEY_DEV \<notin> slot_fids slot"
  using key_dev_not_container by (fastforce simp: slot_fids_def)

definition slot_step :: "byte \<Rightarrow> 'a fido_scheme \<Rightarrow> 'a fido_scheme \<Rightarrow> bool" where
  "slot_step slot s t \<longleftrightarrow> has_keydev_dec t = has_keydev_dec s \<and> keydev_dec t = keydev_dec s \<and>
     session_pin t = session_pin s \<and> (\<forall>f. f \<notin> slot_fids slot \<longrightarrow> files t f = files s f)"

lemma slot_step_refl [simp]: "slot_step slot s s"
  by (simp add: slot_step_def)

lemma slot_step_trans: "slot_step slot s t \<Longrightarrow> slot_step slot t u \<Longrightarrow> slot_step slot s u"
  by (simp add: slot_step_def)

lemma same_slot_step: "same_store s t \<Longrightarrow> slot_step slot s t"
  by (simp add: same_store_def slot_step_def)

lemma store_slot_step: "store_step s t \<Longrightarrow> \<forall>f. f \<notin> slot_fids slot \<longrightarrow> files t f = files s f \<Longrightarrow> slot_step slot s t"
  by (auto simp: store_step_def slot_step_def)

lemma slot_step_key:
  assumes "slot_step slot s t" and "key_settled s"
  shows "key_settled t" "the_provider k t = the_provider k s"
  using assms same_key(1) [where s = s and t = t] same_key(2) [where s = s and t = t and k = k]
  by (simp_all add: slot_step_def)

lemma replace_file_slot:
  assumes "flash_laws k" and "f \<in> slot_fids slot" and "resident_replace_file k f d s = (r, t)"
  shows "slot_step slot s t"
proof -
  have k: "put_law k" "new_law k" "delete_law k" using assms(1) by (simp_all add: flash_laws_def)
  have "store_step s t" using replace_file_effect [OF assms(1,3)] by blast
  moreover have "files t g = files s g" if "g \<notin> slot_fids slot" for g
  proof -
    have g: "g \<noteq> f" using that assms(2) by auto
    have del: "files u g = files s g" if "file_delete_no_commit k (file_search s f) s = (r', u)" for r' u
      using file_delete_no_commit_cases [OF k(3) that] g by (auto simp: file_search_def split: if_splits)
    have rest: "files v g = files u g" if "(case file_new k f u of (file, s) \<Rightarrow>
        if file = None then (PICOKEYS_ERR_NO_MEMORY, s) else file_put_data k file d s) = (r', v)" for r' u v
    proof -
      obtain p s1 where n: "file_new k f u = (p, s1)" by (cases "file_new k f u")
      have "p = None \<or> p = Some f" using file_new_replay(2) [OF k(2) n] .
      then show ?thesis
        using file_new_frame [OF k(2) n, of g] file_put_data_frame [OF k(1), of "Some f" d s1 r' v g] that n g
        by auto
    qed
    define first where "first = (if file_search s f \<noteq> None then file_delete_no_commit k (file_search s f) s else (PICOKEYS_OK, s))"
    obtain r1 s1 where 1: "first = (r1, s1)" by (cases first)
    have f1: "files s1 g = files s g" using 1 del by (auto simp: first_def split: if_splits)
    have "(if r1 \<noteq> PICOKEYS_OK then (PICOKEYS_EXEC_ERROR, s1) else (case file_new k f s1 of (file, s) \<Rightarrow>
        if file = None then (PICOKEYS_ERR_NO_MEMORY, s) else file_put_data k file d s)) = (r, t)"
      using assms(3) 1 unfolding resident_replace_file_def first_def Let_def by simp
    then show ?thesis using f1 rest [of s1 r t] by (auto split: if_splits)
  qed
  ultimately show ?thesis by (auto intro: store_slot_step)
qed

lemma commit_sync_slot: "flash_commit_sync k n s = (b, t) \<Longrightarrow> slot_step slot s t"
  using flash_commit_sync_step flash_commit_sync_files by (metis store_slot_step)

text \<open>A record write ends where it is, or with the replacement of the record's file.\<close>

lemma record_write_replaces:
  assumes "key_settled s" and "resident_record_write k ob slot target w g G s = (r, desc, t)"
  shows "(r \<noteq> PICOKEYS_OK \<and> same_store s t) \<or>
    (\<exists>d u r'. resident_replace_file k (resident_record_fid slot target (w_object_type w)) d u = (r', t) \<and> same_store s u)"
proof -
  let ?n = "oa_record_header_size ob + unat (w_data_size w) + oa_tag_size ob"
  define rm where "rm = empty_manifest\<lparr>namespace_id := FIDO_OBJECT_NAMESPACE, container_kind := FIDO_RESIDENT_CONTAINER_KIND,
    container_id := ucast slot, man_generation := G, previous_generation := (if G > 1 then G - 1 else 0),
    has_object := True, object := Some (resident_descriptor slot target w g)\<rparr>"
  obtain r0 pol where p: "resident_policy_hash ob = (r0, pol)" by (cases "resident_policy_hash ob")
  obtain b u where c: "calloc k ?n s = (b, u)" by (cases "calloc k ?n s")
  note su = calloc_same [OF c]
  note key = same_store_key(1) [OF su assms(1)]
  define v where "v = u\<lparr>tick := Suc (tick u)\<rparr>"
  obtain r1 ct where sl: "file_object_record_seal k ob rm pol (payload w) ?n u = (r1, ct, v)"
    by (cases "oa_seal ob (the_provider k u) (tick u) rm pol (payload w) ?n")
       (simp add: file_object_record_seal_def with_provider_settled [OF key] v_def)
  have sv: "same_store s v" using su by (simp add: same_store_def v_def)
  have "r \<noteq> PICOKEYS_OK \<and> (t = s \<or> t = u \<or> t = v) \<or>
      (\<exists>r'. resident_replace_file k (resident_record_fid slot target (w_object_type w)) ct v = (r', t))"
    using assms(2) unfolding resident_record_write_def Let_def p prod.case c rm_def [symmetric] sl
    by (auto split: if_splits prod.splits)
  then show ?thesis using su sv same_store_refl by blast
qed

lemma record_write_slot:
  assumes "flash_laws k" and "key_settled s" and "w_object_type w \<in> set object_types"
    and "resident_record_write k ob slot target w g G s = (r, desc, t)"
  shows "slot_step slot s t"
  using record_write_replaces [OF assms(2,4)] replace_file_slot [OF assms(1) slot_fidsI(3) [OF assms(3)]]
    same_slot_step slot_step_trans by metis

lemma write_objects_slot:
  assumes "flash_laws k" and "key_settled s" and "write_objects k ob slot target seen ws m s = (r, m', t)"
  shows "slot_step slot s t"
  using assms(2,3)
proof (induction ws arbitrary: seen m s)
  case Nil
  then show ?case by simp
next
  case (Cons w ws)
  from Cons.prems(2) show ?case
  proof (cases rule: write_objects_round)
    case 1
    then show ?thesis by simp
  next
    case 2
    then show ?thesis using record_write_slot [OF assms(1) Cons.prems(1)] by blast
  next
    case (3 g desc s1)
    have "slot_step slot s s1" using record_write_slot [OF assms(1) Cons.prems(1) 3(2,1)] .
    then show ?thesis using Cons.IH [OF slot_step_key(1) 3(3)] Cons.prems(1) slot_step_trans by blast
  qed
qed

lemma marker_write_slot: "flash_laws k \<Longrightarrow> resident_marker_write k slot s = (r, t) \<Longrightarrow> slot_step slot s t"
  by (auto simp: resident_marker_write_def Let_def split: prod.splits if_splits
      dest!: replace_file_slot [OF _ slot_fidsI(2)] commit_sync_slot [where slot = slot] intro: slot_step_trans)

lemma delete_present_slot:
  assumes "delete_law k" and "f \<in> slot_fids slot"
  shows "slot_step slot s (delete_present k f s)"
proof (rule store_slot_step)
  show "store_step s (delete_present k f s)" using delete_present_effect [OF assms(1)] by blast
  show "\<forall>g. g \<notin> slot_fids slot \<longrightarrow> files (delete_present k f s) g = files s g"
    using delete_present_effect [OF assms(1), of s f] assms(2) by auto
qed

lemma delete_all_slot:
  assumes "delete_law k" and "set ds \<subseteq> slot_fids slot"
  shows "slot_step slot s (fold (delete_present k) ds s)"
  using assms(2)
proof (induction ds arbitrary: s)
  case Nil
  then show ?case by simp
next
  case (Cons f ds)
  then show ?case
    using delete_present_slot [OF assms(1), of f slot s] slot_step_trans by fastforce
qed

lemma switch_manifest_slot:
  assumes "flash_laws k" and "key_settled s" and "switch_manifest k ob slot target m s = (r, t)"
  shows "slot_step slot s t"
proof -
  have dl: "delete_law k" using assms(1) by (simp add: flash_laws_def)
  obtain b1 s1 where 1: "flash_commit_sync k COMMIT_TIMEOUT s = (b1, s1)" by (cases "flash_commit_sync k COMMIT_TIMEOUT s")
  note st1 = commit_sync_slot [OF 1, of slot]
  have key: "key_settled s1" using slot_step_key(1) [OF st1 assms(2)] .
  obtain r2 d where 2: "file_object_manifest_build k ob m (max_manifest_size ob) s1 = (r2, d, s1)"
    by (cases "oa_build ob (the_provider k s1) m (max_manifest_size ob)")
       (simp add: file_object_manifest_build_def with_provider_settled [OF key])
  define f where "f = resident_manifest_fid slot target"
  obtain r3 s3 where 3: "resident_replace_file k f d s1 = (r3, s3)" by (cases "resident_replace_file k f d s1")
  have st3: "slot_step slot s s3" using slot_step_trans [OF st1 replace_file_slot [OF assms(1) _ 3]] by (simp add: f_def)
  obtain b4 s4 where 4: "flash_commit_sync k COMMIT_TIMEOUT s3 = (b4, s4)" by (cases "flash_commit_sync k COMMIT_TIMEOUT s3")
  have st4: "slot_step slot s s4" using slot_step_trans [OF st3 commit_sync_slot [OF 4]] .
  obtain r5 s5 where 5: "resident_marker_write k slot s4 = (r5, s5)" by (cases "resident_marker_write k slot s4")
  have st5: "slot_step slot s s5" using slot_step_trans [OF st4 marker_write_slot [OF assms(1) 5]] .
  have stale: "set (stale_fids m slot target ms) \<subseteq> slot_fids slot" for ms
    by (auto simp: stale_fids_def)
  have cl: "slot_step slot s (flash_commit (remove_stale k m slot target u))" if "slot_step slot s u" for u
  proof -
    have "slot_step slot u (remove_stale k m slot target u)"
      unfolding remove_stale_def using stale by (intro delete_all_slot [OF dl]) simp
    then show ?thesis using that by (simp add: slot_step_def flash_commit_def)
  qed
  have "t = s1 \<or> t = s3 \<or> t = s4 \<or> t = s5 \<or> t = flash_commit (remove_stale k m slot target s4) \<or>
      t = flash_commit (remove_stale k m slot target s5)"
    using assms(3) by (simp add: switch_manifest_def Let_def 1 2 3 [unfolded f_def] 4 5 split: if_splits)
  then show ?thesis using st1 st3 st4 st5 cl by blast
qed

lemma parse_slot_state:
  assumes "key_settled s"
  shows "snd (snd (resident_manifest_parse_slot k ob slot ms auth s)) = s"
proof (cases "oa_parse ob (if auth then Some (the_provider k s) else None) (file_get_data s (file_search s (resident_manifest_fid slot ms)))")
  case (Pair r m)
  then have "file_object_manifest_parse k ob auth (file_get_data s (file_search s (resident_manifest_fid slot ms))) s = (r, m, s)"
    by (cases auth) (simp_all add: file_object_manifest_parse_def with_provider_settled [OF assms])
  then show ?thesis by (simp add: resident_manifest_parse_slot_def Let_def del: file_search_data)
qed

lemma load_state:
  assumes "key_settled s" and "resident_manifest_load k ob slot auth s = (r, cs, cur, t)"
  shows "t = s"
proof -
  obtain r0 c0 where 0: "resident_manifest_parse_slot k ob slot 0 auth s = (r0, c0, s)"
    using parse_slot_state [OF assms(1), of k ob slot 0 auth] by (metis prod.collapse)
  obtain r1 c1 where 1: "resident_manifest_parse_slot k ob slot 1 auth s = (r1, c1, s)"
    using parse_slot_state [OF assms(1), of k ob slot 1 auth] by (metis prod.collapse)
  show ?thesis
  proof (cases "load_step c0 r0 (None, False)")
    case (Inl e)
    with assms(2) show ?thesis by (simp add: resident_manifest_load_def 0 Let_def)
  next
    case (Inr st)
    show ?thesis
    proof (cases "load_step c1 r1 st")
      case (Inl e)
      with assms(2) Inr show ?thesis by (simp add: resident_manifest_load_def 0 1 Let_def)
    next
      case (Inr p)
      with assms(2) \<open>load_step c0 r0 (None, False) = Inr st\<close> show ?thesis
        by (cases p) (simp add: resident_manifest_load_def 0 1 Let_def split: if_splits)
    qed
  qed
qed

lemma validate_state:
  "key_settled s \<Longrightarrow> validate_objects k ob m ds s = (r, t) \<Longrightarrow> same_store s t"
proof (induction ds arbitrary: s)
  case Nil
  then show ?case by simp
next
  case (Cons desc ds)
  let ?n = "unat (logical_size desc)"
  obtain b s1 where 1: "(if ?n > 0 then calloc k ?n s else (True, s)) = (b, s1)" by (cases "?n > 0") (cases "calloc k ?n s", auto)
  have s1: "same_store s s1" using 1 calloc_same by (auto split: if_splits)
  note key = same_store_key(1) [OF s1 Cons.prems(1)]
  obtain r1 d where 2: "resident_unseal k ob m desc ?n s1 = (r1, d, s1)" using unseal_settled [OF key] by blast
  show ?case
    using Cons.prems(2) Cons.IH [OF key] 1 2 s1 same_store_trans [OF s1] by (auto simp: Let_def split: if_splits)
qed

lemma choose_state:
  assumes "key_settled s" and "choose_current k ob cs cur s = (r, c, t)"
  shows "same_store s t"
proof (cases cur)
  case None
  with assms(2) show ?thesis by (simp add: choose_current_def)
next
  case (Some c0)
  obtain r1 s1 where 1: "resident_manifest_validate k ob c0 s = (r1, s1)" by (cases "resident_manifest_validate k ob c0 s")
  have s1: "same_store s s1" using validate_state [OF assms(1)] 1 by (simp add: resident_manifest_validate_def)
  obtain r2 s2 where 2: "resident_manifest_validate k ob (cand cs (cand_slot c0 XOR 1)) s1 = (r2, s2)"
    by (cases "resident_manifest_validate k ob (cand cs (cand_slot c0 XOR 1)) s1")
  have s2: "same_store s1 s2"
    using validate_state [OF same_store_key(1) [OF s1 assms(1)]] 2 by (simp add: resident_manifest_validate_def)
  show ?thesis
    using assms(2) Some 1 2 s1 same_store_trans [OF s1 s2] by (auto simp: choose_current_def Let_def split: if_splits)
qed

lemma can_create_state:
  assumes "key_settled s" and "resident_container_can_create k ob slot s = (b, t)"
  shows "same_store s t"
proof -
  obtain au s1 where 1: "fido_object_manifest_authenticator ob s = (au, s1)" by (cases "fido_object_manifest_authenticator ob s")
  obtain pr s2 where 2: "fido_object_record_protector ob s1 = (pr, s2)" by (cases "fido_object_record_protector ob s1")
  have s2: "same_store s s2" using same_store_trans [OF authenticator_same [OF 1] protector_same [OF 2]] .
  note key = same_store_key(1) [OF s2 assms(1)]
  obtain r cs cur where 3: "resident_manifest_load k ob slot au s2 = (r, cs, cur, s2)"
    using load_state [OF key] by (metis prod_cases4)
  obtain r4 s4 where 4: "resident_manifest_validate k ob (the cur) s2 = (r4, s4)" by (cases "resident_manifest_validate k ob (the cur) s2")
  have "same_store s2 s4" using validate_state [OF key] 4 by (simp add: resident_manifest_validate_def)
  then show ?thesis
    using assms(2) 1 2 3 4 s2 same_store_trans [OF s2] by (auto simp: resident_container_can_create_def Let_def split: if_splits)
qed

lemma update_slot:
  assumes "flash_laws k" and "key_settled s" and "resident_container_update k ob slot ws s = (r, t)"
  shows "slot_step slot s t"
proof -
  obtain au s1 where 1: "fido_object_manifest_authenticator ob s = (au, s1)" by (cases "fido_object_manifest_authenticator ob s")
  obtain pr s2 where 2: "fido_object_record_protector ob s1 = (pr, s2)" by (cases "fido_object_record_protector ob s1")
  have s2: "same_store s s2" using same_store_trans [OF authenticator_same [OF 1] protector_same [OF 2]] .
  note key2 = same_store_key(1) [OF s2 assms(2)]
  obtain r3 cs cur where 3: "resident_manifest_load k ob slot au s2 = (r3, cs, cur, s2)"
    using load_state [OF key2] by (metis prod_cases4)
  obtain free s4 where 4: "(if r3 = PICOKEYS_ERR_FILE_NOT_FOUND then resident_container_can_create k ob slot s2 else (True, s2)) = (free, s4)"
    by (cases "if r3 = PICOKEYS_ERR_FILE_NOT_FOUND then resident_container_can_create k ob slot s2 else (True, s2)")
  have s4: "same_store s s4"
    using 4 can_create_state [OF key2] same_store_trans [OF s2] s2 by (auto split: if_splits)
  note key4 = same_store_key(1) [OF s4 assms(2)]
  obtain r5 c s5 where 5: "choose_current k ob cs cur s4 = (r5, c, s5)" by (metis prod_cases3)
  have s5: "same_store s s5" using same_store_trans [OF s4 choose_state [OF key4 5]] .
  note key5 = same_store_key(1) [OF s5 assms(2)]
  define m where "m = (case c of Some c \<Rightarrow> next_manifest (cand_manifest c) | None \<Rightarrow> first_manifest slot)"
  define target where "target = (case c of Some c \<Rightarrow> cand_slot c XOR 1 | None \<Rightarrow> 0)"
  obtain r6 m6 s6 where 6: "write_objects k ob slot target [] ws m s5 = (r6, m6, s6)" by (metis prod_cases3)
  have s6: "slot_step slot s s6"
    using slot_step_trans [OF same_slot_step [OF s5] write_objects_slot [OF assms(1) key5 6]] .
  obtain r7 s7 where 7: "switch_manifest k ob slot target m6 s6 = (r7, s7)" by (cases "switch_manifest k ob slot target m6 s6")
  have s7: "slot_step slot s s7"
    using slot_step_trans [OF s6 switch_manifest_slot [OF assms(1) slot_step_key(1) [OF s6 assms(2)] 7]] .
  have "t \<in> {s, s2, s4, s5, s6, s7}"
    using assms(3) 3 4 5 6 7
    by (cases au) (auto simp: resident_container_update_def Let_def 1 2 m_def [symmetric] target_def [symmetric] split: if_splits)
  then show ?thesis
    using same_slot_step s2 s4 s5 s6 s7 by (auto intro: same_slot_step)
qed

end
