(* ===== verification/Ref_Objects.thy ===== *)
theory Ref_Objects
  imports Resident_Liveness Resident_Frame Client_Pin_Lockout
begin

text \<open>
  A concrete object layer on which the properties of the containers are exercised: every
  number is four bytes, a record is a magic, its descriptor, the data and a tag. Nothing in
  the model depends on it.
\<close>

definition be4 :: "nat list \<Rightarrow> bytes" where
  "be4 ns = concat (map (ref_put_be 4) ns)"

fun un4 :: "nat \<Rightarrow> bytes \<Rightarrow> nat list" where
  "un4 0 d = []"
| "un4 (Suc n) d = ref_get_be 4 d # un4 n (drop 4 d)"

lemma length_be4 [simp]: "length (be4 ns) = 4 * length ns"
  by (induction ns) (simp_all add: be4_def)

lemma un4_be4: "\<forall>n \<in> set ns. n < 2 ^ 32 \<Longrightarrow> un4 (length ns) (be4 ns @ d) = ns"
proof (induction ns)
  case Nil
  then show ?case by simp
next
  case (Cons n ns)
  have "ref_get_be 4 (ref_put_be 4 n @ be4 ns @ d) = n" using Cons.prems by (intro ref_get_put_be) simp
  then show ?case using Cons by (simp add: be4_def)
qed

definition desc_nats :: "file_object_descriptor \<Rightarrow> nat list" where
  "desc_nats desc = [unat (object_type desc), unat (object_tag desc), unat (generation desc), unat (logical_size desc),
     unat (record_id desc), unat (stored_size desc), unat (policy_id desc), unat (key_domain desc),
     unat (protection desc), unat (flags desc)]"

definition nats_desc :: "nat list \<Rightarrow> file_object_descriptor" where
  "nats_desc ns = \<lparr>object_type = word_of_nat (ns ! 0), object_tag = word_of_nat (ns ! 1), generation = word_of_nat (ns ! 2),
     logical_size = word_of_nat (ns ! 3), record_id = word_of_nat (ns ! 4), stored_size = word_of_nat (ns ! 5),
     policy_id = word_of_nat (ns ! 6), key_domain = word_of_nat (ns ! 7), protection = word_of_nat (ns ! 8),
     flags = word_of_nat (ns ! 9)\<rparr>"

definition encode_desc :: "file_object_descriptor \<Rightarrow> bytes" where
  "encode_desc desc = be4 (desc_nats desc)"

fun decode_descs :: "nat \<Rightarrow> bytes \<Rightarrow> file_object_descriptor list" where
  "decode_descs 0 d = []"
| "decode_descs (Suc n) d = nats_desc (un4 10 d) # decode_descs n (drop 40 d)"

lemma length_encode_desc [simp]: "length (encode_desc desc) = 40"
  by (simp add: encode_desc_def desc_nats_def)

lemma unat_less_32: "LENGTH('a) \<le> 32 \<Longrightarrow> unat (w :: 'a::len word) < 2 ^ 32"
  using unsigned_less [of w] by (meson less_le_trans one_le_numeral power_increasing)

lemma decode_encode_desc: "nats_desc (un4 10 (encode_desc desc @ d)) = desc"
proof -
  have "un4 (length (desc_nats desc)) (be4 (desc_nats desc) @ d) = desc_nats desc"
    by (rule un4_be4) (auto simp: desc_nats_def intro!: unat_less_32 [simplified])
  moreover have "length (desc_nats desc) = 10" by (simp add: desc_nats_def)
  ultimately have "un4 10 (encode_desc desc @ d) = desc_nats desc" by (simp only: encode_desc_def)
  then show ?thesis by (simp add: nats_desc_def desc_nats_def)
qed

lemma decode_descs_encode: "decode_descs (length ds) (concat (map encode_desc ds) @ d) = ds"
proof (induction ds)
  case Nil
  then show ?case by simp
next
  case (Cons desc ds)
  have "drop 40 (encode_desc desc @ concat (map encode_desc ds) @ d) = concat (map encode_desc ds) @ d"
    by simp
  with Cons decode_encode_desc [of desc "concat (map encode_desc ds) @ d"] show ?case by simp
qed

definition man_nats :: "file_object_manifest \<Rightarrow> nat list" where
  "man_nats m = [unat (namespace_id m), unat (container_kind m), unat (container_id m), unat (man_generation m),
     unat (previous_generation m), unat (extension_size m), length (objects m)]"

definition ref_build :: "provider \<Rightarrow> file_object_manifest \<Rightarrow> nat \<Rightarrow> rc \<times> bytes" where
  "ref_build p m capacity =
     (let d = be4 (man_nats m) @ concat (map encode_desc (objects m))
      in if length d > capacity \<or> length (objects m) > 255 then (PICOKEYS_WRONG_LENGTH, []) else (PICOKEYS_OK, d))"

definition ref_parse :: "provider option \<Rightarrow> bytes \<Rightarrow> rc \<times> file_object_manifest" where
  "ref_parse p d =
     (let ns = un4 7 d; ds = decode_descs (ns ! 6 mod 256) (drop 28 d);
          m = \<lparr>namespace_id = word_of_nat (ns ! 0), container_kind = word_of_nat (ns ! 1), container_id = word_of_nat (ns ! 2),
               man_generation = word_of_nat (ns ! 3), previous_generation = word_of_nat (ns ! 4), objects = ds,
               has_object = ds \<noteq> [], object = None, extension_size = word_of_nat (ns ! 5)\<rparr>
      in (if length d < 28 then PICOKEYS_WRONG_DATA else PICOKEYS_OK, m))"

definition ref_record_head :: "file_object_descriptor \<Rightarrow> bytes" where
  "ref_record_head desc = [0x50, 0x4b, 0x4f, 0x52] @ encode_desc desc"

definition ref_objs :: objs where
  "ref_objs =
     \<lparr>oa_init = (\<lambda>n ns. PICOKEYS_OK), oa_authenticator = True, oa_protector = True,
      oa_parse = ref_parse, oa_build = ref_build,
      oa_header = (\<lambda>c desc. if take 44 c = ref_record_head desc then PICOKEYS_OK else PICOKEYS_WRONG_DATA),
      oa_seal = (\<lambda>p n m policy d capacity. case object m of None \<Rightarrow> (PICOKEYS_ERR_NULL_PARAM, [])
         | Some desc \<Rightarrow> (PICOKEYS_OK, ref_record_head desc @ d @ replicate 16 0xaa)),
      oa_unseal = (\<lambda>p m policy c capacity. case object m of None \<Rightarrow> (PICOKEYS_ERR_NULL_PARAM, [])
         | Some desc \<Rightarrow> let d = take (length c - 60) (drop 44 c)
             in if take 44 c \<noteq> ref_record_head desc then (PICOKEYS_WRONG_SIGNATURE, [])
                else if length d > capacity then (PICOKEYS_WRONG_LENGTH, []) else (PICOKEYS_OK, d)),
      oa_policy_hash = (\<lambda>d. (PICOKEYS_OK, fit 32 d)), oa_policy_version = 1, oa_max_objects = 8,
      oa_manifest_header_size = 28, oa_descriptor_size = 40, oa_record_header_size = 44, oa_tag_size = 16,
      oa_authenticated_public = 1, oa_aead_secret = 2, oa_flag_inline = 1, oa_flag_mutable = 2,
      oa_flag_non_exportable = 4\<rparr>"

lemma ref_seal_law: "seal_law ref_objs"
  unfolding seal_law_def
proof (intro allI impI, elim conjE)
  fix p n m desc policy d capacity c
  assume s: "oa_seal ref_objs p n m policy d capacity = (PICOKEYS_OK, c)" and o: "object m = Some desc"
  then have c: "c = ref_record_head desc @ d @ replicate 16 0xaa" by (simp add: ref_objs_def)
  have l: "length (ref_record_head desc) = 44" by (simp add: ref_record_head_def)
  then have t: "take 44 c = ref_record_head desc" "take (length c - 60) (drop 44 c) = d" using c by simp_all
  then show "oa_header ref_objs c desc = PICOKEYS_OK \<and>
      (\<forall>m' capacity'. same_identity m m' \<and> length d \<le> capacity' \<longrightarrow>
        oa_unseal ref_objs p m' policy c capacity' = (PICOKEYS_OK, d))"
    using o by (auto simp: ref_objs_def same_identity_def)
qed

lemma ref_build_law: "build_law ref_objs"
  unfolding build_law_def
proof (intro allI impI)
  fix p m capacity d
  assume b: "oa_build ref_objs p m capacity = (PICOKEYS_OK, d)"
  let ?ds = "concat (map encode_desc (objects m))"
  have d: "d = be4 (man_nats m) @ ?ds" and n: "length (objects m) \<le> 255"
    using b by (auto simp: ref_objs_def ref_build_def Let_def split: if_splits)
  have "un4 (length (man_nats m)) (be4 (man_nats m) @ ?ds) = man_nats m"
    by (rule un4_be4) (use n in \<open>auto simp: man_nats_def intro!: unat_less_32 [simplified]\<close>)
  moreover have "length (man_nats m) = 7" by (simp add: man_nats_def)
  ultimately have u: "un4 7 d = man_nats m" by (simp only: d)
  have "length (be4 (man_nats m)) = 28" by (simp add: man_nats_def)
  then have "drop 28 d = ?ds" "28 \<le> length d" by (simp_all add: d)
  moreover have "decode_descs (length (objects m)) ?ds = objects m"
    using decode_descs_encode [of "objects m" "[]"] by simp
  ultimately show "d \<noteq> [] \<and> (\<exists>m'. oa_parse ref_objs (Some p) d = (PICOKEYS_OK, m') \<and>
       namespace_id m' = namespace_id m \<and> container_kind m' = container_kind m \<and>
       container_id m' = container_id m \<and> man_generation m' = man_generation m \<and> objects m' = objects m)"
    using n u by (auto simp: ref_objs_def ref_parse_def man_nats_def Let_def)
qed

lemma ref_objs_laws: "objs_laws ref_objs"
  using ref_seal_law ref_build_law by (simp add: objs_laws_def resident_policy_hash_def) (simp add: ref_objs_def)

lemma ref_objs_available: "objs_available ref_objs"
  by (simp add: objs_available_def ref_objs_def)

lemma ref_reliable: "reliable ref_sdk"
  by (auto simp: reliable_def accepts_def ref_put_def ref_new_def deletes_def ref_delete_def allocates_def)

lemma ref_allocates: "allocates ref_sdk"
  using ref_reliable by (simp add: reliable_def)

lemma ref_objs_sel [simp]:
  "oa_parse ref_objs = ref_parse"
  "oa_max_objects ref_objs = 8" "oa_record_header_size ref_objs = 44" "oa_tag_size ref_objs = 16"
  "oa_flag_inline ref_objs = 1" "oa_flag_mutable ref_objs = 2" "oa_flag_non_exportable ref_objs = 4"
  by (simp_all add: ref_objs_def)

lemma length_concat_encode: "length (concat (map encode_desc ds)) = 40 * length ds"
  by (induction ds) simp_all

lemma ref_objs_reliable: "objs_reliable ref_objs"
  unfolding objs_reliable_def
proof (intro conjI allI impI)
  fix p n policy d and m :: file_object_manifest
  assume "object m \<noteq> None"
  then show "\<exists>c. oa_seal ref_objs p n m policy d (oa_record_header_size ref_objs + length d + oa_tag_size ref_objs) = (PICOKEYS_OK, c) \<and>
      length c = oa_record_header_size ref_objs + length d + oa_tag_size ref_objs"
    by (auto simp: ref_objs_def ref_record_head_def)
next
  fix p and m :: file_object_manifest
  assume "length (objects m) \<le> oa_max_objects ref_objs"
  then show "\<exists>d. oa_build ref_objs p m (max_manifest_size ref_objs) = (PICOKEYS_OK, d) \<and> length d \<le> 1024"
    by (simp add: ref_objs_def ref_build_def max_manifest_size_def length_concat_encode man_nats_def Let_def)
qed

text \<open>The concrete authenticator with the provider's flag.\<close>

definition ref_resident :: "files \<Rightarrow> resident" where
  "ref_resident fs = fido.extend (ref_fido fs) \<lparr>crypto_provider_initialized = False\<rparr>"

lemma ref_resident_files [simp]: "files (ref_resident fs) = fs" "has_keydev_dec (ref_resident fs) = False"
  "wlog (ref_resident fs) = []"
  by (simp_all add: ref_resident_def fido.defs ref_fido_def)

definition ref_keyed :: "files \<Rightarrow> resident" where
  "ref_keyed fs = ref_resident (fs(EF_KEY_DEV \<mapsto> 1 # replicate 32 3))"

lemma ref_keyed_files [simp]: "files (ref_keyed fs) = fs(EF_KEY_DEV \<mapsto> 1 # replicate 32 3)" "wlog (ref_keyed fs) = []"
  by (simp_all add: ref_keyed_def)

lemma ref_keyed_settled: "key_settled (ref_keyed fs)"
  by (simp add: key_settled_def ref_keyed_def)

text \<open>
  A container in credential slot 7 as one update after its creation leaves it: the manifest
  and the credential in slot 1, the hash of the relying party still in slot 0.
\<close>

definition ref_desc :: "byte \<Rightarrow> u16 \<Rightarrow> bytes \<Rightarrow> file_object_descriptor" where
  "ref_desc c ty d = resident_descriptor 7 c
     \<lparr>w_object_type = ty, w_data = Some d, w_data_size = word_of_nat (length d), w_protection = 1, w_flags = 0\<rparr> 1"

definition ref_record :: "byte \<Rightarrow> u16 \<Rightarrow> bytes \<Rightarrow> bytes" where
  "ref_record c ty d = ref_record_head (ref_desc c ty d) @ d @ replicate 16 0xaa"

definition ref_manifest :: file_object_manifest where
  "ref_manifest = (first_manifest 7)\<lparr>man_generation := 2, objects := [ref_desc 0 1 [9, 9], ref_desc 1 3 [5]],
     has_object := True\<rparr>"

definition ref_container_files :: files where
  "ref_container_files =
     [resident_manifest_fid 7 1 \<mapsto> be4 (man_nats ref_manifest) @ concat (map encode_desc (objects ref_manifest)),
      resident_record_fid 7 0 1 \<mapsto> ref_record 0 1 [9, 9], resident_record_fid 7 1 3 \<mapsto> ref_record 1 3 [5],
      cred_fid 7 \<mapsto> resident_marker 7]"

lemma ref_parse_manifest:
  assumes "length (objects m) \<le> 255" and "has_object m \<longleftrightarrow> objects m \<noteq> []" and "object m = None"
  shows "ref_parse p (be4 (man_nats m) @ concat (map encode_desc (objects m))) = (PICOKEYS_OK, m)"
proof -
  let ?ds = "concat (map encode_desc (objects m))"
  have "un4 (length (man_nats m)) (be4 (man_nats m) @ ?ds) = man_nats m"
    by (rule un4_be4) (use assms(1) in \<open>auto simp: man_nats_def intro!: unat_less_32 [simplified]\<close>)
  moreover have "length (man_nats m) = 7" by (simp add: man_nats_def)
  ultimately have u: "un4 7 (be4 (man_nats m) @ ?ds) = man_nats m" by (simp only:)
  have d: "drop 28 (be4 (man_nats m) @ ?ds) = ?ds" by (simp add: man_nats_def)
  have "decode_descs (length (objects m)) ?ds = objects m" using decode_descs_encode [of "objects m" "[]"] by simp
  with u d assms show ?thesis by (simp add: ref_parse_def Let_def) (simp add: man_nats_def)
qed

lemma ref_record_in:
  assumes "V ty = Some d" and "length d \<le> 1024" and "ty \<in> set object_types" and "c = 0 \<or> c = 1"
    and "fs (resident_record_fid 7 c ty) = Some (ref_record c ty d)"
  shows "record_in ref_objs P 7 fs V (ref_desc c ty d)"
proof -
  have h: "length (ref_record_head desc) = 44" for desc by (simp add: ref_record_head_def)
  have t: "take 44 (ref_record c ty d) = ref_record_head (ref_desc c ty d)"
      "take (length (ref_record c ty d) - 60) (drop 44 (ref_record c ty d)) = d"
    using h by (simp_all add: ref_record_def)
  have "opens ref_objs P 7 (ref_desc c ty d) (ref_record c ty d) d"
    using t assms(2) by (auto simp: opens_def ref_objs_def ref_record_def ref_desc_def resident_descriptor_def unat_of_nat take_bit_nat_eq_self)
  then show ?thesis
    using assms by (auto simp: record_in_def resident_record_id_valid_def valid_types ref_desc_def resident_descriptor_def not_less)
qed

lemma ref_container_lookup:
  "ref_container_files (resident_manifest_fid 7 1) = Some (be4 (man_nats ref_manifest) @ concat (map encode_desc (objects ref_manifest)))"
  "ref_container_files (resident_manifest_fid 7 0) = None"
  "ref_container_files (resident_record_fid 7 0 1) = Some (ref_record 0 1 [9, 9])"
  "ref_container_files (resident_record_fid 7 1 3) = Some (ref_record 1 3 [5])"
  "ref_container_files (cred_fid 7) = Some (resident_marker 7)"
  by (simp_all add: ref_container_files_def manifest_fid_of record_fid_of cred_fid_of object_types_def)

lemma ref_keyed_lookup:
  "files (ref_keyed fs) (resident_manifest_fid slot c) = fs (resident_manifest_fid slot c)"
  "files (ref_keyed fs) (cred_fid slot) = fs (cred_fid slot)"
  "ty \<in> set object_types \<Longrightarrow> files (ref_keyed fs) (resident_record_fid slot c ty) = fs (resident_record_fid slot c ty)"
  by simp_all

lemma ref_container:
  "container_in ref_objs P 7 1 ref_manifest [1 \<mapsto> [9, 9], 3 \<mapsto> [5]] (files (ref_keyed ref_container_files))"
proof -
  let ?fs = "files (ref_keyed ref_container_files)"
  have t: "1 \<in> set object_types" "3 \<in> set object_types" by (simp_all add: object_types_def)
  have f: "?fs (resident_manifest_fid 7 1) = Some (be4 (man_nats ref_manifest) @ concat (map encode_desc (objects ref_manifest)))"
    "?fs (resident_manifest_fid 7 0) = None" "?fs (resident_record_fid 7 0 1) = Some (ref_record 0 1 [9, 9])"
    "?fs (resident_record_fid 7 1 3) = Some (ref_record 1 3 [5])"
    by (simp_all only: ref_keyed_lookup(1) ref_keyed_lookup(3) [OF t(1)] ref_keyed_lookup(3) [OF t(2)] ref_container_lookup)
  have "oa_parse ref_objs (Some P) (be4 (man_nats ref_manifest) @ concat (map encode_desc (objects ref_manifest))) = (PICOKEYS_OK, ref_manifest)"
    unfolding ref_objs_sel(1)
    by (rule ref_parse_manifest) (simp_all add: ref_manifest_def first_manifest_def empty_manifest_def)
  moreover have "be4 (man_nats ref_manifest) \<noteq> []" 
  proof
    assume "be4 (man_nats ref_manifest) = []"
    then have "length (be4 (man_nats ref_manifest)) = 0" by simp
    then show False by (simp add: man_nats_def)
  qed
  moreover have "record_in ref_objs P 7 ?fs [1 \<mapsto> [9, 9], 3 \<mapsto> [5]] (ref_desc 0 1 [9, 9])"
    using t f by (intro ref_record_in) (simp_all del: ref_keyed_files)
  moreover have "record_in ref_objs P 7 ?fs [1 \<mapsto> [9, 9], 3 \<mapsto> [5]] (ref_desc 1 3 [5])"
    using t f by (intro ref_record_in) (simp_all del: ref_keyed_files)
  moreover have "objects ref_manifest = [ref_desc 0 1 [9, 9], ref_desc 1 3 [5]]" by (simp add: ref_manifest_def)
  moreover have "object_type (ref_desc c ty d) = ty" for c ty d by (simp add: ref_desc_def resident_descriptor_def)
  moreover have "is_identity 7 ref_manifest" by (simp add: is_identity_def ref_manifest_def first_manifest_def empty_manifest_def)
  ultimately show ?thesis
    using f(1,2) by (auto simp: container_in_def manifest_in_def stale_manifest_def simp del: ref_keyed_files)
qed

end
