(* ===== verification/Resident_Properties.thy ===== *)
theory Resident_Properties
  imports Resident_Liveness Resident_Frame Ref_Objects
begin

text \<open>
  The properties of the resident containers: where their files are, atomic creation and
  update, reading back what was stored, deletion, and what reading an absent object answers.
\<close>

text \<open>A container in good order whose contents are \<open>V\<close>, its credential in the slot of its manifest.\<close>

definition credential_container :: "objs \<Rightarrow> provider \<Rightarrow> byte \<Rightarrow> (u16 \<rightharpoonup> bytes) \<Rightarrow> files \<Rightarrow> bool" where
  "credential_container ob P slot V fs \<longleftrightarrow>
     (\<exists>c m. container_in ob P slot c m V fs \<and> homed slot c {FIDO_RESIDENT_OBJECT_CREDENTIAL} (objects m))"

lemma homed_mono: "homed slot c types ds \<Longrightarrow> types' \<subseteq> types \<Longrightarrow> homed slot c types' ds"
  by (auto simp: homed_def)

lemma fit_word_length: "int (length d) \<le> 0xFFFFFFFF \<Longrightarrow> fit (unat (word_of_nat (length d) :: u32)) d = d"
  by (simp add: unat_of_nat take_bit_nat_eq_self)

definition container_contents :: "bytes \<Rightarrow> bytes \<Rightarrow> bytes \<Rightarrow> bytes \<Rightarrow> u16 \<rightharpoonup> bytes" where
  "container_contents rp cid cred pk =
     [FIDO_RESIDENT_OBJECT_RP_ID_HASH \<mapsto> rp, FIDO_RESIDENT_OBJECT_CLIENT_ID \<mapsto> cid,
      FIDO_RESIDENT_OBJECT_CREDENTIAL \<mapsto> cred, FIDO_RESIDENT_OBJECT_PUBLIC_KEY \<mapsto> pk]"

lemma updates_container_writes:
  assumes "length rp = 32" and "int (length cid) \<le> 0xFFFFFFFF" and "int (length cred) \<le> 0xFFFFFFFF" and "int (length pk) \<le> 0xFFFFFFFF"
  shows "updates Map.empty (container_writes ob rp cid cred pk) = container_contents rp cid cred pk"
  using assms by (simp add: container_writes_def container_contents_def payload_def fit_word_length)

lemma types_container_writes [simp]: "w_object_type ` set (container_writes ob rp cid cred pk) = {1, 2, 3, 4}"
  by (auto simp: container_writes_def)

lemma ref_container_state:
  defines "s \<equiv> ref_keyed ref_container_files"
  shows "credential_container ref_objs (the_provider k s) 7 [1 \<mapsto> [9, 9], 3 \<mapsto> [5]] (files s)"
    and "homed 7 1 {3} (objects ref_manifest)"
proof -
  show h: "homed 7 1 {3} (objects ref_manifest)"
    by (simp add: homed_def ref_manifest_def ref_desc_def resident_descriptor_def)
  show "credential_container ref_objs (the_provider k s) 7 [1 \<mapsto> [9, 9], 3 \<mapsto> [5]] (files s)"
    using ref_container h unfolding credential_container_def s_def by blast
qed

lemma ref_fresh: "absent 7 (files (ref_keyed Map.empty))"
  by (simp add: absent_def no_manifest_def)

subsection \<open>Files\<close>

text \<open>
  The manifests, the records and the marker of all credential slots are different files,
  and none of them is the device key: two different roles never share an identifier.
\<close>

theorem resident_files_disjoint:
  assumes "ty \<in> set object_types" and "ty' \<in> set object_types"
  shows "(resident_record_fid slot ms ty = resident_record_fid slot' ms' ty' \<longleftrightarrow> slot = slot' \<and> (ms = 0 \<longleftrightarrow> ms' = 0) \<and> ty = ty') \<and>
    (resident_manifest_fid slot ms = resident_manifest_fid slot' ms' \<longleftrightarrow> slot = slot' \<and> (ms = 0 \<longleftrightarrow> ms' = 0)) \<and>
    (cred_fid slot = cred_fid slot' \<longleftrightarrow> slot = slot') \<and>
    distinct [resident_record_fid slot ms ty, resident_manifest_fid slot' ms', cred_fid slot'', EF_KEY_DEV]"
  using assms record_fid_inject manifest_fid_inject manifest_not_record cred_not_container key_dev_not_container
  by (simp add: cred_fid_of [of slot] cred_fid_of [of slot'])

lemma resident_files_disjoint_witness:
  "resident_record_fid 7 0 1 \<noteq> resident_record_fid 7 1 1 \<and> resident_record_fid 7 0 3 = 0xd507"
  using resident_files_disjoint [of 1 1 7 0 7 1 7] by (simp add: object_types_def resident_record_fid_def)

subsection \<open>Creation\<close>

lemma create_as_update:
  assumes "int (length cid) \<le> 0xFFFFFFFF" and "int (length cred) \<le> 0xFFFFFFFF" and "int (length pk) \<le> 0xFFFFFFFF"
  shows "resident_container_create k ob slot (Some rp) (Some cid) (Some cred) (Some pk) s =
    resident_container_update k ob slot (container_writes ob rp cid cred pk) s"
  using assms by (simp add: resident_container_create_def)

text \<open>
  C11: Creation is atomic. Where no manifest was, a power failure at any moment of
  \<open>resident_container_create\<close>, with any part of the requests since the last synchronous commit
  lost, leaves no manifest or the complete container with the four objects; and when it
  reports success the container is complete.
\<close>

theorem resident_create_atomic:
  assumes "flash_laws k" and "objs_laws ob" and "key_settled s" and "absent slot (files s)"
    and "length rp = 32" and "int (length cid) \<le> 0xFFFFFFFF" and "int (length cred) \<le> 0xFFFFFFFF" and "int (length pk) \<le> 0xFFFFFFFF"
    and "resident_container_create k ob slot (Some rp) (Some cid) (Some cred) (Some pk) s = (r, t)"
  shows "\<exists>w. wlog t = wlog s @ w \<and>
    (\<forall>fs \<in> crashes (files s) [] w. absent slot fs \<or>
       credential_container ob (the_provider k s) slot (container_contents rp cid cred pk) fs) \<and>
    (r = PICOKEYS_OK \<longrightarrow> credential_container ob (the_provider k s) slot (container_contents rp cid cred pk) (files t))"
proof -
  have up: "resident_container_update k ob slot (container_writes ob rp cid cred pk) s = (r, t)"
    using assms(9) create_as_update [OF assms(6-8), of k ob slot rp s] by simp
  have cc: "credential_container ob (the_provider k s) slot (container_contents rp cid cred pk) fs"
    if "container_in ob (the_provider k s) slot 0 m (updates Map.empty (container_writes ob rp cid cred pk)) fs \<and>
      homed slot 0 (w_object_type ` set (container_writes ob rp cid cred pk)) (objects m)" for fs m
    using that updates_container_writes [OF assms(5-8), of ob] homed_mono [of slot 0 "{1, 2, 3, 4}" "objects m" "{3}"]
    unfolding credential_container_def types_container_writes by fastforce
  obtain w where w: "wlog t = wlog s @ w"
      "\<forall>fs \<in> crashes (files s) [] w. absent slot fs \<or> (\<exists>m'. container_in ob (the_provider k s) slot 0 m'
         (updates Map.empty (container_writes ob rp cid cred pk)) fs \<and>
         homed slot 0 (w_object_type ` set (container_writes ob rp cid cred pk)) (objects m'))"
      "r = PICOKEYS_OK \<longrightarrow> (\<exists>m'. container_in ob (the_provider k s) slot 0 m'
         (updates Map.empty (container_writes ob rp cid cred pk)) (files t) \<and>
         homed slot 0 (w_object_type ` set (container_writes ob rp cid cred pk)) (objects m'))"
    using create_container [OF assms(1-3) _ assms(4) _ up, of "[]"] by (auto simp del: types_container_writes)
  then show ?thesis using cc by blast
qed

lemma resident_create_atomic_witness:
  "\<exists>r t w. resident_container_create ref_sdk ref_objs 7 (Some (replicate 32 9)) (Some [1]) (Some [5, 6]) (Some [7])
       (ref_keyed Map.empty) = (r, t) \<and> wlog t = [] @ w \<and>
     (\<forall>fs \<in> crashes (files (ref_keyed Map.empty)) [] w. absent 7 fs \<or>
       credential_container ref_objs (the_provider ref_sdk (ref_keyed Map.empty)) 7
         (container_contents (replicate 32 9) [1] [5, 6] [7]) fs)"
proof -
  obtain r t where c: "resident_container_create ref_sdk ref_objs 7 (Some (replicate 32 9)) (Some [1]) (Some [5, 6]) (Some [7])
      (ref_keyed Map.empty) = (r, t)" by fastforce
  show ?thesis
    using resident_create_atomic [OF ref_flash_laws ref_objs_laws ref_keyed_settled ref_fresh _ _ _ _ c] c
    by (simp del: ref_keyed_files(1))
qed

subsection \<open>Replacing the credential\<close>

text \<open>
  C5: Replacing the credential is atomic. On a container in good order a power failure at any
  moment of \<open>resident_container_update_credential\<close> leaves the container with all its old
  contents or with exactly the credential replaced; a call that reports success has replaced it.
\<close>

theorem update_credential_atomic:
  assumes "flash_laws k" and "objs_laws ob" and "allocates k" and "key_settled s"
    and "credential_container ob (the_provider k s) slot V (files s)" and "int (length cred) \<le> 0xFFFFFFFF"
    and "resident_container_update_credential k ob slot (Some cred) s = (r, t)"
  defines "V' \<equiv> V(FIDO_RESIDENT_OBJECT_CREDENTIAL \<mapsto> cred)"
  shows "\<exists>w. wlog t = wlog s @ w \<and>
    (\<forall>fs \<in> crashes (files s) [] w. credential_container ob (the_provider k s) slot V fs \<or>
       credential_container ob (the_provider k s) slot V' fs) \<and>
    (r = PICOKEYS_OK \<longrightarrow> credential_container ob (the_provider k s) slot V' (files t))"
proof -
  obtain c m where c: "container_in ob (the_provider k s) slot c m V (files s)" and h: "homed slot c {3} (objects m)"
    using assms(5) by (auto simp: credential_container_def)
  let ?ws = "[credential_write ob (Some cred)]"
  have up: "resident_container_update k ob slot ?ws s = (r, t)"
    using assms(6,7) by (simp add: resident_container_update_credential_def)
  have ty: "w_object_type ` set ?ws = {3}" by (simp add: credential_write_def)
  have V: "updates V ?ws = V'"
    using assms(6) by (simp add: V'_def credential_write_def payload_def fit_word_length)
  have "unreferenced slot (c XOR 1) {3} (objects m)"
    using homed_unreferenced [OF h _ _ container_xor [OF c]] c by (auto simp: container_in_def record_in_def object_types_def)
  then obtain w where w: "wlog t = wlog s @ w"
      "\<forall>fs \<in> crashes (files s) [] w. container_in ob (the_provider k s) slot c m V fs \<or>
        (\<exists>m'. container_in ob (the_provider k s) slot (c XOR 1) m' V' fs \<and> homed slot (c XOR 1) {3} (objects m'))"
      "r = PICOKEYS_OK \<longrightarrow> (\<exists>m'. container_in ob (the_provider k s) slot (c XOR 1) m' V' (files t) \<and> homed slot (c XOR 1) {3} (objects m'))"
    using update_container [OF assms(1-4) _ c _ _ up, of "[]", unfolded ty V] by auto
  then show ?thesis using h unfolding credential_container_def by blast
qed

lemma update_credential_atomic_witness:
  "\<exists>r t w. resident_container_update_credential ref_sdk ref_objs 7 (Some [8, 8]) (ref_keyed ref_container_files) = (r, t) \<and>
     wlog t = [] @ w \<and>
     (\<forall>fs \<in> crashes (files (ref_keyed ref_container_files)) [] w.
       credential_container ref_objs (the_provider ref_sdk (ref_keyed ref_container_files)) 7 [1 \<mapsto> [9, 9], 3 \<mapsto> [5]] fs \<or>
       credential_container ref_objs (the_provider ref_sdk (ref_keyed ref_container_files)) 7 [1 \<mapsto> [9, 9], 3 \<mapsto> [8, 8]] fs)"
proof -
  obtain r t where c: "resident_container_update_credential ref_sdk ref_objs 7 (Some [8, 8]) (ref_keyed ref_container_files) = (r, t)"
    by fastforce
  show ?thesis
    using update_credential_atomic [OF ref_flash_laws ref_objs_laws ref_allocates ref_keyed_settled ref_container_state(1) _ c] c
    by (simp del: ref_keyed_files(1))
qed

subsection \<open>Reading\<close>

text \<open>
  Reading returns the contents. From a container in good order \<open>resident_container_read\<close>
  gives every object, with its length, into any buffer that is large enough, and changes
  nothing in the store.
\<close>

theorem resident_read_object:
  assumes "key_settled s" and "objs_laws ob" and "objs_available ob"
    and "credential_container ob (the_provider k s) slot V (files s)" and "V ty = Some v" and "length v \<le> length buf"
  shows "\<exists>t. resident_container_read k ob slot ty buf n s = (PICOKEYS_OK, v @ drop (length v) buf, length v, t) \<and>
    files t = files s \<and> wlog t = wlog s"
proof -
  obtain c m where c: "container_in ob (the_provider k s) slot c m V (files s)"
    using assms(4) by (auto simp: credential_container_def)
  from container_read_object [OF assms(1-3) c assms(5,6), of n] show ?thesis by (auto simp: same_store_def)
qed

lemma resident_read_object_witness:
  "\<exists>t. resident_container_read ref_sdk ref_objs 7 FIDO_RESIDENT_OBJECT_RP_ID_HASH [0, 0, 0] 0 (ref_keyed ref_container_files) =
     (PICOKEYS_OK, [9, 9, 0], 2, t)"
  using resident_read_object [OF ref_keyed_settled ref_objs_laws ref_objs_available ref_container_state(1), where k = ref_sdk and ty = 1 and v = "[9, 9]" and buf = "[0, 0, 0]" and n = 0]
  by (auto simp: numeral_eq_Suc)

subsection \<open>Success\<close>

text \<open>Nothing of the container is there, and nothing foreign is where its records go.\<close>

definition fresh :: "byte \<Rightarrow> 'a plat_scheme \<Rightarrow> bool" where
  "fresh slot s \<longleftrightarrow> (\<forall>ms \<in> {0, 1}. files s (resident_manifest_fid slot ms) = None) \<and>
     (\<forall>ms \<in> {0, 1}. \<forall>ty \<in> set object_types. record_place_free s (resident_record_fid slot ms ty))"

lemma create_succeeds:
  assumes "flash_laws k" and "objs_laws ob" and "reliable k" and "objs_reliable ob" and "objs_available ob"
    and "key_settled s" and "fresh slot s" and "ws \<noteq> []" and "length ws \<le> oa_max_objects ob"
    and "\<forall>w \<in> set ws. write_fits ob w" and "distinct (map w_object_type ws)"
  shows "\<exists>t. resident_container_update k ob slot ws s = (PICOKEYS_OK, t)"
proof -
  obtain t u where h: "fido_object_manifest_authenticator ob s = (True, t)"
      "fido_object_record_protector ob t = (True, u)" and su: "same_store s u"
    using handles [OF assms(5), of s] by blast
  note key = same_store_key [OF su assms(6)]
  have "record_place_free u g = record_place_free s g" for g
    unfolding record_place_free_def file_reads_cong [OF key(3)] by (rule refl)
  then have f: "fresh slot u" using assms(7) key(3) by (simp add: fresh_def)
  then have "absent slot (files u)" by (simp add: fresh_def absent_def no_manifest_def)
  then obtain cs where l: "resident_manifest_load k ob slot True u = (PICOKEYS_ERR_FILE_NOT_FOUND, cs, None, u)"
    using load_absent [OF key(1)] by blast
  have cc: "resident_container_can_create k ob slot u = (True, u)"
    using f by (simp add: resident_container_can_create_def fresh_def file_search_def list_all_iff)
  have fm: "objects (first_manifest slot) = []" by (simp add: first_manifest_def empty_manifest_def)
  obtain m v where w: "write_objects k ob slot 0 [] ws (first_manifest slot) u = (PICOKEYS_OK, m, v)"
      "length (objects m) \<le> oa_max_objects ob"
    using write_objects_ok [OF assms(1,3,4,2) key(1) assms(10,11), of "[]" "first_manifest slot" slot 0] fm assms(9) by auto
  have "key_settled v"
  proof -
    from write_objects_ops [OF assms(1,2) key(1) w(1)] obtain a where a: "store_step u v" "files v = replay (files u) a"
        "\<forall>x \<in> set a. \<exists>ty \<in> w_object_type ` set ws \<inter> set object_types. target_of x = Some (resident_record_fid slot 0 ty)" by auto
    have "files v EF_KEY_DEV = files u EF_KEY_DEV"
      unfolding a(2) using a(3) by (intro replay_other) auto
    then show ?thesis using same_key(1) [where s = u and t = v] key(1) a(1) by (auto simp: store_step_def)
  qed
  from switch_manifest_ok [OF assms(1,3,4) this w(2), of slot 0] obtain t' where
      "switch_manifest k ob slot 0 m v = (PICOKEYS_OK, t')" by (metis prod.collapse)
  then show ?thesis
    using h l cc w(1) assms(8,9) by (simp add: resident_container_update_def choose_current_def Let_def)
qed

text \<open>
  C28: Creation succeeds and what was stored is read back. On a reliable storage of 1024 bytes
  per file a container whose place is free is created, and each of the four objects then reads
  as it was given.
\<close>

theorem create_then_read:
  assumes "flash_laws k" and "objs_laws ob" and "reliable k" and "objs_reliable ob" and "objs_available ob"
    and "key_settled s" and "fresh slot s" and "4 \<le> oa_max_objects ob" and "oa_flag_inline ob AND (oa_flag_mutable ob OR oa_flag_non_exportable ob) = 0"
    and "length rp = 32" and "\<forall>d \<in> {rp, cid, cred, pk}. oa_record_header_size ob + length d + oa_tag_size ob \<le> 1024"
    and "container_contents rp cid cred pk ty = Some v" and "length v \<le> length buf"
  shows "\<exists>t u. resident_container_create k ob slot (Some rp) (Some cid) (Some cred) (Some pk) s = (PICOKEYS_OK, t) \<and>
    resident_container_read k ob slot ty buf n t = (PICOKEYS_OK, v @ drop (length v) buf, length v, u)"
proof -
  let ?ws = "container_writes ob rp cid cred pk"
  have len: "int (length d) \<le> 0xFFFFFFFF \<and> oa_record_header_size ob + length d + oa_tag_size ob \<le> 1024" if "d \<in> {rp, cid, cred, pk}" for d
    using assms(11) that by fastforce
  have unat: "unat (word_of_nat (length d) :: u32) = length d" if "d \<in> {rp, cid, cred, pk}" for d
    using len [OF that] by (simp add: unat_of_nat take_bit_nat_eq_self)
  have fits: "\<forall>w \<in> set ?ws. write_fits ob w"
  proof -
    have "unat (word_of_nat (length cid) :: u32) = length cid" "unat (word_of_nat (length cred) :: u32) = length cred"
        "unat (word_of_nat (length pk) :: u32) = length pk" using unat by simp_all
    moreover have "(oa_flag_mutable ob OR oa_flag_non_exportable ob) AND oa_flag_inline ob = 0"
      using assms(9) by (simp add: and.commute)
    ultimately show ?thesis
      using assms(10,11) by (simp add: container_writes_def write_fits_def object_types_def)
  qed
  have dist: "distinct (map w_object_type ?ws)" by (simp add: container_writes_def)
  obtain t where t: "resident_container_update k ob slot ?ws s = (PICOKEYS_OK, t)"
    using create_succeeds [OF assms(1-7) _ _ fits dist] assms(8) by (auto simp: container_writes_def)
  have cr: "resident_container_create k ob slot (Some rp) (Some cid) (Some cred) (Some pk) s = (PICOKEYS_OK, t)"
    using t create_as_update [of cid cred pk k ob slot rp s] len by simp
  have abs: "absent slot (files s)" using assms(7) by (simp add: fresh_def absent_def no_manifest_def)
  obtain w m where w: "wlog t = wlog s @ w"
      and m: "container_in ob (the_provider k s) slot 0 m (updates Map.empty ?ws) (files t)"
    using create_container [OF assms(1,2,6) _ abs _ t, of "[]"] by auto
  have V: "updates Map.empty ?ws = container_contents rp cid cred pk"
    using updates_container_writes [OF assms(10), of cid cred pk ob] len by simp
  have key: "key_settled t" "the_provider k t = the_provider k s"
    using slot_step_key [OF update_slot [OF assms(1,6) t] assms(6)] by simp_all
  from container_read_object [OF key(1) assms(2,5), of k slot 0 m "container_contents rp cid cred pk" ty v buf n]
  show ?thesis using m V key(2) cr assms(12,13) by auto
qed

lemma create_then_read_witness:
  "\<exists>t u. resident_container_create ref_sdk ref_objs 7 (Some (replicate 32 9)) (Some [1]) (Some [5, 6]) (Some [7])
       (ref_keyed Map.empty) = (PICOKEYS_OK, t) \<and>
     resident_container_read ref_sdk ref_objs 7 FIDO_RESIDENT_OBJECT_CREDENTIAL [0, 0, 0] 0 t = (PICOKEYS_OK, [5, 6, 0], 2, u)"
proof -
  have f: "fresh 7 (ref_keyed Map.empty)"
    unfolding fresh_def by (auto simp: record_place_free_def file_search_def)
  have "container_contents (replicate 32 9) [1] [5, 6] [7] 3 = Some [5, 6]" by (simp add: container_contents_def)
  from create_then_read [OF ref_flash_laws ref_objs_laws ref_reliable ref_objs_reliable ref_objs_available ref_keyed_settled f _ _ _ _ this, of "[0, 0, 0]" 0]
  show ?thesis by (simp add: numeral_2_eq_2)
qed

subsection \<open>Deletion\<close>

lemma delete_all_files:
  assumes "delete_law k" and "deletes k"
  shows "files (fold (delete_present k) ds s) f = (if f \<in> set ds then None else files s f)"
proof (induction ds arbitrary: s)
  case Nil
  then show ?case by simp
next
  case (Cons g ds)
  have "files (delete_present k g s) = (files s)(g := None)"
  proof (cases "files s g = None")
    case True
    then show ?thesis by (auto simp: delete_present_def file_search_def)
  next
    case False
    then show ?thesis
      using file_delete_no_commit_gone [OF assms False] by (auto simp: delete_present_def file_search_def)
  qed
  with Cons show ?case by simp
qed

text \<open>
  Deletion is complete and touches nothing else. When \<open>resident_container_delete\<close> reports
  success on a storage that deletes what it is asked to, no file of the credential slot is
  left, and every other file is as it was.
\<close>

theorem delete_container_complete:
  assumes "flash_laws k" and "deletes k" and "key_settled s"
    and "resident_container_delete k ob slot s = (PICOKEYS_OK, t)"
  shows "files t f = (if f \<in> slot_fids slot then None else files s f)"
proof -
  have dl: "delete_law k" using assms(1) by (simp add: flash_laws_def)
  let ?mk = "file_search s (cred_fid slot)"
  have mk: "resident_container_is_marker s ?mk" using assms(4) by (auto simp: resident_container_delete_def Let_def split: if_splits)
  then have ex: "files s (cred_fid slot) \<noteq> None" and mf: "?mk = Some (cred_fid slot)"
    by (auto simp: resident_container_is_marker_def file_search_def split: if_splits)
  obtain au s1 where 1: "fido_object_manifest_authenticator ob s = (au, s1)" by (cases "fido_object_manifest_authenticator ob s")
  note same = same_store_key [OF authenticator_same [OF 1] assms(3)]
  obtain r cs cur where 2: "resident_manifest_load k ob slot au s1 = (r, cs, cur, s1)"
    using load_state [OF same(1)] by (metis prod_cases4)
  let ?ds = "container_fids slot 0 @ container_fids slot 1"
  define s2 where "s2 = fold (delete_present k) ?ds s1"
  have f2: "files s2 g = (if g \<in> set ?ds then None else files s g)" for g
    using delete_all_files [OF dl assms(2), of ?ds s1 g] same(3) by (simp add: s2_def)
  have nc: "cred_fid slot \<notin> set ?ds"
    using cred_not_container by (auto simp: container_fids_def) (metis cred_not_container)+
  then have "files s2 (cred_fid slot) \<noteq> None" using f2 ex by simp
  note gone = file_delete_no_commit_gone [OF dl assms(2) this]
  have "files t = files (snd (file_delete_no_commit k (Some (cred_fid slot)) s2))"
  proof -
    obtain r3 s3 where 3: "file_delete_no_commit k (Some (cred_fid slot)) s2 = (r3, s3)"
      by (cases "file_delete_no_commit k (Some (cred_fid slot)) s2")
    obtain b s4 where 4: "flash_commit_sync k COMMIT_TIMEOUT s3 = (b, s4)" by (cases "flash_commit_sync k COMMIT_TIMEOUT s3")
    have "t = s4"
      using assms(4) mk mf unfolding resident_container_delete_def Let_def 1 prod.case 2 s2_def [symmetric] mf 3 4
      by (simp split: if_splits)
    then show ?thesis using 3 flash_commit_sync_files [OF 4] by simp
  qed
  then have "files t f = (if f = cred_fid slot \<or> f \<in> set ?ds then None else files s f)"
    using gone f2 by simp
  moreover have "f \<in> slot_fids slot \<longleftrightarrow> f = cred_fid slot \<or> f \<in> set ?ds"
  proof -
    have "f \<in> set ?ds" if "f = resident_manifest_fid slot ms \<or> (\<exists>ty \<in> set object_types. f = resident_record_fid slot ms ty)" for ms
    proof (cases "ms = 0")
      case True
      with that show ?thesis by (auto simp: container_fids_def)
    next
      case False
      then have "resident_manifest_fid slot ms = resident_manifest_fid slot 1"
          "\<And>ty. resident_record_fid slot ms ty = resident_record_fid slot 1 ty"
        by (simp_all add: resident_manifest_fid_def resident_record_fid_def)
      with that show ?thesis by (auto simp: container_fids_def)
    qed
    moreover have "f \<in> slot_fids slot" if "f \<in> set ?ds" using that by (auto simp: container_fids_def)
    ultimately show ?thesis by (auto simp: slot_fids_def)
  qed
  ultimately show ?thesis by simp
qed

lemma delete_container_complete_witness:
  "\<exists>t. resident_container_delete ref_sdk ref_objs 7 (ref_keyed ref_container_files) = (PICOKEYS_OK, t) \<and>
     files t (resident_record_fid 7 1 3) = None \<and> files t EF_KEY_DEV = Some (1 # replicate 32 3)"
proof -
  let ?s = "ref_keyed ref_container_files"
  obtain s1 u where 1: "fido_object_manifest_authenticator ref_objs ?s = (True, s1)" and ss: "same_store ?s s1"
    using handles [OF ref_objs_available, of ?s] by blast
  note key = same_store_key [OF ss ref_keyed_settled]
  have c: "container_in ref_objs (the_provider ref_sdk s1) 7 1 ref_manifest [1 \<mapsto> [9, 9], 3 \<mapsto> [5]] (files s1)"
    using ref_container key(3) by simp
  obtain cs cur where 2: "resident_manifest_load ref_sdk ref_objs 7 True s1 = (PICOKEYS_OK, cs, cur, s1)"
    using load_current [OF key(1) c] by blast
  have m: "files ?s (cred_fid 7) = Some (resident_marker 7)"
    unfolding ref_keyed_lookup(2) by (rule ref_container_lookup(5))
  then have "resident_container_is_marker ?s (file_search ?s (cred_fid 7))"
    by (simp add: resident_container_is_marker_def file_reads resident_marker_def cred_fid_def del: ref_keyed_files)
  then obtain t where t: "resident_container_delete ref_sdk ref_objs 7 ?s = (PICOKEYS_OK, t)"
    using 1 2 by (cases "file_delete_no_commit ref_sdk (file_search (ref_keyed ref_container_files) (cred_fid 7))
        (fold (delete_present ref_sdk) (container_fids 7 0 @ container_fids 7 1) s1)")
      (simp add: resident_container_delete_def flash_commit_sync_def Let_def)
  have d: "deletes ref_sdk" using ref_reliable by (simp add: reliable_def)
  have "3 \<in> set object_types" by (simp add: object_types_def)
  then show ?thesis
    using t delete_container_complete [OF ref_flash_laws d ref_keyed_settled t, of "resident_record_fid 7 1 3"]
      delete_container_complete [OF ref_flash_laws d ref_keyed_settled t, of EF_KEY_DEV] by simp
qed

text \<open>
  An update touches only its own slot. Whatever the outcome of \<open>resident_container_update\<close>,
  on any storage that keeps its laws and from any state with a settled device key, no file
  outside the credential slot changes, and the device key loads as before.
\<close>

theorem update_container_frame:
  assumes "flash_laws k" and "key_settled s" and "resident_container_update k ob slot ws s = (r, t)"
  shows "(f \<notin> slot_fids slot \<longrightarrow> files t f = files s f) \<and> key_settled t \<and>
    load_keydev k key0 t = (fst (load_keydev k key0 s), fst (snd (load_keydev k key0 s)), t)"
proof -
  note st = update_slot [OF assms]
  have "files t EF_KEY_DEV = files s EF_KEY_DEV" using st by (simp add: slot_step_def)
  with st slot_step_key(1) [OF st assms(2)] show ?thesis
    by (simp add: slot_step_def load_keydev_settled [OF assms(2)] load_keydev_settled [OF slot_step_key(1) [OF st assms(2)]])
qed

lemma update_container_frame_witness:
  "\<exists>r t. resident_container_update ref_sdk ref_objs 7 [] (ref_keyed ref_container_files) = (r, t) \<and>
     files t EF_KEY_DEV = Some (1 # replicate 32 3)"
proof -
  obtain r t where c: "resident_container_update ref_sdk ref_objs 7 [] (ref_keyed ref_container_files) = (r, t)" by fastforce
  from update_container_frame [OF ref_flash_laws ref_keyed_settled c, of EF_KEY_DEV "[]"] c show ?thesis by simp
qed

subsection \<open>An object that is not there\<close>

text \<open>
  C29: Reading an absent object reports success. When the only manifest of a container does not
  have the object, \<open>resident_container_read\<close> answers that all went well, with a zeroed buffer
  and a length of zero, where \<open>resident_container_object_size\<close> answers that there is no such object.
\<close>

theorem read_absent_object:
  assumes "key_settled s" and "objs_available ob" and "ty \<in> set object_types"
    and "container_in ob (the_provider k s) slot c m V (files s)" and "V ty = None"
    and "files s (resident_manifest_fid slot (c XOR 1)) = None"
  shows "(\<exists>t. resident_container_read k ob slot ty buf n s = (PICOKEYS_OK, replicate (length buf) 0, 0, t)) \<and>
    (\<exists>t. resident_container_object_size k ob slot ty size0 s = (PICOKEYS_ERR_FILE_NOT_FOUND, 0, t))"
proof
  show "\<exists>t. resident_container_read k ob slot ty buf n s = (PICOKEYS_OK, replicate (length buf) 0, 0, t)"
    using container_read_missing [OF assms] .
  obtain t u where h: "fido_object_manifest_authenticator ob s = (True, t)" and su: "same_store s t"
    using handles [OF assms(2), of s] by blast
  note key = same_store_key [OF su assms(1)]
  obtain cs where l: "resident_manifest_load k ob slot True t =
      (PICOKEYS_OK, cs, Some \<lparr>cand_manifest = m, cand_slot = c, cand_valid = True\<rparr>, t)"
    using load_current [of t ob k slot c m V] key assms(4) by auto
  show "\<exists>t. resident_container_object_size k ob slot ty size0 s = (PICOKEYS_ERR_FILE_NOT_FOUND, 0, t)"
    using h l container_find(2) [OF assms(4,5)] assms(3)
    by (simp add: resident_container_object_size_def Let_def valid_types)
qed

lemma read_absent_object_witness:
  "\<exists>t. resident_container_read ref_sdk ref_objs 7 FIDO_RESIDENT_OBJECT_PUBLIC_KEY [1, 2] 9 (ref_keyed ref_container_files) =
     (PICOKEYS_OK, [0, 0], 0, t)"
proof -
  have n: "files (ref_keyed ref_container_files) (resident_manifest_fid 7 (1 XOR 1)) = None"
    using ref_container_lookup(2) by (simp add: ref_keyed_lookup(1) del: ref_keyed_files)
  have t: "4 \<in> set object_types" by (simp add: object_types_def)
  have v: "[1 \<mapsto> [9, 9], 3 \<mapsto> [5 :: byte]] (4 :: u16) = None" by simp
  from read_absent_object [OF ref_keyed_settled ref_objs_available t ref_container v n, where k = ref_sdk and buf = "[1, 2]" and n = 9]
  show ?thesis by simp
qed

subsection \<open>Creating over a container\<close>

lemma persisted_crashes: "persisted base pend \<subseteq> crashes base pend w"
proof (induction base pend w rule: crashes.induct)
  case (1 base pend)
  then show ?case by simp
next
  case (2 base pend x w)
  have "persisted base pend \<subseteq> persisted base (pend @ [x])"
  proof
    fix fs
    assume "fs \<in> persisted base pend"
    then obtain b where "subseq b pend" "fs = replay base b" by (rule persistedE)
    then show "fs \<in> persisted base (pend @ [x])" by (auto simp: persisted_def intro!: imageI list_emb_prefix)
  qed
  with 2 show ?case by auto
qed

lemma crash_after_first: "x \<noteq> CommitSync True \<Longrightarrow> apply_op x base \<in> crashes base [] (x # w)"
  using persisted_crashes [of base "[x]" w] by (auto simp: persisted_def)

definition logged :: "'a plat_scheme \<Rightarrow> 'a plat_scheme \<Rightarrow> bool" where
  "logged s t \<longleftrightarrow> (\<exists>w. wlog t = wlog s @ w)"

lemma logged_refl [simp]: "logged s s"
  by (simp add: logged_def)

lemma logged_trans: "logged s t \<Longrightarrow> logged t u \<Longrightarrow> logged s u"
  by (auto simp: logged_def)

lemma switch_manifest_logged:
  assumes "flash_laws k" and "key_settled s" and "switch_manifest k ob slot target m s = (r, t)"
  shows "logged s t"
proof -
  have dl: "delete_law k" using assms(1) by (simp add: flash_laws_def)
  have rep: "logged u v" if "resident_replace_file k f d u = (r', v)" for f d r' and u v :: "'a fido_scheme"
    using replace_file_effect [OF assms(1) that] by (auto simp: logged_def)
  have com: "logged u v" if "flash_commit_sync k n u = (b, v)" for n b and u v :: "'a fido_scheme"
    using flash_commit_sync_replay(1) [OF that] by (auto simp: logged_def)
  obtain b1 s1 where 1: "flash_commit_sync k COMMIT_TIMEOUT s = (b1, s1)" by (cases "flash_commit_sync k COMMIT_TIMEOUT s")
  have key: "key_settled s1" using slot_step_key(1) [OF commit_sync_slot [OF 1] assms(2)] .
  obtain r2 d where 2: "file_object_manifest_build k ob m (max_manifest_size ob) s1 = (r2, d, s1)"
    by (cases "oa_build ob (the_provider k s1) m (max_manifest_size ob)")
       (simp add: file_object_manifest_build_def with_provider_settled [OF key])
  define f where "f = resident_manifest_fid slot target"
  obtain r3 s3 where 3: "resident_replace_file k f d s1 = (r3, s3)" by (cases "resident_replace_file k f d s1")
  obtain b4 s4 where 4: "flash_commit_sync k COMMIT_TIMEOUT s3 = (b4, s4)" by (cases "flash_commit_sync k COMMIT_TIMEOUT s3")
  have l4: "logged s s1" "logged s s3" "logged s s4" using com [OF 1] rep [OF 3] com [OF 4] logged_trans by blast+
  obtain r5 s5 where 5: "resident_marker_write k slot s4 = (r5, s5)" by (cases "resident_marker_write k slot s4")
  have "logged s4 s5"
    using 5 by (auto simp: resident_marker_write_def Let_def split: prod.splits if_splits dest!: rep com intro: logged_trans)
  then have l5: "logged s s5" using l4 logged_trans by blast
  have cl: "logged s (flash_commit (remove_stale k m slot target u))" if "logged s u" for u
    using delete_all_effect [OF dl, of u "stale_fids m slot target 0 @ stale_fids m slot target 1"] that
    by (auto simp: logged_def remove_stale_def flash_commit_def)
  have "t = s1 \<or> t = s3 \<or> t = s4 \<or> t = s5 \<or> t = flash_commit (remove_stale k m slot target s4) \<or>
      t = flash_commit (remove_stale k m slot target s5)"
    using assms(3) by (simp add: switch_manifest_def Let_def 1 2 3 [unfolded f_def] 4 5 split: if_splits)
  then show ?thesis using l4 l5 cl by blast
qed

text \<open>Replacing a file that exists begins with its deletion.\<close>

lemma replace_file_first:
  assumes "flash_laws k" and "files s f \<noteq> None" and "resident_replace_file k f d s = (r, t)"
  shows "\<exists>w. wlog t = wlog s @ Delete f # w"
proof -
  have k: "put_law k" "new_law k" "delete_law k" using assms(1) by (simp_all add: flash_laws_def)
  obtain r1 s1 where 1: "file_delete_no_commit k (Some f) s = (r1, s1)" by (cases "file_delete_no_commit k (Some f) s")
  have l1: "wlog s1 = wlog s @ [Delete f]" using file_delete_no_commit_replay(1) [OF k(3) 1] .
  obtain p s2 where 2: "file_new k f s1 = (p, s2)" by (cases "file_new k f s1")
  note l2 = file_new_replay(1,2) [OF k(2) 2]
  obtain r3 s3 where 3: "file_put_data k (Some f) d s2 = (r3, s3)" by (cases "file_put_data k (Some f) d s2")
  note l3 = file_put_data_replay(1) [OF k(1) 3]
  have "t = s1 \<or> t = s2 \<or> t = s3"
    using assms(2,3) 1 2 3 l2(2) by (auto simp: resident_replace_file_def file_search_def Let_def split: if_splits)
  then show ?thesis using l1 l2(1) l3 by auto
qed

lemma record_write_first:
  assumes "flash_laws k" and "reliable k" and "objs_reliable ob" and "objs_laws ob" and "key_settled s" and "write_fits ob w"
    and "files s (resident_record_fid slot target (w_object_type w)) \<noteq> None"
    and "resident_record_write k ob slot target w g G s = (r, desc, t)"
  shows "\<exists>v. wlog t = wlog s @ Delete (resident_record_fid slot target (w_object_type w)) # v"
proof -
  let ?f = "resident_record_fid slot target (w_object_type w)"
  have "r = PICOKEYS_OK" using record_write_ok [OF assms(1-6), of slot target g G] assms(8) by simp
  then have "\<exists>d u r'. resident_replace_file k ?f d u = (r', t) \<and> same_store s u"
    using record_write_replaces [OF assms(5,8)] by simp
  then obtain d u r' where u: "resident_replace_file k ?f d u = (r', t)" "same_store s u" by blast
  then show ?thesis using replace_file_first [OF assms(1) _ u(1)] assms(7) by (simp add: same_store_def)
qed

lemma create_first_write:
  assumes "flash_laws k" and "objs_laws ob" and "reliable k" and "objs_reliable ob" and "key_settled s"
    and "distinct (map object_type (objects m)) \<and> (\<forall>desc \<in> set (objects m). object_tag desc = 0 \<and> files s (ucast (record_id desc)) \<noteq> None)"
    and "desc \<in> set (objects m)" and "object_type desc = FIDO_RESIDENT_OBJECT_RP_ID_HASH"
    and "record_id desc = ucast (resident_record_fid slot 0 FIDO_RESIDENT_OBJECT_RP_ID_HASH)" and "generation desc \<noteq> 0xFFFFFFFF"
    and "oa_record_header_size ob + 32 + oa_tag_size ob \<le> 1024"
    and "write_objects k ob slot 0 [] (container_writes ob rp cid cred pk) (next_manifest m) s = (r, m', t)"
  shows "\<exists>v. wlog t = wlog s @ Delete (resident_record_fid slot 0 1) # v"
proof -
  let ?m = "next_manifest m"
  obtain w ws where ws: "container_writes ob rp cid cred pk = w # ws" and w: "w_object_type w = 1" "write_fits ob w"
    using assms(11) by (simp add: container_writes_def write_fits_def object_types_def)
  have om: "objects ?m = objects m" by (simp add: next_manifest_def)
  obtain i where i: "resident_manifest_find ?m 1 = Some i" "i < length (objects m)" "object_type (objects m ! i) = 1"
    using assms(6-8) find_object_None [of "objects m" 1] find_object_Some [of "objects m" 1]
    by (cases "find_object (objects m) 1") (auto simp: resident_manifest_find_def om)
  obtain j where j: "j < length (objects m)" "objects m ! j = desc" using assms(7) by (auto simp: in_set_conv_nth)
  have "i = j"
    using nth_eq_iff_index_eq [of "map object_type (objects m)" i j] assms(6,8) i j by simp
  then have gi: "objects m ! i = desc" using j by simp
  obtain desc' s1 where 1: "resident_record_write k ob slot 0 w (generation desc + 1) (man_generation ?m) s = (PICOKEYS_OK, desc', s1)"
    using record_write_ok [OF assms(1,3,4,2,5) w(2), of slot 0 "generation desc + 1" "man_generation ?m"]
    by (cases "resident_record_write k ob slot 0 w (generation desc + 1) (man_generation ?m) s") auto
  have ex: "files s (resident_record_fid slot 0 (w_object_type w)) \<noteq> None"
    using assms(6,7,9) w(1) by auto
  from record_write_first [OF assms(1,3,4,2,5) w(2) ex 1] obtain v where v: "wlog s1 = wlog s @ Delete (resident_record_fid slot 0 1) # v"
    using w(1) by auto
  have rest: "write_objects k ob slot 0 [1] ws (put_object ?m (Some i) desc') s1 = (r, m', t)"
    using assms(10,12) w 1 i(1) gi unfolding ws
    by (cases "w_data w") (auto simp: Let_def om write_fits_def valid_types)
  have "w_object_type w \<in> set object_types" using w(2) by (simp add: write_fits_def)
  then have "key_settled s1" using record_write_key(1) [OF assms(1,2,5) _ 1] by blast
  from write_objects_ops [OF assms(1,2) this rest] v show ?thesis by auto
qed

text \<open>
  C30: Creating over a container is not atomic. When the current manifest of a container is in
  slot 1 and still refers to the first record file of slot 0 (as after an odd number of calls
  of \<open>resident_container_update_credential\<close>), \<open>resident_container_create\<close> deletes that record
  before anything is committed: some power failure leaves no container at all.
\<close>

theorem create_over_container_unsafe:
  assumes "flash_laws k" and "objs_laws ob" and "reliable k" and "objs_reliable ob" and "objs_available ob" and "key_settled s"
    and "container_in ob (the_provider k s) slot 1 m V (files s)" and "no_manifest slot 0 (files s)"
    and "desc \<in> set (objects m)" and "object_type desc = FIDO_RESIDENT_OBJECT_RP_ID_HASH"
    and "record_id desc = ucast (resident_record_fid slot 0 FIDO_RESIDENT_OBJECT_RP_ID_HASH)"
    and "man_generation m \<noteq> 0xFFFFFFFF" and "extension_size m = 0" and "generation desc \<noteq> 0xFFFFFFFF"
    and "4 \<le> oa_max_objects ob" and "oa_record_header_size ob + 32 + oa_tag_size ob \<le> 1024"
    and "int (length cid) \<le> 0xFFFFFFFF" and "int (length cred) \<le> 0xFFFFFFFF" and "int (length pk) \<le> 0xFFFFFFFF"
    and "resident_container_create k ob slot (Some rp) (Some cid) (Some cred) (Some pk) s = (r, t)"
  shows "\<exists>w. wlog t = wlog s @ w \<and>
    (\<exists>fs \<in> crashes (files s) [] w. \<forall>V'. \<not> credential_container ob (the_provider k s) slot V' fs)"
proof -
  let ?f = "resident_record_fid slot 0 1" and ?ws = "container_writes ob rp cid cred pk"
  have up: "resident_container_update k ob slot ?ws s = (r, t)"
    using assms(20) create_as_update [OF assms(17-19), of k ob slot rp s] by simp
  obtain s1 s2 where h: "fido_object_manifest_authenticator ob s = (True, s1)"
      "fido_object_record_protector ob s1 = (True, s2)" and st2: "same_store s s2"
    using handles [OF assms(5), of s] by blast
  note k2 = same_store_key [OF st2 assms(6)]
  let ?cur = "\<lparr>cand_manifest = m, cand_slot = 1, cand_valid = True\<rparr>"
  have c2: "container_in ob (the_provider k s2) slot 1 m V (files s2)" using assms(7) k2 by simp
  obtain cs where l: "resident_manifest_load k ob slot True s2 = (PICOKEYS_OK, cs, Some ?cur, s2)"
    using load_current [OF k2(1) c2] by blast
  have al: "allocates k" using assms(3) by (simp add: reliable_def)
  obtain s3 where ch: "choose_current k ob cs (Some ?cur) s2 = (PICOKEYS_OK, Some ?cur, s3)" and st23: "same_store s2 s3"
    using choose_current_container [OF al assms(2) k2(1) c2, of cs] by blast
  have st3: "same_store s s3" using same_store_trans [OF st2 st23] .
  note k3 = same_store_key [OF st3 assms(6)]
  obtain r6 m6 s6 where 6: "write_objects k ob slot 0 [] ?ws (next_manifest m) s3 = (r6, m6, s6)" by (metis prod_cases3)
  have run: "(if r6 \<noteq> PICOKEYS_OK then (r6, s6) else switch_manifest k ob slot 0 m6 s6) = (r, t)"
  proof -
    have "?ws \<noteq> []" "\<not> oa_max_objects ob < length ?ws" using assms(15) by (simp_all add: container_writes_def)
    then show ?thesis
      using up h l ch 6 assms(12,13) by (simp add: resident_container_update_def Let_def del: write_objects.simps)
  qed
  have "\<exists>v. wlog s6 = wlog s3 @ Delete ?f # v"
    by (rule create_first_write [OF assms(1-4) k3(1) _ assms(9-11,14,16) 6])
       (use assms(7) k3(3) in \<open>auto simp: container_in_def record_in_def\<close>)
  then obtain v where v6: "wlog s6 = wlog s3 @ Delete ?f # v" by blast
  have "key_settled s6" using slot_step_key(1) [OF write_objects_slot [OF assms(1) k3(1) 6] k3(1)] .
  then have "logged s6 t"
    using run switch_manifest_logged [OF assms(1), of s6 ob slot 0 m6 r t] by (auto split: if_splits)
  then obtain v' where "wlog t = wlog s6 @ v'" by (auto simp: logged_def)
  with v6 k3(4) have v: "wlog t = wlog s @ Delete ?f # (v @ v')" by simp
  let ?fs = "(files s)(?f := None)"
  have "?fs \<in> crashes (files s) [] (Delete ?f # v @ v')"
    using crash_after_first [of "Delete ?f" "files s" "v @ v'"] by simp
  moreover have "\<not> credential_container ob (the_provider k s) slot V' ?fs" for V'
  proof
    assume "credential_container ob (the_provider k s) slot V' ?fs"
    then obtain c' m' where c': "container_in ob (the_provider k s) slot c' m' V' ?fs" by (auto simp: credential_container_def)
    have nf: "resident_manifest_fid slot ms \<noteq> ?f" for ms
      by (metis manifest_not_record list.set_intros(1) object_types_def)
    from container_xor [OF c'] show False
    proof
      assume "c' = 0"
      then show False using c' assms(8) nf [of 0] by (auto simp: container_in_def manifest_in_def no_manifest_def)
    next
      assume c1: "c' = 1"
      have "m' = m" using c' assms(7) nf [of 1] unfolding c1 by (auto simp: container_in_def manifest_in_def)
      then have "record_in ob (the_provider k s) slot ?fs V' desc" using c' assms(9) by (simp add: container_in_def)
      then show False using assms(11) by (simp add: record_in_def)
    qed
  qed
  ultimately show ?thesis using v by blast
qed

lemma create_over_container_unsafe_witness:
  "\<exists>r t w. resident_container_create ref_sdk ref_objs 7 (Some (replicate 32 9)) (Some [1]) (Some [5, 6]) (Some [7])
       (ref_keyed ref_container_files) = (r, t) \<and> wlog t = [] @ w \<and>
     (\<exists>fs \<in> crashes (files (ref_keyed ref_container_files)) [] w. \<forall>V.
       \<not> credential_container ref_objs (the_provider ref_sdk (ref_keyed ref_container_files)) 7 V fs)"
proof -
  obtain r t where c: "resident_container_create ref_sdk ref_objs 7 (Some (replicate 32 9)) (Some [1]) (Some [5, 6]) (Some [7])
      (ref_keyed ref_container_files) = (r, t)" by fastforce
  have n: "no_manifest 7 0 (files (ref_keyed ref_container_files))"
    using ref_container_lookup(2) by (simp add: no_manifest_def ref_keyed_lookup(1) del: ref_keyed_files)
  have d: "ref_desc 0 1 [9, 9] \<in> set (objects ref_manifest)" "object_type (ref_desc 0 1 [9, 9]) = 1"
      "record_id (ref_desc 0 1 [9, 9]) = ucast (resident_record_fid 7 0 1)" "generation (ref_desc 0 1 [9, 9]) \<noteq> 0xFFFFFFFF"
      "man_generation ref_manifest \<noteq> 0xFFFFFFFF" "extension_size ref_manifest = 0"
    by (simp_all add: ref_manifest_def ref_desc_def resident_descriptor_def first_manifest_def empty_manifest_def)
  show ?thesis
    using create_over_container_unsafe [OF ref_flash_laws ref_objs_laws ref_reliable ref_objs_reliable ref_objs_available
        ref_keyed_settled ref_container n d(1-3,5,6,4) _ _ _ _ _ c] c
    by (simp del: ref_keyed_files(1))
qed

end
