(* ===== verification/Fido_Keys.thy ===== *)
theory Fido_Keys
  imports Object_Provider
begin

text \<open>
  The keys of the authenticator (\<open>src/fido/fido.c\<close>): the map between the curves of the protocol
  and those of mbedTLS, the derivation of credential keys from the device key along the path in
  a key handle, the verification of a key handle, and the initial scan of the files, which
  creates the device key, its certificate and the tokens.

  A C function that returns codes of mbedTLS and of the SDK alike returns an \<open>rc\<close>; a code of
  mbedTLS is \<open>PICOKEYS_OTHER\<close>. The build option \<open>MBEDTLS_EDDSA_C\<close> is the parameter \<open>eddsa\<close>.
\<close>

abbreviation (input) EF_KEY_DEV_ENC :: fid where "EF_KEY_DEV_ENC \<equiv> 0xCC01"
abbreviation (input) EF_EE_DEV :: fid where "EF_EE_DEV \<equiv> 0xCE00"
abbreviation (input) EF_LARGEBLOB :: fid where "EF_LARGEBLOB \<equiv> 0x1101"
abbreviation (input) KEY_PATH_LEN :: nat where "KEY_PATH_LEN \<equiv> 32"
abbreviation (input) KEY_PATH_ENTRIES :: nat where "KEY_PATH_ENTRIES \<equiv> 8"
abbreviation (input) CTAP_APPID_SIZE :: nat where "CTAP_APPID_SIZE \<equiv> 32"

text \<open>The digest of the certificate, which binds credentials to the device.\<close>

record device = resident +
  certdev_sha256 :: bytes

definition rc_of_int :: "int \<Rightarrow> rc" where
  "rc_of_int n = (if n = 0 then PICOKEYS_OK else PICOKEYS_OTHER n)"

subsection \<open>Curves\<close>

definition fido_curve_to_mbedtls :: "bool \<Rightarrow> int \<Rightarrow> curve" where
  "fido_curve_to_mbedtls eddsa curve =
     (if curve = 1 then MBEDTLS_ECP_DP_SECP256R1
      else if curve = 2 then MBEDTLS_ECP_DP_SECP384R1
      else if curve = 3 then MBEDTLS_ECP_DP_SECP521R1
      else if curve = 8 then MBEDTLS_ECP_DP_SECP256K1
      else if curve = 4 then MBEDTLS_ECP_DP_CURVE25519
      else if curve = 5 then MBEDTLS_ECP_DP_CURVE448
      else if eddsa \<and> curve = 6 then MBEDTLS_ECP_DP_ED25519
      else if eddsa \<and> curve = 7 then MBEDTLS_ECP_DP_ED448
      else if curve = 9 then MBEDTLS_ECP_DP_BP256R1
      else if curve = 10 then MBEDTLS_ECP_DP_BP384R1
      else if curve = 11 then MBEDTLS_ECP_DP_BP512R1
      else MBEDTLS_ECP_DP_NONE)"

definition mbedtls_curve_to_fido :: "bool \<Rightarrow> curve \<Rightarrow> int" where
  "mbedtls_curve_to_fido eddsa grp_id =
     (if grp_id = MBEDTLS_ECP_DP_SECP256R1 then 1
      else if grp_id = MBEDTLS_ECP_DP_SECP384R1 then 2
      else if grp_id = MBEDTLS_ECP_DP_SECP521R1 then 3
      else if grp_id = MBEDTLS_ECP_DP_SECP256K1 then 8
      else if grp_id = MBEDTLS_ECP_DP_CURVE25519 then 4
      else if grp_id = MBEDTLS_ECP_DP_CURVE448 then 5
      else if eddsa \<and> grp_id = MBEDTLS_ECP_DP_ED25519 then 6
      else if eddsa \<and> grp_id = MBEDTLS_ECP_DP_ED448 then 7
      else 0)"

subsection \<open>Derivation along a path\<close>

text \<open>A \<open>uint32_t\<close> in memory, on the little-endian targets of the firmware.\<close>

definition mem_u32 :: "u32 \<Rightarrow> bytes" where
  "mem_u32 v = [ucast v, ucast (drop_bit 8 v), ucast (drop_bit 16 v), ucast (drop_bit 24 v)]"

definition u32_at :: "bytes \<Rightarrow> nat \<Rightarrow> u32" where
  "u32_at d i = ucast (byte_at d i) OR push_bit 8 (ucast (byte_at d (i + 1))) OR
     push_bit 16 (ucast (byte_at d (i + 2))) OR push_bit 24 (ucast (byte_at d (i + 3)))"

text \<open>The entries of a path; \<open>key_path\<close> stores a value over entry \<open>i\<close> of a handle.\<close>

definition path_entry :: "bytes \<Rightarrow> nat \<Rightarrow> bytes" where
  "path_entry h i = take 4 (drop (i * 4) h)"

definition path_set :: "bytes \<Rightarrow> nat \<Rightarrow> u32 \<Rightarrow> bytes" where
  "path_set h i v = splice h (i * 4, 4) (mem_u32 v)"

fun derive_path :: "sdk \<Rightarrow> bool \<Rightarrow> nat list \<Rightarrow> bytes \<Rightarrow> bytes \<Rightarrow> 'a plat_scheme \<Rightarrow> rc \<times> bytes \<times> bytes \<times> 'a plat_scheme" where
  "derive_path k new_key [] h outk s = (PICOKEYS_OK, h, outk, s)"
| "derive_path k new_key (i # is) h outk s =
     (let (h, s) = (if new_key
                    then let (val, s) = random_fill_buffer k 4 s
                         in (path_set h i (u32_at val 0 OR 0x80000000), s)
                    else (h, s));
          (r, outk) = sdk_hkdf_inplace k MD_SHA512 (path_entry h i) (0, 32) (32, 32) outk
      in if r \<noteq> 0 then (rc_of_int r, h, outk, s) else derive_path k new_key is h outk s)"

text \<open>
  The handle comes back with what \<open>new_key\<close> wrote into it; a null \<open>key\<close> is \<open>None\<close>. The key
  pair is the caller's, filled in.
\<close>

definition derive_key ::
    "sdk \<Rightarrow> bytes \<Rightarrow> bool \<Rightarrow> bytes \<Rightarrow> curve \<Rightarrow> keypair option \<Rightarrow> 'a fido_scheme \<Rightarrow>
     rc \<times> bytes \<times> keypair option \<times> 'a fido_scheme" where
  "derive_key k app_id new_key h curve key s =
     (let (r, root, s) = load_keydev k (replicate 32 0) s
      in if r \<noteq> PICOKEYS_OK then (r, h, key, s)
         else let (r, h, outk, s) = derive_path k new_key [0..<KEY_PATH_ENTRIES] h (fit 67 (take 32 root)) s
              in if r \<noteq> PICOKEYS_OK then (r, h, key, s)
                 else let key_base = take CTAP_APPID_SIZE app_id @ take KEY_PATH_LEN h;
                          (m, hmac) = (if new_key then sdk_hmac k MD_SHA256 (take 32 outk) key_base else (0, []));
                          h = (if new_key then splice h (32, 32) hmac else h)
                      in if m \<noteq> 0 then (rc_of_int m, h, key, s)
                         else case key of
                           None \<Rightarrow> (PICOKEYS_OK, h, None, s)
                         | Some kp \<Rightarrow>
                             let kp = kp\<lparr>kp_grp := curve\<rparr>
                             in case sdk_curve_bits k curve of
                               None \<Rightarrow> (rc_of_int 1, h, Some kp, s)
                             | Some bits \<Rightarrow>
                                 let outk = (if bits mod 8 \<noteq> 0
                                             then outk[0 := drop_bit (8 - bits mod 8) (outk ! 0)] else outk);
                                     (r, kp) = sdk_ec_read_key k curve kp (take ((bits + 7) div 8) outk)
                                 in if r \<noteq> 0 then (rc_of_int r, h, Some kp, s)
                                    else let (r, kp) = sdk_ec_calc_public k (tick s) kp
                                         in (rc_of_int r, h, Some kp, s\<lparr>tick := Suc (tick s)\<rparr>))"

definition keypair_init :: keypair where
  "keypair_init = \<lparr>kp_grp = MBEDTLS_ECP_DP_NONE, kp_d = [], kp_Q = ([], [])\<rparr>"

abbreviation (input) CTAP2_ERR_UNSUPPORTED_ALGORITHM :: int where "CTAP2_ERR_UNSUPPORTED_ALGORITHM \<equiv> 0x26"

definition hardened_path :: "bytes \<Rightarrow> bytes" where
  "hardened_path cred_id =
     fold (\<lambda>i p. path_set p i (u32_at p (i * 4) OR 0x80000000)) [1..<KEY_PATH_ENTRIES]
       (path_set (take KEY_PATH_LEN cred_id) 0 (0x80000000 OR 10022))"

definition fido_load_key ::
    "sdk \<Rightarrow> bool \<Rightarrow> int \<Rightarrow> bytes \<Rightarrow> keypair \<Rightarrow> 'a fido_scheme \<Rightarrow> rc \<times> keypair \<times> 'a fido_scheme" where
  "fido_load_key k eddsa curve cred_id key s =
     (let c = fido_curve_to_mbedtls eddsa curve
      in if c = MBEDTLS_ECP_DP_NONE then (rc_of_int CTAP2_ERR_UNSUPPORTED_ALGORITHM, key, s)
         else let (r, _, kp, s) = derive_key k [] False (hardened_path cred_id) c (Some key) s
              in (r, the kp, s))"

text \<open>
  A key handle of the old format carries an HMAC under the derived key. The comparison is
  \<open>mbedtls_ct_memcmp\<close>, whose nonzero results the callers do not tell apart.
\<close>

definition verify_key :: "sdk \<Rightarrow> bytes \<Rightarrow> bytes \<Rightarrow> keypair option \<Rightarrow> 'a fido_scheme \<Rightarrow> rc \<times> 'a fido_scheme" where
  "verify_key k app_id h key s =
     (if list_ex (\<lambda>i. u32_at h (i * 4) AND 0x80000000 = 0) [0..<KEY_PATH_ENTRIES] then (rc_of_int (- 1), s)
      else let (r, key, s) = (case key of
                 Some kp \<Rightarrow> (PICOKEYS_OK, Some kp, s)
               | None \<Rightarrow> let (r, _, kp, s) = derive_key k app_id False h MBEDTLS_ECP_DP_SECP256R1 (Some keypair_init) s
                         in (r, kp, s))
           in if r \<noteq> PICOKEYS_OK then (rc_of_int (- 3), s)
              else let (r, _, d) = sdk_ec_write_key k (the key) 32
                   in if r \<noteq> 0 then (rc_of_int (- 2), s)
                      else let key_base = take CTAP_APPID_SIZE app_id @ take KEY_PATH_LEN h;
                               (_, hmac) = sdk_hmac k MD_SHA256 (fit 32 d) key_base
                           in (if take 32 (drop KEY_PATH_LEN h) = fit 32 hmac then PICOKEYS_OK else rc_of_int 1, s))"

subsection \<open>The certificate\<close>

definition x509_create_cert :: "sdk \<Rightarrow> keypair \<Rightarrow> nat \<Rightarrow> 'a plat_scheme \<Rightarrow> int \<times> bytes \<times> 'a plat_scheme" where
  "x509_create_cert k ecdsa buffer_size s =
     (let (serial, s) = random_fill_buffer k 16 s;
          (ret, der) = sdk_x509_der k (tick s)
            \<lparr>crt_version = 3, crt_not_before = ''20220901000000'', crt_not_after = ''20720831235959'',
             crt_issuer_name = ''C=ES,O=Pico HSM,CN=Pico FIDO'', crt_subject_name = ''C=ES,O=Pico HSM,CN=Pico FIDO'',
             crt_serial = serial, crt_subject_key = ecdsa, crt_issuer_key = ecdsa, crt_md_alg = MD_SHA256,
             crt_basic_constraints = (0, 0), crt_subject_key_identifier = True, crt_authority_key_identifier = True,
             crt_key_usage = 0x80 OR 0x04\<rparr> buffer_size
      in (ret, der, s\<lparr>tick := Suc (tick s)\<rparr>))"

subsection \<open>The initial scan\<close>

text \<open>
  The stages of \<open>scan_files_fido\<close>. The first creates the device key; it looks at the status of
  the export where it should look at that of the storing, as the source does.
\<close>

definition scan_keydev :: "sdk \<Rightarrow> 'a fido_scheme \<Rightarrow> rc \<times> 'a fido_scheme" where
  "scan_keydev k s =
     (let keydev = file_search s EF_KEY_DEV; enc = file_search s EF_KEY_DEV_ENC
      in if keydev \<noteq> None \<and> \<not> file_has_data s keydev \<and> \<not> file_has_data s enc
         then let (r, kp) = sdk_ec_genkey k (tick s) MBEDTLS_ECP_DP_SECP256R1; s = s\<lparr>tick := Suc (tick s)\<rparr>
              in if r \<noteq> 0 then (rc_of_int r, s)
                 else let (r, key_size, d) = sdk_ec_write_key k kp 32
                      in if r \<noteq> 0 \<or> key_size \<noteq> 32 then (if r \<noteq> 0 then rc_of_int r else PICOKEYS_EXEC_ERROR, s)
                         else let (_, s) = encrypt_keydev_f1 k (fit 32 d) s in (rc_of_int r, s)
         else (PICOKEYS_OK, s))"

text \<open>
  The certificate. The boolean says that the scan goes on; it stops also when the writer of
  the certificate returns zero, which is then the status of the scan.
\<close>

definition scan_certdev :: "sdk \<Rightarrow> 'a device_scheme \<Rightarrow> bool \<times> rc \<times> 'a device_scheme" where
  "scan_certdev k s =
     (let ef = file_search s EF_EE_DEV
      in if ef = None then (True, PICOKEYS_OK, s)
         else let (go, r, s) =
                (if \<not> file_has_data s ef
                 then let (r, outk, s) = load_keydev k (replicate 32 0) s
                      in if r \<noteq> PICOKEYS_OK then (False, r, s)
                         else let (r, kp) = sdk_ec_read_key k MBEDTLS_ECP_DP_SECP256R1 keypair_init outk
                              in if r \<noteq> 0 then (False, rc_of_int r, s)
                                 else let (r, kp) = sdk_ec_calc_public k (tick s) kp; s = s\<lparr>tick := Suc (tick s)\<rparr>
                                      in if r \<noteq> 0 then (False, rc_of_int r, s)
                                         else let (r, der, s) = x509_create_cert k kp 2048 s
                                              in if r \<le> 0 then (False, rc_of_int r, s)
                                                 else let (_, s) = file_put_data k ef der s in (True, PICOKEYS_OK, s)
                 else (True, PICOKEYS_OK, s))
              in if \<not> go then (False, r, s)
                 else (True, PICOKEYS_OK, s\<lparr>certdev_sha256 := snd (sdk_digest k MD_SHA256 (file_get_data s ef))\<rparr>))"

definition scan_counter :: "sdk \<Rightarrow> 'a plat_scheme \<Rightarrow> 'a plat_scheme" where
  "scan_counter k s =
     (let ef = file_search s EF_COUNTER
      in if ef \<noteq> None \<and> \<not> file_has_data s ef then snd (file_put_data k ef (mem_u32 0) s) else s)"

definition fill_random :: "sdk \<Rightarrow> fid option \<Rightarrow> 'a plat_scheme \<Rightarrow> 'a plat_scheme" where
  "fill_random k ef s =
     (if \<not> file_has_data s ef
      then let (t, s) = random_fill_buffer k 32 s in snd (file_put_data k ef t s) else s)"

definition scan_tokens :: "sdk \<Rightarrow> 'a fido_scheme \<Rightarrow> 'a fido_scheme" where
  "scan_tokens k s =
     (let ef = file_search s EF_AUTHTOKEN;
          s = (if ef \<noteq> None
               then let s = fill_random k ef s in s\<lparr>paut := (paut s)\<lparr>paut_data := file_get_data s ef\<rparr>\<rparr> else s);
          ef = file_search s EF_PAUTHTOKEN
      in if ef \<noteq> None
         then let s = fill_random k ef s in s\<lparr>ppaut := (ppaut s)\<lparr>ppaut_data := file_get_data s ef\<rparr>\<rparr> else s)"

definition initial_large_blob :: bytes where
  "initial_large_blob =
     [0x80, 0x76, 0xbe, 0x8b, 0x52, 0x8d, 0x00, 0x75, 0xf7, 0xaa, 0xe9, 0x8d, 0x6f, 0xa5, 0x7a, 0x6d, 0x3c]"

definition scan_rest :: "sdk \<Rightarrow> 'a plat_scheme \<Rightarrow> 'a plat_scheme" where
  "scan_rest k s =
     (let ef = file_search s EF_LARGEBLOB;
          s = (if \<not> file_has_data s ef then snd (file_put_data k ef initial_large_blob s) else s)
      in fill_random k (file_search s EF_DEV_STATE) s)"

definition scan_files_fido :: "sdk \<Rightarrow> 'a device_scheme \<Rightarrow> rc \<times> 'a device_scheme" where
  "scan_files_fido k s =
     (let (r, s) = scan_keydev k s
      in if r \<noteq> PICOKEYS_OK then (r, s)
         else let (go, r, s) = scan_certdev k s
              in if \<not> go then (r, s)
                 else (PICOKEYS_OK, flash_commit (scan_rest k (scan_tokens k (scan_counter k s)))))"

definition scan_all :: "sdk \<Rightarrow> 'a device_scheme \<Rightarrow> 'a device_scheme" where
  "scan_all k s =
     snd (scan_files_fido k (s\<lparr>files := sdk_scan_flash k (tick s) (files s), tick := Suc (tick s)\<rparr>))"

definition get_sign_counter :: "sdk \<Rightarrow> 'a plat_scheme \<Rightarrow> u32" where
  "get_sign_counter k s = sdk_get_u32_le k (file_get_data s (file_search s EF_COUNTER))"

end
