(* ===== verification/Fido_Keys_Properties.thy ===== *)
theory Fido_Keys_Properties
  imports Fido_Keys Ref_Objects
begin

text \<open>
  Key handles verify for the application they were made for, the initial scan creates a device
  key that loads, and the two curve maps agree where the second is defined.
\<close>

subsection \<open>Paths\<close>

lemma length_mem_u32 [simp]: "length (mem_u32 v) = 4"
  by (simp add: mem_u32_def)

lemma length_path_set: "i * 4 + 4 \<le> length h \<Longrightarrow> length (path_set h i v) = length h"
  by (simp add: path_set_def length_splice)

lemma path_entry_set_same: "i * 4 + 4 \<le> length h \<Longrightarrow> path_entry (path_set h i v) i = mem_u32 v"
  by (simp add: path_entry_def path_set_def splice_def)

lemma path_entry_set_other:
  assumes "i \<noteq> j" and "i * 4 + 4 \<le> length h"
  shows "path_entry (path_set h i v) j = path_entry h j"
proof (cases "j < i")
  case True
  then have "take (j * 4 + 4) (path_set h i v) = take (j * 4 + 4) h"
    unfolding path_set_def using assms(2) by (intro take_splice) auto
  then have "drop (j * 4) (take (j * 4 + 4) (path_set h i v)) = drop (j * 4) (take (j * 4 + 4) h)" by simp
  then show ?thesis by (simp add: path_entry_def drop_take)
next
  case False
  then show ?thesis
    unfolding path_entry_def path_set_def using assms by (subst drop_splice) auto
qed

lemma drop_path_set: "i * 4 + 4 \<le> n \<Longrightarrow> n \<le> length h \<Longrightarrow> drop n (path_set h i v) = drop n h"
  unfolding path_set_def by (rule drop_splice) auto

lemma u32_at_entry:
  assumes "length (path_entry h i) = 4"
  shows "u32_at h (i * 4) = u32_at (path_entry h i) 0"
proof -
  have l: "i * 4 + 4 \<le> length h" using assms by (auto simp: path_entry_def)
  have "path_entry h i ! j = h ! (i * 4 + j)" if "j < 4" for j
    using that l by (simp add: path_entry_def)
  from this [of 0] this [of 1] this [of 2] this [of 3] show ?thesis
    using assms l by (simp add: u32_at_def byte_at_def numeral_2_eq_2)
qed

lemma u32_at_mem: "u32_at (mem_u32 v) 0 = v"
proof -
  have "bit (u32_at (mem_u32 v) 0) n = bit v n" if "n < 32" for n
  proof -
    have "n < 8 \<or> (8 \<le> n \<and> n < 16) \<or> (16 \<le> n \<and> n < 24) \<or> (24 \<le> n \<and> n < 32)" using that by linarith
    then show ?thesis
      by (elim disjE) (auto simp: u32_at_def byte_at_def mem_u32_def bit_simps)
  qed
  then show ?thesis by (intro bit_word_eqI) simp
qed

subsection \<open>Deriving again\<close>

lemma derive_path_again:
  fixes s :: "'a plat_scheme"
  assumes "derive_path k True is h outk s = (PICOKEYS_OK, h', outk', s')"
    and "distinct is" and "\<forall>i \<in> set is. i * 4 + 4 \<le> length h"
  shows "length h' = length h \<and> (\<forall>j. j \<notin> set is \<longrightarrow> path_entry h' j = path_entry h j) \<and>
    (\<forall>n. (\<forall>i \<in> set is. i * 4 + 4 \<le> n) \<and> n \<le> length h \<longrightarrow> drop n h' = drop n h) \<and>
    (\<forall>i \<in> set is. u32_at h' (i * 4) AND 0x80000000 \<noteq> 0) \<and>
    (\<forall>g (u :: 'a plat_scheme). (\<forall>i \<in> set is. path_entry g i = path_entry h' i) \<longrightarrow> derive_path k False is g outk u = (PICOKEYS_OK, g, outk', u))"
  using assms
proof (induction "is" arbitrary: h outk s)
  case Nil
  then show ?case by simp
next
  case (Cons i ls)
  define v where "v = u32_at (sdk_random k (tick s) 4) 0 OR 0x80000000"
  let ?h = "path_set h i v"
  obtain r o1 where hk: "sdk_hkdf_inplace k MD_SHA512 (path_entry ?h i) (0, 32) (32, 32) outk = (r, o1)"
    by (cases "sdk_hkdf_inplace k MD_SHA512 (path_entry ?h i) (0, 32) (32, 32) outk")
  have r: "r = 0" and d: "derive_path k True ls ?h o1 (s\<lparr>tick := Suc (tick s)\<rparr>) = (PICOKEYS_OK, h', outk', s')"
    using Cons.prems(1) hk by (auto simp: random_fill_buffer_def v_def rc_of_int_def Let_def split: if_splits)
  have le: "i * 4 + 4 \<le> length h" "\<forall>j \<in> set ls. j * 4 + 4 \<le> length ?h"
    using Cons.prems(3) by (auto simp: length_path_set)
  note IH = Cons.IH [OF d _ le(2)]
  have ni: "i \<notin> set ls" and di: "distinct ls" using Cons.prems(2) by auto
  have e: "path_entry h' i = mem_u32 v" using IH di ni path_entry_set_same [OF le(1)] by simp
  have bit: "u32_at h' (i * 4) = v"
    using u32_at_entry [of h' i] e u32_at_mem by simp
  have "v AND 0x80000000 = 0x80000000"
  proof (rule bit_word_eqI)
    fix n
    assume "n < LENGTH(32)"
    then show "bit (v AND 0x80000000) n = bit (0x80000000 :: u32) n" by (auto simp: v_def bit_simps)
  qed
  then have b: "u32_at h' (i * 4) AND 0x80000000 \<noteq> 0" using bit by simp
  have IHd: "derive_path k False ls g o1 u = (PICOKEYS_OK, g, outk', u)"
    if "\<forall>j \<in> set ls. path_entry g j = path_entry h' j" for g and u :: "'a plat_scheme"
    using IH di that by blast
  have again: "derive_path k False (i # ls) g outk u = (PICOKEYS_OK, g, outk', u)"
    if "\<forall>j \<in> set (i # ls). path_entry g j = path_entry h' j" for g and u :: "'a plat_scheme"
  proof -
    have pe: "path_entry g i = mem_u32 v" using that e by simp
    have hk': "sdk_hkdf_inplace k MD_SHA512 (mem_u32 v) (0, 32) (32, 32) outk = (0, o1)"
      using hk r path_entry_set_same [OF le(1), of v] by simp
    have rest: "derive_path k False ls g o1 u = (PICOKEYS_OK, g, outk', u)" using IHd that by simp
    show ?thesis by (simp add: Let_def pe hk' rest)
  qed
  have others: "path_entry h' j = path_entry h j" if "j \<notin> set (i # ls)" for j
    using that IH di path_entry_set_other [OF _ le(1), of j v] by simp
  have tail: "drop n h' = drop n h" if "\<forall>j \<in> set (i # ls). j * 4 + 4 \<le> n" "n \<le> length h" for n
    using that IH di length_path_set [OF le(1), of v] drop_path_set [of i n h v] by simp
  show ?case using IH di length_path_set [OF le(1), of v] others tail b again by auto
qed

definition inplace_law :: "sdk \<Rightarrow> bool" where
  "inplace_law k \<longleftrightarrow> (\<forall>m salt a b d. length (snd (sdk_hkdf_inplace k m salt a b d)) = length d)"

lemma derive_path_length:
  "inplace_law k \<Longrightarrow> derive_path k b is h outk s = (PICOKEYS_OK, h', outk', s') \<Longrightarrow> length outk' = length outk"
proof (induction "is" arbitrary: h outk s)
  case (Cons i ls)
  then show ?case
    by (auto simp: inplace_law_def Let_def rc_of_int_def split: prod.splits if_splits) (metis snd_conv)+
qed simp

text \<open>Whether a public key can be computed does not depend on the random numbers used for it.\<close>

definition public_law :: "sdk \<Rightarrow> bool" where
  "public_law k \<longleftrightarrow> (\<forall>n m kp. fst (sdk_ec_calc_public k n kp) = 0 \<longrightarrow> fst (sdk_ec_calc_public k m kp) = 0)"

lemma derive_key_parts:
  assumes "derive_key k app new h MBEDTLS_ECP_DP_SECP256R1 (Some kp0) s = (PICOKEYS_OK, h', key, s')"
    and "load_keydev k (replicate 32 0) s = (PICOKEYS_OK, root, s0)"
    and "sdk_curve_bits k MBEDTLS_ECP_DP_SECP256R1 = Some 256"
  obtains h1 outk s1 hmac kp1 kp where
    "derive_path k new [0..<8] h (fit 67 (take 32 root)) s0 = (PICOKEYS_OK, h1, outk, s1)"
    "new \<Longrightarrow> sdk_hmac k MD_SHA256 (take 32 outk) (take 32 app @ take 32 h1) = (0, hmac)"
    "h' = (if new then splice h1 (32, 32) hmac else h1)"
    "sdk_ec_read_key k MBEDTLS_ECP_DP_SECP256R1 (kp0\<lparr>kp_grp := MBEDTLS_ECP_DP_SECP256R1\<rparr>) (take 32 outk) = (0, kp1)"
    "sdk_ec_calc_public k (tick s1) kp1 = (0, kp)" "key = Some kp"
proof -
  obtain r h1 outk s1 where p: "derive_path k new [0..<8] h (fit 67 (take 32 root)) s0 = (r, h1, outk, s1)"
    by (metis prod_cases4)
  obtain m hmac where hm: "(if new then sdk_hmac k MD_SHA256 (take 32 outk) (take 32 app @ take 32 h1) else (0, [])) = (m, hmac)"
    by (metis surj_pair)
  obtain r2 kp1 where rk: "sdk_ec_read_key k MBEDTLS_ECP_DP_SECP256R1 (kp0\<lparr>kp_grp := MBEDTLS_ECP_DP_SECP256R1\<rparr>) (take 32 outk) = (r2, kp1)"
    by (metis surj_pair)
  obtain r3 kp where cp: "sdk_ec_calc_public k (tick s1) kp1 = (r3, kp)" by (metis surj_pair)
  note unf = derive_key_def Let_def assms(2,3) p hm rk cp rc_of_int_def
  have e: "r = PICOKEYS_OK" "m = 0" "r2 = 0" "r3 = 0" "h' = (if new then splice h1 (32, 32) hmac else h1)" "key = Some kp"
    using assms(1) by (simp_all add: unf split: if_splits)
  show thesis
    by (rule that [of h1 outk s1 hmac kp1 kp]) (use p hm rk cp e in simp_all)
qed

text \<open>
  Deriving again from a handle: the key pair comes from the same private key, and the handle
  verifies with the key pair that made it, with the one derived again, and without one.
\<close>

lemma derived_handle:
  fixes s t :: "'a fido_scheme"
  assumes "md_law k" and "ec_key_law k" and "inplace_law k" and "public_law k"
    and "sdk_curve_bits k MBEDTLS_ECP_DP_SECP256R1 = Some 256" and "length h = 64"
    and "derive_key k app True h MBEDTLS_ECP_DP_SECP256R1 (Some keypair_init) s = (PICOKEYS_OK, h', key, s')"
    and "load_keydev k (replicate 32 0) s = (PICOKEYS_OK, root, s0)"
    and "load_keydev k (replicate 32 0) t = (PICOKEYS_OK, root, t0)"
  shows "\<exists>kp kp1 kp2 n m u.
    key = Some kp \<and> sdk_ec_calc_public k n kp1 = (0, kp) \<and> sdk_ec_calc_public k m kp1 = (0, kp2) \<and> length h' = 64 \<and>
    derive_key k app False h' MBEDTLS_ECP_DP_SECP256R1 (Some keypair_init) t = (PICOKEYS_OK, h', Some kp2, u) \<and>
    (\<forall>v :: 'a fido_scheme. verify_key k app h' (Some kp) v = (PICOKEYS_OK, v) \<and> verify_key k app h' (Some kp2) v = (PICOKEYS_OK, v)) \<and>
    verify_key k app h' None t = (PICOKEYS_OK, u)"
proof -
  obtain h1 outk s1 hmac kp1 kp where p: "derive_path k True [0..<8] h (fit 67 (take 32 root)) s0 = (PICOKEYS_OK, h1, outk, s1)"
      and hm: "sdk_hmac k MD_SHA256 (take 32 outk) (take 32 app @ take 32 h1) = (0, hmac)" and h': "h' = splice h1 (32, 32) hmac"
      and rk: "sdk_ec_read_key k MBEDTLS_ECP_DP_SECP256R1 (keypair_init\<lparr>kp_grp := MBEDTLS_ECP_DP_SECP256R1\<rparr>) (take 32 outk) = (0, kp1)"
      and cp: "sdk_ec_calc_public k (tick s1) kp1 = (0, kp)" and key: "key = Some kp"
    by (rule derive_key_parts [OF assms(7,8,5)]) simp
  have b: "\<forall>i \<in> set [0..<8]. i * 4 + 4 \<le> length h" using assms(6) by auto
  note again = derive_path_again [OF p distinct_upt b]
  have l1: "length h1 = 64" using again assms(6) by simp
  have lh: "length hmac = 32" using hm assms(1) unfolding md_law_def by (metis snd_conv)
  have lo: "length outk = 67" using derive_path_length [OF assms(3) p] by simp
  have take_h: "take 32 h' = take 32 h1" unfolding h' using l1 by (intro take_splice) auto
  have tag: "take 32 (drop 32 h') = hmac"
    using slice_splice_same [of h1 "(32, 32)" hmac] l1 lh by (simp add: h')
  have l': "length h' = 64" using l1 lh by (simp add: h' length_splice)
  have entry: "path_entry h' i = path_entry h1 i" if "i < 8" for i
  proof -
    have "take (i * 4 + 4) h' = take (i * 4 + 4) h1" unfolding h' using l1 that by (intro take_splice) auto
    then have "drop (i * 4) (take (i * 4 + 4) h') = drop (i * 4) (take (i * 4 + 4) h1)" by simp
    then show ?thesis by (simp add: path_entry_def drop_take)
  qed
  have hard: "u32_at h' (i * 4) AND 0x80000000 \<noteq> 0" if "i < 8" for i
  proof -
    have "length (path_entry h' i) = 4" "length (path_entry h1 i) = 4" using that l' l1 by (simp_all add: path_entry_def)
    then have "u32_at h' (i * 4) = u32_at h1 (i * 4)" using u32_at_entry [of h' i] u32_at_entry [of h1 i] entry [OF that] by simp
    then show ?thesis using again that by simp
  qed
  have nl: "\<not> list_ex (\<lambda>i. u32_at h' (i * 4) AND 0x80000000 = 0) [0..<8]"
    using hard by (simp add: list_ex_iff)
  have wk: "sdk_ec_write_key k kp 32 = (0, 32, take 32 outk)"
  proof -
    have "sdk_ec_write_key k kp1 (length (take 32 outk)) = (0, length (take 32 outk), take 32 outk)"
      using assms(2) rk unfolding ec_key_law_def by blast
    moreover have "sdk_ec_write_key k kp 32 = sdk_ec_write_key k kp1 32"
      using assms(2) cp unfolding ec_key_law_def by blast
    ultimately show ?thesis using lo by simp
  qed
  have last: "take 32 (drop 32 h') = fit 32 hmac" using tag lh by simp
  have 1: "verify_key k app h' (Some kp) v = (PICOKEYS_OK, v)" for v :: "'a fido_scheme"
    using nl wk hm take_h last lo by (simp add: verify_key_def Let_def)
  have dp: "derive_path k False [0..<8] h' (fit 67 (take 32 root)) t0 = (PICOKEYS_OK, h', outk, t0)"
  proof -
    have "\<forall>i \<in> set [0..<8]. path_entry h' i = path_entry h1 i" using entry by auto
    with again show ?thesis by blast
  qed
  obtain r2 kp2 where cp2: "sdk_ec_calc_public k (tick t0) kp1 = (r2, kp2)" by (metis surj_pair)
  have r2: "r2 = 0" using assms(4) cp cp2 unfolding public_law_def by (metis fst_conv)
  have wk2: "sdk_ec_write_key k kp2 32 = (0, 32, take 32 outk)"
  proof -
    have "sdk_ec_write_key k kp2 32 = sdk_ec_write_key k kp1 32" "sdk_ec_write_key k kp 32 = sdk_ec_write_key k kp1 32"
      using assms(2) cp cp2 r2 unfolding ec_key_law_def by blast+
    then show ?thesis using wk by simp
  qed
  have dk: "derive_key k app False h' MBEDTLS_ECP_DP_SECP256R1 (Some keypair_init) t =
      (PICOKEYS_OK, h', Some kp2, t0\<lparr>tick := Suc (tick t0)\<rparr>)"
    by (simp add: derive_key_def Let_def assms(9,5) dp rk cp2 r2 rc_of_int_def)
  have "verify_key k app h' None t = (PICOKEYS_OK, t0\<lparr>tick := Suc (tick t0)\<rparr>)"
    using nl wk2 hm take_h last lo by (simp add: verify_key_def dk Let_def)
  moreover have "verify_key k app h' (Some kp2) v = (PICOKEYS_OK, v)" for v :: "'a fido_scheme"
    using nl wk2 hm take_h last lo by (simp add: verify_key_def Let_def)
  moreover have "sdk_ec_calc_public k (tick t0) kp1 = (0, kp2)" using cp2 r2 by simp
  ultimately show ?thesis using 1 cp key dk l' by blast
qed

text \<open>
  C31: A key handle verifies for the application it was made for. When \<open>derive_key\<close> makes a new
  handle and its key pair, \<open>verify_key\<close> accepts the handle, with the key pair at hand and, in any
  state whose device key is the same, without it.
\<close>

theorem key_handle_verifies:
  fixes s t :: "'a fido_scheme"
  assumes "md_law k" and "ec_key_law k" and "inplace_law k" and "public_law k"
    and "sdk_curve_bits k MBEDTLS_ECP_DP_SECP256R1 = Some 256" and "length h = 64"
    and "derive_key k app True h MBEDTLS_ECP_DP_SECP256R1 (Some keypair_init) s = (PICOKEYS_OK, h', key, s')"
    and "load_keydev k (replicate 32 0) s = (PICOKEYS_OK, root, s0)"
    and "load_keydev k (replicate 32 0) t = (PICOKEYS_OK, root, t0)"
  shows "verify_key k app h' key t = (PICOKEYS_OK, t) \<and> (\<exists>u. verify_key k app h' None t = (PICOKEYS_OK, u))"
  using derived_handle [OF assms] by (elim exE conjE) blast

lemma key_handle_verifies_witness:
  "\<exists>h key s'. derive_key ref_sdk (replicate 32 5) True (replicate 64 0) MBEDTLS_ECP_DP_SECP256R1 (Some keypair_init)
       (ref_keyed Map.empty) = (PICOKEYS_OK, h, key, s') \<and>
     (\<exists>u. verify_key ref_sdk (replicate 32 5) h None (ref_keyed Map.empty) = (PICOKEYS_OK, u))"
proof -
  let ?s = "ref_keyed Map.empty"
  obtain root where l: "load_keydev ref_sdk (replicate 32 0) ?s = (PICOKEYS_OK, root, ?s)"
    using load_keydev_settled [OF ref_keyed_settled, of ref_sdk "replicate 32 0" Map.empty] by (simp add: keydev_value_def)
  have path: "\<exists>h o1 s1. derive_path ref_sdk True is h0 out s0 = (PICOKEYS_OK, h, o1, s1)" for "is" h0 out and s0 :: resident
    by (induction "is" arbitrary: h0 out s0) (simp_all add: random_fill_buffer_def Let_def)
  obtain h1 o1 s1 where p: "derive_path ref_sdk True [0..<8] (replicate 64 0) (fit 67 (take 32 root)) ?s = (PICOKEYS_OK, h1, o1, s1)"
    using path by blast
  obtain h key s' where d: "derive_key ref_sdk (replicate 32 5) True (replicate 64 0) MBEDTLS_ECP_DP_SECP256R1 (Some keypair_init) ?s =
      (PICOKEYS_OK, h, key, s')"
    by (simp add: derive_key_def Let_def l p rc_of_int_def)
  have laws: "inplace_law ref_sdk" "public_law ref_sdk" by (simp_all add: inplace_law_def public_law_def)
  show ?thesis
    using key_handle_verifies [OF ref_md_law ref_ec_key_law laws _ _ d l l] d by simp
qed

subsection \<open>The initial scan\<close>

text \<open>A step that writes data into those files of \<open>F\<close> that exist and are empty, and nothing else.\<close>

definition fills :: "fid set \<Rightarrow> 'a plat_scheme \<Rightarrow> 'a plat_scheme \<Rightarrow> bool" where
  "fills F s t \<longleftrightarrow> (\<forall>f. if f \<in> F \<and> files s f = Some [] then \<exists>d. d \<noteq> [] \<and> files t f = Some d else files t f = files s f)"

lemma fills_refl: "fills {} s s"
  by (simp add: fills_def)

lemma fills_trans: "fills F s t \<Longrightarrow> fills G t u \<Longrightarrow> fills (F \<union> G) s u"
  unfolding fills_def by (metis Un_iff option.inject)

lemma fills_files: "fills F s t \<Longrightarrow> files s' = files s \<Longrightarrow> files t' = files t \<Longrightarrow> fills F s' t'"
  by (simp add: fills_def)

lemma fills_full: "fills F s t \<Longrightarrow> \<forall>f \<in> F. files s f \<noteq> Some [] \<Longrightarrow> files t = files s"
  unfolding fills_def by (rule ext) (metis)

lemma fills_done: "fills F s t \<Longrightarrow> f \<in> F \<Longrightarrow> files t f \<noteq> Some []"
  unfolding fills_def by (metis option.inject)

definition storable :: "sdk \<Rightarrow> bool" where
  "storable k \<longleftrightarrow> put_law k \<and> (\<forall>f. accepts k f)"

lemma put_fills:
  assumes "storable k" and "length d \<le> 1024" and "d \<noteq> []" and "files u = files s" and "\<not> file_has_data s (file_search s f)"
  shows "fills {f} s (snd (file_put_data k (file_search s f) d u))"
proof (cases "files s f")
  case None
  obtain r t where p: "file_put_data k None d u = (r, t)" by fastforce
  have "files t = files u" using file_put_data_cases [OF _ p] assms(1) by (auto simp: storable_def)
  with None p assms(4) show ?thesis by (simp add: fills_def file_search_def)
next
  case (Some e)
  then have e: "e = []" using assms(5) by simp
  obtain r t where p: "file_put_data k (Some f) d u = (r, t)" by fastforce
  have "files t = (files s)(f \<mapsto> d)" using accepts_put [OF _ _ assms(2) p] assms(1,4) by (simp add: storable_def)
  with Some e p assms(3) show ?thesis by (simp add: fills_def file_search_def)
qed

lemma full_fills: "file_has_data s (file_search s f) \<Longrightarrow> files t = files s \<Longrightarrow> fills {f} s t"
  by (auto simp: fills_def)

definition scan_reliable :: "sdk \<Rightarrow> bool" where
  "scan_reliable k \<longleftrightarrow> storable k \<and> aes_law k \<and> random_law k \<and>
     (\<forall>key iv d. fst (sdk_aes_enc k key iv d) = PICOKEYS_OK) \<and>
     (\<forall>n crt len. fst (sdk_x509_der k n crt len) \<noteq> 0 \<and> snd (sdk_x509_der k n crt len) \<noteq> [] \<and>
        length (snd (sdk_x509_der k n crt len)) \<le> 1024)"

lemma fill_random_fills:
  assumes "storable k" and "random_law k"
  shows "fills {f} s (fill_random k (file_search s f) s)"
proof (cases "file_has_data s (file_search s f)")
  case True
  then show ?thesis by (simp add: fill_random_def full_fills del: file_search_data)
next
  case False
  obtain d t where r: "random_fill_buffer k 32 s = (d, t)" by fastforce
  have l: "length d = 32" using r assms(2) by (auto simp: random_fill_buffer_def random_law_def)
  have "fills {f} s (snd (file_put_data k (file_search s f) d t))"
    using put_fills [OF assms(1) _ _ random_fill_buffer_files [OF r] False, of d] l by fastforce
  with False r show ?thesis by (simp add: fill_random_def del: file_search_data)
qed

lemma keys_store_step:
  assumes "store_step s t"
  shows "has_keydev_dec t = has_keydev_dec s" "keydev_dec t = keydev_dec s" "session_pin t = session_pin s"
    "paut t = paut s" "ppaut t = ppaut s"
  using assms by (auto simp: store_step_def)

lemma encrypt_keydev_f1_stores:
  assumes "scan_reliable k" and "file_search s EF_KEY_DEV = Some EF_KEY_DEV" and "length d = 32"
    and "encrypt_keydev_f1 k d s = (r, t)"
  shows "store_step s t" and "\<exists>c. files t = (files s)(EF_KEY_DEV \<mapsto> 0x01 # c) \<and> length c = 32 \<and>
    sdk_aes_dec k (sdk_kbase k) (Some (sdk_serial_hash k)) c = (PICOKEYS_OK, d)"
proof -
  obtain c where c: "sdk_aes_enc k (sdk_kbase k) (Some (sdk_serial_hash k)) d = (PICOKEYS_OK, c)"
    using assms(1) by (metis prod.collapse scan_reliable_def)
  have l: "length c = 32" and dec: "sdk_aes_dec k (sdk_kbase k) (Some (sdk_serial_hash k)) c = (PICOKEYS_OK, d)"
    using assms(1,3) c by (auto simp: scan_reliable_def aes_law_def)
  obtain r1 u where p: "file_put_data k (Some EF_KEY_DEV) (0x01 # c) s = (r1, u)" by fastforce
  have t: "t = flash_commit u" using assms(2,4) c p l by (simp add: encrypt_keydev_f1_def Let_def)
  show "store_step s t" unfolding t using file_put_data_step [OF p] flash_commit_step store_step_trans by blast
  have "files u = (files s)(EF_KEY_DEV \<mapsto> 0x01 # c)"
    using accepts_put [OF _ _ _ p] assms(1) l by (simp add: scan_reliable_def storable_def)
  then show "\<exists>c. files t = (files s)(EF_KEY_DEV \<mapsto> 0x01 # c) \<and> length c = 32 \<and>
      sdk_aes_dec k (sdk_kbase k) (Some (sdk_serial_hash k)) c = (PICOKEYS_OK, d)"
    using l dec by (auto simp: t)
qed

lemma scan_keydev_fills:
  assumes "scan_reliable k" and "\<not> file_has_data s (file_search s EF_KEY_DEV_ENC)" and "scan_keydev k s = (PICOKEYS_OK, t)"
  shows "store_step s t" and "fills {EF_KEY_DEV} s t"
    and "files s EF_KEY_DEV = Some [] \<Longrightarrow> \<exists>kp d c. sdk_ec_genkey k (tick s) MBEDTLS_ECP_DP_SECP256R1 = (0, kp) \<and>
      sdk_ec_write_key k kp 32 = (0, 32, d) \<and> files t EF_KEY_DEV = Some (0x01 # c) \<and> length c = 32 \<and>
      sdk_aes_dec k (sdk_kbase k) (Some (sdk_serial_hash k)) c = (PICOKEYS_OK, fit 32 d)"
proof -
  have main: "store_step s t \<and> fills {EF_KEY_DEV} s t \<and> (files s EF_KEY_DEV = Some [] \<longrightarrow>
      (\<exists>kp d c. sdk_ec_genkey k (tick s) MBEDTLS_ECP_DP_SECP256R1 = (0, kp) \<and>
      sdk_ec_write_key k kp 32 = (0, 32, d) \<and> files t EF_KEY_DEV = Some (0x01 # c) \<and> length c = 32 \<and>
      sdk_aes_dec k (sdk_kbase k) (Some (sdk_serial_hash k)) c = (PICOKEYS_OK, fit 32 d)))"
  proof (cases "files s EF_KEY_DEV = Some []")
    case False
    then have "file_search s EF_KEY_DEV = None \<or> file_has_data s (file_search s EF_KEY_DEV)"
      by (auto simp: file_search_def file_has_data_Some)
    then have "t = s" using assms(3) by (auto simp: scan_keydev_def simp del: file_search_data)
    with False show ?thesis by (simp add: fills_def)
  next
    case True
    then have se: "file_search s EF_KEY_DEV = Some EF_KEY_DEV" "\<not> file_has_data s (Some EF_KEY_DEV)"
      by (simp_all add: file_reads)
    obtain r kp where g: "sdk_ec_genkey k (tick s) MBEDTLS_ECP_DP_SECP256R1 = (r, kp)" by fastforce
    obtain r2 n d where w: "sdk_ec_write_key k kp 32 = (r2, n, d)" by (metis prod_cases3)
    let ?s = "s\<lparr>tick := Suc (tick s)\<rparr>"
    obtain r3 t3 where e: "encrypt_keydev_f1 k (fit 32 d) ?s = (r3, t3)" by fastforce
    have rs: "r = 0 \<and> r2 = 0 \<and> n = 32 \<and> t = t3"
      using assms(3,2) se g w e by (auto simp: scan_keydev_def Let_def rc_of_int_def split: if_splits)
    have se': "file_search ?s EF_KEY_DEV = Some EF_KEY_DEV" using True by (simp add: file_search_def)
    note st = encrypt_keydev_f1_stores [OF assms(1) se' _ e]
    obtain c where c: "files t3 = (files ?s)(EF_KEY_DEV \<mapsto> 0x01 # c)" "length c = 32"
        "sdk_aes_dec k (sdk_kbase k) (Some (sdk_serial_hash k)) c = (PICOKEYS_OK, fit 32 d)"
      using st(2) by auto
    have "store_step s t3" using st(1) store_step_trans [OF store_step_tick] by simp
    with True c g w rs show ?thesis by (simp add: fills_def)
  qed
  then show "store_step s t" "fills {EF_KEY_DEV} s t" by blast+
  from main show "\<exists>kp d c. sdk_ec_genkey k (tick s) MBEDTLS_ECP_DP_SECP256R1 = (0, kp) \<and>
      sdk_ec_write_key k kp 32 = (0, 32, d) \<and> files t EF_KEY_DEV = Some (0x01 # c) \<and> length c = 32 \<and>
      sdk_aes_dec k (sdk_kbase k) (Some (sdk_serial_hash k)) c = (PICOKEYS_OK, fit 32 d)" if "files s EF_KEY_DEV = Some []"
    using that by blast
qed

lemma scan_certdev_fills:
  assumes "scan_reliable k" and "key_settled s" and "scan_certdev k s = (True, r, t)"
  shows "fills {EF_EE_DEV} s t \<and> files t EF_KEY_DEV = files s EF_KEY_DEV \<and> has_keydev_dec t = has_keydev_dec s \<and>
    paut t = paut s \<and> ppaut t = ppaut s"
proof -
  let ?ef = "file_search s EF_EE_DEV"
  consider "?ef = None" | "file_has_data s ?ef" | "?ef \<noteq> None" "\<not> file_has_data s ?ef" by blast
  then show ?thesis
  proof cases
    case 1
    then have "t = s" using assms(3) by (simp add: scan_certdev_def)
    moreover have "files s EF_EE_DEV = None" using 1 by (simp add: file_search_def split: if_splits)
    ultimately show ?thesis by (simp add: fills_def)
  next
    case 2
    then have "?ef \<noteq> None" using file_has_data_None by metis
    with 2 have "t = s\<lparr>certdev_sha256 := snd (sdk_digest k MD_SHA256 (file_get_data s ?ef))\<rparr>"
      using assms(3) by (auto simp: scan_certdev_def Let_def simp del: file_search_data)
    then show ?thesis using full_fills [OF 2, of t] by simp
  next
    case 3
    obtain lr root where l: "load_keydev k (replicate 32 0) s = (lr, root, s)"
      using load_keydev_settled [OF assms(2)] by blast
    obtain r1 kp1 where rk: "sdk_ec_read_key k MBEDTLS_ECP_DP_SECP256R1 keypair_init root = (r1, kp1)" by fastforce
    obtain r2 kp2 where cp: "sdk_ec_calc_public k (tick s) kp1 = (r2, kp2)" by fastforce
    obtain r3 der u where x: "x509_create_cert k kp2 2048 (s\<lparr>tick := Suc (tick s)\<rparr>) = (r3, der, u)" by (metis prod_cases3)
    obtain r4 v where p: "file_put_data k ?ef der u = (r4, v)" by fastforce
    have t: "t = v\<lparr>certdev_sha256 := snd (sdk_digest k MD_SHA256 (file_get_data v ?ef))\<rparr>"
      using assms(3) 3 l rk cp x p by (auto simp: scan_certdev_def Let_def split: if_splits simp del: file_search_data)
    have u: "store_step s u" "files u = files s" "der \<noteq> []" "length der \<le> 1024"
    proof -
      obtain d w where rf: "random_fill_buffer k 16 (s\<lparr>tick := Suc (tick s)\<rparr>) = (d, w)" by fastforce
      from x rf show "files u = files s" "der \<noteq> []" "length der \<le> 1024"
        using assms(1) random_fill_buffer_files [OF rf]
        by (auto simp: x509_create_cert_def scan_reliable_def Let_def split: prod.splits) (metis snd_conv)+
      show "store_step s u"
        using x rf store_step_trans [OF store_step_tick, OF store_step_trans [OF random_fill_buffer_step [OF rf] store_step_tick]]
        by (auto simp: x509_create_cert_def Let_def split: prod.splits)
    qed
    have f: "fills {EF_EE_DEV} s v"
    proof -
      have "storable k" using assms(1) by (simp add: scan_reliable_def)
      from put_fills [OF this u(4,3,2) 3(2)] show ?thesis by (simp add: p)
    qed
    have st: "store_step s v" using u(1) file_put_data_step [OF p] store_step_trans by blast
    have "files v EF_KEY_DEV = files s EF_KEY_DEV" using f by (auto simp: fills_def)
    then show ?thesis using f keys_store_step [OF st] by (simp add: t fills_def)
  qed
qed

lemma scan_counter_fills: "storable k \<Longrightarrow> fills {EF_COUNTER} s (scan_counter k s)"
proof (cases "file_has_data s (file_search s EF_COUNTER)")
  case True
  then show ?thesis by (simp add: scan_counter_def full_fills del: file_search_data)
next
  case False
  assume k: "storable k"
  have "fills {EF_COUNTER} s (snd (file_put_data k (file_search s EF_COUNTER) (mem_u32 0) s))"
    using put_fills [OF k _ _ refl False, of "mem_u32 0"] by (simp add: mem_u32_def)
  moreover have "fills {EF_COUNTER} s s" if "file_search s EF_COUNTER = None"
    using that by (auto simp: fills_def file_search_def split: if_splits)
  ultimately show ?thesis using False by (auto simp: scan_counter_def Let_def simp del: file_search_data)
qed

lemma scan_tokens_fills:
  assumes "storable k" and "random_law k" and "files s EF_AUTHTOKEN \<noteq> None" and "files s EF_PAUTHTOKEN \<noteq> None"
  shows "fills {EF_AUTHTOKEN, EF_PAUTHTOKEN} s (scan_tokens k s) \<and>
      Some (paut_data (paut (scan_tokens k s))) = files (scan_tokens k s) EF_AUTHTOKEN \<and>
      Some (ppaut_data (ppaut (scan_tokens k s))) = files (scan_tokens k s) EF_PAUTHTOKEN"
proof -
  define s1 where "s1 = fill_random k (file_search s EF_AUTHTOKEN) s"
  define s2 where "s2 = s1\<lparr>paut := (paut s1)\<lparr>paut_data := file_get_data s1 (file_search s EF_AUTHTOKEN)\<rparr>\<rparr>"
  define s3 where "s3 = fill_random k (file_search s2 EF_PAUTHTOKEN) s2"
  have f1: "fills {EF_AUTHTOKEN} s s1" unfolding s1_def by (rule fill_random_fills [OF assms(1,2)])
  have f3: "fills {EF_PAUTHTOKEN} s2 s3" unfolding s3_def by (rule fill_random_fills [OF assms(1,2)])
  have f2: "files s2 = files s1" by (simp add: s2_def)
  have e: "files s1 EF_AUTHTOKEN \<noteq> None" "files s1 EF_PAUTHTOKEN = files s EF_PAUTHTOKEN"
      "files s3 EF_AUTHTOKEN = files s1 EF_AUTHTOKEN"
    using f1 f3 f2 assms(3,4) unfolding fills_def by (auto split: if_splits)
  have e3: "files s3 EF_PAUTHTOKEN \<noteq> None"
    using f3 f2 e(2) assms(4) unfolding fills_def by (metis option.distinct(1))
  have p: "paut s3 = paut s2"
  proof -
    have "store_step s2 s3" unfolding s3_def fill_random_def
      by (auto split: prod.splits intro: store_step_trans dest!: random_fill_buffer_step)
        (metis file_put_data_step prod.collapse store_step_trans)
    then show ?thesis by (rule keys_store_step)
  qed
  have t: "scan_tokens k s = s3\<lparr>ppaut := (ppaut s3)\<lparr>ppaut_data := file_get_data s3 (file_search s2 EF_PAUTHTOKEN)\<rparr>\<rparr>"
  proof -
    have se: "file_search s EF_AUTHTOKEN \<noteq> None" "file_search s2 EF_PAUTHTOKEN \<noteq> None"
      using assms(3,4) e(2) f2 by (simp_all add: file_search_def)
    show ?thesis
      unfolding scan_tokens_def Let_def if_P [OF se(1)] s1_def [symmetric] s2_def [symmetric] if_P [OF se(2)] s3_def [symmetric]
      by (rule refl)
  qed
  have "fills ({EF_AUTHTOKEN} \<union> {EF_PAUTHTOKEN}) s s3"
    using fills_trans [OF fills_files [OF f1 refl f2] f3] .
  then have "fills {EF_AUTHTOKEN, EF_PAUTHTOKEN} s (scan_tokens k s)"
    by (simp add: t fills_def insert_is_Un [of EF_AUTHTOKEN "{EF_PAUTHTOKEN}"])
  moreover have "file_get_data s1 (file_search s EF_AUTHTOKEN) = the (files s1 EF_AUTHTOKEN)"
    using assms(3) e(1) by (auto simp: file_reads)
  moreover have "file_get_data s3 (file_search s2 EF_PAUTHTOKEN) = the (files s3 EF_PAUTHTOKEN)"
    using assms(4) e e3 f2 by (auto simp: file_reads)
  ultimately show ?thesis using e e3 p by (simp add: t s2_def)
qed

lemma scan_rest_fills:
  assumes "storable k" and "random_law k"
  shows "fills {EF_LARGEBLOB, EF_DEV_STATE} s (scan_rest k s)"
proof -
  define s1 where "s1 = (if \<not> file_has_data s (file_search s EF_LARGEBLOB)
    then snd (file_put_data k (file_search s EF_LARGEBLOB) initial_large_blob s) else s)"
  have "fills {EF_LARGEBLOB} s s1"
    using put_fills [OF assms(1) _ _ refl, of initial_large_blob s EF_LARGEBLOB] full_fills [of s EF_LARGEBLOB s]
    by (simp add: s1_def initial_large_blob_def del: file_search_data)
  from fills_trans [OF this fill_random_fills [OF assms, of EF_DEV_STATE]] show ?thesis
    unfolding scan_rest_def Let_def s1_def [symmetric] by (simp add: insert_commute)
qed

definition static_files :: "fid set" where
  "static_files = {EF_KEY_DEV, EF_EE_DEV, EF_COUNTER, EF_AUTHTOKEN, EF_PAUTHTOKEN, EF_LARGEBLOB, EF_DEV_STATE}"

lemma load_plain_keydev:
  assumes "files t EF_KEY_DEV = Some (0x01 # c)" and "length c = 32" and "\<not> has_keydev_dec t"
    and "sdk_aes_dec k (sdk_kbase k) (Some (sdk_serial_hash k)) c = (PICOKEYS_OK, d)"
  shows "load_keydev k z t = (PICOKEYS_OK, d, t)"
  using assms by (simp add: load_keydev_def file_reads)

text \<open>What the stages of a scan that goes through do together.\<close>

lemma put_snd_step: "store_step s (snd (file_put_data k p d s))"
  by (metis file_put_data_step prod.collapse)

lemma fill_random_step: "store_step s (fill_random k ef s)"
proof -
  obtain d t where r: "random_fill_buffer k 32 s = (d, t)" by fastforce
  have "store_step s (snd (file_put_data k ef d t))"
    using store_step_trans [OF random_fill_buffer_step [OF r] put_snd_step] .
  then show ?thesis by (simp add: fill_random_def r)
qed

lemma scan_counter_step: "store_step s (scan_counter k s)"
  by (simp add: scan_counter_def Let_def put_snd_step del: file_search_data)

lemma scan_rest_step: "store_step s (scan_rest k s)"
  unfolding scan_rest_def Let_def
  by (rule store_step_trans [OF _ fill_random_step]) (simp add: put_snd_step del: file_search_data)

lemma scan_tokens_keydev: "has_keydev_dec (scan_tokens k s) = has_keydev_dec s"
proof -
  have "has_keydev_dec (fill_random k ef t) = has_keydev_dec t" for ef and t :: "'a fido_scheme"
    by (rule keys_store_step [OF fill_random_step])
  then show ?thesis by (simp add: scan_tokens_def Let_def)
qed

lemma scan_stages:
  assumes "scan_reliable k" and "key_settled s" and "\<not> file_has_data s (file_search s EF_KEY_DEV_ENC)"
    and "files s EF_AUTHTOKEN \<noteq> None" and "files s EF_PAUTHTOKEN \<noteq> None" and "scan_keydev k s = (PICOKEYS_OK, s1)"
    and "scan_certdev k s1 = (True, r, s2)"
  defines "t \<equiv> flash_commit (scan_rest k (scan_tokens k (scan_counter k s2)))"
  shows "fills static_files s t" and "Some (paut_data (paut t)) = files t EF_AUTHTOKEN"
    and "Some (ppaut_data (ppaut t)) = files t EF_PAUTHTOKEN" and "files t EF_KEY_DEV = files s1 EF_KEY_DEV"
    and "has_keydev_dec t = has_keydev_dec s"
proof -
  have k: "storable k" "random_law k" using assms(1) by (simp_all add: scan_reliable_def)
  note kd = scan_keydev_fills [OF assms(1,3,6)]
  have settled: "key_settled s1"
  proof (cases "files s EF_KEY_DEV = Some []")
    case True
    then show ?thesis using kd(3) by (auto simp: key_settled_def)
  next
    case False
    then have "files s1 EF_KEY_DEV = files s EF_KEY_DEV" using kd(2) by (auto simp: fills_def)
    then show ?thesis using assms(2) keys_store_step(1) [OF kd(1)] by (simp add: key_settled_def)
  qed
  note cd = scan_certdev_fills [OF assms(1) settled assms(7)]
  define s3 where "s3 = scan_counter k s2"
  define s4 where "s4 = scan_tokens k s3"
  define s5 where "s5 = scan_rest k s4"
  have f3: "fills {EF_COUNTER} s2 s3" unfolding s3_def by (rule scan_counter_fills [OF k(1)])
  have st3: "store_step s2 s3" unfolding s3_def by (rule scan_counter_step)
  have tok: "files s3 EF_AUTHTOKEN \<noteq> None" "files s3 EF_PAUTHTOKEN \<noteq> None"
    using assms(4,5) kd(2) cd f3 unfolding fills_def by (metis option.distinct(1))+
  note f4 = scan_tokens_fills [OF k tok, folded s4_def]
  have f5: "fills {EF_LARGEBLOB, EF_DEV_STATE} s4 s5" unfolding s5_def by (rule scan_rest_fills [OF k])
  have st5: "paut s5 = paut s4 \<and> ppaut s5 = ppaut s4 \<and> has_keydev_dec s5 = has_keydev_dec s4"
    using keys_store_step [OF scan_rest_step [of s4 k]] by (simp add: s5_def)
  have hk4: "has_keydev_dec s4 = has_keydev_dec s3" unfolding s4_def by (rule scan_tokens_keydev)
  have t: "files t = files s5" "paut t = paut s5" "ppaut t = ppaut s5" "has_keydev_dec t = has_keydev_dec s5"
    by (simp_all add: t_def s5_def s4_def s3_def flash_commit_def)
  have "fills (((({EF_KEY_DEV} \<union> {EF_EE_DEV}) \<union> {EF_COUNTER}) \<union> {EF_AUTHTOKEN, EF_PAUTHTOKEN}) \<union> {EF_LARGEBLOB, EF_DEV_STATE}) s s5"
    using fills_trans [OF fills_trans [OF fills_trans [OF fills_trans [OF kd(2)]]]] cd f3 f4 f5 by blast
  moreover have "((({EF_KEY_DEV} \<union> {EF_EE_DEV}) \<union> {EF_COUNTER}) \<union> {EF_AUTHTOKEN, EF_PAUTHTOKEN}) \<union> {EF_LARGEBLOB, EF_DEV_STATE} = static_files"
    by (auto simp: static_files_def)
  ultimately have "fills static_files s s5" by simp
  then show "fills static_files s t" using t(1) by (simp add: fills_def)
  show "Some (paut_data (paut t)) = files t EF_AUTHTOKEN" "Some (ppaut_data (ppaut t)) = files t EF_PAUTHTOKEN"
    using f4 f5 st5 t by (simp_all add: fills_def)
  have "files s3 EF_KEY_DEV = files s2 EF_KEY_DEV" using f3 by (auto simp: fills_def)
  moreover have "files s4 EF_KEY_DEV = files s3 EF_KEY_DEV" using f4 by (auto simp: fills_def)
  moreover have "files s5 EF_KEY_DEV = files s4 EF_KEY_DEV" using f5 by (auto simp: fills_def)
  ultimately show "files t EF_KEY_DEV = files s1 EF_KEY_DEV" using t cd by simp
  show "has_keydev_dec t = has_keydev_dec s"
    using t st5 hk4 keys_store_step(1) [OF st3] cd keys_store_step(1) [OF kd(1)] by simp
qed

lemma scan_certdev_stops:
  assumes "scan_reliable k" and "scan_certdev k s = (False, r, t)"
  shows "r \<noteq> PICOKEYS_OK"
proof -
  have "fst (x509_create_cert k kp n u) \<noteq> 0" for kp n and u :: "'a device_scheme"
    using assms(1) by (auto simp: x509_create_cert_def scan_reliable_def Let_def split: prod.splits) (metis fst_conv)+
  then show ?thesis
    using assms(2) by (auto simp: scan_certdev_def rc_of_int_def Let_def split: prod.splits if_splits) (metis fst_conv)+
qed

lemma scan_again:
  assumes "\<forall>f \<in> static_files. files t f \<noteq> Some []" and "scan_reliable k" and "files t EF_AUTHTOKEN \<noteq> None" and "files t EF_PAUTHTOKEN \<noteq> None"
  shows "\<exists>u. scan_files_fido k t = (PICOKEYS_OK, u) \<and> files u = files t \<and>
      Some (paut_data (paut u)) = files t EF_AUTHTOKEN \<and> Some (ppaut_data (ppaut u)) = files t EF_PAUTHTOKEN"
proof -
  have full: "file_search t f = None \<or> file_has_data t (file_search t f)" if "f \<in> static_files" for f
  proof (cases "files t f")
    case (Some d)
    with assms(1) that show ?thesis by (cases d) auto
  qed (simp add: file_search_def)
  have 1: "scan_keydev k t = (PICOKEYS_OK, t)"
    using full [of EF_KEY_DEV] by (auto simp: scan_keydev_def static_files_def Let_def simp del: file_search_data)
  obtain s2 where 2: "scan_certdev k t = (True, PICOKEYS_OK, s2)" and f2: "files s2 = files t"
  proof (cases "file_search t EF_EE_DEV")
    case None
    then show ?thesis using that [of t] by (simp add: scan_certdev_def)
  next
    case (Some f)
    then have d: "file_has_data t (file_search t EF_EE_DEV)" "file_search t EF_EE_DEV \<noteq> None"
      using full [of EF_EE_DEV] by (simp_all add: static_files_def del: file_search_data)
    show ?thesis
      by (rule that [of "t\<lparr>certdev_sha256 := snd (sdk_digest k MD_SHA256 (file_get_data t (file_search t EF_EE_DEV)))\<rparr>"])
        (simp_all add: scan_certdev_def Let_def d del: file_search_data)
  qed
  have k: "storable k" "random_law k" using assms(2) by (simp_all add: scan_reliable_def)
  have e: "\<forall>f \<in> static_files. files s2 f \<noteq> Some []" using assms(1) f2 by simp
  have f3: "files (scan_counter k s2) = files t"
    using fills_full [OF scan_counter_fills [OF k(1), of s2]] e f2 by (simp add: static_files_def)
  note tok = scan_tokens_fills [OF k, of "scan_counter k s2"]
  have f4: "files (scan_tokens k (scan_counter k s2)) = files t"
    using fills_full [of "{EF_AUTHTOKEN, EF_PAUTHTOKEN}" "scan_counter k s2"] tok e f2 f3 assms(3,4) by (simp add: static_files_def)
  have f5: "files (scan_rest k (scan_tokens k (scan_counter k s2))) = files t"
    using fills_full [OF scan_rest_fills [OF k, of "scan_tokens k (scan_counter k s2)"]] e f2 f4 by (simp add: static_files_def)
  show ?thesis
    using 1 2 f3 f4 f5 tok assms(3,4) keys_store_step [OF scan_rest_step [of "scan_tokens k (scan_counter k s2)" k]]
    by (simp add: scan_files_fido_def flash_commit_def)
qed

text \<open>
  C32: The initial scan of an authenticator whose device key is not locked fills what is empty and
  nothing else. On a storage that works, when it succeeds, every static file that exists and was
  empty has data after \<open>scan_files_fido\<close>, every other file is as it was, the
  two tokens in memory are those in the files, a device key that was just created loads as the
  key that was generated, and a second scan changes no file and no token.
\<close>

theorem scan_fills_missing:
  assumes "scan_reliable k" and "key_settled s" and "\<not> file_has_data s (file_search s EF_KEY_DEV_ENC)"
    and "files s EF_AUTHTOKEN \<noteq> None" and "files s EF_PAUTHTOKEN \<noteq> None" and "scan_files_fido k s = (PICOKEYS_OK, t)"
  shows "(\<forall>f. if f \<in> static_files \<and> files s f = Some [] then \<exists>d. d \<noteq> [] \<and> files t f = Some d else files t f = files s f) \<and>
    Some (paut_data (paut t)) = files t EF_AUTHTOKEN \<and> Some (ppaut_data (ppaut t)) = files t EF_PAUTHTOKEN \<and>
    (files s EF_KEY_DEV = Some [] \<and> \<not> has_keydev_dec s \<longrightarrow>
      (\<exists>kp d. sdk_ec_genkey k (tick s) MBEDTLS_ECP_DP_SECP256R1 = (0, kp) \<and> sdk_ec_write_key k kp 32 = (0, 32, d) \<and>
        load_keydev k z t = (PICOKEYS_OK, fit 32 d, t))) \<and>
    (\<exists>u. scan_files_fido k t = (PICOKEYS_OK, u) \<and> files u = files t \<and>
      paut_data (paut u) = paut_data (paut t) \<and> ppaut_data (ppaut u) = ppaut_data (ppaut t))"
proof -
  obtain r1 s1 where 1: "scan_keydev k s = (r1, s1)" by fastforce
  obtain go r2 s2 where 2: "scan_certdev k s1 = (go, r2, s2)" by (metis prod_cases3)
  have r1: "r1 = PICOKEYS_OK" and go: "go" and t: "t = flash_commit (scan_rest k (scan_tokens k (scan_counter k s2)))"
    using assms(6) 1 2 scan_certdev_stops [OF assms(1), of s1 r2 s2] by (auto simp: scan_files_fido_def split: if_splits)
  note st = scan_stages [OF assms(1-5) 1 [unfolded r1] 2 [unfolded eqTrueI [OF go]], folded t]
  note kd = scan_keydev_fills [OF assms(1,3) 1 [unfolded r1]]
  have key: "\<exists>kp d. sdk_ec_genkey k (tick s) MBEDTLS_ECP_DP_SECP256R1 = (0, kp) \<and> sdk_ec_write_key k kp 32 = (0, 32, d) \<and>
      load_keydev k z t = (PICOKEYS_OK, fit 32 d, t)" if n: "files s EF_KEY_DEV = Some []" "\<not> has_keydev_dec s"
    using kd(3) [OF n(1)] load_plain_keydev [of t _ k _ z] st(4,5) n(2) by fastforce
  have "files t EF_AUTHTOKEN \<noteq> None" "files t EF_PAUTHTOKEN \<noteq> None" using st(2,3) by (metis option.distinct(1))+
  then obtain u where u: "scan_files_fido k t = (PICOKEYS_OK, u)" "files u = files t"
      "Some (paut_data (paut u)) = files t EF_AUTHTOKEN" "Some (ppaut_data (ppaut u)) = files t EF_PAUTHTOKEN"
    using scan_again [of t k] fills_done [OF st(1)] assms(1) by blast
  have again: "\<exists>u. scan_files_fido k t = (PICOKEYS_OK, u) \<and> files u = files t \<and>
      paut_data (paut u) = paut_data (paut t) \<and> ppaut_data (ppaut u) = ppaut_data (ppaut t)"
    using u st(2,3) by (metis option.inject)
  show ?thesis using st(1-3) key again unfolding fills_def by blast
qed

definition ref_device :: "files \<Rightarrow> device" where
  "ref_device fs = resident.extend (ref_resident fs) \<lparr>certdev_sha256 = []\<rparr>"

lemma ref_device_sel [simp]: "files (ref_device fs) = fs" "has_keydev_dec (ref_device fs) = False"
  by (simp_all add: ref_device_def resident.defs ref_resident_def fido.defs ref_fido_def)

lemma ref_scan_reliable: "scan_reliable ref_sdk"
  by (simp add: scan_reliable_def storable_def ref_put_law ref_aes_law ref_random_law accepts_def ref_put_def)

lemma scan_fills_missing_witness:
  "\<exists>t kp d. scan_files_fido ref_sdk (ref_device (\<lambda>f. if f \<in> static_files then Some [] else None)) = (PICOKEYS_OK, t) \<and>
     sdk_ec_genkey ref_sdk (tick (ref_device (\<lambda>f. if f \<in> static_files then Some [] else None))) MBEDTLS_ECP_DP_SECP256R1 = (0, kp) \<and>
     sdk_ec_write_key ref_sdk kp 32 = (0, 32, d) \<and> load_keydev ref_sdk [] t = (PICOKEYS_OK, fit 32 d, t)"
proof -
  let ?s = "ref_device (\<lambda>f. if f \<in> static_files then Some [] else None)"
  have settled: "key_settled ?s" by (simp add: key_settled_def static_files_def)
  have enc: "\<not> file_has_data ?s (file_search ?s EF_KEY_DEV_ENC)" by (simp add: static_files_def)
  obtain r s1 where k1: "scan_keydev ref_sdk ?s = (r, s1)" by fastforce
  have r: "r = PICOKEYS_OK"
    using k1 enc by (auto simp: scan_keydev_def rc_of_int_def Let_def split: prod.splits if_splits)
  note kd = scan_keydev_fills [OF ref_scan_reliable enc k1 [unfolded r]]
  obtain c where c: "files s1 EF_KEY_DEV = Some (0x01 # c)" "length c = 32"
    using kd(3) by (auto simp: static_files_def)
  have hk: "\<not> has_keydev_dec s1" using keys_store_step(1) [OF kd(1)] by simp
  have ld: "load_keydev ref_sdk (replicate 32 0) s1 = (PICOKEYS_OK, rev c, s1)"
    by (rule load_plain_keydev [OF c hk]) simp
  have ee: "file_search s1 EF_EE_DEV = Some EF_EE_DEV" "\<not> file_has_data s1 (Some EF_EE_DEV)"
    using kd(2) by (auto simp: fills_def file_reads static_files_def split: if_splits option.splits)
  obtain go r2 s2 where k2: "scan_certdev ref_sdk s1 = (go, r2, s2)" by (metis prod_cases3)
  have go: "go"
    using k2 by (auto simp: scan_certdev_def ee ld x509_create_cert_def Let_def split: prod.splits if_splits)
  obtain t where t: "scan_files_fido ref_sdk ?s = (PICOKEYS_OK, t)"
    using k1 k2 r go by (simp add: scan_files_fido_def)
  show ?thesis
    using scan_fills_missing [OF ref_scan_reliable settled enc _ _ t, of "[]"] t by (auto simp: static_files_def)
qed

subsection \<open>Curves\<close>

text \<open>
  The two curve maps agree except for the Brainpool curves. Mapping a curve of the protocol
  to mbedTLS and back gives the curve where it is supported, and zero for the three Brainpool
  curves, for which keys can be loaded all the same.
\<close>

theorem curve_round_trip:
  "mbedtls_curve_to_fido eddsa (fido_curve_to_mbedtls eddsa c) =
     (if c \<in> {1, 2, 3, 4, 5, 8} \<or> eddsa \<and> c \<in> {6, 7} then c else 0) \<and>
   (fido_curve_to_mbedtls eddsa c \<noteq> MBEDTLS_ECP_DP_NONE \<longleftrightarrow> c \<in> {1, 2, 3, 4, 5, 8, 9, 10, 11} \<or> eddsa \<and> c \<in> {6, 7})"
  by (simp add: mbedtls_curve_to_fido_def fido_curve_to_mbedtls_def)

end
