(* ===== verification/Otp_Slots.thy ===== *)
theory Otp_Slots
  imports Fido_Keys Management Oath_Calculate
begin

text \<open>
  The state of the OTP applet (\<open>src/fido/otp.c\<close>), its slots with their encryption at rest, the
  migration of plain slots, the checksum of configurations and frames, and the encoding of
  what is typed.

  A slot configuration in memory is a packed C structure read through a pointer: the record
  \<open>otp_config\<close> with the view \<open>otp_config_at\<close> of a buffer and its bytes \<open>otp_config_bytes\<close>.
\<close>

abbreviation (input) EF_OTP_SLOT1 :: fid where "EF_OTP_SLOT1 \<equiv> 0xBB00"
abbreviation (input) EF_OTP_SLOT2 :: fid where "EF_OTP_SLOT2 \<equiv> 0xBB01"
abbreviation (input) FIXED_SIZE :: nat where "FIXED_SIZE \<equiv> 16"
abbreviation (input) UID_SIZE :: nat where "UID_SIZE \<equiv> 6"
abbreviation (input) KEY_SIZE :: nat where "KEY_SIZE \<equiv> 16"
abbreviation (input) ACC_CODE_SIZE :: nat where "ACC_CODE_SIZE \<equiv> 6"
abbreviation (input) otp_config_size :: nat where "otp_config_size \<equiv> 52"
abbreviation (input) OTP_SLOT_PLAIN_MAX :: nat where "OTP_SLOT_PLAIN_MAX \<equiv> 60"
abbreviation (input) OTP_SLOT_SECURE_OVERHEAD :: nat where "OTP_SLOT_SECURE_OVERHEAD \<equiv> 34"
abbreviation (input) OATH_HOTP :: byte where "OATH_HOTP \<equiv> 0x40"
abbreviation (input) CHAL_RESP :: byte where "CHAL_RESP \<equiv> 0x40"
abbreviation (input) APPEND_CR :: byte where "APPEND_CR \<equiv> 0x20"
abbreviation (input) SHORT_TICKET :: byte where "SHORT_TICKET \<equiv> 0x02"
abbreviation (input) STATIC_TICKET :: byte where "STATIC_TICKET \<equiv> 0x20"
abbreviation (input) HMAC_LT64 :: byte where "HMAC_LT64 \<equiv> 0x04"
abbreviation (input) CHAL_BTN_TRIG :: byte where "CHAL_BTN_TRIG \<equiv> 0x08"
abbreviation (input) CHAL_YUBICO :: byte where "CHAL_YUBICO \<equiv> 0x20"
abbreviation (input) CHAL_HMAC :: byte where "CHAL_HMAC \<equiv> 0x22"
abbreviation (input) OATH_HOTP8 :: byte where "OATH_HOTP8 \<equiv> 0x02"

subsection \<open>State\<close>

text \<open>
  What the applet types (\<open>add_keyboard_buffer\<close>, \<open>append_keyboard_buffer\<close>) is the list
  \<open>keyboard\<close>. The pointer \<open>apdu.rdata\<close>, which \<open>res_APDU\<close> stands for, points to the response
  buffer of the transport, to \<open>otp_frame_tx\<close> or to the HID report that is being filled.
\<close>

datatype key_event = Add_Keyboard bytes bool | Append_Keyboard bytes

datatype response_pointer = RES_APDU_BUFFER | OTP_FRAME_TX | HID_REPORT

record otp = device +
  config_seq :: byte
  scanned :: bool
  session_counter :: bytes
  status_byte :: byte
  is_otp :: bool
  keyboard :: "key_event list"
  rdata :: response_pointer
  hid_report :: bytes
  otp_frame_rx :: bytes
  otp_frame_tx :: bytes
  otp_exp_seq :: byte
  otp_curr_seq :: byte
  kb_send_size :: nat

record otp_config =
  fixed_data :: bytes
  uid :: bytes
  aes_key :: bytes
  acc_code :: bytes
  fixed_size :: byte
  ext_flags :: byte
  tkt_flags :: byte
  cfg_flags :: byte
  rfu :: bytes
  crc :: u16

definition otp_config_at :: "bytes \<Rightarrow> otp_config" where
  "otp_config_at d =
     \<lparr>fixed_data = take FIXED_SIZE d, uid = take UID_SIZE (drop 16 d), aes_key = take KEY_SIZE (drop 22 d),
      acc_code = take ACC_CODE_SIZE (drop 38 d), fixed_size = byte_at d 44, ext_flags = byte_at d 45,
      tkt_flags = byte_at d 46, cfg_flags = byte_at d 47, rfu = [byte_at d 48, byte_at d 49],
      crc = ucast (byte_at d 50) OR push_bit 8 (ucast (byte_at d 51))\<rparr>"

definition otp_config_bytes :: "otp_config \<Rightarrow> bytes" where
  "otp_config_bytes c =
     fixed_data c @ uid c @ aes_key c @ acc_code c @ [fixed_size c, ext_flags c, tkt_flags c, cfg_flags c] @
     rfu c @ [ucast (crc c), ucast (drop_bit 8 (crc c))]"

subsection \<open>Slots at rest\<close>

definition otp_slot_magic :: bytes where
  "otp_slot_magic = [0x50, 0x4b, 0x4f, 0x54, 0x50]"

definition otp_slot_is_secure :: "bytes \<Rightarrow> nat \<Rightarrow> bool" where
  "otp_slot_is_secure d len \<longleftrightarrow>
     len \<ge> OTP_SLOT_SECURE_OVERHEAD + otp_config_size \<and> take 5 d = otp_slot_magic \<and> d ! 5 = 1"

definition otp_slot_derive_key :: "sdk \<Rightarrow> fid \<Rightarrow> rc \<times> bytes" where
  "otp_slot_derive_key k f =
     (let info = [0x4f, 0x54, 0x50, 0x2f, 0x53, 0x4c, 0x4f, 0x54, ucast (drop_bit 8 f), ucast f];
          (ret, key) = sdk_hkdf k MD_SHA256 (sdk_serial_hash k) (sdk_kbase k) info 32
      in (if ret = 0 then PICOKEYS_OK else PICOKEYS_EXEC_ERROR, key))"

text \<open>The contents come back with their length; they are empty after an error.\<close>

definition otp_slot_load :: "sdk \<Rightarrow> fid option \<Rightarrow> 'a plat_scheme \<Rightarrow> rc \<times> bytes" where
  "otp_slot_load k ef s =
     (if \<not> file_has_data s ef then (PICOKEYS_ERR_FILE_NOT_FOUND, [])
      else let stored = file_get_data s ef; stored_len = file_get_size s ef mod 65536
      in if \<not> otp_slot_is_secure stored stored_len
         then if stored_len \<noteq> otp_config_size \<and> stored_len \<noteq> OTP_SLOT_PLAIN_MAX then (PICOKEYS_WRONG_DATA, [])
              else (PICOKEYS_OK, take stored_len stored)
         else let decrypted_len = stored_len - OTP_SLOT_SECURE_OVERHEAD
         in if decrypted_len \<noteq> otp_config_size \<and> decrypted_len \<noteq> OTP_SLOT_PLAIN_MAX then (PICOKEYS_WRONG_DATA, [])
            else let (ret, key) = otp_slot_derive_key k (the ef);
                     (ret, plain) = (if ret = PICOKEYS_OK
                                     then sdk_aead_dec k key (take (stored_len - 6) (drop 6 stored)) PIN_KDF_V2
                                     else (ret, []))
                 in if ret \<noteq> PICOKEYS_OK then (PICOKEYS_EXEC_ERROR, []) else (PICOKEYS_OK, fit decrypted_len plain))"

definition otp_slot_store :: "sdk \<Rightarrow> fid option \<Rightarrow> bytes \<Rightarrow> 'a plat_scheme \<Rightarrow> rc \<times> 'a plat_scheme" where
  "otp_slot_store k ef plain s =
     (case ef of
        None \<Rightarrow> (PICOKEYS_WRONG_DATA, s)
      | Some f \<Rightarrow>
          if length plain \<noteq> otp_config_size \<and> length plain \<noteq> OTP_SLOT_PLAIN_MAX then (PICOKEYS_WRONG_DATA, s)
          else let (ret, key) = otp_slot_derive_key k f
               in if ret \<noteq> PICOKEYS_OK then (ret, s)
                  else let (ret, ct) = sdk_aead_enc k (tick s) key plain PIN_KDF_V2; s = s\<lparr>tick := Suc (tick s)\<rparr>
                       in if ret \<noteq> PICOKEYS_OK then (ret, s)
                          else file_put_data k ef (otp_slot_magic @ [1] @ fit (length plain + 28) ct) s)"

text \<open>The four slots.\<close>

definition otp_slots :: "fid list" where
  "otp_slots = map (\<lambda>i. EF_OTP_SLOT1 + word_of_nat i) [0..<4]"

fun migrate_slots :: "sdk \<Rightarrow> fid list \<Rightarrow> bool \<Rightarrow> 'a plat_scheme \<Rightarrow> rc \<times> bool \<times> 'a plat_scheme" where
  "migrate_slots k [] changed s = (PICOKEYS_OK, changed, s)"
| "migrate_slots k (f # fs) changed s =
     (let ef = file_search s f
      in if \<not> file_has_data s ef then migrate_slots k fs changed s
         else let secure = otp_slot_is_secure (file_get_data s ef) (file_get_size s ef mod 65536);
                  (ret, plain) = otp_slot_load k ef s;
                  (ret, stored, s) = (if ret = PICOKEYS_OK \<and> \<not> secure
                                      then let (ret, s) = otp_slot_store k ef plain s in (ret, ret = PICOKEYS_OK, s)
                                      else (ret, False, s))
              in if ret \<noteq> PICOKEYS_OK then (ret, changed \<or> stored, s)
                 else migrate_slots k fs (changed \<or> stored) s)"

definition otp_migrate_slots :: "sdk \<Rightarrow> 'a plat_scheme \<Rightarrow> rc \<times> 'a plat_scheme" where
  "otp_migrate_slots k s =
     (let (ret, changed, s) = migrate_slots k otp_slots False s
      in if ret \<noteq> PICOKEYS_OK then (ret, s) else (PICOKEYS_OK, if changed then flash_commit s else s))"

subsection \<open>Power up\<close>

definition is_static_ticket :: "otp_config \<Rightarrow> bool" where
  "is_static_ticket c \<longleftrightarrow> cfg_flags c AND SHORT_TICKET \<noteq> 0 \<or> cfg_flags c AND STATIC_TICKET \<noteq> 0"

text \<open>
  The use counter of a slot that types Yubico passwords is advanced once per power up. The
  boolean says that the loop came to its end.
\<close>

definition otp_counter :: "sdk \<Rightarrow> bytes \<Rightarrow> u16" where
  "otp_counter k d = sdk_get_u16 k (drop otp_config_size d)"

definition set_otp_counter :: "sdk \<Rightarrow> u16 \<Rightarrow> bytes \<Rightarrow> bytes" where
  "set_otp_counter k c d = take otp_config_size d @ sdk_put_u16 k c @ drop (otp_config_size + 2) d"

fun bump_counters :: "sdk \<Rightarrow> fid list \<Rightarrow> 'a plat_scheme \<Rightarrow> bool \<times> 'a plat_scheme" where
  "bump_counters k [] s = (True, s)"
| "bump_counters k (f # fs) s =
     (let ef = file_search s f; (ret, d) = otp_slot_load k ef s; c = otp_config_at d; counter = otp_counter k d + 1
      in if ret \<noteq> PICOKEYS_OK then bump_counters k fs s
         else if length d = OTP_SLOT_PLAIN_MAX \<and> tkt_flags c AND OATH_HOTP = 0 \<and> \<not> is_static_ticket c \<and> counter \<le> 0x7fff
         then let (ret, s) = otp_slot_store k ef (set_otp_counter k counter d) s
              in if ret \<noteq> PICOKEYS_OK then (False, s) else bump_counters k fs s
         else bump_counters k fs s)"

definition init_otp :: "sdk \<Rightarrow> 'a otp_scheme \<Rightarrow> 'a otp_scheme" where
  "init_otp k s =
     (if scanned s then s
      else let s = scan_all k s; (ret, s) = otp_migrate_slots k s
           in if ret \<noteq> PICOKEYS_OK then s
              else let (done, s) = bump_counters k otp_slots s
                   in if \<not> done then s else flash_commit (s\<lparr>scanned := True\<rparr>))"

subsection \<open>Checksum and encoding\<close>

definition crc_bit :: "u16 \<Rightarrow> u16" where
  "crc_bit c = (if c AND 1 = 1 then drop_bit 1 c XOR 0x8408 else drop_bit 1 c)"

definition crc_byte :: "u16 \<Rightarrow> byte \<Rightarrow> u16" where
  "crc_byte c b = (crc_bit ^^ 8) (c XOR ucast b)"

definition calculate_crc :: "bytes \<Rightarrow> u16" where
  "calculate_crc d = foldl crc_byte 0xFFFF d"

definition check_crc :: "bytes \<Rightarrow> bool" where
  "check_crc d \<longleftrightarrow> calculate_crc (take otp_config_size d) = 0xF0B8"

text \<open>The letters \<open>cbdefghijklnrtuv\<close>.\<close>

definition modhex_tab :: bytes where
  "modhex_tab = [0x63, 0x62, 0x64, 0x65, 0x66, 0x67, 0x68, 0x69, 0x6a, 0x6b, 0x6c, 0x6e, 0x72, 0x74, 0x75, 0x76]"

fun encode_modhex :: "bytes \<Rightarrow> bytes" where
  "encode_modhex [] = []"
| "encode_modhex (b # d) = modhex_tab ! unat (drop_bit 4 b) # modhex_tab ! unat (b AND 0xf) # encode_modhex d"

text \<open>The decimal digits \<open>sprintf\<close> writes for a number that fits the width.\<close>

fun decimal :: "nat \<Rightarrow> nat \<Rightarrow> bytes" where
  "decimal 0 v = []"
| "decimal (Suc n) v = decimal n (v div 10) @ [0x30 + word_of_nat (v mod 10)]"

end
