(* ===== verification/Otp_Commands.thy ===== *)
theory Otp_Commands
  imports Otp_Slots Dispatch
begin

text \<open>
  The operations of the OTP applet (\<open>src/fido/otp.c\<close>): typing a password at a button press, the
  status, the commands that configure, update, swap and use the slots, and the transfer of
  frames over the reports of the keyboard interface.
\<close>

subsection \<open>Typing\<close>

definition add_keyboard_buffer :: "bytes \<Rightarrow> bool \<Rightarrow> 'a otp_scheme \<Rightarrow> 'a otp_scheme" where
  "add_keyboard_buffer d enter s = s\<lparr>keyboard := keyboard s @ [Add_Keyboard d enter]\<rparr>"

definition append_keyboard_buffer :: "bytes \<Rightarrow> 'a otp_scheme \<Rightarrow> 'a otp_scheme" where
  "append_keyboard_buffer d s = s\<lparr>keyboard := keyboard s @ [Append_Keyboard d]\<rparr>"

definition append_cr :: "otp_config \<Rightarrow> bytes \<Rightarrow> 'a otp_scheme \<Rightarrow> 'a otp_scheme" where
  "append_cr c cr s = (if tkt_flags c AND APPEND_CR \<noteq> 0 then append_keyboard_buffer cr s else s)"

text \<open>
  The branch for HOTP. The second byte of the key buffer is never set in the code; it is zero
  here, and nothing that is typed or stored depends on it.
\<close>

definition hotp_factor :: "sdk \<Rightarrow> bytes \<Rightarrow> u64" where
  "hotp_factor k d =
     (let imf = (if length d = OTP_SLOT_PLAIN_MAX then sdk_get_u64 k (drop otp_config_size d) else 0)
      in if imf = 0 then ucast (sdk_get_u16 k (drop 4 (uid (otp_config_at d)))) else imf)"

definition type_hotp :: "sdk \<Rightarrow> fid option \<Rightarrow> bytes \<Rightarrow> 'a otp_scheme \<Rightarrow> 'a otp_scheme" where
  "type_hotp k ef d s =
     (let c = otp_config_at d; imf = hotp_factor k d;
          (ret, s) = calculate_oath k 1 ([0x01, 0] @ aes_key c) (sdk_put_u64 k imf) (s\<lparr>res_APDU := []\<rparr>);
          s = (if ret = PICOKEYS_OK
               then let eight = cfg_flags c AND OATH_HOTP8 \<noteq> 0;
                        number = unat (sdk_get_u16 k (drop 2 (res_APDU s))) mod (if eight then 100000000 else 1000000);
                        s = (if eight then add_keyboard_buffer (decimal 8 number) True s
                             else add_keyboard_buffer (decimal 6 number) True s);
                        (_, s) = otp_slot_store k ef (take otp_config_size d @ sdk_put_u64 k (imf + 1)) s
                    in flash_commit s
               else s)
      in append_cr c [0x0d] s)"

definition type_static :: "bytes \<Rightarrow> 'a otp_scheme \<Rightarrow> 'a otp_scheme" where
  "type_static d s =
     append_cr (otp_config_at d) [0x28] (add_keyboard_buffer (take (FIXED_SIZE + UID_SIZE + KEY_SIZE) d) False s)"

text \<open>The sixteen bytes of a Yubico password before encryption.\<close>

definition token_body :: "sdk \<Rightarrow> otp_config \<Rightarrow> u16 \<Rightarrow> u32 \<Rightarrow> byte \<Rightarrow> bytes \<Rightarrow> bytes" where
  "token_body k c counter ts session rnd =
     (let body = uid c @ sdk_put_u16_le k counter @
                 [ucast (ts AND 0xff), ucast (drop_bit 8 ts), ucast (drop_bit 16 ts), session] @ rnd
      in body @ sdk_put_u16_le k (NOT (calculate_crc body)))"

text \<open>
  The array \<open>session_counter\<close> has two entries, the slots are four. Past its end an entry
  reads as zero here and a write to it is lost.
\<close>

definition type_yubico :: "sdk \<Rightarrow> nat \<Rightarrow> fid option \<Rightarrow> bytes \<Rightarrow> 'a otp_scheme \<Rightarrow> 'a otp_scheme" where
  "type_yubico k i ef d s =
     (let c = otp_config_at d;
          counter = (if length d = OTP_SLOT_PLAIN_MAX then otp_counter k d else 0);
          ts = millis s div 1000;
          (update_counter, counter) = (if counter = 0 then (True, 1) else (False, counter));
          session = byte_at (session_counter s) i;
          (rnd, s) = random_fill_buffer k 2 s;
          body = token_body k c counter (drop_bit 1 ts) session rnd;
          otpk = take 6 (fixed_data c) @ fit 16 (snd (sdk_aes_ecb k (aes_key c) body));
          s = append_cr c [0x0d] (add_keyboard_buffer (encode_modhex otpk) True s);
          session = session + 1;
          s = s\<lparr>session_counter := (session_counter s)[i := session]\<rparr>;
          (update_counter, counter) = (if session = 0 then (update_counter \<or> counter + 1 \<le> 0x7fff, counter + 1)
                                       else (update_counter, counter))
      in if update_counter
         then let (_, s) = otp_slot_store k ef (set_otp_counter k counter (fit OTP_SLOT_PLAIN_MAX d)) s in flash_commit s
         else s)"

definition otp_button_pressed :: "sdk \<Rightarrow> byte \<Rightarrow> 'a otp_scheme \<Rightarrow> nat \<times> 'a otp_scheme" where
  "otp_button_pressed k slot s =
     (let s = init_otp k s
      in if \<not> cap_supported k s CAP_OTP then (3, s)
         else let ef = file_search s (EF_OTP_SLOT1 + ucast slot - 1)
         in if \<not> file_has_data s ef then (1, s)
         else let (ret, d) = otp_slot_load k ef s; c = otp_config_at d
         in if ret \<noteq> PICOKEYS_OK then (1, s)
         else if cfg_flags c AND CHAL_YUBICO \<noteq> 0 \<and> tkt_flags c AND CHAL_RESP \<noteq> 0 then (2, s)
         else (0, if tkt_flags c AND OATH_HOTP \<noteq> 0 then type_hotp k ef d s
                  else if is_static_ticket c then type_static d s
                  else type_yubico k (unat slot - 1) ef d s))"

subsection \<open>Status\<close>

definition slot_opts :: "sdk \<Rightarrow> fid \<Rightarrow> byte \<Rightarrow> byte \<Rightarrow> 'a plat_scheme \<Rightarrow> byte" where
  "slot_opts k f valid touch s =
     (let ef = file_search s f
      in if \<not> file_has_data s ef then 0
         else let (ret, d) = otp_slot_load k ef s; c = otp_config_at d
              in if ret \<noteq> PICOKEYS_OK then 0
                 else valid OR (if tkt_flags c AND CHAL_RESP = 0 \<or> cfg_flags c AND CHAL_BTN_TRIG \<noteq> 0 then touch else 0))"

definition status_bytes :: "sdk \<Rightarrow> 'a otp_scheme \<Rightarrow> bytes" where
  "status_bytes k s =
     [PICO_FIDO_VERSION_MAJOR, PICO_FIDO_VERSION_MINOR, 0, config_seq s,
      slot_opts k EF_OTP_SLOT1 0x01 0x04 s OR slot_opts k EF_OTP_SLOT2 0x02 0x08 s, 0, status_byte s]"

text \<open>Writing behind the end of the response, where \<open>apdu.rdata\<close> points.\<close>

definition poke_response :: "nat \<Rightarrow> bytes \<Rightarrow> 'a otp_scheme \<Rightarrow> 'a otp_scheme" where
  "poke_response off d s =
     (case rdata s of
        RES_APDU_BUFFER \<Rightarrow> s
      | OTP_FRAME_TX \<Rightarrow> s\<lparr>otp_frame_tx := splice (otp_frame_tx s) (off, length d) d\<rparr>
      | HID_REPORT \<Rightarrow> s\<lparr>hid_report := splice (hid_report s) (off, length d) d\<rparr>)"

definition otp_status :: "sdk \<Rightarrow> bool \<Rightarrow> 'a otp_scheme \<Rightarrow> sw \<times> 'a otp_scheme" where
  "otp_status k otp s =
     (let s = (if \<not> scanned s then (scan_all k s)\<lparr>scanned := True\<rparr> else s); d = status_bytes k s
      in (SW_OK, if otp then (poke_response 1 d s)\<lparr>res_APDU := []\<rparr> else set_ne (s\<lparr>res_APDU := d\<rparr>)))"

fun status_ext_slots :: "sdk \<Rightarrow> nat list \<Rightarrow> 'a otp_scheme \<Rightarrow> 'a otp_scheme" where
  "status_ext_slots k [] s = s"
| "status_ext_slots k (i # is) s =
     (let ef = file_search s (EF_OTP_SLOT1 + word_of_nat i); (ret, d) = otp_slot_load k ef s; c = otp_config_at d
      in if \<not> file_has_data s ef \<or> ret \<noteq> PICOKEYS_OK then status_ext_slots k is s
         else let body = [0xA0, 2, tkt_flags c, cfg_flags c] @
                (if cfg_flags c AND CHAL_YUBICO \<noteq> 0 \<and> tkt_flags c AND CHAL_RESP \<noteq> 0 then []
                 else if tkt_flags c AND OATH_HOTP \<noteq> 0 then []
                 else if is_static_ticket c then []
                 else [0xC0, 6] @ take 6 (fixed_data c))
              in status_ext_slots k is (res_append ([0xB0 + word_of_nat i, word_of_nat (length body)] @ body) s))"

definition otp_status_ext :: "sdk \<Rightarrow> 'a otp_scheme \<Rightarrow> sw \<times> 'a otp_scheme" where
  "otp_status_ext k s = (SW_OK, status_ext_slots k [0..<4] s)"

definition otp_select :: "sdk \<Rightarrow> 'a otp_scheme \<Rightarrow> rc \<times> 'a otp_scheme" where
  "otp_select k s =
     (if cap_supported k s CAP_OTP
      then let (ret, s) = otp_migrate_slots k s
           in if ret \<noteq> PICOKEYS_OK then (ret, s)
              else let used = file_has_data s (file_search s EF_OTP_SLOT1) \<or> file_has_data s (file_search s EF_OTP_SLOT2);
                       s = s\<lparr>config_seq := if used then 1 else 0\<rparr>
                   in (PICOKEYS_OK, snd (otp_status k False s))
      else (PICOKEYS_ERR_FILE_NOT_FOUND, s))"

definition otp_unload :: rc where
  "otp_unload = PICOKEYS_OK"

subsection \<open>Configuring slots\<close>

definition otp_slot_offset_valid :: "byte \<Rightarrow> byte \<Rightarrow> bool" where
  "otp_slot_offset_valid p q =
     (if p = 0x01 \<or> p = 0x04 \<or> p = 0x20 \<or> p = 0x30 then q \<le> 3 else q = 0)"

text \<open>
  The commands work on \<open>apdu.data\<close> in place; over the keyboard interface that is
  \<open>otp_frame_rx\<close>, which keeps what they leave there.
\<close>

definition keep_request :: "bytes \<Rightarrow> 'a otp_scheme \<Rightarrow> 'a otp_scheme" where
  "keep_request d s =
     (if is_otp s then s\<lparr>otp_frame_rx := d @ drop (length d) (otp_frame_rx s)\<rparr> else s)"

text \<open>The contents of an occupied slot, when the request carries its access code.\<close>

definition otp_slot_access :: "sdk \<Rightarrow> apdu \<Rightarrow> fid option \<Rightarrow> 'a plat_scheme \<Rightarrow> sw + bytes" where
  "otp_slot_access k a ef s =
     (if nc a < otp_config_size + ACC_CODE_SIZE then Inl SW_WRONG_LENGTH
      else let (ret, current) = otp_slot_load k ef s
           in if ret \<noteq> PICOKEYS_OK then Inl SW_EXEC_ERROR
              else if acc_code (otp_config_at current) \<noteq> take ACC_CODE_SIZE (drop otp_config_size (nc_data a))
              then Inl SW_SECURITY_STATUS_NOT_SATISFIED
              else Inr current)"

definition config_acceptable :: "bytes \<Rightarrow> bool" where
  "config_acceptable d \<longleftrightarrow> rfu (otp_config_at d) = [0, 0] \<and> check_crc d"

definition next_config :: "sdk \<Rightarrow> 'a otp_scheme \<Rightarrow> sw \<times> 'a otp_scheme" where
  "next_config k s = otp_status k (is_otp s) (s\<lparr>config_seq := config_seq s + 1\<rparr>)"

definition otp_configure :: "sdk \<Rightarrow> apdu \<Rightarrow> 'a otp_scheme \<Rightarrow> sw \<times> 'a otp_scheme" where
  "otp_configure k a s =
     (if nc a < otp_config_size then (SW_WRONG_LENGTH, s)
      else if \<not> otp_slot_offset_valid (p1 a) (p2 a) then (SW_INCORRECT_P1P2, s)
      else let slot = (if p1 a = 0x01 then EF_OTP_SLOT1 else EF_OTP_SLOT2) + ucast (p2 a);
               (ef, s) = file_new k slot s
      in case (if file_has_data s ef then otp_slot_access k a ef s else Inr []) of
           Inl sw \<Rightarrow> (sw, s)
         | Inr _ \<Rightarrow>
             if list_ex (\<lambda>b. b \<noteq> 0) (take otp_config_size (nc_data a))
             then if \<not> config_acceptable (nc_data a) then (SW_WRONG_DATA, s)
                  else let plain = take otp_config_size (nc_data a) @ replicate 8 0; s = keep_request plain s;
                           (ret, s) = otp_slot_store k ef plain s
                       in if ret \<noteq> PICOKEYS_OK then (SW_EXEC_ERROR, s) else next_config k (flash_commit s)
             else let (_, s) = file_delete k ef s in next_config k s)"

text \<open>
  What an update writes: keys, identifiers and sizes stay, of the flags only those that may be
  updated change, the access code and the checksum are those of the request.
\<close>

definition merge_flags :: "byte \<Rightarrow> byte \<Rightarrow> byte \<Rightarrow> byte" where
  "merge_flags allowed old new = (old AND NOT allowed) OR (new AND allowed)"

definition merged_config :: "otp_config \<Rightarrow> otp_config \<Rightarrow> otp_config" where
  "merged_config old new =
     new\<lparr>fixed_data := fixed_data old, uid := uid old, aes_key := aes_key old, fixed_size := fixed_size old,
         ext_flags := merge_flags 0xff (ext_flags old) (ext_flags new),
         tkt_flags := merge_flags 0x3f (tkt_flags old) (tkt_flags new),
         cfg_flags := (if tkt_flags old AND CHAL_RESP = 0
                       then merge_flags 0x0c (cfg_flags old) (cfg_flags new) else cfg_flags old)\<rparr>"

definition otp_update :: "sdk \<Rightarrow> apdu \<Rightarrow> 'a otp_scheme \<Rightarrow> sw \<times> 'a otp_scheme" where
  "otp_update k a s =
     (if nc a < otp_config_size then (SW_WRONG_LENGTH, s)
      else if \<not> otp_slot_offset_valid (p1 a) (p2 a) then (SW_INCORRECT_P1P2, s)
      else if \<not> config_acceptable (nc_data a) then (SW_WRONG_DATA, s)
      else let slot = (if p1 a = 0x04 then EF_OTP_SLOT1 else EF_OTP_SLOT2) + ucast (p2 a); ef = file_search s slot
      in if \<not> file_has_data s ef then otp_status k (is_otp s) s
         else case otp_slot_access k a ef s of
           Inl sw \<Rightarrow> (sw, s)
         | Inr current \<Rightarrow>
             let config = otp_config_bytes (merged_config (otp_config_at current) (otp_config_at (nc_data a)));
                 s = keep_request config s;
                 (ret, s) = otp_slot_store k ef (config @ drop otp_config_size current) s
             in if ret \<noteq> PICOKEYS_OK then (SW_EXEC_ERROR, s) else next_config k (flash_commit s))"

text \<open>The two slots and the access code of a swap, from the request.\<close>

definition swap_request :: "bool \<Rightarrow> apdu \<Rightarrow> sw + fid \<times> fid \<times> bytes" where
  "swap_request otp a =
     (let d = nc_data a; slot1 = EF_OTP_SLOT1 + ucast (byte_at d 0); slot2 = EF_OTP_SLOT2 + ucast (byte_at d 1)
      in if otp
         then if nc a \<noteq> 64 then Inl SW_WRONG_LENGTH
              else if list_ex (\<lambda>b. b \<noteq> 0) (drop (2 + ACC_CODE_SIZE) d) then Inl SW_WRONG_DATA
              else Inr (slot1, slot2, take ACC_CODE_SIZE (drop 2 d))
         else if nc a \<noteq> 0
         then if nc a \<noteq> 2 \<and> nc a \<noteq> 2 + ACC_CODE_SIZE then Inl SW_WRONG_LENGTH
              else Inr (slot1, slot2, if nc a = 2 + ACC_CODE_SIZE then take ACC_CODE_SIZE (drop 2 d)
                                      else replicate ACC_CODE_SIZE 0)
         else Inr (EF_OTP_SLOT1, EF_OTP_SLOT2, replicate ACC_CODE_SIZE 0))"

text \<open>The contents of a slot that is to be swapped; \<open>None\<close> when it has none.\<close>

definition swap_load :: "sdk \<Rightarrow> fid option \<Rightarrow> bytes \<Rightarrow> 'a plat_scheme \<Rightarrow> sw + bytes option" where
  "swap_load k ef code s =
     (if \<not> file_has_data s ef then Inr None
      else let (ret, d) = otp_slot_load k ef s
           in if ret \<noteq> PICOKEYS_OK then Inl SW_EXEC_ERROR
              else if acc_code (otp_config_at d) \<noteq> code then Inl SW_SECURITY_STATUS_NOT_SATISFIED
              else Inr (Some d))"

definition swap_write :: "sdk \<Rightarrow> fid \<Rightarrow> fid option \<Rightarrow> fid option \<Rightarrow> bytes option \<Rightarrow> bytes option \<Rightarrow> 'a otp_scheme \<Rightarrow> sw \<times> 'a otp_scheme" where
  "swap_write k slot2 ef1 ef2 d1 d2 s =
     (let (ret, ef2, s) = (case d2 of
            Some d \<Rightarrow> let (ret, s) = otp_slot_store k ef1 d s in (ret, ef2, s)
          | None \<Rightarrow> let (_, s) = file_delete k ef1 s; (ef2, s) = file_new k slot2 s in (PICOKEYS_OK, ef2, s))
      in if ret \<noteq> PICOKEYS_OK then (SW_EXEC_ERROR, s)
         else let (ret, s) = (case d1 of
                     Some d \<Rightarrow> otp_slot_store k ef2 d s
                   | None \<Rightarrow> (PICOKEYS_OK, if d2 \<noteq> None then snd (file_delete k ef2 s) else s))
              in if ret \<noteq> PICOKEYS_OK then (SW_EXEC_ERROR, s) else next_config k (flash_commit s))"

definition otp_swap :: "sdk \<Rightarrow> apdu \<Rightarrow> 'a otp_scheme \<Rightarrow> sw \<times> 'a otp_scheme" where
  "otp_swap k a s =
     (case swap_request (is_otp s) a of
        Inl sw \<Rightarrow> (sw, s)
      | Inr (slot1, slot2, code) \<Rightarrow>
          if slot1 > EF_OTP_SLOT1 + 3 \<or> slot2 > EF_OTP_SLOT1 + 3 \<or> slot1 = slot2 then (SW_INCORRECT_P1P2, s)
          else let (ef1, s) = file_new k slot1 s; (ef2, s) = file_new k slot2 s
               in case swap_load k ef1 code s of
                    Inl sw \<Rightarrow> (sw, s)
                  | Inr d1 \<Rightarrow>
                      (case swap_load k ef2 code s of
                         Inl sw \<Rightarrow> (sw, s)
                       | Inr d2 \<Rightarrow> swap_write k slot2 ef1 ef2 d1 d2 s))"

subsection \<open>Challenge and response\<close>

text \<open>The length of a challenge of fewer than 64 bytes, which is padded with its last byte.\<close>

fun trim_challenge :: "bytes \<Rightarrow> nat \<Rightarrow> nat" where
  "trim_challenge d 0 = 0"
| "trim_challenge d (Suc n) = (if d ! 63 = d ! n then trim_challenge d n else Suc n)"

definition otp_calculate :: "sdk \<Rightarrow> apdu \<Rightarrow> 'a otp_scheme \<Rightarrow> sw \<times> 'a otp_scheme" where
  "otp_calculate k a s =
     (if \<not> otp_slot_offset_valid (p1 a) (p2 a) then (SW_INCORRECT_P1P2, s)
      else let slot = (if p1 a = 0x30 \<or> p1 a = 0x20 then EF_OTP_SLOT1 else EF_OTP_SLOT2) + ucast (p2 a);
               ef = file_search s slot
      in if \<not> file_has_data s ef then (SW_OK, s)
         else let (ret, d) = otp_slot_load k ef s; c = otp_config_at d
         in if ret \<noteq> PICOKEYS_OK then (SW_EXEC_ERROR, s)
         else if tkt_flags c AND CHAL_RESP = 0 then (SW_WRONG_DATA, s)
         else let rdata_bk = rdata s;
                  (pressed, s) =
                    (if cfg_flags c AND CHAL_BTN_TRIG \<noteq> 0
                     then let (_, s) = otp_status k (is_otp s) (s\<lparr>status_byte := 0x20\<rparr>);
                              wait = (sdk_button k (tick s) \<noteq> EV_BUTTON_PRESSED); s = s\<lparr>tick := Suc (tick s)\<rparr>
                          in if wait then (False, snd (otp_status k (is_otp s) (s\<lparr>status_byte := 0x00\<rparr>)))
                             else (True, s\<lparr>status_byte := 0x10, rdata := rdata_bk\<rparr>)
                     else (True, s))
         in if \<not> pressed then (SW_CONDITIONS_NOT_SATISFIED, s)
         else if p1 a = 0x30 \<or> p1 a = 0x38
         then if nc a < 64 then (SW_WRONG_LENGTH, s)
              else if cfg_flags c AND CHAL_HMAC = 0 then (SW_WRONG_DATA, s)
              else let chal_len = (if cfg_flags c AND HMAC_LT64 \<noteq> 0 then trim_challenge (nc_data a) 64 else 64);
                       (_, mac) = sdk_hmac k MD_SHA1 (aes_key c @ uid c) (take chal_len (nc_data a))
                   in (SW_OK, s\<lparr>res_APDU := fit 20 mac, status_byte := 0x00\<rparr>)
         else if nc a < 6 then (SW_WRONG_LENGTH, s)
         else if cfg_flags c AND CHAL_YUBICO = 0 then (SW_WRONG_DATA, s)
         else let (ret, out) = sdk_aes_ecb k (aes_key c) (take 6 (nc_data a) @ fit 10 (sdk_serial_str k))
              in (SW_OK, if ret = 0 then s\<lparr>res_APDU := fit 16 out, status_byte := 0x00\<rparr> else s))"

definition otp_serial :: "sdk \<Rightarrow> 'a plat_scheme \<Rightarrow> 'a plat_scheme" where
  "otp_serial k s = (let d = take 4 (sdk_serial_id k) in s\<lparr>res_APDU := d[0 := d ! 0 AND NOT 0xFC]\<rparr>)"

definition cmd_otp :: "sdk \<Rightarrow> apdu \<Rightarrow> 'a otp_scheme \<Rightarrow> sw \<times> 'a otp_scheme" where
  "cmd_otp k a s =
     (let p = p1 a
      in if p = 0x01 \<or> p = 0x03 then otp_configure k a s
         else if p = 0x04 \<or> p = 0x05 then otp_update k a s
         else if p = 0x06 then otp_swap k a s
         else if p = 0x10 then (SW_OK, otp_serial k s)
         else if p = 0x13 then (SW_OK, man_get_config k s)
         else if p = 0x14 then (SW_OK, snd (otp_status_ext k s))
         else if p = 0x30 \<or> p = 0x38 \<or> p = 0x20 \<or> p = 0x28 then otp_calculate k a s
         else (SW_OK, s))"

definition otp_process_apdu :: "sdk \<Rightarrow> apdu \<Rightarrow> 'a otp_scheme \<Rightarrow> sw \<times> 'a otp_scheme" where
  "otp_process_apdu k a s =
     (if cla a \<noteq> 0x00 then (SW_CLA_NOT_SUPPORTED, s)
      else if cap_supported k s CAP_OTP then run_cmd [(0x01, cmd_otp k)] a s
      else (SW_INS_NOT_SUPPORTED, s))"

subsection \<open>Frames over HID reports\<close>

text \<open>The frame to send is the first \<open>n\<close> bytes of \<open>otp_frame_tx\<close>.\<close>

definition otp_send_frame :: "sdk \<Rightarrow> nat \<Rightarrow> 'a otp_scheme \<Rightarrow> 'a otp_scheme" where
  "otp_send_frame k n s =
     (let c = calculate_crc (take n (otp_frame_tx s)); len = n + 2
      in s\<lparr>otp_frame_tx := splice (otp_frame_tx s) (n, 2) (sdk_put_u16_le k (NOT c)), kb_send_size := len,
           otp_exp_seq := word_of_nat (if len mod 7 \<noteq> 0 then len div 7 + 1 else len div 7), otp_curr_seq := 0\<rparr>)"

text \<open>
  A complete frame is run as a command whose response goes to \<open>otp_frame_tx\<close>. The length of
  the response before the command is what the last command left.
\<close>

definition run_frame :: "sdk \<Rightarrow> 'a otp_scheme \<Rightarrow> 'a otp_scheme" where
  "run_frame k s =
     (let rx = otp_frame_rx s;
          s = s\<lparr>rdata := OTP_FRAME_TX, is_otp := True, res_APDU := fit (length (res_APDU s)) (otp_frame_tx s)\<rparr>;
          (sw, s) = otp_process_apdu k \<lparr>cla = 0, ins = 0x01, p1 = byte_at rx 64, p2 = 0, nc_data = take 64 rx\<rparr> s;
          n = length (res_APDU s);
          s = s\<lparr>otp_frame_tx := splice (otp_frame_tx s) (0, n) (res_APDU s)\<rparr>;
          s = (if sw = SW_OK \<and> n > 0 then otp_send_frame k n s else s)
      in s\<lparr>is_otp := False\<rparr>)"

definition otp_hid_set_report_cb :: "sdk \<Rightarrow> nat \<Rightarrow> bytes \<Rightarrow> 'a otp_scheme \<Rightarrow> nat \<times> 'a otp_scheme" where
  "otp_hid_set_report_cb k report_type buffer s =
     (if report_type \<noteq> 3 then (0, s)
      else if buffer ! 7 = 0xFF
      then (1, s\<lparr>kb_send_size := 0, otp_curr_seq := 0, otp_exp_seq := 0, otp_frame_tx := replicate (length (otp_frame_tx s)) 0\<rparr>)
      else if buffer ! 7 AND 0x80 \<noteq> 0
      then let rseq = unat (buffer ! 7 AND 0x1F)
           in if rseq < 10
              then let s = (if rseq = 0 then s\<lparr>otp_frame_rx := replicate (length (otp_frame_rx s)) 0\<rparr> else s);
                       s = s\<lparr>otp_frame_rx := splice (otp_frame_rx s) (rseq * 7, 7) (take 7 buffer)\<rparr>
                   in (1, if rseq = 9 \<and> calculate_crc (take 64 (otp_frame_rx s)) = sdk_get_u16_le k (drop 65 (otp_frame_rx s))
                          then run_frame k s else s)
              else (1, s)
      else (1, s))"

definition otp_hid_get_report_cb :: "sdk \<Rightarrow> bytes \<Rightarrow> 'a otp_scheme \<Rightarrow> bytes \<times> 'a otp_scheme" where
  "otp_hid_get_report_cb k buffer s =
     (if kb_send_size s > 0
      then let seq = otp_curr_seq s; n = min 7 (kb_send_size s)
           in ((fit 7 (take n (drop (7 * unat seq) (otp_frame_tx s))) @ [0x40 OR seq]) @ drop 8 buffer,
               s\<lparr>otp_curr_seq := seq + 1, kb_send_size := kb_send_size s - n\<rparr>)
      else if otp_curr_seq s = otp_exp_seq s \<and> otp_exp_seq s > 0
      then (replicate 7 0 @ [0x40] @ drop 8 buffer, s\<lparr>otp_curr_seq := 0, otp_exp_seq := 0\<rparr>)
      else let (_, s) = otp_status k True (s\<lparr>rdata := HID_REPORT, hid_report := buffer\<rparr>) in (hid_report s, s))"

end
