(* ===== verification/Otp_Crc.thy ===== *)
theory Otp_Crc
  imports Otp_Commands
begin

text \<open>
  The checksum of configurations and frames (\<open>calculate_crc\<close> in \<open>src/fido/otp.c\<close>): it is linear, its
  residue is constant, and it detects every change of a single byte.
\<close>

lemma and_1_bit: "(x :: u16) AND 1 = 1 \<longleftrightarrow> bit x 0"
  by (simp add: and_one_eq odd_iff_mod_2_eq_one [symmetric] bit_0)

lemma crc_bit_alt: "crc_bit x = drop_bit 1 x XOR (if bit x 0 then 0x8408 else 0)"
  by (simp add: crc_bit_def and_1_bit)

lemma crc_bit_xor: "crc_bit (x XOR y) = crc_bit x XOR crc_bit y"
proof (rule bit_word_eqI)
  fix n
  assume "n < LENGTH(16)"
  show "bit (crc_bit (x XOR y)) n = bit (crc_bit x XOR crc_bit y) n"
    by (cases "bit x 0"; cases "bit y 0") (auto simp: crc_bit_alt bit_simps)
qed

lemma crc_bits_xor: "(crc_bit ^^ n) (x XOR y) = (crc_bit ^^ n) x XOR (crc_bit ^^ n) y"
  by (induction n) (simp_all add: crc_bit_xor)

lemma word_xor_cancel: "(x :: u16) XOR y = x XOR z \<Longrightarrow> y = z" "(y :: u16) XOR x = z XOR x \<Longrightarrow> y = z"
  by (metis xor.assoc xor_self_eq xor.left_neutral) (metis xor.assoc xor_self_eq xor.right_neutral)

text \<open>The top bit of a result tells which of the two cases it came from.\<close>

lemma crc_bit_inj: "crc_bit x = crc_bit y \<Longrightarrow> x = y"
proof -
  assume e: "crc_bit x = crc_bit y"
  have top: "bit (crc_bit z) 15 \<longleftrightarrow> bit z 0" for z
    by (auto simp: crc_bit_alt bit_simps dest: bit_imp_le_length)
  have b0: "bit x 0 \<longleftrightarrow> bit y 0" using top e by metis
  then have d: "drop_bit 1 x = drop_bit 1 y" using e by (auto simp: crc_bit_alt dest: word_xor_cancel split: if_splits)
  show "x = y"
  proof (rule bit_word_eqI)
    fix n
    assume "n < LENGTH(16)"
    show "bit x n = bit y n"
    proof (cases n)
      case (Suc m)
      have "bit (drop_bit 1 x) m = bit (drop_bit 1 y) m" using d by simp
      then show ?thesis by (simp add: Suc bit_drop_bit_eq)
    qed (use b0 in simp)
  qed
qed

lemma crc_bits_inj: "(crc_bit ^^ n) x = (crc_bit ^^ n) y \<Longrightarrow> x = y"
  by (induction n) (auto dest: crc_bit_inj)

lemma crc_byte_inj: "crc_byte c b = crc_byte c' b \<Longrightarrow> c = c'"
  by (auto simp: crc_byte_def dest!: crc_bits_inj dest: word_xor_cancel)

lemma byte_word_inj: "(ucast (b :: byte) :: u16) = ucast b' \<Longrightarrow> b = b'"
proof (rule bit_word_eqI)
  fix n
  assume e: "(ucast b :: u16) = ucast b'" and n: "n < LENGTH(8)"
  have "bit (ucast b :: u16) n = bit (ucast b' :: u16) n" using e by simp
  with n show "bit b n = bit b' n" by (simp add: bit_simps)
qed

lemma crc_byte_byte_inj: "crc_byte c b = crc_byte c b' \<Longrightarrow> b = b'"
proof -
  assume "crc_byte c b = crc_byte c b'"
  then have e: "c XOR ucast b = c XOR ucast b'" by (auto simp: crc_byte_def dest!: crc_bits_inj)
  then have "(ucast b :: u16) = ucast b'" by (rule word_xor_cancel)
  then show "b = b'" by (rule byte_word_inj)
qed

lemma foldl_crc_inj: "foldl crc_byte c d = foldl crc_byte c' d \<Longrightarrow> c = c'"
  by (induction d arbitrary: c c') (auto dest: crc_byte_inj)

text \<open>Eight rounds over a value whose low byte is zero only shift it.\<close>

lemma crc_bits_shift: "(crc_bit ^^ 8) (push_bit 8 (ucast (h :: byte))) = ucast h"
proof -
  have "(crc_bit ^^ n) (push_bit 8 (ucast h)) = push_bit (8 - n) (ucast h)" if "n \<le> 8" for n
    using that
  proof (induction n)
    case (Suc n)
    have "crc_bit (push_bit (8 - n) (ucast h)) = push_bit (8 - Suc n) (ucast h)"
    proof (rule bit_word_eqI)
      fix m
      assume "m < LENGTH(16)"
      have "8 - n \<noteq> 0" using Suc.prems by simp
      then show "bit (crc_bit (push_bit (8 - n) (ucast h))) m = bit (push_bit (8 - Suc n) (ucast h) :: u16) m"
        using \<open>m < LENGTH(16)\<close> Suc.prems
        by (auto simp: crc_bit_alt bit_simps dest: bit_imp_le_length)
    qed
    with Suc show ?case by simp
  qed simp
  from this [of 8] show ?thesis by simp
qed

lemma crc_split: "(x :: u16) = ucast (ucast x :: byte) XOR push_bit 8 (ucast (ucast (drop_bit 8 x) :: byte))"
  by (rule bit_word_eqI) (auto simp: bit_simps dest: bit_imp_le_length)

text \<open>Whatever the checksum so far, feeding its complement gives the residue.\<close>

lemma crc_residue: "crc_byte (crc_byte c (ucast (NOT c))) (ucast (drop_bit 8 (NOT c))) = 0xF0B8"
proof -
  let ?hi = "ucast (drop_bit 8 c) :: byte"
  have m: "(0xFF :: u16) = mask 8" by (simp add: mask_eq_exp_minus_1)
  have 1: "c XOR ucast (ucast (NOT c) :: byte) = 0xFF XOR push_bit 8 (ucast ?hi)"
    unfolding m by (rule bit_word_eqI) (auto simp: bit_simps dest: bit_imp_le_length)
  have t: "(crc_bit ^^ 8) 0xFF = 0x0F78" by code_simp
  have c1: "crc_byte c (ucast (NOT c)) = 0x0F78 XOR ucast ?hi"
    unfolding crc_byte_def 1 crc_bits_xor t crc_bits_shift ..
  have 2: "(0x0F78 XOR ucast ?hi) XOR ucast (ucast (drop_bit 8 (NOT c)) :: byte) = (0x0F78 XOR 0xFF :: u16)"
    unfolding m xor.assoc by (rule bit_word_eqI) (auto simp: bit_simps dest: bit_imp_le_length)
  have "(crc_bit ^^ 8) (0x0F78 XOR 0xFF :: u16) = 0xF0B8" by code_simp
  then show ?thesis unfolding c1 crc_byte_def [of "0x0F78 XOR ucast ?hi"] 2 .
qed

text \<open>
  The checksum is closed by its complement. Data of any length followed by the complement
  of its checksum, low byte first, has the residue the applet tests configurations for.
\<close>

lemma crc_closes:
  "calculate_crc (d @ [ucast (NOT (calculate_crc d)), ucast (drop_bit 8 (NOT (calculate_crc d)))]) = 0xF0B8"
  using crc_residue by (simp add: calculate_crc_def)

lemma list_of_two: "length xs = 2 \<Longrightarrow> \<exists>x y. xs = [x, y]"
  by (auto simp: numeral_2_eq_2 length_Suc_conv)

lemma word_xor_exchange:
  assumes "(a :: u16) XOR b = c XOR d"
  shows "a XOR c = b XOR d"
proof (rule bit_word_eqI)
  fix n
  assume "n < LENGTH(16)"
  have "bit (a XOR b) n = bit (c XOR d) n" using assms by simp
  then show "bit (a XOR c) n = bit (b XOR d) n" by (auto simp: bit_simps)
qed

lemma crc_pair_inj:
  assumes "crc_byte (crc_byte c x) y = crc_byte (crc_byte c x') y'"
  shows "x = x' \<and> y = y'"
proof -
  let ?T = "(crc_bit ^^ 8)"
  have "crc_byte c x XOR ucast y = crc_byte c x' XOR ucast y'"
    using assms unfolding crc_byte_def [of "crc_byte c x"] crc_byte_def [of "crc_byte c x'"] by (rule crc_bits_inj)
  then have "crc_byte c x XOR crc_byte c x' = ucast y XOR ucast y'"
    by (rule word_xor_exchange)
  moreover have "crc_byte c x XOR crc_byte c x' = ?T (ucast x XOR ucast x')"
  proof -
    have "(c XOR ucast x) XOR (c XOR ucast x') = (ucast x XOR ucast x' :: u16)"
      by (rule bit_word_eqI) (auto simp: bit_simps)
    then show ?thesis unfolding crc_byte_def crc_bits_xor [symmetric] by simp
  qed
  moreover have "(ucast y XOR ucast y' :: u16) = ucast (y XOR y')" by (rule bit_word_eqI) (auto simp: bit_simps)
  ultimately have "?T (ucast x XOR ucast x') = ?T (push_bit 8 (ucast (y XOR y')))"
    unfolding crc_bits_shift by simp
  then have e: "(ucast x XOR ucast x' :: u16) = push_bit 8 (ucast (y XOR y'))" by (rule crc_bits_inj)
  have "x = x'"
  proof (rule bit_word_eqI)
    fix n
    assume n: "n < LENGTH(8)"
    have "bit (ucast x XOR ucast x' :: u16) n = bit (push_bit 8 (ucast (y XOR y')) :: u16) n" using e by simp
    with n show "bit x n = bit x' n" by (simp add: bit_simps)
  qed
  moreover have "y = y'" if "x = x'" using assms that crc_byte_byte_inj by blast
  ultimately show ?thesis by blast
qed

text \<open>
  C37: A configuration is accepted exactly when its last two bytes are the complement of the
  checksum of the others, and a change of any one byte of an accepted configuration is detected.
\<close>

theorem check_crc_detects:
  assumes "length d = otp_config_size"
  shows "(check_crc d \<longleftrightarrow> drop 50 d = [ucast (NOT (calculate_crc (take 50 d))), ucast (drop_bit 8 (NOT (calculate_crc (take 50 d))))]) \<and>
    (check_crc d \<and> i < otp_config_size \<and> b \<noteq> d ! i \<longrightarrow> \<not> check_crc (d[i := b]))"
proof
  let ?c = "calculate_crc (take 50 d)"
  obtain x y where xy: "drop 50 d = [x, y]" using list_of_two [of "drop 50 d"] assms by auto
  have all: "take otp_config_size d = d" using assms by simp
  have split: "calculate_crc d = crc_byte (crc_byte ?c x) y"
  proof -
    have "calculate_crc d = calculate_crc (take 50 d @ [x, y])"
      using append_take_drop_id [of 50 d] unfolding xy by simp
    then show ?thesis by (simp add: calculate_crc_def)
  qed
  have "check_crc d \<longleftrightarrow> crc_byte (crc_byte ?c x) y = crc_byte (crc_byte ?c (ucast (NOT ?c))) (ucast (drop_bit 8 (NOT ?c)))"
    unfolding check_crc_def all split crc_residue ..
  then show "check_crc d \<longleftrightarrow> drop 50 d = [ucast (NOT ?c), ucast (drop_bit 8 (NOT ?c))]"
    unfolding xy by (auto dest: crc_pair_inj)
  show "check_crc d \<and> i < otp_config_size \<and> b \<noteq> d ! i \<longrightarrow> \<not> check_crc (d[i := b])"
  proof (intro impI notI, elim conjE)
    assume a: "check_crc d" "i < otp_config_size" "b \<noteq> d ! i" "check_crc (d[i := b])"
    have "foldl crc_byte (foldl crc_byte 0xFFFF (take i d)) (d ! i # drop (Suc i) d) = foldl crc_byte 0xFFFF d"
    proof -
      have "d = take i d @ d ! i # drop (Suc i) d" using id_take_nth_drop [of i d] a(2) assms by simp
      from arg_cong [OF this, of "foldl crc_byte 0xFFFF"] show ?thesis unfolding foldl_append by (rule sym)
    qed
    moreover have "foldl crc_byte (foldl crc_byte 0xFFFF (take i d)) (b # drop (Suc i) d) = foldl crc_byte 0xFFFF (d[i := b])"
    proof -
      have "d[i := b] = take i d @ b # drop (Suc i) d" using upd_conv_take_nth_drop [of i d b] a(2) assms by simp
      from arg_cong [OF this, of "foldl crc_byte 0xFFFF"] show ?thesis unfolding foldl_append by (rule sym)
    qed
    moreover have "foldl crc_byte 0xFFFF d = foldl crc_byte 0xFFFF (d[i := b])"
      using a(1,4) assms by (simp add: check_crc_def calculate_crc_def)
    ultimately have "foldl crc_byte (crc_byte (foldl crc_byte 0xFFFF (take i d)) (d ! i)) (drop (Suc i) d) =
        foldl crc_byte (crc_byte (foldl crc_byte 0xFFFF (take i d)) b) (drop (Suc i) d)" by simp
    then have "crc_byte (foldl crc_byte 0xFFFF (take i d)) (d ! i) = crc_byte (foldl crc_byte 0xFFFF (take i d)) b"
      by (rule foldl_crc_inj)
    then show False using crc_byte_byte_inj a(3) by blast
  qed
qed

text \<open>An accepted configuration: a slot with the key and the checksum of zeros except its flags.\<close>

definition ref_otp_body :: bytes where
  "ref_otp_body = replicate 46 0 @ [0x40, 0x22, 0, 0]"

definition ref_otp_config :: bytes where
  "ref_otp_config = ref_otp_body @ [ucast (NOT (calculate_crc ref_otp_body)), ucast (drop_bit 8 (NOT (calculate_crc ref_otp_body)))]"

lemma length_ref_otp_config [simp]: "length ref_otp_config = 52"
  by (simp add: ref_otp_config_def ref_otp_body_def)

lemma check_crc_detects_witness:
  "check_crc ref_otp_config \<and> \<not> check_crc (ref_otp_config[7 := ref_otp_config ! 7 + 1])"
proof -
  have c: "check_crc ref_otp_config" using crc_closes [of ref_otp_body] by (simp add: check_crc_def ref_otp_config_def ref_otp_body_def)
  with check_crc_detects [of ref_otp_config 7 "ref_otp_config ! 7 + 1"] show ?thesis by simp
qed

end
