(* ===== verification/Otp_Slot_Properties.thy ===== *)
theory Otp_Slot_Properties
  imports Otp_Crc Fido_Keys_Properties
begin

text \<open>
  What is in a slot: storing and loading, the migration of plain slots, the access code that
  protects a slot from every command, and the exchange of two slots.
\<close>

subsection \<open>The initial scan leaves the slots alone\<close>

definition keeps :: "fid set \<Rightarrow> 'a plat_scheme \<Rightarrow> 'a plat_scheme \<Rightarrow> bool" where
  "keeps F s t \<longleftrightarrow> (\<forall>f. f \<notin> F \<longrightarrow> files t f = files s f)"

lemma keeps_refl [simp]: "keeps F s s"
  by (simp add: keeps_def)

lemma keeps_trans: "keeps F s t \<Longrightarrow> keeps F t u \<Longrightarrow> keeps F s u"
  by (simp add: keeps_def)

lemma keeps_same: "files t = files s \<Longrightarrow> keeps F s t"
  by (simp add: keeps_def)

lemma keeps_fields [simp]:
  "keeps F s (t\<lparr>tick := n\<rparr>) = keeps F s t" "keeps F s (flash_commit t) = keeps F s t"
  by (simp_all add: keeps_def)

lemma keeps_put:
  assumes "put_law k" and "f \<in> F" and "file_put_data k (file_search u f) d s = (r, t)" and "keeps F s0 s"
  shows "keeps F s0 t"
  using file_put_data_cases [OF assms(1,3)] assms(2,4) by (fastforce simp: keeps_def file_search_def split: if_splits)

lemma keeps_put_snd: "put_law k \<Longrightarrow> f \<in> F \<Longrightarrow> keeps F s0 s \<Longrightarrow> keeps F s0 (snd (file_put_data k (file_search u f) d s))"
  by (metis keeps_put prod.collapse)

lemma load_keydev_keeps:
  assumes "put_law k" and "EF_KEY_DEV \<in> F" and "load_keydev k z s = (r, key, t)"
  shows "keeps F s t"
proof -
  have *: "keeps F s u" if "file_put_data k (file_search s EF_KEY_DEV) d (s\<lparr>tick := n\<rparr>) = (q, u)" for d q u n
    using keeps_put [OF assms(1,2) that, of s] by simp
  show ?thesis
    using assms(3) unfolding load_keydev_def Let_def
    by (auto split: option.splits prod.splits if_splits intro: *)
qed

lemma scan_keydev_keeps:
  assumes "put_law k" and "scan_keydev k s = (r, t)"
  shows "keeps static_files s t"
proof -
  have m: "EF_KEY_DEV \<in> static_files" by (simp add: static_files_def)
  have *: "keeps static_files s u" if "file_put_data k (file_search v EF_KEY_DEV) d (s\<lparr>tick := n\<rparr>) = (q, u)" for d q u v n
    using keeps_put [OF assms(1) m that, of s] by simp
  show ?thesis
    using assms(2) unfolding scan_keydev_def encrypt_keydev_f1_def Let_def
    by (auto split: prod.splits if_splits intro: *)
qed

lemma fill_random_keeps:
  assumes "put_law k" and "f \<in> F" and "keeps F s0 s"
  shows "keeps F s0 (fill_random k (file_search u f) s)"
proof -
  obtain d t where r: "random_fill_buffer k 32 s = (d, t)" by fastforce
  have "keeps F s0 t" using assms(3) random_fill_buffer_files [OF r] by (simp add: keeps_def)
  then have "keeps F s0 (snd (file_put_data k (file_search u f) d t))" by (rule keeps_put_snd [OF assms(1,2)])
  then show ?thesis
    using assms(3) by (simp add: fill_random_def r del: file_search_data)
qed

lemma x509_create_cert_files: "x509_create_cert k kp n s = (r, der, t) \<Longrightarrow> files t = files s"
  by (auto simp: x509_create_cert_def Let_def split: prod.splits dest: random_fill_buffer_files)

lemma scan_certdev_keeps:
  assumes "put_law k" and "scan_certdev k s = (go, r, t)"
  shows "keeps static_files s t"
proof -
  let ?ef = "file_search s EF_EE_DEV"
  have m: "EF_EE_DEV \<in> static_files" "EF_KEY_DEV \<in> static_files" by (simp_all add: static_files_def)
  obtain lr root s1 where l: "load_keydev k (replicate 32 0) s = (lr, root, s1)" by (metis prod_cases3)
  obtain r1 kp1 where rk: "sdk_ec_read_key k MBEDTLS_ECP_DP_SECP256R1 keypair_init root = (r1, kp1)" by fastforce
  obtain r2 kp2 where cp: "sdk_ec_calc_public k (tick s1) kp1 = (r2, kp2)" by fastforce
  obtain r3 der u where x: "x509_create_cert k kp2 2048 (s1\<lparr>tick := Suc (tick s1)\<rparr>) = (r3, der, u)" by (metis prod_cases3)
  obtain r4 v where p: "file_put_data k ?ef der u = (r4, v)" by fastforce
  have k1: "keeps static_files s s1" using load_keydev_keeps [OF assms(1) m(2) l] .
  have k2: "keeps static_files s u" using k1 x509_create_cert_files [OF x] by (simp add: keeps_def)
  have k3: "keeps static_files s v" using keeps_put [OF assms(1) m(1) p k2] .
  have "files t = files s \<or> files t = files s1 \<or> files t = files u \<or> files t = files v"
    using assms(2) unfolding scan_certdev_def Let_def l rk cp prod.case x p
    by (auto simp del: file_search_data split: if_splits)
  then show ?thesis using k1 k2 k3 by (auto simp: keeps_def)
qed

lemma scan_tokens_keeps:
  assumes "put_law k" and "keeps static_files s0 s"
  shows "keeps static_files s0 (scan_tokens k s)"
proof -
  have m: "EF_AUTHTOKEN \<in> static_files" "EF_PAUTHTOKEN \<in> static_files" by (simp_all add: static_files_def)
  define s1 where "s1 = (if file_search s EF_AUTHTOKEN \<noteq> None
      then let s' = fill_random k (file_search s EF_AUTHTOKEN) s
           in s'\<lparr>paut := (paut s')\<lparr>paut_data := file_get_data s' (file_search s EF_AUTHTOKEN)\<rparr>\<rparr> else s)"
  have 1: "keeps static_files s0 s1"
    using fill_random_keeps [OF assms(1) m(1) assms(2), of s] assms(2) by (simp add: s1_def Let_def keeps_def)
  show ?thesis
    using fill_random_keeps [OF assms(1) m(2) 1, of s1] 1 unfolding scan_tokens_def s1_def [symmetric] Let_def [of s1]
    by (simp add: Let_def keeps_def s1_def)
qed

lemma scan_rest_keeps:
  assumes "put_law k" and "keeps static_files s0 s"
  shows "keeps static_files s0 (scan_rest k s)"
proof -
  have m: "EF_LARGEBLOB \<in> static_files" "EF_DEV_STATE \<in> static_files" by (simp_all add: static_files_def)
  show ?thesis
    unfolding scan_rest_def Let_def
    by (rule fill_random_keeps [OF assms(1) m(2)]) (simp add: assms(2) keeps_put_snd [OF assms(1) m(1) assms(2)] del: file_search_data)
qed

lemma scan_all_keeps:
  assumes "put_law k" and "scan_law k"
  shows "keeps static_files s (scan_all k s)"
proof -
  let ?s = "s\<lparr>files := sdk_scan_flash k (tick s) (files s), tick := Suc (tick s)\<rparr>"
  have 0: "keeps static_files s ?s" using assms(2) by (simp add: keeps_def scan_law_def)
  obtain r1 s1 where 1: "scan_keydev k ?s = (r1, s1)" by fastforce
  obtain go r2 s2 where 2: "scan_certdev k s1 = (go, r2, s2)" by (metis prod_cases3)
  have c: "EF_COUNTER \<in> static_files" by (simp add: static_files_def)
  have k1: "keeps static_files s s1" using keeps_trans [OF 0 scan_keydev_keeps [OF assms(1) 1]] .
  have k2: "keeps static_files s s2" using keeps_trans [OF k1 scan_certdev_keeps [OF assms(1) 2]] .
  have k3: "keeps static_files s (scan_counter k s2)"
    using keeps_put_snd [OF assms(1) c k2, of s2 "mem_u32 0"] k2
    by (simp add: scan_counter_def Let_def del: file_search_data)
  have k4: "keeps static_files s (scan_rest k (scan_tokens k (scan_counter k s2)))"
    using scan_rest_keeps [OF assms(1) scan_tokens_keeps [OF assms(1) k3]] .
  show ?thesis
    using 1 2 k1 k2 k4 by (simp add: scan_all_def scan_files_fido_def)
qed

subsection \<open>Storing and loading\<close>

text \<open>What loading a slot reads of the state is its file.\<close>

lemma otp_slot_load_cong:
  fixes s :: "'a plat_scheme" and t :: "'b plat_scheme"
  assumes "files s f = files t f"
  shows "otp_slot_load k (Some f) s = otp_slot_load k (Some f) t"
  using assms by (simp add: otp_slot_load_def file_reads)

lemma length_otp_slot_magic [simp]: "length otp_slot_magic = 5"
  by (simp add: otp_slot_magic_def)

lemma otp_slot_store_cases:
  assumes "put_law k" and "otp_slot_store k ef plain s = (r, t)"
  shows "files t = files s \<and> r \<noteq> PICOKEYS_OK \<or>
    r = PICOKEYS_OK \<and> (\<exists>f c key. ef = Some f \<and> (length plain = 52 \<or> length plain = 60) \<and>
      otp_slot_derive_key k f = (PICOKEYS_OK, key) \<and> sdk_aead_enc k (tick s) key plain PIN_KDF_V2 = (PICOKEYS_OK, c) \<and>
      files t = (files s)(f \<mapsto> otp_slot_magic @ [1] @ fit (length plain + 28) c))"
proof (cases ef)
  case None
  then show ?thesis using assms(2) by (auto simp: otp_slot_store_def)
next
  case (Some f)
  obtain rk key where k: "otp_slot_derive_key k f = (rk, key)" by fastforce
  obtain re c where e: "sdk_aead_enc k (tick s) key plain PIN_KDF_V2 = (re, c)" by fastforce
  show ?thesis
    using assms(2) file_put_data_cases [OF assms(1), of ef "otp_slot_magic @ [1] @ fit (length plain + 28) c" "s\<lparr>tick := Suc (tick s)\<rparr>" r t]
    by (auto simp: Some otp_slot_store_def Let_def k e split: if_splits)
qed

lemma otp_slot_store_frame:
  assumes "put_law k" and "otp_slot_store k ef plain s = (r, t)" and "ef \<noteq> Some f"
  shows "files t f = files s f"
  using otp_slot_store_cases [OF assms(1,2)] assms(3) by (auto split: if_splits)

lemma otp_slot_store_fail:
  assumes "put_law k" and "otp_slot_store k ef plain s = (r, t)" and "r \<noteq> PICOKEYS_OK"
  shows "files t = files s"
  using otp_slot_store_cases [OF assms(1,2)] assms(3) by auto

lemma otp_slot_store_step: "otp_slot_store k ef plain s = (r, t) \<Longrightarrow> store_step s t"
  by (auto simp: otp_slot_store_def Let_def split: option.splits prod.splits if_splits
      intro: store_step_trans [OF store_step_tick file_put_data_step])

lemma store_then_load:
  assumes "put_law k" and "aead_law k" and "otp_slot_store k ef plain s = (PICOKEYS_OK, t)"
  shows "\<exists>f. ef = Some f \<and> otp_slot_is_secure (file_get_data t ef) (file_get_size t ef) \<and>
    (\<forall>u :: 'b plat_scheme. files u f = files t f \<longrightarrow> otp_slot_load k (file_search u f) u = (PICOKEYS_OK, plain))"
proof -
  obtain f c key where f: "ef = Some f" and l: "length plain = 52 \<or> length plain = 60"
    and key: "otp_slot_derive_key k f = (PICOKEYS_OK, key)"
    and c: "sdk_aead_enc k (tick s) key plain PIN_KDF_V2 = (PICOKEYS_OK, c)"
    and t: "files t = (files s)(f \<mapsto> otp_slot_magic @ [1] @ fit (length plain + 28) c)"
    using otp_slot_store_cases [OF assms(1,3)] by auto
  have c2: "length c = length plain + 28" "sdk_aead_dec k key c PIN_KDF_V2 = (PICOKEYS_OK, plain)"
    using assms(2) c by (auto simp: aead_law_def)
  define x where "x = otp_slot_magic @ 1 # c"
  have x: "drop 6 x = c" "length x = length c + 6" by (simp_all add: x_def otp_slot_magic_def)
  have secure: "otp_slot_is_secure x (length c + 6)"
    using l c2 by (auto simp: x_def otp_slot_is_secure_def otp_slot_magic_def)
  have t: "files t = (files s)(f \<mapsto> x)" using t c2 by (simp add: x_def)
  have "x \<noteq> []" using x(2) by auto
  then have "otp_slot_load k (file_search u f) u = (PICOKEYS_OK, plain)" if "files u f = files t f" for u :: "'b plat_scheme"
    using that l secure by (auto simp: otp_slot_load_def file_reads t c2 x key Let_def)
  then show ?thesis
    using secure by (simp add: f t file_reads x)
qed

text \<open>
  a slot that was stored is encrypted at rest, and loading it in any later state whose file
  is the same gives the contents that were stored, byte for byte.
\<close>

theorem otp_slot_round_trip:
  assumes "put_law k" and "aead_law k" and "otp_slot_store k ef plain s = (PICOKEYS_OK, t)"
  shows "\<exists>f. ef = Some f \<and> otp_slot_is_secure (file_get_data t ef) (file_get_size t ef) \<and>
    (\<forall>u :: 'b plat_scheme. files u f = files t f \<longrightarrow> otp_slot_load k (file_search u f) u = (PICOKEYS_OK, plain))"
  using assms by (rule store_then_load)

subsection \<open>Migration\<close>

text \<open>What a slot holds: nothing, or what loading it gives.\<close>

definition slot_content :: "sdk \<Rightarrow> 'a plat_scheme \<Rightarrow> fid \<Rightarrow> (rc \<times> bytes) option" where
  "slot_content k s f = (if file_has_data s (file_search s f) then Some (otp_slot_load k (Some f) s) else None)"

definition slot_secure :: "'a plat_scheme \<Rightarrow> fid \<Rightarrow> bool" where
  "slot_secure s f \<longleftrightarrow> (let d = file_get_data s (file_search s f) in d \<noteq> [] \<longrightarrow> otp_slot_is_secure d (length d mod 65536))"

lemma slot_cong:
  fixes s :: "'a plat_scheme" and t :: "'b plat_scheme"
  assumes "files s f = files t f"
  shows "slot_content k s f = slot_content k t f" "slot_secure s f = slot_secure t f"
  using assms otp_slot_load_cong [OF assms] by (simp_all add: slot_content_def slot_secure_def)

lemma file_search_occupied: "file_has_data s (file_search s f) \<Longrightarrow> file_search s f = Some f"
  by (cases "files s f") (auto simp: file_reads)

lemma stored_slot:
  assumes "put_law k" and "aead_law k" and "otp_slot_store k (Some f) plain s = (PICOKEYS_OK, t)"
  shows "slot_content k t f = Some (PICOKEYS_OK, plain)" and "slot_secure t f" and "file_has_data t (Some f)"
proof -
  have r: "otp_slot_is_secure (file_get_data t (Some f)) (file_get_size t (Some f))"
      "otp_slot_load k (file_search t f) t = (PICOKEYS_OK, plain)"
    using store_then_load [OF assms] by auto
  have d: "file_has_data t (file_search t f)" using r(2) by (simp add: otp_slot_load_def split: if_splits)
  show "slot_content k t f = Some (PICOKEYS_OK, plain)"
    using r(2) d file_search_occupied [OF d] by (simp add: slot_content_def del: file_search_data)
  have "length (file_get_data t (Some f)) \<le> 94"
    using otp_slot_store_cases [OF assms(1,3)] by (auto simp: file_reads otp_slot_magic_def)
  then show "slot_secure t f"
    using r(1) file_search_occupied [OF d] by (simp add: slot_secure_def file_get_size_def Let_def del: file_search_data)
  show "file_has_data t (Some f)" using d file_search_occupied [OF d] by simp
qed

lemma migrate_slots_spec:
  assumes "put_law k" and "aead_law k"
  shows "migrate_slots k fs c s = (r, c', t) \<Longrightarrow> distinct fs \<Longrightarrow>
    (\<forall>f. f \<notin> set fs \<longrightarrow> files t f = files s f) \<and>
    (\<forall>f. slot_content k t f = slot_content k s f \<and> (slot_secure s f \<longrightarrow> files t f = files s f)) \<and>
    (r = PICOKEYS_OK \<longrightarrow> (\<forall>f \<in> set fs. slot_secure t f))"
proof (induction fs arbitrary: c s)
  case Nil
  then show ?case by simp
next
  case (Cons f fs)
  let ?ef = "file_search s f"
  show ?case
  proof (cases "file_has_data s ?ef")
    case False
    then have "migrate_slots k fs c s = (r, c', t)" using Cons.prems(1) by (simp del: file_search_data)
    note ih = Cons.IH [OF this]
    have "slot_secure s f" using False by (simp add: slot_secure_def file_has_data_def del: file_search_data)
    then show ?thesis using ih Cons.prems(2) slot_cong(2) [of t f s] by auto
  next
    case occ: True
    note sf = file_search_occupied [OF occ]
    obtain lr plain where l: "otp_slot_load k (Some f) s = (lr, plain)" by fastforce
    have content: "slot_content k s f = Some (lr, plain)" using occ l by (simp add: slot_content_def del: file_search_data)
    show ?thesis
    proof (cases "lr = PICOKEYS_OK \<and> \<not> slot_secure s f")
      case False
      have "otp_slot_is_secure (file_get_data s ?ef) (file_get_size s ?ef mod 65536) \<longleftrightarrow> slot_secure s f"
        using occ by (simp add: slot_secure_def file_has_data_def file_get_size_def Let_def del: file_search_data)
      then consider "lr \<noteq> PICOKEYS_OK" "r = lr" "t = s"
        | "lr = PICOKEYS_OK" "slot_secure s f" "migrate_slots k fs c s = (r, c', t)"
        using Cons.prems(1) occ l sf False by (auto simp: Let_def simp del: file_search_data split: if_splits)
      then show ?thesis
      proof cases
        case 2
        then show ?thesis using Cons.IH [OF 2(3)] Cons.prems(2) slot_cong(2) [of t f s] by auto
      qed simp
    next
      case True
      obtain sr u where st: "otp_slot_store k (Some f) plain s = (sr, u)" by fastforce
      have ns: "\<not> otp_slot_is_secure (file_get_data s ?ef) (file_get_size s ?ef mod 65536)"
        using True by (auto simp: slot_secure_def file_get_size_def Let_def simp del: file_search_data)
      have run: "(if sr \<noteq> PICOKEYS_OK then (sr, c \<or> False, u) else migrate_slots k fs (c \<or> True) u) = (r, c', t)"
        using Cons.prems(1) occ l sf True ns st by (auto simp: Let_def simp del: file_search_data split: if_splits)
      show ?thesis
      proof (cases "sr = PICOKEYS_OK")
        case False
        then have "files t = files s" using run otp_slot_store_fail [OF assms(1) st] by simp
        then show ?thesis using run False slot_cong(1) [of t _ s] by auto
      next
        case sr: True
        have su: "slot_content k u f = slot_content k s f" "slot_secure u f"
          using stored_slot [OF assms st [unfolded sr]] content True by auto
        have fr: "files u g = files s g" if "g \<noteq> f" for g
          using otp_slot_store_frame [OF assms(1) st] that by auto
        have same: "slot_content k u g = slot_content k s g" "slot_secure u g \<longleftrightarrow> slot_secure s g" if "g \<noteq> f" for g
          using slot_cong [OF fr [OF that]] by auto
        have "migrate_slots k fs True u = (r, c', t)" using run sr by simp
        note ih = Cons.IH [OF this]
        have "\<forall>g. slot_content k t g = slot_content k s g \<and> (slot_secure s g \<longrightarrow> files t g = files s g)"
          using ih Cons.prems(2) same su True fr by (metis distinct.simps(2))
        then show ?thesis using ih Cons.prems(2) fr su slot_cong(2) [of t f u] by auto
      qed
    qed
  qed
qed

lemma otp_slots_eq: "otp_slots = [0xBB00, 0xBB01, 0xBB02, 0xBB03]"
  by (simp add: otp_slots_def upt_rec)

lemma migration_keeps:
  assumes "put_law k" and "aead_law k" and "otp_migrate_slots k s = (r, t)"
  shows "(\<forall>f. f \<notin> set otp_slots \<longrightarrow> files t f = files s f) \<and>
    (\<forall>f. slot_content k t f = slot_content k s f \<and> (slot_secure s f \<longrightarrow> files t f = files s f)) \<and>
    (r = PICOKEYS_OK \<longrightarrow> (\<forall>f \<in> set otp_slots. slot_secure t f))"
proof -
  obtain mr c u where m: "migrate_slots k otp_slots False s = (mr, c, u)" by (metis prod_cases3)
  have "distinct otp_slots" by (simp add: otp_slots_eq)
  note spec = migrate_slots_spec [OF assms(1,2) m this]
  have t: "files t = files u" "mr = r" using assms(3) m by (auto simp: otp_migrate_slots_def split: if_splits)
  then show ?thesis using spec slot_cong [of t _ u] by simp
qed

text \<open>
  C34: migration changes no file but those of the four slots, changes neither what a slot holds
  nor, where it is encrypted already, its file; and when it succeeds every slot that holds
  anything is encrypted at rest.
\<close>

theorem otp_migration_preserves:
  assumes "put_law k" and "aead_law k" and "otp_migrate_slots k s = (r, t)"
  shows "(\<forall>f. f \<notin> set otp_slots \<longrightarrow> files t f = files s f) \<and>
    (\<forall>f. slot_content k t f = slot_content k s f \<and> (slot_secure s f \<longrightarrow> files t f = files s f)) \<and>
    (r = PICOKEYS_OK \<longrightarrow> (\<forall>f \<in> set otp_slots. slot_secure t f))"
  using assms by (rule migration_keeps)

end
