(* ===== verification/Otp_Access.thy ===== *)
theory Otp_Access
  imports Otp_Slot_Properties
begin

text \<open>
  The access code of a slot: no command changes an occupied slot without it. And the exchange
  of two slots.
\<close>

subsection \<open>Which files a command changes\<close>

lemma static_not_slot: "f \<in> set otp_slots \<Longrightarrow> f \<notin> static_files"
  by (auto simp: otp_slots_eq static_files_def)

lemma poke_response_files [simp]: "files (poke_response n d s) = files s"
  by (simp add: poke_response_def split: response_pointer.splits)

lemma otp_status_ok: "otp_status k b s = (r, t) \<Longrightarrow> r = SW_OK"
  by (simp add: otp_status_def Let_def)

lemma otp_status_keeps:
  assumes "put_law k" and "scan_law k" and "otp_status k b s = (r, t)"
  shows "keeps static_files s t"
  using assms(3) scan_all_keeps [OF assms(1,2), of s]
  by (auto simp: otp_status_def Let_def keeps_def set_ne_def split: if_splits)

lemma next_config_keeps:
  assumes "put_law k" and "scan_law k" and "next_config k s = (r, t)"
  shows "r = SW_OK \<and> keeps static_files s t"
  using otp_status_ok [OF assms(3) [unfolded next_config_def]] otp_status_keeps [OF assms(1,2) assms(3) [unfolded next_config_def]]
  by (simp add: keeps_def)

lemma keep_request_files [simp]: "files (keep_request d s) = files s"
  by (simp add: keep_request_def)

lemma status_ext_slots_files [simp]: "files (status_ext_slots k is s) = files s"
  by (induction k "is" s rule: status_ext_slots.induct) (auto simp: Let_def res_append_def split: prod.splits)

lemma otp_status_ext_files [simp]: "files (snd (otp_status_ext k s)) = files s"
  by (simp add: otp_status_ext_def)

lemma otp_serial_files [simp]: "files (otp_serial k s) = files s"
  by (simp add: otp_serial_def Let_def)

lemma otp_calculate_keeps:
  assumes "put_law k" and "scan_law k" and "otp_calculate k a s = (r, t)"
  shows "keeps static_files s t"
proof -
  let ?f = "(if p1 a = 0x30 \<or> p1 a = 0x20 then EF_OTP_SLOT1 else EF_OTP_SLOT2) + ucast (p2 a)"
  obtain lr d where l: "otp_slot_load k (file_search s ?f) s = (lr, d)" by fastforce
  obtain r1 s1 where 1: "otp_status k (is_otp s) (s\<lparr>status_byte := 0x20\<rparr>) = (r1, s1)" by fastforce
  obtain r2 s2 where 2: "otp_status k (is_otp s1) (s1\<lparr>tick := Suc (tick s1), status_byte := 0x00\<rparr>) = (r2, s2)" by fastforce
  have k1: "keeps static_files s s1" using otp_status_keeps [OF assms(1,2) 1] by (simp add: keeps_def)
  have k2: "keeps static_files s s2" using otp_status_keeps [OF assms(1,2) 2] k1 by (simp add: keeps_def)
  have "files t = files s \<or> files t = files s1 \<or> files t = files s2"
    using assms(3) unfolding otp_calculate_def Let_def l prod.case 1
    by (auto simp del: file_search_data simp: 2 split: if_splits prod.splits)
  then show ?thesis using k1 k2 by (auto simp: keeps_def)
qed

subsection \<open>The access code\<close>

text \<open>The access code a request carries.\<close>

definition presented_code :: "bool \<Rightarrow> apdu \<Rightarrow> bytes" where
  "presented_code otp a =
     (if p1 a = 0x06 then (case swap_request otp a of Inl _ \<Rightarrow> [] | Inr (_, _, code) \<Rightarrow> code)
      else take ACC_CODE_SIZE (drop otp_config_size (nc_data a)))"

text \<open>A slot that holds something \<open>code\<close> does not open.\<close>

definition slot_locked :: "sdk \<Rightarrow> bytes \<Rightarrow> 'a plat_scheme \<Rightarrow> fid \<Rightarrow> bool" where
  "slot_locked k code s f \<longleftrightarrow>
     (case slot_content k s f of
        None \<Rightarrow> False
      | Some (ret, d) \<Rightarrow> ret \<noteq> PICOKEYS_OK \<or> acc_code (otp_config_at d) \<noteq> code)"

lemma slot_locked_cong:
  fixes s :: "'a plat_scheme" and t :: "'b plat_scheme"
  shows "files s f = files t f \<Longrightarrow> slot_locked k code s f = slot_locked k code t f"
  using slot_cong(1) [of s f t k] by (simp add: slot_locked_def)

lemma slot_locked_data: "slot_locked k code s f \<Longrightarrow> file_has_data s (Some f)"
  by (auto simp: slot_locked_def slot_content_def file_has_data_Some split: if_splits)

lemma slot_locked_load:
  assumes "slot_locked k code s f" and "otp_slot_load k (Some f) s = (ret, d)"
  shows "ret \<noteq> PICOKEYS_OK \<or> acc_code (otp_config_at d) \<noteq> code"
  using assms by (auto simp: slot_locked_def slot_content_def split: if_splits)

lemma file_new_occupied:
  assumes "new_law k" and "file_new k g s = (p, t)" and "file_has_data s (Some f)"
  shows "files t f = files s f" and "p = None \<or> p = Some g"
  using file_new_cases [OF assms(1,2)] assms(3) by (auto simp: file_has_data_Some split: if_splits)

lemma otp_slot_access_locked:
  "slot_locked k (take ACC_CODE_SIZE (drop otp_config_size (nc_data a))) s f \<Longrightarrow> \<exists>sw. otp_slot_access k a (Some f) s = Inl sw"
  by (cases "otp_slot_load k (Some f) s") (auto simp: otp_slot_access_def dest: slot_locked_load)

lemma swap_load_locked: "slot_locked k code s f \<Longrightarrow> \<exists>sw. swap_load k (Some f) code s = Inl sw"
  by (cases "otp_slot_load k (Some f) s") (auto simp: swap_load_def slot_locked_data dest: slot_locked_load)

text \<open>A pointer that is not to the slot leaves it alone.\<close>

lemma otp_configure_locked:
  assumes "put_law k" "new_law k" "delete_law k" "scan_law k" and "otp_configure k a s = (r, t)"
    and "slot_locked k (take ACC_CODE_SIZE (drop otp_config_size (nc_data a))) s f" and "f \<in> set otp_slots"
  shows "files t f = files s f"
proof -
  note fs = static_not_slot [OF assms(7)]
  define slot where "slot = (if p1 a = 0x01 then EF_OTP_SLOT1 else EF_OTP_SLOT2) + (ucast (p2 a) :: fid)"
  obtain ef u where n: "file_new k slot s = (ef, u)" by fastforce
  note u = file_new_occupied [OF assms(2) n slot_locked_data [OF assms(6)]]
  have lu: "slot_locked k (take ACC_CODE_SIZE (drop otp_config_size (nc_data a))) u f"
    using slot_locked_cong [OF u(1)] assms(6) by simp
  show ?thesis
  proof (cases "ef = Some f")
    case True
    obtain sw where "otp_slot_access k a ef u = Inl sw" using otp_slot_access_locked [OF lu] True by auto
    then have "files t f = files s f \<or> files t f = files u f"
      using assms(5) slot_locked_data [OF lu] True
      unfolding otp_configure_def slot_def [symmetric] Let_def n prod.case
      by (auto split: if_splits)
    then show ?thesis using u(1) by auto
  next
    case False
    define plain where "plain = take otp_config_size (nc_data a) @ replicate 8 0"
    obtain sr v where st: "otp_slot_store k ef plain (keep_request plain u) = (sr, v)" by fastforce
    obtain dr w where de: "file_delete k ef u = (dr, w)" by fastforce
    have fv: "files v f = files u f" using otp_slot_store_frame [OF assms(1) st False] by simp
    have fw: "files w f = files u f" using file_delete_cases [OF assms(3) de] False by (auto split: if_splits)
    have nc: "files z f = files y f" if "next_config k y = (q, z)" for q and y z :: "'a otp_scheme"
      using next_config_keeps [OF assms(1,4) that] fs by (simp add: keeps_def)
    have "files t f \<in> {files s f, files u f, files v f, files w f}"
      using assms(5) nc unfolding otp_configure_def slot_def [symmetric] Let_def n prod.case plain_def [symmetric] st de
      by (auto split: if_splits sum.splits)
    then show ?thesis using u(1) fv fw by auto
  qed
qed

lemma otp_update_locked:
  assumes "put_law k" "scan_law k" and "otp_update k a s = (r, t)"
    and "slot_locked k (take ACC_CODE_SIZE (drop otp_config_size (nc_data a))) s f" and "f \<in> set otp_slots"
  shows "files t f = files s f"
proof -
  note fs = static_not_slot [OF assms(5)]
  define ef where "ef = file_search s ((if p1 a = 0x04 then EF_OTP_SLOT1 else EF_OTP_SLOT2) + ucast (p2 a))"
  have nc: "files z f = files y f" if "next_config k y = (q, z)" for q and y z :: "'a otp_scheme"
    using next_config_keeps [OF assms(1,2) that] fs by (simp add: keeps_def)
  have os: "files z f = files s f" if "otp_status k b s = (q, z)" for q b and z :: "'a otp_scheme"
    using otp_status_keeps [OF assms(1,2) that] fs by (simp add: keeps_def)
  have acc: "\<exists>sw. otp_slot_access k a ef s = Inl sw" if "ef = Some f"
    using otp_slot_access_locked [OF assms(4)] that by simp
  show ?thesis
  proof (cases "ef = Some f")
    case True
    then show ?thesis
      using assms(3) acc unfolding otp_update_def ef_def [symmetric] Let_def
      by (auto split: if_splits sum.splits prod.splits dest: os)
  next
    case False
    have st: "files z f = files y f" if "otp_slot_store k ef d y = (q, z)" for d q and y z :: "'a otp_scheme"
      using otp_slot_store_frame [OF assms(1) that False] .
    show ?thesis
      using assms(3) unfolding otp_update_def ef_def [symmetric] Let_def
      by (auto split: if_splits sum.splits prod.splits dest: os) (auto dest!: nc st)
  qed
qed

subsection \<open>Swapping\<close>

text \<open>\<open>file_new\<close> on a file that exists returns that file.\<close>

definition find_law :: "sdk \<Rightarrow> bool" where
  "find_law k \<longleftrightarrow> (\<forall>n fs f. fs f \<noteq> None \<longrightarrow> fst (sdk_new k n fs f) = Some f)"

lemma file_new_found: "find_law k \<Longrightarrow> files s f \<noteq> None \<Longrightarrow> file_new k f s = (p, t) \<Longrightarrow> p = Some f"
  by (auto simp: find_law_def file_new_def Let_def split: prod.splits) (metis fst_conv option.distinct(1))

lemma file_new_slot:
  assumes "new_law k" and "file_new k g s = (p, t)"
  shows "slot_content k t f = slot_content k s f" and "p = None \<or> p = Some g \<and> files t g \<noteq> None"
proof -
  have "files t f = files s f \<or> files s f = None \<and> files t f = Some []"
    using file_new_cases [OF assms] by (auto split: if_splits)
  then show "slot_content k t f = slot_content k s f"
  proof
    assume "files s f = None \<and> files t f = Some []"
    then show ?thesis by (simp add: slot_content_def)
  qed (rule slot_cong)
  show "p = None \<or> p = Some g \<and> files t g \<noteq> None"
    using file_new_cases [OF assms] by (auto split: if_splits)
qed

lemma file_new_pointer:
  assumes "new_law k" and "find_law k" and "file_new k g s = (p, t)"
  shows "p = None \<and> slot_content k s g = None \<or> p = Some g \<and> files t g \<noteq> None"
proof (cases "files s g")
  case None
  then show ?thesis using file_new_slot(2) [OF assms(1,3)] by (auto simp: slot_content_def)
next
  case (Some d)
  then show ?thesis using file_new_slot(2) [OF assms(1,3)] file_new_found [OF assms(2) _ assms(3)] by auto
qed

lemma file_new_mono: "new_law k \<Longrightarrow> file_new k g s = (p, t) \<Longrightarrow> files s f \<noteq> None \<Longrightarrow> files t f \<noteq> None"
  using file_new_cases [of k g s p t] by (auto split: if_splits)

lemma swap_load_content:
  assumes "swap_load k ef code s = Inr d" and "ef = Some f \<or> ef = None \<and> slot_content k s f = None"
  shows "slot_content k s f = map_option (Pair PICOKEYS_OK) d"
proof (cases "file_has_data s ef")
  case True
  then have "ef = Some f" "file_search s f = Some f" using assms(2) by (auto simp: file_search_def file_has_data_Some)
  then show ?thesis
    using assms(1) True by (auto simp: swap_load_def slot_content_def split: prod.splits if_splits)
next
  case False
  then show ?thesis
    using assms by (auto simp: swap_load_def slot_content_def file_search_def)
qed

lemma file_delete_slot:
  assumes "delete_law k" and "deletes k" and "ef = None \<and> slot_content k s f = None \<or> ef = Some f \<and> files s f \<noteq> None"
    and "file_delete k ef s = (r, t)"
  shows "slot_content k t f = None" and "g \<noteq> f \<Longrightarrow> files t g = files s g"
proof -
  have "files t = files s \<and> ef = None \<or> files t = (files s)(f := None)"
    using assms(3)
  proof
    assume "ef = None \<and> slot_content k s f = None"
    then show ?thesis using file_delete_cases [OF assms(1,4)] by auto
  next
    assume e: "ef = Some f \<and> files s f \<noteq> None"
    obtain u where "file_delete_no_commit k ef s = (r, u)" "t = flash_commit u"
      using assms(4) by (auto simp: file_delete_def split: prod.splits)
    then show ?thesis using file_delete_no_commit_gone [OF assms(1,2), of s f] e by simp
  qed
  then show "slot_content k t f = None" and "g \<noteq> f \<Longrightarrow> files t g = files s g"
    using assms(3) slot_cong(1) [of t f s k] by (auto simp: slot_content_def split: if_splits)
qed

lemma swap_write_spec:
  assumes laws: "put_law k" "new_law k" "delete_law k" "scan_law k" "aead_law k" "deletes k" "find_law k"
    and w: "swap_write k slot2 ef1 ef2 d1 d2 s = (SW_OK, t)" and slots: "slot1 \<in> set otp_slots" "slot2 \<in> set otp_slots" "slot1 \<noteq> slot2"
    and e1: "ef1 = None \<and> slot_content k s slot1 = None \<or> ef1 = Some slot1 \<and> files s slot1 \<noteq> None"
    and e2: "ef2 = None \<and> slot_content k s slot2 = None \<or> ef2 = Some slot2 \<and> files s slot2 \<noteq> None"
    and c1: "slot_content k s slot1 = map_option (Pair PICOKEYS_OK) d1"
    and c2: "slot_content k s slot2 = map_option (Pair PICOKEYS_OK) d2"
  shows "slot_content k t slot1 = slot_content k s slot2 \<and> slot_content k t slot2 = slot_content k s slot1"
proof -
  have fin: "slot_content k t slot1 = slot_content k u slot1 \<and> slot_content k t slot2 = slot_content k u slot2"
    if "next_config k (flash_commit u) = (SW_OK, t)" for u
    using next_config_keeps [OF laws(1,4) that] static_not_slot slots slot_cong(1) [of t _ u k] by (simp add: keeps_def)
  show ?thesis
  proof (cases d2)
    case d2: (Some d)
    obtain sr u where st: "otp_slot_store k ef1 d s = (sr, u)" by fastforce
    have sr: "sr = PICOKEYS_OK" using w by (auto simp: swap_write_def d2 st split: if_splits)
    have ef1: "ef1 = Some slot1" using otp_slot_store_cases [OF laws(1) st] sr e1 by auto
    have ef2: "ef2 = Some slot2" using e2 c2 d2 by auto
    have u1: "slot_content k u slot1 = Some (PICOKEYS_OK, d)"
      using stored_slot(1) [OF laws(1,5)] st sr ef1 by auto
    have u2: "files u slot2 = files s slot2" using otp_slot_store_frame [OF laws(1) st] ef1 slots(3) by simp
    show ?thesis
    proof (cases d1)
      case d1: None
      obtain dr v where de: "file_delete k ef2 u = (dr, v)" by fastforce
      have "slot_content k v slot2 = None" "files v slot1 = files u slot1"
        using file_delete_slot [OF laws(3,6) _ de, of slot2] ef2 e2 u2 slots(3) by auto
      moreover have "next_config k (flash_commit v) = (SW_OK, t)"
        using w by (simp add: swap_write_def d2 d1 st sr de)
      ultimately show ?thesis using fin [of v] slot_cong(1) [of v slot1 u k] u1 c1 c2 d1 d2 by simp
    next
      case d1: (Some e)
      obtain sr2 v where st2: "otp_slot_store k ef2 e u = (sr2, v)" by fastforce
      have sr2: "sr2 = PICOKEYS_OK" using w by (auto simp: swap_write_def d2 d1 st sr st2 split: if_splits)
      have "slot_content k v slot2 = Some (PICOKEYS_OK, e)"
        using stored_slot(1) [OF laws(1,5)] st2 sr2 ef2 by auto
      moreover have "files v slot1 = files u slot1" using otp_slot_store_frame [OF laws(1) st2] ef2 slots(3) by simp
      moreover have "next_config k (flash_commit v) = (SW_OK, t)"
        using w by (simp add: swap_write_def d2 d1 st sr st2 sr2)
      ultimately show ?thesis using fin [of v] slot_cong(1) [of v slot1 u k] u1 c1 c2 d1 d2 by simp
    qed
  next
    case d2: None
    obtain dr u where de: "file_delete k ef1 s = (dr, u)" by fastforce
    obtain p v where n: "file_new k slot2 u = (p, v)" by fastforce
    have u1: "slot_content k u slot1 = None" "files u slot2 = files s slot2"
      using file_delete_slot [OF laws(3,6) e1 de] slots(3) by auto
    have v: "slot_content k v slot1 = None" "slot_content k v slot2 = slot_content k s slot2"
      using file_new_slot(1) [OF laws(2) n] u1 slot_cong(1) [OF u1(2)] by auto
    show ?thesis
    proof (cases d1)
      case d1: None
      have "next_config k (flash_commit v) = (SW_OK, t)"
        using w by (simp add: swap_write_def d2 d1 de n)
      then show ?thesis using fin [of v] v c1 c2 d1 d2 by simp
    next
      case d1: (Some e)
      obtain sr x where st: "otp_slot_store k p e v = (sr, x)" by fastforce
      have sr: "sr = PICOKEYS_OK" using w by (auto simp: swap_write_def d2 d1 de n st split: if_splits)
      have p: "p = Some slot2" using otp_slot_store_cases [OF laws(1) st] sr file_new_slot(2) [OF laws(2) n] by auto
      have "slot_content k x slot2 = Some (PICOKEYS_OK, e)"
        using stored_slot(1) [OF laws(1,5)] st sr p by auto
      moreover have "files x slot1 = files v slot1" using otp_slot_store_frame [OF laws(1) st] p slots(3) by simp
      moreover have "next_config k (flash_commit x) = (SW_OK, t)"
        using w by (simp add: swap_write_def d2 d1 de n st sr)
      ultimately show ?thesis using fin [of x] slot_cong(1) [of x slot1 v k] v c1 c2 d1 d2 by simp
    qed
  qed
qed

lemma slot_range:
  fixes f :: fid and b :: byte
  assumes "f = EF_OTP_SLOT1 + ucast b \<or> f = EF_OTP_SLOT2 + ucast b" and "\<not> f > EF_OTP_SLOT1 + 3"
  shows "f \<in> set otp_slots"
proof -
  have "unat b < 2 ^ 8" using unsigned_less [of b] by simp
  then have u: "unat (ucast b :: fid) = unat b" "unat b < 256"
    by (simp_all add: unsigned_ucast_eq take_bit_nat_eq_self)
  then have "unat f = 0xBB00 + unat b \<or> unat f = 0xBB01 + unat b" using assms(1) by (auto simp: unat_word_ariths)
  then have "unat f \<in> {0xBB00, 0xBB01, 0xBB02, 0xBB03}"
    using assms(2) by (auto simp: word_less_nat_alt not_less)
  then show ?thesis
    by (auto simp: otp_slots_eq word_unat_eq_iff)
qed

lemma swap_request_slots:
  "swap_request otp a = Inr (slot1, slot2, code) \<Longrightarrow>
    (\<exists>b :: byte. slot1 = EF_OTP_SLOT1 + ucast b) \<and> (\<exists>c :: byte. slot2 = EF_OTP_SLOT2 + ucast c)"
  by (auto simp: swap_request_def Let_def split: if_splits intro: exI [of _ 0])

lemma swap_request_refused: "swap_request otp a = Inl sw \<Longrightarrow> sw \<noteq> SW_OK"
  by (auto simp: swap_request_def Let_def split: if_splits)

lemma swap_load_refused: "swap_load k ef code s = Inl sw \<Longrightarrow> sw \<noteq> SW_OK"
  by (auto simp: swap_load_def Let_def split: if_splits prod.splits)

lemma otp_swap_cases:
  assumes "otp_swap k a s = (r, t)"
  obtains (refused) "t = s" and "r \<noteq> SW_OK"
    | (not_loaded) slot1 slot2 code ef1 ef2 s1 where "swap_request (is_otp s) a = Inr (slot1, slot2, code)"
        "file_new k slot1 s = (ef1, s1)" "file_new k slot2 s1 = (ef2, t)" "r \<noteq> SW_OK"
    | (loaded) slot1 slot2 code ef1 ef2 s1 s2 d1 d2 where "swap_request (is_otp s) a = Inr (slot1, slot2, code)"
        "slot1 \<in> set otp_slots" "slot2 \<in> set otp_slots" "slot1 \<noteq> slot2"
        "file_new k slot1 s = (ef1, s1)" "file_new k slot2 s1 = (ef2, s2)"
        "swap_load k ef1 code s2 = Inr d1" "swap_load k ef2 code s2 = Inr d2" "swap_write k slot2 ef1 ef2 d1 d2 s2 = (r, t)"
proof (cases "swap_request (is_otp s) a")
  case (Inl sw)
  then show ?thesis using assms swap_request_refused [OF Inl] refused by (simp add: otp_swap_def)
next
  case (Inr q)
  obtain slot1 slot2 code where q: "q = (slot1, slot2, code)" by (metis prod_cases3)
  show ?thesis
  proof (cases "slot1 > EF_OTP_SLOT1 + 3 \<or> slot2 > EF_OTP_SLOT1 + 3 \<or> slot1 = slot2")
    case True
    then show ?thesis using assms refused by (simp add: otp_swap_def Inr q)
  next
    case False
    obtain ef1 s1 where 1: "file_new k slot1 s = (ef1, s1)" by fastforce
    obtain ef2 s2 where 2: "file_new k slot2 s1 = (ef2, s2)" by fastforce
    have m: "slot1 \<in> set otp_slots" "slot2 \<in> set otp_slots"
      using swap_request_slots [OF Inr [unfolded q]] False slot_range [of slot1] slot_range [of slot2] by blast+
    have "(\<exists>sw. sw \<noteq> SW_OK \<and> r = sw \<and> t = s2) \<or> (\<exists>d1 d2. swap_load k ef1 code s2 = Inr d1 \<and>
        swap_load k ef2 code s2 = Inr d2 \<and> swap_write k slot2 ef1 ef2 d1 d2 s2 = (r, t))"
      using assms False by (auto simp: otp_swap_def Inr q 1 2 split: sum.splits dest: swap_load_refused)
    then show ?thesis
    proof
      assume "\<exists>sw. sw \<noteq> SW_OK \<and> r = sw \<and> t = s2"
      then show ?thesis using not_loaded [OF Inr [unfolded q] 1] 2 by simp
    next
      assume "\<exists>d1 d2. swap_load k ef1 code s2 = Inr d1 \<and>
        swap_load k ef2 code s2 = Inr d2 \<and> swap_write k slot2 ef1 ef2 d1 d2 s2 = (r, t)"
      then show ?thesis using loaded [OF Inr [unfolded q] m _ 1 2] False by blast
    qed
  qed
qed

text \<open>
  a swap that succeeds exchanges what the two slots hold, also when one or both are empty;
  what a slot holds is not the stored bytes, which depend on the slot they are stored in.
\<close>

theorem otp_swap_exchanges:
  assumes laws: "put_law k" "new_law k" "delete_law k" "scan_law k" "aead_law k" "deletes k" "find_law k"
    and swap: "otp_swap k a s = (SW_OK, t)"
  shows "\<exists>slot1 slot2 code. swap_request (is_otp s) a = Inr (slot1, slot2, code) \<and> slot1 \<noteq> slot2 \<and>
    slot_content k t slot1 = slot_content k s slot2 \<and> slot_content k t slot2 = slot_content k s slot1 \<and>
    (\<forall>f \<in> {slot1, slot2}. \<not> slot_locked k code s f)"
  using swap
proof (cases rule: otp_swap_cases)
  case (loaded slot1 slot2 code ef1 ef2 s1 s2 d1 d2)
  note n1 = file_new_slot [OF laws(2) loaded(5)] and n2 = file_new_slot [OF laws(2) loaded(6)]
  have c: "slot_content k s2 f = slot_content k s f" for f using n1(1) n2(1) by simp
  have e1: "ef1 = None \<and> slot_content k s2 slot1 = None \<or> ef1 = Some slot1 \<and> files s2 slot1 \<noteq> None"
    using file_new_pointer [OF laws(2,7) loaded(5)] file_new_mono [OF laws(2) loaded(6), of slot1] c by auto
  have e2: "ef2 = None \<and> slot_content k s2 slot2 = None \<or> ef2 = Some slot2 \<and> files s2 slot2 \<noteq> None"
    using file_new_pointer [OF laws(2,7) loaded(6)] n1(1) c by auto
  have c1: "slot_content k s2 slot1 = map_option (Pair PICOKEYS_OK) d1"
    by (rule swap_load_content [OF loaded(7)]) (use e1 in auto)
  have c2: "slot_content k s2 slot2 = map_option (Pair PICOKEYS_OK) d2"
    by (rule swap_load_content [OF loaded(8)]) (use e2 in auto)
  have "\<not> slot_locked k code s2 slot1" "\<not> slot_locked k code s2 slot2"
    using swap_load_locked [of k code s2] loaded(7,8) e1 e2 by (fastforce simp: slot_locked_def)+
  then show ?thesis
    using swap_write_spec [OF laws loaded(9,2,3,4) e1 e2 c1 c2] loaded(1,4) c by (auto simp: slot_locked_def)
qed simp_all

subsection \<open>Every command\<close>

lemma swap_write_frame:
  assumes "put_law k" "new_law k" "delete_law k" "scan_law k" and w: "swap_write k slot2 ef1 ef2 d1 d2 s = (r, t)"
    and f: "f \<notin> static_files" "f \<noteq> slot2" "ef1 \<noteq> Some f" "ef2 \<noteq> Some f"
  shows "files t f = files s f"
proof -
  have nc: "files z f = files y f" if "next_config k y = (q, z)" for q and y z :: "'a otp_scheme"
    using next_config_keeps [OF assms(1,4) that] f(1) by (simp add: keeps_def)
  have st: "files z f = files y f" if "otp_slot_store k ef d y = (q, z)" "ef \<noteq> Some f" for ef d q and y z :: "'a otp_scheme"
    using otp_slot_store_frame [OF assms(1) that] .
  have de: "files z f = files y f" if "file_delete k ef y = (q, z)" "ef \<noteq> Some f" for ef q and y z :: "'a otp_scheme"
    using file_delete_cases [OF assms(3) that(1)] that(2) by (auto split: if_splits)
  have fin: "files t f = files y f"
    if "(if q \<noteq> PICOKEYS_OK then (SW_EXEC_ERROR, y) else next_config k (flash_commit y)) = (r, t)" for q and y :: "'a otp_scheme"
    using that by (auto split: if_splits dest: nc)
  have last: "files t f = files y f"
    if "ef \<noteq> Some f" and "(let (ret, s) = (case d1 of
                     Some d \<Rightarrow> otp_slot_store k ef d y
                   | None \<Rightarrow> (PICOKEYS_OK, if d2 \<noteq> None then snd (file_delete k ef y) else y))
              in if ret \<noteq> PICOKEYS_OK then (SW_EXEC_ERROR, s) else next_config k (flash_commit s)) = (r, t)"
    for ef and y :: "'a otp_scheme"
  proof (cases d1)
    case None
    have "files (if d2 \<noteq> None then snd (file_delete k ef y) else y) f = files y f"
      using de [OF _ that(1), of y "fst (file_delete k ef y)"] by auto
    then show ?thesis using that(2) fin [of PICOKEYS_OK "if d2 \<noteq> None then snd (file_delete k ef y) else y"] None by simp
  next
    case (Some d)
    obtain q z where z: "otp_slot_store k ef d y = (q, z)" by fastforce
    then show ?thesis using that fin [of q z] st [OF z that(1)] Some by simp
  qed
  show ?thesis
  proof (cases d2)
    case None
    obtain q y where y: "file_delete k ef1 s = (q, y)" by fastforce
    obtain p z where z: "file_new k slot2 y = (p, z)" by fastforce
    have "p \<noteq> Some f" "files z f = files y f" using file_new_cases [OF assms(2) z] f(2) by (auto split: if_splits)
    then show ?thesis using last [of p z, unfolded None] w [unfolded None] de [OF y f(3)] by (simp add: swap_write_def y z)
  next
    case (Some d)
    obtain q y where y: "otp_slot_store k ef1 d s = (q, y)" by fastforce
    show ?thesis
      using last [OF f(4), of y, unfolded Some] w [unfolded Some] st [OF y f(3)] by (cases "q = PICOKEYS_OK") (auto simp: swap_write_def y)
  qed
qed

lemma otp_swap_locked:
  assumes laws: "put_law k" "new_law k" "delete_law k" "scan_law k" "find_law k" and swap: "otp_swap k a s = (r, t)"
    and code: "\<And>slot1 slot2 code. swap_request (is_otp s) a = Inr (slot1, slot2, code) \<Longrightarrow> slot_locked k code s f" and f: "f \<in> set otp_slots"
    and occ: "file_has_data s (Some f)"
  shows "files t f = files s f"
  using swap
proof (cases rule: otp_swap_cases)
  case (not_loaded x1 x2 c ef1 ef2 s1)
  have "files s1 f = files s f" using file_new_occupied [OF laws(2) not_loaded(2) occ] by blast
  moreover from this have "file_has_data s1 (Some f)" using occ by (simp add: file_has_data_Some)
  ultimately show ?thesis using file_new_occupied [OF laws(2) not_loaded(3)] by auto
next
  case (loaded x1 x2 c ef1 ef2 s1 s2 d1 d2)
  have 1: "files s1 f = files s f" using file_new_occupied [OF laws(2) loaded(5) occ] by blast
  then have "file_has_data s1 (Some f)" using occ by (simp add: file_has_data_Some)
  then have 2: "files s2 f = files s f" using file_new_occupied [OF laws(2) loaded(6)] 1 by auto
  have lk: "slot_locked k c s2 f" using code loaded(1) slot_locked_cong [OF 2] by auto
  then have n: "ef1 \<noteq> Some f" "ef2 \<noteq> Some f" using loaded(7,8) swap_load_locked by fastforce+
  have "x2 \<noteq> f"
    using file_new_found [OF laws(5) _ loaded(6)] n(2) occ 1 by (auto simp: file_has_data_Some)
  then show ?thesis
    using swap_write_frame [OF laws(1-4) loaded(9) static_not_slot [OF f]] n 2 by auto
qed simp

text \<open>
  C15: whatever command the OTP applet is given, a slot that holds something keeps its file byte
  for byte unless the request carries the slot's access code. A slot that cannot be decoded is
  never changed.
\<close>

theorem otp_slot_protected:
  assumes "put_law k" "new_law k" "delete_law k" "scan_law k" "find_law k"
    and "otp_process_apdu k a s = (r, t)" and "f \<in> set otp_slots"
    and "slot_locked k (presented_code (is_otp s) a) s f"
  shows "files t f = files s f"
proof (cases "files t = files s")
  case False
  note fs = static_not_slot [OF assms(7)]
  have run: "cmd_otp k a s = (r, t)"
    using assms(6) False by (auto simp: otp_process_apdu_def split: if_splits)
  have code: "slot_locked k (take ACC_CODE_SIZE (drop otp_config_size (nc_data a))) s f" if "p1 a \<noteq> 0x06"
    using assms(8) that by (simp add: presented_code_def)
  consider "p1 a \<in> {0x01, 0x03}" "otp_configure k a s = (r, t)" | "p1 a \<in> {0x04, 0x05}" "otp_update k a s = (r, t)"
    | "p1 a = 0x06" "otp_swap k a s = (r, t)" | "otp_calculate k a s = (r, t)"
    using run False by (auto simp: cmd_otp_def Let_def split: if_splits)
  then show ?thesis
  proof cases
    case 1
    then show ?thesis using otp_configure_locked [OF assms(1-4) 1(2) _ assms(7)] code by auto
  next
    case 2
    then show ?thesis using otp_update_locked [OF assms(1,4) 2(2) _ assms(7)] code by auto
  next
    case 3
    show ?thesis
      by (rule otp_swap_locked [OF assms(1-5) 3(2) _ assms(7) slot_locked_data [OF assms(8)]])
         (use assms(8) 3(1) in \<open>simp add: presented_code_def\<close>)
  next
    case 4
    then show ?thesis using otp_calculate_keeps [OF assms(1,4) 4] fs by (simp add: keeps_def)
  qed
qed simp

subsection \<open>Witnesses\<close>

definition ref_otp :: "files \<Rightarrow> otp" where
  "ref_otp fs = device.extend (ref_device fs)
     \<lparr>config_seq = 0, scanned = True, session_counter = [0, 0], status_byte = 0, is_otp = False, keyboard = [],
      rdata = RES_APDU_BUFFER, hid_report = [], otp_frame_rx = replicate 70 0, otp_frame_tx = replicate 70 0,
      otp_exp_seq = 0, otp_curr_seq = 0, kb_send_size = 0\<rparr>"

lemma ref_otp_sel [simp]: "files (ref_otp fs) = fs" "scanned (ref_otp fs)" "is_otp (ref_otp fs) = False"
  by (simp_all add: ref_otp_def device.defs ref_device_def resident.defs ref_resident_def fido.defs ref_fido_def)

lemma ref_find_law: "find_law ref_sdk"
  by (simp add: find_law_def ref_new_def)

lemma ref_deletes: "deletes ref_sdk"
  by (auto simp: deletes_def ref_delete_def)

lemma ref_slot_key: "otp_slot_derive_key ref_sdk f = (PICOKEYS_OK, replicate 32 0x5a)"
  by (simp add: otp_slot_derive_key_def fit_def)

lemma ref_slot_store:
  "length plain = 52 \<or> length plain = 60 \<Longrightarrow> otp_slot_store ref_sdk (Some f) plain s =
     (PICOKEYS_OK, s\<lparr>files := (files s)(f \<mapsto> otp_slot_magic @ [1] @ replicate 12 0xee @ plain @ replicate 16 0xdd),
        tick := Suc (Suc (tick s)),
        wlog := wlog s @ [Put f (otp_slot_magic @ [1] @ replicate 12 0xee @ plain @ replicate 16 0xdd)]\<rparr>)"
  by (auto simp: otp_slot_store_def ref_slot_key file_put_data_def ref_put_def Let_def)

lemma otp_slot_round_trip_witness:
  "\<exists>t. otp_slot_store ref_sdk (Some EF_OTP_SLOT1) (replicate 60 7) (ref_otp Map.empty) = (PICOKEYS_OK, t) \<and>
     otp_slot_load ref_sdk (file_search t EF_OTP_SLOT1) t = (PICOKEYS_OK, replicate 60 7)"
proof -
  let ?s = "ref_otp Map.empty"
  obtain t where t: "otp_slot_store ref_sdk (Some EF_OTP_SLOT1) (replicate 60 7) ?s = (PICOKEYS_OK, t)"
    by (simp add: ref_slot_store)
  with otp_slot_round_trip [OF ref_put_law ref_aead_law t] show ?thesis by auto
qed

lemma otp_migration_preserves_witness:
  "\<exists>t. otp_migrate_slots ref_sdk (ref_otp [EF_OTP_SLOT2 \<mapsto> ref_otp_config]) = (PICOKEYS_OK, t) \<and>
     slot_content ref_sdk t EF_OTP_SLOT2 = Some (PICOKEYS_OK, ref_otp_config) \<and> slot_secure t EF_OTP_SLOT2"
proof -
  let ?s = "ref_otp [EF_OTP_SLOT2 \<mapsto> ref_otp_config]"
  have ne: "ref_otp_config \<noteq> []" using length_ref_otp_config by fastforce
  have ns: "\<not> otp_slot_is_secure ref_otp_config n" for n
    by (simp add: otp_slot_is_secure_def otp_slot_magic_def ref_otp_config_def ref_otp_body_def numeral_eq_Suc)
  have l: "otp_slot_load ref_sdk (Some EF_OTP_SLOT2) ?s = (PICOKEYS_OK, ref_otp_config)"
    by (simp add: otp_slot_load_def file_reads ne ns)
  obtain t where t: "otp_migrate_slots ref_sdk ?s = (PICOKEYS_OK, t)"
    by (simp add: otp_migrate_slots_def otp_slots_eq file_reads ne ns l ref_slot_store Let_def)
  have c: "slot_content ref_sdk ?s EF_OTP_SLOT2 = Some (PICOKEYS_OK, ref_otp_config)"
    by (simp add: slot_content_def l ne)
  show ?thesis
    using t c otp_migration_preserves [OF ref_put_law ref_aead_law t] by (simp add: otp_slots_eq)
qed

text \<open>Slot 1 holds a configuration whose access code is zero; slot 2 is empty.\<close>

definition ref_slot1 :: files where
  "ref_slot1 = [EF_OTP_SLOT1 \<mapsto> otp_slot_magic @ [1] @ replicate 12 0xee @ ref_otp_config @ replicate 16 0xdd]"

lemma ref_slot1_load: "otp_slot_load ref_sdk (Some EF_OTP_SLOT1) (ref_otp ref_slot1) = (PICOKEYS_OK, ref_otp_config)"
  by (simp add: otp_slot_load_def file_reads ref_slot1_def otp_slot_is_secure_def otp_slot_magic_def ref_slot_key)

definition ref_swap_apdu :: apdu where
  "ref_swap_apdu = \<lparr>cla = 0, ins = 1, p1 = 6, p2 = 0, nc_data = []\<rparr>"

lemma ref_otp_config_ne: "ref_otp_config \<noteq> []"
  using length_ref_otp_config by fastforce

lemma ref_otp_config_code: "acc_code (otp_config_at ref_otp_config) = replicate 6 0"
  by (simp add: otp_config_at_def ref_otp_config_def ref_otp_body_def)

lemma otp_swap_exchanges_witness:
  "\<exists>t. otp_swap ref_sdk ref_swap_apdu (ref_otp ref_slot1) = (SW_OK, t) \<and>
     slot_content ref_sdk t EF_OTP_SLOT2 = Some (PICOKEYS_OK, ref_otp_config) \<and> slot_content ref_sdk t EF_OTP_SLOT1 = None"
proof -
  let ?s = "ref_otp ref_slot1"
  have q: "swap_request False ref_swap_apdu = Inr (EF_OTP_SLOT1, EF_OTP_SLOT2, replicate 6 0)"
    by (simp add: swap_request_def ref_swap_apdu_def)
  have f: "ref_slot1 EF_OTP_SLOT1 \<noteq> None" "ref_slot1 EF_OTP_SLOT2 = None" by (simp_all add: ref_slot1_def)
  obtain ef1 s1 where 1: "file_new ref_sdk EF_OTP_SLOT1 ?s = (ef1, s1)" by fastforce
  obtain ef2 s2 where 2: "file_new ref_sdk EF_OTP_SLOT2 s1 = (ef2, s2)" by fastforce
  have e: "ef1 = Some EF_OTP_SLOT1" "ef2 = Some EF_OTP_SLOT2" "files s2 = ref_slot1(EF_OTP_SLOT2 \<mapsto> [])" "scanned s2"
    using 1 2 f by (auto simp: file_new_def ref_new_def Let_def split: if_splits)
  have l: "otp_slot_load ref_sdk ef1 s2 = (PICOKEYS_OK, ref_otp_config)"
    using ref_slot1_load otp_slot_load_cong [of s2 EF_OTP_SLOT1 ?s ref_sdk] e by simp
  have d1: "swap_load ref_sdk ef1 (replicate 6 0) s2 = Inr (Some ref_otp_config)"
    using l e by (auto simp: swap_load_def ref_otp_config_code file_has_data_Some ref_slot1_def)
  have d2: "swap_load ref_sdk ef2 (replicate 6 0) s2 = Inr None"
    by (simp add: swap_load_def e file_has_data_Some)
  obtain dr s3 where 3: "file_delete ref_sdk ef1 s2 = (dr, s3)" by fastforce
  obtain p s4 where 4: "file_new ref_sdk EF_OTP_SLOT2 s3 = (p, s4)" by fastforce
  have p: "p = Some EF_OTP_SLOT2" using 4 by (simp add: file_new_def ref_new_def Let_def)
  have "fst (swap_write ref_sdk EF_OTP_SLOT2 ef1 ef2 (Some ref_otp_config) None s2) = SW_OK"
    by (simp add: swap_write_def 3 4 p ref_slot_store next_config_def otp_status_def Let_def)
  then obtain t where t: "otp_swap ref_sdk ref_swap_apdu ?s = (SW_OK, t)"
    by (cases "swap_write ref_sdk EF_OTP_SLOT2 ef1 ef2 (Some ref_otp_config) None s2")
       (simp add: otp_swap_def q 1 2 d1 d2 word_less_nat_alt)
  have c: "slot_content ref_sdk ?s EF_OTP_SLOT1 = Some (PICOKEYS_OK, ref_otp_config)" "slot_content ref_sdk ?s EF_OTP_SLOT2 = None"
    using ref_slot1_load f by (auto simp: slot_content_def ref_slot1_def)
  show ?thesis
    using otp_swap_exchanges [OF ref_put_law ref_new_law ref_delete_law ref_scan_law ref_aead_law ref_deletes ref_find_law t] t c q
    by auto
qed

lemma otp_slot_protected_witness:
  "files (snd (otp_process_apdu ref_sdk \<lparr>cla = 0, ins = 1, p1 = 1, p2 = 0, nc_data = ref_otp_config @ replicate 6 9\<rparr> (ref_otp ref_slot1)))
     EF_OTP_SLOT1 = ref_slot1 EF_OTP_SLOT1"
proof -
  let ?a = "\<lparr>cla = 0, ins = 1, p1 = 1, p2 = 0, nc_data = ref_otp_config @ replicate 6 9\<rparr>"
  obtain r t where t: "otp_process_apdu ref_sdk ?a (ref_otp ref_slot1) = (r, t)" by fastforce
  have c: "presented_code (is_otp (ref_otp ref_slot1)) ?a = replicate 6 9"
    by (simp add: presented_code_def)
  have ne: "replicate 6 (0 :: byte) \<noteq> replicate 6 9" by (simp add: replicate_eq_replicate)
  have "slot_locked ref_sdk (replicate 6 9) (ref_otp ref_slot1) EF_OTP_SLOT1"
    using ref_slot1_load by (auto simp: slot_locked_def slot_content_def ref_otp_config_code ref_slot1_def ne)
  then show ?thesis
    using otp_slot_protected [OF ref_put_law ref_new_law ref_delete_law ref_scan_law ref_find_law t, of EF_OTP_SLOT1] t c
    by (simp add: otp_slots_eq)
qed

end
