(* ===== verification/Otp_Counters.thy ===== *)
theory Otp_Counters
  imports Otp_Access
begin

text \<open>
  The use counter and the session counter: the pair a slot types with every Yubico password
  never repeats, neither within a session nor after a restart.
\<close>

subsection \<open>Reliable storage\<close>

text \<open>Writes to the slots, their encryption and the derivation of their keys do not fail.\<close>

definition slots_reliable :: "sdk \<Rightarrow> bool" where
  "slots_reliable k \<longleftrightarrow> put_law k \<and> aead_law k \<and> scan_law k \<and> u16_law k \<and> (\<forall>f \<in> set otp_slots. accepts k f) \<and>
     (\<forall>n key d. fst (sdk_aead_enc k n key d PIN_KDF_V2) = PICOKEYS_OK) \<and> (\<forall>f. fst (otp_slot_derive_key k f) = PICOKEYS_OK)"

lemma otp_slot_store_reliable:
  assumes "slots_reliable k" and "f \<in> set otp_slots" and "length plain = 52 \<or> length plain = 60"
    and "otp_slot_store k (Some f) plain s = (r, t)"
  shows "r = PICOKEYS_OK"
proof -
  obtain key where key: "otp_slot_derive_key k f = (PICOKEYS_OK, key)"
    using assms(1) by (metis prod.collapse slots_reliable_def)
  obtain c where c: "sdk_aead_enc k (tick s) key plain PIN_KDF_V2 = (PICOKEYS_OK, c)"
    using assms(1) by (metis prod.collapse slots_reliable_def)
  have "fst (file_put_data k (Some f) (otp_slot_magic @ [1] @ fit (length plain + 28) c) (s\<lparr>tick := Suc (tick s)\<rparr>)) = PICOKEYS_OK"
  proof -
    have "length (otp_slot_magic @ [1] @ fit (length plain + 28) c) \<le> 1024" using assms(3) by auto
    then have "fst (sdk_put k (Suc (tick s)) (files s) (Some f) (otp_slot_magic @ [1] @ fit (length plain + 28) c)) = PICOKEYS_OK"
      using assms(1,2) unfolding slots_reliable_def accepts_def by blast
    then show ?thesis by (simp add: file_put_data_def Let_def split_beta)
  qed
  then show ?thesis
    using assms(3,4) by (auto simp: otp_slot_store_def key c Let_def)
qed

lemma otp_slot_load_length: "otp_slot_load k ef s = (PICOKEYS_OK, d) \<Longrightarrow> length d = 52 \<or> length d = 60"
  by (auto simp: otp_slot_load_def Let_def file_get_size_def split: if_splits prod.splits)

lemma stored_content:
  assumes "slots_reliable k" and "f \<in> set otp_slots" and "length plain = 52 \<or> length plain = 60"
    and "otp_slot_store k (Some f) plain s = (r, t)"
  shows "r = PICOKEYS_OK" and "slot_content k t g = (if g = f then Some (PICOKEYS_OK, plain) else slot_content k s g)"
proof -
  show r: "r = PICOKEYS_OK" using otp_slot_store_reliable [OF assms] .
  have p: "put_law k" "aead_law k" using assms(1) by (simp_all add: slots_reliable_def)
  show "slot_content k t g = (if g = f then Some (PICOKEYS_OK, plain) else slot_content k s g)"
    using stored_slot(1) [OF p] assms(4) r otp_slot_store_frame [OF p(1) assms(4), of g] slot_cong(1) [of t g s k] by auto
qed

subsection \<open>Power up\<close>

text \<open>Every slot that holds anything can be decoded.\<close>

definition slots_decode :: "sdk \<Rightarrow> 'a plat_scheme \<Rightarrow> bool" where
  "slots_decode k s \<longleftrightarrow> (\<forall>f \<in> set otp_slots. case slot_content k s f of None \<Rightarrow> True | Some (r, d) \<Rightarrow> r = PICOKEYS_OK)"

lemma migrate_slots_reliable:
  assumes "slots_reliable k"
  shows "migrate_slots k fs c s = (r, c', t) \<Longrightarrow> set fs \<subseteq> set otp_slots \<Longrightarrow>
    (\<forall>f \<in> set fs. case slot_content k s f of None \<Rightarrow> True | Some (r, d) \<Rightarrow> r = PICOKEYS_OK) \<Longrightarrow> r = PICOKEYS_OK"
proof (induction fs arbitrary: c s)
  case Nil
  then show ?case by simp
next
  case (Cons f fs)
  let ?ef = "file_search s f"
  show ?case
  proof (cases "file_has_data s ?ef")
    case False
    then show ?thesis using Cons.IH [of c s] Cons.prems by (simp del: file_search_data)
  next
    case occ: True
    note sf = file_search_occupied [OF occ]
    obtain lr plain where l: "otp_slot_load k (Some f) s = (lr, plain)" by fastforce
    have lr: "lr = PICOKEYS_OK" using Cons.prems(3) occ l by (auto simp: slot_content_def simp del: file_search_data)
    obtain sr u where st: "otp_slot_store k (Some f) plain s = (sr, u)" by fastforce
    have m: "f \<in> set otp_slots" using Cons.prems(2) by simp
    note st' = stored_content [OF assms m otp_slot_load_length [OF l [unfolded lr]] st]
    have "migrate_slots k fs c s = (r, c', t) \<or> migrate_slots k fs True u = (r, c', t)"
      using Cons.prems(1) occ l sf lr st st'(1) by (auto simp: Let_def simp del: file_search_data split: if_splits)
    then show ?thesis
    proof
      assume "migrate_slots k fs True u = (r, c', t)"
      then show ?thesis using Cons.IH [of True u] Cons.prems(2,3) st'(2) by (auto split: option.splits)
    qed (use Cons.IH [of c s] Cons.prems in simp)
  qed
qed

text \<open>What power up makes of the contents of a slot.\<close>

definition types_yubico :: "otp_config \<Rightarrow> bool" where
  "types_yubico c \<longleftrightarrow> tkt_flags c AND OATH_HOTP = 0 \<and> \<not> is_static_ticket c"

definition bump :: "sdk \<Rightarrow> bytes \<Rightarrow> bytes" where
  "bump k d = (if length d = OTP_SLOT_PLAIN_MAX \<and> types_yubico (otp_config_at d) \<and> otp_counter k d + 1 \<le> 0x7fff
     then set_otp_counter k (otp_counter k d + 1) d else d)"

lemma set_otp_counter_length: "u16_law k \<Longrightarrow> length d = 60 \<Longrightarrow> length (set_otp_counter k c d) = 60"
  by (simp add: set_otp_counter_def u16_law_def)

lemma bump_counters_spec:
  assumes "slots_reliable k"
  shows "bump_counters k fs s = (b, t) \<Longrightarrow> distinct fs \<Longrightarrow> set fs \<subseteq> set otp_slots \<Longrightarrow>
    (\<forall>f \<in> set fs. case slot_content k s f of None \<Rightarrow> True | Some (r, d) \<Rightarrow> r = PICOKEYS_OK) \<Longrightarrow>
    b \<and> (\<forall>f. slot_content k t f = (if f \<in> set fs then map_option (map_prod id (bump k)) (slot_content k s f) else slot_content k s f))"
proof (induction fs arbitrary: s)
  case Nil
  then show ?case by simp
next
  case (Cons f fs)
  let ?ef = "file_search s f"
  have u16: "u16_law k" using assms by (simp add: slots_reliable_def)
  have m: "f \<in> set otp_slots" using Cons.prems(3) by simp
  obtain lr d where l: "otp_slot_load k ?ef s = (lr, d)" by fastforce
  show ?case
  proof (cases "file_has_data s ?ef")
    case False
    then have "lr \<noteq> PICOKEYS_OK" "slot_content k s f = None" using l by (auto simp: otp_slot_load_def slot_content_def simp del: file_search_data)
    then show ?thesis using Cons.IH [of s] Cons.prems l by (simp add: Let_def)
  next
    case occ: True
    note sf = file_search_occupied [OF occ]
    have content: "slot_content k s f = Some (lr, d)" using occ l sf by (simp add: slot_content_def del: file_search_data)
    then have lr: "lr = PICOKEYS_OK" using Cons.prems(4) by simp
    show ?thesis
    proof (cases "length d = OTP_SLOT_PLAIN_MAX \<and> types_yubico (otp_config_at d) \<and> otp_counter k d + 1 \<le> 0x7fff")
      case False
      then have "bump_counters k fs s = (b, t)" using Cons.prems(1) l lr by (auto simp: Let_def types_yubico_def)
      moreover have "bump k d = d" using False by (auto simp: bump_def)
      ultimately show ?thesis using Cons.IH [of s] Cons.prems content by (auto simp: lr)
    next
      case True
      let ?d = "set_otp_counter k (otp_counter k d + 1) d"
      obtain sr u where st: "otp_slot_store k (Some f) ?d s = (sr, u)" by fastforce
      have len: "length ?d = 52 \<or> length ?d = 60" using set_otp_counter_length [OF u16, of d] True by simp
      note st' = stored_content [OF assms m len st]
      have "bump_counters k fs u = (b, t)" using Cons.prems(1) l lr True sf st st'(1) by (auto simp: Let_def types_yubico_def)
      moreover have "bump k d = ?d" using True by (simp add: bump_def)
      moreover have "\<forall>g \<in> set fs. slot_content k u g = slot_content k s g" using st'(2) Cons.prems(2) by auto
      ultimately show ?thesis using Cons.IH [of u] Cons.prems content st'(2) by (auto simp: lr)
    qed
  qed
qed

lemma init_otp_spec:
  assumes "slots_reliable k" and "slots_decode k s" and "\<not> scanned s"
  shows "scanned (init_otp k s)" and "f \<in> set otp_slots \<Longrightarrow> slot_content k (init_otp k s) f = map_option (map_prod id (bump k)) (slot_content k s f)"
proof -
  have p: "put_law k" "aead_law k" "scan_law k" using assms(1) by (simp_all add: slots_reliable_def)
  have c1: "slot_content k (scan_all k s) f = slot_content k s f" if "f \<in> set otp_slots" for f
    using scan_all_keeps [OF p(1,3), of s] static_not_slot [OF that] slot_cong(1) [of "scan_all k s" f s k] by (simp add: keeps_def)
  obtain r u where m: "otp_migrate_slots k (scan_all k s) = (r, u)" by fastforce
  have c2: "slot_content k u f = slot_content k (scan_all k s) f" for f
    using migration_keeps [OF p(1,2) m] by blast
  have r: "r = PICOKEYS_OK"
  proof -
    obtain mr c v where v: "migrate_slots k otp_slots False (scan_all k s) = (mr, c, v)" by (metis prod_cases3)
    have "mr = PICOKEYS_OK"
      using migrate_slots_reliable [OF assms(1) v subset_refl] assms(2) c1 by (simp add: slots_decode_def)
    then show ?thesis using m v by (simp add: otp_migrate_slots_def)
  qed
  obtain b v where b: "bump_counters k otp_slots u = (b, v)" by fastforce
  have d: "distinct otp_slots" by (simp add: otp_slots_eq)
  have b2: "b \<and> (\<forall>f. slot_content k v f =
      (if f \<in> set otp_slots then map_option (map_prod id (bump k)) (slot_content k u f) else slot_content k u f))"
    by (rule bump_counters_spec [OF assms(1) b d subset_refl]) (use assms(2) c1 c2 in \<open>simp add: slots_decode_def\<close>)
  have t: "init_otp k s = flash_commit (v\<lparr>scanned := True\<rparr>)" using assms(3) m r b b2 by (simp add: init_otp_def)
  show "scanned (init_otp k s)" by (simp add: t flash_commit_def)
  show "slot_content k (init_otp k s) f = map_option (map_prod id (bump k)) (slot_content k s f)" if "f \<in> set otp_slots"
    using b2 c1 [OF that] c2 that slot_cong(1) [of "init_otp k s" f v k] by (simp add: t)
qed

text \<open>The scan and the migration touch neither the session counters nor what was typed.\<close>

definition still :: "'a otp_scheme \<Rightarrow> 'a otp_scheme \<Rightarrow> bool" where
  "still s t \<longleftrightarrow> scanned t = scanned s \<and> session_counter t = session_counter s \<and> keyboard t = keyboard s"

lemma still_step: "store_step s t \<Longrightarrow> still s t"
  by (auto simp: store_step_def still_def)

lemma still_trans: "still s t \<Longrightarrow> still t u \<Longrightarrow> still s u"
  by (simp add: still_def)

lemma load_keydev_still:
  fixes s :: "'a otp_scheme"
  assumes "load_keydev k z s = (r, key, t)"
  shows "still s t"
proof -
  have c: "still s (flash_commit u)" if "file_put_data k ef d (s\<lparr>tick := n\<rparr>) = (q, u)" for ef d q u n
    using still_step [OF file_put_data_step [OF that]] by (simp add: still_def flash_commit_def)
  have "t = s \<or> (\<exists>n. t = s\<lparr>tick := n\<rparr>) \<or> (\<exists>ef d q u n. file_put_data k ef d (s\<lparr>tick := n\<rparr>) = (q, u) \<and> t = flash_commit u)"
    using assms unfolding load_keydev_def Let_def
    by (auto simp del: file_search_data split: option.splits prod.splits if_splits) blast+
  then show ?thesis using c by (auto simp: still_def)
qed

lemma scan_keydev_still:
  fixes s :: "'a otp_scheme"
  assumes "scan_keydev k s = (r, t)"
  shows "still s t"
proof -
  have c: "still s (flash_commit u)" if "file_put_data k ef d (s\<lparr>tick := n\<rparr>) = (q, u)" for ef d q u n
    using still_step [OF file_put_data_step [OF that]] by (simp add: still_def flash_commit_def)
  show ?thesis
    using assms unfolding scan_keydev_def encrypt_keydev_f1_def Let_def
    by (auto split: prod.splits if_splits intro: c) (auto simp: still_def)
qed

lemma scan_certdev_still:
  fixes s :: "'a otp_scheme"
  assumes "scan_certdev k s = (go, r, t)"
  shows "still s t"
proof -
  let ?ef = "file_search s EF_EE_DEV"
  obtain lr root s1 where l: "load_keydev k (replicate 32 0) s = (lr, root, s1)" by (metis prod_cases3)
  obtain r1 kp1 where rk: "sdk_ec_read_key k MBEDTLS_ECP_DP_SECP256R1 keypair_init root = (r1, kp1)" by fastforce
  obtain r2 kp2 where cp: "sdk_ec_calc_public k (tick s1) kp1 = (r2, kp2)" by fastforce
  obtain r3 der u where x: "x509_create_cert k kp2 2048 (s1\<lparr>tick := Suc (tick s1)\<rparr>) = (r3, der, u)" by (metis prod_cases3)
  obtain r4 v where p: "file_put_data k ?ef der u = (r4, v)" by fastforce
  have 1: "still s s1" using load_keydev_still [OF l] .
  have 2: "still s u" using 1 x by (auto simp: x509_create_cert_def random_fill_buffer_def still_def Let_def split: prod.splits)
  have 3: "still s v" using still_trans [OF 2 still_step [OF file_put_data_step [OF p]]] .
  show ?thesis
    using assms 1 2 3 unfolding scan_certdev_def Let_def l rk cp prod.case x p
    by (auto simp: still_def simp del: file_search_data split: if_splits)
qed

lemma fill_random_still:
  fixes s :: "'a otp_scheme"
  shows "still s (fill_random k ef s)"
proof -
  have "still s (snd (file_put_data k ef d (s\<lparr>tick := n\<rparr>)))" for d n
    using still_step [OF file_put_data_step [of k ef d "s\<lparr>tick := n\<rparr>" "fst (file_put_data k ef d (s\<lparr>tick := n\<rparr>))"
        "snd (file_put_data k ef d (s\<lparr>tick := n\<rparr>))"]] by (simp add: still_def)
  then show ?thesis by (auto simp: fill_random_def random_fill_buffer_def) (simp add: still_def)
qed

lemma put_still:
  fixes s :: "'a otp_scheme"
  shows "still s (snd (file_put_data k ef d s))"
  using still_step [OF file_put_data_step [of k ef d s "fst (file_put_data k ef d s)" "snd (file_put_data k ef d s)"]] by simp

lemma scan_all_still:
  fixes s :: "'a otp_scheme"
  shows "still s (scan_all k s)"
proof -
  let ?s = "s\<lparr>files := sdk_scan_flash k (tick s) (files s), tick := Suc (tick s)\<rparr>"
  obtain r1 s1 where 1: "scan_keydev k ?s = (r1, s1)" by fastforce
  obtain go r2 s2 where 2: "scan_certdev k s1 = (go, r2, s2)" by (metis prod_cases3)
  have k1: "still s s1" using scan_keydev_still [OF 1] by (simp add: still_def)
  have k2: "still s s2" using still_trans [OF k1 scan_certdev_still [OF 2]] .
  have c: "still u (scan_counter k u)" for u :: "'a otp_scheme"
    using put_still [of u] by (simp add: scan_counter_def Let_def still_def)
  have t: "still u (scan_tokens k u)" for u :: "'a otp_scheme"
    unfolding scan_tokens_def Let_def by (simp add: still_def fill_random_still [unfolded still_def])
  have r: "still u (scan_rest k u)" for u :: "'a otp_scheme"
    unfolding scan_rest_def Let_def by (simp add: still_def fill_random_still [unfolded still_def] put_still [unfolded still_def])
  have k3: "still s (scan_rest k (scan_tokens k (scan_counter k s2)))"
    using still_trans [OF still_trans [OF still_trans [OF k2 c] t] r] .
  show ?thesis
    using 1 2 k1 k2 k3 by (simp add: scan_all_def scan_files_fido_def still_def flash_commit_def)
qed

lemma otp_slot_store_still:
  fixes s :: "'a otp_scheme"
  shows "otp_slot_store k ef plain s = (r, t) \<Longrightarrow> still s t"
  using still_step [OF otp_slot_store_step] by blast

lemma migrate_slots_still:
  fixes s :: "'a otp_scheme"
  shows "migrate_slots k fs c s = (r, c', t) \<Longrightarrow> still s t"
proof (induction fs arbitrary: c s)
  case Nil
  then show ?case by (simp add: still_def)
next
  case (Cons f fs)
  obtain lr plain where l: "otp_slot_load k (file_search s f) s = (lr, plain)" by fastforce
  obtain sr u where st: "otp_slot_store k (file_search s f) plain s = (sr, u)" by fastforce
  have "t = s \<or> t = u \<or> (\<exists>c. migrate_slots k fs c s = (r, c', t)) \<or> (\<exists>c. migrate_slots k fs c u = (r, c', t))"
    using Cons.prems l st by (auto simp: Let_def simp del: file_search_data split: if_splits)
  then show ?case
    using Cons.IH [of _ s] Cons.IH [of _ u] otp_slot_store_still [OF st] still_trans by (auto simp: still_def)
qed

lemma bump_counters_still:
  fixes s :: "'a otp_scheme"
  shows "bump_counters k fs s = (b, t) \<Longrightarrow> still s t"
proof (induction fs arbitrary: s)
  case Nil
  then show ?case by (simp add: still_def)
next
  case (Cons f fs)
  obtain lr d where l: "otp_slot_load k (file_search s f) s = (lr, d)" by fastforce
  obtain sr u where st: "otp_slot_store k (file_search s f) (set_otp_counter k (otp_counter k d + 1) d) s = (sr, u)" by fastforce
  have "t = u \<or> bump_counters k fs s = (b, t) \<or> bump_counters k fs u = (b, t)"
    using Cons.prems l st by (auto simp: Let_def split: if_splits)
  then show ?case
    using Cons.IH [of s] Cons.IH [of u] otp_slot_store_still [OF st] still_trans by blast
qed

lemma init_otp_session: "session_counter (init_otp k s) = session_counter s" "keyboard (init_otp k s) = keyboard s"
proof -
  let ?s = "scan_all k s"
  obtain mr c u where m: "migrate_slots k otp_slots False ?s = (mr, c, u)" by (metis prod_cases3)
  obtain b v where b: "bump_counters k otp_slots (if c then flash_commit u else u) = (b, v)" by fastforce
  have "still s u" using still_trans [OF scan_all_still migrate_slots_still [OF m]] .
  then have u: "still s (if c then flash_commit u else u)" by (simp add: still_def flash_commit_def)
  have v: "still s v" using still_trans [OF u bump_counters_still [OF b]] .
  show "session_counter (init_otp k s) = session_counter s" "keyboard (init_otp k s) = keyboard s"
    using \<open>still s u\<close> u v b m unfolding init_otp_def otp_migrate_slots_def Let_def
    by (auto simp: still_def flash_commit_def split: if_splits)
qed

lemma init_otp_decode:
  assumes "slots_reliable k" and "slots_decode k s"
  shows "slots_decode k (init_otp k s)"
proof (cases "scanned s")
  case False
  show ?thesis
    using init_otp_spec(2) [OF assms False] assms(2) by (auto simp: slots_decode_def split: option.splits)
qed (use assms(2) in \<open>simp add: init_otp_def\<close>)

subsection \<open>A press\<close>

lemma store_content:
  assumes "slots_reliable k" and "otp_slot_store k (Some f) plain s = (r, t)" and "g \<noteq> f"
  shows "slot_content k t g = slot_content k s g"
  using assms slot_cong(1) [OF otp_slot_store_frame [OF _ assms(2), of g], of k] by (auto simp: slots_reliable_def)

lemma store_decode:
  assumes "slots_reliable k" and "otp_slot_store k (Some f) plain s = (r, t)" and "slots_decode k s"
  shows "slots_decode k t"
proof (cases "r = PICOKEYS_OK")
  case True
  have p: "put_law k" "aead_law k" using assms(1) by (simp_all add: slots_reliable_def)
  have "slot_content k t f = Some (PICOKEYS_OK, plain)" using stored_slot(1) [OF p] assms(2) True by simp
  then show ?thesis using assms(3) store_content [OF assms(1,2)] unfolding slots_decode_def by (metis (mono_tags, lifting) case_prodI option.simps(5))
next
  case False
  then have "files t = files s" using otp_slot_store_fail [OF _ assms(2)] assms(1) by (simp add: slots_reliable_def)
  then show ?thesis using assms(3) slot_cong(1) [of t _ s k] by (simp add: slots_decode_def)
qed

text \<open>What the applet keeps in memory between presses.\<close>

definition same_session :: "'a otp_scheme \<Rightarrow> 'a otp_scheme \<Rightarrow> bool" where
  "same_session s t \<longleftrightarrow> scanned t = scanned s \<and> session_counter t = session_counter s"

lemma same_session_refl [simp]: "same_session s s"
  by (simp add: same_session_def)

lemma same_session_step: "store_step s t \<Longrightarrow> same_session s t"
  by (auto simp: store_step_def same_session_def)

lemma same_session_trans: "same_session s t \<Longrightarrow> same_session t u \<Longrightarrow> same_session s u"
  by (simp add: same_session_def)

lemma append_cr_simps [simp]:
  "files (append_cr c cr s) = files s" "scanned (append_cr c cr s) = scanned s" "session_counter (append_cr c cr s) = session_counter s"
  by (simp_all add: append_cr_def append_keyboard_buffer_def)

lemma add_keyboard_simps [simp]:
  "files (add_keyboard_buffer d e s) = files s" "scanned (add_keyboard_buffer d e s) = scanned s"
  "session_counter (add_keyboard_buffer d e s) = session_counter s"
  by (simp_all add: add_keyboard_buffer_def)

lemma type_static_frame: "files (type_static d s) = files s" "same_session s (type_static d s)"
  by (simp_all add: type_static_def same_session_def)

lemma calculate_oath_session:
  fixes s t :: "'a otp_scheme"
  shows "calculate_oath k p key chal s = (r, t) \<Longrightarrow> files t = files s \<and> same_session s t"
  by (auto simp: calculate_oath_def Let_def res_append_def set_ne_def same_session_def split: if_splits option.splits prod.splits)

lemma type_hotp_frame:
  fixes s :: "'a otp_scheme"
  assumes "slots_reliable k"
  shows "same_session s (type_hotp k (Some f) d s)" and "g \<noteq> f \<Longrightarrow> slot_content k (type_hotp k (Some f) d s) g = slot_content k s g"
    and "slots_decode k s \<Longrightarrow> slots_decode k (type_hotp k (Some f) d s)"
proof -
  let ?c = "otp_config_at d"
  obtain r s1 where 1: "calculate_oath k 1 ([0x01, 0] @ aes_key ?c) (sdk_put_u64 k (hotp_factor k d)) (s\<lparr>res_APDU := []\<rparr>) = (r, s1)" by fastforce
  have s1: "files s1 = files s" "same_session s s1"
    using calculate_oath_session [OF 1] by (simp_all add: same_session_def)
  define s2 where "s2 = (let eight = cfg_flags ?c AND OATH_HOTP8 \<noteq> 0;
      number = unat (sdk_get_u16 k (drop 2 (res_APDU s1))) mod (if eight then 100000000 else 1000000)
    in if eight then add_keyboard_buffer (decimal 8 number) True s1 else add_keyboard_buffer (decimal 6 number) True s1)"
  have s2: "files s2 = files s" "same_session s s2" using s1 by (auto simp: s2_def Let_def same_session_def)
  obtain r3 s3 where 3: "otp_slot_store k (Some f) (take otp_config_size d @ sdk_put_u64 k (hotp_factor k d + 1)) s2 = (r3, s3)" by fastforce
  have s3: "same_session s s3" using s2 same_session_step [OF otp_slot_store_step [OF 3]] same_session_trans by blast
  have t: "type_hotp k (Some f) d s = append_cr ?c [0x0d] (if r = PICOKEYS_OK then flash_commit s3 else s1)"
    using 1 3 by (simp add: type_hotp_def s2_def Let_def)
  show "same_session s (type_hotp k (Some f) d s)" using s1 s3 by (simp add: t same_session_def flash_commit_def)
  have sc: "slot_content k s1 g = slot_content k s g" "slot_content k s2 g = slot_content k s g" for g
    using slot_cong(1) [of s1 g s] slot_cong(1) [of s2 g s] s1 s2 by auto
  have tc: "slot_content k (type_hotp k (Some f) d s) g = slot_content k (if r = PICOKEYS_OK then s3 else s1) g" for g
    by (rule slot_cong(1)) (simp add: t)
  show "slot_content k (type_hotp k (Some f) d s) g = slot_content k s g" if "g \<noteq> f"
    using store_content [OF assms 3 that] sc tc by simp
  show "slots_decode k (type_hotp k (Some f) d s)" if "slots_decode k s"
    using that store_decode [OF assms 3] sc by (simp add: slots_decode_def tc)
qed

text \<open>The counter a slot stores, and the pair the next password carries.\<close>

definition stored_counter :: "sdk \<Rightarrow> bytes \<Rightarrow> u16" where
  "stored_counter k d = (if length d = OTP_SLOT_PLAIN_MAX then otp_counter k d else 0)"

definition use_counter :: "sdk \<Rightarrow> bytes \<Rightarrow> u16" where
  "use_counter k d = (if stored_counter k d = 0 then 1 else stored_counter k d)"

definition yubico_password :: "sdk \<Rightarrow> otp_config \<Rightarrow> u16 \<Rightarrow> byte \<Rightarrow> u32 \<Rightarrow> bytes \<Rightarrow> bytes" where
  "yubico_password k c counter session ts rnd =
     encode_modhex (take 6 (fixed_data c) @ fit 16 (snd (sdk_aes_ecb k (aes_key c) (token_body k c counter ts session rnd))))"

text \<open>What a press leaves in the slot.\<close>

definition used :: "sdk \<Rightarrow> byte \<Rightarrow> bytes \<Rightarrow> bytes" where
  "used k session d =
     (if session + 1 = 0
      then if stored_counter k d = 0 \<or> use_counter k d + 1 \<le> 0x7fff
           then set_otp_counter k (use_counter k d + 1) (fit OTP_SLOT_PLAIN_MAX d) else d
      else if stored_counter k d = 0 then set_otp_counter k 1 (fit OTP_SLOT_PLAIN_MAX d) else d)"

lemma type_yubico_spec:
  fixes s :: "'a otp_scheme" and i :: nat
  assumes "slots_reliable k" and "f \<in> set otp_slots" and "slot_content k s f = Some (PICOKEYS_OK, d)"
    and ld: "length d = 52 \<or> length d = 60" and "slots_decode k s"
  defines "t \<equiv> type_yubico k i (Some f) d s"
  shows "slot_content k t g = (if g = f then Some (PICOKEYS_OK, used k (byte_at (session_counter s) i) d) else slot_content k s g)"
    and "session_counter t = (session_counter s)[i := byte_at (session_counter s) i + 1]"
    and "scanned t = scanned s"
    and "\<exists>ts rnd cr. keyboard t = keyboard s @ [Add_Keyboard (yubico_password k (otp_config_at d) (use_counter k d)
           (byte_at (session_counter s) i) ts rnd) True] @ map Append_Keyboard cr"
    and "slots_decode k t"
proof -
  let ?c = "otp_config_at d" and ?ses = "byte_at (session_counter s) i"
  let ?rnd = "sdk_random k (tick s) 2" and ?ts = "drop_bit 1 (millis s div 1000)"
  let ?pw = "yubico_password k ?c (use_counter k d) ?ses ?ts ?rnd"
  define s1 where "s1 = append_cr ?c [0x0d] (add_keyboard_buffer ?pw True (s\<lparr>tick := Suc (tick s)\<rparr>))"
  define s2 where "s2 = s1\<lparr>session_counter := (session_counter s1)[i := ?ses + 1]\<rparr>"
  define plain where "plain = (if ?ses + 1 = 0 then set_otp_counter k (use_counter k d + 1) (fit OTP_SLOT_PLAIN_MAX d)
                               else set_otp_counter k 1 (fit OTP_SLOT_PLAIN_MAX d))"
  define upd where "upd \<longleftrightarrow> (if ?ses + 1 = 0 then stored_counter k d = 0 \<or> use_counter k d + 1 \<le> 0x7fff else stored_counter k d = 0)"
  obtain r3 s3 where 3: "otp_slot_store k (Some f) plain s2 = (r3, s3)" by fastforce
  have t: "t = (if upd then flash_commit s3 else s2)"
    using 3 unfolding t_def type_yubico_def Let_def random_fill_buffer_def prod.case upd_def plain_def
    by (auto simp: s2_def s1_def yubico_password_def use_counter_def stored_counter_def split: if_splits)
  have k1: "\<exists>cr. keyboard s1 = keyboard s @ [Add_Keyboard ?pw True] @ map Append_Keyboard cr"
    by (auto simp: s1_def append_cr_def append_keyboard_buffer_def add_keyboard_buffer_def intro: exI [of _ "[]"] exI [of _ "[_]"])
  have s2: "files s2 = files s" "scanned s2 = scanned s" "session_counter s2 = (session_counter s)[i := ?ses + 1]" "keyboard s2 = keyboard s1"
    by (simp_all add: s2_def s1_def)
  have s3: "scanned s3 = scanned s2" "session_counter s3 = session_counter s2" "keyboard s3 = keyboard s2"
    using otp_slot_store_still [OF 3] by (simp_all add: still_def)
  show "session_counter t = (session_counter s)[i := ?ses + 1]" "scanned t = scanned s"
    using s2 s3 by (simp_all add: t flash_commit_def)
  show "\<exists>ts rnd cr. keyboard t = keyboard s @ [Add_Keyboard (yubico_password k ?c (use_counter k d) ?ses ts rnd) True] @ map Append_Keyboard cr"
    using k1 s2 s3 by (auto simp: t flash_commit_def)
  have c2: "slot_content k s2 g = slot_content k s g" for g using slot_cong(1) [of s2 g s] s2 by simp
  have "u16_law k" using assms(1) by (simp add: slots_reliable_def)
  then have len: "length plain = 52 \<or> length plain = 60" by (simp add: plain_def set_otp_counter_length)
  have ct: "slot_content k t g = slot_content k (if upd then s3 else s2) g" for g
    by (rule slot_cong(1)) (simp add: t)
  show "slot_content k t g = (if g = f then Some (PICOKEYS_OK, used k ?ses d) else slot_content k s g)"
    using stored_content(2) [OF assms(1,2) len 3] c2 assms(3) by (auto simp: ct used_def plain_def upd_def)
  show "slots_decode k t"
    using assms(5) store_decode [OF assms(1) 3] c2 by (simp add: slots_decode_def ct)
qed

text \<open>A press, in the state it finds after power up.\<close>

lemma press_slot:
  assumes "slot \<in> {1, 2, 3, 4 :: byte}"
  shows "EF_OTP_SLOT1 + ucast slot - 1 = EF_OTP_SLOT1 + word_of_nat (unat slot - 1)" "EF_OTP_SLOT1 + ucast slot - 1 \<in> set otp_slots"
    "unat slot - 1 \<le> 3"
  using assms by (auto simp: otp_slots_eq)

lemma press_frame:
  fixes s :: "'a otp_scheme"
  assumes "slots_reliable k" and "slots_decode k s" and "scanned s" and slot: "slot \<in> {1, 2, 3, 4}"
    and "otp_button_pressed k slot s = (r, t)"
  defines "f \<equiv> EF_OTP_SLOT1 + ucast slot - 1"
  shows "slots_decode k t \<and> scanned t \<and> length (session_counter t) = length (session_counter s) \<and>
    (\<forall>g. g \<noteq> f \<longrightarrow> slot_content k t g = slot_content k s g) \<and>
    (\<forall>j. j \<noteq> unat slot - 1 \<longrightarrow> byte_at (session_counter t) j = byte_at (session_counter s) j) \<and> (r \<noteq> 0 \<longrightarrow> t = s)"
proof -
  have i: "init_otp k s = s" using assms(3) by (simp add: init_otp_def)
  have m: "f \<in> set otp_slots" using press_slot(2) [OF slot] by (simp add: f_def)
  obtain lr d where l: "otp_slot_load k (file_search s f) s = (lr, d)" by fastforce
  consider "t = s" | "r = 0" "lr = PICOKEYS_OK" "t = type_hotp k (file_search s f) d s" | "r = 0" "t = type_static d s"
    | "r = 0" "lr = PICOKEYS_OK" "t = type_yubico k (unat slot - 1) (file_search s f) d s"
    using assms(5) l unfolding otp_button_pressed_def i f_def [symmetric] Let_def
    by (auto simp del: file_search_data split: if_splits)
  then show ?thesis
  proof cases
    case 2
    have "file_search s f = Some f" using l 2(2) file_search_occupied by (auto simp: otp_slot_load_def simp del: file_search_data split: if_splits)
    then show ?thesis
      using 2 assms(2,3) type_hotp_frame [OF assms(1), where s = s and f = f and d = d] by (auto simp: same_session_def)
  next
    case 3
    have "files t = files s" "same_session s t" using 3 type_static_frame by auto
    then show ?thesis using assms(2,3) slot_cong(1) [of t _ s k] 3(1) by (simp add: same_session_def slots_decode_def)
  next
    case 4
    have occ: "file_has_data s (file_search s f)" using l 4(2) by (auto simp: otp_slot_load_def simp del: file_search_data split: if_splits)
    note sf = file_search_occupied [OF occ]
    have c: "slot_content k s f = Some (PICOKEYS_OK, d)" using occ sf l 4(2) by (simp add: slot_content_def del: file_search_data)
    have ld: "length d = 52 \<or> length d = 60" using otp_slot_load_length l 4(2) by blast
    note ty = type_yubico_spec [OF assms(1) m c ld assms(2), of "unat slot - 1", folded 4(3) [unfolded sf]]
    show ?thesis using ty assms(3) 4(1) by (simp add: byte_at_def)
  qed (use assms(2,3) in simp)
qed

lemma press_yubico:
  fixes s :: "'a otp_scheme"
  assumes "slots_reliable k" and "slots_decode k s" and "scanned s" and slot: "slot \<in> {1, 2, 3, 4}"
    and "otp_button_pressed k slot s = (0, t)" and "slot_content k s (EF_OTP_SLOT1 + ucast slot - 1) = Some (PICOKEYS_OK, d)"
    and "types_yubico (otp_config_at d)"
  shows "t = type_yubico k (unat slot - 1) (Some (EF_OTP_SLOT1 + ucast slot - 1)) d s"
proof -
  have i: "init_otp k s = s" using assms(3) by (simp add: init_otp_def)
  define f where "f = EF_OTP_SLOT1 + (ucast slot :: fid) - 1"
  have occ: "file_has_data s (file_search s f)" using assms(6) by (simp add: slot_content_def f_def split: if_splits)
  note sf = file_search_occupied [OF occ]
  have l: "otp_slot_load k (file_search s f) s = (PICOKEYS_OK, d)"
    using assms(6) occ sf by (simp add: slot_content_def f_def del: file_search_data)
  show ?thesis
    using assms(5,7) occ unfolding otp_button_pressed_def i f_def [symmetric] Let_def l prod.case
    by (auto simp: types_yubico_def sf simp del: file_search_data split: if_splits)
qed

subsection \<open>Presses and restarts\<close>

text \<open>
  The runs of the key: presses of any slot and restarts, which lose what is in memory and keep
  the files. The list is the pairs of use counter and session counter that were typed from
  the slot \<open>Suc i\<close>.
\<close>

definition next_pair :: "sdk \<Rightarrow> nat \<Rightarrow> 'a otp_scheme \<Rightarrow> u16 \<times> byte" where
  "next_pair k i s =
     (case slot_content k s (EF_OTP_SLOT1 + word_of_nat i) of
        None \<Rightarrow> (0, 0)
      | Some (r, d) \<Rightarrow> (use_counter k d, byte_at (session_counter s) i))"

inductive key_runs :: "sdk \<Rightarrow> nat \<Rightarrow> 'a otp_scheme \<Rightarrow> (u16 \<times> byte) list \<Rightarrow> 'a otp_scheme \<Rightarrow> bool" for k i s0 where
  key_start: "key_runs k i s0 [] s0"
| key_press: "key_runs k i s0 ps s \<Longrightarrow> slot \<in> {1, 2, 3, 4} \<Longrightarrow> otp_button_pressed k slot s = (r, t) \<Longrightarrow>
    key_runs k i s0 (if unat slot = Suc i \<and> r = 0 then ps @ [next_pair k i (init_otp k s)] else ps) t"
| key_restart: "key_runs k i s0 ps s \<Longrightarrow> files t = files s \<Longrightarrow> \<not> scanned t \<Longrightarrow> session_counter t = [0, 0] \<Longrightarrow> key_runs k i s0 ps t"

definition pair_value :: "u16 \<times> byte \<Rightarrow> nat" where
  "pair_value p = unat (fst p) * 256 + unat (snd p)"

text \<open>No pair that was typed is as high as the bound.\<close>

definition slot_data :: "sdk \<Rightarrow> nat \<Rightarrow> 'a plat_scheme \<Rightarrow> bytes" where
  "slot_data k i s = snd (the (slot_content k s (EF_OTP_SLOT1 + word_of_nat i)))"

definition pair_bound :: "sdk \<Rightarrow> nat \<Rightarrow> 'a otp_scheme \<Rightarrow> nat" where
  "pair_bound k i s =
     (if scanned s then pair_value (next_pair k i s) else (unat (stored_counter k (slot_data k i s)) + 1) * 256)"

definition key_invariant :: "sdk \<Rightarrow> nat \<Rightarrow> (u16 \<times> byte) list \<Rightarrow> 'a otp_scheme \<Rightarrow> bool" where
  "key_invariant k i ps s \<longleftrightarrow>
     slots_decode k s \<and> length (session_counter s) = 2 \<and>
     (\<exists>d. slot_content k s (EF_OTP_SLOT1 + word_of_nat i) = Some (PICOKEYS_OK, d) \<and> types_yubico (otp_config_at d)) \<and>
     stored_counter k (slot_data k i s) \<le> 0x7fff \<and>
     (stored_counter k (slot_data k i s) < 0x7fff \<longrightarrow>
        (ps \<noteq> [] \<longrightarrow> stored_counter k (slot_data k i s) \<noteq> 0) \<and>
        (\<forall>p \<in> set ps. pair_value p < pair_bound k i s) \<and> sorted_wrt (<) (map pair_value ps))"

lemma set_otp_counter_facts:
  assumes "u16_law k" and "length d = 60"
  shows "stored_counter k (set_otp_counter k c d) = c" "types_yubico (otp_config_at (set_otp_counter k c d)) = types_yubico (otp_config_at d)"
    "length (set_otp_counter k c d) = 60"
proof -
  show 3: "length (set_otp_counter k c d) = 60" using set_otp_counter_length [OF assms] .
  have "drop 52 (set_otp_counter k c d) = sdk_put_u16 k c @ drop 54 d"
    using assms by (simp add: set_otp_counter_def)
  then show "stored_counter k (set_otp_counter k c d) = c"
    using assms 3 by (simp add: stored_counter_def otp_counter_def u16_law_def)
  have "byte_at (set_otp_counter k c d) j = byte_at d j" if "j < 52" for j
    using that assms by (simp add: set_otp_counter_def byte_at_def nth_append)
  then show "types_yubico (otp_config_at (set_otp_counter k c d)) = types_yubico (otp_config_at d)"
    by (simp add: types_yubico_def is_static_ticket_def otp_config_at_def)
qed

lemma types_yubico_fit: "length d = 52 \<or> length d = 60 \<Longrightarrow> types_yubico (otp_config_at (fit 60 d)) = types_yubico (otp_config_at d)"
  by (auto simp: types_yubico_def is_static_ticket_def otp_config_at_def byte_at_def fit_pad nth_append)

text \<open>A press moves the bound past the pair it types.\<close>

lemma unat_add_1: "x + 1 \<noteq> 0 \<Longrightarrow> unat (x + 1) = unat x + 1" for x :: "'a :: len word"
  using unat_minus_one [of "x + 1"] by (simp add: unat_gt_0 Suc_leI unat_eq_zero word_less_nat_alt)

lemma used_facts:
  assumes "u16_law k" and "length d = 52 \<or> length d = 60" and "stored_counter k d \<le> 0x7fff"
  shows "types_yubico (otp_config_at (used k x d)) = types_yubico (otp_config_at d)"
    and "stored_counter k (used k x d) \<le> 0x7fff" and "stored_counter k d \<le> stored_counter k (used k x d)"
    and "stored_counter k (used k x d) < 0x7fff \<Longrightarrow> stored_counter k (used k x d) \<noteq> 0"
    and "stored_counter k (used k x d) < 0x7fff \<Longrightarrow>
           pair_value (use_counter k d, x) < pair_value (use_counter k (used k x d), x + 1)"
proof -
  let ?c = "stored_counter k d" and ?n = "stored_counter k (used k x d)"
  note set60 = set_otp_counter_facts [OF assms(1) length_fit]
  show "types_yubico (otp_config_at (used k x d)) = types_yubico (otp_config_at d)"
    using set60(2) types_yubico_fit [OF assms(2)] by (simp add: used_def)
  have n: "?n = (if x + 1 = 0 then if ?c = 0 then 2 else if ?c + 1 \<le> 0x7fff then ?c + 1 else ?c
                 else if ?c = 0 then 1 else ?c)"
    using set60(1) by (simp add: used_def use_counter_def)
  have u: "unat ?c \<le> 0x7fff" using assms(3) by (simp add: word_le_nat_alt)
  then have c1: "unat (?c + 1) = unat ?c + 1" by (simp add: unat_word_ariths)
  show "?n \<le> 0x7fff" "?c \<le> ?n" using u c1 by (auto simp: n word_le_nat_alt unat_eq_zero)
  show "?n \<noteq> 0" if "?n < 0x7fff" using c1 that by (auto simp: n word_less_nat_alt unat_eq_zero)
  show "pair_value (use_counter k d, x) < pair_value (use_counter k (used k x d), x + 1)" if lt: "?n < 0x7fff"
  proof (cases "x + 1 = 0")
    case True
    have "unat x < 256" using unsigned_less [of x] by simp
    moreover have "unat (use_counter k (used k x d)) = unat (use_counter k d) + 1"
      using lt c1 u unfolding use_counter_def n by (auto simp: True word_less_nat_alt word_le_nat_alt not_le split: if_splits)
    ultimately show ?thesis using True by (simp add: pair_value_def)
  next
    case False
    then have "use_counter k (used k x d) = use_counter k d" by (simp add: use_counter_def n)
    then show ?thesis using unat_add_1 [OF False] by (simp add: pair_value_def)
  qed
qed

text \<open>So does power up.\<close>

lemma bump_facts:
  assumes "u16_law k" and "length d = 52 \<or> length d = 60" and "stored_counter k d \<le> 0x7fff" and "types_yubico (otp_config_at d)"
  shows "types_yubico (otp_config_at (bump k d))"
    and "stored_counter k (bump k d) \<le> 0x7fff" and "stored_counter k d \<le> stored_counter k (bump k d)"
    and "stored_counter k (bump k d) < 0x7fff \<Longrightarrow> stored_counter k d \<noteq> 0 \<Longrightarrow>
           (unat (stored_counter k d) + 1) * 256 \<le> pair_value (use_counter k (bump k d), x)"
proof -
  let ?c = "stored_counter k d" and ?n = "stored_counter k (bump k d)"
  have n: "?n = (if length d = 60 \<and> ?c + 1 \<le> 0x7fff then ?c + 1 else ?c)"
    using set_otp_counter_facts [OF assms(1), of d] assms(4) by (simp add: bump_def stored_counter_def)
  show "types_yubico (otp_config_at (bump k d))"
    using set_otp_counter_facts [OF assms(1), of d] assms(4) by (simp add: bump_def)
  have u: "unat ?c \<le> 0x7fff" using assms(3) by (simp add: word_le_nat_alt)
  then have c1: "unat (?c + 1) = unat ?c + 1" by (simp add: unat_word_ariths)
  show "?n \<le> 0x7fff" "?c \<le> ?n" using u c1 by (auto simp: n word_le_nat_alt)
  show "(unat ?c + 1) * 256 \<le> pair_value (use_counter k (bump k d), x)" if "?n < 0x7fff" "?c \<noteq> 0"
  proof -
    have "length d = 60" using that(2) by (simp add: stored_counter_def split: if_splits)
    moreover have "?c + 1 \<le> 0x7fff" using that(1) u c1 n by (auto simp: word_le_nat_alt word_less_nat_alt split: if_splits)
    ultimately have "unat ?n = unat ?c + 1" using c1 by (simp add: n)
    moreover from this have "?n \<noteq> 0" by auto
    ultimately show ?thesis by (simp add: pair_value_def use_counter_def)
  qed
qed

lemma init_otp_invariant:
  assumes "slots_reliable k" and "i < 2" and "key_invariant k i ps s"
  shows "key_invariant k i ps (init_otp k s)" and "scanned (init_otp k s)"
proof -
  let ?f = "EF_OTP_SLOT1 + word_of_nat i" and ?t = "init_otp k s"
  have m: "?f \<in> set otp_slots" using assms(2) by (auto simp: otp_slots_eq less_2_cases_iff)
  have u: "u16_law k" using assms(1) by (simp add: slots_reliable_def)
  have dec: "slots_decode k s" using assms(3) by (simp add: key_invariant_def)
  show "scanned ?t" using init_otp_spec(1) [OF assms(1) dec] by (cases "scanned s") (simp_all add: init_otp_def)
  show "key_invariant k i ps ?t"
  proof (cases "scanned s")
    case True
    then show ?thesis using assms(3) by (simp add: init_otp_def)
  next
    case False
    obtain d where d: "slot_content k s ?f = Some (PICOKEYS_OK, d)" "types_yubico (otp_config_at d)"
      using assms(3) by (auto simp: key_invariant_def)
    have sd: "slot_data k i s = d" using d by (simp add: slot_data_def)
    have ld: "length d = 52 \<or> length d = 60"
      using d(1) otp_slot_load_length [of k "Some ?f" s d] by (auto simp: slot_content_def split: if_splits)
    have c: "slot_content k ?t ?f = Some (PICOKEYS_OK, bump k d)" using init_otp_spec(2) [OF assms(1) dec False m] d by simp
    have sdt: "slot_data k i ?t = bump k d" using c by (simp add: slot_data_def)
    have le: "stored_counter k d \<le> 0x7fff" using assms(3) sd by (simp add: key_invariant_def)
    note bf = bump_facts [OF u ld le d(2)]
    have ord: "(ps \<noteq> [] \<longrightarrow> stored_counter k (bump k d) \<noteq> 0) \<and> (\<forall>p \<in> set ps. pair_value p < pair_bound k i ?t) \<and> sorted_wrt (<) (map pair_value ps)"
      if lt: "stored_counter k (bump k d) < 0x7fff"
    proof -
      have o: "(ps \<noteq> [] \<longrightarrow> stored_counter k d \<noteq> 0) \<and> (\<forall>p \<in> set ps. pair_value p < pair_bound k i s) \<and> sorted_wrt (<) (map pair_value ps)"
        using assms(3) order_le_less_trans [OF bf(3) lt] by (simp add: key_invariant_def sd)
      have b: "pair_bound k i s \<le> pair_bound k i ?t" if "stored_counter k d \<noteq> 0"
        using bf(4) [OF lt that] False \<open>scanned ?t\<close> by (simp add: pair_bound_def sd next_pair_def c)
      have "stored_counter k (bump k d) \<noteq> 0" if "stored_counter k d \<noteq> 0" using bf(3) that by (auto simp: word_le_nat_alt unat_eq_zero)
      then show ?thesis using o b by (cases "ps = []") (auto intro: order_less_le_trans)
    qed
    show ?thesis
      using init_otp_decode [OF assms(1) dec] init_otp_session [of k s] assms(3) c bf(1,2) ord
      by (simp add: key_invariant_def sdt)
  qed
qed

lemma press_invariant:
  fixes s :: "'a otp_scheme"
  assumes "slots_reliable k" and "i < 2" and inv: "key_invariant k i ps s" and sc: "scanned s" and slot: "slot \<in> {1, 2, 3, 4}"
    and press: "otp_button_pressed k slot s = (r, t)"
  shows "key_invariant k i (if unat slot = Suc i \<and> r = 0 then ps @ [next_pair k i s] else ps) t"
proof -
  let ?f = "EF_OTP_SLOT1 + word_of_nat i :: fid"
  have m: "?f \<in> set otp_slots" using assms(2) by (auto simp: otp_slots_eq less_2_cases_iff)
  have u: "u16_law k" using assms(1) by (simp add: slots_reliable_def)
  have dec: "slots_decode k s" using inv by (simp add: key_invariant_def)
  note fr = press_frame [OF assms(1) dec sc slot press]
  obtain d where d: "slot_content k s ?f = Some (PICOKEYS_OK, d)" "types_yubico (otp_config_at d)"
    using inv by (auto simp: key_invariant_def)
  have sd: "slot_data k i s = d" using d by (simp add: slot_data_def)
  have ld: "length d = 52 \<or> length d = 60"
    using d(1) otp_slot_load_length [of k "Some ?f" s d] by (auto simp: slot_content_def split: if_splits)
  have le: "stored_counter k d \<le> 0x7fff" using inv sd by (simp add: key_invariant_def)
  have len: "length (session_counter s) = 2" using inv by (simp add: key_invariant_def)
  show ?thesis
  proof (cases "unat slot = Suc i \<and> r = 0")
    case False
    have "slot_content k t ?f = slot_content k s ?f \<and> byte_at (session_counter t) i = byte_at (session_counter s) i"
    proof (cases "r = 0")
      case True
      then have ne: "unat slot \<noteq> Suc i" using False by simp
      then have "?f \<noteq> EF_OTP_SLOT1 + ucast slot - 1" "i \<noteq> unat slot - 1"
        using slot assms(2) by (auto simp: less_2_cases_iff)
      then show ?thesis using fr by simp
    qed (use fr in simp)
    then have "next_pair k i t = next_pair k i s" "slot_data k i t = slot_data k i s" "slot_content k t ?f = slot_content k s ?f"
      by (simp_all add: next_pair_def slot_data_def d(1))
    then show ?thesis using fr inv sc False by (auto simp: key_invariant_def pair_bound_def)
  next
    case True
    have f: "?f = EF_OTP_SLOT1 + ucast slot - 1" and j: "unat slot - 1 = i"
      using slot True assms(2) by auto
    let ?x = "byte_at (session_counter s) i"
    have t: "t = type_yubico k i (Some ?f) d s"
      using press_yubico [OF assms(1) dec sc slot _ d(1) [unfolded f] d(2), of t, unfolded j, folded f] press True by simp
    note ty = type_yubico_spec [OF assms(1) m d(1) ld dec, of i, folded t]
    have c: "slot_content k t ?f = Some (PICOKEYS_OK, used k ?x d)" using ty(1) [of ?f] by simp
    have sdt: "slot_data k i t = used k ?x d" using c by (simp add: slot_data_def)
    have xt: "byte_at (session_counter t) i = ?x + 1" using ty(2) len assms(2) by (simp add: byte_at_def)
    note uf = used_facts [OF u ld le, of ?x]
    have p: "next_pair k i s = (use_counter k d, ?x)" "next_pair k i t = (use_counter k (used k ?x d), ?x + 1)"
      using d(1) c xt by (simp_all add: next_pair_def)
    have ord: "(\<forall>p \<in> set (ps @ [next_pair k i s]). pair_value p < pair_bound k i t) \<and> sorted_wrt (<) (map pair_value (ps @ [next_pair k i s]))"
      if lt: "stored_counter k (used k ?x d) < 0x7fff"
    proof -
      have o: "(\<forall>p \<in> set ps. pair_value p < pair_value (next_pair k i s)) \<and> sorted_wrt (<) (map pair_value ps)"
        using inv order_le_less_trans [OF uf(3) lt] sc by (simp add: key_invariant_def sd pair_bound_def)
      have b: "pair_value (next_pair k i s) < pair_bound k i t" using uf(5) [OF lt] fr by (simp add: pair_bound_def p)
      show ?thesis using o b by (auto simp: sorted_wrt_append intro: order_less_trans)
    qed
    show ?thesis
      using fr len c d(2) uf(1,2,4) ord True by (simp add: key_invariant_def sdt)
  qed
qed

lemma restart_invariant:
  fixes s t :: "'a otp_scheme"
  assumes inv: "key_invariant k i ps s" and t: "files t = files s" "\<not> scanned t" "session_counter t = [0, 0]"
  shows "key_invariant k i ps t"
proof -
  let ?f = "EF_OTP_SLOT1 + word_of_nat i :: fid"
  have c: "slot_content k t f = slot_content k s f" for f using slot_cong(1) [of t f s k] t by simp
  then have sd: "slot_data k i t = slot_data k i s" by (simp add: slot_data_def)
  obtain r d where d: "slot_content k s ?f = Some (r, d)" using inv by (auto simp: key_invariant_def)
  have sd': "slot_data k i s = d" using d by (simp add: slot_data_def)
  have b: "pair_bound k i s \<le> pair_bound k i t" if "stored_counter k (slot_data k i s) \<noteq> 0"
  proof -
    have "unat (byte_at (session_counter s) i) < 2 ^ 8" by (rule order_less_le_trans [OF unsigned_less]) simp
    then show ?thesis using that by (auto simp: pair_bound_def t(2) next_pair_def d sd sd' pair_value_def use_counter_def)
  qed
  have "\<forall>p \<in> set ps. pair_value p < pair_bound k i t"
    if "ps \<noteq> [] \<longrightarrow> stored_counter k (slot_data k i s) \<noteq> 0" "\<forall>p \<in> set ps. pair_value p < pair_bound k i s"
    using that b by (cases "ps = []") (auto intro: order_less_le_trans)
  then show ?thesis using inv t(3) by (auto simp: key_invariant_def slots_decode_def c sd)
qed

lemma key_runs_invariant:
  assumes "slots_reliable k" and "i < 2" and "key_runs k i s0 ps s" and "key_invariant k i [] s0"
  shows "key_invariant k i ps s"
  using assms(3)
proof induction
  case key_start
  then show ?case by (rule assms(4))
next
  case (key_press ps s slot r t)
  note i = init_otp_invariant [OF assms(1,2) key_press.IH]
  have "otp_button_pressed k slot (init_otp k s) = (r, t)"
    using key_press.hyps(3) i(2) by (simp add: otp_button_pressed_def init_otp_def [of k "init_otp k s"])
  then show ?case using press_invariant [OF assms(1,2) i key_press.hyps(2)] by simp
next
  case (key_restart ps s t)
  then show ?case using restart_invariant by blast
qed

text \<open>
  C33: With storage that works, the pairs of use counter and session counter in the passwords that
  slot one or slot two types strictly increase over any sequence of presses and restarts, as long
  as the stored use counter is below its limit \<open>0x7fff\<close>; and what the next press types is the
  password for the next pair. So a validation server never sees a pair of these slots twice below
  the limit. The other two slots have no session counter of their own.
\<close>

theorem yubico_pairs_increase:
  assumes "slots_reliable k" and "i < 2" and "key_runs k i s0 ps s"
    and start: "slots_decode k s0" "length (session_counter s0) = 2"
      "slot_content k s0 (EF_OTP_SLOT1 + word_of_nat i) = Some (PICOKEYS_OK, d)" "types_yubico (otp_config_at d)"
      "stored_counter k d \<le> 0x7fff"
    and limit: "stored_counter k (slot_data k i s) < 0x7fff"
  shows "sorted_wrt (<) (map pair_value ps) \<and>
    (\<forall>slot \<in> {1, 2, 3, 4}. \<forall>t. unat slot = Suc i \<longrightarrow> otp_button_pressed k slot s = (0, t) \<longrightarrow>
       (\<exists>ts rnd cr. keyboard t = keyboard s @ [Add_Keyboard (yubico_password k (otp_config_at (slot_data k i (init_otp k s)))
          (fst (next_pair k i (init_otp k s))) (snd (next_pair k i (init_otp k s))) ts rnd) True] @ map Append_Keyboard cr))"
proof -
  let ?f = "EF_OTP_SLOT1 + word_of_nat i :: fid" and ?s = "init_otp k s"
  have "key_invariant k i [] s0"
    using start by (simp add: key_invariant_def slot_data_def)
  then have inv: "key_invariant k i ps s" by (rule key_runs_invariant [OF assms(1-3)])
  note i = init_otp_invariant [OF assms(1,2) inv]
  have m: "?f \<in> set otp_slots" using assms(2) by (auto simp: otp_slots_eq less_2_cases_iff)
  have dec: "slots_decode k ?s" using i(1) by (simp add: key_invariant_def)
  obtain e where e: "slot_content k ?s ?f = Some (PICOKEYS_OK, e)" "types_yubico (otp_config_at e)"
    using i(1) by (auto simp: key_invariant_def)
  have le: "length e = 52 \<or> length e = 60"
    using e(1) otp_slot_load_length [of k "Some ?f" ?s e] by (auto simp: slot_content_def split: if_splits)
  have "\<exists>ts rnd cr. keyboard t = keyboard s @ [Add_Keyboard (yubico_password k (otp_config_at (slot_data k i ?s))
        (fst (next_pair k i ?s)) (snd (next_pair k i ?s)) ts rnd) True] @ map Append_Keyboard cr"
    if slot: "slot \<in> {1, 2, 3, 4}" "unat slot = Suc i" and press: "otp_button_pressed k slot s = (0, t)" for slot t
  proof -
    have f: "?f = EF_OTP_SLOT1 + ucast slot - 1" and j: "unat slot - 1 = i"
      using slot assms(2) by auto
    have press': "otp_button_pressed k slot ?s = (0, t)"
      using press i(2) by (simp add: otp_button_pressed_def init_otp_def [of k ?s])
    have t: "t = type_yubico k i (Some ?f) e ?s"
      using press_yubico [OF assms(1) dec i(2) slot(1) press' e(1) [unfolded f] e(2), unfolded j, folded f] .
    show ?thesis
      using type_yubico_spec(4) [OF assms(1) m e(1) le dec, of i, folded t] init_otp_session [of k s] e(1)
      by (simp add: next_pair_def slot_data_def)
  qed
  then show ?thesis using inv limit by (simp add: key_invariant_def)
qed

lemma ref_slots_reliable: "slots_reliable ref_sdk"
  by (simp add: slots_reliable_def ref_put_law ref_aead_law ref_scan_law ref_u16_law ref_slot_key accepts_def ref_put_def)

lemma press_types:
  assumes "scanned s" and "cap_supported k s CAP_OTP" and "slot_content k s (EF_OTP_SLOT1 + ucast slot - 1) = Some (PICOKEYS_OK, d)"
    and "types_yubico (otp_config_at d)"
  shows "fst (otp_button_pressed k slot s) = 0"
proof -
  have occ: "file_has_data s (file_search s (EF_OTP_SLOT1 + ucast slot - 1))"
    using assms(3) by (simp add: slot_content_def split: if_splits)
  show ?thesis
    using assms occ file_search_occupied [OF occ]
    by (auto simp: otp_button_pressed_def init_otp_def Let_def slot_content_def types_yubico_def simp del: file_search_data)
qed

lemma yubico_pairs_increase_witness:
  "\<exists>p q s. key_runs ref_sdk 0 (ref_otp [EF_OTP_SLOT1 \<mapsto> replicate 60 0]) [p, q] s \<and> pair_value p < pair_value q"
proof -
  let ?s = "ref_otp [EF_OTP_SLOT1 \<mapsto> replicate 60 0]" and ?d = "replicate 60 0 :: bytes"
  let ?f = "EF_OTP_SLOT1 + word_of_nat 0 :: fid"
  have sess: "session_counter ?s = [0, 0]"
    by (simp add: ref_otp_def device.defs ref_device_def resident.defs ref_resident_def fido.defs ref_fido_def)
  have c: "slot_content ref_sdk ?s g = (if g = EF_OTP_SLOT1 then Some (PICOKEYS_OK, ?d) else None)" for g
    by (simp add: slot_content_def otp_slot_load_def file_reads otp_slot_is_secure_def)
  have y: "types_yubico (otp_config_at ?d)"
    by (simp add: types_yubico_def is_static_ticket_def otp_config_at_def byte_at_def)
  have st: "stored_counter ref_sdk ?d = 0"
    by (simp add: stored_counter_def otp_counter_def ref_get_be_def fit_def numeral_eq_Suc)
  have dec: "slots_decode ref_sdk ?s" by (simp add: slots_decode_def c)
  have cap: "cap_supported ref_sdk s CAP_OTP" if "slot_content ref_sdk s EF_DEV_CONF = None" for s :: otp
    using that by (auto intro!: cap_supported_unconfigured simp: slot_content_def file_has_data_Some split: if_splits)
  obtain t where 1: "otp_button_pressed ref_sdk 1 ?s = (0, t)"
    using press_types [of ?s ref_sdk 1 ?d] cap [of ?s] c y by (cases "otp_button_pressed ref_sdk 1 ?s") simp
  have t: "t = type_yubico ref_sdk 0 (Some ?f) ?d ?s"
    using press_yubico [OF ref_slots_reliable dec _ _ 1, of ?d] c y by simp
  note ty = type_yubico_spec [OF ref_slots_reliable _ _ _ dec, of ?f ?d 0, folded t]
  define e where "e = used ref_sdk 0 ?d"
  have e: "e = set_otp_counter ref_sdk 1 ?d" by (simp add: e_def used_def st)
  have ct: "slot_content ref_sdk t g = (if g = EF_OTP_SLOT1 then Some (PICOKEYS_OK, e) else None)" for g
    using ty(1) [of g] c sess by (simp add: otp_slots_eq e_def byte_at_def)
  have se: "scanned t" "session_counter t = [1, 0]" "slots_decode ref_sdk t"
    using ty(2,3,5) c sess by (simp_all add: otp_slots_eq byte_at_def)
  have ye: "types_yubico (otp_config_at e)" "stored_counter ref_sdk e = 1"
    using set_otp_counter_facts [OF ref_u16_law, of ?d 1] y by (simp_all add: e)
  obtain u where 2: "otp_button_pressed ref_sdk 1 t = (0, u)"
    using press_types [of t ref_sdk 1 e] cap [of t] ct ye se by (cases "otp_button_pressed ref_sdk 1 t") simp
  have u: "u = type_yubico ref_sdk 0 (Some ?f) e t"
    using press_yubico [OF ref_slots_reliable se(3) se(1) _ 2, of e] ct ye by simp
  have le: "length e = 60" using set_otp_counter_facts(3) [OF ref_u16_law, of ?d 1] by (simp add: e)
  have "slot_content ref_sdk u EF_OTP_SLOT1 = Some (PICOKEYS_OK, used ref_sdk 1 e)"
    using type_yubico_spec(1) [OF ref_slots_reliable _ _ _ se(3), of ?f e 0, folded u] ct le se by (simp add: otp_slots_eq byte_at_def)
  then have lim: "stored_counter ref_sdk (slot_data ref_sdk 0 u) < 0x7fff"
    by (simp add: slot_data_def used_def ye)
  have r1: "key_runs ref_sdk 0 ?s [next_pair ref_sdk 0 (init_otp ref_sdk ?s)] t"
    using key_press [OF key_start [of _ 0] _ 1] by simp
  have r2: "key_runs ref_sdk 0 ?s [next_pair ref_sdk 0 (init_otp ref_sdk ?s), next_pair ref_sdk 0 (init_otp ref_sdk t)] u"
    using key_press [OF r1 _ 2] by simp
  have "pair_value (next_pair ref_sdk 0 (init_otp ref_sdk ?s)) < pair_value (next_pair ref_sdk 0 (init_otp ref_sdk t))"
    using yubico_pairs_increase [OF ref_slots_reliable _ r2 dec _ _ y _ lim] c sess st by simp
  with r2 show ?thesis by blast
qed

end
