(* ===== verification/Otp_Frames.thy ===== *)
theory Otp_Frames
  imports Otp_Access
begin

text \<open>
  The transfer of frames over the eight-byte feature reports of the keyboard interface: what
  the device sends arrives whole, and what the host sends is run exactly once.
\<close>

subsection \<open>Sending\<close>

text \<open>The host reads reports one after the other.\<close>

fun read_reports :: "sdk \<Rightarrow> bytes \<Rightarrow> nat \<Rightarrow> 'a otp_scheme \<Rightarrow> bytes list \<times> 'a otp_scheme" where
  "read_reports k buffer 0 s = ([], s)"
| "read_reports k buffer (Suc n) s =
     (let (r, s) = otp_hid_get_report_cb k buffer s; (rs, s) = read_reports k buffer n s in (r # rs, s))"

text \<open>The report that carries the bytes from \<open>7 * j\<close> on.\<close>

definition frame_report :: "bytes \<Rightarrow> bytes \<Rightarrow> nat \<Rightarrow> bytes" where
  "frame_report buffer frame j = fit 7 (take 7 (drop (7 * j) frame)) @ [0x40 OR word_of_nat j] @ drop 8 buffer"

lemma get_report_step:
  assumes "kb_send_size s > 0" and "kb_send_size s + 7 * j = length frame" and "otp_curr_seq s = word_of_nat j"
    and "length frame \<le> 70" and "take (length frame) (otp_frame_tx s) = frame"
  shows "otp_hid_get_report_cb k buffer s =
    (frame_report buffer frame j, s\<lparr>otp_curr_seq := word_of_nat (Suc j), kb_send_size := length frame - 7 * Suc j\<rparr>)"
proof -
  have j: "j < 10" using assms by simp
  then have u: "unat (word_of_nat j :: byte) = j" by (simp add: unat_of_nat_byte)
  have n: "min 7 (kb_send_size s) = min 7 (length frame - 7 * j)" using assms(2) by simp
  have "take (min 7 (length frame - 7 * j)) (drop (7 * j) (otp_frame_tx s)) = take 7 (drop (7 * j) (take (length frame) (otp_frame_tx s)))"
    by (simp add: drop_take)
  then have d: "take (min 7 (kb_send_size s)) (drop (7 * j) (otp_frame_tx s)) = take 7 (drop (7 * j) frame)"
    using assms(5) n by simp
  have "kb_send_size s - min 7 (kb_send_size s) = length frame - 7 * Suc j" using assms(1,2) by simp
  then show ?thesis
    using assms(1,3) d by (simp add: otp_hid_get_report_cb_def Let_def u assms(3) frame_report_def add.commute)
qed

lemma read_reports_step:
  assumes "7 * j < length frame" and "kb_send_size s = length frame - 7 * j" and "otp_curr_seq s = word_of_nat j"
    and "length frame \<le> 70" and "take (length frame) (otp_frame_tx s) = frame" and "7 * (j + n) < length frame + 7"
  shows "read_reports k buffer n s = (map (frame_report buffer frame) [j..<j + n],
    if n = 0 then s else s\<lparr>otp_curr_seq := word_of_nat (j + n), kb_send_size := length frame - 7 * (j + n)\<rparr>)"
  using assms
proof (induction n arbitrary: j s)
  case 0
  then show ?case by simp
next
  case (Suc n)
  let ?t = "s\<lparr>otp_curr_seq := word_of_nat (Suc j), kb_send_size := length frame - 7 * Suc j\<rparr>"
  have g: "otp_hid_get_report_cb k buffer s = (frame_report buffer frame j, ?t)"
    by (rule get_report_step) (use Suc.prems in simp_all)
  show ?case
  proof (cases n)
    case 0
    then show ?thesis using g by simp
  next
    case (Suc m)
    have lt: "7 * Suc j < length frame" using Suc.prems(6) Suc by simp
    have "read_reports k buffer n ?t = (map (frame_report buffer frame) [Suc j..<Suc j + n],
        if n = 0 then ?t else ?t\<lparr>otp_curr_seq := word_of_nat (Suc j + n), kb_send_size := length frame - 7 * (Suc j + n)\<rparr>)"
      by (rule Suc.IH) (use lt Suc.prems in simp_all)
    then show ?thesis using g Suc by (simp add: upt_conv_Cons del: upt_Suc)
  qed
qed

text \<open>The data of the reports, put together.\<close>

lemma fit_alt: "fit n d = take n d @ replicate (n - length d) 0"
  by (simp add: fit_def)

lemma fit_add: "fit (a + b) d = fit a d @ fit b (drop a d)"
proof (cases "a \<le> length d")
  case False
  then show ?thesis by (simp add: fit_alt replicate_add [symmetric])
qed (simp add: fit_alt take_add)

lemma fit_take: "fit n (take n d) = fit n d"
  by (simp add: fit_alt min_def)

lemma take_fit: "length d \<le> n \<Longrightarrow> take (length d) (fit n d) = d"
  by (simp add: fit_pad)

lemma reports_data:
  "concat (map (\<lambda>j. take 7 (frame_report buffer frame j)) [0..<n]) = fit (7 * n) frame"
proof (induction n)
  case 0
  then show ?case by (simp add: fit_def)
next
  case (Suc n)
  have "fit (7 * Suc n) frame = fit (7 * n) frame @ fit 7 (drop (7 * n) frame)"
    using fit_add [of "7 * n" 7 frame] by (simp add: add.commute)
  then show ?case using Suc by (simp add: frame_report_def fit_take)
qed

text \<open>
  C35: a response of \<open>n\<close> bytes is sent in \<open>(n + 8) div 7\<close> reports: their numbers count up from
  zero, their data together are the response followed by its checksum and padded with zeros,
  the checksum closes to the residue \<open>0xF0B8\<close>, and the report after the last one is the empty
  one that ends the transfer; after it nothing is left to send.
\<close>

theorem otp_frame_sent:
  assumes "u16_le_law k" and "length (otp_frame_tx s) = 70" and "n \<le> 68" and "length buffer \<ge> 8"
  defines "m \<equiv> (n + 8) div 7"
  shows "\<exists>reports t u crc. read_reports k buffer m (otp_send_frame k n s) = (reports, t) \<and>
    length reports = m \<and> (\<forall>j < m. length (reports ! j) = length buffer \<and> reports ! j ! 7 = 0x40 OR word_of_nat j) \<and>
    length crc = 2 \<and> concat (map (take 7) reports) = fit (7 * m) (take n (otp_frame_tx s) @ crc) \<and>
    calculate_crc (take n (otp_frame_tx s) @ crc) = 0xF0B8 \<and>
    otp_hid_get_report_cb k buffer t = (replicate 7 0 @ [0x40] @ drop 8 buffer, u) \<and>
    kb_send_size u = 0 \<and> otp_curr_seq u = 0 \<and> otp_exp_seq u = 0"
proof -
  let ?c = "calculate_crc (take n (otp_frame_tx s))"
  define crc where "crc = [ucast (NOT ?c) :: byte, ucast (drop_bit 8 (NOT ?c))]"
  define frame where "frame = take n (otp_frame_tx s) @ crc"
  let ?s = "otp_send_frame k n s"
  have lf: "length frame = n + 2" using assms(2,3) by (simp add: frame_def crc_def)
  have tx: "take (length frame) (otp_frame_tx ?s) = frame"
    using assms(1,2,3) by (simp add: otp_send_frame_def Let_def splice_def u16_le_law_def frame_def crc_def)
  have m0: "m > 0" and m: "7 * m < length frame + 7" "7 * m \<ge> length frame" "m \<le> 10"
    using assms(3) lf by (auto simp: m_def)
  have m_div: "m = (if (n + 2) mod 7 \<noteq> 0 then (n + 2) div 7 + 1 else (n + 2) div 7)"
    unfolding m_def by presburger
  define t where "t = ?s\<lparr>otp_curr_seq := word_of_nat m, kb_send_size := 0\<rparr>"
  have r: "read_reports k buffer m ?s = (map (frame_report buffer frame) [0..<m], t)"
    using read_reports_step [of 0 frame ?s m k buffer] m m0 lf assms(3) tx
    by (simp add: otp_send_frame_def Let_def t_def)
  have e: "otp_exp_seq t = word_of_nat m" "otp_curr_seq t = word_of_nat m" "kb_send_size t = 0"
    using m_div by (simp_all add: t_def otp_send_frame_def Let_def)
  have "(word_of_nat m :: byte) > 0" using m0 m(3) unat_of_nat_byte [of m] by (simp add: word_less_nat_alt)
  then have g: "otp_hid_get_report_cb k buffer t = (replicate 7 0 @ [0x40] @ drop 8 buffer, t\<lparr>otp_curr_seq := 0, otp_exp_seq := 0\<rparr>)"
    using e by (simp add: otp_hid_get_report_cb_def)
  have l: "length (frame_report buffer frame j) = length buffer \<and> frame_report buffer frame j ! 7 = 0x40 OR word_of_nat j" for j
    using assms(4) by (simp add: frame_report_def nth_append)
  have d: "concat (map (take 7) (map (frame_report buffer frame) [0..<m])) = fit (7 * m) frame"
    using reports_data [of buffer frame m] by (simp add: comp_def)
  have "calculate_crc frame = 0xF0B8" using crc_closes by (simp add: frame_def crc_def)
  moreover have "length crc = 2" by (simp add: crc_def)
  ultimately show ?thesis
    using r g l d e by (auto simp: frame_def)
qed

subsection \<open>Receiving\<close>

text \<open>
  The host cuts a frame of 70 bytes into ten reports numbered from zero. It may leave out a
  report whose data are all zero, except the first and the last.
\<close>

definition host_report :: "bytes \<Rightarrow> nat \<Rightarrow> bytes" where
  "host_report frame j = take 7 (drop (7 * j) frame) @ [0x80 OR word_of_nat j]"

definition host_reports :: "bytes \<Rightarrow> (nat \<Rightarrow> bool) \<Rightarrow> bytes list" where
  "host_reports frame skip = map (host_report frame) (filter (\<lambda>j. \<not> skip j) [0..<10])"

fun send_reports :: "sdk \<Rightarrow> bytes list \<Rightarrow> 'a otp_scheme \<Rightarrow> 'a otp_scheme" where
  "send_reports k [] s = s"
| "send_reports k (r # rs) s = send_reports k rs (snd (otp_hid_set_report_cb k 3 r s))"

lemma send_reports_append: "send_reports k (rs @ rs') s = send_reports k rs' (send_reports k rs s)"
  by (induction rs arbitrary: s) simp_all

text \<open>What of the frame has arrived before report \<open>j\<close>.\<close>

definition arrived :: "bytes \<Rightarrow> nat \<Rightarrow> bytes" where
  "arrived frame j = take (7 * j) frame @ replicate (70 - 7 * j) 0"

lemma arrived_splice:
  assumes "length frame = 70" and "j < 10"
  shows "splice (arrived frame j) (7 * j, 7) (take 7 (drop (7 * j) frame)) = arrived frame (Suc j)"
proof -
  have "take (7 * Suc j) frame = take (7 * j) frame @ take 7 (drop (7 * j) frame)"
    using take_add [of "7 * j" 7 frame] by (simp add: add.commute)
  then show ?thesis using assms by (simp add: splice_def arrived_def)
qed

lemma arrived_skip:
  assumes "length frame = 70" and "j < 10" and "take 7 (drop (7 * j) frame) = replicate 7 0"
  shows "arrived frame j = arrived frame (Suc j)"
proof -
  have "take (7 * Suc j) frame = take (7 * j) frame @ replicate 7 0"
    using take_add [of "7 * j" 7 frame] assms(3) by (simp add: add.commute)
  moreover have "70 - 7 * j = 7 + (70 - 7 * Suc j)" using assms(2) by simp
  ultimately show ?thesis by (simp only: arrived_def replicate_add append_assoc)
qed

lemma host_report_facts:
  assumes "length frame = 70" and "j < 10"
  shows "take 7 (host_report frame j) = take 7 (drop (7 * j) frame)"
    and "\<exists>x. host_report frame j ! 7 = x \<and> x \<noteq> 0xFF \<and> x AND 0x80 \<noteq> 0 \<and> unat (x AND 0x1F) = j"
proof -
  show "take 7 (host_report frame j) = take 7 (drop (7 * j) frame)"
    using assms by (simp add: host_report_def)
  have n: "host_report frame j ! 7 = 0x80 OR word_of_nat j" using assms by (simp add: host_report_def nth_append)
  have "j \<in> {0, 1, 2, 3, 4, 5, 6, 7, 8, 9}" using assms(2) by auto
  then have "(0x80 OR word_of_nat j :: byte) \<noteq> 0xFF \<and> (0x80 OR word_of_nat j :: byte) AND 0x80 \<noteq> 0 \<and>
      unat ((0x80 OR word_of_nat j :: byte) AND 0x1F) = j"
    by auto
  then show "\<exists>x. host_report frame j ! 7 = x \<and> x \<noteq> 0xFF \<and> x AND 0x80 \<noteq> 0 \<and> unat (x AND 0x1F) = j"
    unfolding n by blast
qed

text \<open>What the first nine reports and the last one do.\<close>

lemma set_report_step:
  assumes "length frame = 70" and "j < 10" and rx: "j = 0 \<and> length (otp_frame_rx s) = 70 \<or> otp_frame_rx s = arrived frame j"
  shows "snd (otp_hid_set_report_cb k 3 (host_report frame j) s) =
    (let t = s\<lparr>otp_frame_rx := arrived frame (Suc j)\<rparr>
     in if j = 9 \<and> calculate_crc (take 64 (otp_frame_rx t)) = sdk_get_u16_le k (drop 65 (otp_frame_rx t)) then run_frame k t else t)"
proof -
  note a = arrived_splice [OF assms(1,2)]
  obtain x where x: "host_report frame j ! 7 = x" "x \<noteq> 0xFF" "x AND 0x80 \<noteq> 0" "unat (x AND 0x1F) = j"
    using host_report_facts(2) [OF assms(1,2)] by blast
  have rx': "(if j = 0 then s\<lparr>otp_frame_rx := replicate (length (otp_frame_rx s)) 0\<rparr> else s) = s\<lparr>otp_frame_rx := arrived frame j\<rparr>"
  proof (cases "j = 0")
    case True
    then have "length (otp_frame_rx s) = 70" "arrived frame j = replicate 70 0" using rx by (auto simp: arrived_def)
    then show ?thesis using True by simp
  next
    case False
    then have "arrived frame j = otp_frame_rx s" using rx by simp
    then show ?thesis using False by simp
  qed
  have sp: "splice (arrived frame j) (j * 7, 7) (take 7 (host_report frame j)) = arrived frame (Suc j)"
    unfolding host_report_facts(1) [OF assms(1,2)] mult.commute [of j 7] by (rule a)
  have r: "snd (otp_hid_set_report_cb k 3 (host_report frame j) s) =
      (let t = s\<lparr>otp_frame_rx := splice (arrived frame j) (j * 7, 7) (take 7 (host_report frame j))\<rparr>
       in if j = 9 \<and> calculate_crc (take 64 (otp_frame_rx t)) = sdk_get_u16_le k (drop 65 (otp_frame_rx t)) then run_frame k t else t)"
  proof (cases "j = 9")
    case True
    show ?thesis unfolding otp_hid_set_report_cb_def x(1) Let_def x(4) rx' using x(2,3) by (simp add: True)
  next
    case False
    then show ?thesis unfolding otp_hid_set_report_cb_def x(1) Let_def x(4) rx' using x(2,3) assms(2) by simp
  qed
  show ?thesis using r unfolding sp .
qed

text \<open>
  C36: however many of its all-zero reports the host leaves out, a frame of 70 bytes arrives
  byte for byte, and the command in it is run exactly once, after the last report, when its
  checksum is right, and not at all when it is wrong; before it nothing but the receive buffer
  has changed.
\<close>

theorem otp_frame_received:
  assumes "length frame = 70" and "length (otp_frame_rx s) = 70" and "\<not> skip 0" and "\<not> skip 9"
    and "\<forall>j < 10. skip j \<longrightarrow> take 7 (drop (7 * j) frame) = replicate 7 0"
  shows "send_reports k (host_reports frame skip) s =
    (let s = s\<lparr>otp_frame_rx := frame\<rparr>
     in if calculate_crc (take 64 frame) = sdk_get_u16_le k (drop 65 frame) then run_frame k s else s)"
proof -
  have p: "send_reports k (map (host_report frame) (filter (\<lambda>j. \<not> skip j) [0..<Suc j])) s = s\<lparr>otp_frame_rx := arrived frame (Suc j)\<rparr>"
    if "j < 9" for j
    using that
  proof (induction j)
    case 0
    show ?case using set_report_step [OF assms(1), of 0 s k] assms(2,3) by (simp add: Let_def)
  next
    case (Suc j)
    then have ih: "send_reports k (map (host_report frame) (filter (\<lambda>j. \<not> skip j) [0..<Suc j])) s = s\<lparr>otp_frame_rx := arrived frame (Suc j)\<rparr>"
      by (intro Suc.IH) (rule Suc_lessD)
    have e: "[0..<Suc (Suc j)] = [0..<Suc j] @ [Suc j]" by (rule upt_Suc_append) simp
    show ?case
    proof (cases "skip (Suc j)")
      case True
      have "take 7 (drop (7 * Suc j) frame) = replicate 7 0" using assms(5) [rule_format, of "Suc j"] True Suc.prems by simp
      with Suc.prems have a: "arrived frame (Suc (Suc j)) = arrived frame (Suc j)"
        by (intro arrived_skip [OF assms(1), symmetric]) simp_all
      show ?thesis using True ih unfolding e a by (simp del: upt_Suc)
    next
      case False
      have st: "snd (otp_hid_set_report_cb k 3 (host_report frame (Suc j)) (s\<lparr>otp_frame_rx := arrived frame (Suc j)\<rparr>)) =
          s\<lparr>otp_frame_rx := arrived frame (Suc (Suc j))\<rparr>"
        using set_report_step [OF assms(1), of "Suc j" "s\<lparr>otp_frame_rx := arrived frame (Suc j)\<rparr>" k] Suc.prems by (simp add: Let_def)
      show ?thesis using False ih st unfolding e by (simp add: send_reports_append del: upt_Suc)
    qed
  qed
  have h: "host_reports frame skip = map (host_report frame) (filter (\<lambda>j. \<not> skip j) [0..<9]) @ [host_report frame 9]"
    using assms(4) upt_Suc_append [of 0 9] by (simp add: host_reports_def del: upt_Suc)
  have l: "send_reports k (host_reports frame skip) s =
      snd (otp_hid_set_report_cb k 3 (host_report frame 9) (s\<lparr>otp_frame_rx := arrived frame 9\<rparr>))"
    unfolding h send_reports_append using p [of 8] by simp
  have "arrived frame (Suc 9) = frame" using assms(1) by (simp add: arrived_def)
  then show ?thesis
    using set_report_step [OF assms(1), of 9 "s\<lparr>otp_frame_rx := arrived frame 9\<rparr>" k] unfolding l by (simp add: Let_def)
qed

subsection \<open>Witnesses\<close>

lemma otp_frame_sent_witness:
  "\<exists>reports t. read_reports ref_sdk (replicate 8 0) 1 (otp_send_frame ref_sdk 5 (ref_otp Map.empty)) = (reports, t) \<and>
     length reports = 1 \<and> calculate_crc (take 7 (hd reports)) = 0xF0B8"
proof -
  let ?s = "ref_otp Map.empty"
  have tx: "length (otp_frame_tx ?s) = 70"
    by (simp add: ref_otp_def device.defs ref_device_def resident.defs ref_resident_def fido.defs ref_fido_def)
  obtain reports t crc where r: "read_reports ref_sdk (replicate 8 0) 1 (otp_send_frame ref_sdk 5 ?s) = (reports, t)"
      "length reports = 1" "length crc = 2" "concat (map (take 7) reports) = fit 7 (take 5 (otp_frame_tx ?s) @ crc)"
      "calculate_crc (take 5 (otp_frame_tx ?s) @ crc) = 0xF0B8"
    using otp_frame_sent [of ref_sdk ?s 5 "replicate 8 0", OF ref_u16_le_law tx] by auto
  obtain x where "reports = [x]" using r(2) by (cases reports) auto
  then show ?thesis using r tx by simp
qed

definition ref_frame :: bytes where
  "ref_frame = replicate 64 0 @ [0x10, ucast (calculate_crc (replicate 64 0)), ucast (drop_bit 8 (calculate_crc (replicate 64 0)))] @ replicate 3 0"

lemma otp_frame_received_witness:
  "send_reports ref_sdk [host_report ref_frame 0, host_report ref_frame 9] (ref_otp Map.empty) =
     run_frame ref_sdk (ref_otp Map.empty\<lparr>otp_frame_rx := ref_frame\<rparr>)"
proof -
  let ?s = "ref_otp Map.empty"
  have rx: "length (otp_frame_rx ?s) = 70"
    by (simp add: ref_otp_def device.defs ref_device_def resident.defs ref_resident_def fido.defs ref_fido_def)
  have l: "length ref_frame = 70" by (simp add: ref_frame_def)
  have z: "take 7 (drop (7 * j) ref_frame) = replicate 7 0" if "0 < j" "j < 9" for j
    using that by (simp add: ref_frame_def)
  have h: "host_reports ref_frame (\<lambda>j. 0 < j \<and> j < 9) = [host_report ref_frame 0, host_report ref_frame 9]"
    by (simp add: host_reports_def upt_rec eval_nat_numeral)
  have c: "ucast (ucast x :: byte) OR push_bit 8 (ucast (ucast (drop_bit 8 x) :: byte)) = x" for x :: u16
    by (rule bit_word_eqI) (auto simp: bit_simps dest: bit_imp_le_length)
  have ok: "calculate_crc (take 64 ref_frame) = sdk_get_u16_le ref_sdk (drop 65 ref_frame)"
    by (simp add: ref_frame_def c)
  show ?thesis
    using otp_frame_received [OF l rx, of "\<lambda>j. 0 < j \<and> j < 9" ref_sdk] z ok unfolding h by simp
qed

end
