(* ===== verification/Ref_Cbor.thy ===== *)
theory Ref_Cbor
  imports Ref_Platform
begin

text \<open>The reference codec reads back what it writes, whatever follows.\<close>

fun cbor_nodes :: "cbor \<Rightarrow> nat" where
  "cbor_nodes (CMap xs) = Suc (sum_list (map cbor_nodes xs))"
| "cbor_nodes (CArray xs) = Suc (sum_list (map cbor_nodes xs))"
| "cbor_nodes c = 1"

text \<open>The first byte of an item, by kind and count.\<close>

definition head_ok :: "byte \<Rightarrow> nat \<Rightarrow> bool" where
  "head_ok m n \<longleftrightarrow> (let h = m + word_of_nat n in unat (h AND 0x1f) = n \<and>
     (h < 0x20 \<longleftrightarrow> m = 0) \<and> (h < 0x40 \<longleftrightarrow> m = 0 \<or> m = 0x20) \<and> (h < 0x60 \<longleftrightarrow> m \<in> {0, 0x20, 0x40}) \<and>
     (h < 0x80 \<longleftrightarrow> m \<noteq> 0xa0) \<and> (0xa0 \<le> h \<and> h < 0xb8 \<longleftrightarrow> m = 0xa0 \<and> n < 24))"

lemma head_ok: "m \<in> {0, 0x20, 0x40, 0x60, 0xa0} \<Longrightarrow> n \<le> 24 \<Longrightarrow> head_ok m n"
proof -
  have "list_all (\<lambda>m. list_all (head_ok m) [0..<25]) [0, 0x20, 0x40, 0x60, 0xa0]" by code_simp
  then show "m \<in> {0, 0x20, 0x40, 0x60, 0xa0} \<Longrightarrow> n \<le> 24 \<Longrightarrow> head_ok m n" by (auto simp: list_all_iff)
qed

lemma ref_items_head:
  assumes "n < 256" and "m \<in> {0, 0x20, 0x40, 0x60}"
  shows "ref_cbor_items (Suc f) (Suc i) (ref_cbor_head m n @ d) =
    (let (item, d) = (if m = 0 then (CUInt (word_of_nat n), d) else if m = 0x20 then (CNInt (word_of_nat n), d)
                      else if m = 0x40 then (CBytes (take n d), drop n d) else (CText (take n d), drop n d));
         (items, d) = ref_cbor_items f i d in (item # items, d))"
proof (cases "n < 24")
  case True
  then have "head_ok m n" using assms(2) by (intro head_ok) auto
  then show ?thesis using True assms(2) by (auto simp: ref_cbor_head_def head_ok_def Let_def)
next
  case False
  have "head_ok m 24" using assms(2) by (intro head_ok) auto
  then show ?thesis using False assms by (auto simp: ref_cbor_head_def head_ok_def Let_def unat_of_nat_byte)
qed

lemma ref_items_map:
  assumes "n < 24"
  shows "ref_cbor_items (Suc f) (Suc i) (ref_cbor_head 0xa0 n @ d) =
    (let (xs, d) = ref_cbor_items f (2 * n) d; (items, d) = ref_cbor_items f i d in (CMap xs # items, d))"
proof -
  have "head_ok 0xa0 n" using assms by (intro head_ok) auto
  then show ?thesis using assms by (auto simp: ref_cbor_head_def head_ok_def Let_def split: prod.splits)
qed

lemma small_word: "v < 256 \<Longrightarrow> unat (v :: u64) < 256"
  by (simp add: word_less_nat_alt)

lemma ref_items_read:
  "list_all ref_cbor_small cs \<Longrightarrow> f > sum_list (map cbor_nodes cs) \<Longrightarrow>
     ref_cbor_items f (length cs) (concat (map ref_cbor_bytes cs) @ r) = (cs, r)"
proof (induction f arbitrary: cs r)
  case 0
  then show ?case by simp
next
  case (Suc f)
  show ?case
  proof (cases cs)
    case Nil
    then show ?thesis by simp
  next
    case (Cons c ds)
    let ?rest = "concat (map ref_cbor_bytes ds) @ r"
    have small: "ref_cbor_small c" "list_all ref_cbor_small ds" using Suc.prems Cons by auto
    have f: "f > sum_list (map cbor_nodes ds)" using Suc.prems Cons by (cases c) auto
    note rest = Suc.IH [OF small(2) f]
    have "ref_cbor_items (Suc f) (Suc (length ds)) (ref_cbor_bytes c @ ?rest) = (c # ds, r)"
    proof (cases c)
      case (CMap xs)
      then have xs: "list_all ref_cbor_small xs" "length xs < 48" "even (length xs)" "f > sum_list (map cbor_nodes xs)"
        using small Suc.prems Cons by auto
      have n: "length xs div 2 < 24" "2 * (length xs div 2) = length xs" using xs by auto
      have "ref_cbor_items f (2 * (length xs div 2)) (concat (map ref_cbor_bytes xs) @ ?rest) = (xs, ?rest)"
        unfolding n(2) by (rule Suc.IH [OF xs(1,4)])
      then show ?thesis using ref_items_map [OF n(1), where f = f and i = "length ds" and d = "concat (map ref_cbor_bytes xs) @ ?rest"] rest by (simp add: CMap)
    next
      case (CUInt v)
      then show ?thesis using ref_items_head [where n = "unat v" and m = "0" and f = f and i = "length ds" and d = ?rest] small small_word [of v] rest by simp
    next
      case (CNInt v)
      then show ?thesis using ref_items_head [where n = "unat v" and m = "0x20" and f = f and i = "length ds" and d = ?rest] small small_word [of v] rest by simp
    next
      case (CBytes d)
      then show ?thesis using ref_items_head [where n = "length d" and m = "0x40" and f = f and i = "length ds" and d = "d @ ?rest"] small rest by simp
    next
      case (CText d)
      then show ?thesis using ref_items_head [where n = "length d" and m = "0x60" and f = f and i = "length ds" and d = "d @ ?rest"] small rest by simp
    next
      case (CBool b)
      then show ?thesis using rest by simp
    qed (use small in simp_all)
    then show ?thesis by (simp add: Cons)
  qed
qed

lemma cbor_nodes_bytes: "ref_cbor_small c \<Longrightarrow> cbor_nodes c \<le> length (ref_cbor_bytes c)"
proof (induction c rule: ref_cbor_small.induct)
  case (6 xs)
  then have "\<forall>x \<in> set xs. cbor_nodes x \<le> length (ref_cbor_bytes x)" by (auto simp: list_all_iff)
  then have "sum_list (map cbor_nodes xs) \<le> length (concat (map ref_cbor_bytes xs))"
    by (induction xs) auto
  then show ?case by (simp add: ref_cbor_head_def)
qed (auto simp: ref_cbor_head_def)

lemma ref_cbor_buf_law: "cbor_buf_law ref_sdk"
proof -
  have "ref_cbor_dec (ref_cbor_bytes c @ r) = Inr c" if "ref_cbor_small c" for c r
  proof -
    have "1 \<le> cbor_nodes c" by (cases c) auto
    then have n: "cbor_nodes c < 2 * length (ref_cbor_bytes c @ r)" "ref_cbor_bytes c \<noteq> []"
      using cbor_nodes_bytes [OF that] by auto
    have "ref_cbor_items (2 * length (ref_cbor_bytes c @ r)) 1 (ref_cbor_bytes c @ r) = ([c], r)"
      using ref_items_read [of "[c]" "2 * length (ref_cbor_bytes c @ r)" r] that n by simp
    then show ?thesis using n by (simp add: ref_cbor_dec_def)
  qed
  then show ?thesis by (auto simp: cbor_buf_law_def ref_cbor_enc_buf_def split: if_splits)
qed

end
