(* ===== verification/Credential.thy ===== *)
theory Credential
  imports Fido_Keys Client_Pin
begin

text \<open>
  The credentials (\<open>src/fido/credential.c\<close>): the credential identifier, which is the credential
  itself, encrypted for the authenticator and bound to its relying party; the keys derived from
  it; the identifiers of resident credentials; and the records of the relying parties.

  A \<open>CborByteString\<close> or \<open>CborCharString\<close> is an option, \<open>None\<close> when it is not present; a pointer to
  \<open>ptrue\<close> or \<open>pfalse\<close> is an optional boolean. Numbers the source keeps in an \<open>int64_t\<close> are in two's
  complement.
\<close>

abbreviation (input) CTAP1_ERR_OTHER :: ctap_error where "CTAP1_ERR_OTHER \<equiv> CTAP 0x7F"
abbreviation (input) CTAP2_ERR_INVALID_CREDENTIAL :: ctap_error where "CTAP2_ERR_INVALID_CREDENTIAL \<equiv> CTAP 0x22"
abbreviation (input) CTAP2_ERR_NO_CREDENTIALS :: ctap_error where "CTAP2_ERR_NO_CREDENTIALS \<equiv> CTAP 0x2E"
abbreviation (input) CRED_PROTO_LEN :: nat where "CRED_PROTO_LEN \<equiv> 4"
abbreviation (input) CRED_IV_LEN :: nat where "CRED_IV_LEN \<equiv> 12"
abbreviation (input) CRED_TAG_LEN :: nat where "CRED_TAG_LEN \<equiv> 16"
abbreviation (input) CRED_SILENT_TAG_LEN :: nat where "CRED_SILENT_TAG_LEN \<equiv> 16"
abbreviation (input) CRED_RESIDENT_HEADER_LEN :: nat where "CRED_RESIDENT_HEADER_LEN \<equiv> 10"
abbreviation (input) CRED_RESIDENT_LEN :: nat where "CRED_RESIDENT_LEN \<equiv> 42"
abbreviation (input) MAX_CRED_ID_LENGTH :: nat where "MAX_CRED_ID_LENGTH \<equiv> 1024"
abbreviation (input) MAX_CREDBLOB_LENGTH :: nat where "MAX_CREDBLOB_LENGTH \<equiv> 128"
abbreviation (input) MAX_RESIDENT_CREDENTIALS :: nat where "MAX_RESIDENT_CREDENTIALS \<equiv> 256"
abbreviation (input) EF_RP :: fid where "EF_RP \<equiv> 0xD000"
abbreviation (input) RP_RECORD_HEADER_LEN :: nat where "RP_RECORD_HEADER_LEN \<equiv> 33"
abbreviation (input) RP_SECURE_OVERHEAD :: nat where "RP_SECURE_OVERHEAD \<equiv> 32"
abbreviation (input) FIDO2_ALG_ES256 :: int where "FIDO2_ALG_ES256 \<equiv> - 7"
abbreviation (input) FIDO2_CURVE_P256 :: int where "FIDO2_CURVE_P256 \<equiv> 1"

definition CRED_PROTO_21_S :: bytes where "CRED_PROTO_21_S = [0xf1, 0xd0, 0x02, 0x01]"
definition CRED_PROTO_22_S :: bytes where "CRED_PROTO_22_S = [0xf1, 0xd0, 0x02, 0x02]"
definition CRED_PROTO_23_S :: bytes where "CRED_PROTO_23_S = [0xf1, 0xd0, 0x02, 0x03]"
definition CRED_PROTO_RP_S :: bytes where "CRED_PROTO_RP_S = [0xf1, 0xd0, 0x02, 0x04]"
definition CRED_PROTO_25_S :: bytes where "CRED_PROTO_25_S = [0xf1, 0xd0, 0x02, 0x05]"
definition CRED_PROTO_26_S :: bytes where "CRED_PROTO_26_S = [0xf1, 0xd0, 0x02, 0x06]"

abbreviation (input) CRED_PROTO :: bytes where "CRED_PROTO \<equiv> CRED_PROTO_25_S"
abbreviation (input) CRED_PROTO_RESIDENT :: bytes where "CRED_PROTO_RESIDENT \<equiv> CRED_PROTO_26_S"

record cred_options =
  opt_rk :: "bool option"
  opt_up :: "bool option"
  opt_uv :: "bool option"
  opt_present :: bool

record cred_extensions =
  hmac_secret :: "bool option"
  credProtect :: u64
  minPinLength :: "bool option"
  credBlob :: "bytes option"
  largeBlobKey :: "bool option"
  thirdPartyPayment :: "bool option"
  ext_present :: bool

record credential =
  cred_rpId :: "bytes option"
  cred_userId :: "bytes option"
  cred_userName :: "bytes option"
  cred_userDisplayName :: "bytes option"
  board_creation :: u64
  cred_ext :: cred_extensions
  use_sign_count :: "bool option"
  cred_alg :: u64
  cred_curve :: u64
  cred_id :: "bytes option"
  residentId :: "bytes option"
  cred_opts :: cred_options
  cred_present :: bool
  rtc_creation :: u64

text \<open>What \<open>memset\<close> leaves.\<close>

definition credential_zero :: credential where
  "credential_zero =
     \<lparr>cred_rpId = None, cred_userId = None, cred_userName = None, cred_userDisplayName = None, board_creation = 0,
      cred_ext = \<lparr>hmac_secret = None, credProtect = 0, minPinLength = None, credBlob = None, largeBlobKey = None,
                  thirdPartyPayment = None, ext_present = False\<rparr>,
      use_sign_count = None, cred_alg = 0, cred_curve = 0, cred_id = None, residentId = None,
      cred_opts = \<lparr>opt_rk = None, opt_up = None, opt_uv = None, opt_present = False\<rparr>,
      cred_present = False, rtc_creation = 0\<rparr>"

subsection \<open>Derived keys\<close>

definition ascii :: "string \<Rightarrow> bytes" where
  "ascii x = map (\<lambda>c. word_of_nat (of_char c)) x"

text \<open>One step of a derivation: the first 32 bytes of the key are replaced by the HMAC.\<close>

definition hmac_step :: "sdk \<Rightarrow> md \<Rightarrow> bytes \<Rightarrow> bytes \<Rightarrow> bytes" where
  "hmac_step k md d key = fit (sdk_md_size k md) (snd (sdk_hmac k md (take 32 key) d))"

definition derive_chain :: "sdk \<Rightarrow> md \<Rightarrow> bytes list \<Rightarrow> bytes \<Rightarrow> bytes" where
  "derive_chain k md ds key = fold (hmac_step k md) ds key"

definition credential_derive_hmac_key :: "sdk \<Rightarrow> bytes \<Rightarrow> 'a fido_scheme \<Rightarrow> rc \<times> bytes \<times> 'a fido_scheme" where
  "credential_derive_hmac_key k cid s =
     (let (r, outk, s) = load_keydev k (replicate 64 0) s
      in if r \<noteq> PICOKEYS_OK then (r, outk, s)
         else (PICOKEYS_OK, derive_chain k MD_SHA512 [ascii ''SLIP-0022'', take CRED_PROTO_LEN cid, ascii ''hmac-secret'', cid] outk, s))"

definition credential_derive_chacha_key :: "sdk \<Rightarrow> bytes \<Rightarrow> 'a fido_scheme \<Rightarrow> rc \<times> bytes \<times> 'a fido_scheme" where
  "credential_derive_chacha_key k proto s =
     (let (r, outk, s) = load_keydev k (replicate 32 0) s
      in if r \<noteq> PICOKEYS_OK then (r, outk, s)
         else (PICOKEYS_OK, derive_chain k MD_SHA256 [ascii ''SLIP-0022'', take CRED_PROTO_LEN proto, ascii ''Encryption key''] outk, s))"

definition credential_derive_large_blob_key :: "sdk \<Rightarrow> bytes \<Rightarrow> 'a fido_scheme \<Rightarrow> rc \<times> bytes \<times> 'a fido_scheme" where
  "credential_derive_large_blob_key k cid s =
     (let (r, outk, s) = load_keydev k (replicate 32 0) s
      in if r \<noteq> PICOKEYS_OK then (r, outk, s)
         else (PICOKEYS_OK, derive_chain k MD_SHA256 [ascii ''SLIP-0022'', take CRED_PROTO_LEN cid, ascii ''largeBlobKey'', cid] outk, s))"

text \<open>
  The identifier of a resident credential. The first HMAC is written over the first 32 of the
  42 bytes, of which the derivation takes the part behind the header.
\<close>

definition credential_derive_resident :: "sdk \<Rightarrow> bytes \<Rightarrow> bytes" where
  "credential_derive_resident k cid =
     (let h = hmac_step k MD_SHA256 (sdk_serial_id k) (replicate 32 0);
          idr = drop CRED_RESIDENT_HEADER_LEN h @ replicate CRED_RESIDENT_HEADER_LEN 0
      in take 4 h @ CRED_PROTO_RESIDENT @ [0x00, 0x00] @
         derive_chain k MD_SHA256 [ascii ''SLIP-0022'', take CRED_PROTO_LEN cid, ascii ''resident'', cid] idr)"

definition credential_is_resident :: "bytes \<Rightarrow> bool" where
  "credential_is_resident cid \<longleftrightarrow>
     length cid \<ge> 8 \<and> (take 4 (drop 4 cid) = CRED_PROTO_23_S \<or> take 4 (drop 4 cid) = CRED_PROTO_26_S)"

definition credential_resident_id_uses_stable_keys :: "bytes \<Rightarrow> bool" where
  "credential_resident_id_uses_stable_keys rid \<longleftrightarrow>
     length rid = CRED_RESIDENT_LEN \<and> take 4 (drop 4 rid) = CRED_PROTO_26_S"

subsection \<open>Verifying\<close>

definition sha256 :: "sdk \<Rightarrow> bytes \<Rightarrow> bytes" where
  "sha256 k d = fit 32 (snd (sdk_digest k MD_SHA256 d))"

definition credential_silent_tag :: "sdk \<Rightarrow> bytes \<Rightarrow> bytes \<Rightarrow> 'a device_scheme \<Rightarrow> bytes" where
  "credential_silent_tag k cid rp s =
     (let key = sha256 k ((case sdk_otp_key k of Some otp \<Rightarrow> take 32 otp | None \<Rightarrow> sdk_serial_id k) @
                          (if take CRED_PROTO_LEN cid = CRED_PROTO_25_S then certdev_sha256 s else []) @ take 32 rp)
      in fit 32 (snd (sdk_hmac k MD_SHA256 key (take (length cid - CRED_SILENT_TAG_LEN) cid))))"

definition cred_new_format :: "bytes \<Rightarrow> bool" where
  "cred_new_format cid \<longleftrightarrow> take CRED_PROTO_LEN cid = CRED_PROTO_22_S \<or> take CRED_PROTO_LEN cid = CRED_PROTO_25_S"

text \<open>
  The identifier is decrypted in place: the second component is its buffer afterwards. An
  identifier in the new format that is shorter than its header is an empty text here; the code
  computes a length that wraps around.
\<close>

definition credential_verify :: "sdk \<Rightarrow> bytes \<Rightarrow> bytes \<Rightarrow> bool \<Rightarrow> 'a device_scheme \<Rightarrow> rc \<times> bytes \<times> 'a device_scheme" where
  "credential_verify k cid rp silent s =
     (if length cid < 32 then (rc_of_int (- 1), cid, s)
      else let iv = take CRED_IV_LEN (drop CRED_PROTO_LEN cid); new = cred_new_format cid;
               tag_off = length cid - CRED_TAG_LEN - (if new then CRED_SILENT_TAG_LEN else 0)
      in if \<not> silent
         then let hdr_len = CRED_PROTO_LEN + CRED_IV_LEN + CRED_TAG_LEN + (if new then CRED_SILENT_TAG_LEN else 0);
                  n = length cid - hdr_len;
                  (_, key, s) = credential_derive_chacha_key k cid s;
                  (ret, plain) = sdk_chacha_dec k key iv (take 32 rp) (take CRED_TAG_LEN (drop tag_off cid)) (take n (drop 16 cid))
              in (rc_of_int ret, splice cid (16, n) (fit n plain), s)
         else if \<not> new then (rc_of_int (- 1), cid, s)
         else let outk = credential_silent_tag k cid rp s
              in (if take CRED_SILENT_TAG_LEN outk = drop (length cid - CRED_SILENT_TAG_LEN) cid then PICOKEYS_OK
                  else rc_of_int 1, cid, s))"

subsection \<open>Creating\<close>

text \<open>A string is written up to its first zero byte.\<close>

definition stringz :: "bytes \<Rightarrow> bytes" where
  "stringz d = takeWhile (\<lambda>b. b \<noteq> 0) d"

definition key_string :: "u64 \<Rightarrow> bytes option \<Rightarrow> cbor list" where
  "key_string n v = (case v of None \<Rightarrow> [] | Some d \<Rightarrow> if d = [] then [] else [CUInt n, CText (stringz d)])"

definition key_bytes :: "u64 \<Rightarrow> bytes option \<Rightarrow> cbor list" where
  "key_bytes n v = (case v of None \<Rightarrow> [] | Some d \<Rightarrow> if d = [] then [] else [CUInt n, CBytes d])"

definition cbor_int :: "int \<Rightarrow> cbor" where
  "cbor_int i = (if i < 0 then CNInt (word_of_int (- 1 - i)) else CUInt (word_of_int i))"

definition extension_items :: "cred_extensions \<Rightarrow> cbor list" where
  "extension_items e =
     (case credBlob e of
        Some d \<Rightarrow> if length d < MAX_CREDBLOB_LENGTH then [CText (ascii ''credBlob''), CBytes d] else [] | None \<Rightarrow> []) @
     (if credProtect e \<noteq> 0 then [CText (ascii ''credProtect''), CUInt (credProtect e)] else []) @
     (case hmac_secret e of Some b \<Rightarrow> [CText (ascii ''hmac-secret''), CBool b] | None \<Rightarrow> []) @
     (if largeBlobKey e = Some True then [CText (ascii ''largeBlobKey''), CBool True] else []) @
     (if thirdPartyPayment e = Some True then [CText (ascii ''thirdPartyPayment''), CBool True] else [])"

definition credential_items ::
    "sdk \<Rightarrow> bytes option \<Rightarrow> bytes option \<Rightarrow> bytes option \<Rightarrow> bytes option \<Rightarrow> cred_options \<Rightarrow> cred_extensions \<Rightarrow>
     bool \<Rightarrow> int \<Rightarrow> int \<Rightarrow> bytes \<Rightarrow> 'a plat_scheme \<Rightarrow> cbor list" where
  "credential_items k rp uid name display opts ext sign_count alg crv rp_hash s =
     key_string 0x01 rp @ [CUInt 0x02, CBytes rp_hash] @ key_bytes 0x03 uid @ key_string 0x04 name @
     key_string 0x05 display @ [CUInt 0x06, CUInt (ucast (millis s))] @
     (if ext_present ext then [CUInt 0x07, CMap (extension_items ext)] else []) @
     [CUInt 0x08, CBool sign_count] @
     (if alg \<noteq> FIDO2_ALG_ES256 \<or> crv \<noteq> FIDO2_CURVE_P256 then [CUInt 0x09, cbor_int alg, CUInt 0x0A, cbor_int crv] else []) @
     (if opt_present opts
      then [CUInt 0x0B, CMap (case opt_rk opts of Some b \<Rightarrow> [CText (ascii ''rk''), CBool b] | None \<Rightarrow> [])] else []) @
     (case sdk_rtc_time k (tick s) of Some t \<Rightarrow> [CUInt 0x0C, CUInt t] | None \<Rightarrow> [])"

text \<open>
  \<open>buf\<close> is what the caller's buffer holds. The size of the encoding is taken from the start of
  the identifier, not of the encoding, so the encrypted text has 16 more bytes of the buffer
  than was written.
\<close>

definition credential_create ::
    "sdk \<Rightarrow> bytes option \<Rightarrow> bytes option \<Rightarrow> bytes option \<Rightarrow> bytes option \<Rightarrow> cred_options \<Rightarrow> cred_extensions \<Rightarrow>
     bool \<Rightarrow> int \<Rightarrow> int \<Rightarrow> bytes \<Rightarrow> 'a device_scheme \<Rightarrow> (ctap_error + bytes) \<times> 'a device_scheme" where
  "credential_create k rp uid name display opts ext sign_count alg crv buf s =
     (let rp_hash = sha256 k (case rp of Some d \<Rightarrow> d | None \<Rightarrow> []);
          items = credential_items k rp uid name display opts ext sign_count alg crv rp_hash s; s = s\<lparr>tick := Suc (tick s)\<rparr>
      in case sdk_cbor_enc_buf k (MAX_CRED_ID_LENGTH - 32) (CMap items) of
           Inl e \<Rightarrow> (Inl (CborError e), s)
         | Inr enc \<Rightarrow>
             let rs = 16 + length enc; plain = fit rs (enc @ drop (16 + length enc) buf);
                 (_, key, s) = credential_derive_chacha_key k CRED_PROTO s;
                 (iv, s) = random_fill_buffer k CRED_IV_LEN s;
                 (ret, cipher, tag) = sdk_chacha_enc k key iv rp_hash plain
             in if ret \<noteq> 0 then (Inl CTAP1_ERR_OTHER, s)
                else let cid = CRED_PROTO @ iv @ fit rs cipher @ fit CRED_TAG_LEN tag;
                         silent = credential_silent_tag k (cid @ replicate CRED_SILENT_TAG_LEN 0) rp_hash s
                     in (Inr (cid @ take CRED_SILENT_TAG_LEN silent), s))"

end
