(* ===== verification/Credential_Store.thy ===== *)
theory Credential_Store
  imports Credential Resident_Commands
begin

text \<open>
  Loading credentials, the resident credentials in their two formats (a container, or the older
  file of relying party hash, identifier and credential), the records of the relying parties and
  the storing of a resident credential (\<open>src/fido/credential.c\<close>).
\<close>

subsection \<open>Loading\<close>

definition field_bool :: "cbor list \<Rightarrow> ctap_error + bool \<times> cbor list" where
  "field_bool xs =
     (case xs of
        CBool b # _ \<Rightarrow> map_sum id (Pair b) (cbor_advance xs)
      | _ \<Rightarrow> Inl CborErrorImproperValue)"

text \<open>A text key is copied to a buffer of 64 bytes and compared as a string.\<close>

definition field_key_text :: "cbor list \<Rightarrow> ctap_error + bytes \<times> cbor list" where
  "field_key_text xs =
     (case field_text xs of
        Inl e \<Rightarrow> Inl e
      | Inr (d, r) \<Rightarrow> if length d > 64 then Inl (CborError (- 2147483648)) else Inr (stringz d, r))"

definition set_field :: "('v \<Rightarrow> 's) \<Rightarrow> ctap_error + 'v \<times> cbor list \<Rightarrow> ctap_error + 's \<times> cbor list" where
  "set_field f r = map_sum id (map_prod f id) r"

definition extension_field :: "cred_extensions \<Rightarrow> cbor list \<Rightarrow> ctap_error + cred_extensions \<times> cbor list" where
  "extension_field e xs =
     (case field_key_text xs of
        Inl er \<Rightarrow> Inl er
      | Inr (key, xs) \<Rightarrow>
          if key = ascii ''hmac-secret'' then set_field (\<lambda>b. e\<lparr>hmac_secret := Some b\<rparr>) (field_bool xs)
          else if key = ascii ''credProtect'' then set_field (\<lambda>v. e\<lparr>credProtect := v\<rparr>) (field_uint xs)
          else if key = ascii ''credBlob'' then set_field (\<lambda>d. e\<lparr>credBlob := Some d\<rparr>) (field_bytes xs)
          else if key = ascii ''largeBlobKey'' then set_field (\<lambda>b. e\<lparr>largeBlobKey := Some b\<rparr>) (field_bool xs)
          else if key = ascii ''thirdPartyPayment'' then set_field (\<lambda>b. e\<lparr>thirdPartyPayment := Some b\<rparr>) (field_bool xs)
          else map_sum id (Pair e) (cbor_advance xs))"

definition option_field :: "cred_options \<Rightarrow> cbor list \<Rightarrow> ctap_error + cred_options \<times> cbor list" where
  "option_field e xs =
     (case field_key_text xs of
        Inl er \<Rightarrow> Inl er
      | Inr (key, xs) \<Rightarrow>
          if key = ascii ''rk'' then set_field (\<lambda>b. e\<lparr>opt_rk := Some b\<rparr>) (field_bool xs)
          else map_sum id (Pair e) (cbor_advance xs))"

text \<open>A map as the value of a field.\<close>

definition field_map :: "('s \<Rightarrow> cbor list \<Rightarrow> ctap_error + 's \<times> cbor list) \<Rightarrow> 's \<Rightarrow> cbor list \<Rightarrow> ctap_error + 's \<times> cbor list" where
  "field_map body st xs =
     (case xs of
        [] \<Rightarrow> Inl CborErrorImproperValue
      | c # _ \<Rightarrow>
          (case cbor_map body st c of
             Inl e \<Rightarrow> Inl e
           | Inr st \<Rightarrow> map_sum id (Pair st) (cbor_advance xs)))"

definition credential_field :: "credential \<Rightarrow> cbor list \<Rightarrow> ctap_error + credential \<times> cbor list" where
  "credential_field c xs =
     (case field_uint xs of
        Inl e \<Rightarrow> Inl e
      | Inr (val_u, xs) \<Rightarrow>
          if val_u = 0x01 then set_field (\<lambda>d. c\<lparr>cred_rpId := Some d\<rparr>) (field_text xs)
          else if val_u = 0x03 then set_field (\<lambda>d. c\<lparr>cred_userId := Some d\<rparr>) (field_bytes xs)
          else if val_u = 0x04 then set_field (\<lambda>d. c\<lparr>cred_userName := Some d\<rparr>) (field_text xs)
          else if val_u = 0x05 then set_field (\<lambda>d. c\<lparr>cred_userDisplayName := Some d\<rparr>) (field_text xs)
          else if val_u = 0x06 then set_field (\<lambda>v. c\<lparr>board_creation := v\<rparr>) (field_uint xs)
          else if val_u = 0x07
          then set_field (\<lambda>e. c\<lparr>cred_ext := e\<rparr>) (field_map extension_field ((cred_ext c)\<lparr>ext_present := True\<rparr>) xs)
          else if val_u = 0x08 then set_field (\<lambda>b. c\<lparr>use_sign_count := Some b\<rparr>) (field_bool xs)
          else if val_u = 0x09 then set_field (\<lambda>v. c\<lparr>cred_alg := v\<rparr>) (field_int xs)
          else if val_u = 0x0A then set_field (\<lambda>v. c\<lparr>cred_curve := v\<rparr>) (field_int xs)
          else if val_u = 0x0B
          then set_field (\<lambda>e. c\<lparr>cred_opts := e\<rparr>) (field_map option_field ((cred_opts c)\<lparr>opt_present := True\<rparr>) xs)
          else if val_u = 0x0C then set_field (\<lambda>v. c\<lparr>rtc_creation := v\<rparr>) (field_uint xs)
          else map_sum id (Pair c) (cbor_advance xs))"

text \<open>An identifier that does not decrypt may be a key handle of the old format.\<close>

definition credential_load :: "sdk \<Rightarrow> bytes \<Rightarrow> bytes \<Rightarrow> 'a device_scheme \<Rightarrow> (ctap_error + credential) \<times> 'a device_scheme" where
  "credential_load k cid rp s =
     (let (ret, copy, s) = credential_verify k cid rp False s;
          finish = (\<lambda>c. c\<lparr>cred_id := Some cid, cred_present := True\<rparr>)
      in if ret \<noteq> PICOKEYS_OK
         then if length cid \<noteq> 64 then (Inl CTAP2_ERR_INVALID_CREDENTIAL, s)
              else let (ret, s) = verify_key k rp cid None s
                   in if ret \<noteq> PICOKEYS_OK then (Inl CTAP2_ERR_INVALID_CREDENTIAL, s)
                      else (Inr (finish credential_zero), s)
         else (case sdk_cbor_dec k (take (length cid - 32) (drop 16 copy)) of
                 Inl e \<Rightarrow> (Inl (CborError e), s)
               | Inr v \<Rightarrow>
                   (case cbor_map credential_field (credential_zero\<lparr>cred_curve := 1, cred_alg := - 7\<rparr>) v of
                      Inl e \<Rightarrow> (Inl (the (ctap_status (Some e))), s)
                    | Inr c \<Rightarrow> (Inr (finish c), s))))"

subsection \<open>Resident credentials\<close>

text \<open>The slot of a file is the low byte of its identifier.\<close>

definition resident_slot :: "fid option \<Rightarrow> byte" where
  "resident_slot ef = ucast (the ef)"

definition credential_resident_container_read_alloc ::
    "sdk \<Rightarrow> objs \<Rightarrow> fid option \<Rightarrow> u16 \<Rightarrow> 'a resident_scheme \<Rightarrow> rc \<times> bytes \<times> 'a resident_scheme" where
  "credential_resident_container_read_alloc k ob ef ty s =
     (if \<not> resident_container_is_marker s ef then (PICOKEYS_ERR_NULL_PARAM, [], s)
      else let (ret, size, s) = resident_container_object_size k ob (resident_slot ef) ty 0 s
      in if ret \<noteq> PICOKEYS_OK then (ret, [], s)
      else let (ok, s) = (if size > 0 then calloc k (unat size) s else (True, s))
      in if \<not> ok then (PICOKEYS_ERR_MEMORY_FATAL, [], s)
      else let (ret, buf, written, s) = resident_container_read k ob (resident_slot ef) ty (replicate (unat size) 0) 0 s
      in if ret \<noteq> PICOKEYS_OK then (ret, [], s)
         else if written \<noteq> unat size then (PICOKEYS_WRONG_LENGTH, [], s)
         else (PICOKEYS_OK, buf, s))"

definition credential_resident_rp_id_hash ::
    "sdk \<Rightarrow> objs \<Rightarrow> fid option \<Rightarrow> 'a resident_scheme \<Rightarrow> rc \<times> bytes \<times> 'a resident_scheme" where
  "credential_resident_rp_id_hash k ob ef s =
     (if \<not> file_has_data s ef then (PICOKEYS_ERR_NULL_PARAM, replicate 32 0, s)
      else if \<not> resident_container_is_marker s ef
      then if file_get_size s ef < 32 then (PICOKEYS_WRONG_LENGTH, replicate 32 0, s)
           else (PICOKEYS_OK, take 32 (file_get_data s ef), s)
      else let (ret, buf, written, s) =
                 resident_container_read k ob (resident_slot ef) FIDO_RESIDENT_OBJECT_RP_ID_HASH (replicate 32 0) 0 s
           in (if ret = PICOKEYS_OK \<and> written \<noteq> 32 then PICOKEYS_WRONG_LENGTH else ret, buf, s))"

definition credential_resident_matches_rp ::
    "sdk \<Rightarrow> objs \<Rightarrow> fid option \<Rightarrow> bytes \<Rightarrow> 'a resident_scheme \<Rightarrow> bool \<times> 'a resident_scheme" where
  "credential_resident_matches_rp k ob ef rp s =
     (let (ret, stored, s) = credential_resident_rp_id_hash k ob ef s
      in (ret = PICOKEYS_OK \<and> stored = take 32 rp, s))"

definition credential_resident_matches_id ::
    "sdk \<Rightarrow> objs \<Rightarrow> fid option \<Rightarrow> bytes \<Rightarrow> 'a resident_scheme \<Rightarrow> bool \<times> 'a resident_scheme" where
  "credential_resident_matches_id k ob ef rid s =
     (if \<not> file_has_data s ef \<or> length rid \<noteq> CRED_RESIDENT_LEN then (False, s)
      else let d = drop 32 (file_get_data s ef)
      in if resident_container_is_marker s ef
         then let (ret, buf, written, s) = resident_container_read k ob (resident_slot ef) FIDO_RESIDENT_OBJECT_CLIENT_ID
                                             (replicate CRED_RESIDENT_LEN 0) 0 s
              in (ret = PICOKEYS_OK \<and> written = CRED_RESIDENT_LEN \<and> buf = rid, s)
         else if file_get_size s ef \<ge> 32 + CRED_RESIDENT_LEN \<and> credential_is_resident d
         then (take CRED_RESIDENT_LEN d = rid, s)
         else if file_get_size s ef > 32 then (credential_derive_resident k d = rid, s)
         else (False, s))"

definition credential_load_resident ::
    "sdk \<Rightarrow> objs \<Rightarrow> fid option \<Rightarrow> bytes \<Rightarrow> 'a device_scheme \<Rightarrow> (ctap_error + credential) \<times> 'a device_scheme" where
  "credential_load_resident k ob ef rp s =
     (if \<not> file_has_data s ef then (Inl CTAP1_ERR_INVALID_PARAMETER, s)
      else if resident_container_is_marker s ef
      then let (ret, stored, s) = credential_resident_rp_id_hash k ob ef s
           in if ret \<noteq> PICOKEYS_OK \<or> stored \<noteq> take 32 rp then (Inl CTAP2_ERR_NO_CREDENTIALS, s)
              else let (ret, cred, s) = credential_resident_container_read_alloc k ob ef FIDO_RESIDENT_OBJECT_CREDENTIAL s;
                       (ret, rid, s) = (if ret = PICOKEYS_OK
                                        then credential_resident_container_read_alloc k ob ef FIDO_RESIDENT_OBJECT_CLIENT_ID s
                                        else (ret, [], s))
              in if ret \<noteq> PICOKEYS_OK then (Inl (CTAP_RC ret), s)
                 else if length rid \<noteq> CRED_RESIDENT_LEN then (Inl (CTAP_RC PICOKEYS_WRONG_LENGTH), s)
                 else let (c, s) = credential_load k cred rp s in (map_sum id (\<lambda>c. c\<lparr>residentId := Some rid\<rparr>) c, s)
      else let d = drop 32 (file_get_data s ef)
           in if file_get_size s ef \<le> 32 then (Inl CTAP2_ERR_NO_CREDENTIALS, s)
              else if credential_is_resident d
              then (case credential_load k (drop CRED_RESIDENT_LEN d) rp s of
                      (Inl e, s) \<Rightarrow> (Inl e, s)
                    | (Inr c, s) \<Rightarrow>
                        (let (ok, s) = calloc k CRED_RESIDENT_LEN s
                         in if \<not> ok then (Inl CTAP2_ERR_PROCESSING, s)
                            else (Inr (c\<lparr>residentId := Some (take CRED_RESIDENT_LEN d)\<rparr>), s)))
              else credential_load k d rp s)"

definition credential_resident_public_key ::
    "sdk \<Rightarrow> objs \<Rightarrow> fid option \<Rightarrow> 'a resident_scheme \<Rightarrow> rc \<times> bytes \<times> 'a resident_scheme" where
  "credential_resident_public_key k ob ef s =
     (if \<not> resident_container_is_marker s ef then (PICOKEYS_ERR_FILE_NOT_FOUND, [], s)
      else credential_resident_container_read_alloc k ob ef FIDO_RESIDENT_OBJECT_PUBLIC_KEY s)"

definition credential_resident_update ::
    "sdk \<Rightarrow> objs \<Rightarrow> fid option \<Rightarrow> bytes \<Rightarrow> 'a resident_scheme \<Rightarrow> rc \<times> 'a resident_scheme" where
  "credential_resident_update k ob ef cred s =
     (if \<not> file_has_data s ef then (PICOKEYS_ERR_NULL_PARAM, s)
      else if resident_container_is_marker s ef then resident_container_update_credential k ob (resident_slot ef) (Some cred) s
      else let (ret, rp, s) = credential_resident_rp_id_hash k ob ef s; d = drop 32 (file_get_data s ef)
      in if ret \<noteq> PICOKEYS_OK then (PICOKEYS_WRONG_DATA, s)
      else if \<not> (file_get_size s ef \<ge> 32 + CRED_RESIDENT_LEN \<and> credential_is_resident d) \<and> file_get_size s ef \<le> 32
      then (PICOKEYS_WRONG_DATA, s)
      else let rid = (if file_get_size s ef \<ge> 32 + CRED_RESIDENT_LEN \<and> credential_is_resident d
                      then take CRED_RESIDENT_LEN d else credential_derive_resident k d);
               (ok, s) = calloc k (32 + CRED_RESIDENT_LEN + length cred) s
      in if \<not> ok then (PICOKEYS_ERR_MEMORY_FATAL, s) else file_put_data k ef (rp @ rid @ cred) s)"

definition credential_resident_delete ::
    "sdk \<Rightarrow> objs \<Rightarrow> fid option \<Rightarrow> 'a resident_scheme \<Rightarrow> rc \<times> 'a resident_scheme" where
  "credential_resident_delete k ob ef s =
     (if \<not> file_has_data s ef then (PICOKEYS_ERR_FILE_NOT_FOUND, s)
      else if resident_container_is_marker s ef then resident_container_delete k ob (resident_slot ef) s
      else file_delete k ef s)"

text \<open>
  Verification in place changes the file's data in memory when they are not in a container;
  here the file stays as it is.
\<close>

definition credential_resident_verify ::
    "sdk \<Rightarrow> objs \<Rightarrow> fid option \<Rightarrow> bytes \<Rightarrow> bool \<Rightarrow> 'a device_scheme \<Rightarrow> ctap_error option \<times> 'a device_scheme" where
  "credential_resident_verify k ob ef rp silent s =
     (let status = (\<lambda>r. if r = PICOKEYS_OK then None else Some (CTAP_RC r))
      in if \<not> file_has_data s ef then (Some CTAP1_ERR_INVALID_PARAMETER, s)
      else if \<not> resident_container_is_marker s ef
      then if file_get_size s ef \<le> 32 then (Some CTAP2_ERR_NO_CREDENTIALS, s)
           else let d = drop 32 (file_get_data s ef);
                    (ret, _, s) = credential_verify k (if credential_is_resident d then drop CRED_RESIDENT_LEN d else d) rp silent s
                in (status ret, s)
      else let (ret, cred, s) = credential_resident_container_read_alloc k ob ef FIDO_RESIDENT_OBJECT_CREDENTIAL s
           in if ret \<noteq> PICOKEYS_OK then (status ret, s)
              else let (ret, _, s) = credential_verify k cred rp silent s in (status ret, s))"

subsection \<open>Records of the relying parties\<close>

text \<open>
  A record is a count of credentials, the hash of the identifier of the relying party and the
  identifier, encrypted in the secure format.
\<close>

definition rp_fid :: "nat \<Rightarrow> fid" where
  "rp_fid i = EF_RP + word_of_nat i"

definition credential_rp_id_iv :: "sdk \<Rightarrow> bytes \<Rightarrow> bytes" where
  "credential_rp_id_iv k rp = take CRED_IV_LEN (sha256 k (CRED_PROTO_RP_S @ take 32 rp))"

definition credential_rp_id_is_secure :: "'a plat_scheme \<Rightarrow> fid option \<Rightarrow> bool" where
  "credential_rp_id_is_secure s ef \<longleftrightarrow>
     file_has_data s ef \<and> file_get_size s ef \<ge> RP_RECORD_HEADER_LEN + RP_SECURE_OVERHEAD \<and>
     take CRED_PROTO_LEN (drop RP_RECORD_HEADER_LEN (file_get_data s ef)) = CRED_PROTO_RP_S"

definition credential_rp_id_encrypt :: "sdk \<Rightarrow> bytes \<Rightarrow> bytes \<Rightarrow> 'a fido_scheme \<Rightarrow> rc \<times> bytes \<times> 'a fido_scheme" where
  "credential_rp_id_encrypt k rp rp_id s =
     (let (r, key, s) = credential_derive_chacha_key k CRED_PROTO_RP_S s
      in if r \<noteq> PICOKEYS_OK then (r, [], s)
      else let (ok, s) = calloc k (length rp_id + RP_SECURE_OVERHEAD) s
      in if \<not> ok then (rc_of_int (- 1), [], s)
      else let iv = credential_rp_id_iv k rp; (ret, cipher, tag) = sdk_chacha_enc k key iv (take 32 rp) rp_id
      in if ret \<noteq> 0 then (rc_of_int ret, [], s)
         else (PICOKEYS_OK, CRED_PROTO_RP_S @ iv @ fit (length rp_id) cipher @ fit CRED_TAG_LEN tag, s))"

definition credential_rp_id_decrypt :: "sdk \<Rightarrow> fid option \<Rightarrow> 'a fido_scheme \<Rightarrow> rc \<times> bytes \<times> 'a fido_scheme" where
  "credential_rp_id_decrypt k ef s =
     (if \<not> file_has_data s ef \<or> file_get_size s ef < RP_RECORD_HEADER_LEN then (rc_of_int (- 1), [], s)
      else let d = file_get_data s ef; tail = drop RP_RECORD_HEADER_LEN d; secure = credential_rp_id_is_secure s ef
      in if \<not> secure
         then let (ok, s) = calloc k (length tail + 1) s
              in if \<not> ok then (rc_of_int (- 1), [], s) else (PICOKEYS_OK, tail, s)
         else if length tail < RP_SECURE_OVERHEAD then (rc_of_int (- 1), [], s)
         else let n = length tail - RP_SECURE_OVERHEAD; (ok, s) = calloc k (n + 1) s
         in if \<not> ok then (rc_of_int (- 1), [], s)
         else let (r, key, s) = credential_derive_chacha_key k CRED_PROTO_RP_S s
         in if r \<noteq> PICOKEYS_OK then (r, [], s)
         else let (ret, plain) = sdk_chacha_dec k key (take CRED_IV_LEN (drop CRED_PROTO_LEN tail)) (take 32 (drop 1 d))
                                   (take CRED_TAG_LEN (drop (16 + n) tail)) (take n (drop 16 tail))
              in if ret \<noteq> 0 then (rc_of_int ret, [], s) else (PICOKEYS_OK, fit n plain, s))"

text \<open>A record that cannot be encrypted stays as it is; that a write fails is not noticed.\<close>

fun migrate_rps :: "sdk \<Rightarrow> nat list \<Rightarrow> bool \<Rightarrow> 'a fido_scheme \<Rightarrow> bool \<times> 'a fido_scheme" where
  "migrate_rps k [] changed s = (changed, s)"
| "migrate_rps k (i # is) changed s =
     (let ef = file_search s (rp_fid i); d = file_get_data s ef
      in if \<not> file_has_data s ef \<or> credential_rp_id_is_secure s ef \<or> file_get_size s ef < RP_RECORD_HEADER_LEN
         then migrate_rps k is changed s
         else let (r, out, s) = credential_rp_id_encrypt k (take 32 (drop 1 d)) (drop RP_RECORD_HEADER_LEN d) s
         in if r \<noteq> PICOKEYS_OK then migrate_rps k is changed s
         else let (ok, s) = calloc k (RP_RECORD_HEADER_LEN + length out) s
         in if \<not> ok then migrate_rps k is changed s
         else let (_, s) = file_put_data k ef (take RP_RECORD_HEADER_LEN d @ out) s in migrate_rps k is True s)"

definition credential_migrate_rp_secure :: "sdk \<Rightarrow> 'a fido_scheme \<Rightarrow> rc \<times> 'a fido_scheme" where
  "credential_migrate_rp_secure k s =
     (let (changed, s) = migrate_rps k [0..<MAX_RESIDENT_CREDENTIALS] False s
      in (PICOKEYS_OK, if changed then flash_commit s else s))"

subsection \<open>Storing a resident credential\<close>

text \<open>
  The slot to store in: that of the credential of the same user at the same relying party, or
  else the first slot a container can be created in. The booleans say that the credential is
  new and that it is to be stored in a container.
\<close>

fun find_resident_slot ::
    "sdk \<Rightarrow> objs \<Rightarrow> bytes \<Rightarrow> bytes option \<Rightarrow> nat list \<Rightarrow> nat option \<Rightarrow> 'a device_scheme \<Rightarrow> nat option \<times> bool \<times> bool \<times> 'a device_scheme" where
  "find_resident_slot k ob rp uid [] sloti s = (sloti, True, True, s)"
| "find_resident_slot k ob rp uid (i # is) sloti s =
     (let ef = file_search s (EF_CRED + word_of_nat i)
      in if \<not> file_has_data s ef
         then let (free, s) = (if sloti = None then resident_container_can_create k ob (word_of_nat i) s else (False, s))
              in find_resident_slot k ob rp uid is (if free then Some i else sloti) s
         else let (same, s) = credential_resident_matches_rp k ob ef rp s
         in if \<not> same then find_resident_slot k ob rp uid is sloti s
         else let (rcred, s) = credential_load_resident k ob ef rp s
         in case rcred of
              Inl e \<Rightarrow> find_resident_slot k ob rp uid is sloti s
            | Inr c \<Rightarrow>
                if (case cred_userId c of Some d \<Rightarrow> d | None \<Rightarrow> []) = (case uid of Some d \<Rightarrow> d | None \<Rightarrow> [])
                then (Some i, False, resident_container_is_marker s ef, s)
                else find_resident_slot k ob rp uid is sloti s)"

text \<open>The record of the relying party, or else the first free one.\<close>

fun find_rp_slot :: "bytes \<Rightarrow> nat list \<Rightarrow> nat option \<Rightarrow> 'a plat_scheme \<Rightarrow> nat option" where
  "find_rp_slot rp [] sloti s = sloti"
| "find_rp_slot rp (i # is) sloti s =
     (let ef = file_search s (rp_fid i)
      in if \<not> file_has_data s ef then find_rp_slot rp is (if sloti = None then Some i else sloti) s
         else if take 32 (drop 1 (file_get_data s ef)) = take 32 rp then Some i
         else find_rp_slot rp is sloti s)"

definition increase_rp :: "sdk \<Rightarrow> bytes \<Rightarrow> bytes \<Rightarrow> 'a fido_scheme \<Rightarrow> rc \<times> 'a fido_scheme" where
  "increase_rp k rp rp_id s =
     (case find_rp_slot rp [0..<MAX_RESIDENT_CREDENTIALS] None s of
        None \<Rightarrow> (rc_of_int (- 1), s)
      | Some i \<Rightarrow>
          let ef = file_search s (rp_fid i); d = file_get_data s ef
          in if file_has_data s ef then let (_, s) = file_put_data k ef (d[0 := d ! 0 + 1]) s in (PICOKEYS_OK, s)
             else let (ef, s) = file_new k (rp_fid i) s
             in if ef = None then (rc_of_int (- 1), s)
             else let (r, out, s) = credential_rp_id_encrypt k rp rp_id s
             in if r \<noteq> PICOKEYS_OK then (rc_of_int (- 1), s)
             else let (ok, s) = calloc k (RP_RECORD_HEADER_LEN + length out) s
             in if \<not> ok then (rc_of_int (- 1), s)
             else let (_, s) = file_put_data k ef (1 # take 32 rp @ out) s in (PICOKEYS_OK, s))"

text \<open>Storing in the slot that was found: in a container, or over a file of the older format.\<close>

definition store_in_slot ::
    "sdk \<Rightarrow> objs \<Rightarrow> bool \<Rightarrow> nat \<Rightarrow> bytes \<Rightarrow> bytes \<Rightarrow> bytes \<Rightarrow> 'a resident_scheme \<Rightarrow> rc \<times> 'a resident_scheme" where
  "store_in_slot k ob use_container i rp cid pk s =
     (let rid = credential_derive_resident k cid
      in if use_container then resident_container_create k ob (word_of_nat i) (Some (take 32 rp)) (Some rid) (Some cid) (Some pk) s
         else let (ok, s) = calloc k (length cid + 32 + CRED_RESIDENT_LEN) s
         in if \<not> ok then (rc_of_int (- 1), s)
         else let (ef, s) = file_new k (EF_CRED + word_of_nat i) s
              in if ef = None then (PICOKEYS_ERR_NO_MEMORY, s) else file_put_data k ef (take 32 rp @ rid @ cid) s)"

definition credential_store ::
    "sdk \<Rightarrow> objs \<Rightarrow> bytes \<Rightarrow> bytes \<Rightarrow> bytes \<Rightarrow> 'a device_scheme \<Rightarrow> ctap_error option \<times> 'a device_scheme" where
  "credential_store k ob cid rp pk s =
     (if pk = [] then (Some (CTAP_RC (rc_of_int (- 1))), s)
      else let (cred, s) = credential_load k cid rp s
      in case cred of
           Inl e \<Rightarrow> (Some e, s)
         | Inr c \<Rightarrow>
             let (sloti, new_record, use_container, s) =
                   find_resident_slot k ob rp (cred_userId c) [0..<MAX_RESIDENT_CREDENTIALS] None s
             in case sloti of
                  None \<Rightarrow> (Some (CTAP_RC (rc_of_int (- 1))), s)
                | Some i \<Rightarrow>
                    let (ret, s) = store_in_slot k ob use_container i rp cid pk s
                    in if ret \<noteq> PICOKEYS_OK then (Some (CTAP_RC ret), s)
                    else let (ret, s) = (if new_record then increase_rp k rp (case cred_rpId c of Some d \<Rightarrow> d | None \<Rightarrow> []) s
                                         else (PICOKEYS_OK, s))
                    in if ret \<noteq> PICOKEYS_OK then (Some (CTAP_RC ret), s) else (None, flash_commit s))"

end
