(* ===== verification/Credential_Properties.thy ===== *)
theory Credential_Properties
  imports Credential_Store Fido_Keys_Properties Ref_Cbor
begin

text \<open>
  What holds of the credentials: an identifier that was created is accepted, silently and not, for
  its relying party, and loads as the credential that was written into it; encrypting the records
  of the relying parties keeps what they say.
\<close>

subsection \<open>Reading back a map\<close>

definition no_bad :: "cbor list \<Rightarrow> bool" where
  "no_bad xs \<longleftrightarrow> list_all (\<lambda>c. case c of CBad _ \<Rightarrow> False | _ \<Rightarrow> True) xs"

lemma no_bad_simps [simp]:
  "no_bad []" "no_bad (x # xs) \<longleftrightarrow> (case x of CBad _ \<Rightarrow> False | _ \<Rightarrow> True) \<and> no_bad xs"
  "no_bad (xs @ ys) \<longleftrightarrow> no_bad xs \<and> no_bad ys"
  by (simp_all add: no_bad_def)

lemma no_bad_advance [simp]: "no_bad xs \<Longrightarrow> cbor_advance (x # xs) = Inr xs"
  by (cases xs) (auto simp: cbor_advance_def split: cbor.splits)

text \<open>The loop over a map takes the items \<open>xs\<close> and goes from \<open>st\<close> to \<open>st'\<close>, whatever follows them.\<close>

definition reads :: "('s \<Rightarrow> cbor list \<Rightarrow> ctap_error + 's \<times> cbor list) \<Rightarrow> 's \<Rightarrow> cbor list \<Rightarrow> 's \<Rightarrow> bool" where
  "reads body st xs st' \<longleftrightarrow>
     (\<forall>ys n. no_bad ys \<and> length (xs @ ys) \<le> n \<longrightarrow>
        (\<exists>m \<ge> length ys. cbor_items body n st (xs @ ys) = cbor_items body m st' ys))"

lemma reads_Nil [intro]: "reads body st [] st"
  by (auto simp: reads_def)

lemma reads_step:
  assumes "\<And>ys. no_bad ys \<Longrightarrow> body st (x # y # ys) = Inr (st', ys)"
  shows "reads body st [x, y] st'"
proof -
  have "\<exists>m \<ge> length ys. cbor_items body n st ([x, y] @ ys) = cbor_items body m st' ys"
    if z: "no_bad ys" "length ([x, y] @ ys) \<le> n" for ys n
  proof -
    obtain m where n: "n = Suc m" using z(2) by (cases n) auto
    then show ?thesis using assms [OF z(1)] z(2) by (intro exI [of _ m]) simp
  qed
  then show ?thesis by (simp add: reads_def)
qed

lemma reads_append:
  assumes "reads body st xs st'" and "reads body st' ys st''" and "no_bad ys"
  shows "reads body st (xs @ ys) st''"
proof -
  have "\<exists>m \<ge> length zs. cbor_items body n st ((xs @ ys) @ zs) = cbor_items body m st'' zs"
    if z: "no_bad zs" "length ((xs @ ys) @ zs) \<le> n" for zs n
  proof -
    have "no_bad (ys @ zs)" "length (xs @ (ys @ zs)) \<le> n" using z assms(3) by simp_all
    then obtain m where m: "length (ys @ zs) \<le> m" "cbor_items body n st (xs @ ys @ zs) = cbor_items body m st' (ys @ zs)"
      using assms(1) unfolding reads_def by blast
    then obtain l where "length zs \<le> l" "cbor_items body m st' (ys @ zs) = cbor_items body l st'' zs"
      using assms(2) z(1) unfolding reads_def by blast
    with m show ?thesis by auto
  qed
  then show ?thesis by (simp add: reads_def)
qed

lemma reads_map:
  assumes "reads body st xs st'" and "no_bad xs"
  shows "cbor_map body st (CMap xs) = Inr st'"
proof -
  obtain m where "cbor_items body (length xs) st (xs @ []) = cbor_items body m st' []"
    using assms(1) [unfolded reads_def, THEN spec, of "[]", THEN spec, of "length xs"] by auto
  then show ?thesis using assms(2) by (cases xs) (auto simp: cbor_map_def split: cbor.splits)
qed

lemma reads_field_map:
  "reads body st xs st' \<Longrightarrow> no_bad xs \<Longrightarrow> no_bad ys \<Longrightarrow> field_map body st (CMap xs # ys) = Inr (st', ys)"
  by (simp add: field_map_def reads_map)

subsection \<open>The fields of a credential\<close>

definition written_text :: "bytes option \<Rightarrow> bytes option" where
  "written_text v = (case v of None \<Rightarrow> None | Some d \<Rightarrow> if d = [] then None else Some (stringz d))"

definition written_bytes :: "bytes option \<Rightarrow> bytes option" where
  "written_bytes v = (case v of None \<Rightarrow> None | Some d \<Rightarrow> if d = [] then None else Some d)"

text \<open>Of the extensions, a blob that is too long and the flags that are not set are left out.\<close>

definition written_extensions :: "cred_extensions \<Rightarrow> cred_extensions" where
  "written_extensions e =
     (if ext_present e
      then \<lparr>hmac_secret = hmac_secret e, credProtect = credProtect e, minPinLength = None,
            credBlob = (case credBlob e of Some d \<Rightarrow> if length d < MAX_CREDBLOB_LENGTH then Some d else None | None \<Rightarrow> None),
            largeBlobKey = (if largeBlobKey e = Some True then Some True else None),
            thirdPartyPayment = (if thirdPartyPayment e = Some True then Some True else None), ext_present = True\<rparr>
      else cred_ext credential_zero)"

definition written_options :: "cred_options \<Rightarrow> cred_options" where
  "written_options p =
     (if opt_present p then \<lparr>opt_rk = opt_rk p, opt_up = None, opt_uv = None, opt_present = True\<rparr>
      else cred_opts credential_zero)"

definition written_credential ::
    "sdk \<Rightarrow> bytes option \<Rightarrow> bytes option \<Rightarrow> bytes option \<Rightarrow> bytes option \<Rightarrow> cred_options \<Rightarrow> cred_extensions \<Rightarrow>
     bool \<Rightarrow> int \<Rightarrow> int \<Rightarrow> 'a plat_scheme \<Rightarrow> credential" where
  "written_credential k rp uid name display opts ext sign_count alg crv s =
     credential_zero
       \<lparr>cred_rpId := written_text rp, cred_userId := written_bytes uid, cred_userName := written_text name,
        cred_userDisplayName := written_text display, board_creation := ucast (millis s),
        cred_ext := written_extensions ext, use_sign_count := Some sign_count, cred_alg := word_of_int alg,
        cred_curve := word_of_int crv, cred_opts := written_options opts,
        rtc_creation := (case sdk_rtc_time k (tick s) of Some t \<Rightarrow> t | None \<Rightarrow> 0)\<rparr>"

lemmas field_defs = field_uint_def field_int_def field_bytes_def field_text_def field_bool_def set_field_def

lemma cbor_int_field: "no_bad ys \<Longrightarrow> field_int (cbor_int i # ys) = Inr (word_of_int i, ys)"
  by (simp add: cbor_int_def field_int_def)

lemma no_bad_cbor_int [simp]: "(case cbor_int i of CBad _ \<Rightarrow> False | _ \<Rightarrow> True)"
  by (simp add: cbor_int_def)

lemma reads_if:
  "(b \<Longrightarrow> reads body st xs st') \<Longrightarrow> (\<not> b \<Longrightarrow> st' = st) \<Longrightarrow> reads body st (if b then xs else []) st'"
  by auto

lemma ascii_keys [simp]:
  "stringz (ascii ''credBlob'') = ascii ''credBlob''" "stringz (ascii ''credProtect'') = ascii ''credProtect''"
  "stringz (ascii ''hmac-secret'') = ascii ''hmac-secret''" "stringz (ascii ''largeBlobKey'') = ascii ''largeBlobKey''"
  "stringz (ascii ''thirdPartyPayment'') = ascii ''thirdPartyPayment''" "stringz (ascii ''rk'') = ascii ''rk''"
  by (simp_all add: ascii_def stringz_def)

lemma ascii_length [simp]: "length (ascii x) = length x"
  by (simp add: ascii_def)

lemma ascii_distinct [simp]:
  "ascii ''credBlob'' \<noteq> ascii ''hmac-secret''" "ascii ''credBlob'' \<noteq> ascii ''credProtect''"
  "ascii ''credProtect'' \<noteq> ascii ''hmac-secret''"
  "ascii ''largeBlobKey'' \<noteq> ascii ''hmac-secret''" "ascii ''largeBlobKey'' \<noteq> ascii ''credProtect''" "ascii ''largeBlobKey'' \<noteq> ascii ''credBlob''"
  "ascii ''thirdPartyPayment'' \<noteq> ascii ''hmac-secret''" "ascii ''thirdPartyPayment'' \<noteq> ascii ''credProtect''"
  "ascii ''thirdPartyPayment'' \<noteq> ascii ''credBlob''" "ascii ''thirdPartyPayment'' \<noteq> ascii ''largeBlobKey''"
  by (simp_all add: ascii_def)

lemma extension_key:
  "no_bad ys \<Longrightarrow> length key \<le> 64 \<Longrightarrow> stringz key = key \<Longrightarrow>
     (case y of CBad _ \<Rightarrow> False | _ \<Rightarrow> True) \<Longrightarrow> field_key_text (CText key # y # ys) = Inr (key, y # ys)"
  by (simp add: field_key_text_def field_text_def)

lemma reads_extensions:
  "reads extension_field e0 (extension_items e)
     \<lparr>hmac_secret = (case hmac_secret e of Some b \<Rightarrow> Some b | None \<Rightarrow> hmac_secret e0),
      credProtect = (if credProtect e \<noteq> 0 then credProtect e else credProtect e0), minPinLength = minPinLength e0,
      credBlob = (case credBlob e of Some d \<Rightarrow> if length d < MAX_CREDBLOB_LENGTH then Some d else credBlob e0 | None \<Rightarrow> credBlob e0),
      largeBlobKey = (if largeBlobKey e = Some True then Some True else largeBlobKey e0),
      thirdPartyPayment = (if thirdPartyPayment e = Some True then Some True else thirdPartyPayment e0),
      ext_present = ext_present e0\<rparr>"
    (is "reads _ _ _ ?e")
proof -
  let ?e1 = "e0\<lparr>credBlob := credBlob ?e\<rparr>"
  let ?e2 = "?e1\<lparr>credProtect := credProtect ?e\<rparr>"
  let ?e3 = "?e2\<lparr>hmac_secret := hmac_secret ?e\<rparr>"
  let ?e4 = "?e3\<lparr>largeBlobKey := largeBlobKey ?e\<rparr>"
  have 1: "reads extension_field e0 (case credBlob e of
        Some d \<Rightarrow> if length d < MAX_CREDBLOB_LENGTH then [CText (ascii ''credBlob''), CBytes d] else [] | None \<Rightarrow> []) ?e1"
    by (auto simp: extension_field_def extension_key field_defs split: option.splits intro!: reads_if reads_step)
  have 2: "reads extension_field ?e1 (if credProtect e \<noteq> 0 then [CText (ascii ''credProtect''), CUInt (credProtect e)] else []) ?e2"
    by (rule reads_if, rule reads_step) (simp_all add: extension_field_def extension_key field_defs)
  have 3: "reads extension_field ?e2 (case hmac_secret e of Some b \<Rightarrow> [CText (ascii ''hmac-secret''), CBool b] | None \<Rightarrow> []) ?e3"
    by (auto simp: extension_field_def extension_key field_defs split: option.splits intro!: reads_step)
  have 4: "reads extension_field ?e3 (if largeBlobKey e = Some True then [CText (ascii ''largeBlobKey''), CBool True] else []) ?e4"
    by (rule reads_if, rule reads_step) (simp_all add: extension_field_def extension_key field_defs)
  have 5: "reads extension_field ?e4
      (if thirdPartyPayment e = Some True then [CText (ascii ''thirdPartyPayment''), CBool True] else []) ?e"
    by (rule reads_if, rule reads_step) (simp_all add: extension_field_def extension_key field_defs)
  show ?thesis
    unfolding extension_items_def
    by (rule reads_append [OF 1 reads_append [OF 2 reads_append [OF 3 reads_append [OF 4 5]]]])
       (auto split: option.splits)
qed

lemma no_bad_items [simp]: "no_bad (extension_items e)" "no_bad (key_string n v)" "no_bad (key_bytes n v)"
  by (auto simp: extension_items_def key_string_def key_bytes_def split: option.splits)

lemma reads_options:
  "reads option_field p0 (case opt_rk p of Some b \<Rightarrow> [CText (ascii ''rk''), CBool b] | None \<Rightarrow> [])
     (p0\<lparr>opt_rk := case opt_rk p of Some b \<Rightarrow> Some b | None \<Rightarrow> opt_rk p0\<rparr>)"
  by (auto simp: option_field_def extension_key field_defs split: option.splits intro!: reads_step)

lemma cred_key [simp]: "no_bad (y # ys) \<Longrightarrow> field_uint (CUInt n # y # ys) = Inr (n, y # ys)"
  unfolding field_uint_def by (simp only: no_bad_advance cbor.case list.case) simp

lemma reads_text:
  "reads credential_field c (key_string 0x01 v) (c\<lparr>cred_rpId := case written_text v of Some d \<Rightarrow> Some d | None \<Rightarrow> cred_rpId c\<rparr>)"
  "reads credential_field c (key_string 0x04 v) (c\<lparr>cred_userName := case written_text v of Some d \<Rightarrow> Some d | None \<Rightarrow> cred_userName c\<rparr>)"
  "reads credential_field c (key_string 0x05 v)
     (c\<lparr>cred_userDisplayName := case written_text v of Some d \<Rightarrow> Some d | None \<Rightarrow> cred_userDisplayName c\<rparr>)"
  by (auto simp: key_string_def written_text_def credential_field_def field_text_def set_field_def split: option.splits intro!: reads_step)

lemma reads_bytes:
  "reads credential_field c (key_bytes 0x03 v) (c\<lparr>cred_userId := case written_bytes v of Some d \<Rightarrow> Some d | None \<Rightarrow> cred_userId c\<rparr>)"
  by (auto simp: key_bytes_def written_bytes_def credential_field_def field_bytes_def set_field_def split: option.splits intro!: reads_step)

lemma reads_plain:
  "reads credential_field c [CUInt 0x02, CBytes h] c"
  "reads credential_field c [CUInt 0x06, CUInt v] (c\<lparr>board_creation := v\<rparr>)"
  "reads credential_field c [CUInt 0x08, CBool b] (c\<lparr>use_sign_count := Some b\<rparr>)"
  "reads credential_field c [CUInt 0x0C, CUInt v] (c\<lparr>rtc_creation := v\<rparr>)"
  by (auto simp: credential_field_def set_field_def field_bool_def field_uint_def [of "CUInt v # ys" for ys] intro!: reads_step)

lemma reads_algorithm:
  "reads credential_field c [CUInt 0x09, cbor_int alg, CUInt 0x0A, cbor_int crv]
     (c\<lparr>cred_alg := word_of_int alg, cred_curve := word_of_int crv\<rparr>)"
proof -
  have 1: "reads credential_field c [CUInt 0x09, cbor_int alg] (c\<lparr>cred_alg := word_of_int alg\<rparr>)"
    by (rule reads_step) (simp add: credential_field_def set_field_def cbor_int_field)
  have 2: "reads credential_field (c\<lparr>cred_alg := word_of_int alg\<rparr>) [CUInt 0x0A, cbor_int crv]
      (c\<lparr>cred_alg := word_of_int alg, cred_curve := word_of_int crv\<rparr>)"
    by (rule reads_step) (simp add: credential_field_def set_field_def cbor_int_field)
  show ?thesis using reads_append [OF 1 2] by simp
qed

lemma reads_maps:
  "reads credential_field c [CUInt 0x07, CMap (extension_items e)]
     (c\<lparr>cred_ext := \<lparr>hmac_secret = (case hmac_secret e of Some b \<Rightarrow> Some b | None \<Rightarrow> hmac_secret (cred_ext c)),
      credProtect = (if credProtect e \<noteq> 0 then credProtect e else credProtect (cred_ext c)), minPinLength = minPinLength (cred_ext c),
      credBlob = (case credBlob e of Some d \<Rightarrow> if length d < MAX_CREDBLOB_LENGTH then Some d else credBlob (cred_ext c)
                  | None \<Rightarrow> credBlob (cred_ext c)),
      largeBlobKey = (if largeBlobKey e = Some True then Some True else largeBlobKey (cred_ext c)),
      thirdPartyPayment = (if thirdPartyPayment e = Some True then Some True else thirdPartyPayment (cred_ext c)),
      ext_present = True\<rparr>\<rparr>)"
  "reads credential_field c [CUInt 0x0B, CMap (case opt_rk p of Some b \<Rightarrow> [CText (ascii ''rk''), CBool b] | None \<Rightarrow> [])]
     (c\<lparr>cred_opts := (cred_opts c)\<lparr>opt_rk := case opt_rk p of Some b \<Rightarrow> Some b | None \<Rightarrow> opt_rk (cred_opts c), opt_present := True\<rparr>\<rparr>)"
proof -
  have b: "no_bad (case opt_rk p of Some b \<Rightarrow> [CText (ascii ''rk''), CBool b] | None \<Rightarrow> [])" by (simp split: option.splits)
  show "reads credential_field c [CUInt 0x07, CMap (extension_items e)]
     (c\<lparr>cred_ext := \<lparr>hmac_secret = (case hmac_secret e of Some b \<Rightarrow> Some b | None \<Rightarrow> hmac_secret (cred_ext c)),
      credProtect = (if credProtect e \<noteq> 0 then credProtect e else credProtect (cred_ext c)), minPinLength = minPinLength (cred_ext c),
      credBlob = (case credBlob e of Some d \<Rightarrow> if length d < MAX_CREDBLOB_LENGTH then Some d else credBlob (cred_ext c)
                  | None \<Rightarrow> credBlob (cred_ext c)),
      largeBlobKey = (if largeBlobKey e = Some True then Some True else largeBlobKey (cred_ext c)),
      thirdPartyPayment = (if thirdPartyPayment e = Some True then Some True else thirdPartyPayment (cred_ext c)),
      ext_present = True\<rparr>\<rparr>)"
    by (rule reads_step) (simp add: credential_field_def set_field_def reads_field_map [OF reads_extensions] cong: option.case_cong if_cong)
  show "reads credential_field c [CUInt 0x0B, CMap (case opt_rk p of Some b \<Rightarrow> [CText (ascii ''rk''), CBool b] | None \<Rightarrow> [])]
     (c\<lparr>cred_opts := (cred_opts c)\<lparr>opt_rk := case opt_rk p of Some b \<Rightarrow> Some b | None \<Rightarrow> opt_rk (cred_opts c), opt_present := True\<rparr>\<rparr>)"
    by (rule reads_step) (simp add: credential_field_def set_field_def reads_field_map [OF reads_options b] cong: option.case_cong)
qed

text \<open>The map that \<open>credential_create\<close> writes is read as the written credential.\<close>

lemma credential_items_read:
  "cbor_map credential_field (credential_zero\<lparr>cred_curve := 1, cred_alg := - 7\<rparr>)
     (CMap (credential_items k rp uid name display opts ext sign_count alg crv h s)) =
   Inr (written_credential k rp uid name display opts ext sign_count alg crv s)"
proof -
  let ?c0 = "credential_zero\<lparr>cred_curve := 1, cred_alg := - 7\<rparr>"
  let ?w = "written_credential k rp uid name display opts ext sign_count alg crv s"
  let ?c1 = "?c0\<lparr>cred_rpId := written_text rp\<rparr>"
  let ?c3 = "?c1\<lparr>cred_userId := written_bytes uid\<rparr>"
  let ?c4 = "?c3\<lparr>cred_userName := written_text name\<rparr>"
  let ?c5 = "?c4\<lparr>cred_userDisplayName := written_text display\<rparr>"
  let ?c6 = "?c5\<lparr>board_creation := ucast (millis s)\<rparr>"
  let ?c7 = "?c6\<lparr>cred_ext := written_extensions ext\<rparr>"
  let ?c8 = "?c7\<lparr>use_sign_count := Some sign_count\<rparr>"
  let ?c10 = "?c8\<lparr>cred_alg := word_of_int alg, cred_curve := word_of_int crv\<rparr>"
  let ?c11 = "?c10\<lparr>cred_opts := written_options opts\<rparr>"
  have z: "(case v of None \<Rightarrow> None | Some x \<Rightarrow> Some x) = v" for v :: "'b option" by (simp split: option.splits)
  have zz: "(if x \<noteq> 0 then x else 0) = x" for x :: u64 by simp
  have 1: "reads credential_field ?c0 (key_string 0x01 rp) ?c1"
    using reads_text(1) [of ?c0 rp] by (simp add: credential_zero_def z cong: option.case_cong)
  have 2: "reads credential_field ?c1 [CUInt 0x02, CBytes h] ?c1" by (rule reads_plain)
  have 3: "reads credential_field ?c1 (key_bytes 0x03 uid) ?c3"
    using reads_bytes [of ?c1 uid] by (simp add: credential_zero_def z cong: option.case_cong)
  have 4: "reads credential_field ?c3 (key_string 0x04 name) ?c4"
    using reads_text(2) [of ?c3 name] by (simp add: credential_zero_def z cong: option.case_cong)
  have 5: "reads credential_field ?c4 (key_string 0x05 display) ?c5"
    using reads_text(3) [of ?c4 display] by (simp add: credential_zero_def z cong: option.case_cong)
  have 6: "reads credential_field ?c5 [CUInt 0x06, CUInt (ucast (millis s))] ?c6" by (rule reads_plain)
  have 7: "reads credential_field ?c6 (if ext_present ext then [CUInt 0x07, CMap (extension_items ext)] else []) ?c7"
  proof (rule reads_if)
    assume "ext_present ext"
    then show "reads credential_field ?c6 [CUInt 0x07, CMap (extension_items ext)] ?c7"
      using reads_maps(1) [of ?c6 ext] by (simp add: credential_zero_def written_extensions_def z zz cong: option.case_cong if_cong)
  qed (simp add: written_extensions_def credential_zero_def)
  have 8: "reads credential_field ?c7 [CUInt 0x08, CBool sign_count] ?c8" by (rule reads_plain)
  have 9: "reads credential_field ?c8
      (if alg \<noteq> FIDO2_ALG_ES256 \<or> crv \<noteq> FIDO2_CURVE_P256 then [CUInt 0x09, cbor_int alg, CUInt 0x0A, cbor_int crv] else []) ?c10"
    by (rule reads_if, rule reads_algorithm) (simp add: credential_zero_def)
  have 10: "reads credential_field ?c10
      (if opt_present opts then [CUInt 0x0B, CMap (case opt_rk opts of Some b \<Rightarrow> [CText (ascii ''rk''), CBool b] | None \<Rightarrow> [])] else []) ?c11"
  proof (rule reads_if)
    assume "opt_present opts"
    then show "reads credential_field ?c10 [CUInt 0x0B, CMap (case opt_rk opts of Some b \<Rightarrow> [CText (ascii ''rk''), CBool b] | None \<Rightarrow> [])] ?c11"
      using reads_maps(2) [of ?c10 opts] by (simp add: credential_zero_def written_options_def z cong: option.case_cong)
  qed (simp add: written_options_def credential_zero_def)
  have 11: "reads credential_field ?c11 (case sdk_rtc_time k (tick s) of Some t \<Rightarrow> [CUInt 0x0C, CUInt t] | None \<Rightarrow> []) ?w"
    using reads_plain(4) [of ?c11] by (auto simp: written_credential_def credential_zero_def split: option.splits)
  have "reads credential_field ?c0 (credential_items k rp uid name display opts ext sign_count alg crv h s) ?w"
    unfolding credential_items_def append_assoc
    by (rule reads_append [OF 1 reads_append [OF 2 reads_append [OF 3 reads_append [OF 4 reads_append [OF 5
          reads_append [OF 6 reads_append [OF 7 reads_append [OF 8 reads_append [OF 9 reads_append [OF 10 11]]]]]]]]]])
       (simp_all split: option.splits)
  moreover have "no_bad (credential_items k rp uid name display opts ext sign_count alg crv h s)"
    by (simp add: credential_items_def split: option.splits)
  ultimately show ?thesis by (rule reads_map)
qed

subsection \<open>Making and loading an identifier\<close>

text \<open>Two states have the same device key, in the clear or under the same session.\<close>

definition same_device_key :: "'a fido_scheme \<Rightarrow> 'b fido_scheme \<Rightarrow> bool" where
  "same_device_key s t \<longleftrightarrow> has_keydev_dec t = has_keydev_dec s \<and> keydev_dec t = keydev_dec s \<and>
     session_pin t = session_pin s \<and> files t EF_KEY_DEV = files s EF_KEY_DEV"

lemma same_device_key_load:
  fixes s :: "'a fido_scheme" and t :: "'b fido_scheme"
  assumes "same_device_key s t" and "key_settled s"
  shows "\<exists>r key. load_keydev k z s = (r, key, s) \<and> load_keydev k z t = (r, key, t)" "key_settled t"
proof -
  show t: "key_settled t" using assms by (simp add: same_device_key_def key_settled_def)
  show "\<exists>r key. load_keydev k z s = (r, key, s) \<and> load_keydev k z t = (r, key, t)"
    using assms(1) load_keydev_settled [OF assms(2), of k z] load_keydev_settled [OF t, of k z]
    by (simp add: same_device_key_def)
qed

lemma chacha_key_same:
  fixes s :: "'a fido_scheme" and t :: "'b fido_scheme"
  assumes "same_device_key s t" and "key_settled s" and "take CRED_PROTO_LEN p = take CRED_PROTO_LEN q"
  obtains r key where "credential_derive_chacha_key k p s = (r, key, s)" "credential_derive_chacha_key k q t = (r, key, t)"
proof -
  obtain r key where l: "load_keydev k (replicate 32 0) s = (r, key, s)" "load_keydev k (replicate 32 0) t = (r, key, t)"
    using same_device_key_load(1) [OF assms(1,2)] by blast
  show thesis
    by (cases "r = PICOKEYS_OK")
       (rule that; simp add: credential_derive_chacha_key_def l assms(3))+
qed

lemma sha256_length [simp]: "length (sha256 k d) = 32"
  by (simp add: sha256_def)

text \<open>What a created identifier is made of.\<close>

lemma credential_create_parts:
  assumes "random_law k" and "chacha_law k" and "cbor_buf_law k" and "key_settled s"
    and "credential_create k rp uid name display opts ext sign_count alg crv buf s = (Inr cid, s')"
  obtains enc r key iv plain cipher tag silent rest where
    "sdk_cbor_enc_buf k 992
       (CMap (credential_items k rp uid name display opts ext sign_count alg crv
                (sha256 k (case rp of Some d \<Rightarrow> d | None \<Rightarrow> [])) s)) = Inr enc"
    "plain = enc @ rest" "length rest = 16"
    "credential_derive_chacha_key k CRED_PROTO s = (r, key, s)" "length iv = 12"
    "sdk_chacha_enc k key iv (sha256 k (case rp of Some d \<Rightarrow> d | None \<Rightarrow> [])) plain = (0, cipher, tag)"
    "length cipher = length plain" "length tag = 16"
    "cid = CRED_PROTO @ iv @ cipher @ tag @ take 16 silent"
    "silent = credential_silent_tag k ((CRED_PROTO @ iv @ cipher @ tag) @ replicate 16 0)
       (sha256 k (case rp of Some d \<Rightarrow> d | None \<Rightarrow> [])) s"
    "store_step s s'" "files s' = files s"
proof -
  let ?h = "sha256 k (case rp of Some d \<Rightarrow> d | None \<Rightarrow> [])"
  let ?items = "credential_items k rp uid name display opts ext sign_count alg crv ?h s"
  let ?s1 = "s\<lparr>tick := Suc (tick s)\<rparr>"
  have same: "same_device_key s ?s1" by (simp add: same_device_key_def)
  obtain enc where enc: "sdk_cbor_enc_buf k 992 (CMap ?items) = Inr enc"
    using assms(5) by (auto simp: credential_create_def Let_def split: sum.splits)
  obtain r key where d: "credential_derive_chacha_key k CRED_PROTO s = (r, key, s)"
      "credential_derive_chacha_key k CRED_PROTO ?s1 = (r, key, ?s1)"
    by (rule chacha_key_same [OF same assms(4) refl])
  define rest where "rest = fit 16 (drop (16 + length enc) buf)"
  define iv where "iv = sdk_random k (tick ?s1) 12"
  obtain ret cipher tag where c: "sdk_chacha_enc k key iv ?h (enc @ rest) = (ret, cipher, tag)" by (metis prod_cases3)
  have plain: "fit (16 + length enc) (enc @ drop (16 + length enc) buf) = enc @ rest"
    by (simp add: rest_def fit_def)
  have iv: "random_fill_buffer k 12 ?s1 = (iv, ?s1\<lparr>tick := Suc (tick ?s1)\<rparr>)" by (simp add: random_fill_buffer_def iv_def)
  note unf = credential_create_def Let_def enc d(2) plain iv c
  have ret: "ret = 0" using assms(5) by (simp add: unf split: if_splits)
  have len: "length cipher = length (enc @ rest)" "length tag = 16" 
    using assms(2) c ret unfolding chacha_law_def by blast+
  have rs: "16 + length enc = length cipher" using len by (simp add: rest_def)
  have fits: "fit (16 + length enc) cipher = cipher" "fit 16 tag = tag" using len rs by simp_all
  have tag_tick: "credential_silent_tag k c rp' (s\<lparr>tick := n\<rparr>) = credential_silent_tag k c rp' s" for c rp' n
    by (simp add: credential_silent_tag_def)
  have res: "cid = CRED_PROTO @ iv @ cipher @ tag @
      take 16 (credential_silent_tag k ((CRED_PROTO @ iv @ cipher @ tag) @ replicate 16 0) ?h s)"
      "s' = s\<lparr>tick := Suc (Suc (tick s))\<rparr>"
    using assms(5) ret by (simp_all add: unf fits tag_tick)
  have "length iv = 12" using assms(1) by (simp add: random_law_def iv_def)
  moreover have "length rest = 16" by (simp add: rest_def)
  ultimately show thesis
    by (intro that [OF enc refl _ d(1) _ c [unfolded ret] len res(1) refl]) (simp_all add: res(2))
qed

lemma protos_length [simp]: "length CRED_PROTO_25_S = 4" "length CRED_PROTO_RP_S = 4"
  by (simp_all add: CRED_PROTO_25_S_def CRED_PROTO_RP_S_def)

lemma splice_middle: "length a = m \<Longrightarrow> length d = n \<Longrightarrow> length b = n \<Longrightarrow> splice (a @ d @ c) (m, n) b = a @ b @ c"
  by (simp add: splice_def)

text \<open>
  C8: An identifier the authenticator made is its own, and says what was written into it. While the
  device key and the certificate stay the same, the identifier that \<open>credential_create\<close> returns
  passes the silent check for the relying party, and loads as the fields it was created with
  (the texts up to their first zero byte, without the extensions that are not kept), with the
  identifier itself attached.
\<close>

theorem credential_round_trip:
  fixes s :: "'a device_scheme" and t :: "'b device_scheme"
  assumes "random_law k" and "chacha_law k" and "cbor_buf_law k" and "key_settled s"
    and "credential_create k rp uid name display opts ext sign_count alg crv buf s = (Inr cid, s')"
    and "same_device_key s t" and "certdev_sha256 t = certdev_sha256 s"
    and "h = sha256 k (case rp of Some d \<Rightarrow> d | None \<Rightarrow> [])"
  shows "credential_verify k cid h True t = (PICOKEYS_OK, cid, t) \<and>
    credential_load k cid h t =
      (Inr ((written_credential k rp uid name display opts ext sign_count alg crv s)
              \<lparr>cred_id := Some cid, cred_present := True\<rparr>), t)"
proof -
  obtain enc r key iv plain cipher tag silent rest where
      enc: "sdk_cbor_enc_buf k 992 (CMap (credential_items k rp uid name display opts ext sign_count alg crv h s)) = Inr enc"
      and plain: "plain = enc @ rest" "length rest = 16" and key: "credential_derive_chacha_key k CRED_PROTO s = (r, key, s)"
      and iv: "length iv = 12" and c: "sdk_chacha_enc k key iv h plain = (0, cipher, tag)"
      and len: "length cipher = length plain" "length tag = 16"
      and cid: "cid = CRED_PROTO @ iv @ cipher @ tag @ take 16 silent"
      and silent: "silent = credential_silent_tag k ((CRED_PROTO @ iv @ cipher @ tag) @ replicate 16 0) h s"
    by (rule credential_create_parts [OF assms(1-5)]) (simp only: assms(8))
  have sl: "length silent = 32" by (simp add: silent credential_silent_tag_def)
  have lc: "length cid = 48 + length plain" by (simp add: cid iv len sl)
  have new: "cred_new_format cid" "take 4 cid = CRED_PROTO_25_S" by (simp_all add: cred_new_format_def cid)
  obtain r' key' where key': "credential_derive_chacha_key k CRED_PROTO s = (r', key', s)"
      "credential_derive_chacha_key k cid t = (r', key', t)"
    by (rule chacha_key_same [OF assms(6,4), of CRED_PROTO cid]) (simp add: new(2))
  have kt: "credential_derive_chacha_key k cid t = (r, key, t)" using key key' by simp
  have parts: "take 12 (drop 4 cid) = iv" "take (length plain) (drop 16 cid) = cipher"
      "take 16 (drop (16 + length plain) cid) = tag" "drop (32 + length plain) cid = take 16 silent"
    by (simp_all add: cid iv len)
  have dec: "sdk_chacha_dec k key iv h tag cipher = (0, plain)" using assms(2) c unfolding chacha_law_def by blast
  have th: "take 32 h = h" by (simp add: assms(8))
  have offs: "length cid - 16 - 16 = 16 + length plain" "length cid - 48 = length plain" "length cid - 16 = 32 + length plain"
    using lc by simp_all
  have sp: "splice cid (16, length plain) plain = (CRED_PROTO @ iv) @ plain @ tag @ take 16 silent"
    using splice_middle [of "CRED_PROTO @ iv" 16 cipher "length plain" plain "tag @ take 16 silent"]
    by (simp add: cid iv len)
  have verify: "credential_verify k cid h False t = (PICOKEYS_OK, (CRED_PROTO @ iv) @ plain @ tag @ take 16 silent, t)"
    using lc by (simp add: credential_verify_def Let_def new(1) kt parts offs th dec rc_of_int_def sp)
  have "take (length cid - 32) (drop 16 ((CRED_PROTO @ iv) @ plain @ tag @ take 16 silent)) = enc @ rest @ tag"
    using iv lc len(2) plain by simp
  moreover have "sdk_cbor_dec k (enc @ rest @ tag) =
      Inr (CMap (credential_items k rp uid name display opts ext sign_count alg crv h s))"
    using assms(3) enc unfolding cbor_buf_law_def by blast
  ultimately have load: "credential_load k cid h t =
      (Inr ((written_credential k rp uid name display opts ext sign_count alg crv s)
              \<lparr>cred_id := Some cid, cred_present := True\<rparr>), t)"
    by (simp add: credential_load_def verify credential_items_read)
  have "credential_silent_tag k cid h t = silent"
    using offs(3) by (simp add: credential_silent_tag_def silent cid iv len sl assms(7))
  then have "credential_verify k cid h True t = (PICOKEYS_OK, cid, t)"
    using lc by (simp add: credential_verify_def Let_def new(1) parts offs)
  with load show ?thesis by blast
qed

definition ref_ext :: cred_extensions where
  "ref_ext = \<lparr>hmac_secret = Some True, credProtect = 2, minPinLength = None, credBlob = Some [1, 2, 3],
     largeBlobKey = Some False, thirdPartyPayment = None, ext_present = True\<rparr>"

definition ref_opts :: cred_options where
  "ref_opts = \<lparr>opt_rk = Some True, opt_up = None, opt_uv = None, opt_present = True\<rparr>"

definition ref_device_keyed :: "files \<Rightarrow> device" where
  "ref_device_keyed fs = ref_device (fs(EF_KEY_DEV \<mapsto> 1 # replicate 32 3))"

lemma ref_device_keyed [simp]: "files (ref_device_keyed fs) = fs(EF_KEY_DEV \<mapsto> 1 # replicate 32 3)"
    "key_settled (ref_device_keyed fs)" "millis (ref_device_keyed fs) = 100"
  by (simp_all add: ref_device_keyed_def key_settled_def)
     (simp add: ref_device_def resident.defs ref_resident_def fido.defs ref_fido_def)

lemma credential_round_trip_witness:
  "\<exists>cid s' c. credential_create ref_sdk (Some [0x61]) (Some [1, 2]) (Some [0x62, 0, 0x63]) None ref_opts ref_ext True (- 8) 6 []
       (ref_device_keyed Map.empty) = (Inr cid, s') \<and>
     credential_verify ref_sdk cid (sha256 ref_sdk [0x61]) True s' = (PICOKEYS_OK, cid, s') \<and>
     credential_load ref_sdk cid (sha256 ref_sdk [0x61]) s' = (Inr c, s') \<and>
     cred_rpId c = Some [0x61] \<and> cred_userId c = Some [1, 2] \<and> cred_userName c = Some [0x62] \<and>
     cred_userDisplayName c = None \<and> credBlob (cred_ext c) = Some [1, 2, 3] \<and> credProtect (cred_ext c) = 2 \<and>
     largeBlobKey (cred_ext c) = None \<and> opt_rk (cred_opts c) = Some True \<and> cred_alg c = - 8 \<and> cred_curve c = 6"
proof -
  let ?s = "ref_device_keyed Map.empty"
  let ?h = "sha256 ref_sdk [0x61]"
  let ?items = "credential_items ref_sdk (Some [0x61]) (Some [1, 2]) (Some [0x62, 0, 0x63]) None ref_opts ref_ext True (- 8) 6 ?h ?s"
  have "ref_cbor_small (CMap ?items)"
    by (simp add: credential_items_def key_string_def key_bytes_def extension_items_def ref_ext_def ref_opts_def cbor_int_def stringz_def)
  moreover have "length (ref_cbor_bytes (CMap ?items)) \<le> 992"
    by (simp add: credential_items_def key_string_def key_bytes_def extension_items_def ref_ext_def ref_opts_def cbor_int_def
        ref_cbor_head_def stringz_def)
  ultimately have enc: "ref_cbor_enc_buf 992 (CMap ?items) = Inr (ref_cbor_bytes (CMap ?items))"
    by (simp add: ref_cbor_enc_buf_def)
  have same: "same_device_key ?s (?s\<lparr>tick := n\<rparr>)" for n by (simp add: same_device_key_def)
  obtain r key where d: "credential_derive_chacha_key ref_sdk CRED_PROTO (?s\<lparr>tick := Suc (tick ?s)\<rparr>) =
      (r, key, ?s\<lparr>tick := Suc (tick ?s)\<rparr>)"
    by (rule chacha_key_same [OF same ref_device_keyed(2) refl])
  obtain cid where c: "credential_create ref_sdk (Some [0x61]) (Some [1, 2]) (Some [0x62, 0, 0x63]) None ref_opts ref_ext True (- 8) 6 [] ?s =
      (Inr cid, ?s\<lparr>tick := Suc (Suc (tick ?s))\<rparr>)"
    by (simp add: credential_create_def Let_def enc d random_fill_buffer_def)
  have cert: "certdev_sha256 (?s\<lparr>tick := n\<rparr>) = certdev_sha256 ?s" for n by simp
  have w: "written_text (Some [0x62, 0, 0x63]) = Some [0x62]" by (simp add: written_text_def stringz_def)
  show ?thesis
    using credential_round_trip [OF ref_random_law ref_chacha_law ref_cbor_buf_law ref_device_keyed(2) c same cert, of ?h] c
    by (simp add: written_credential_def credential_zero_def written_text_def written_bytes_def stringz_def written_extensions_def
        written_options_def ref_ext_def ref_opts_def)
qed

end
