(* ===== verification/Credential_Rp.thy ===== *)
theory Credential_Rp
  imports Credential_Properties
begin

text \<open>
  The records of the relying parties: encrypting those that are in the clear keeps what every record
  says, and a credential that is stored is counted.
\<close>

text \<open>What a record says does not depend on the trace or on the counter of events.\<close>

definition rp_says :: "sdk \<Rightarrow> 'a fido_scheme \<Rightarrow> fid \<Rightarrow> rc \<times> bytes" where
  "rp_says k s f = (let (r, d, _) = credential_rp_id_decrypt k (file_search s f) s in (r, d))"

definition allocates :: "sdk \<Rightarrow> bool" where
  "allocates k \<longleftrightarrow> (\<forall>n len. sdk_calloc k n len)"

lemma calloc_allocates: "allocates k \<Longrightarrow> calloc k n s = (True, s\<lparr>tick := Suc (tick s)\<rparr>)"
  by (simp add: allocates_def calloc_def)

lemma rp_record_reads:
  "credential_rp_id_is_secure s (file_search s f) \<longleftrightarrow>
     (case files s f of None \<Rightarrow> False
      | Some d \<Rightarrow> length d \<ge> 65 \<and> take 4 (drop 33 d) = CRED_PROTO_RP_S)"
  by (auto simp: credential_rp_id_is_secure_def file_reads split: option.splits)

text \<open>The key of the records, and what a record says, in a state whose device key is settled.\<close>

lemma rp_says_eq:
  assumes "allocates k" and "key_settled s" and "credential_derive_chacha_key k CRED_PROTO_RP_S s = (r, key, s)"
  shows "rp_says k s f =
    (case files s f of None \<Rightarrow> (rc_of_int (- 1), [])
     | Some d \<Rightarrow>
         if length d < 33 then (rc_of_int (- 1), [])
         else if \<not> (length d \<ge> 65 \<and> take 4 (drop 33 d) = CRED_PROTO_RP_S) then (PICOKEYS_OK, drop 33 d)
         else if r \<noteq> PICOKEYS_OK then (r, [])
         else let n = length d - 65;
                  (ret, plain) = sdk_chacha_dec k key (take 12 (drop 37 d)) (take 32 (drop 1 d)) (take 16 (drop (49 + n) d)) (take n (drop 49 d))
              in if ret \<noteq> 0 then (rc_of_int ret, []) else (PICOKEYS_OK, fit n plain))"
proof -
  have same: "same_device_key s (s\<lparr>tick := n\<rparr>)" for n by (simp add: same_device_key_def)
  obtain r' key' where "credential_derive_chacha_key k CRED_PROTO_RP_S s = (r', key', s)"
      "credential_derive_chacha_key k CRED_PROTO_RP_S (s\<lparr>tick := Suc (tick s)\<rparr>) = (r', key', s\<lparr>tick := Suc (tick s)\<rparr>)"
    by (rule chacha_key_same [OF same assms(2) refl])
  then have dk: "credential_derive_chacha_key k CRED_PROTO_RP_S (s\<lparr>tick := Suc (tick s)\<rparr>) = (r, key, s\<lparr>tick := Suc (tick s)\<rparr>)"
    using assms(3) by simp
  show ?thesis
  proof (cases "files s f")
    case None
    then show ?thesis by (simp add: rp_says_def credential_rp_id_decrypt_def file_reads)
  next
    case (Some d)
    have data: "file_has_data s (file_search s f) \<longleftrightarrow> d \<noteq> []" "file_get_data s (file_search s f) = d"
      "file_get_size s (file_search s f) = length d"
      using Some by (simp_all add: file_reads)
    consider "length d < 33" | "33 \<le> length d" "\<not> (length d \<ge> 65 \<and> take 4 (drop 33 d) = CRED_PROTO_RP_S)"
      | "length d \<ge> 65" "take 4 (drop 33 d) = CRED_PROTO_RP_S" by linarith
    then show ?thesis
    proof cases
      case 1
      then show ?thesis using Some by (auto simp: rp_says_def credential_rp_id_decrypt_def data)
    next
      case 2
      then have "d \<noteq> []" by auto
      with 2 show ?thesis
        using Some by (auto simp: rp_says_def credential_rp_id_decrypt_def data rp_record_reads calloc_allocates [OF assms(1)] Let_def)
    next
      case 3
      then have "d \<noteq> []" "\<not> length d < 33" "\<not> length d - 33 < 32" by auto
      with 3 show ?thesis
        using Some
        by (simp add: rp_says_def credential_rp_id_decrypt_def data rp_record_reads calloc_allocates [OF assms(1)] Let_def dk add.commute
            split: prod.splits)
    qed
  qed
qed

subsection \<open>Encrypting the records in the clear\<close>

lemma rp_encrypt_parts:
  assumes "allocates k" and "chacha_law k" and "key_settled s" and "credential_rp_id_encrypt k rp name s = (r, out, t)"
  obtains n kr key where "t = s\<lparr>tick := n\<rparr>" "credential_derive_chacha_key k CRED_PROTO_RP_S s = (kr, key, s)"
    "r = PICOKEYS_OK \<Longrightarrow> kr = PICOKEYS_OK \<and> (\<exists>c tag. out = CRED_PROTO_RP_S @ credential_rp_id_iv k rp @ c @ tag \<and>
       length c = length name \<and> length tag = 16 \<and> sdk_chacha_dec k key (credential_rp_id_iv k rp) (take 32 rp) tag c = (0, name))"
    "kr = PICOKEYS_OK \<Longrightarrow> (\<forall>key iv aad d. fst (sdk_chacha_enc k key iv aad d) = 0) \<Longrightarrow> r = PICOKEYS_OK"
proof -
  have same: "same_device_key s s" by (simp add: same_device_key_def)
  obtain kr key where d: "credential_derive_chacha_key k CRED_PROTO_RP_S s = (kr, key, s)"
    by (rule chacha_key_same [OF same assms(3) refl])
  obtain ret c tag where e: "sdk_chacha_enc k key (credential_rp_id_iv k rp) (take 32 rp) name = (ret, c, tag)" by (metis prod_cases3)
  note unf = credential_rp_id_encrypt_def Let_def d calloc_allocates [OF assms(1)] e
  have law: "length c = length name" "length tag = 16" "sdk_chacha_dec k key (credential_rp_id_iv k rp) (take 32 rp) tag c = (0, name)"
    if "ret = 0"
    using assms(2) e that unfolding chacha_law_def by blast+
  have t: "t = s \<or> t = s\<lparr>tick := Suc (tick s)\<rparr>" using assms(4) by (auto simp: unf split: if_splits)
  then have "\<exists>n. t = s\<lparr>tick := n\<rparr>" by (elim disjE) (rule exI [of _ "tick s"], simp, blast)
  then obtain n where t: "t = s\<lparr>tick := n\<rparr>" ..
  have ok: "kr = PICOKEYS_OK \<and> ret = 0 \<and> out = CRED_PROTO_RP_S @ credential_rp_id_iv k rp @ c @ tag" if "r = PICOKEYS_OK"
    using assms(4) that law by (auto simp: unf rc_of_int_def split: if_splits)
  show thesis
  proof (rule that [OF t d])
    show "kr = PICOKEYS_OK \<and> (\<exists>c tag. out = CRED_PROTO_RP_S @ credential_rp_id_iv k rp @ c @ tag \<and>
       length c = length name \<and> length tag = 16 \<and> sdk_chacha_dec k key (credential_rp_id_iv k rp) (take 32 rp) tag c = (0, name))"
      if "r = PICOKEYS_OK"
      using ok [OF that] law by blast
    show "r = PICOKEYS_OK" if "kr = PICOKEYS_OK" "\<forall>key iv aad d. fst (sdk_chacha_enc k key iv aad d) = 0"
    proof -
      have "ret = 0" using that(2) e by (metis fst_conv)
      then show ?thesis using assms(4) that(1) by (simp add: unf split: if_splits)
    qed
  qed
qed

definition rp_secure :: "bytes \<Rightarrow> bool" where
  "rp_secure d \<longleftrightarrow> length d \<ge> 65 \<and> take 4 (drop 33 d) = CRED_PROTO_RP_S"

lemma rp_secure_append: "length d = 33 \<Longrightarrow> 28 \<le> length x \<Longrightarrow> rp_secure (d @ CRED_PROTO_RP_S @ x)"
  by (simp add: rp_secure_def)

text \<open>One step of the loop: a record is left as it is, or replaced by its encryption.\<close>

definition rp_step :: "sdk \<Rightarrow> 'a fido_scheme \<Rightarrow> 'a fido_scheme \<Rightarrow> bool" where
  "rp_step k s t \<longleftrightarrow> same_device_key s t \<and>
     (\<forall>f. files t f = files s f \<or>
        (\<exists>i < 256. f = rp_fid i) \<and> rp_says k t f = rp_says k s f \<and>
        (\<exists>d e. files s f = Some d \<and> \<not> rp_secure d \<and> files t f = Some e \<and> rp_secure e \<and> take 33 e = take 33 d))"

lemma rp_step_same: "same_device_key s t \<Longrightarrow> files t = files s \<Longrightarrow> rp_step k s t"
  by (simp add: rp_step_def)

lemma rp_says_same:
  fixes s t :: "'a fido_scheme"
  assumes "allocates k" and "key_settled s" and "same_device_key s t" and "files t f = files s f"
  shows "rp_says k t f = rp_says k s f"
proof -
  obtain r key where "credential_derive_chacha_key k CRED_PROTO_RP_S s = (r, key, s)"
      "credential_derive_chacha_key k CRED_PROTO_RP_S t = (r, key, t)"
    by (rule chacha_key_same [OF assms(3,2) refl])
  with rp_says_eq [OF assms(1,2)] rp_says_eq [OF assms(1) same_device_key_load(2) [OF assms(3,2)]] assms(4)
  show ?thesis by simp
qed

lemma rp_step_trans:
  assumes "allocates k" and "key_settled s" and "rp_step k s t" and "rp_step k t u"
  shows "rp_step k s u"
proof -
  have key: "same_device_key s t" "same_device_key t u" "same_device_key s u"
    using assms(3,4) by (auto simp: rp_step_def same_device_key_def)
  have "files u f = files s f \<or>
        (\<exists>i < 256. f = rp_fid i) \<and> rp_says k u f = rp_says k s f \<and>
        (\<exists>d e. files s f = Some d \<and> \<not> rp_secure d \<and> files u f = Some e \<and> rp_secure e \<and> take 33 e = take 33 d)" for f
  proof (cases "files t f = files s f")
    case True
    have "files u f = files t f \<or> (\<exists>i < 256. f = rp_fid i) \<and> rp_says k u f = rp_says k t f \<and>
        (\<exists>d e. files t f = Some d \<and> \<not> rp_secure d \<and> files u f = Some e \<and> rp_secure e \<and> take 33 e = take 33 d)"
      using assms(4) by (simp add: rp_step_def)
    then show ?thesis unfolding True rp_says_same [OF assms(1,2) key(1) True] .
  next
    case False
    then have 1: "\<exists>i < 256. f = rp_fid i" "rp_says k t f = rp_says k s f"
        "\<exists>d e. files s f = Some d \<and> \<not> rp_secure d \<and> files t f = Some e \<and> rp_secure e \<and> take 33 e = take 33 d"
      using assms(3) by (auto simp: rp_step_def)
    then have 2: "files u f = files t f" using assms(4) by (auto simp: rp_step_def)
    have "rp_says k u f = rp_says k t f"
      by (rule rp_says_same [OF assms(1) same_device_key_load(2) [OF key(1) assms(2)] key(2) 2])
    with 1 2 show ?thesis by auto
  qed
  with key(3) show ?thesis by (auto simp: rp_step_def)
qed

lemma rp_one_step:
  fixes s :: "'a fido_scheme"
  assumes "allocates k" and "chacha_law k" and "put_law k" and "key_settled s" and "i < 256"
    and "files s (rp_fid i) = Some d" and "33 \<le> length d" and "\<not> rp_secure d"
    and "credential_rp_id_encrypt k (take 32 (drop 1 d)) (drop 33 d) s = (PICOKEYS_OK, out, s1)"
    and "file_put_data k (Some (rp_fid i)) (take 33 d @ out) (s1\<lparr>tick := n\<rparr>) = (r, t)"
  shows "rp_step k s t"
proof -
  have sec: "rp_secure d = (length d \<ge> 65 \<and> take 4 (drop 33 d) = CRED_PROTO_RP_S)" for d by (simp add: rp_secure_def)
  let ?iv = "credential_rp_id_iv k (take 32 (drop 1 d))"
  obtain m kr key c tag where e: "s1 = s\<lparr>tick := m\<rparr>" "credential_derive_chacha_key k CRED_PROTO_RP_S s = (kr, key, s)"
      "kr = PICOKEYS_OK" "out = CRED_PROTO_RP_S @ ?iv @ c @ tag" "length c = length d - 33" "length tag = 16"
      "sdk_chacha_dec k key ?iv (take 32 (drop 1 d)) tag c = (0, drop 33 d)"
    by (rule rp_encrypt_parts [OF assms(1,2,4,9)]) (simp, blast)
  have iv: "length ?iv = 12" by (simp add: credential_rp_id_iv_def)
  obtain e' where e': "e' = take 33 d @ out" by blast
  have step: "store_step s t"
    using file_put_data_step [OF assms(10)] store_step_trans [OF store_step_tick [of s n]] e(1) by simp
  have fid: "rp_fid i \<noteq> EF_KEY_DEV"
  proof
    assume k: "rp_fid i = EF_KEY_DEV"
    have "rp_fid i = word_of_nat (0xD000 + i)" by (simp add: rp_fid_def)
    then have "unat (rp_fid i) = 0xD000 + i" using assms(5) by (simp only: unat_of_nat) (simp add: take_bit_nat_eq_self)
    then show False by (simp add: k)
  qed
  have fs: "files t = files s \<or> files t = (files s)(rp_fid i \<mapsto> e')"
    using file_put_data_cases [OF assms(3,10)] e(1) e' by auto
  have key: "same_device_key s t"
    using step fid fs by (auto simp: same_device_key_def store_step_def)
  show ?thesis
  proof (cases "files t = files s")
    case True
    with key show ?thesis by (rule rp_step_same)
  next
    case False
    then have t: "files t = (files s)(rp_fid i \<mapsto> e')" using fs by blast
    have l: "length e' = length d + 32" using assms(7) e(4-6) iv e' by simp
    have se: "rp_secure e'" unfolding e(4) e' by (rule rp_secure_append) (use assms(7) e(6) iv in simp_all)
    obtain p where p: "take 33 d = p" "length p = 33" using assms(7) by simp
    have slices: "take 12 (drop 37 e') = ?iv" "take 32 (drop 1 e') = take 32 (drop 1 d)"
        "take 16 (drop (16 + length d) e') = tag" "take (length d - 33) (drop 49 e') = c"
    proof -
      have "take 32 (drop 1 d) = drop 1 p" unfolding p(1) [symmetric] by (simp add: drop_take)
      then show "take 32 (drop 1 e') = take 32 (drop 1 d)" using p(2) by (simp add: e' p(1))
    qed (use e(5,6) iv l p(2) in \<open>simp_all add: e(4) e' p(1)\<close>)
    obtain r' key' where dt: "credential_derive_chacha_key k CRED_PROTO_RP_S s = (r', key', s)"
        "credential_derive_chacha_key k CRED_PROTO_RP_S t = (r', key', t)"
      by (rule chacha_key_same [OF key assms(4) refl])
    then have dt: "credential_derive_chacha_key k CRED_PROTO_RP_S t = (kr, key, t)" using e(2) by simp
    have "rp_says k t (rp_fid i) = (PICOKEYS_OK, drop 33 d)"
      unfolding rp_says_eq [OF assms(1) same_device_key_load(2) [OF key assms(4)] dt]
      using se l assms(7) slices e(7) by (auto simp: t sec e(3,5))
    moreover have "rp_says k s (rp_fid i) = (PICOKEYS_OK, drop 33 d)"
      unfolding rp_says_eq [OF assms(1,4) e(2)] using assms(6-8) by (simp add: sec)
    moreover have "take 33 e' = take 33 d" using assms(7) by (simp add: e')
    ultimately show ?thesis using key se assms(5,6,8) t by (auto simp: rp_step_def)
  qed
qed

text \<open>Storage and cipher that work, and records with room for what the encryption adds.\<close>

definition rp_works :: "sdk \<Rightarrow> 'a fido_scheme \<Rightarrow> bool" where
  "rp_works k s \<longleftrightarrow> (\<forall>key iv aad d. fst (sdk_chacha_enc k key iv aad d) = 0) \<and> (\<forall>i < 256. accepts k (rp_fid i)) \<and>
     fst (load_keydev k (replicate 32 0) s) = PICOKEYS_OK \<and>
     (\<forall>i < 256. \<forall>d. files s (rp_fid i) = Some d \<longrightarrow> length d \<le> 992 \<or> rp_secure d)"

definition rp_sealed :: "'a fido_scheme \<Rightarrow> fid \<Rightarrow> bool" where
  "rp_sealed s f \<longleftrightarrow> (case files s f of None \<Rightarrow> True | Some d \<Rightarrow> length d < 33 \<or> rp_secure d)"

lemma rp_step_keeps:
  fixes s t :: "'a fido_scheme"
  assumes "rp_step k s t" and "key_settled s"
  shows "key_settled t" "rp_works k s \<Longrightarrow> rp_works k t" "rp_sealed s f \<Longrightarrow> rp_sealed t f"
proof -
  have key: "same_device_key s t" using assms(1) by (simp add: rp_step_def)
  have f: "files t f = files s f \<or> (\<exists>d e. files s f = Some d \<and> \<not> rp_secure d \<and> files t f = Some e \<and> rp_secure e \<and> take 33 e = take 33 d)" for f
    using assms(1) by (auto simp: rp_step_def)
  show "key_settled t" by (rule same_device_key_load(2) [OF key assms(2)])
  obtain r d where l: "load_keydev k (replicate 32 0) s = (r, d, s)" "load_keydev k (replicate 32 0) t = (r, d, t)"
    using same_device_key_load(1) [OF key assms(2)] by blast
  show "rp_works k t" if w: "rp_works k s"
  proof -
    have "length d \<le> 992 \<or> rp_secure d" if "i < 256" "files t (rp_fid i) = Some d" for i d
    proof -
      have "files s (rp_fid i) = Some d \<or> rp_secure d" using f [of "rp_fid i"] that(2) by auto
      then show ?thesis using w that(1) unfolding rp_works_def by blast
    qed
    with w show ?thesis by (simp add: rp_works_def l)
  qed
  show "rp_sealed t f" if "rp_sealed s f" using that f [of f] by (auto simp: rp_sealed_def)
qed

lemma rp_loop_step:
  fixes s t :: "'a fido_scheme"
  assumes "allocates k" and "chacha_law k" and "put_law k" and "key_settled s" and "i < 256"
    and "migrate_rps k (i # is) ch s = (b, t)"
  shows "\<exists>ch' s'. rp_step k s s' \<and> (rp_works k s \<longrightarrow> rp_sealed s' (rp_fid i)) \<and> migrate_rps k is ch' s' = (b, t)"
proof (cases "\<exists>d. files s (rp_fid i) = Some d \<and> 33 \<le> length d \<and> \<not> rp_secure d")
  case False
  have "rp_step k s s" by (rule rp_step_same) (simp_all add: same_device_key_def)
  moreover have "rp_sealed s (rp_fid i)" using False by (auto simp: rp_sealed_def split: option.splits)
  moreover have "\<not> file_has_data s (file_search s (rp_fid i)) \<or> credential_rp_id_is_secure s (file_search s (rp_fid i)) \<or>
      file_get_size s (file_search s (rp_fid i)) < 33"
  proof (cases "files s (rp_fid i)")
    case (Some d)
    then show ?thesis
    proof (cases "length d < 33")
      case True
      then show ?thesis using Some by (simp add: file_reads)
    next
      case f: False
      then have "rp_secure d" using False Some by auto
      then have "credential_rp_id_is_secure s (file_search s (rp_fid i))"
        unfolding rp_record_reads Some by (simp add: rp_secure_def)
      then show ?thesis by blast
    qed
  qed simp
  then have "migrate_rps k is ch s = (b, t)" using assms(6) by (simp del: file_search_data)
  ultimately show ?thesis by blast
next
  case True
  then obtain d where d: "files s (rp_fid i) = Some d" "33 \<le> length d" "\<not> rp_secure d" by blast
  have go: "file_has_data s (file_search s (rp_fid i))" "\<not> credential_rp_id_is_secure s (file_search s (rp_fid i))"
      "\<not> file_get_size s (file_search s (rp_fid i)) < 33" "file_get_data s (file_search s (rp_fid i)) = d"
      "file_search s (rp_fid i) = Some (rp_fid i)"
    using d by (simp_all add: rp_record_reads rp_secure_def) (auto simp: file_reads)
  note go' = go(1-4) [unfolded go(5)] go(5)
  obtain r out s1 where e: "credential_rp_id_encrypt k (take 32 (drop 1 d)) (drop 33 d) s = (r, out, s1)" by (metis prod_cases3)
  have run: "migrate_rps k (i # is) ch s =
      (if r \<noteq> PICOKEYS_OK then migrate_rps k is ch s1
       else let (ok, s2) = calloc k (33 + length out) s1
       in if \<not> ok then migrate_rps k is ch s2
       else let (_, s3) = file_put_data k (Some (rp_fid i)) (take 33 d @ out) s2 in migrate_rps k is True s3)"
    by (simp only: migrate_rps.simps Let_def go' e prod.case not_True_eq_False not_False_eq_True if_False simp_thms)
  show ?thesis
  proof (cases "r = PICOKEYS_OK")
    case False
    obtain n kr key where p: "s1 = s\<lparr>tick := n\<rparr>" "credential_derive_chacha_key k CRED_PROTO_RP_S s = (kr, key, s)"
        "kr = PICOKEYS_OK \<Longrightarrow> (\<forall>key iv aad d. fst (sdk_chacha_enc k key iv aad d) = 0) \<Longrightarrow> r = PICOKEYS_OK"
      by (rule rp_encrypt_parts [OF assms(1,2,4) e]) blast
    have "\<not> rp_works k s"
    proof
      assume w: "rp_works k s"
      then obtain key0 where l: "load_keydev k (replicate 32 0) s = (PICOKEYS_OK, key0, s)"
        using load_keydev_settled [OF assms(4), of k "replicate 32 0"] by (auto simp: rp_works_def)
      have "kr = PICOKEYS_OK" using p(2) by (simp add: credential_derive_chacha_key_def l)
      then show False using p(3) w False by (simp add: rp_works_def)
    qed
    moreover have "rp_step k s s1" by (rule rp_step_same) (simp_all add: p(1) same_device_key_def)
    moreover have "migrate_rps k is ch s1 = (b, t)" using assms(6) [unfolded run] False by simp
    ultimately show ?thesis by blast
  next
    case ok: True
    let ?s2 = "s1\<lparr>tick := Suc (tick s1)\<rparr>"
    obtain pr s3 where p: "file_put_data k (Some (rp_fid i)) (take 33 d @ out) ?s2 = (pr, s3)" by (metis surj_pair)
    have step: "rp_step k s s3"
      by (rule rp_one_step [OF assms(1-5) d(1,2,3) e [unfolded ok] p])
    have sealed: "rp_sealed s3 (rp_fid i)" if w: "rp_works k s"
    proof -
      obtain n kr key c tag where q: "s1 = s\<lparr>tick := n\<rparr>" "out = CRED_PROTO_RP_S @ credential_rp_id_iv k (take 32 (drop 1 d)) @ c @ tag"
          "length c = length d - 33" "length tag = 16"
        by (rule rp_encrypt_parts [OF assms(1,2,4) e [unfolded ok]]) (simp, blast)
      have iv: "length (credential_rp_id_iv k (take 32 (drop 1 d))) = 12" by (simp add: credential_rp_id_iv_def)
      have l: "length (take 33 d @ out) = length d + 32" using d(2) q(2-4) iv by simp
      have "length d \<le> 992" "accepts k (rp_fid i)" using w d assms(5) unfolding rp_works_def by blast+
      with l have "files s3 = (files ?s2)(rp_fid i \<mapsto> take 33 d @ out)"
        by (intro accepts_put [OF assms(3) _ _ p]) simp_all
      moreover have "rp_secure (take 33 d @ out)"
        unfolding q(2) by (rule rp_secure_append) (use d(2) q(4) iv in simp_all)
      ultimately show ?thesis by (simp add: rp_sealed_def)
    qed
    have "migrate_rps k is True s3 = (b, t)"
      using assms(6) [unfolded run] ok by (simp add: calloc_allocates [OF assms(1)] p)
    with step sealed show ?thesis by blast
  qed
qed

lemma migrate_rps_spec:
  fixes s t :: "'a fido_scheme"
  assumes "allocates k" and "chacha_law k" and "put_law k" and "key_settled s" and "\<forall>i \<in> set is. i < 256"
    and "migrate_rps k is ch s = (b, t)"
  shows "rp_step k s t \<and> (rp_works k s \<longrightarrow> (\<forall>i \<in> set is. rp_sealed t (rp_fid i)))"
  using assms(4-6)
proof (induction "is" arbitrary: ch s)
  case Nil
  then show ?case by (simp add: rp_step_same same_device_key_def)
next
  case (Cons i ls)
  obtain ch' s' where 1: "rp_step k s s'" "rp_works k s \<longrightarrow> rp_sealed s' (rp_fid i)" "migrate_rps k ls ch' s' = (b, t)"
    using rp_loop_step [OF assms(1-3) Cons.prems(1) _ Cons.prems(3)] Cons.prems(2) by auto
  have 2: "rp_step k s' t \<and> (rp_works k s' \<longrightarrow> (\<forall>i \<in> set ls. rp_sealed t (rp_fid i)))"
    using Cons.prems(2) by (intro Cons.IH [OF rp_step_keeps(1) [OF 1(1) Cons.prems(1)] _ 1(3)]) simp
  have "rp_step k s t" using rp_step_trans [OF assms(1) Cons.prems(1) 1(1)] 2 by blast
  moreover have "rp_sealed t (rp_fid j)" if w: "rp_works k s" "j \<in> set (i # ls)" for j
  proof (cases "j \<in> set ls")
    case True
    then show ?thesis using 2 rp_step_keeps(2) [OF 1(1) Cons.prems(1) w(1)] by blast
  next
    case False
    then have "rp_sealed s' (rp_fid j)" using w 1(2) by simp
    then show ?thesis using 2 rp_step_keeps(3) [of k s' t] rp_step_keeps(1) [OF 1(1) Cons.prems(1)] by blast
  qed
  ultimately show ?case by blast
qed

text \<open>
  C38: Encrypting the records of the relying parties loses nothing. After
  \<open>credential_migrate_rp_secure\<close> every record decrypts to the identifier it had before and begins
  with the same number of credentials and hash of the identifier, no file but the records has changed, and with storage and a cipher that work every record is encrypted.
\<close>

theorem migrate_rp_keeps_records:
  fixes s t :: "'a fido_scheme"
  assumes "allocates k" and "chacha_law k" and "put_law k" and "key_settled s"
    and "credential_migrate_rp_secure k s = (r, t)"
  shows "r = PICOKEYS_OK \<and> (\<forall>f. rp_says k t f = rp_says k s f) \<and>
    (\<forall>f. map_option (take 33) (files t f) = map_option (take 33) (files s f)) \<and>
    (\<forall>f. f \<notin> rp_fid ` {..<256} \<longrightarrow> files t f = files s f) \<and>
    (rp_works k s \<longrightarrow> (\<forall>i < 256. rp_sealed t (rp_fid i)))"
proof -
  obtain b u where m: "migrate_rps k [0..<256] False s = (b, u)" by (metis surj_pair)
  have r: "r = PICOKEYS_OK" "t = (if b then flash_commit u else u)"
    using assms(5) by (simp_all add: credential_migrate_rp_secure_def m)
  then have tu: "files t = files u" "same_device_key u t" by (simp_all add: same_device_key_def flash_commit_def)
  have step: "rp_step k s u" "rp_works k s \<Longrightarrow> \<forall>i < 256. rp_sealed u (rp_fid i)"
    using migrate_rps_spec [OF assms(1-4) _ m] by simp_all
  have u: "key_settled u" by (rule rp_step_keeps(1) [OF step(1) assms(4)])
  have "rp_step k u t" using tu by (intro rp_step_same) simp_all
  then have st: "rp_step k s t" by (rule rp_step_trans [OF assms(1,4) step(1)])
  have "rp_says k t f = rp_says k s f" for f
  proof (cases "files t f = files s f")
    case True
    have "same_device_key s t" using st by (simp add: rp_step_def)
    then show ?thesis using True by (rule rp_says_same [OF assms(1,4)])
  next
    case False
    then show ?thesis using st by (auto simp: rp_step_def)
  qed
  moreover have "map_option (take 33) (files t f) = map_option (take 33) (files s f)" for f
    using st by (cases "files t f = files s f") (force simp: rp_step_def)+
  moreover have "files t f = files s f" if "f \<notin> rp_fid ` {..<256}" for f
    using st that by (force simp: rp_step_def)
  moreover have "\<forall>i < 256. rp_sealed t (rp_fid i)" if "rp_works k s"
    using step(2) [OF that] tu(1) by (simp add: rp_sealed_def)
  ultimately show ?thesis using r(1) by blast
qed

definition ref_rp_files :: files where
  "ref_rp_files = [EF_KEY_DEV \<mapsto> 1 # replicate 32 3, EF_RP \<mapsto> 2 # replicate 32 9 @ [0x61, 0x2e, 0x62]]"

lemma migrate_rp_keeps_records_witness:
  "\<exists>t d. credential_migrate_rp_secure ref_sdk (ref_device ref_rp_files) = (PICOKEYS_OK, t) \<and>
     rp_says ref_sdk t EF_RP = (PICOKEYS_OK, [0x61, 0x2e, 0x62]) \<and> files t EF_RP = Some d \<and> rp_secure d"
proof -
  let ?s = "ref_device ref_rp_files"
  have settled: "key_settled ?s" by (simp add: key_settled_def ref_rp_files_def)
  have alloc: "allocates ref_sdk" by (simp add: allocates_def)
  obtain r t where m: "credential_migrate_rp_secure ref_sdk ?s = (r, t)" by (metis surj_pair)
  have rp: "ref_rp_files EF_RP = Some (2 # replicate 32 9 @ [0x61, 0x2e, 0x62])" by (simp add: ref_rp_files_def)
  have same: "same_device_key ?s ?s" by (simp add: same_device_key_def)
  obtain kr key where k: "credential_derive_chacha_key ref_sdk CRED_PROTO_RP_S ?s = (kr, key, ?s)"
    by (rule chacha_key_same [OF same settled refl])
  have small: "length d \<le> 992" if "ref_rp_files f = Some d" for f d
    using that by (auto simp: ref_rp_files_def split: if_splits)
  have "fst (load_keydev ref_sdk (replicate 32 0) ?s) = PICOKEYS_OK"
    by (simp add: load_keydev_settled [OF settled] keydev_value_def) (simp add: ref_rp_files_def)
  then have works: "rp_works ref_sdk ?s"
    using small by (auto simp: rp_works_def accepts_def ref_put_def)
  have fid: "rp_fid 0 = EF_RP" by (simp add: rp_fid_def)
  note keeps = migrate_rp_keeps_records [OF alloc ref_chacha_law ref_put_law settled m]
  have says: "rp_says ref_sdk ?s EF_RP = (PICOKEYS_OK, [0x61, 0x2e, 0x62])"
    unfolding rp_says_eq [OF alloc settled k] by (simp add: rp eval_nat_numeral)
  have "rp_sealed t (rp_fid 0)" using keeps works by simp
  then have "rp_sealed t EF_RP" by (simp add: fid)
  moreover have t: "rp_says ref_sdk t EF_RP = (PICOKEYS_OK, [0x61, 0x2e, 0x62])" using keeps says by simp
  moreover have "\<exists>d. files t EF_RP = Some d \<and> \<not> length d < 33"
    using t by (auto simp: rp_says_def credential_rp_id_decrypt_def file_reads rc_of_int_def split: if_splits option.splits)
  ultimately show ?thesis using keeps m by (auto simp: rp_sealed_def)
qed

end
