(* ===== verification/U2f.thy ===== *)
theory U2f
  imports Credential_Store Dispatch Management Presence
begin

text \<open>
  The U2F commands (\<open>src/fido/cmd_register.c\<close>, \<open>cmd_authenticate.c\<close>, \<open>cmd_version.c\<close>). A request
  is read through a packed structure: what lies behind the received bytes reads as zero. The
  files \<open>ef_certdev\<close> and \<open>ef_counter\<close> are looked up where they are used.
\<close>

abbreviation (input) KEY_HANDLE_LEN :: nat where "KEY_HANDLE_LEN \<equiv> 64"
abbreviation (input) CTAP_CHAL_SIZE :: nat where "CTAP_CHAL_SIZE \<equiv> 32"
abbreviation (input) CTAP_EC_POINT_SIZE :: nat where "CTAP_EC_POINT_SIZE \<equiv> 65"
abbreviation (input) CTAP_REGISTER_ID :: byte where "CTAP_REGISTER_ID \<equiv> 0x05"
abbreviation (input) CTAP_REGISTER_HASH_ID :: byte where "CTAP_REGISTER_HASH_ID \<equiv> 0x00"
abbreviation (input) CTAP_AUTH_ENFORCE :: byte where "CTAP_AUTH_ENFORCE \<equiv> 0x03"
abbreviation (input) CTAP_AUTH_CHECK_ONLY :: byte where "CTAP_AUTH_CHECK_ONLY \<equiv> 0x07"
abbreviation (input) CTAP_AUTH_FLAG_TUP :: byte where "CTAP_AUTH_FLAG_TUP \<equiv> 0x01"
abbreviation (input) CRED_PROT_UV_REQUIRED :: u64 where "CRED_PROT_UV_REQUIRED \<equiv> 0x03"

text \<open>The challenge, the application, and the key handle with its length.\<close>

definition req_chal :: "apdu \<Rightarrow> bytes" where
  "req_chal a = fit CTAP_CHAL_SIZE (nc_data a)"

definition req_app :: "apdu \<Rightarrow> bytes" where
  "req_app a = fit CTAP_APPID_SIZE (drop CTAP_CHAL_SIZE (nc_data a))"

definition req_handle :: "apdu \<Rightarrow> bytes" where
  "req_handle a = fit (unat (byte_at (nc_data a) 64)) (drop 65 (nc_data a))"

definition bogus_firefox :: bytes where "bogus_firefox = replicate 32 0"
definition bogus_chrome :: bytes where "bogus_chrome = replicate 32 0x41"

definition cmd_register :: "sdk \<Rightarrow> apdu \<Rightarrow> 'a device_scheme \<Rightarrow> sw \<times> 'a device_scheme" where
  "cmd_register k a s =
     (if nc a \<noteq> CTAP_APPID_SIZE + CTAP_CHAL_SIZE then (SW_WRONG_LENGTH, s)
      else let (wait, s) = wait_button_pressed k s
      in if wait > 0 then (SW_CONDITIONS_NOT_SATISFIED, s)
      else if req_app a = bogus_firefox \<or> req_app a = bogus_chrome then (sdk_ctap_error k 0x06, s)
      else let (ret, h, key, s) = derive_key k (req_app a) True (replicate KEY_HANDLE_LEN 0) MBEDTLS_ECP_DP_SECP256R1 (Some keypair_init) s
      in if ret \<noteq> PICOKEYS_OK then (SW_EXEC_ERROR, s)
      else let (ret, Q) = sdk_point_write_full k (kp_Q (the key))
      in if ret \<noteq> 0 then (SW_EXEC_ERROR, s)
      else let cert = file_get_data s (file_search s EF_EE_DEV); pub = fit CTAP_EC_POINT_SIZE Q;
               sign_base = CTAP_REGISTER_HASH_ID # req_app a @ req_chal a @ h @ pub;
               (ret, hash) = sdk_digest k MD_SHA256 sign_base
      in if ret \<noteq> 0 then (SW_EXEC_ERROR, s)
      else let (ret, key_dev, s) = load_keydev k (replicate 32 0) s
      in if ret \<noteq> PICOKEYS_OK then (SW_EXEC_ERROR, s)
      else let (ret, dev) = sdk_ec_read_key k MBEDTLS_ECP_DP_SECP256R1 keypair_init (take 32 key_dev)
      in if ret \<noteq> 0 then (SW_EXEC_ERROR, s)
      else let (ret, sig) = sdk_ecdsa_sign k (tick s) dev (fit 32 hash); s = s\<lparr>tick := Suc (tick s)\<rparr>
      in if ret \<noteq> 0 then (SW_EXEC_ERROR, s)
      else (SW_OK, s\<lparr>res_APDU := CTAP_REGISTER_ID # pub @ [word_of_nat KEY_HANDLE_LEN] @ h @ cert @ sig\<rparr>))"

text \<open>
  The key pair a key handle stands for, or the answer that refuses it: a credential of the new
  format for the application, unless it always asks for user verification, or a handle of the
  old one.
\<close>

definition handle_key :: "sdk \<Rightarrow> bool \<Rightarrow> bytes \<Rightarrow> bytes \<Rightarrow> 'a device_scheme \<Rightarrow> (sw + rc \<times> keypair) \<times> 'a device_scheme" where
  "handle_key k eddsa app h s =
     (let (ret, _, s) = credential_verify k h app False s
      in if ret = PICOKEYS_OK
         then (case credential_load k h app s of
                 (Inl e, s) \<Rightarrow> (Inl SW_INCORRECT_PARAMS, s)
               | (Inr c, s) \<Rightarrow>
                   if credProtect (cred_ext c) = CRED_PROT_UV_REQUIRED then (Inl SW_SECURITY_STATUS_NOT_SATISFIED, s)
                   else let (ret, key, s) = fido_load_key k eddsa FIDO2_CURVE_P256 h keypair_init s in (Inr (ret, key), s))
         else let (ret, _, key, s) = derive_key k app False h MBEDTLS_ECP_DP_SECP256R1 (Some keypair_init) s;
                  (v, s) = verify_key k app h key s
              in if v \<noteq> PICOKEYS_OK then (Inl SW_INCORRECT_PARAMS, s) else (Inr (ret, the key), s))"

definition cmd_authenticate :: "sdk \<Rightarrow> bool \<Rightarrow> apdu \<Rightarrow> 'a device_scheme \<Rightarrow> sw \<times> 'a device_scheme" where
  "cmd_authenticate k eddsa a s =
     (if nc a < CTAP_CHAL_SIZE + CTAP_APPID_SIZE + 1 + 1 then (SW_WRONG_DATA, s)
      else if length (req_handle a) < KEY_HANDLE_LEN then (SW_INCORRECT_PARAMS, s)
      else let (wait, s) = (if p1 a = CTAP_AUTH_ENFORCE then wait_button_pressed k s else (0, s))
      in if wait > 0 then (SW_CONDITIONS_NOT_SATISFIED, s)
      else case handle_key k eddsa (req_app a) (req_handle a) s of
        (Inl sw, s) \<Rightarrow> (sw, s)
      | (Inr (ret, key), s) \<Rightarrow>
          if ret \<noteq> PICOKEYS_OK then (SW_EXEC_ERROR, s)
          else if p1 a = CTAP_AUTH_CHECK_ONLY then (SW_CONDITIONS_NOT_SATISFIED, s)
          else let flags = (if p1 a = CTAP_AUTH_ENFORCE then CTAP_AUTH_FLAG_TUP else 0);
                   ctr = get_sign_counter k s;
                   (ret, hash) = sdk_digest k MD_SHA256 (req_app a @ [flags] @ sdk_put_u32 k ctr @ req_chal a)
          in if ret \<noteq> 0 then (SW_EXEC_ERROR, s)
          else let (ret, sig) = sdk_ecdsa_sign k (tick s) key (fit 32 hash); s = s\<lparr>tick := Suc (tick s)\<rparr>
          in if ret \<noteq> 0 then (SW_EXEC_ERROR, s)
          else let s = s\<lparr>res_APDU := flags # sdk_put_u32 k ctr @ sig\<rparr>;
                   (_, s) = file_put_data k (file_search s EF_COUNTER) (mem_u32 (ctr + 1)) s
               in (SW_OK, flash_commit s))"

definition cmd_version :: "'a plat_scheme \<Rightarrow> sw \<times> 'a plat_scheme" where
  "cmd_version s = (SW_OK, s\<lparr>res_APDU := ascii ''U2F_V2''\<rparr>)"

definition u2f_select :: "sdk \<Rightarrow> 'a plat_scheme \<Rightarrow> rc" where
  "u2f_select k s = (if cap_supported k s CAP_U2F then PICOKEYS_OK else PICOKEYS_ERR_FILE_NOT_FOUND)"

definition u2f_process_apdu :: "sdk \<Rightarrow> bool \<Rightarrow> apdu \<Rightarrow> 'a device_scheme \<Rightarrow> sw \<times> 'a device_scheme" where
  "u2f_process_apdu k eddsa a s =
     (if cla a \<noteq> 0x00 then (SW_CLA_NOT_SUPPORTED, s)
      else if cap_supported k s CAP_U2F
      then run_cmd [(0x01, cmd_register k), (0x02, cmd_authenticate k eddsa), (0x03, \<lambda>a s. cmd_version s)] a s
      else (SW_INS_NOT_SUPPORTED, s))"

end
