(* ===== verification/U2f_Properties.thy ===== *)
theory U2f_Properties
  imports U2f Credential_Rp Otp_Slot_Properties
begin

text \<open>
  What holds of the U2F commands: every signature carries the stored counter and advances it, and
  the handle of a registration authenticates later with the registered key pair.
\<close>

subsection \<open>Only the device key is written on the way\<close>

text \<open>Deriving and checking keys touches storage only where a device key is brought to its latest format.\<close>

definition key_step :: "'a plat_scheme \<Rightarrow> 'a plat_scheme \<Rightarrow> bool" where
  "key_step s t \<longleftrightarrow> store_step s t \<and> keeps {EF_KEY_DEV} s t"

lemma key_step_refl [simp]: "key_step s s"
  by (simp add: key_step_def)

lemma key_step_tick [simp]: "key_step s (s\<lparr>tick := n\<rparr>)"
  by (simp add: key_step_def keeps_same)

lemma key_step_trans [trans]: "key_step s t \<Longrightarrow> key_step t u \<Longrightarrow> key_step s u"
  unfolding key_step_def by (blast intro: store_step_trans keeps_trans)

lemma key_step_tick_right: "key_step s t \<Longrightarrow> key_step s (t\<lparr>tick := n\<rparr>)"
  by (rule key_step_trans [OF _ key_step_tick])

lemma key_step_files: "key_step s t \<Longrightarrow> f \<noteq> EF_KEY_DEV \<Longrightarrow> files t f = files s f"
  by (simp add: key_step_def keeps_def)

lemma load_keydev_key_step: "put_law k \<Longrightarrow> load_keydev k z s = (r, key, t) \<Longrightarrow> key_step s t"
  unfolding key_step_def by (blast intro: load_keydev_step load_keydev_keeps)

lemma derive_path_key_step: "derive_path k b is h outk s = (r, h', outk', t) \<Longrightarrow> key_step s t"
proof (induction "is" arbitrary: h outk s)
  case (Cons i ls)
  have *: "key_step s u" if "key_step (s\<lparr>tick := n\<rparr>) u" for u n
    by (rule key_step_trans [OF key_step_tick that])
  show ?case
    using Cons.prems Cons.IH
    by (auto simp: random_fill_buffer_def Let_def split: prod.splits if_splits intro: *)
qed simp

lemma derive_path_files:
  fixes s t :: "'a fido_scheme"
  assumes "derive_path k b is h outk s = (r, h', outk', t)"
  shows "has_keydev_dec t = has_keydev_dec s \<and> files t = files s"
  using assms
proof (induction "is" arbitrary: h outk s)
  case (Cons i ls)
  then show ?case by (fastforce simp: random_fill_buffer_def Let_def split: prod.splits if_splits)
qed simp

lemma derive_key_key_step:
  assumes "put_law k" and "derive_key k app new h c key s = (r, h', key', t)"
  shows "key_step s t"
proof -
  obtain r0 root s0 where l: "load_keydev k (replicate 32 0) s = (r0, root, s0)" by (metis prod_cases3)
  obtain r1 h1 outk s1 where p: "derive_path k new [0..<8] h (fit 67 (take 32 root)) s0 = (r1, h1, outk, s1)" by (metis prod_cases4)
  have 0: "key_step s s0" by (rule load_keydev_key_step [OF assms(1) l])
  have 1: "key_step s s1" by (rule key_step_trans [OF 0 derive_path_key_step [OF p]])
  have "t = s0 \<or> t = s1 \<or> t = s1\<lparr>tick := Suc (tick s1)\<rparr>"
    using assms(2) by (auto simp: derive_key_def l p Let_def split: if_splits option.splits prod.splits)
  then show ?thesis using 0 1 key_step_tick_right [OF 1] by blast
qed

lemma chacha_key_step:
  assumes "put_law k" and "credential_derive_chacha_key k q s = (r, key, t)"
  shows "key_step s t"
proof -
  obtain r0 root s0 where l: "load_keydev k (replicate 32 0) s = (r0, root, s0)" by (metis prod_cases3)
  have "t = s0" using assms(2) by (simp add: credential_derive_chacha_key_def l split: if_splits)
  then show ?thesis using load_keydev_key_step [OF assms(1) l] by simp
qed

lemma credential_verify_step:
  assumes "put_law k" and "credential_verify k cid rp silent s = (r, c, t)"
  shows "key_step s t"
  using assms(2) unfolding credential_verify_def Let_def
  by (auto split: if_splits prod.splits dest: chacha_key_step [OF assms(1)])

lemma verify_key_step:
  assumes "put_law k" and "verify_key k app h key s = (r, t)"
  shows "key_step s t"
  using assms(2) unfolding verify_key_def Let_def
  by (auto split: if_splits prod.splits option.splits dest: derive_key_key_step [OF assms(1)])

lemma credential_load_step:
  assumes "put_law k" and "credential_load k cid rp s = (c, t)"
  shows "key_step s t"
proof -
  obtain r copy s1 where v: "credential_verify k cid rp False s = (r, copy, s1)" by (metis prod_cases3)
  obtain r2 s2 where w: "verify_key k rp cid None s1 = (r2, s2)" by (metis surj_pair)
  have "t = s1 \<or> t = s2"
    using assms(2) unfolding credential_load_def Let_def v
    by (auto simp: w split: if_splits sum.splits)
  then show ?thesis
    using credential_verify_step [OF assms(1) v] key_step_trans [OF credential_verify_step [OF assms(1) v] verify_key_step [OF assms(1) w]]
    by blast
qed

lemma fido_load_key_step:
  assumes "put_law k" and "fido_load_key k e c cid key s = (r, kp, t)"
  shows "key_step s t"
  using assms(2) unfolding fido_load_key_def Let_def
  by (auto split: if_splits prod.splits dest: derive_key_key_step [OF assms(1)])

lemma handle_key_step:
  assumes "put_law k" and "handle_key k e app h s = (r, t)"
  shows "key_step s t"
proof -
  obtain r1 c1 s1 where v: "credential_verify k h app False s = (r1, c1, s1)" by (metis prod_cases3)
  note 1 = credential_verify_step [OF assms(1) v]
  have load: "key_step s1 t" if "r1 = PICOKEYS_OK"
  proof -
    obtain c s2 where l: "credential_load k h app s1 = (c, s2)" by (metis surj_pair)
    note 2 = credential_load_step [OF assms(1) l]
    obtain r3 kp s3 where f: "fido_load_key k e 1 h keypair_init s2 = (r3, kp, s3)" by (metis prod_cases3)
    have "t = s2 \<or> t = s3" using assms(2) that by (auto simp: handle_key_def v l f split: sum.splits if_splits)
    then show ?thesis using 2 key_step_trans [OF 2 fido_load_key_step [OF assms(1) f]] by blast
  qed
  have old: "key_step s1 t" if "r1 \<noteq> PICOKEYS_OK"
  proof -
    obtain r2 h2 key s2 where d: "derive_key k app False h MBEDTLS_ECP_DP_SECP256R1 (Some keypair_init) s1 = (r2, h2, key, s2)"
      by (metis prod_cases4)
    obtain r3 s3 where w: "verify_key k app h key s2 = (r3, s3)" by (metis surj_pair)
    have "t = s3" using assms(2) that by (auto simp: handle_key_def v d w Let_def split: if_splits)
    then show ?thesis
      using key_step_trans [OF derive_key_key_step [OF assms(1) d] verify_key_step [OF assms(1) w]] by simp
  qed
  show ?thesis using load old key_step_trans [OF 1] by blast
qed

subsection \<open>The signature counter\<close>

text \<open>Reading a 32-bit counter back from memory.\<close>

definition u32_le_law :: "sdk \<Rightarrow> bool" where
  "u32_le_law k \<longleftrightarrow> (\<forall>v. sdk_get_u32_le k (mem_u32 v) = v)"

lemma get_sign_counter_step: "key_step s t \<Longrightarrow> get_sign_counter k t = get_sign_counter k s"
  using key_step_files [of s t EF_COUNTER] by (simp add: get_sign_counter_def)

text \<open>What is signed: the application, the flags, the counter and the challenge.\<close>

definition assertion_hash :: "sdk \<Rightarrow> apdu \<Rightarrow> byte \<Rightarrow> u32 \<Rightarrow> bytes" where
  "assertion_hash k a fl ctr =
     fit 32 (snd (sdk_digest k MD_SHA256 (req_app a @ [fl] @ sdk_put_u32 k ctr @ req_chal a)))"

lemma handle_key_refuses: "handle_key k e app h s = (Inl sw, t) \<Longrightarrow> sw \<noteq> SW_OK"
  by (auto simp: handle_key_def Let_def split: prod.splits if_splits sum.splits)

lemma authenticate_parts:
  assumes "put_law k" and "cmd_authenticate k e a s = (sw, t)"
  obtains "sw \<noteq> SW_OK" "key_step s t"
  | u key sig fl where "sw = SW_OK" "key_step s u" "fl = (if p1 a = 3 then 1 else 0)" "p1 a \<noteq> 7"
      "p1 a = 3 \<Longrightarrow> sdk_button k (tick s) = EV_BUTTON_PRESSED"
      "sdk_ecdsa_sign k (tick u) key (assertion_hash k a fl (get_sign_counter k u)) = (0, sig)"
      "t = flash_commit (snd (file_put_data k (file_search u EF_COUNTER) (mem_u32 (get_sign_counter k u + 1))
             (u\<lparr>tick := Suc (tick u), res_APDU := fl # sdk_put_u32 k (get_sign_counter k u) @ sig\<rparr>)))"
      "\<exists>h v. handle_key k e (req_app a) h v = (Inr (PICOKEYS_OK, key), u) \<and> h = req_handle a \<and> key_step s v"
proof -
  obtain w s1 where b: "(if p1 a = CTAP_AUTH_ENFORCE then wait_button_pressed k s else (0, s)) = (w, s1)" by (metis surj_pair)
  have s1: "key_step s s1" using b by (auto split: if_splits dest: wait_button_pressed_state)
  have pressed: "sdk_button k (tick s) = EV_BUTTON_PRESSED" if "w = 0" "p1 a = 3"
    using b that by (cases "sdk_button k (tick s)") (auto simp: wait_button_pressed_def Let_def)
  obtain h s2 where k: "handle_key k e (req_app a) (req_handle a) s1 = (h, s2)" by (metis surj_pair)
  have s2: "key_step s s2" using key_step_trans [OF s1 handle_key_step [OF assms(1) k]] .
  note run = assms(2) [unfolded cmd_authenticate_def Let_def b prod.case k]
  show thesis
  proof (cases "sw = SW_OK")
    case False
    have "t = s \<or> t = s1 \<or> t = s2 \<or> t = s2\<lparr>tick := Suc (tick s2)\<rparr>"
      using run False by (auto split: if_splits sum.splits prod.splits)
    then have "key_step s t" using s1 s2 key_step_tick_right [OF s2] by auto
    with False show thesis by (rule that(1))
  next
    case True
    define fl where "fl = (if p1 a = CTAP_AUTH_ENFORCE then CTAP_AUTH_FLAG_TUP else 0)"
    define ctr where "ctr = get_sign_counter k s2"
    obtain dr d where d: "sdk_digest k MD_SHA256 (req_app a @ [fl] @ sdk_put_u32 k ctr @ req_chal a) = (dr, d)" by (metis surj_pair)
    obtain r key where h: "h = Inr (r, key)" "w = 0" "r = PICOKEYS_OK" "p1 a \<noteq> 7" "dr = 0"
    proof (cases h)
      case (Inl sw')
      then have "sw' = SW_OK" using run True by (auto split: if_splits)
      then show ?thesis using handle_key_refuses k Inl by blast
    next
      case (Inr rk)
      then show ?thesis
        using run True d that by (cases rk) (auto simp: fl_def ctr_def split: if_splits prod.splits)
    qed
    obtain sr sig where g: "sdk_ecdsa_sign k (tick s2) key (fit 32 d) = (sr, sig)" by (metis surj_pair)
    have "sr = 0" and t: "t = flash_commit (snd (file_put_data k (file_search s2 EF_COUNTER) (mem_u32 (ctr + 1))
             (s2\<lparr>tick := Suc (tick s2), res_APDU := fl # sdk_put_u32 k ctr @ sig\<rparr>)))"
      using run True h g d
      by (auto simp: fl_def ctr_def file_reads split: if_splits prod.splits)
    then show thesis
      using True s2 h g d pressed s1 k
      by (intro that(2) [of s2 fl key sig]) (auto simp: assertion_hash_def fl_def ctr_def)
  qed
qed

text \<open>
  C12: The signature counter. An authentication that succeeds answers with the stored counter under
  the signature, leaves the next one in storage, and has seen the button pressed when the request
  enforces presence; any other one changes neither the counter nor the response.
\<close>

theorem authentication_counts:
  fixes s t :: "'a device_scheme"
  assumes "put_law k" and "u32_le_law k" and "accepts k EF_COUNTER" and "files s EF_COUNTER \<noteq> None"
    and "cmd_authenticate k e a s = (sw, t)"
  defines "fl \<equiv> (if p1 a = CTAP_AUTH_ENFORCE then CTAP_AUTH_FLAG_TUP else 0)" and "ctr \<equiv> get_sign_counter k s"
  shows "if sw = SW_OK
    then p1 a \<noteq> CTAP_AUTH_CHECK_ONLY \<and> (p1 a = CTAP_AUTH_ENFORCE \<longrightarrow> sdk_button k (tick s) = EV_BUTTON_PRESSED) \<and>
      get_sign_counter k t = ctr + 1 \<and>
      (\<exists>key (u :: 'a device_scheme) v n sig. handle_key k e (req_app a) (req_handle a) u = (Inr (PICOKEYS_OK, key), v) \<and>
         sdk_ecdsa_sign k n key (assertion_hash k a fl ctr) = (0, sig) \<and> res_APDU t = fl # sdk_put_u32 k ctr @ sig)
    else get_sign_counter k t = ctr \<and> res_APDU t = res_APDU s"
  using authenticate_parts [OF assms(1,5)]
proof cases
  case 1
  then show ?thesis
    using store_step_fields(1) [of s t] by (simp add: ctr_def get_sign_counter_step key_step_def)
next
  case (2 u key sig fl')
  have fl: "fl' = fl" "p1 a \<noteq> CTAP_AUTH_CHECK_ONLY" using 2(3,4) by (simp_all add: fl_def)
  have ctr: "get_sign_counter k u = ctr" using get_sign_counter_step [OF 2(2)] by (simp add: ctr_def)
  let ?u = "u\<lparr>tick := Suc (tick u), res_APDU := fl # sdk_put_u32 k ctr @ sig\<rparr>"
  obtain r u' where p: "file_put_data k (Some EF_COUNTER) (mem_u32 (ctr + 1)) ?u = (r, u')" by (metis surj_pair)
  have "file_search u EF_COUNTER = Some EF_COUNTER"
    using assms(4) key_step_files [OF 2(2), of EF_COUNTER] by (auto simp: file_reads)
  then have t: "t = flash_commit u'" using 2(7) by (simp add: ctr fl(1) p)
  have "files u' = (files ?u)(EF_COUNTER \<mapsto> mem_u32 (ctr + 1))" by (rule accepts_put [OF assms(1,3) _ p]) simp
  then have "files t EF_COUNTER = Some (mem_u32 (ctr + 1))" by (simp add: t)
  then have "get_sign_counter k t = ctr + 1" using assms(2) by (simp add: get_sign_counter_def u32_le_law_def)
  moreover have "res_APDU t = fl # sdk_put_u32 k ctr @ sig"
    using store_step_fields(1) [OF file_put_data_step [OF p]] by (simp add: t flash_commit_def)
  moreover obtain v where v: "handle_key k e (req_app a) (req_handle a) v = (Inr (PICOKEYS_OK, key), u)" using 2(8) by blast
  moreover have "sdk_ecdsa_sign k (tick u) key (assertion_hash k a fl ctr) = (0, sig)" using 2(6) unfolding ctr fl(1) .
  ultimately have "\<exists>key (u :: 'a device_scheme) v n sig. handle_key k e (req_app a) (req_handle a) u = (Inr (PICOKEYS_OK, key), v) \<and>
         sdk_ecdsa_sign k n key (assertion_hash k a fl ctr) = (0, sig) \<and> res_APDU t = fl # sdk_put_u32 k ctr @ sig" by blast
  then show ?thesis using 2(1,5) fl(2) \<open>get_sign_counter k t = ctr + 1\<close> by simp
qed

subsection \<open>Registration and authentication\<close>

lemma credential_verify_settled:
  fixes s t :: "'a device_scheme"
  assumes "key_settled s" and "credential_verify k c rp silent s = (r, c', t)"
  shows "t = s"
proof -
  have same: "same_device_key s s" by (simp add: same_device_key_def)
  obtain kr key where "credential_derive_chacha_key k c s = (kr, key, s)"
    by (rule chacha_key_same [OF same assms(1) refl])
  then show ?thesis
    using assms(2) unfolding credential_verify_def Let_def by (auto split: if_splits prod.splits)
qed

text \<open>The public key does not depend on the random numbers used to compute it.\<close>

definition point_law :: "sdk \<Rightarrow> bool" where
  "point_law k \<longleftrightarrow> (\<forall>n m kp kp'. sdk_ec_calc_public k n kp = (0, kp') \<longrightarrow> sdk_ec_calc_public k m kp = (0, kp'))"

lemma point_public: "point_law k \<Longrightarrow> public_law k"
  unfolding point_law_def public_law_def by (metis fst_conv prod.collapse)

text \<open>An error of CTAP is never the status of success.\<close>

definition ctap_error_law :: "sdk \<Rightarrow> bool" where
  "ctap_error_law k \<longleftrightarrow> (\<forall>e. sdk_ctap_error k e \<noteq> SW_OK)"

lemma register_parts:
  assumes "ctap_error_law k" and "cmd_register k a s = (SW_OK, t)"
  obtains h kp s1 Q rest where
    "derive_key k (req_app a) True (replicate 64 0) MBEDTLS_ECP_DP_SECP256R1 (Some keypair_init) (s\<lparr>tick := Suc (tick s)\<rparr>) =
       (PICOKEYS_OK, h, kp, s1)"
    "sdk_point_write_full k (kp_Q (the kp)) = (0, Q)" "sdk_button k (tick s) = EV_BUTTON_PRESSED"
    "res_APDU t = CTAP_REGISTER_ID # fit CTAP_EC_POINT_SIZE Q @ [64] @ h @ rest"
proof -
  obtain w s0 where b: "wait_button_pressed k s = (w, s0)" by (metis surj_pair)
  have s0: "s0 = s\<lparr>tick := Suc (tick s)\<rparr>" using wait_button_pressed_state [OF b] .
  have pressed: "sdk_button k (tick s) = EV_BUTTON_PRESSED" if "w = 0"
    using b that by (cases "sdk_button k (tick s)") (auto simp: wait_button_pressed_def Let_def)
  obtain r h kp s1 where d: "derive_key k (req_app a) True (replicate 64 0) MBEDTLS_ECP_DP_SECP256R1 (Some keypair_init) s0 = (r, h, kp, s1)"
    by (metis prod_cases4)
  obtain qr Q where q: "sdk_point_write_full k (kp_Q (the kp)) = (qr, Q)" by (metis surj_pair)
  note run = assms(2) [unfolded cmd_register_def Let_def b prod.case d q]
  have "w = 0" "r = PICOKEYS_OK" "qr = 0" "\<exists>rest. res_APDU t = CTAP_REGISTER_ID # fit CTAP_EC_POINT_SIZE Q @ [64] @ h @ rest"
    using run assms(1) by (auto simp: ctap_error_law_def split: if_splits prod.splits)
  then show thesis using d q pressed by (auto simp: s0 intro: that)
qed

text \<open>The handle of a registration leads to its key pair wherever the device key is the same.\<close>

lemma registered_handle:
  fixes s t :: "'a device_scheme"
  assumes "md_law k" and "ec_key_law k" and "inplace_law k" and "point_law k"
    and "sdk_curve_bits k MBEDTLS_ECP_DP_SECP256R1 = Some 256" and "key_settled s"
    and "cmd_register k a s = (SW_OK, t)" and "ctap_error_law k"
  obtains Q h key rest where
    "res_APDU t = CTAP_REGISTER_ID # fit CTAP_EC_POINT_SIZE Q @ [64] @ h @ rest" "length h = 64"
    "sdk_point_write_full k (kp_Q key) = (0, Q)"
    "\<And>u :: 'a device_scheme. same_device_key s u \<Longrightarrow> fst (credential_verify k h (req_app a) False u) \<noteq> PICOKEYS_OK \<Longrightarrow>
       \<exists>v. handle_key k e (req_app a) h u = (Inr (PICOKEYS_OK, key), v)"
proof -
  let ?s = "s\<lparr>tick := Suc (tick s)\<rparr>"
  obtain h kp s1 Q rest where d: "derive_key k (req_app a) True (replicate 64 0) MBEDTLS_ECP_DP_SECP256R1 (Some keypair_init) ?s =
       (PICOKEYS_OK, h, kp, s1)"
      and q: "sdk_point_write_full k (kp_Q (the kp)) = (0, Q)"
      and res: "res_APDU t = CTAP_REGISTER_ID # fit CTAP_EC_POINT_SIZE Q @ [64] @ h @ rest"
    by (rule register_parts [OF assms(8,7)])
  have again: "\<exists>kp0 w. kp = Some kp0 \<and> length h = 64 \<and>
      derive_key k (req_app a) False h MBEDTLS_ECP_DP_SECP256R1 (Some keypair_init) u = (PICOKEYS_OK, h, Some kp0, w) \<and>
      (\<forall>v :: 'a device_scheme. verify_key k (req_app a) h (Some kp0) v = (PICOKEYS_OK, v))" if "same_device_key s u" for u :: "'a device_scheme"
  proof -
    have same: "same_device_key ?s u" "key_settled ?s" using assms(6) that by (simp_all add: same_device_key_def key_settled_def)
    obtain r root where l: "load_keydev k (replicate 32 0) ?s = (r, root, ?s)" "load_keydev k (replicate 32 0) u = (r, root, u)"
      using same_device_key_load(1) [OF same] by blast
    have "r = PICOKEYS_OK" using d by (auto simp: derive_key_def l Let_def split: if_splits)
    note l = l [unfolded this]
    obtain kp0 kp1 kp2 n m w where again: "kp = Some kp0" "sdk_ec_calc_public k n kp1 = (0, kp0)" "sdk_ec_calc_public k m kp1 = (0, kp2)"
        "length h = 64" "derive_key k (req_app a) False h MBEDTLS_ECP_DP_SECP256R1 (Some keypair_init) u = (PICOKEYS_OK, h, Some kp2, w)"
        "\<forall>v :: 'a device_scheme. verify_key k (req_app a) h (Some kp2) v = (PICOKEYS_OK, v)"
      using derived_handle [OF assms(1-3) point_public [OF assms(4)] assms(5) _ d l] by auto
    have "sdk_ec_calc_public k m kp1 = (0, kp0)" using assms(4) again(2) unfolding point_law_def by blast
    then have "kp2 = kp0" using again(3) by simp
    then show ?thesis using again by blast
  qed
  obtain kp0 where kp: "kp = Some kp0" "length h = 64"
    using again [of s] by (auto simp: same_device_key_def)
  have handle: "\<exists>v. handle_key k e (req_app a) h u = (Inr (PICOKEYS_OK, kp0), v)"
    if u: "same_device_key s u" "fst (credential_verify k h (req_app a) False u) \<noteq> PICOKEYS_OK" for u :: "'a device_scheme"
  proof -
    obtain cr c u' where v: "credential_verify k h (req_app a) False u = (cr, c, u')" by (metis prod_cases3)
    have "u' = u" by (rule credential_verify_settled [OF same_device_key_load(2) [OF u(1) assms(6)] v])
    then show ?thesis using u(2) again [OF u(1)] kp by (auto simp: handle_key_def v Let_def)
  qed
  show thesis by (rule that [OF res kp(2) _ handle]) (use q kp in simp_all)
qed

text \<open>
  C13: A registered key handle authenticates. The response to a registration holds the public key
  and the key handle of one key pair, and as long as the device key is the same, the handle leads
  an authentication of the same application to that key pair, unless it should decrypt as a
  credential of the new format, which has a tag of its own; asked only to check, the authenticator
  says that it knows it.
\<close>

theorem registered_handle_authenticates:
  fixes s t u :: "'a device_scheme"
  assumes "md_law k" and "ec_key_law k" and "inplace_law k" and "point_law k"
    and "sdk_curve_bits k MBEDTLS_ECP_DP_SECP256R1 = Some 256" and "key_settled s"
    and "cmd_register k a s = (SW_OK, t)" and "same_device_key s u" and "ctap_error_law k"
  shows "\<exists>Q h key rest. res_APDU t = CTAP_REGISTER_ID # fit CTAP_EC_POINT_SIZE Q @ [64] @ h @ rest \<and> length h = 64 \<and>
    sdk_point_write_full k (kp_Q key) = (0, Q) \<and>
    (fst (credential_verify k h (req_app a) False u) \<noteq> PICOKEYS_OK \<longrightarrow>
       (\<exists>v. handle_key k e (req_app a) h u = (Inr (PICOKEYS_OK, key), v)) \<and>
       (\<forall>b. req_app b = req_app a \<and> req_handle b = h \<and> nc b \<ge> 66 \<and> p1 b = CTAP_AUTH_CHECK_ONLY \<longrightarrow>
          fst (cmd_authenticate k e b u) = SW_CONDITIONS_NOT_SATISFIED))"
proof -
  obtain Q h key rest where r: "res_APDU t = CTAP_REGISTER_ID # fit CTAP_EC_POINT_SIZE Q @ [64] @ h @ rest" "length h = 64"
      "sdk_point_write_full k (kp_Q key) = (0, Q)"
      and handle: "\<And>u :: 'a device_scheme. same_device_key s u \<Longrightarrow> fst (credential_verify k h (req_app a) False u) \<noteq> PICOKEYS_OK \<Longrightarrow>
       \<exists>v. handle_key k e (req_app a) h u = (Inr (PICOKEYS_OK, key), v)"
    by (rule registered_handle [OF assms(1-7,9)]) blast
  have "fst (cmd_authenticate k e b u) = SW_CONDITIONS_NOT_SATISFIED"
    if "fst (credential_verify k h (req_app a) False u) \<noteq> PICOKEYS_OK"
      and b: "req_app b = req_app a" "req_handle b = h" "nc b \<ge> 66" "p1 b = CTAP_AUTH_CHECK_ONLY" for b
    using b handle [OF assms(8) that(1)] r(2) by (auto simp: cmd_authenticate_def)
  then show ?thesis
    using r handle [OF assms(8)] by blast
qed

subsection \<open>On the reference platform\<close>

text \<open>The reference platform with a cipher that opens nothing: no handle is a credential of the new format.\<close>

definition ref_closed :: sdk where
  "ref_closed = ref_sdk\<lparr>sdk_chacha_dec := (\<lambda>key nonce aad t d. (- 1, d))\<rparr>"

lemma mem_u32_value:
  "((unat (ucast (drop_bit 24 v) :: byte) * 256 + unat (ucast (drop_bit 16 v) :: byte)) * 256 + unat (ucast (drop_bit 8 v) :: byte)) * 256 +
     unat (ucast v :: byte) = unat (v :: u32)"
proof -
  have b: "unat (ucast (drop_bit n v) :: byte) = unat v div 2 ^ n mod 256" for n
    by (simp add: unsigned_ucast_eq take_bit_eq_mod unat_drop_bit_eq drop_bit_eq_div [where 'a = nat])
  have v: "unat v < 256 * 256 * 256 * 256" using unsigned_less [of v] by simp
  note d = div_mult_mod_eq [of "unat v" 256] div_mult_mod_eq [of "unat v div 256" 256] div_mult_mod_eq [of "unat v div 65536" 256]
  have "unat v div 256 div 256 = unat v div 65536" "unat v div 65536 div 256 = unat v div 16777216"
    by (simp_all add: div_mult2_eq [symmetric])
  then show ?thesis using b [of 24] b [of 16] b [of 8] b [of 0] v d by simp
qed

lemma ref_u32_le_law: "u32_le_law ref_closed"
proof -
  have "ref_get_be 4 (rev (mem_u32 v)) = unat v" for v
    using mem_u32_value [of v] by (simp add: ref_get_be_def mem_u32_def)
  then show ?thesis by (simp add: u32_le_law_def ref_closed_def)
qed

lemma ref_closed_laws: "put_law ref_closed" "accepts ref_closed f" "md_law ref_closed" "ec_key_law ref_closed"
    "inplace_law ref_closed" "point_law ref_closed" "ctap_error_law ref_closed"
    "sdk_curve_bits ref_closed MBEDTLS_ECP_DP_SECP256R1 = Some 256"
  using ref_put_law ref_md_law ref_ec_key_law
  by (simp_all add: ref_closed_def put_law_def md_law_def ec_key_law_def inplace_law_def point_law_def ctap_error_law_def accepts_def ref_put_def)
     (simp_all add: ref_sdk_def)

lemma ref_closed_sel: "sdk_hkdf_inplace ref_closed = sdk_hkdf_inplace ref_sdk" "sdk_random ref_closed = sdk_random ref_sdk"
  by (simp_all add: ref_closed_def)

definition ref_u2f_state :: device where
  "ref_u2f_state = ref_device_keyed [EF_COUNTER \<mapsto> mem_u32 41, EF_EE_DEV \<mapsto> [0x30, 0]]"

definition ref_request :: "byte \<Rightarrow> bytes \<Rightarrow> apdu" where
  "ref_request p d = \<lparr>cla = 0, ins = 1, p1 = p, p2 = 0, nc_data = replicate 32 7 @ replicate 32 5 @ d\<rparr>"

lemma ref_request_app: "req_app (ref_request p d) = replicate 32 5"
  by (simp add: req_app_def ref_request_def fit_def)

lemma ref_request_handle: "length h = 64 \<Longrightarrow> req_handle (ref_request p (64 # h)) = h"
  by (simp add: req_handle_def ref_request_def byte_at_def nth_append)

lemma ref_register: "\<exists>t. cmd_register ref_closed (ref_request 0 []) ref_u2f_state = (SW_OK, t)"
proof -
  let ?s = "ref_u2f_state\<lparr>tick := Suc (tick ref_u2f_state)\<rparr>"
  have path: "\<exists>h o1 s1. derive_path ref_closed True is h0 out s0 = (PICOKEYS_OK, h, o1, s1)" for "is" h0 out and s0 :: device
    by (induction "is" arbitrary: h0 out s0) (simp_all add: random_fill_buffer_def Let_def ref_closed_sel)
  have l: "\<exists>root. load_keydev ref_closed (replicate 32 0) (s0 :: device) = (PICOKEYS_OK, root, s0)"
    if "\<not> has_keydev_dec s0" "files s0 EF_KEY_DEV = Some (1 # replicate 32 3)" for s0
    using that by (simp add: load_keydev_def file_reads ref_closed_def)
  have k: "\<not> has_keydev_dec ?s" "files ?s EF_KEY_DEV = Some (1 # replicate 32 3)"
    by (simp_all add: ref_u2f_state_def) (simp add: ref_device_keyed_def)
  obtain root where l0: "load_keydev ref_closed (replicate 32 0) ?s = (PICOKEYS_OK, root, ?s)" using l [OF k] by blast
  obtain h o1 s1 where p: "derive_path ref_closed True [0..<8] (replicate 64 0) (fit 67 (take 32 root)) ?s = (PICOKEYS_OK, h, o1, s1)"
      and s1: "has_keydev_dec s1 = has_keydev_dec ?s" "files s1 = files ?s"
    using path derive_path_files by blast
  obtain h' kp where d: "derive_key ref_closed (replicate 32 5) True (replicate 64 0) MBEDTLS_ECP_DP_SECP256R1 (Some keypair_init) ?s =
      (PICOKEYS_OK, h', kp, s1\<lparr>tick := Suc (tick s1)\<rparr>)"
    by (simp add: derive_key_def Let_def l0 p rc_of_int_def) (simp add: ref_closed_def rc_of_int_def)
  obtain root' where l1: "load_keydev ref_closed (replicate 32 0) (s1\<lparr>tick := Suc (tick s1)\<rparr>) = (PICOKEYS_OK, root', s1\<lparr>tick := Suc (tick s1)\<rparr>)"
    using l [of "s1\<lparr>tick := Suc (tick s1)\<rparr>"] s1 k by auto
  have "wait_button_pressed ref_closed ref_u2f_state = (0, ?s)"
    by (simp add: wait_button_pressed_def ref_closed_def)
  moreover have "nc (ref_request 0 []) = 64" by (simp add: ref_request_def)
  moreover have "replicate 32 5 \<noteq> bogus_firefox" "replicate 32 5 \<noteq> bogus_chrome"
    by (simp_all add: bogus_firefox_def bogus_chrome_def)
  ultimately show ?thesis
    by (simp add: cmd_register_def ref_request_app d Let_def l1 split: prod.splits) (simp add: ref_closed_def)
qed

lemma ref_closed_refuses: "fst (credential_verify ref_closed h app False u) \<noteq> PICOKEYS_OK"
  by (auto simp: credential_verify_def Let_def ref_closed_def rc_of_int_def split: prod.splits)

lemma registered_handle_authenticates_witness:
  "\<exists>t h. cmd_register ref_closed (ref_request 0 []) ref_u2f_state = (SW_OK, t) \<and> length h = 64 \<and>
     take 64 (drop 67 (res_APDU t)) = h \<and>
     fst (cmd_authenticate ref_closed False (ref_request 7 (64 # h)) (ref_u2f_state\<lparr>tick := 99\<rparr>)) = SW_CONDITIONS_NOT_SATISFIED"
proof -
  obtain t where t: "cmd_register ref_closed (ref_request 0 []) ref_u2f_state = (SW_OK, t)" using ref_register by blast
  have settled: "key_settled ref_u2f_state" by (simp add: ref_u2f_state_def)
  have same: "same_device_key ref_u2f_state (ref_u2f_state\<lparr>tick := 99\<rparr>)" by (simp add: same_device_key_def)
  obtain Q h rest where r: "res_APDU t = CTAP_REGISTER_ID # fit CTAP_EC_POINT_SIZE Q @ [64] @ h @ rest" "length h = 64"
    and auth: "\<forall>b. req_app b = replicate 32 5 \<and> req_handle b = h \<and> nc b \<ge> 66 \<and> p1 b = CTAP_AUTH_CHECK_ONLY \<longrightarrow>
          fst (cmd_authenticate ref_closed False b (ref_u2f_state\<lparr>tick := 99\<rparr>)) = SW_CONDITIONS_NOT_SATISFIED"
    using registered_handle_authenticates [OF ref_closed_laws(3-6,8) settled t same ref_closed_laws(7), where e = False]
    by (auto simp: ref_request_app ref_closed_refuses)
  have "take 64 (drop 67 (res_APDU t)) = h" using r by simp
  moreover have "fst (cmd_authenticate ref_closed False (ref_request 7 (64 # h)) (ref_u2f_state\<lparr>tick := 99\<rparr>)) = SW_CONDITIONS_NOT_SATISFIED"
    using auth [rule_format, of "ref_request 7 (64 # h)"] r(2) by (simp add: ref_request_app ref_request_handle) (simp add: ref_request_def)
  ultimately show ?thesis using t r(2) by blast
qed

lemma authentication_counts_witness:
  "\<exists>h t. cmd_authenticate ref_closed False (ref_request 3 (64 # h)) ref_u2f_state = (SW_OK, t) \<and>
     get_sign_counter ref_closed t = 42 \<and> take 5 (res_APDU t) = [1, 0, 0, 0, 41]"
proof -
  let ?u = "ref_u2f_state\<lparr>tick := Suc (tick ref_u2f_state)\<rparr>"
  obtain t where t: "cmd_register ref_closed (ref_request 0 []) ref_u2f_state = (SW_OK, t)" using ref_register by blast
  have settled: "key_settled ref_u2f_state" by (simp add: ref_u2f_state_def)
  have same: "same_device_key ref_u2f_state ?u" by (simp add: same_device_key_def)
  obtain h key where h: "length h = 64"
    and handle: "\<And>u :: device. same_device_key ref_u2f_state u \<Longrightarrow>
       \<exists>v. handle_key ref_closed False (replicate 32 5) h u = (Inr (PICOKEYS_OK, key), v)"
    by (rule registered_handle [OF ref_closed_laws(3-6,8) settled t ref_closed_laws(7), where e = False])
       (auto simp: ref_request_app ref_closed_refuses)
  obtain v where v: "handle_key ref_closed False (replicate 32 5) h ?u = (Inr (PICOKEYS_OK, key), v)" using handle [OF same] by blast
  have b: "wait_button_pressed ref_closed ref_u2f_state = (0, ?u)" by (simp add: wait_button_pressed_def ref_closed_def)
  have req: "nc (ref_request 3 (64 # h)) = 129" "p1 (ref_request 3 (64 # h)) = 3" using h by (simp_all add: ref_request_def)
  obtain t' where a: "cmd_authenticate ref_closed False (ref_request 3 (64 # h)) ref_u2f_state = (SW_OK, t')"
    by (simp add: cmd_authenticate_def req b ref_request_app ref_request_handle [OF h] h v Let_def split: prod.splits)
       (simp add: ref_closed_def Let_def split_beta)
  have ctr: "files ref_u2f_state EF_COUNTER = Some (mem_u32 41)" by (simp add: ref_u2f_state_def)
  then have "get_sign_counter ref_closed ref_u2f_state = 41"
    using ref_u32_le_law by (simp add: get_sign_counter_def u32_le_law_def)
  moreover have "sdk_put_u32 ref_closed 41 = [0, 0, 0, 41]"
  proof -
    have "ref_put_be 4 41 = [0, 0, 0, 41]" by code_simp
    then show ?thesis by (simp add: ref_closed_def)
  qed
  ultimately have "get_sign_counter ref_closed t' = 42 \<and> (\<exists>sig. res_APDU t' = 1 # [0, 0, 0, 41] @ sig)"
    using authentication_counts [OF ref_closed_laws(1) ref_u32_le_law ref_closed_laws(2) _ a] ctr req(2) by simp blast
  then have "get_sign_counter ref_closed t' = 42 \<and> take 5 (res_APDU t') = [1, 0, 0, 0, 41]" by auto
  then show ?thesis using a by blast
qed

end
