(* ===== verification/Ctap.thy ===== *)
theory Ctap
  imports Credential_Store Management
begin

text \<open>
  What the FIDO2 commands behind the client PIN share (\<open>src/fido/cbor.c\<close>, \<open>ctap2_cbor.h\<close>): the
  globals of their files, arrays in requests, descriptors of credentials, public keys in COSE
  form, and the output of the \<open>hmac-secret\<close> extensions. A response is encoded in one step, where
  the code finishes it.
\<close>

abbreviation (input) CTAP1_ERR_INVALID_CMD :: ctap_error where "CTAP1_ERR_INVALID_CMD \<equiv> CTAP 0x01"
abbreviation (input) CTAP1_ERR_INVALID_LEN :: ctap_error where "CTAP1_ERR_INVALID_LEN \<equiv> CTAP 0x03"
abbreviation (input) CTAP1_ERR_INVALID_SEQ :: ctap_error where "CTAP1_ERR_INVALID_SEQ \<equiv> CTAP 0x04"
abbreviation (input) CTAP2_ERR_LIMIT_EXCEEDED :: ctap_error where "CTAP2_ERR_LIMIT_EXCEEDED \<equiv> CTAP 0x15"
abbreviation (input) CTAP2_ERR_LARGE_BLOB_STORAGE_FULL :: ctap_error where "CTAP2_ERR_LARGE_BLOB_STORAGE_FULL \<equiv> CTAP 0x18"
abbreviation (input) CTAP2_ERR_CREDENTIAL_EXCLUDED :: ctap_error where "CTAP2_ERR_CREDENTIAL_EXCLUDED \<equiv> CTAP 0x19"
abbreviation (input) CTAP2_ERR_UNSUPPORTED_ALG :: ctap_error where "CTAP2_ERR_UNSUPPORTED_ALG \<equiv> CTAP 0x26"
abbreviation (input) CTAP2_ERR_OPERATION_DENIED :: ctap_error where "CTAP2_ERR_OPERATION_DENIED \<equiv> CTAP 0x27"
abbreviation (input) CTAP2_ERR_KEY_STORE_FULL :: ctap_error where "CTAP2_ERR_KEY_STORE_FULL \<equiv> CTAP 0x28"
abbreviation (input) CTAP2_ERR_INVALID_OPTION :: ctap_error where "CTAP2_ERR_INVALID_OPTION \<equiv> CTAP 0x2C"
abbreviation (input) CTAP2_ERR_USER_ACTION_TIMEOUT :: ctap_error where "CTAP2_ERR_USER_ACTION_TIMEOUT \<equiv> CTAP 0x2F"
abbreviation (input) CTAP2_ERR_PUAT_REQUIRED :: ctap_error where "CTAP2_ERR_PUAT_REQUIRED \<equiv> CTAP 0x36"
abbreviation (input) CTAP2_ERR_INTEGRITY_FAILURE :: ctap_error where "CTAP2_ERR_INTEGRITY_FAILURE \<equiv> CTAP 0x3D"
abbreviation (input) CTAP2_ERR_INVALID_SUBCOMMAND :: ctap_error where "CTAP2_ERR_INVALID_SUBCOMMAND \<equiv> CTAP 0x3E"
abbreviation (input) CTAP2_ERR_EXTENSION_FIRST :: ctap_error where "CTAP2_ERR_EXTENSION_FIRST \<equiv> CTAP 0xE0"

abbreviation (input) FIDO2_AUT_FLAG_UP :: byte where "FIDO2_AUT_FLAG_UP \<equiv> 0x1"
abbreviation (input) FIDO2_AUT_FLAG_UV :: byte where "FIDO2_AUT_FLAG_UV \<equiv> 0x4"
abbreviation (input) FIDO2_AUT_FLAG_AT :: byte where "FIDO2_AUT_FLAG_AT \<equiv> 0x40"
abbreviation (input) FIDO2_AUT_FLAG_ED :: byte where "FIDO2_AUT_FLAG_ED \<equiv> 0x80"
abbreviation (input) FIDO2_OPT_EA :: byte where "FIDO2_OPT_EA \<equiv> 0x01"
abbreviation (input) FIDO2_OPT_AUV :: byte where "FIDO2_OPT_AUV \<equiv> 0x02"
abbreviation (input) FIDO2_OPT_NORK :: byte where "FIDO2_OPT_NORK \<equiv> 0x04"
abbreviation (input) FIDO2_OPT_MCUV_NOTRQD :: byte where "FIDO2_OPT_MCUV_NOTRQD \<equiv> 0x08"
abbreviation (input) CRED_PROT_UV_OPTIONAL :: u64 where "CRED_PROT_UV_OPTIONAL \<equiv> 0x01"
abbreviation (input) CRED_PROT_UV_OPTIONAL_WITH_LIST :: u64 where "CRED_PROT_UV_OPTIONAL_WITH_LIST \<equiv> 0x02"
abbreviation (input) CRED_PROT_UV_REQUIRED :: u64 where "CRED_PROT_UV_REQUIRED \<equiv> 0x03"
abbreviation (input) MAX_CREDENTIAL_COUNT_IN_LIST :: nat where "MAX_CREDENTIAL_COUNT_IN_LIST \<equiv> 16"
abbreviation (input) MAX_LARGE_BLOB_SIZE :: nat where "MAX_LARGE_BLOB_SIZE \<equiv> 2048"
abbreviation (input) MAX_FRAGMENT_LENGTH :: nat where "MAX_FRAGMENT_LENGTH \<equiv> 960"
abbreviation (input) MAX_RPIDS_MINPIN_LENGTH :: nat where "MAX_RPIDS_MINPIN_LENGTH \<equiv> 120"
abbreviation (input) EF_EE_DEV_EA :: fid where "EF_EE_DEV_EA \<equiv> 0xCE01"

definition aaguid :: bytes where
  "aaguid = [0x89, 0xFB, 0x94, 0xB7, 0x06, 0xC9, 0x36, 0x73, 0x9B, 0x7E, 0x30, 0x52, 0x6D, 0x96, 0x81, 0x45]"

text \<open>
  The globals of the command files: the secure channel of \<open>cbor_vendor.c\<close>, the enumerations of
  \<open>cbor_cred_mgmt.c\<close>, the transfer of \<open>cbor_large_blobs.c\<close> and the pending assertions of
  \<open>cbor_get_assertion.c\<close>. \<open>datax\<close> with its length is the request the assertions answer.
\<close>

record ctap = device +
  mse_Qpt :: bytes
  mse_key_enc :: bytes
  mse_init :: bool
  rp_counter :: u16
  rp_total :: u16
  cred_counter :: u16
  cred_total :: u16
  rpIdHashx :: "bytes option"
  expectedLength :: u64
  expectedNextOffset :: u64
  temp_lba :: bytes
  residentx :: bool
  credsx :: "credential list"
  credentialCounter :: byte
  numberOfCredentialsx :: byte
  flagsx :: byte
  timerx :: u32
  datax :: bytes

subsection \<open>Arrays and descriptors\<close>

definition field_array :: "('s \<Rightarrow> cbor list \<Rightarrow> ctap_error + 's \<times> cbor list) \<Rightarrow> 's \<Rightarrow> cbor list \<Rightarrow> ctap_error + 's \<times> cbor list" where
  "field_array body st xs =
     (case xs of
        CArray (CBad e # _) # _ \<Rightarrow> Inl (CborError e)
      | CArray ys # _ \<Rightarrow>
          (case cbor_items body (length ys) st ys of
             Inl e \<Rightarrow> Inl e
           | Inr st \<Rightarrow> map_sum id (Pair st) (cbor_advance xs))
      | _ \<Rightarrow> Inl CborErrorImproperValue)"

record descriptor =
  desc_type :: "bytes option"
  desc_id :: "bytes option"
  desc_transports :: "bytes list"

definition descriptor_zero :: descriptor where
  "descriptor_zero = \<lparr>desc_type = None, desc_id = None, desc_transports = []\<rparr>"

definition transport_item :: "bytes list \<Rightarrow> cbor list \<Rightarrow> ctap_error + bytes list \<times> cbor list" where
  "transport_item ts xs =
     (if length ts \<ge> 8 then Inl CTAP2_ERR_LIMIT_EXCEEDED else set_field (\<lambda>d. ts @ [d]) (field_text xs))"

text \<open>The value of a key that is not known is not skipped.\<close>

definition descriptor_field :: "descriptor \<Rightarrow> cbor list \<Rightarrow> ctap_error + descriptor \<times> cbor list" where
  "descriptor_field pc xs =
     (case field_key_text xs of
        Inl e \<Rightarrow> Inl e
      | Inr (key, xs) \<Rightarrow>
          if key = ascii ''id'' then set_field (\<lambda>d. pc\<lparr>desc_id := Some d\<rparr>) (field_bytes xs)
          else if key = ascii ''type'' then set_field (\<lambda>d. pc\<lparr>desc_type := Some d\<rparr>) (field_text xs)
          else if key = ascii ''transports''
          then set_field (\<lambda>ts. pc\<lparr>desc_transports := ts\<rparr>) (field_array transport_item (desc_transports pc) xs)
          else Inr (pc, xs))"

definition descriptor_item :: "descriptor list \<Rightarrow> cbor list \<Rightarrow> ctap_error + descriptor list \<times> cbor list" where
  "descriptor_item pcs xs =
     (if length pcs \<ge> MAX_CREDENTIAL_COUNT_IN_LIST then Inl CTAP2_ERR_LIMIT_EXCEEDED
      else set_field (\<lambda>pc. pcs @ [pc]) (field_map descriptor_field descriptor_zero xs))"

text \<open>A C string compared with a literal.\<close>

abbreviation (input) is_text :: "bytes \<Rightarrow> string \<Rightarrow> bool" where
  "is_text d x \<equiv> stringz d = ascii x"

text \<open>The options of the two commands.\<close>

definition request_option :: "cred_options \<Rightarrow> cbor list \<Rightarrow> ctap_error + cred_options \<times> cbor list" where
  "request_option opts xs =
     (case field_key_text xs of
        Inl e \<Rightarrow> Inl e
      | Inr (key, xs) \<Rightarrow>
          if key = ascii ''rk'' then set_field (\<lambda>b. opts\<lparr>opt_rk := Some b\<rparr>) (field_bool xs)
          else if key = ascii ''up'' then set_field (\<lambda>b. opts\<lparr>opt_up := Some b\<rparr>) (field_bool xs)
          else if key = ascii ''uv'' then set_field (\<lambda>b. opts\<lparr>opt_uv := Some b\<rparr>) (field_bool xs)
          else map_sum id (Pair opts) (cbor_advance xs))"

subsection \<open>Public keys\<close>

text \<open>The algorithm a curve goes with, negated; zero for the curves the function does not list.\<close>

definition cose_nalg :: "bool \<Rightarrow> curve \<Rightarrow> u64" where
  "cose_nalg eddsa grp =
     (if grp = MBEDTLS_ECP_DP_SECP256R1 then 7
      else if grp = MBEDTLS_ECP_DP_SECP384R1 then 35
      else if grp = MBEDTLS_ECP_DP_SECP521R1 then 36
      else if grp = MBEDTLS_ECP_DP_SECP256K1 then 47
      else if grp = MBEDTLS_ECP_DP_CURVE25519 then 25
      else if eddsa \<and> grp = MBEDTLS_ECP_DP_ED25519 then 8
      else if eddsa \<and> grp = MBEDTLS_ECP_DP_ED448 then 53
      else 0)"

text \<open>The size of the prime of the curve is that of its bits.\<close>

definition COSE_key :: "sdk \<Rightarrow> bool \<Rightarrow> keypair \<Rightarrow> ctap_error + cbor" where
  "COSE_key k eddsa key =
     COSE_key_params k (word_of_int (mbedtls_curve_to_fido eddsa (kp_grp key))) (cose_nalg eddsa (kp_grp key))
       (case sdk_curve_bits k (kp_grp key) of Some n \<Rightarrow> (n + 7) div 8 | None \<Rightarrow> 0) (kp_Q key)"

definition COSE_public_key :: "u64 \<Rightarrow> cbor" where
  "COSE_public_key nalg =
     CMap [CText (ascii ''alg''), CNInt (nalg - 1), CText (ascii ''type''), CText (ascii ''public-key'')]"

definition cbor_int64 :: "u64 \<Rightarrow> cbor" where
  "cbor_int64 v = (if v \<ge> 0x8000000000000000 then CNInt (- v - 1) else CUInt v)"

text \<open>A stored public key is parsed and written again.\<close>

definition COSE_cached_key :: "sdk \<Rightarrow> bytes \<Rightarrow> ctap_error + cbor" where
  "COSE_cached_key k d =
     (if d = [] then Inl (CborError 260)
      else case sdk_cbor_dec k d of
        Inl e \<Rightarrow> Inl (CborError e)
      | Inr v \<Rightarrow>
          (case COSE_read_key cose_empty [v] of
             Inl e \<Rightarrow> Inl e
           | Inr (q, _) \<Rightarrow>
               (case cose_kax q of
                  None \<Rightarrow> Inl CborErrorImproperValue
                | Some x \<Rightarrow>
                    if x = [] then Inl CborErrorImproperValue
                    else Inr (CMap ([cbor_int64 1, cbor_int64 (cose_kty q), cbor_int64 3, cbor_int64 (cose_alg q),
                                     cbor_int64 (- 1), cbor_int64 (cose_crv q), cbor_int64 (- 2), CBytes x] @
                                    (case cose_kay q of Some y \<Rightarrow> [cbor_int64 (- 3), CBytes y] | None \<Rightarrow> []))))))"

subsection \<open>The hmac-secret extensions\<close>

record hmac_req =
  hm_cose :: cose_key
  salt_enc :: "bytes option"
  salt_auth :: "bytes option"
  hm_protocol :: u64

definition hmac_init :: hmac_req where
  "hmac_init = \<lparr>hm_cose = cose_empty\<lparr>cose_kty := 2\<rparr>, salt_enc = None, salt_auth = None, hm_protocol = 1\<rparr>"

definition hmac_field :: "hmac_req \<Rightarrow> cbor list \<Rightarrow> ctap_error + hmac_req \<times> cbor list" where
  "hmac_field h xs =
     (case field_uint xs of
        Inl e \<Rightarrow> Inl e
      | Inr (ukey, xs) \<Rightarrow>
          if ukey = 0x01 then set_field (\<lambda>q. h\<lparr>hm_cose := q\<rparr>) (COSE_read_key (hm_cose h) xs)
          else if ukey = 0x02 then set_field (\<lambda>d. h\<lparr>salt_enc := Some d\<rparr>) (field_bytes xs)
          else if ukey = 0x03 then set_field (\<lambda>d. h\<lparr>salt_auth := Some d\<rparr>) (field_bytes xs)
          else if ukey = 0x04 then set_field (\<lambda>v. h\<lparr>hm_protocol := v\<rparr>) (field_uint xs)
          else map_sum id (Pair h) (cbor_advance xs))"

text \<open>The length of the encrypted salts, with the initialisation vector of the second protocol.\<close>

definition salt_len_ok :: "hmac_req \<Rightarrow> bool" where
  "salt_len_ok h \<longleftrightarrow>
     (let n = word_of_nat (length (case salt_enc h of Some d \<Rightarrow> d | None \<Rightarrow> [])) :: u64
      in n = 32 + (hm_protocol h - 1) * 16 \<or> n = 64 + (hm_protocol h - 1) * 16)"

text \<open>
  The secret of the credential is one of two, depending on whether the user was verified. The
  buffers have room for two salts; what the code writes behind them is not modelled.
\<close>

definition hmac_secret_output ::
    "sdk \<Rightarrow> hmac_req \<Rightarrow> bool \<Rightarrow> bytes \<Rightarrow> 'a fido_scheme \<Rightarrow> (ctap_error + bytes) \<times> 'a fido_scheme" where
  "hmac_secret_output k h uv key_seed s =
     (let bytes_of = (\<lambda>v. case v of Some d \<Rightarrow> d | None \<Rightarrow> []);
          kax = bytes_of (cose_kax (hm_cose h)); kay = bytes_of (cose_kay (hm_cose h));
          salt = bytes_of (salt_enc h); proto = ucast (hm_protocol h) :: byte;
          n = tick s; s = s\<lparr>tick := Suc (Suc n)\<rparr>
      in if sdk_mpi_read k n kax \<noteq> 0 \<or> sdk_mpi_read k (Suc n) kay \<noteq> 0 then (Inl CTAP1_ERR_INVALID_PARAMETER, s)
      else let ((ret, sharedSecret), s) = ecdh k proto (kax, kay) s
      in if ret \<noteq> 0 then (Inl CTAP1_ERR_INVALID_PARAMETER, s)
      else if \<not> verify k proto sharedSecret (take (length salt mod 65536) salt) (bytes_of (salt_auth h))
      then (Inl CTAP2_ERR_EXTENSION_FIRST, s)
      else let poff = (proto - 1) * 16;
               (ret, plain) = decrypt k proto sharedSecret (take (length salt mod 65536) salt);
               salt_dec = fit 64 plain
      in if ret \<noteq> PICOKEYS_OK then (Inl CTAP1_ERR_INVALID_PARAMETER, s)
      else let (ret, cred_random, s) = credential_derive_hmac_key k key_seed s
      in if ret \<noteq> PICOKEYS_OK then (Inl CTAP1_ERR_INVALID_PARAMETER, s)
      else let crd = take 32 (if uv then drop 32 cred_random else cred_random);
               out1 = fit 32 (snd (sdk_hmac k MD_SHA256 crd (take 32 salt_dec))) @
                 (if unat (word_of_nat (length salt) :: byte) = 64 + unat poff
                  then fit 32 (snd (sdk_hmac k MD_SHA256 crd (drop 32 salt_dec))) else replicate 32 0);
               ((_, res), s) = encrypt k proto sharedSecret (fit ((length salt - unat poff) mod 65536) out1) s
           in (Inr (fit (length salt) res), s))"

subsection \<open>The parameter of the token\<close>

text \<open>
  An empty parameter asks which authenticator the user means: it waits for the user and answers
  with an error. The protocol of the others must be one of the two.
\<close>

definition pin_param_check ::
    "sdk \<Rightarrow> bytes option \<Rightarrow> u64 \<Rightarrow> 'a plat_scheme \<Rightarrow> ctap_error option \<times> 'a plat_scheme" where
  "pin_param_check k param protocol s =
     (case param of
        None \<Rightarrow> (None, s)
      | Some d \<Rightarrow>
          if d = []
          then let (present, s) = check_user_presence k s
               in if \<not> present then (Some CTAP2_ERR_OPERATION_DENIED, s)
                  else (Some (if file_has_data s (file_search s EF_PIN) then CTAP2_ERR_PIN_AUTH_INVALID
                              else CTAP2_ERR_PIN_NOT_SET), s)
          else if protocol = 0 then (Some CTAP2_ERR_MISSING_PARAMETER, s)
          else if protocol \<noteq> 1 \<and> protocol \<noteq> 2 then (Some CTAP1_ERR_INVALID_PARAMETER, s)
          else (None, s))"

text \<open>A token without a relying party is bound to the first it is used for.\<close>

definition bind_token :: "bytes \<Rightarrow> 'a fido_scheme \<Rightarrow> 'a fido_scheme" where
  "bind_token rp s =
     (if has_rp_id (paut s) then s else s\<lparr>paut := (paut s)\<lparr>rp_id_hash := rp, has_rp_id := True\<rparr>\<rparr>)"

end
