(* ===== verification/Make_Credential.thy ===== *)
theory Make_Credential
  imports Ctap Known_Apps
begin

text \<open>
  Making a credential (\<open>src/fido/cbor_make_credential.c\<close>): the request, the choice of the
  algorithm, the checks in the order of the code, the excluded credentials, the extensions, the
  authenticator data with its signature, and the storing of a resident credential.
\<close>

definition minpin_contains_rp :: "bytes \<Rightarrow> 'a plat_scheme \<Rightarrow> bool" where
  "minpin_contains_rp rp s =
     (let d = file_get_data s (file_search s EF_MINPINLEN)
      in length d \<ge> 2 + 32 \<and>
         list_ex (\<lambda>i. take 32 (drop (2 + i * 32) d) = take 32 rp) [0..<(length d - 2) div 32])"

subsection \<open>The request\<close>

record mc_req =
  mc_clientDataHash :: "bytes option"
  mc_rp_id :: "bytes option"
  mc_rp_name :: "bytes option"
  mc_user_id :: "bytes option"
  mc_user_name :: "bytes option"
  mc_user_display :: "bytes option"
  mc_params :: "(bytes option \<times> u64) list"
  mc_exclude :: "descriptor list"
  mc_options :: cred_options
  mc_ext :: cred_extensions
  mc_hmac :: hmac_req
  hmac_secret_mc :: bool
  has_credprot :: bool
  pin_complexity_policy :: "bool option"
  mc_uvm :: "bool option"
  mc_pinUvAuthParam :: "bytes option"
  mc_protocol :: u64
  enterpriseAttestation :: u64
  mc_val_c :: u64

definition mc_init :: mc_req where
  "mc_init =
     \<lparr>mc_clientDataHash = None, mc_rp_id = None, mc_rp_name = None, mc_user_id = None, mc_user_name = None,
      mc_user_display = None, mc_params = [], mc_exclude = [],
      mc_options = (cred_opts credential_zero)\<lparr>opt_uv := Some False\<rparr>, mc_ext = cred_ext credential_zero,
      mc_hmac = hmac_init, hmac_secret_mc = False, has_credprot = False, pin_complexity_policy = None,
      mc_uvm = None, mc_pinUvAuthParam = None, mc_protocol = 0, enterpriseAttestation = 0, mc_val_c = 1\<rparr>"

text \<open>The value of a key of the relying party that is not known is not skipped.\<close>

definition mc_rp_field :: "mc_req \<Rightarrow> cbor list \<Rightarrow> ctap_error + mc_req \<times> cbor list" where
  "mc_rp_field r xs =
     (case field_key_text xs of
        Inl e \<Rightarrow> Inl e
      | Inr (key, xs) \<Rightarrow>
          if key = ascii ''id'' then set_field (\<lambda>d. r\<lparr>mc_rp_id := Some d\<rparr>) (field_text xs)
          else if key = ascii ''name'' then set_field (\<lambda>d. r\<lparr>mc_rp_name := Some d\<rparr>) (field_text xs)
          else Inr (r, xs))"

definition mc_user_field :: "mc_req \<Rightarrow> cbor list \<Rightarrow> ctap_error + mc_req \<times> cbor list" where
  "mc_user_field r xs =
     (case field_key_text xs of
        Inl e \<Rightarrow> Inl e
      | Inr (key, xs) \<Rightarrow>
          if key = ascii ''id'' then set_field (\<lambda>d. r\<lparr>mc_user_id := Some d\<rparr>) (field_bytes xs)
          else if key = ascii ''name'' then set_field (\<lambda>d. r\<lparr>mc_user_name := Some d\<rparr>) (field_text xs)
          else if key = ascii ''displayName'' then set_field (\<lambda>d. r\<lparr>mc_user_display := Some d\<rparr>) (field_text xs)
          else map_sum id (Pair r) (cbor_advance xs))"

definition mc_param_field :: "bytes option \<times> u64 \<Rightarrow> cbor list \<Rightarrow> ctap_error + (bytes option \<times> u64) \<times> cbor list" where
  "mc_param_field pk xs =
     (case field_key_text xs of
        Inl e \<Rightarrow> Inl e
      | Inr (key, xs) \<Rightarrow>
          if key = ascii ''type'' then set_field (\<lambda>d. (Some d, snd pk)) (field_text xs)
          else if key = ascii ''alg'' then set_field (\<lambda>v. (fst pk, v)) (field_int xs)
          else Inr (pk, xs))"

definition mc_param_item :: "(bytes option \<times> u64) list \<Rightarrow> cbor list \<Rightarrow> ctap_error + (bytes option \<times> u64) list \<times> cbor list" where
  "mc_param_item pks xs =
     (if length pks \<ge> MAX_CREDENTIAL_COUNT_IN_LIST then Inl CTAP2_ERR_LIMIT_EXCEEDED
      else set_field (\<lambda>pk. pks @ [pk]) (field_map mc_param_field (None, 0) xs))"

definition mc_ext_field :: "mc_req \<Rightarrow> cbor list \<Rightarrow> ctap_error + mc_req \<times> cbor list" where
  "mc_ext_field r xs =
     (case field_key_text xs of
        Inl e \<Rightarrow> Inl e
      | Inr (key, xs) \<Rightarrow>
          let e = mc_ext r
          in if key = ascii ''hmac-secret-mc''
             then set_field (\<lambda>h. r\<lparr>mc_hmac := h, hmac_secret_mc := True\<rparr>) (field_map hmac_field (mc_hmac r) xs)
             else if key = ascii ''hmac-secret'' then set_field (\<lambda>b. r\<lparr>mc_ext := e\<lparr>hmac_secret := Some b\<rparr>\<rparr>) (field_bool xs)
             else if key = ascii ''credProtect''
             then set_field (\<lambda>v. r\<lparr>mc_ext := e\<lparr>credProtect := v\<rparr>, has_credprot := True\<rparr>) (field_uint xs)
             else if key = ascii ''minPinLength'' then set_field (\<lambda>b. r\<lparr>mc_ext := e\<lparr>minPinLength := Some b\<rparr>\<rparr>) (field_bool xs)
             else if key = ascii ''credBlob'' then set_field (\<lambda>d. r\<lparr>mc_ext := e\<lparr>credBlob := Some d\<rparr>\<rparr>) (field_bytes xs)
             else if key = ascii ''largeBlobKey'' then set_field (\<lambda>b. r\<lparr>mc_ext := e\<lparr>largeBlobKey := Some b\<rparr>\<rparr>) (field_bool xs)
             else if key = ascii ''thirdPartyPayment''
             then set_field (\<lambda>b. r\<lparr>mc_ext := e\<lparr>thirdPartyPayment := Some b\<rparr>\<rparr>) (field_bool xs)
             else if key = ascii ''pinComplexityPolicy'' then set_field (\<lambda>b. r\<lparr>pin_complexity_policy := Some b\<rparr>) (field_bool xs)
             else if key = ascii ''uvm'' then set_field (\<lambda>b. r\<lparr>mc_uvm := Some b\<rparr>) (field_bool xs)
             else map_sum id (Pair r) (cbor_advance xs))"

definition mc_field :: "mc_req \<Rightarrow> cbor list \<Rightarrow> ctap_error + mc_req \<times> cbor list" where
  "mc_field r xs =
     (case field_uint xs of
        Inl e \<Rightarrow> Inl e
      | Inr (val_u, xs) \<Rightarrow>
          if mc_val_c r \<le> 4 \<and> mc_val_c r \<noteq> val_u then Inl CTAP2_ERR_MISSING_PARAMETER
          else if val_u < mc_val_c r then Inl CTAP2_ERR_INVALID_CBOR
          else let r = r\<lparr>mc_val_c := val_u + 1\<rparr>
               in if val_u = 0x01 then set_field (\<lambda>d. r\<lparr>mc_clientDataHash := Some d\<rparr>) (field_bytes xs)
                  else if val_u = 0x02 then field_map mc_rp_field r xs
                  else if val_u = 0x03 then field_map mc_user_field r xs
                  else if val_u = 0x04 then set_field (\<lambda>ps. r\<lparr>mc_params := ps\<rparr>) (field_array mc_param_item (mc_params r) xs)
                  else if val_u = 0x05 then set_field (\<lambda>ps. r\<lparr>mc_exclude := ps\<rparr>) (field_array descriptor_item (mc_exclude r) xs)
                  else if val_u = 0x06 then field_map mc_ext_field (r\<lparr>mc_ext := (mc_ext r)\<lparr>ext_present := True\<rparr>\<rparr>) xs
                  else if val_u = 0x07
                  then set_field (\<lambda>opts. r\<lparr>mc_options := opts\<rparr>) (field_map request_option ((mc_options r)\<lparr>opt_present := True\<rparr>) xs)
                  else if val_u = 0x08 then set_field (\<lambda>d. r\<lparr>mc_pinUvAuthParam := Some d\<rparr>) (field_bytes xs)
                  else if val_u = 0x09 then set_field (\<lambda>v. r\<lparr>mc_protocol := v\<rparr>) (field_uint xs)
                  else if val_u = 0x0A then set_field (\<lambda>v. r\<lparr>enterpriseAttestation := v\<rparr>) (field_uint xs)
                  else Inr (r, xs))"

subsection \<open>The checks\<close>

definition mc_hmac_check :: "mc_req \<Rightarrow> ctap_error option" where
  "mc_hmac_check r =
     (let h = mc_hmac r; q = hm_cose h
      in if \<not> hmac_secret_mc r then None
         else if hmac_secret (mc_ext r) \<noteq> Some True then Some CTAP2_ERR_MISSING_PARAMETER
         else if cose_kax q = None \<or> cose_kay q = None \<or> cose_crv q = 0 \<or> cose_alg q = 0 \<or>
                 salt_enc h = None \<or> salt_enc h = Some [] \<or> salt_auth h = None \<or> salt_auth h = Some []
         then Some CTAP2_ERR_MISSING_PARAMETER
         else if \<not> salt_len_ok h then Some CTAP1_ERR_INVALID_PARAMETER else None)"

text \<open>The curve for an algorithm the authenticator has.\<close>

definition alg_curve :: "sdk \<Rightarrow> bool \<Rightarrow> u64 \<Rightarrow> int option" where
  "alg_curve k eddsa a =
     (if a = - 7 \<or> a = - 9 then Some 1
      else if a = - 35 \<or> a = - 51 then Some 2
      else if a = - 36 \<or> a = - 52 then Some 3
      else if a = - 265 then Some 9
      else if a = - 267 then Some 10
      else if a = - 268 then Some 11
      else if a = - 47 \<and> sdk_enabled_k1 k then Some 8
      else if eddsa \<and> (a = - 8 \<or> a = - 19) then Some 6
      else if eddsa \<and> a = - 53 then Some 7
      else None)"

text \<open>The first parameter of a known algorithm is chosen; all of them are checked.\<close>

fun mc_choose :: "sdk \<Rightarrow> bool \<Rightarrow> (bytes option \<times> u64) list \<Rightarrow> int \<Rightarrow> int \<Rightarrow> ctap_error + int \<times> int" where
  "mc_choose k eddsa [] crv alg = Inr (crv, alg)"
| "mc_choose k eddsa ((ty, a) # pks) crv alg =
     (case ty of
        None \<Rightarrow> Inl CTAP2_ERR_INVALID_CBOR
      | Some d \<Rightarrow>
          if a = 0 then Inl CTAP2_ERR_INVALID_CBOR
          else if \<not> is_text d ''public-key'' then mc_choose k eddsa pks crv alg
          else let crv = (case alg_curve k eddsa a of Some c \<Rightarrow> if crv \<le> 0 then c else crv | None \<Rightarrow> crv);
                   alg = (if crv > 0 \<and> alg = 0 then sint (ucast a :: u32) else alg)
               in mc_choose k eddsa pks crv alg)"

definition mc_algorithm :: "sdk \<Rightarrow> bool \<Rightarrow> mc_req \<Rightarrow> ctap_error + int \<times> int" where
  "mc_algorithm k eddsa r =
     (if mc_params r = [] then Inl CTAP2_ERR_MISSING_PARAMETER
      else case mc_choose k eddsa (mc_params r) (- 1) 0 of
        Inl e \<Rightarrow> Inl e
      | Inr (crv, alg) \<Rightarrow> if crv \<le> 0 then Inl CTAP2_ERR_UNSUPPORTED_ALG else Inr (crv, alg))"

definition mc_check_options :: "mc_req \<Rightarrow> 'a plat_scheme \<Rightarrow> ctap_error + cred_options" where
  "mc_check_options r s =
     (let opts = mc_options r
      in if \<not> opt_present opts then Inr opts
         else if opt_uv opts = Some True then Inl CTAP2_ERR_INVALID_OPTION
         else if opt_rk opts \<noteq> None \<and> get_opts s AND FIDO2_OPT_NORK \<noteq> 0 then Inl CTAP2_ERR_UNSUPPORTED_OPTION
         else if opt_up opts = Some False then Inl CTAP2_ERR_INVALID_OPTION
         else Inr (if opt_rk opts = None then opts\<lparr>opt_rk := Some False\<rparr> else opts))"

text \<open>Whether the request has to come with a token, by the options of the authenticator.\<close>

definition mc_needs_token :: "mc_req \<Rightarrow> cred_options \<Rightarrow> 'a plat_scheme \<Rightarrow> bool" where
  "mc_needs_token r opts s =
     (let has_pin = file_has_data s (file_search s EF_PIN); no_param = (mc_pinUvAuthParam r = None)
      in if get_opts s AND FIDO2_OPT_AUV \<noteq> 0
         then \<not> has_pin \<or> (no_param \<and> opt_uv opts \<noteq> Some True)
         else if get_opts s AND FIDO2_OPT_MCUV_NOTRQD \<noteq> 0
         then has_pin \<and> opt_uv opts = Some False \<and> no_param \<and> opt_rk opts = Some True
         else has_pin \<and> no_param \<and> opt_uv opts = Some False)"

definition mc_check_rest :: "mc_req \<Rightarrow> cred_options \<Rightarrow> 'a plat_scheme \<Rightarrow> ctap_error option" where
  "mc_check_rest r opts s =
     (let cp = credProtect (mc_ext r); ep = enterpriseAttestation r
      in if mc_needs_token r opts s then Some CTAP2_ERR_PUAT_REQUIRED
         else if has_credprot r \<and> (cp < CRED_PROT_UV_OPTIONAL \<or> cp > CRED_PROT_UV_REQUIRED)
         then Some CTAP2_ERR_INVALID_OPTION
         else if ep > 0 \<and> (get_opts s AND FIDO2_OPT_EA = 0 \<or> \<not> file_has_data s (file_search s EF_EE_DEV_EA))
         then Some CTAP1_ERR_INVALID_PARAMETER
         else if ep > 0 \<and> ep \<noteq> 1 \<and> ep \<noteq> 2 then Some CTAP2_ERR_INVALID_OPTION
         else None)"

text \<open>
  The token, when there is one, must verify the request, carry the permission, be bound to no
  other relying party and stand for a verified user. The result are the flags it gives.
\<close>

definition mc_authorize ::
    "sdk \<Rightarrow> mc_req \<Rightarrow> cred_options \<Rightarrow> bytes \<Rightarrow> 'a fido_scheme \<Rightarrow> (ctap_error + byte) \<times> 'a fido_scheme" where
  "mc_authorize k r opts rp s =
     (if get_opts s AND FIDO2_OPT_MCUV_NOTRQD \<noteq> 0 \<and> opt_rk opts \<noteq> Some True \<and> opt_uv opts \<noteq> Some True \<and>
         mc_pinUvAuthParam r = None
      then (Inr FIDO2_AUT_FLAG_AT, s)
      else case mc_pinUvAuthParam r of
        None \<Rightarrow> (Inr FIDO2_AUT_FLAG_AT, s)
      | Some param \<Rightarrow>
          let cdh = (case mc_clientDataHash r of Some d \<Rightarrow> d | None \<Rightarrow> [])
          in if \<not> verify k (ucast (mc_protocol r)) (paut_data (paut s)) (take (length cdh mod 65536) cdh) param
             then (Inl CTAP2_ERR_PIN_AUTH_INVALID, s)
             else if permissions (paut s) AND CTAP_PERMISSION_MC = 0 then (Inl CTAP2_ERR_PIN_AUTH_INVALID, s)
             else if has_rp_id (paut s) \<and> rp_id_hash (paut s) \<noteq> rp then (Inl CTAP2_ERR_PIN_AUTH_INVALID, s)
             else let (uv, s) = getUserVerifiedFlagValue s
                  in if \<not> uv then (Inl CTAP2_ERR_PIN_AUTH_INVALID, s)
                     else (Inr (FIDO2_AUT_FLAG_AT OR FIDO2_AUT_FLAG_UV), bind_token rp s))"

subsection \<open>Excluded credentials\<close>

text \<open>A credential that asks for verification stays hidden from a user who is not verified.\<close>

definition cred_visible :: "bool \<Rightarrow> credential \<Rightarrow> bool" where
  "cred_visible uv c \<longleftrightarrow> credProtect (cred_ext c) \<noteq> CRED_PROT_UV_REQUIRED \<or> uv"

fun resident_excluded ::
    "sdk \<Rightarrow> objs \<Rightarrow> bytes \<Rightarrow> bytes \<Rightarrow> bool \<Rightarrow> nat list \<Rightarrow> 'a device_scheme \<Rightarrow> bool \<times> 'a device_scheme" where
  "resident_excluded k ob cid rp uv [] s = (False, s)"
| "resident_excluded k ob cid rp uv (i # is) s =
     (let ef = file_search s (EF_CRED + word_of_nat i)
      in if \<not> file_has_data s ef then resident_excluded k ob cid rp uv is s
         else let (same, s) = credential_resident_matches_rp k ob ef rp s
         in if \<not> same then resident_excluded k ob cid rp uv is s
         else let (found, s) = credential_resident_matches_id k ob ef cid s
         in if \<not> found then resident_excluded k ob cid rp uv is s
         else case credential_load_resident k ob ef rp s of
                (Inl e, s) \<Rightarrow> resident_excluded k ob cid rp uv is s
              | (Inr c, s) \<Rightarrow> if cred_visible uv c then (True, s) else resident_excluded k ob cid rp uv is s)"

fun mc_check_exclude ::
    "sdk \<Rightarrow> objs \<Rightarrow> bytes \<Rightarrow> bool \<Rightarrow> descriptor list \<Rightarrow> 'a device_scheme \<Rightarrow> ctap_error option \<times> 'a device_scheme" where
  "mc_check_exclude k ob rp uv [] s = (None, s)"
| "mc_check_exclude k ob rp uv (pc # pcs) s =
     (case (desc_type pc, desc_id pc) of
        (Some ty, Some cid) \<Rightarrow>
          if \<not> is_text ty ''public-key'' then mc_check_exclude k ob rp uv pcs s
          else if credential_is_resident cid
          then let (hit, s) = resident_excluded k ob cid rp uv [0..<MAX_RESIDENT_CREDENTIALS] s
               in if hit then (Some CTAP2_ERR_CREDENTIAL_EXCLUDED, s) else mc_check_exclude k ob rp uv pcs s
          else (case credential_load k cid rp s of
                  (Inl e, s) \<Rightarrow> mc_check_exclude k ob rp uv pcs s
                | (Inr c, s) \<Rightarrow>
                    if cred_visible uv c then (Some CTAP2_ERR_CREDENTIAL_EXCLUDED, s)
                    else mc_check_exclude k ob rp uv pcs s)
      | _ \<Rightarrow> (Some CTAP2_ERR_MISSING_PARAMETER, s))"

subsection \<open>User presence\<close>

text \<open>
  The button is asked for only when the request has a token; the flag is set in any case. The
  token loses its flags and permissions only when the request has the option.
\<close>

definition mc_presence :: "sdk \<Rightarrow> mc_req \<Rightarrow> cred_options \<Rightarrow> byte \<Rightarrow> 'a fido_scheme \<Rightarrow> (ctap_error + byte) \<times> 'a fido_scheme" where
  "mc_presence k r opts fl s =
     (if opt_up opts = Some False then (Inr fl, s)
      else let (ok, s) = (if mc_pinUvAuthParam r = None then (True, s)
                          else let (up, s) = getUserPresentFlagValue s
                               in if up then (True, s) else check_user_presence k s)
      in if \<not> ok then (Inl CTAP2_ERR_OPERATION_DENIED, s)
         else (Inr (fl OR FIDO2_AUT_FLAG_UP),
               if opt_up opts = Some True
               then clearPinUvAuthTokenPermissionsExceptLbw (clearUserVerifiedFlag (clearUserPresentFlag s)) else s))"

subsection \<open>The extensions\<close>

text \<open>
  The minimum PIN length is told only to the relying parties the configuration names. Without
  any output there is no map and no flag.
\<close>

definition mc_min_pin_len :: "mc_req \<Rightarrow> bytes \<Rightarrow> 'a plat_scheme \<Rightarrow> byte" where
  "mc_min_pin_len r rp s =
     (let d = file_get_data s (file_search s EF_MINPINLEN)
      in if minPinLength (mc_ext r) = Some True \<and> d \<noteq> [] \<and> d ! 0 > 0 \<and> minpin_contains_rp rp s then d ! 0 else 0)"

definition mc_ext_items ::
    "sdk \<Rightarrow> mc_req \<Rightarrow> byte \<Rightarrow> bytes \<Rightarrow> bytes \<Rightarrow> 'a fido_scheme \<Rightarrow> (ctap_error + cbor list) \<times> 'a fido_scheme" where
  "mc_ext_items k r fl key_seed rp s =
     (let e = mc_ext r; minPinLen = mc_min_pin_len r rp s;
          front =
            (if mc_uvm r = Some True
             then [CText (ascii ''uvm''), CArray [CArray [CUInt 0x800, CUInt 2, CUInt 4]]] else []) @
            (case credBlob e of
               Some d \<Rightarrow> [CText (ascii ''credBlob''), CBool (length d < MAX_CREDBLOB_LENGTH)] | None \<Rightarrow> []) @
            (if credProtect e \<noteq> 0 then [CText (ascii ''credProtect''), CUInt (credProtect e)] else []) @
            (if hmac_secret e = Some True then [CText (ascii ''hmac-secret''), CBool True] else []) @
            (if minPinLen > 0 then [CText (ascii ''minPinLength''), CUInt (ucast minPinLen)] else []) @
            (if thirdPartyPayment e = Some True then [CText (ascii ''thirdPartyPayment''), CBool True] else []);
          back = (\<lambda>s. if pin_complexity_policy r = Some True \<and> minpin_contains_rp rp s
                  then [CText (ascii ''pinComplexityPolicy''), CBool (file_has_data s (file_search s EF_PIN_COMPLEXITY_POLICY))]
                  else [])
      in if hmac_secret_mc r
         then (case hmac_secret_output k (mc_hmac r) (fl AND FIDO2_AUT_FLAG_UV \<noteq> 0) key_seed s of
                 (Inl e, s) \<Rightarrow> (Inl e, s)
               | (Inr res, s) \<Rightarrow> (Inr (front @ [CText (ascii ''hmac-secret-mc''), CBytes res] @ back s), s))
         else (Inr (front @ back s), s))"

definition mc_extensions ::
    "sdk \<Rightarrow> mc_req \<Rightarrow> byte \<Rightarrow> bytes \<Rightarrow> bytes \<Rightarrow> 'a fido_scheme \<Rightarrow> (ctap_error + bytes \<times> byte) \<times> 'a fido_scheme" where
  "mc_extensions k r fl key_seed rp s =
     (if \<not> ext_present (mc_ext r) then (Inr ([], fl), s)
      else case mc_ext_items k r fl key_seed rp s of
        (Inl e, s) \<Rightarrow> (Inl e, s)
      | (Inr items, s) \<Rightarrow>
          if items = [] then (Inr ([], fl), s)
          else (case sdk_cbor_enc_buf k 512 (CMap items) of
                  Inl e \<Rightarrow> (Inl (CborError e), s)
                | Inr ext \<Rightarrow> (Inr (ext, fl OR FIDO2_AUT_FLAG_ED), s)))"

subsection \<open>Signing\<close>

text \<open>The digest a key signs with; \<open>None\<close> for the curves that sign the message itself.\<close>

definition mc_md :: "bool \<Rightarrow> curve \<Rightarrow> md option" where
  "mc_md eddsa grp =
     (if grp = MBEDTLS_ECP_DP_SECP384R1 \<or> grp = MBEDTLS_ECP_DP_BP384R1 then Some MD_SHA384
      else if grp = MBEDTLS_ECP_DP_SECP521R1 \<or> grp = MBEDTLS_ECP_DP_BP512R1 then Some MD_SHA512
      else if eddsa \<and> (grp = MBEDTLS_ECP_DP_ED25519 \<or> grp = MBEDTLS_ECP_DP_ED448) then None
      else Some MD_SHA256)"

definition mc_self_attested :: "mc_req \<Rightarrow> known_app option \<Rightarrow> bool" where
  "mc_self_attested r ka \<longleftrightarrow>
     \<not> (enterpriseAttestation r = 2 \<or> (case ka of Some a \<Rightarrow> app_self_attestation a = Some False | None \<Rightarrow> False))"

text \<open>
  The hash is made with the digest of the credential's key before the key is exchanged for that
  of the device, and what the device key signs are its first 32 bytes. The status of reading the
  device key is overwritten by that of the signature.
\<close>

definition mc_sign ::
    "sdk \<Rightarrow> bool \<Rightarrow> bool \<Rightarrow> keypair \<Rightarrow> bytes \<Rightarrow> 'a fido_scheme \<Rightarrow> (ctap_error + bytes) \<times> 'a fido_scheme" where
  "mc_sign k eddsa self ekey message s =
     (let m = mc_md eddsa (kp_grp ekey);
          hash = (case m of Some md \<Rightarrow> fit 64 (snd (sdk_digest k md message)) | None \<Rightarrow> replicate 64 0);
          (ok, m, ekey, s) =
            (if self then (True, m, ekey, s)
             else let (ret, key, s) = load_keydev k (replicate 32 0) s
                  in if ret \<noteq> PICOKEYS_OK then (False, m, ekey, s)
                     else (True, Some MD_SHA256, snd (sdk_ec_read_key k MBEDTLS_ECP_DP_SECP256R1 keypair_init (take 32 key)), s))
      in if \<not> ok then (Inl CTAP1_ERR_OTHER, s)
         else let (ret, sig) = (case m of
                    Some md \<Rightarrow> sdk_ecdsa_sign k (tick s) ekey (take (sdk_md_size k md) hash)
                  | None \<Rightarrow> sdk_eddsa_sign k (tick s) ekey message);
                  s = s\<lparr>tick := Suc (tick s)\<rparr>
         in if ret \<noteq> 0 then (Inl CTAP2_ERR_PROCESSING, s) else (Inr sig, s))"

text \<open>The authenticator data: hash, flags, counter, the identifier with its length, the public key, the extensions.\<close>

definition mc_auth_data :: "sdk \<Rightarrow> bytes \<Rightarrow> byte \<Rightarrow> u32 \<Rightarrow> bytes \<Rightarrow> bytes \<Rightarrow> bytes \<Rightarrow> bytes" where
  "mc_auth_data k rp fl ctr cid pub ext =
     rp @ [fl] @ sdk_put_u32 k ctr @ aaguid @ sdk_put_u16 k (word_of_nat (length cid)) @ cid @ pub @ ext"

text \<open>The attestation statement, with a certificate when the device attests.\<close>

definition mc_statement :: "sdk \<Rightarrow> mc_req \<Rightarrow> bool \<Rightarrow> int \<Rightarrow> bytes \<Rightarrow> 'a plat_scheme \<Rightarrow> cbor" where
  "mc_statement k r self alg sig s =
     (let nalg = (if self \<or> sdk_is_nk k then word_of_int (- alg) else 7);
          ea = file_search s EF_EE_DEV_EA;
          cert = (if enterpriseAttestation r = 2 \<and> file_has_data s ea then ea else file_search s EF_EE_DEV)
      in CMap ([CText (ascii ''alg''), CNInt (nalg - 1), CText (ascii ''sig''), CBytes sig] @
               (if \<not> self \<or> sdk_is_nk k
                then [CText (ascii ''x5c''), CArray [CBytes (file_get_data s cert)]] else [])))"

definition mc_response ::
    "sdk \<Rightarrow> mc_req \<Rightarrow> bool \<Rightarrow> int \<Rightarrow> bytes \<Rightarrow> bytes \<Rightarrow> bytes option \<Rightarrow> 'a plat_scheme \<Rightarrow> cbor" where
  "mc_response k r self alg aut_data sig large_blob_key s =
     CMap ([CUInt 0x01, CText (ascii ''packed''), CUInt 0x02, CBytes aut_data,
            CUInt 0x03, mc_statement k r self alg sig s] @
           (if enterpriseAttestation r = 2 then [CUInt 0x04, CBool True] else []) @
           (case large_blob_key of Some d \<Rightarrow> [CUInt 0x05, CBytes d] | None \<Rightarrow> []))"

subsection \<open>The command\<close>

text \<open>
  The end of the command: the response is encoded, a resident credential is stored, and the
  signature counter advances. Nothing is stored when the response does not fit.
\<close>

definition mc_finish ::
    "sdk \<Rightarrow> objs \<Rightarrow> bool \<Rightarrow> bytes \<Rightarrow> bytes \<Rightarrow> bytes \<Rightarrow> u32 \<Rightarrow> cbor \<Rightarrow> 'a device_scheme \<Rightarrow> (ctap_error + bytes) \<times> 'a device_scheme" where
  "mc_finish k ob rk cid rp pub ctr resp s =
     (case cbor_emit k resp of
        Inl e \<Rightarrow> (Inl e, s)
      | Inr d \<Rightarrow>
          let (err, s) = (if rk
                          then let (e, s) = credential_store k ob cid rp pub s
                               in if e \<noteq> None then (Some CTAP2_ERR_KEY_STORE_FULL, s)
                                  else let (_, s) = dev_state_update k DEV_STATE_CRED_STATE s in (None, s)
                          else (None, s))
          in case err of
               Some e \<Rightarrow> (Inl e, s)
             | None \<Rightarrow> let (_, s) = file_put_data k (file_search s EF_COUNTER) (mem_u32 (ctr + 1)) s
                       in (Inr d, flash_commit s))"

text \<open>The credential itself, its key, the data that are signed and the signature.\<close>

definition mc_attest ::
    "sdk \<Rightarrow> objs \<Rightarrow> bool \<Rightarrow> mc_req \<Rightarrow> cred_options \<Rightarrow> int \<Rightarrow> int \<Rightarrow> byte \<Rightarrow> bytes \<Rightarrow> bytes \<Rightarrow> 'a device_scheme \<Rightarrow>
     (ctap_error + bytes) \<times> 'a device_scheme" where
  "mc_attest k ob eddsa r opts crv alg fl rp cid s =
     (let ka = find_app_by_rp_id_hash rp; rk = (opt_rk opts = Some True);
          idr = credential_derive_resident k cid; key_seed = (if rk then idr else cid);
          (uv, s) = getUserVerifiedFlagValue s; fl = (if uv then fl OR FIDO2_AUT_FLAG_UV else fl)
      in case mc_extensions k r fl key_seed rp s of
           (Inl e, s) \<Rightarrow> (Inl e, s)
         | (Inr (ext, fl), s) \<Rightarrow>
             let (ret, ekey, s) = fido_load_key k eddsa crv key_seed keypair_init s
             in if ret \<noteq> PICOKEYS_OK \<or> sdk_curve_bits k (kp_grp ekey) = None then (Inl CTAP1_ERR_OTHER, s)
             else let ctr = get_sign_counter k s
             in case COSE_key k eddsa ekey of
                  Inl e \<Rightarrow> (Inl e, s)
                | Inr c \<Rightarrow>
             (case sdk_cbor_enc_buf k 1024 c of
                Inl e \<Rightarrow> (Inl (CborError e), s)
              | Inr pub \<Rightarrow>
             let aut_data = mc_auth_data k rp fl ctr (if rk then idr else cid) pub ext;
                 cdh = (case mc_clientDataHash r of Some d \<Rightarrow> d | None \<Rightarrow> []);
                 self = mc_self_attested r ka
             in case mc_sign k eddsa self ekey (aut_data @ cdh) s of
                  (Inl e, s) \<Rightarrow> (Inl e, s)
                | (Inr sig, s) \<Rightarrow>
             let lbk = (largeBlobKey (mc_ext r) = Some True \<and> rk);
                 (ret, lb, s) = (if lbk then credential_derive_large_blob_key k key_seed s else (PICOKEYS_OK, [], s))
             in if ret \<noteq> PICOKEYS_OK then (Inl CTAP2_ERR_PROCESSING, s)
             else mc_finish k ob rk cid rp pub ctr
                    (mc_response k r self alg aut_data sig (if lbk then Some (fit 32 lb) else None) s) s))"

definition mc_create ::
    "sdk \<Rightarrow> objs \<Rightarrow> bool \<Rightarrow> mc_req \<Rightarrow> cred_options \<Rightarrow> int \<Rightarrow> int \<Rightarrow> byte \<Rightarrow> bytes \<Rightarrow> 'a device_scheme \<Rightarrow>
     (ctap_error + bytes) \<times> 'a device_scheme" where
  "mc_create k ob eddsa r opts crv alg fl rp s =
     (let ka = find_app_by_rp_id_hash rp
      in case credential_create k (mc_rp_id r) (mc_user_id r) (mc_user_name r) (mc_user_display r) opts (mc_ext r)
                (case ka of None \<Rightarrow> True | Some a \<Rightarrow> app_sign_count a = Some True) alg crv (replicate MAX_CRED_ID_LENGTH 0) s of
           (Inl e, s) \<Rightarrow> (Inl e, s)
         | (Inr cid, s) \<Rightarrow> mc_attest k ob eddsa r opts crv alg fl rp cid s)"

text \<open>The checks behind the parsing that change no state but the token's binding.\<close>

definition mc_checked ::
    "sdk \<Rightarrow> bool \<Rightarrow> mc_req \<Rightarrow> bytes \<Rightarrow> 'a fido_scheme \<Rightarrow> (ctap_error + cred_options \<times> int \<times> int \<times> byte) \<times> 'a fido_scheme" where
  "mc_checked k eddsa r rp s =
     (case mc_hmac_check r of
        Some e \<Rightarrow> (Inl e, s)
      | None \<Rightarrow>
     (case pin_param_check k (mc_pinUvAuthParam r) (mc_protocol r) s of
        (Some e, s) \<Rightarrow> (Inl e, s)
      | (None, s) \<Rightarrow>
     (case mc_algorithm k eddsa r of
        Inl e \<Rightarrow> (Inl e, s)
      | Inr (crv, alg) \<Rightarrow>
     (case mc_check_options r s of
        Inl e \<Rightarrow> (Inl e, s)
      | Inr opts \<Rightarrow>
     (case mc_check_rest r opts s of
        Some e \<Rightarrow> (Inl e, s)
      | None \<Rightarrow>
     (case mc_authorize k r opts rp s of
        (Inl e, s) \<Rightarrow> (Inl e, s)
      | (Inr fl, s) \<Rightarrow> (Inr (opts, crv, alg, fl), s)))))))"

definition make_credential :: "sdk \<Rightarrow> objs \<Rightarrow> bool \<Rightarrow> mc_req \<Rightarrow> 'a device_scheme \<Rightarrow> (ctap_error + bytes) \<times> 'a device_scheme" where
  "make_credential k ob eddsa r s =
     (let rp = sha256 k (case mc_rp_id r of Some d \<Rightarrow> d | None \<Rightarrow> [])
      in case mc_checked k eddsa r rp s of
           (Inl e, s) \<Rightarrow> (Inl e, s)
         | (Inr (opts, crv, alg, fl), s) \<Rightarrow>
     (case mc_check_exclude k ob rp (fl AND FIDO2_AUT_FLAG_UV \<noteq> 0) (mc_exclude r) s of
        (Some e, s) \<Rightarrow> (Inl e, s)
      | (None, s) \<Rightarrow>
          if largeBlobKey (mc_ext r) = Some False \<or> (largeBlobKey (mc_ext r) = Some True \<and> opt_rk opts \<noteq> Some True)
          then (Inl CTAP2_ERR_INVALID_OPTION, s)
          else (case mc_presence k r opts fl s of
                  (Inl e, s) \<Rightarrow> (Inl e, s)
                | (Inr fl, s) \<Rightarrow> mc_create k ob eddsa r opts crv alg fl rp s)))"

definition cbor_make_credential ::
    "sdk \<Rightarrow> objs \<Rightarrow> bool \<Rightarrow> bytes \<Rightarrow> 'a device_scheme \<Rightarrow> ctap_error option \<times> 'a device_scheme" where
  "cbor_make_credential k ob eddsa d s =
     (case sdk_cbor_dec k d of
        Inl e \<Rightarrow> (ctap_status (Some (CborError e)), s)
      | Inr m \<Rightarrow>
          (case cbor_map mc_field mc_init m of
             Inl e \<Rightarrow> (ctap_status (Some e), s)
           | Inr r \<Rightarrow>
               (case make_credential k ob eddsa r s of
                  (Inl e, s) \<Rightarrow> (ctap_status (Some e), s)
                | (Inr resp, s) \<Rightarrow> (None, s\<lparr>res_APDU := resp\<rparr>))))"

end
