(* ===== verification/Get_Assertion.thy ===== *)
theory Get_Assertion
  imports Make_Credential
begin

text \<open>
  Assertions (\<open>src/fido/cbor_get_assertion.c\<close>): the request, the credentials it is about, the
  choice among them, the signature, and the assertions that are left for
  \<open>authenticatorGetNextAssertion\<close>. The time limit of 30 seconds wraps with the clock, as in the
  code.
\<close>

definition reset_gna_state :: "'a ctap_scheme \<Rightarrow> 'a ctap_scheme" where
  "reset_gna_state s =
     s\<lparr>credsx := [], datax := [], residentx := False, timerx := 0, flagsx := 0, credentialCounter := 0,
       numberOfCredentialsx := 0\<rparr>"

subsection \<open>The request\<close>

record ga_req =
  ga_rpId :: "bytes option"
  ga_clientDataHash :: "bytes option"
  ga_allow :: "descriptor list"
  ga_ext :: cred_extensions
  ga_credBlob :: "bool option"
  ga_hmac :: hmac_req
  ga_options :: cred_options
  ga_pinUvAuthParam :: "bytes option"
  ga_protocol :: u64
  ga_val_c :: u64

definition ga_init :: ga_req where
  "ga_init =
     \<lparr>ga_rpId = None, ga_clientDataHash = None, ga_allow = [], ga_ext = cred_ext credential_zero, ga_credBlob = None,
      ga_hmac = hmac_init, ga_options = cred_opts credential_zero, ga_pinUvAuthParam = None, ga_protocol = 0,
      ga_val_c = 1\<rparr>"

definition ga_ext_field :: "ga_req \<Rightarrow> cbor list \<Rightarrow> ctap_error + ga_req \<times> cbor list" where
  "ga_ext_field r xs =
     (case field_key_text xs of
        Inl e \<Rightarrow> Inl e
      | Inr (key, xs) \<Rightarrow>
          let e = ga_ext r
          in if key = ascii ''hmac-secret''
             then set_field (\<lambda>h. r\<lparr>ga_hmac := h, ga_ext := e\<lparr>hmac_secret := Some True\<rparr>\<rparr>) (field_map hmac_field (ga_hmac r) xs)
             else if key = ascii ''credBlob'' then set_field (\<lambda>b. r\<lparr>ga_credBlob := Some b\<rparr>) (field_bool xs)
             else if key = ascii ''largeBlobKey'' then set_field (\<lambda>b. r\<lparr>ga_ext := e\<lparr>largeBlobKey := Some b\<rparr>\<rparr>) (field_bool xs)
             else if key = ascii ''thirdPartyPayment''
             then set_field (\<lambda>b. r\<lparr>ga_ext := e\<lparr>thirdPartyPayment := Some b\<rparr>\<rparr>) (field_bool xs)
             else map_sum id (Pair r) (cbor_advance xs))"

definition ga_field :: "ga_req \<Rightarrow> cbor list \<Rightarrow> ctap_error + ga_req \<times> cbor list" where
  "ga_field r xs =
     (case field_uint xs of
        Inl e \<Rightarrow> Inl e
      | Inr (val_u, xs) \<Rightarrow>
          if ga_val_c r \<le> 2 \<and> ga_val_c r \<noteq> val_u then Inl CTAP2_ERR_MISSING_PARAMETER
          else if val_u < ga_val_c r then Inl CTAP2_ERR_INVALID_CBOR
          else let r = r\<lparr>ga_val_c := val_u + 1\<rparr>
               in if val_u = 0x01 then set_field (\<lambda>d. r\<lparr>ga_rpId := Some d\<rparr>) (field_text xs)
                  else if val_u = 0x02 then set_field (\<lambda>d. r\<lparr>ga_clientDataHash := Some d\<rparr>) (field_bytes xs)
                  else if val_u = 0x03 then set_field (\<lambda>ps. r\<lparr>ga_allow := ps\<rparr>) (field_array descriptor_item (ga_allow r) xs)
                  else if val_u = 0x04 then field_map ga_ext_field (r\<lparr>ga_ext := (ga_ext r)\<lparr>ext_present := True\<rparr>\<rparr>) xs
                  else if val_u = 0x05
                  then set_field (\<lambda>opts. r\<lparr>ga_options := opts\<rparr>) (field_map request_option ((ga_options r)\<lparr>opt_present := True\<rparr>) xs)
                  else if val_u = 0x06 then set_field (\<lambda>d. r\<lparr>ga_pinUvAuthParam := Some d\<rparr>) (field_bytes xs)
                  else if val_u = 0x07 then set_field (\<lambda>v. r\<lparr>ga_protocol := v\<rparr>) (field_uint xs)
                  else Inr (r, xs))"

subsection \<open>The checks\<close>

definition ga_check_options :: "ga_req \<Rightarrow> ctap_error option" where
  "ga_check_options r =
     (let opts = ga_options r
      in if \<not> opt_present opts then None
         else if opt_uv opts = Some True then Some CTAP2_ERR_INVALID_OPTION
         else if opt_rk opts \<noteq> None then Some CTAP2_ERR_UNSUPPORTED_OPTION
         else None)"

text \<open>
  Whether the request is silent until a credential is loaded. Without options it is, although
  the user is asked for then.
\<close>

definition ga_silent :: "ga_req \<Rightarrow> bool" where
  "ga_silent r \<longleftrightarrow>
     (let opts = ga_options r; up = (opt_present opts \<and> opt_up opts \<noteq> Some False);
          uv = (opt_present opts \<and> opt_uv opts = Some True \<and> ga_pinUvAuthParam r = None)
      in \<not> up \<and> \<not> uv)"

definition ga_authorize :: "sdk \<Rightarrow> ga_req \<Rightarrow> bytes \<Rightarrow> 'a fido_scheme \<Rightarrow> (ctap_error + byte) \<times> 'a fido_scheme" where
  "ga_authorize k r rp s =
     (case ga_pinUvAuthParam r of
        None \<Rightarrow> (Inr 0, s)
      | Some param \<Rightarrow>
          let cdh = (case ga_clientDataHash r of Some d \<Rightarrow> d | None \<Rightarrow> [])
          in if \<not> verify k (ucast (ga_protocol r)) (paut_data (paut s)) (take (length cdh mod 65536) cdh) param
             then (Inl CTAP2_ERR_PIN_AUTH_INVALID, s)
             else let (uv, s) = getUserVerifiedFlagValue s
                  in if \<not> uv then (Inl CTAP2_ERR_PIN_AUTH_INVALID, s)
                     else if permissions (paut s) AND CTAP_PERMISSION_GA = 0 then (Inl CTAP2_ERR_PIN_AUTH_INVALID, s)
                     else if has_rp_id (paut s) \<and> rp_id_hash (paut s) \<noteq> rp then (Inl CTAP2_ERR_PIN_AUTH_INVALID, s)
                     else (Inr FIDO2_AUT_FLAG_UV, bind_token rp s))"

definition ga_hmac_check :: "ga_req \<Rightarrow> ctap_error option" where
  "ga_hmac_check r =
     (let h = ga_hmac r; q = hm_cose h
      in if \<not> ext_present (ga_ext r) \<or> hmac_secret (ga_ext r) \<noteq> Some True then None
         else if cose_kax q = None \<or> cose_kay q = None \<or> cose_crv q = 0 \<or> cose_alg q = 0 \<or>
                 salt_enc h = None \<or> salt_auth h = None
         then Some CTAP2_ERR_MISSING_PARAMETER
         else if \<not> salt_len_ok h then Some CTAP1_ERR_INVALID_LEN else None)"

subsection \<open>The credentials\<close>

text \<open>The first resident credential of the relying party with the identifier that loads.\<close>

fun load_by_id ::
    "sdk \<Rightarrow> objs \<Rightarrow> bytes \<Rightarrow> bytes \<Rightarrow> nat list \<Rightarrow> 'a device_scheme \<Rightarrow> credential option \<times> 'a device_scheme" where
  "load_by_id k ob cid rp [] s = (None, s)"
| "load_by_id k ob cid rp (i # is) s =
     (let ef = file_search s (EF_CRED + word_of_nat i)
      in if \<not> file_has_data s ef then load_by_id k ob cid rp is s
         else let (same, s) = credential_resident_matches_rp k ob ef rp s
         in if \<not> same then load_by_id k ob cid rp is s
         else let (found, s) = credential_resident_matches_id k ob ef cid s
         in if \<not> found then load_by_id k ob cid rp is s
         else case credential_load_resident k ob ef rp s of
                (Inl e, s) \<Rightarrow> load_by_id k ob cid rp is s
              | (Inr c, s) \<Rightarrow> (Some c, s))"

text \<open>Whether an identifier that is not resident names a resident credential of the relying party.\<close>

fun has_resident ::
    "sdk \<Rightarrow> objs \<Rightarrow> bytes \<Rightarrow> bytes \<Rightarrow> nat list \<Rightarrow> 'a resident_scheme \<Rightarrow> bool \<times> 'a resident_scheme" where
  "has_resident k ob cid rp [] s = (False, s)"
| "has_resident k ob cid rp (i # is) s =
     (let ef = file_search s (EF_CRED + word_of_nat i)
      in if \<not> file_has_data s ef then has_resident k ob cid rp is s
         else let (same, s) = credential_resident_matches_rp k ob ef rp s
         in if \<not> same then has_resident k ob cid rp is s
         else let (found, s) = credential_resident_matches_id k ob ef cid s
         in if found then (True, s) else has_resident k ob cid rp is s)"

text \<open>
  The credentials of the allow list. The booleans say that a resident one is among them and that
  the request is still silent. No more than sixteen can be loaded, since the list has no more.
\<close>

fun ga_allowed ::
    "sdk \<Rightarrow> objs \<Rightarrow> bytes \<Rightarrow> descriptor list \<Rightarrow> credential list \<Rightarrow> bool \<Rightarrow> bool \<Rightarrow> 'a device_scheme \<Rightarrow>
     (ctap_error + credential list \<times> bool \<times> bool) \<times> 'a device_scheme" where
  "ga_allowed k ob rp [] creds resident silent s = (Inr (creds, resident, silent), s)"
| "ga_allowed k ob rp (pc # pcs) creds resident silent s =
     (case (desc_type pc, desc_id pc) of
        (Some ty, Some cid) \<Rightarrow>
          if \<not> is_text ty ''public-key'' then ga_allowed k ob rp pcs creds resident silent s
          else if credential_is_resident cid
          then (case load_by_id k ob cid rp [0..<MAX_RESIDENT_CREDENTIALS] s of
                  (None, s) \<Rightarrow> ga_allowed k ob rp pcs creds resident silent s
                | (Some c, s) \<Rightarrow> ga_allowed k ob rp pcs (creds @ [c]) True False s)
          else (case credential_load k cid rp s of
                  (Inl e, s) \<Rightarrow> ga_allowed k ob rp pcs creds resident silent s
                | (Inr c, s) \<Rightarrow>
                    let creds = creds @ [c]
                    in if resident then ga_allowed k ob rp pcs creds resident False s
                       else let (found, s) = (if length creds < MAX_CREDENTIAL_COUNT_IN_LIST
                                              then has_resident k ob cid rp [0..<MAX_RESIDENT_CREDENTIALS] s else (False, s))
                            in if found then (Inr (creds, True, False), s)
                               else ga_allowed k ob rp pcs creds resident False s)
      | _ \<Rightarrow> (Inl CTAP2_ERR_MISSING_PARAMETER, s))"

text \<open>Without a list, the first sixteen resident credentials of the relying party.\<close>

fun ga_residents ::
    "sdk \<Rightarrow> objs \<Rightarrow> bytes \<Rightarrow> nat list \<Rightarrow> credential list \<Rightarrow> 'a device_scheme \<Rightarrow> credential list \<times> 'a device_scheme" where
  "ga_residents k ob rp [] creds s = (creds, s)"
| "ga_residents k ob rp (i # is) creds s =
     (let ef = file_search s (EF_CRED + word_of_nat i)
      in if length creds \<ge> MAX_CREDENTIAL_COUNT_IN_LIST then (creds, s)
         else if \<not> file_has_data s ef then ga_residents k ob rp is creds s
         else let (same, s) = credential_resident_matches_rp k ob ef rp s
         in if \<not> same then ga_residents k ob rp is creds s
         else case credential_load_resident k ob ef rp s of
                (Inl e, s) \<Rightarrow> ga_residents k ob rp is creds s
              | (Inr c, s) \<Rightarrow> ga_residents k ob rp is (creds @ [c]) s)"

definition ga_locate ::
    "sdk \<Rightarrow> objs \<Rightarrow> ga_req \<Rightarrow> bytes \<Rightarrow> 'a device_scheme \<Rightarrow> (ctap_error + credential list \<times> bool \<times> bool) \<times> 'a device_scheme" where
  "ga_locate k ob r rp s =
     (if ga_allow r \<noteq> [] then ga_allowed k ob rp (ga_allow r) [] False (ga_silent r) s
      else let (creds, s) = ga_residents k ob rp [0..<MAX_RESIDENT_CREDENTIALS] [] s
           in (Inr (creds, True, ga_silent r \<and> creds = []), s))"

text \<open>The protection of a credential: what it takes to see it.\<close>

definition ga_visible :: "byte \<Rightarrow> bool \<Rightarrow> credential \<Rightarrow> bool" where
  "ga_visible fl no_list c \<longleftrightarrow>
     cred_present c \<and>
     (ext_present (cred_ext c) \<and> fl AND FIDO2_AUT_FLAG_UV = 0 \<longrightarrow>
       credProtect (cred_ext c) \<noteq> CRED_PROT_UV_REQUIRED \<and>
       (credProtect (cred_ext c) = CRED_PROT_UV_OPTIONAL_WITH_LIST \<longrightarrow> \<not> no_list))"

text \<open>The count of a silent request: identifiers that verify without being decrypted.\<close>

fun silent_resident ::
    "sdk \<Rightarrow> objs \<Rightarrow> bytes \<Rightarrow> bytes \<Rightarrow> nat list \<Rightarrow> 'a device_scheme \<Rightarrow> bool \<times> 'a device_scheme" where
  "silent_resident k ob cid rp [] s = (False, s)"
| "silent_resident k ob cid rp (i # is) s =
     (let ef = file_search s (EF_CRED + word_of_nat i)
      in if \<not> file_has_data s ef then silent_resident k ob cid rp is s
         else let (same, s) = credential_resident_matches_rp k ob ef rp s
         in if \<not> same then silent_resident k ob cid rp is s
         else let (found, s) = credential_resident_matches_id k ob ef cid s
         in if \<not> found then silent_resident k ob cid rp is s
         else let (e, s) = credential_resident_verify k ob ef rp True s in (e = None, s))"

fun silent_count ::
    "sdk \<Rightarrow> objs \<Rightarrow> bytes \<Rightarrow> descriptor list \<Rightarrow> nat \<Rightarrow> 'a device_scheme \<Rightarrow> (ctap_error + nat) \<times> 'a device_scheme" where
  "silent_count k ob rp [] n s = (Inr n, s)"
| "silent_count k ob rp (pc # pcs) n s =
     (case (desc_type pc, desc_id pc) of
        (Some ty, Some cid) \<Rightarrow>
          if \<not> is_text ty ''public-key'' then silent_count k ob rp pcs n s
          else let (hit, s) =
                 (if credential_is_resident cid then silent_resident k ob cid rp [0..<MAX_RESIDENT_CREDENTIALS] s
                  else let (ret, _, s) = credential_verify k cid rp True s in (ret = PICOKEYS_OK, s))
               in silent_count k ob rp pcs (if hit then n + 1 else n) s
      | _ \<Rightarrow> (Inl CTAP2_ERR_MISSING_PARAMETER, s))"

text \<open>The exchanges that put the newest credential first.\<close>

fun newest_inner :: "nat list \<Rightarrow> nat \<Rightarrow> credential list \<Rightarrow> credential list" where
  "newest_inner [] i cs = cs"
| "newest_inner (j # js) i cs =
     newest_inner js i
       (if board_creation (cs ! j) > board_creation (cs ! i) then cs[i := cs ! j, j := cs ! i] else cs)"

fun newest_first :: "nat list \<Rightarrow> nat \<Rightarrow> credential list \<Rightarrow> credential list" where
  "newest_first [] n cs = cs"
| "newest_first (i # is) n cs = newest_first is n (newest_inner [i + 1..<n] i cs)"

definition sort_newest :: "credential list \<Rightarrow> credential list" where
  "sort_newest cs = newest_first [0..<length cs] (length cs) cs"

subsection \<open>User presence\<close>

definition ga_presence :: "sdk \<Rightarrow> ga_req \<Rightarrow> byte \<Rightarrow> 'a fido_scheme \<Rightarrow> (ctap_error + byte) \<times> 'a fido_scheme" where
  "ga_presence k r fl s =
     (if opt_present (ga_options r) \<and> opt_up (ga_options r) = Some False then (Inr fl, s)
      else let (up, s) = (if ga_pinUvAuthParam r = None then (False, s) else getUserPresentFlagValue s);
               (ok, s) = (if up then (True, s) else check_user_presence k s)
      in if \<not> ok then (Inl CTAP2_ERR_OPERATION_DENIED, s)
         else (Inr (fl OR FIDO2_AUT_FLAG_UP),
               clearPinUvAuthTokenPermissionsExceptLbw (clearUserVerifiedFlag (clearUserPresentFlag s))))"

subsection \<open>Selecting\<close>

text \<open>
  What a first request selects: the credential to sign with (none for a silent request that only
  verified identifiers), the number of credentials, whether they are resident, and the flags.
\<close>

record ga_selection =
  sel_cred :: "credential option"
  sel_count :: nat
  sel_resident :: bool
  sel_flags :: byte

text \<open>The credentials that are left for the next assertions are saved with the request.\<close>

definition ga_save ::
    "bytes \<Rightarrow> ga_req \<Rightarrow> credential list \<Rightarrow> nat \<Rightarrow> bool \<Rightarrow> bool \<Rightarrow> byte \<Rightarrow> 'a ctap_scheme \<Rightarrow> ga_selection \<times> 'a ctap_scheme" where
  "ga_save d r creds count resident silent fl s =
     (if silent \<and> \<not> resident then (\<lparr>sel_cred = None, sel_count = count, sel_resident = resident, sel_flags = fl\<rparr>, s)
      else let count = (if resident \<and> length (ga_allow r) > 1 then 1 else count);
               sel = \<lparr>sel_cred = Some (hd creds), sel_count = count, sel_resident = resident, sel_flags = fl\<rparr>
           in if count > 1
              then (sel, s\<lparr>residentx := resident, credsx := take count creds, numberOfCredentialsx := word_of_nat count,
                           datax := d, flagsx := fl, timerx := millis s, credentialCounter := 1\<rparr>)
              else (sel, s))"

definition ga_select ::
    "sdk \<Rightarrow> objs \<Rightarrow> bytes \<Rightarrow> ga_req \<Rightarrow> bytes \<Rightarrow> 'a ctap_scheme \<Rightarrow> (ctap_error + ga_selection) \<times> 'a ctap_scheme" where
  "ga_select k ob d r rp s =
     (case pin_param_check k (ga_pinUvAuthParam r) (ga_protocol r) s of
        (Some e, s) \<Rightarrow> (Inl e, s)
      | (None, s) \<Rightarrow>
     (case ga_check_options r of
        Some e \<Rightarrow> (Inl e, s)
      | None \<Rightarrow>
     (case ga_authorize k r rp s of
        (Inl e, s) \<Rightarrow> (Inl e, s)
      | (Inr fl, s) \<Rightarrow>
     (case ga_hmac_check r of
        Some e \<Rightarrow> (Inl e, s)
      | None \<Rightarrow>
     (case ga_locate k ob r rp s of
        (Inl e, s) \<Rightarrow> (Inl e, s)
      | (Inr (creds, resident, silent), s) \<Rightarrow>
          let creds = filter (ga_visible fl (ga_allow r = [])) creds;
              (n, s) = (if creds = [] \<and> silent \<and> ga_allow r \<noteq> [] then silent_count k ob rp (ga_allow r) 0 s
                        else (Inr (length creds), s))
          in case n of
               Inl e \<Rightarrow> (Inl e, s)
             | Inr count \<Rightarrow>
                 if count = 0 then (Inl CTAP2_ERR_NO_CREDENTIALS, s)
                 else let creds = (if silent then creds else sort_newest creds)
                      in case ga_presence k r fl s of
                           (Inl e, s) \<Rightarrow> (Inl e, s)
                         | (Inr fl, s) \<Rightarrow>
                             if largeBlobKey (ga_ext r) = Some False then (Inl CTAP2_ERR_INVALID_OPTION, s)
                             else let (sel, s) = ga_save d r creds count resident silent fl s in (Inr sel, s))))))"

subsection \<open>Signing\<close>

definition ga_key_seed :: "credential \<Rightarrow> bytes" where
  "ga_key_seed c =
     (case residentId c of
        Some rid \<Rightarrow> if credential_resident_id_uses_stable_keys rid then rid else the (cred_id c)
      | None \<Rightarrow> the (cred_id c))"

definition ga_large_blob :: "ga_req \<Rightarrow> credential option \<Rightarrow> bool" where
  "ga_large_blob r sel \<longleftrightarrow>
     largeBlobKey (ga_ext r) = Some True \<and>
     (case sel of Some c \<Rightarrow> largeBlobKey (cred_ext c) = Some True | None \<Rightarrow> False)"

definition ga_ext_items ::
    "sdk \<Rightarrow> ga_req \<Rightarrow> byte \<Rightarrow> credential \<Rightarrow> 'a fido_scheme \<Rightarrow> (ctap_error + cbor list) \<times> 'a fido_scheme" where
  "ga_ext_items k r fl c s =
     (let front =
            (if ga_credBlob r = Some True
             then [CText (ascii ''credBlob''), CBytes (case credBlob (cred_ext c) of Some d \<Rightarrow> d | None \<Rightarrow> [])] else []);
          back =
            (if thirdPartyPayment (ga_ext r) = Some True
             then [CText (ascii ''thirdPartyPayment''), CBool (thirdPartyPayment (cred_ext c) = Some True)] else [])
      in if hmac_secret (ga_ext r) = Some True \<and> opt_up (ga_options r) \<noteq> Some False
         then (case hmac_secret_output k (ga_hmac r) (fl AND FIDO2_AUT_FLAG_UV \<noteq> 0) (ga_key_seed c) s of
                 (Inl e, s) \<Rightarrow> (Inl e, s)
               | (Inr res, s) \<Rightarrow> (Inr (front @ [CText (ascii ''hmac-secret''), CBytes res] @ back), s))
         else (Inr (front @ back), s))"

definition ga_extensions ::
    "sdk \<Rightarrow> ga_req \<Rightarrow> byte \<Rightarrow> credential option \<Rightarrow> 'a fido_scheme \<Rightarrow> (ctap_error + bytes \<times> byte) \<times> 'a fido_scheme" where
  "ga_extensions k r fl sel s =
     (case sel of
        None \<Rightarrow> (Inr ([], fl), s)
      | Some c \<Rightarrow>
          if \<not> ext_present (ga_ext r) then (Inr ([], fl), s)
          else case ga_ext_items k r fl c s of
            (Inl e, s) \<Rightarrow> (Inl e, s)
          | (Inr items, s) \<Rightarrow>
              if items = [] then (Inr ([], fl), s)
              else (case sdk_cbor_enc_buf k 512 (CMap items) of
                      Inl e \<Rightarrow> (Inl (CborError e), s)
                    | Inr ext \<Rightarrow> (Inr (ext, fl OR FIDO2_AUT_FLAG_ED), s)))"

definition ga_md :: "bool \<Rightarrow> curve \<Rightarrow> md option" where
  "ga_md eddsa grp =
     (if grp = MBEDTLS_ECP_DP_SECP384R1 then Some MD_SHA384
      else if grp = MBEDTLS_ECP_DP_SECP521R1 then Some MD_SHA512
      else if eddsa \<and> grp = MBEDTLS_ECP_DP_ED25519 then None
      else Some MD_SHA256)"

text \<open>The key of a credential, or that of a key handle of the old format.\<close>

definition ga_load_key ::
    "sdk \<Rightarrow> bool \<Rightarrow> bytes \<Rightarrow> credential \<Rightarrow> 'a fido_scheme \<Rightarrow> (ctap_error + keypair) \<times> 'a fido_scheme" where
  "ga_load_key k eddsa rp c s =
     (let (ret, key, s) = fido_load_key k eddsa (sint (ucast (cred_curve c) :: u32)) (ga_key_seed c) keypair_init s
      in if ret = PICOKEYS_OK then (Inr key, s)
         else let (ret, _, key, s) = derive_key k rp False (ga_key_seed c) MBEDTLS_ECP_DP_SECP256R1 (Some key) s
              in if ret \<noteq> PICOKEYS_OK then (Inl CTAP1_ERR_OTHER, s) else (Inr (the key), s))"

definition ga_sign ::
    "sdk \<Rightarrow> bool \<Rightarrow> bytes \<Rightarrow> credential option \<Rightarrow> bytes \<Rightarrow> 'a fido_scheme \<Rightarrow> (ctap_error + bytes) \<times> 'a fido_scheme" where
  "ga_sign k eddsa rp sel message s =
     (case sel of
        None \<Rightarrow> (Inr (replicate 64 0x0B), s)
      | Some c \<Rightarrow>
          (case ga_load_key k eddsa rp c s of
             (Inl e, s) \<Rightarrow> (Inl e, s)
           | (Inr key, s) \<Rightarrow>
               let (ret, sig) = (case ga_md eddsa (kp_grp key) of
                     Some md \<Rightarrow> sdk_ecdsa_sign k (tick s) key (fit (sdk_md_size k md) (snd (sdk_digest k md message)))
                   | None \<Rightarrow> sdk_eddsa_sign k (tick s) key message);
                   s = s\<lparr>tick := Suc (tick s)\<rparr>
               in if ret \<noteq> 0 then (Inl CTAP2_ERR_PROCESSING, s) else (Inr sig, s)))"

subsection \<open>The response\<close>

text \<open>The names of a user are told only to a verified user who has to choose.\<close>

definition ga_user :: "ga_req \<Rightarrow> ga_selection \<Rightarrow> byte \<Rightarrow> credential \<Rightarrow> cbor" where
  "ga_user r sel fl c =
     (let names = (sel_count sel > 1 \<and> ga_allow r = [] \<and> fl AND FIDO2_AUT_FLAG_UV \<noteq> 0)
      in CMap ([CText (ascii ''id''), CBytes (case cred_userId c of Some d \<Rightarrow> d | None \<Rightarrow> [])] @
          (case cred_userName c of
             Some d \<Rightarrow> if names then [CText (ascii ''name''), CText (stringz d)] else [] | None \<Rightarrow> []) @
          (case cred_userDisplayName c of
             Some d \<Rightarrow> if names then [CText (ascii ''displayName''), CText (stringz d)] else [] | None \<Rightarrow> [])))"

definition ga_cred_id :: "sdk \<Rightarrow> ga_selection \<Rightarrow> bytes" where
  "ga_cred_id k sel =
     (case sel_cred sel of
        None \<Rightarrow> concat (replicate 8 [0x00, 0x01])
      | Some c \<Rightarrow>
          if sel_resident sel
          then (case residentId c of Some rid \<Rightarrow> rid | None \<Rightarrow> credential_derive_resident k (the (cred_id c)))
          else the (cred_id c))"

definition ga_response ::
    "sdk \<Rightarrow> ga_req \<Rightarrow> bool \<Rightarrow> ga_selection \<Rightarrow> byte \<Rightarrow> bytes \<Rightarrow> bytes \<Rightarrow> bytes \<Rightarrow> cbor" where
  "ga_response k r next sel fl aut_data sig large_blob_key =
     CMap ([CUInt 0x01, CMap [CText (ascii ''id''), CBytes (ga_cred_id k sel),
                              CText (ascii ''type''), CText (ascii ''public-key'')],
            CUInt 0x02, CBytes aut_data, CUInt 0x03, CBytes sig] @
           (case sel_cred sel of
              Some c \<Rightarrow> if opt_present (cred_opts c) \<and> opt_rk (cred_opts c) = Some True
                        then [CUInt 0x04, ga_user r sel fl c] else []
            | None \<Rightarrow> []) @
           (if sel_count sel > 1 \<and> \<not> next \<and> (\<not> sel_resident sel \<or> length (ga_allow r) \<le> 1)
            then [CUInt 0x05, CUInt (word_of_nat (sel_count sel))] else []) @
           (if ga_large_blob r (sel_cred sel) then [CUInt 0x07, CBytes large_blob_key] else []))"

subsection \<open>The command\<close>

text \<open>The assertion for a selection; the counter advances when the response is written.\<close>

definition ga_assert ::
    "sdk \<Rightarrow> bool \<Rightarrow> ga_req \<Rightarrow> bytes \<Rightarrow> bool \<Rightarrow> ga_selection \<Rightarrow> 'a fido_scheme \<Rightarrow> (ctap_error + bytes) \<times> 'a fido_scheme" where
  "ga_assert k eddsa r rp next sel s =
     (let lbk = ga_large_blob r (sel_cred sel);
          (ret, lb, s) = (if lbk then credential_derive_large_blob_key k (ga_key_seed (the (sel_cred sel))) s
                          else (PICOKEYS_OK, [], s))
      in if ret \<noteq> PICOKEYS_OK then (Inl CTAP2_ERR_PROCESSING, s)
         else case ga_extensions k r (sel_flags sel) (sel_cred sel) s of
           (Inl e, s) \<Rightarrow> (Inl e, s)
         | (Inr (ext, fl), s) \<Rightarrow>
             let ctr = get_sign_counter k s;
                 aut_data = rp @ [fl] @ sdk_put_u32 k ctr @ ext;
                 cdh = (case ga_clientDataHash r of Some d \<Rightarrow> d | None \<Rightarrow> [])
             in case ga_sign k eddsa rp (sel_cred sel) (aut_data @ cdh) s of
                  (Inl e, s) \<Rightarrow> (Inl e, s)
                | (Inr sig, s) \<Rightarrow>
                    (case cbor_emit k (ga_response k r next sel fl aut_data sig (fit 32 lb)) of
                       Inl e \<Rightarrow> (Inl e, s)
                     | Inr resp \<Rightarrow>
                         let (_, s) = file_put_data k (file_search s EF_COUNTER) (mem_u32 (ctr + 1)) s
                         in (Inr resp, flash_commit s)))"

definition get_assertion ::
    "sdk \<Rightarrow> objs \<Rightarrow> bool \<Rightarrow> bytes \<Rightarrow> bool \<Rightarrow> ga_req \<Rightarrow> 'a ctap_scheme \<Rightarrow> (ctap_error + bytes) \<times> 'a ctap_scheme" where
  "get_assertion k ob eddsa d next r s =
     (if ga_rpId r = None \<or> ga_clientDataHash r = None then (Inl CTAP2_ERR_MISSING_PARAMETER, s)
      else let rp = sha256 k (the (ga_rpId r))
           in if next
              then ga_assert k eddsa r rp next
                     \<lparr>sel_cred = Some (credsx s ! unat (credentialCounter s)), sel_count = unat (numberOfCredentialsx s),
                      sel_resident = residentx s, sel_flags = flagsx s\<rparr> s
              else (case ga_select k ob d r rp s of
                      (Inl e, s) \<Rightarrow> (Inl e, s)
                    | (Inr sel, s) \<Rightarrow> ga_assert k eddsa r rp next sel s))"

definition cbor_get_assertion ::
    "sdk \<Rightarrow> objs \<Rightarrow> bool \<Rightarrow> bytes \<Rightarrow> bool \<Rightarrow> 'a ctap_scheme \<Rightarrow> ctap_error option \<times> 'a ctap_scheme" where
  "cbor_get_assertion k ob eddsa d next s =
     (let fail = (\<lambda>e s. (ctap_status (Some e), if next then s else reset_gna_state s))
      in case sdk_cbor_dec k d of
           Inl e \<Rightarrow> fail (CborError e) s
         | Inr m \<Rightarrow>
             (case cbor_map ga_field ga_init m of
                Inl e \<Rightarrow> fail e s
              | Inr r \<Rightarrow>
                  (case get_assertion k ob eddsa d next r s of
                     (Inl e, s) \<Rightarrow> fail e s
                   | (Inr resp, s) \<Rightarrow> (None, s\<lparr>res_APDU := resp\<rparr>))))"

definition cbor_get_next_assertion ::
    "sdk \<Rightarrow> objs \<Rightarrow> bool \<Rightarrow> 'a ctap_scheme \<Rightarrow> ctap_error option \<times> 'a ctap_scheme" where
  "cbor_get_next_assertion k ob eddsa s =
     (if credentialCounter s \<ge> numberOfCredentialsx s then (Some CTAP2_ERR_NOT_ALLOWED, reset_gna_state s)
      else if timerx s + 30 * 1000 < millis s then (Some CTAP2_ERR_NOT_ALLOWED, reset_gna_state s)
      else case cbor_get_assertion k ob eddsa (datax s) True s of
        (Some e, s) \<Rightarrow> (ctap_status (Some e), reset_gna_state s)
      | (None, s) \<Rightarrow>
          let s = s\<lparr>timerx := millis s, credentialCounter := credentialCounter s + 1\<rparr>
          in (None, if credentialCounter s = numberOfCredentialsx s then reset_gna_state s else s))"

end
