(* ===== verification/Cred_Mgmt.thy ===== *)
theory Cred_Mgmt
  imports Ctap
begin

text \<open>
  Credential management (\<open>src/fido/cbor_cred_mgmt.c\<close>): counting, the enumeration of relying
  parties and of the credentials of one, deletion, and the update of a user. \<open>preview\<close> says that
  the command came under its earlier number, where permissions are not looked at.

  The subcommand parameters are authenticated as they came, behind a byte that overwrites the
  key in front of them; they are the fourth item of the request (\<open>sdk_cbor_raw\<close>). The hash that
  an enumeration of credentials saves keeps its bytes here also where the code has freed them.
\<close>

subsection \<open>The request\<close>

record cm_req =
  cm_subcommand :: u64
  cm_rpIdHash :: "bytes option"
  cm_cred :: descriptor
  cm_user_id :: "bytes option"
  cm_user_name :: "bytes option"
  cm_user_display :: "bytes option"
  cm_protocol :: u64
  cm_param :: "bytes option"
  cm_val_c :: u64

definition cm_init :: cm_req where
  "cm_init =
     \<lparr>cm_subcommand = 0, cm_rpIdHash = None, cm_cred = descriptor_zero, cm_user_id = None, cm_user_name = None,
      cm_user_display = None, cm_protocol = 0, cm_param = None, cm_val_c = 1\<rparr>"

definition cm_user_field :: "cm_req \<Rightarrow> cbor list \<Rightarrow> ctap_error + cm_req \<times> cbor list" where
  "cm_user_field r xs =
     (case field_key_text xs of
        Inl e \<Rightarrow> Inl e
      | Inr (key, xs) \<Rightarrow>
          if key = ascii ''id'' then set_field (\<lambda>d. r\<lparr>cm_user_id := Some d\<rparr>) (field_bytes xs)
          else if key = ascii ''name'' then set_field (\<lambda>d. r\<lparr>cm_user_name := Some d\<rparr>) (field_text xs)
          else if key = ascii ''displayName'' then set_field (\<lambda>d. r\<lparr>cm_user_display := Some d\<rparr>) (field_text xs)
          else Inr (r, xs))"

definition cm_subpara_field :: "cm_req \<Rightarrow> cbor list \<Rightarrow> ctap_error + cm_req \<times> cbor list" where
  "cm_subpara_field r xs =
     (case field_uint xs of
        Inl e \<Rightarrow> Inl e
      | Inr (subpara, xs) \<Rightarrow>
          if subpara = 0x01 then set_field (\<lambda>d. r\<lparr>cm_rpIdHash := Some d\<rparr>) (field_bytes xs)
          else if subpara = 0x02 then set_field (\<lambda>pc. r\<lparr>cm_cred := pc\<rparr>) (field_map descriptor_field (cm_cred r) xs)
          else if subpara = 0x03 then field_map cm_user_field r xs
          else Inr (r, xs))"

definition cm_field :: "cm_req \<Rightarrow> cbor list \<Rightarrow> ctap_error + cm_req \<times> cbor list" where
  "cm_field r xs =
     (case field_uint xs of
        Inl e \<Rightarrow> Inl e
      | Inr (val_u, xs) \<Rightarrow>
          if cm_val_c r \<le> 1 \<and> cm_val_c r \<noteq> val_u then Inl CTAP2_ERR_MISSING_PARAMETER
          else if val_u < cm_val_c r then Inl CTAP2_ERR_INVALID_CBOR
          else let r = r\<lparr>cm_val_c := val_u + 1\<rparr>
               in if val_u = 0x01 then set_field (\<lambda>v. r\<lparr>cm_subcommand := v\<rparr>) (field_uint xs)
                  else if val_u = 0x02 then field_map cm_subpara_field r xs
                  else if val_u = 0x03 then set_field (\<lambda>v. r\<lparr>cm_protocol := v\<rparr>) (field_uint xs)
                  else if val_u = 0x04 then set_field (\<lambda>d. r\<lparr>cm_param := Some d\<rparr>) (field_bytes xs)
                  else Inr (r, xs))"

definition cm_check :: "cm_req \<Rightarrow> ctap_error option" where
  "cm_check r =
     (if (case cm_rpIdHash r of Some d \<Rightarrow> length d \<noteq> 32 | None \<Rightarrow> False) \<or>
         (case desc_id (cm_cred r) of Some d \<Rightarrow> length d \<noteq> CRED_RESIDENT_LEN | None \<Rightarrow> False)
      then Some CTAP1_ERR_INVALID_PARAMETER
      else if cm_subcommand r \<noteq> 0x03 \<and> cm_subcommand r \<noteq> 0x05
      then if cm_param r = None then Some CTAP2_ERR_PUAT_REQUIRED
           else if cm_protocol r \<noteq> 1 \<and> cm_protocol r \<noteq> 2 then Some CTAP1_ERR_INVALID_PARAMETER
           else None
      else None)"

subsection \<open>Authorization\<close>

definition cm_verify :: "sdk \<Rightarrow> cm_req \<Rightarrow> bytes \<Rightarrow> bytes \<Rightarrow> bool" where
  "cm_verify k r token d =
     verify k (ucast (cm_protocol r)) token (take (length d mod 65536) d) (the (cm_param r))"

text \<open>
  Reading needs the persistent token with its permission or the other one with the management
  permission; \<open>scope\<close> says what a relying party the token is bound to has to be.
\<close>

definition cm_may_read :: "sdk \<Rightarrow> bool \<Rightarrow> cm_req \<Rightarrow> bytes \<Rightarrow> (bytes \<Rightarrow> bool) \<Rightarrow> 'a fido_scheme \<Rightarrow> bool" where
  "cm_may_read k preview r d scope s \<longleftrightarrow>
     (if cm_verify k r (ppaut_data (ppaut s)) d then ppaut_permissions (ppaut s) AND CTAP_PERMISSION_PCMR \<noteq> 0
      else cm_verify k r (paut_data (paut s)) d \<and>
           (preview \<or> permissions (paut s) AND CTAP_PERMISSION_CM \<noteq> 0 \<and>
              (has_rp_id (paut s) \<longrightarrow> scope (rp_id_hash (paut s)))))"

text \<open>
  Changing needs the token with the management permission. A token bound to a relying party is
  compared with the hash in the request; one that is not there compares unequal.
\<close>

definition cm_may_write :: "sdk \<Rightarrow> bool \<Rightarrow> cm_req \<Rightarrow> bytes \<Rightarrow> 'a fido_scheme \<Rightarrow> bool" where
  "cm_may_write k preview r d s \<longleftrightarrow>
     cm_verify k r (paut_data (paut s)) d \<and>
     (preview \<or> permissions (paut s) AND CTAP_PERMISSION_CM \<noteq> 0 \<and>
        (has_rp_id (paut s) \<longrightarrow> cm_rpIdHash r = Some (rp_id_hash (paut s))))"

subsection \<open>Counting\<close>

definition cm_metadata :: "sdk \<Rightarrow> bool \<Rightarrow> cm_req \<Rightarrow> 'a fido_scheme \<Rightarrow> (ctap_error + bytes) \<times> 'a fido_scheme" where
  "cm_metadata k preview r s =
     (if \<not> cm_may_read k preview r [0x01] (\<lambda>_. False) s then (Inl CTAP2_ERR_PIN_AUTH_INVALID, s)
      else let existing = word_of_nat (length (filter (\<lambda>i. file_has_data s (file_search s (EF_CRED + word_of_nat i)))
                                                [0..<MAX_RESIDENT_CREDENTIALS])) :: byte
           in (cbor_emit k (CMap [CUInt 0x01, CUInt (ucast existing), CUInt 0x02, CUInt (256 - ucast existing)]), s))"

subsection \<open>Enumerating relying parties\<close>

text \<open>
  The record with the number \<open>counter\<close> among those with credentials. The first request counts
  them all; a later one stops at its record.
\<close>

fun rp_walk :: "'a plat_scheme \<Rightarrow> bool \<Rightarrow> u16 \<Rightarrow> nat list \<Rightarrow> u16 \<Rightarrow> fid option \<Rightarrow> u16 \<Rightarrow> fid option \<times> u16" where
  "rp_walk s first counter [] skip ef tot = (ef, tot)"
| "rp_walk s first counter (i # is) skip ef tot =
     (let tef = file_search s (rp_fid i)
      in if file_has_data s tef \<and> file_get_data s tef ! 0 > 0
         then let skip = skip + 1; hit = (skip = counter); ef = (if hit \<and> ef = None then tef else ef)
              in if hit \<and> \<not> first then (ef, tot)
                 else rp_walk s first counter is skip ef (if first then tot + 1 else tot)
         else rp_walk s first counter is skip ef tot)"

definition cm_enumerate_rps :: "sdk \<Rightarrow> bool \<Rightarrow> cm_req \<Rightarrow> 'a ctap_scheme \<Rightarrow> (ctap_error + bytes) \<times> 'a ctap_scheme" where
  "cm_enumerate_rps k preview r s =
     (let first = (cm_subcommand r = 0x02)
      in if first \<and> \<not> cm_may_read k preview r [0x02] (\<lambda>_. False) s then (Inl CTAP2_ERR_PIN_AUTH_INVALID, s)
         else if \<not> first \<and> rp_counter s > rp_total s then (Inl CTAP2_ERR_NOT_ALLOWED, s)
         else let s = (if first then s\<lparr>rp_counter := 1, rp_total := 0\<rparr> else s);
                  (ef, tot) = rp_walk s first (rp_counter s) [0..<MAX_RESIDENT_CREDENTIALS] 0 None (rp_total s);
                  s = s\<lparr>rp_total := tot\<rparr>
         in if ef = None then (Inl CTAP2_ERR_NO_CREDENTIALS, s)
         else let s = s\<lparr>rp_counter := rp_counter s + 1\<rparr>;
                  (ret, rp_id, s) = credential_rp_id_decrypt k ef s
         in if ret \<noteq> PICOKEYS_OK then (Inl CTAP2_ERR_PROCESSING, s)
         else (cbor_emit k (CMap ([CUInt 0x03, CMap [CText (ascii ''id''), CText rp_id],
                                   CUInt 0x04, CBytes (take 32 (drop 1 (file_get_data s ef)))] @
                                  (if first then [CUInt 0x05, CUInt (ucast (rp_total s))] else []))), s))"

subsection \<open>Enumerating credentials\<close>

fun cred_walk ::
    "sdk \<Rightarrow> objs \<Rightarrow> bytes \<Rightarrow> bool \<Rightarrow> u16 \<Rightarrow> nat list \<Rightarrow> u16 \<Rightarrow> fid option \<Rightarrow> u16 \<Rightarrow> 'a resident_scheme \<Rightarrow>
     fid option \<times> u16 \<times> 'a resident_scheme" where
  "cred_walk k ob rp first counter [] skip ef tot s = (ef, tot, s)"
| "cred_walk k ob rp first counter (i # is) skip ef tot s =
     (let tef = file_search s (EF_CRED + word_of_nat i);
          (same, s) = (if file_has_data s tef then credential_resident_matches_rp k ob tef rp s else (False, s))
      in if same
         then let skip = skip + 1; hit = (skip = counter); ef = (if hit \<and> ef = None then tef else ef)
              in if hit \<and> \<not> first then (ef, tot, s)
                 else cred_walk k ob rp first counter is skip ef (if first then tot + 1 else tot) s
         else cred_walk k ob rp first counter is skip ef tot s)"

text \<open>The entry of a credential: the user, the identifier, the public key, the extensions.\<close>

definition cm_user :: "credential \<Rightarrow> cbor" where
  "cm_user c =
     CMap ((case cred_userId c of Some d \<Rightarrow> [CText (ascii ''id''), CBytes d] | None \<Rightarrow> []) @
           (case cred_userName c of Some d \<Rightarrow> [CText (ascii ''name''), CText d] | None \<Rightarrow> []) @
           (case cred_userDisplayName c of Some d \<Rightarrow> [CText (ascii ''displayName''), CText d] | None \<Rightarrow> []))"

definition cm_entry ::
    "sdk \<Rightarrow> credential \<Rightarrow> cbor \<Rightarrow> u16 option \<Rightarrow> bytes option \<Rightarrow> cbor" where
  "cm_entry k c pub tot large_blob_key =
     (let e = cred_ext c
      in CMap ([CUInt 0x06, cm_user c,
                CUInt 0x07, CMap [CText (ascii ''id''),
                                  CBytes (case residentId c of Some rid \<Rightarrow> rid
                                          | None \<Rightarrow> credential_derive_resident k (the (cred_id c))),
                                  CText (ascii ''type''), CText (ascii ''public-key'')],
                CUInt 0x08, pub] @
               (case tot of Some n \<Rightarrow> [CUInt 0x09, CUInt (ucast n)] | None \<Rightarrow> []) @
               [CUInt 0x0A, CUInt (if credProtect e > 0 then credProtect e else CRED_PROT_UV_OPTIONAL)] @
               (case large_blob_key of Some d \<Rightarrow> [CUInt 0x0B, CBytes d] | None \<Rightarrow> []) @
               [CUInt 0x0C, CBool (ext_present e \<and> thirdPartyPayment e = Some True)]))"

definition cm_key_seed :: "credential \<Rightarrow> bytes" where
  "cm_key_seed c =
     (case residentId c of
        Some rid \<Rightarrow> if credential_resident_id_uses_stable_keys rid then rid else the (cred_id c)
      | None \<Rightarrow> the (cred_id c))"

text \<open>The public key stored in the container, or the one of the derived key for older files.\<close>

definition cm_public_key ::
    "sdk \<Rightarrow> objs \<Rightarrow> bool \<Rightarrow> fid option \<Rightarrow> credential \<Rightarrow> 'a resident_scheme \<Rightarrow>
     (ctap_error + (bytes + keypair)) \<times> 'a resident_scheme" where
  "cm_public_key k ob eddsa ef c s =
     (let (ret, cached, s) = credential_resident_public_key k ob ef s
      in if ret = PICOKEYS_OK then (Inr (Inl cached), s)
         else if resident_container_is_marker s ef then (Inl CTAP2_ERR_NOT_ALLOWED, s)
         else let (ret, key, s) = fido_load_key k eddsa (sint (ucast (cred_curve c) :: u32)) (cm_key_seed c) keypair_init s
              in if ret \<noteq> PICOKEYS_OK then (Inl CTAP2_ERR_NOT_ALLOWED, s) else (Inr (Inr key), s))"

text \<open>The answer for the credential that was found; the counter has advanced before it is written.\<close>

definition cm_show ::
    "sdk \<Rightarrow> objs \<Rightarrow> bool \<Rightarrow> bool \<Rightarrow> bytes \<Rightarrow> fid option \<Rightarrow> credential \<Rightarrow> 'a ctap_scheme \<Rightarrow> (ctap_error + bytes) \<times> 'a ctap_scheme" where
  "cm_show k ob eddsa first rp ef c s =
     (case cm_public_key k ob eddsa ef c s of
        (Inl e, s) \<Rightarrow> (Inl e, s)
      | (Inr pk, s) \<Rightarrow>
          let s = s\<lparr>cred_counter := cred_counter s + 1\<rparr>
          in case (case pk of Inl d \<Rightarrow> COSE_cached_key k d | Inr key \<Rightarrow> COSE_key k eddsa key) of
               Inl e \<Rightarrow> (Inl e, s)
             | Inr pub \<Rightarrow>
                 let s = (if cred_counter s \<le> cred_total s then s\<lparr>rpIdHashx := Some rp\<rparr> else s);
                     lbk = (ext_present (cred_ext c) \<and> largeBlobKey (cred_ext c) = Some True);
                     (ret, lb, s) = (if lbk then credential_derive_large_blob_key k (cm_key_seed c) s
                                     else (PICOKEYS_OK, [], s))
                 in if ret \<noteq> PICOKEYS_OK then (Inl CTAP2_ERR_PROCESSING, s)
                    else (cbor_emit k (cm_entry k c pub (if first then Some (cred_total s) else None)
                                         (if lbk then Some (fit 32 lb) else None)), s))"

definition cm_enumerate_credentials ::
    "sdk \<Rightarrow> objs \<Rightarrow> bool \<Rightarrow> bool \<Rightarrow> bytes \<Rightarrow> cm_req \<Rightarrow> 'a ctap_scheme \<Rightarrow> (ctap_error + bytes) \<times> 'a ctap_scheme" where
  "cm_enumerate_credentials k ob eddsa preview raw r s =
     (let first = (cm_subcommand r = 0x04)
      in if first \<and> cm_rpIdHash r = None then (Inl CTAP2_ERR_MISSING_PARAMETER, s)
         else if first \<and> \<not> cm_may_read k preview r (0x04 # raw) (\<lambda>h. h = the (cm_rpIdHash r)) s
         then (Inl CTAP2_ERR_PIN_AUTH_INVALID, s)
         else if \<not> first \<and> cred_counter s > cred_total s then (Inl CTAP2_ERR_NOT_ALLOWED, s)
         else let s = (if first then s\<lparr>cred_counter := 1, cred_total := 0\<rparr> else s);
                  rp = (case (if first then cm_rpIdHash r else rpIdHashx s) of Some d \<Rightarrow> d | None \<Rightarrow> []);
                  (ef, tot, s) = cred_walk k ob rp first (cred_counter s) [0..<MAX_RESIDENT_CREDENTIALS] 0 None (cred_total s) s;
                  s = s\<lparr>cred_total := tot\<rparr>
         in if \<not> file_has_data s ef then (Inl CTAP2_ERR_NO_CREDENTIALS, s)
         else case credential_load_resident k ob ef rp s of
                (Inl e, s) \<Rightarrow> (Inl CTAP2_ERR_NOT_ALLOWED, s)
              | (Inr c, s) \<Rightarrow> cm_show k ob eddsa first rp ef c s)"

subsection \<open>Deleting and updating\<close>

text \<open>The first resident credential with the identifier.\<close>

fun cm_find :: "sdk \<Rightarrow> objs \<Rightarrow> bytes \<Rightarrow> nat list \<Rightarrow> 'a resident_scheme \<Rightarrow> fid option \<times> 'a resident_scheme" where
  "cm_find k ob cid [] s = (None, s)"
| "cm_find k ob cid (i # is) s =
     (let ef = file_search s (EF_CRED + word_of_nat i);
          (found, s) = (if file_has_data s ef then credential_resident_matches_id k ob ef cid s else (False, s))
      in if found then (ef, s) else cm_find k ob cid is s)"

text \<open>One credential less in the record of the relying party, which goes with the last.\<close>

fun decrease_rp :: "sdk \<Rightarrow> bytes \<Rightarrow> nat list \<Rightarrow> 'a plat_scheme \<Rightarrow> 'a plat_scheme" where
  "decrease_rp k rp [] s = s"
| "decrease_rp k rp (j # js) s =
     (let ef = file_search s (rp_fid j); d = file_get_data s ef
      in if file_has_data s ef \<and> take 32 (drop 1 d) = rp
         then if d ! 0 - 1 = 0 then snd (file_delete k ef s)
              else snd (file_put_data k ef (d[0 := d ! 0 - 1]) s)
         else decrease_rp k rp js s)"

definition cm_delete ::
    "sdk \<Rightarrow> objs \<Rightarrow> bool \<Rightarrow> bytes \<Rightarrow> cm_req \<Rightarrow> 'a resident_scheme \<Rightarrow> (ctap_error + bytes) \<times> 'a resident_scheme" where
  "cm_delete k ob preview raw r s =
     (case desc_id (cm_cred r) of
        None \<Rightarrow> (Inl CTAP2_ERR_MISSING_PARAMETER, s)
      | Some cid \<Rightarrow>
          if \<not> cm_may_write k preview r (0x06 # raw) s then (Inl CTAP2_ERR_PIN_AUTH_INVALID, s)
          else let (ef, s) = cm_find k ob cid [0..<MAX_RESIDENT_CREDENTIALS] s
          in if ef = None then (Inl CTAP2_ERR_NO_CREDENTIALS, s)
          else let (ret, rp, s) = credential_resident_rp_id_hash k ob ef s
          in if ret \<noteq> PICOKEYS_OK then (Inl CTAP2_ERR_NOT_ALLOWED, s)
          else let (ret, s) = credential_resident_delete k ob ef s
          in if ret \<noteq> PICOKEYS_OK then (Inl CTAP2_ERR_NOT_ALLOWED, s)
          else let s = decrease_rp k rp [0..<MAX_RESIDENT_CREDENTIALS] s;
                   (_, s) = dev_state_update k DEV_STATE_CRED_STATE s
               in (Inr [], flash_commit s))"

text \<open>
  The credential is made anew with the new names. Its flag for signature counting is passed as
  a pointer where a boolean is expected: it is set whenever it was present. The stack buffer for
  the new identifier is taken as zeroed.
\<close>

definition cm_update_user ::
    "sdk \<Rightarrow> objs \<Rightarrow> bool \<Rightarrow> bytes \<Rightarrow> cm_req \<Rightarrow> 'a device_scheme \<Rightarrow> (ctap_error + bytes) \<times> 'a device_scheme" where
  "cm_update_user k ob preview raw r s =
     (case (desc_id (cm_cred r), cm_user_id r) of
        (Some cid, Some uid) \<Rightarrow>
          if \<not> cm_may_write k preview r (0x07 # raw) s then (Inl CTAP2_ERR_PIN_AUTH_INVALID, s)
          else let (ef, s) = cm_find k ob cid [0..<MAX_RESIDENT_CREDENTIALS] s
          in if ef = None then (Inl CTAP2_ERR_NO_CREDENTIALS, s)
          else let (ret, rp, s) = credential_resident_rp_id_hash k ob ef s
          in if ret \<noteq> PICOKEYS_OK then (Inl CTAP2_ERR_NOT_ALLOWED, s)
          else (case credential_load_resident k ob ef rp s of
            (Inl e, s) \<Rightarrow> (Inl CTAP2_ERR_NOT_ALLOWED, s)
          | (Inr c, s) \<Rightarrow>
              if uid \<noteq> (case cred_userId c of Some d \<Rightarrow> d | None \<Rightarrow> []) then (Inl CTAP1_ERR_INVALID_PARAMETER, s)
              else (case credential_create k (cred_rpId c) (cred_userId c) (cm_user_name r) (cm_user_display r)
                           (cred_opts c) (cred_ext c) (use_sign_count c \<noteq> None) (sint (ucast (cred_alg c) :: u32))
                           (sint (ucast (cred_curve c) :: u32)) (replicate MAX_CRED_ID_LENGTH 0) s of
                (Inl e, s) \<Rightarrow> (Inl CTAP2_ERR_NOT_ALLOWED, s)
              | (Inr newcred, s) \<Rightarrow>
                  let (ret, s) = credential_resident_update k ob ef newcred s
                  in if ret \<noteq> PICOKEYS_OK then (Inl CTAP2_ERR_NOT_ALLOWED, s)
                     else let (_, s) = dev_state_update k DEV_STATE_CRED_STATE s in (Inr [], flash_commit s)))
      | _ \<Rightarrow> (Inl CTAP2_ERR_MISSING_PARAMETER, s))"

subsection \<open>The command\<close>

text \<open>
  Behind a subcommand that is not known the code closes an encoder it has not opened; the error
  stands for whatever that gives.
\<close>

definition cred_mgmt ::
    "sdk \<Rightarrow> objs \<Rightarrow> bool \<Rightarrow> bool \<Rightarrow> bytes \<Rightarrow> cm_req \<Rightarrow> 'a ctap_scheme \<Rightarrow> (ctap_error + bytes) \<times> 'a ctap_scheme" where
  "cred_mgmt k ob eddsa preview raw r s =
     (case cm_check r of
        Some e \<Rightarrow> (Inl e, s)
      | None \<Rightarrow>
          if cm_subcommand r = 0x01 then cm_metadata k preview r s
          else if cm_subcommand r = 0x02 \<or> cm_subcommand r = 0x03 then cm_enumerate_rps k preview r s
          else if cm_subcommand r = 0x04 \<or> cm_subcommand r = 0x05
          then cm_enumerate_credentials k ob eddsa preview raw r s
          else if cm_subcommand r = 0x06 then cm_delete k ob preview raw r s
          else if cm_subcommand r = 0x07 then cm_update_user k ob preview raw r s
          else (Inl (CborError 769), s))"

definition cbor_cred_mgmt ::
    "sdk \<Rightarrow> objs \<Rightarrow> bool \<Rightarrow> bool \<Rightarrow> bytes \<Rightarrow> 'a ctap_scheme \<Rightarrow> ctap_error option \<times> 'a ctap_scheme" where
  "cbor_cred_mgmt k ob eddsa preview d s =
     (case sdk_cbor_dec k d of
        Inl e \<Rightarrow> (ctap_status (Some (CborError e)), s)
      | Inr m \<Rightarrow>
          (case cbor_map cm_field cm_init m of
             Inl e \<Rightarrow> (ctap_status (Some e), s)
           | Inr r \<Rightarrow>
               (case cred_mgmt k ob eddsa preview (sdk_cbor_raw k d 3) r s of
                  (Inl e, s) \<Rightarrow> (ctap_status (Some e), s)
                | (Inr resp, s) \<Rightarrow> (None, s\<lparr>res_APDU := resp\<rparr>))))"

end
