(* ===== verification/Large_Blobs.thy ===== *)
theory Large_Blobs
  imports Ctap
begin

text \<open>
  Large blobs (\<open>src/fido/cbor_large_blobs.c\<close>): reading a fragment of the stored array, and writing
  a new array fragment by fragment into a buffer that is stored when it is complete.
\<close>

record lb_req =
  lb_get :: "u64 option"
  lb_set :: "bytes option"
  lb_offset :: u64
  lb_length :: u64
  lb_param :: "bytes option"
  lb_protocol :: u64
  lb_val_c :: u64

definition lb_init :: lb_req where
  "lb_init =
     \<lparr>lb_get = None, lb_set = None, lb_offset = - 1, lb_length = 0, lb_param = None, lb_protocol = 0, lb_val_c = 1\<rparr>"

definition lb_field :: "lb_req \<Rightarrow> cbor list \<Rightarrow> ctap_error + lb_req \<times> cbor list" where
  "lb_field r xs =
     (case field_uint xs of
        Inl e \<Rightarrow> Inl e
      | Inr (val_u, xs) \<Rightarrow>
          if lb_val_c r \<le> 0 \<and> lb_val_c r \<noteq> val_u then Inl CTAP2_ERR_MISSING_PARAMETER
          else if val_u < lb_val_c r then Inl CTAP2_ERR_INVALID_CBOR
          else let r = r\<lparr>lb_val_c := val_u + 1\<rparr>
               in if val_u = 0x01 then set_field (\<lambda>v. r\<lparr>lb_get := Some v\<rparr>) (field_uint xs)
                  else if val_u = 0x02 then set_field (\<lambda>d. r\<lparr>lb_set := Some d\<rparr>) (field_bytes xs)
                  else if val_u = 0x03 then set_field (\<lambda>v. r\<lparr>lb_offset := v\<rparr>) (field_uint xs)
                  else if val_u = 0x04 then set_field (\<lambda>v. r\<lparr>lb_length := v\<rparr>) (field_uint xs)
                  else if val_u = 0x05 then set_field (\<lambda>d. r\<lparr>lb_param := Some d\<rparr>) (field_bytes xs)
                  else if val_u = 0x06 then set_field (\<lambda>v. r\<lparr>lb_protocol := v\<rparr>) (field_uint xs)
                  else Inr (r, xs))"

subsection \<open>Reading\<close>

definition lb_read :: "sdk \<Rightarrow> lb_req \<Rightarrow> u64 \<Rightarrow> 'a plat_scheme \<Rightarrow> (ctap_error + bytes) \<times> 'a plat_scheme" where
  "lb_read k r n s =
     (let blob = file_get_data s (file_search s EF_LARGEBLOB); off = unat (lb_offset r)
      in if lb_length r \<noteq> 0 then (Inl CTAP1_ERR_INVALID_PARAMETER, s)
         else if unat n > MAX_FRAGMENT_LENGTH then (Inl CTAP1_ERR_INVALID_LEN, s)
         else if off > length blob then (Inl CTAP1_ERR_INVALID_PARAMETER, s)
         else (cbor_emit k (CMap [CUInt 0x01, CBytes (take (min (unat n) (length blob - off)) (drop off blob))]), s))"

subsection \<open>Writing\<close>

text \<open>The start of a transfer, which is recorded before the request is authenticated.\<close>

definition lb_begin :: "lb_req \<Rightarrow> 'a ctap_scheme \<Rightarrow> ctap_error option \<times> 'a ctap_scheme" where
  "lb_begin r s =
     (if lb_offset r = 0
      then if lb_length r = 0 then (Some CTAP1_ERR_INVALID_PARAMETER, s)
           else if unat (lb_length r) > MAX_LARGE_BLOB_SIZE then (Some CTAP2_ERR_LARGE_BLOB_STORAGE_FULL, s)
           else if lb_length r < 17 then (Some CTAP1_ERR_INVALID_PARAMETER, s)
           else (None, s\<lparr>expectedLength := lb_length r, expectedNextOffset := 0\<rparr>)
      else if lb_length r \<noteq> 0 then (Some CTAP1_ERR_INVALID_PARAMETER, s)
      else (None, s))"

text \<open>What is authenticated: the offset in 32 bits and the digest of the fragment.\<close>

definition lb_verify_data :: "sdk \<Rightarrow> u64 \<Rightarrow> bytes \<Rightarrow> bytes" where
  "lb_verify_data k off d =
     replicate 32 0xff @ [0x0C, 0x00] @ sdk_put_u32_le k (ucast off) @ sha256 k d"

definition lb_authorize :: "sdk \<Rightarrow> lb_req \<Rightarrow> bytes \<Rightarrow> 'a fido_scheme \<Rightarrow> ctap_error option" where
  "lb_authorize k r d s =
     (case lb_param r of
        None \<Rightarrow> Some CTAP2_ERR_PUAT_REQUIRED
      | Some param \<Rightarrow>
          if lb_protocol r = 0 then Some CTAP2_ERR_MISSING_PARAMETER
          else if lb_protocol r \<noteq> 1 \<and> lb_protocol r \<noteq> 2 then Some CTAP1_ERR_INVALID_PARAMETER
          else if length param \<noteq> (if lb_protocol r = 1 then 16 else 32) then Some CTAP2_ERR_PIN_AUTH_INVALID
          else if \<not> verify k (ucast (lb_protocol r)) (paut_data (paut s)) (lb_verify_data k (lb_offset r) d) param
          then Some CTAP2_ERR_PIN_AUTH_INVALID
          else if permissions (paut s) AND CTAP_PERMISSION_LBW = 0 then Some CTAP2_ERR_PIN_AUTH_INVALID
          else None)"

text \<open>The complete array is checked against the digest at its end and stored.\<close>

definition lb_complete :: "sdk \<Rightarrow> 'a ctap_scheme \<Rightarrow> (ctap_error + bytes) \<times> 'a ctap_scheme" where
  "lb_complete k s =
     (let n = unat (expectedLength s); blob = take n (temp_lba s)
      in if n > 17 \<and> take 16 (sha256 k (take (n - 16) blob)) \<noteq> drop (n - 16) blob
         then (Inl CTAP2_ERR_INTEGRITY_FAILURE, s)
         else let (_, s) = file_put_data k (file_search s EF_LARGEBLOB) blob s in (Inr [], flash_commit s))"

definition lb_write :: "sdk \<Rightarrow> lb_req \<Rightarrow> bytes \<Rightarrow> 'a ctap_scheme \<Rightarrow> (ctap_error + bytes) \<times> 'a ctap_scheme" where
  "lb_write k r d s =
     (if length d > MAX_FRAGMENT_LENGTH then (Inl CTAP1_ERR_INVALID_LEN, s)
      else case lb_begin r s of
        (Some e, s) \<Rightarrow> (Inl e, s)
      | (None, s) \<Rightarrow>
          if lb_offset r \<noteq> expectedNextOffset s then (Inl CTAP1_ERR_INVALID_SEQ, s)
          else (case lb_authorize k r d s of
            Some e \<Rightarrow> (Inl e, s)
          | None \<Rightarrow>
              if lb_offset r + word_of_nat (length d) > expectedLength s then (Inl CTAP1_ERR_INVALID_PARAMETER, s)
              else let s = (if lb_offset r = 0 then s\<lparr>temp_lba := replicate MAX_LARGE_BLOB_SIZE 0\<rparr> else s);
                       s = s\<lparr>temp_lba := splice (temp_lba s) (unat (expectedNextOffset s), length d) d,
                             expectedNextOffset := expectedNextOffset s + word_of_nat (length d)\<rparr>
                   in if expectedNextOffset s = expectedLength s then lb_complete k s else (Inr [], s)))"

definition large_blobs :: "sdk \<Rightarrow> lb_req \<Rightarrow> 'a ctap_scheme \<Rightarrow> (ctap_error + bytes) \<times> 'a ctap_scheme" where
  "large_blobs k r s =
     (if lb_offset r = - 1 then (Inl CTAP1_ERR_INVALID_PARAMETER, s)
      else case (lb_get r, lb_set r) of
        (Some n, None) \<Rightarrow> lb_read k r n s
      | (None, Some d) \<Rightarrow> lb_write k r d s
      | _ \<Rightarrow> (Inl CTAP1_ERR_INVALID_PARAMETER, s))"

definition cbor_large_blobs :: "sdk \<Rightarrow> bytes \<Rightarrow> 'a ctap_scheme \<Rightarrow> ctap_error option \<times> 'a ctap_scheme" where
  "cbor_large_blobs k d s =
     (case sdk_cbor_dec k d of
        Inl e \<Rightarrow> (ctap_status (Some (CborError e)), s)
      | Inr m \<Rightarrow>
          (case cbor_map lb_field lb_init m of
             Inl e \<Rightarrow> (ctap_status (Some e), s)
           | Inr r \<Rightarrow>
               (case large_blobs k r s of
                  (Inl e, s) \<Rightarrow> (ctap_status (Some e), s)
                | (Inr resp, s) \<Rightarrow> (None, s\<lparr>res_APDU := resp\<rparr>))))"

end
