(* ===== verification/Authenticator_Config.thy ===== *)
theory Authenticator_Config
  imports Ctap
begin

text \<open>
  The configuration of the authenticator (\<open>src/fido/cbor_config.c\<close>) and the commands of the vendor
  (\<open>src/fido/cbor_vendor.c\<close>): the options, the minimum length of the PIN, and the lock that takes
  the device key out of the device, with the secure channel its key comes over.

  The loop over the subcommand parameters does not read anything for most subcommands: the
  loops here are partial functions, and \<open>None\<close> is a command that does not return.
\<close>

partial_function (option) cbor_loop ::
    "('s \<Rightarrow> cbor list \<Rightarrow> (ctap_error + 's \<times> cbor list) option) \<Rightarrow> 's \<Rightarrow> cbor list \<Rightarrow> (ctap_error + 's) option" where
  "cbor_loop body st xs =
     (case xs of
        [] \<Rightarrow> Some (Inr st)
      | _ \<Rightarrow>
          (case body st xs of
             None \<Rightarrow> None
           | Some (Inl e) \<Rightarrow> Some (Inl e)
           | Some (Inr (st, r)) \<Rightarrow> cbor_loop body st r))"

definition map_loop ::
    "('s \<Rightarrow> cbor list \<Rightarrow> (ctap_error + 's \<times> cbor list) option) \<Rightarrow> 's \<Rightarrow> cbor \<Rightarrow> (ctap_error + 's) option" where
  "map_loop body st c =
     (case c of
        CMap (CBad e # _) \<Rightarrow> Some (Inl (CborError e))
      | CMap xs \<Rightarrow> cbor_loop body st xs
      | _ \<Rightarrow> Some (Inl CborErrorImproperValue))"

subsection \<open>The request\<close>

record cfg_req =
  cfg_subcommand :: u64
  cfg_has_para :: bool
  vendorCommandId :: u64
  vendorParamByteString :: "bytes option"
  vendorParamInt :: u64
  vendorParamTextString :: "bytes option"
  newMinPinLength :: u64
  minPinLengthRPIDs :: "bytes list"
  forceChangePin :: "bool option"
  pinPolicy :: "bool option"
  cfg_protocol :: u64
  cfg_param :: "bytes option"
  cfg_val_c :: u64

definition cfg_init :: cfg_req where
  "cfg_init =
     \<lparr>cfg_subcommand = 0, cfg_has_para = False, vendorCommandId = 0, vendorParamByteString = None, vendorParamInt = 0,
      vendorParamTextString = None, newMinPinLength = 0, minPinLengthRPIDs = [], forceChangePin = None,
      pinPolicy = None, cfg_protocol = 0, cfg_param = None, cfg_val_c = 1\<rparr>"

definition rpid_item :: "bytes list \<Rightarrow> cbor list \<Rightarrow> ctap_error + bytes list \<times> cbor list" where
  "rpid_item ds xs =
     (if length ds \<ge> MAX_RPIDS_MINPIN_LENGTH then Inl CTAP2_ERR_KEY_STORE_FULL
      else set_field (\<lambda>d. ds @ [d]) (field_text xs))"

definition cfg_subpara_field :: "cfg_req \<Rightarrow> cbor list \<Rightarrow> (ctap_error + cfg_req \<times> cbor list) option" where
  "cfg_subpara_field r xs =
     (if cfg_subcommand r = 0xFF
      then Some (case field_uint xs of
             Inl e \<Rightarrow> Inl e
           | Inr (subpara, xs) \<Rightarrow>
               if subpara = 0x01 then set_field (\<lambda>v. r\<lparr>vendorCommandId := v\<rparr>) (field_uint xs)
               else if subpara = 0x02 then set_field (\<lambda>d. r\<lparr>vendorParamByteString := Some d\<rparr>) (field_bytes xs)
               else if subpara = 0x03 then set_field (\<lambda>v. r\<lparr>vendorParamInt := v\<rparr>) (field_uint xs)
               else if subpara = 0x04 then set_field (\<lambda>d. r\<lparr>vendorParamTextString := Some d\<rparr>) (field_text xs)
               else Inr (r, xs))
      else if cfg_subcommand r = 0x03
      then Some (case field_uint xs of
             Inl e \<Rightarrow> Inl e
           | Inr (subpara, xs) \<Rightarrow>
               if subpara = 0x01 then set_field (\<lambda>v. r\<lparr>newMinPinLength := v\<rparr>) (field_uint xs)
               else if subpara = 0x02
               then set_field (\<lambda>ds. r\<lparr>minPinLengthRPIDs := ds\<rparr>) (field_array rpid_item (minPinLengthRPIDs r) xs)
               else if subpara = 0x03 then set_field (\<lambda>b. r\<lparr>forceChangePin := Some b\<rparr>) (field_bool xs)
               else if subpara = 0x04 then set_field (\<lambda>b. r\<lparr>pinPolicy := Some b\<rparr>) (field_bool xs)
               else Inr (r, xs))
      else Some (Inr (r, xs)))"

definition cfg_field :: "cfg_req \<Rightarrow> cbor list \<Rightarrow> (ctap_error + cfg_req \<times> cbor list) option" where
  "cfg_field r xs =
     (case field_uint xs of
        Inl e \<Rightarrow> Some (Inl e)
      | Inr (val_u, xs) \<Rightarrow>
          if cfg_val_c r \<le> 1 \<and> cfg_val_c r \<noteq> val_u then Some (Inl CTAP2_ERR_MISSING_PARAMETER)
          else if val_u < cfg_val_c r then Some (Inl CTAP2_ERR_INVALID_CBOR)
          else let r = r\<lparr>cfg_val_c := val_u + 1\<rparr>
               in if val_u = 0x01 then Some (set_field (\<lambda>v. r\<lparr>cfg_subcommand := v\<rparr>) (field_uint xs))
                  else if val_u = 0x02
                  then (case xs of
                          [] \<Rightarrow> Some (Inl CborErrorImproperValue)
                        | c # _ \<Rightarrow>
                            map_option (\<lambda>q. case q of
                                Inl e \<Rightarrow> Inl e
                              | Inr r \<Rightarrow> map_sum id (Pair (r\<lparr>cfg_has_para := True\<rparr>)) (cbor_advance xs))
                              (map_loop cfg_subpara_field r c))
                  else if val_u = 0x03 then Some (set_field (\<lambda>v. r\<lparr>cfg_protocol := v\<rparr>) (field_uint xs))
                  else if val_u = 0x04 then Some (set_field (\<lambda>d. r\<lparr>cfg_param := Some d\<rparr>) (field_bytes xs))
                  else Some (Inr (r, xs)))"

subsection \<open>Authorization\<close>

definition cfg_authorize :: "sdk \<Rightarrow> cfg_req \<Rightarrow> bytes \<Rightarrow> 'a fido_scheme \<Rightarrow> ctap_error option" where
  "cfg_authorize k r raw s =
     (case cfg_param r of
        None \<Rightarrow> Some CTAP2_ERR_PUAT_REQUIRED
      | Some param \<Rightarrow>
          let payload = replicate 32 0xff @ [0x0d, ucast (cfg_subcommand r)] @ raw
          in if cfg_protocol r = 0 then Some CTAP2_ERR_MISSING_PARAMETER
             else if cfg_protocol r \<noteq> 1 \<and> cfg_protocol r \<noteq> 2 then Some CTAP1_ERR_INVALID_PARAMETER
             else if length param \<noteq> (if cfg_protocol r = 1 then 16 else 32) then Some CTAP2_ERR_PIN_AUTH_INVALID
             else if \<not> verify k (ucast (cfg_protocol r)) (paut_data (paut s)) (take (length payload mod 65536) payload) param
             then Some CTAP2_ERR_PIN_AUTH_INVALID
             else if permissions (paut s) AND CTAP_PERMISSION_ACFG = 0 then Some CTAP2_ERR_PIN_AUTH_INVALID
             else None)"

subsection \<open>The lock of the device key\<close>

text \<open>A text decrypted in place with the keys of the secure channel.\<close>

definition mse_decrypt_ct :: "sdk \<Rightarrow> bytes \<Rightarrow> 'a ctap_scheme \<Rightarrow> int \<times> bytes" where
  "mse_decrypt_ct k d s =
     (if length d < 16 then (- 1, d)
      else let n = length d - 16;
               (ret, plain) = sdk_chacha_dec k (take 32 (drop 12 (mse_key_enc s))) (take 12 (mse_key_enc s))
                                (fit 65 (mse_Qpt s)) (drop n d) (take n d)
           in (ret, fit n plain @ drop n d))"

text \<open>The key goes back into the device in the clear, and the copy in memory is wiped.\<close>

definition aut_disable :: "sdk \<Rightarrow> 'a fido_scheme \<Rightarrow> ctap_error option \<times> 'a fido_scheme" where
  "aut_disable k s =
     (let enc = file_search s EF_KEY_DEV_ENC
      in if \<not> file_has_data s enc then (Some CTAP2_ERR_NOT_ALLOWED, s)
         else if \<not> has_keydev_dec s then (Some CTAP2_ERR_PIN_AUTH_INVALID, s)
         else let (_, s) = file_put_data k (file_search s EF_KEY_DEV) (fit 32 (keydev_dec s)) s;
                  s = s\<lparr>keydev_dec := replicate 32 0\<rparr>;
                  (_, s) = file_put_data k (file_search s EF_KEY_DEV_ENC) [] s
              in (None, flash_commit s))"

text \<open>
  The key in its file is encrypted with the key that came over the channel, behind a nonce, into
  a buffer for 32 bytes of text. What of the text and the tag does not fit there is written
  behind the buffer and not stored.
\<close>

definition aut_enable :: "sdk \<Rightarrow> cfg_req \<Rightarrow> 'a ctap_scheme \<Rightarrow> ctap_error option \<times> 'a ctap_scheme" where
  "aut_enable k r s =
     (let ef = file_search s EF_KEY_DEV
      in if \<not> file_has_data s ef \<or> \<not> mse_init s then (Some CTAP2_ERR_NOT_ALLOWED, s)
         else case vendorParamByteString r of
           None \<Rightarrow> (Some CTAP1_ERR_INVALID_PARAMETER, s)
         | Some d \<Rightarrow>
             if length d \<noteq> 32 + 16 then (Some CTAP1_ERR_INVALID_PARAMETER, s)
             else let (ret, key) = mse_decrypt_ct k d s
             in if ret \<noteq> 0 then (Some CTAP1_ERR_INVALID_PARAMETER, s)
             else let (iv, s) = random_fill_buffer k 12 s;
                      (ret, cipher, tag) = sdk_chacha_enc k (take 32 key) iv [] (file_get_data s ef)
             in if ret \<noteq> 0 then (Some CTAP1_ERR_INVALID_PARAMETER, s)
             else let (_, s) = file_put_data k (file_search s EF_KEY_DEV_ENC)
                                 (fit 60 (iv @ fit (file_get_size s ef) cipher @ fit 16 tag)) s;
                      (_, s) = file_put_data k ef (replicate (file_get_size s ef) 0) s;
                      (_, s) = file_put_data k ef [] s
                  in (None, flash_commit s))"

subsection \<open>The subcommands\<close>

abbreviation (input) CTAP_CONFIG_AUT_DISABLE :: u64 where "CTAP_CONFIG_AUT_DISABLE \<equiv> 0x0001a40f04a25ed9"
abbreviation (input) CTAP_CONFIG_EA_UPLOAD :: u64 where "CTAP_CONFIG_EA_UPLOAD \<equiv> 0x0002a674c29a8dcf"
abbreviation (input) CTAP_CONFIG_MCUV_NOTRQD :: u64 where "CTAP_CONFIG_MCUV_NOTRQD \<equiv> 0x000377913e17951f"
abbreviation (input) CTAP_CONFIG_AUT_ENABLE :: u64 where "CTAP_CONFIG_AUT_ENABLE \<equiv> 0x00043f56b34285e2"
abbreviation (input) CTAP_CONFIG_NORK :: u64 where "CTAP_CONFIG_NORK \<equiv> 0x00052b41f53590d3"
abbreviation (input) CTAP_CONFIG_PIN_POLICY :: u64 where "CTAP_CONFIG_PIN_POLICY \<equiv> 0x0007d70fe96c3897"

definition ea_upload :: "sdk \<Rightarrow> cfg_req \<Rightarrow> 'a plat_scheme \<Rightarrow> ctap_error option \<times> 'a plat_scheme" where
  "ea_upload k r s =
     (case vendorParamByteString r of
        None \<Rightarrow> (Some CTAP2_ERR_MISSING_PARAMETER, s)
      | Some d \<Rightarrow>
          let ef = file_search s EF_EE_DEV_EA;
              s = (if ef \<noteq> None then snd (file_put_data k ef (take (length d mod 65536) d) s) else s)
          in (None, flash_commit s))"

definition put_pin_policy :: "sdk \<Rightarrow> cfg_req \<Rightarrow> 'a plat_scheme \<Rightarrow> 'a plat_scheme" where
  "put_pin_policy k r s =
     (let ef = file_search s EF_PIN_COMPLEXITY_POLICY;
          d = (case vendorParamByteString r of Some d \<Rightarrow> d | None \<Rightarrow> []); v = vendorParamInt r
      in if ef = None then flash_commit s
         else let (ok, s) = calloc k (2 + length d) s
              in flash_commit (if ok then snd (file_put_data k ef ([ucast (drop_bit 8 v), ucast (v AND 0xFF)] @
                                                                   take (length d mod 65536) d) s) else s))"

definition config_vendor :: "sdk \<Rightarrow> cfg_req \<Rightarrow> 'a ctap_scheme \<Rightarrow> ctap_error option \<times> 'a ctap_scheme" where
  "config_vendor k r s =
     (let c = vendorCommandId r
      in if c = CTAP_CONFIG_AUT_DISABLE then aut_disable k s
         else if c = CTAP_CONFIG_AUT_ENABLE then aut_enable k r s
         else if c = CTAP_CONFIG_EA_UPLOAD then ea_upload k r s
         else if c = CTAP_CONFIG_PIN_POLICY then (None, put_pin_policy k r s)
         else if c = CTAP_CONFIG_NORK then (None, set_opts k (get_opts s XOR FIDO2_OPT_NORK) s)
         else if c = CTAP_CONFIG_MCUV_NOTRQD then (None, set_opts k (get_opts s XOR FIDO2_OPT_MCUV_NOTRQD) s)
         else (Some CTAP2_ERR_INVALID_SUBCOMMAND, s))"

text \<open>The build option \<open>FORBID_DISABLE_AUV\<close> is a parameter.\<close>

definition toggle_always_uv :: "sdk \<Rightarrow> bool \<Rightarrow> 'a plat_scheme \<Rightarrow> ctap_error option \<times> 'a plat_scheme" where
  "toggle_always_uv k forbid s =
     (if get_opts s AND FIDO2_OPT_AUV = 0
      then let s = (if get_opts s AND FIDO2_OPT_MCUV_NOTRQD \<noteq> 0
                    then set_opts k (get_opts s AND NOT FIDO2_OPT_MCUV_NOTRQD) s else s)
           in (None, set_opts k (get_opts s OR FIDO2_OPT_AUV) s)
      else if forbid then (Some CTAP2_ERR_OPERATION_DENIED, s)
      else (None, set_opts k (get_opts s AND NOT FIDO2_OPT_AUV) s))"

text \<open>
  The minimum length of the PIN: it may grow up to the longest PIN. A PIN that is too short has
  to be changed, and the tokens are renewed whenever the request says something of that.
\<close>

definition set_min_pin_length :: "sdk \<Rightarrow> cfg_req \<Rightarrow> 'a fido_scheme \<Rightarrow> ctap_error option \<times> 'a fido_scheme" where
  "set_min_pin_length k r s =
     (let ef = file_search s EF_MINPINLEN; ef_pin = file_search s EF_PIN;
          current = ucast (min_pin_len s) :: u64;
          new = (if newMinPinLength r = 0 then current else newMinPinLength r)
      in if newMinPinLength r \<noteq> 0 \<and> (newMinPinLength r > 63 \<or> newMinPinLength r < current)
         then (Some CTAP2_ERR_PIN_POLICY_VIOLATION, s)
         else if forceChangePin r = Some True \<and> \<not> file_has_data s ef_pin then (Some CTAP2_ERR_PIN_NOT_SET, s)
         else let force = (if file_has_data s ef_pin \<and> ucast (byte_at (file_get_data s ef_pin) 1) < new
                           then Some True else forceChangePin r);
                  s = (if force \<noteq> None then resetPinUvAuthToken k (resetPersistentPinUvAuthToken k s) else s);
                  (_, s) = file_put_data k ef ([ucast new, if force = Some True then 1 else 0] @
                                               concat (map (sha256 k) (minPinLengthRPIDs r))) s;
                  policy = file_search s EF_PIN_COMPLEXITY_POLICY;
                  s = (if pinPolicy r = Some True \<and> policy \<noteq> None then snd (file_put_data k policy [0, 0] s) else s)
              in (None, flash_commit s))"

definition config_subcommand :: "sdk \<Rightarrow> bool \<Rightarrow> cfg_req \<Rightarrow> 'a ctap_scheme \<Rightarrow> ctap_error option \<times> 'a ctap_scheme" where
  "config_subcommand k forbid r s =
     (if cfg_subcommand r = 0xFF then config_vendor k r s
      else if cfg_subcommand r = 0x02 then toggle_always_uv k forbid s
      else if cfg_subcommand r = 0x03 then set_min_pin_length k r s
      else if cfg_subcommand r = 0x01 then (None, set_opts k (get_opts s OR FIDO2_OPT_EA) s)
      else (Some CTAP2_ERR_UNSUPPORTED_OPTION, s))"

definition config :: "sdk \<Rightarrow> bool \<Rightarrow> bytes \<Rightarrow> cfg_req \<Rightarrow> 'a ctap_scheme \<Rightarrow> ctap_error option \<times> 'a ctap_scheme" where
  "config k forbid raw r s =
     (case cfg_authorize k r (if cfg_has_para r then raw else []) s of
        Some e \<Rightarrow> (Some e, s)
      | None \<Rightarrow> config_subcommand k forbid r s)"

definition cbor_config :: "sdk \<Rightarrow> bool \<Rightarrow> bytes \<Rightarrow> 'a ctap_scheme \<Rightarrow> (ctap_error option \<times> 'a ctap_scheme) option" where
  "cbor_config k forbid d s =
     (case sdk_cbor_dec k d of
        Inl e \<Rightarrow> Some (ctap_status (Some (CborError e)), s)
      | Inr m \<Rightarrow>
          (case map_loop cfg_field cfg_init m of
             None \<Rightarrow> None
           | Some (Inl e) \<Rightarrow> Some (ctap_status (Some e), s)
           | Some (Inr r) \<Rightarrow>
               (case config k forbid (sdk_cbor_raw k d 3) r s of
                  (Some e, s) \<Rightarrow> Some (ctap_status (Some e), s)
                | (None, s) \<Rightarrow> Some (None, s\<lparr>res_APDU := []\<rparr>))))"

end
