(* ===== verification/Vendor.thy ===== *)
theory Vendor
  imports Authenticator_Config
begin

text \<open>
  The commands of the vendor (\<open>src/fido/cbor_vendor.c\<close>): the backup of the locked device key, the
  secure channel, unlocking, and the request for an attestation certificate. Behind a command
  of the channel or of the certificate that is not known the code closes an encoder it has not
  opened; the error stands for whatever that gives.
\<close>

record vd_req =
  vendorCmd :: u64
  vendorParam :: "bytes option"
  vd_cose :: cose_key
  vd_protocol :: u64
  vd_param :: "bytes option"
  vd_val_c :: u64

definition vd_init :: vd_req where
  "vd_init = \<lparr>vendorCmd = 0, vendorParam = None, vd_cose = cose_empty, vd_protocol = 0, vd_param = None, vd_val_c = 1\<rparr>"

definition vd_subpara_field :: "vd_req \<Rightarrow> cbor list \<Rightarrow> ctap_error + vd_req \<times> cbor list" where
  "vd_subpara_field r xs =
     (case field_uint xs of
        Inl e \<Rightarrow> Inl e
      | Inr (subpara, xs) \<Rightarrow>
          if subpara = 0x01 then set_field (\<lambda>d. r\<lparr>vendorParam := Some d\<rparr>) (field_bytes xs)
          else if subpara = 0x02 then set_field (\<lambda>q. r\<lparr>vd_cose := q\<rparr>) (COSE_read_key (vd_cose r) xs)
          else map_sum id (Pair r) (cbor_advance xs))"

definition vd_field :: "vd_req \<Rightarrow> cbor list \<Rightarrow> ctap_error + vd_req \<times> cbor list" where
  "vd_field r xs =
     (case field_uint xs of
        Inl e \<Rightarrow> Inl e
      | Inr (val_u, xs) \<Rightarrow>
          if vd_val_c r \<le> 1 \<and> vd_val_c r \<noteq> val_u then Inl CTAP2_ERR_MISSING_PARAMETER
          else if val_u < vd_val_c r then Inl CTAP2_ERR_INVALID_CBOR
          else let r = r\<lparr>vd_val_c := val_u + 1\<rparr>
               in if val_u = 0x01 then set_field (\<lambda>v. r\<lparr>vendorCmd := v\<rparr>) (field_uint xs)
                  else if val_u = 0x02 then field_map vd_subpara_field r xs
                  else if val_u = 0x03 then set_field (\<lambda>v. r\<lparr>vd_protocol := v\<rparr>) (field_uint xs)
                  else if val_u = 0x04 then set_field (\<lambda>d. r\<lparr>vd_param := Some d\<rparr>) (field_bytes xs)
                  else Inr (r, xs))"

definition vendor_backup :: "sdk \<Rightarrow> vd_req \<Rightarrow> 'a fido_scheme \<Rightarrow> (ctap_error + bytes) \<times> 'a fido_scheme" where
  "vendor_backup k r s =
     (if vendorCmd r = 0x01
      then if \<not> has_keydev_dec s then (Inl CTAP2_ERR_PIN_AUTH_INVALID, s)
           else (cbor_emit k (CMap [CUInt 0x01, CBytes (file_get_data s (file_search s EF_KEY_DEV_ENC))]), s)
      else if vendorCmd r = 0x02
      then (case vendorParam r of
              None \<Rightarrow> (Inl CTAP2_ERR_MISSING_PARAMETER, s)
            | Some d \<Rightarrow>
                let (present, s) = check_user_presence k s
                in if \<not> present then (Inl CTAP2_ERR_OPERATION_DENIED, s)
                   else let ef = file_search s EF_KEY_DEV;
                            (_, s) = file_put_data k (file_search s EF_KEY_DEV_ENC) (take (length d mod 65536) d) s;
                            (_, s) = file_put_data k ef (replicate (file_get_size s ef) 0) s;
                            (_, s) = file_put_data k ef [] s
                        in (Inr [], flash_commit s))
      else (Inl CTAP2_ERR_INVALID_SUBCOMMAND, s))"

text \<open>
  A fresh key pair for the channel; the keys are derived from the shared secret and the point of
  the host. What the host's point left in the channel stays when a later step fails.
\<close>

definition vendor_mse :: "sdk \<Rightarrow> vd_req \<Rightarrow> 'a ctap_scheme \<Rightarrow> (ctap_error + bytes) \<times> 'a ctap_scheme" where
  "vendor_mse k r s =
     (if vendorCmd r \<noteq> 0x01 then (Inl (CborError 769), s)
      else case (cose_kax (vd_cose r), cose_kay (vd_cose r)) of
        (Some kax, Some kay) \<Rightarrow>
          if cose_alg (vd_cose r) = 0 then (Inl CTAP2_ERR_MISSING_PARAMETER, s)
          else let n = tick s; s = s\<lparr>tick := n + 4\<rparr>;
                   (ret, d) = sdk_ecdh_gen k n
          in if ret \<noteq> 0 then (Inl CTAP1_ERR_INVALID_PARAMETER, s)
          else if sdk_mpi_read k (n + 1) kax \<noteq> 0 \<or> sdk_mpi_read k (n + 2) kay \<noteq> 0
          then (Inl CTAP1_ERR_INVALID_PARAMETER, s)
          else let (ret, Qpt) = sdk_point_write_full k (kax, kay);
                   s = s\<lparr>mse_Qpt := fit 65 Qpt\<rparr>
          in if ret \<noteq> 0 then (Inl CTAP1_ERR_INVALID_PARAMETER, s)
          else let (ret, z) = sdk_ecdh_shared k (n + 3) d (kax, kay);
                   (ret, buf) = (if ret \<noteq> 0 then (ret, []) else sdk_mpi_write k z 32)
          in if ret \<noteq> 0 then (Inl CTAP1_ERR_INVALID_PARAMETER, s)
          else let (ret, keys) = sdk_hkdf k MD_SHA256 [] buf (mse_Qpt s) 44;
                   s = s\<lparr>mse_key_enc := fit 44 keys\<rparr>
          in if ret \<noteq> 0 then (Inl CTAP1_ERR_INVALID_PARAMETER, s)
          else let s = s\<lparr>mse_init := True\<rparr>
          in (case COSE_key_params k 1 25 32 (sdk_ecdh_public k d) of
                Inl e \<Rightarrow> (Inl e, s)
              | Inr c \<Rightarrow> (cbor_emit k (CMap [CUInt 0x01, c]), s))
      | _ \<Rightarrow> (Inl CTAP2_ERR_MISSING_PARAMETER, s))"

text \<open>
  The locked key is decrypted straight into the device key in memory, which holds what the
  cipher leaves there also when the tag is wrong.
\<close>

definition vendor_unlock :: "sdk \<Rightarrow> vd_req \<Rightarrow> 'a ctap_scheme \<Rightarrow> (ctap_error + bytes) \<times> 'a ctap_scheme" where
  "vendor_unlock k r s =
     (if \<not> mse_init s then (Inl CTAP2_ERR_NOT_ALLOWED, s)
      else case vendorParam r of
        None \<Rightarrow> (Inl CTAP1_ERR_INVALID_PARAMETER, s)
      | Some d \<Rightarrow>
          if length d \<noteq> 32 + 16 then (Inl CTAP1_ERR_INVALID_PARAMETER, s)
          else let (ret, key) = mse_decrypt_ct k d s; enc = file_get_data s (file_search s EF_KEY_DEV_ENC)
          in if ret \<noteq> 0 then (Inl CTAP1_ERR_INVALID_PARAMETER, s)
          else if enc = [] then (Inl CTAP2_ERR_INTEGRITY_FAILURE, s)
          else let (ret, plain) = sdk_chacha_dec k (take 32 key) (take 12 enc) [] (drop (length enc - 16) enc) (take 32 (drop 12 enc));
                   s = s\<lparr>keydev_dec := fit 32 plain\<rparr>
          in if ret \<noteq> 0 then (Inl CTAP1_ERR_INVALID_PARAMETER, s)
          else (Inr [], s\<lparr>has_keydev_dec := True\<rparr>))"

definition vendor_ea :: "sdk \<Rightarrow> vd_req \<Rightarrow> 'a fido_scheme \<Rightarrow> (ctap_error + bytes) \<times> 'a fido_scheme" where
  "vendor_ea k r s =
     (if vendorCmd r \<noteq> 0x01 then (Inl (CborError 769), s)
      else let (ret, keydev, s) = load_keydev k (replicate 32 0) s
      in if ret \<noteq> PICOKEYS_OK then (Inl CTAP1_ERR_OTHER, s)
      else let (ret, ekey) = sdk_ec_read_key k MBEDTLS_ECP_DP_SECP256R1 keypair_init (take 32 keydev)
      in if ret \<noteq> 0 then (Inl CTAP2_ERR_PROCESSING, s)
      else let (ret, ekey) = sdk_ec_calc_public k (tick s) ekey; s = s\<lparr>tick := Suc (tick s)\<rparr>
      in if ret \<noteq> 0 then (Inl CTAP2_ERR_PROCESSING, s)
      else let (ret, der) = sdk_x509_csr k (tick s)
                 \<lparr>csr_subject_name = ascii ''C=ES,O=Pico Keys,OU=Authenticator Attestation,CN=Pico Fido EE Serial '' @ sdk_serial_str k,
                  csr_key = ekey, csr_md_alg = MD_SHA256,
                  csr_extension = ([0x2B, 0x06, 0x01, 0x04, 0x01, 0x82, 0xE5, 0x1C, 0x01, 0x01, 0x04], aaguid)\<rparr> 1024;
               s = s\<lparr>tick := Suc (tick s)\<rparr>
      in if ret \<le> 0 then (Inl CTAP2_ERR_PROCESSING, s)
         else (cbor_emit k (CMap [CUInt 0x01, CBytes der]), s))"

definition cbor_vendor_generic :: "sdk \<Rightarrow> byte \<Rightarrow> bytes \<Rightarrow> 'a ctap_scheme \<Rightarrow> ctap_error option \<times> 'a ctap_scheme" where
  "cbor_vendor_generic k cmd d s =
     (case sdk_cbor_dec k d of
        Inl e \<Rightarrow> (ctap_status (Some (CborError e)), s)
      | Inr m \<Rightarrow>
          (case cbor_map vd_field vd_init m of
             Inl e \<Rightarrow> (ctap_status (Some e), s)
           | Inr r \<Rightarrow>
               (case (if cmd = 0x01 then vendor_backup k r s
                      else if cmd = 0x02 then vendor_mse k r s
                      else if cmd = 0x03 then vendor_unlock k r s
                      else if cmd = 0x04 then vendor_ea k r s
                      else (Inl CTAP2_ERR_UNSUPPORTED_OPTION, s)) of
                  (Inl e, s) \<Rightarrow> (ctap_status (Some e), s)
                | (Inr resp, s) \<Rightarrow> (None, s\<lparr>res_APDU := resp\<rparr>))))"

definition cbor_vendor :: "sdk \<Rightarrow> bytes \<Rightarrow> 'a ctap_scheme \<Rightarrow> ctap_error option \<times> 'a ctap_scheme" where
  "cbor_vendor k d s =
     (case d of
        [] \<Rightarrow> (Some CTAP1_ERR_INVALID_LEN, s)
      | cmd # d \<Rightarrow> if cmd \<ge> 0x01 then cbor_vendor_generic k cmd d s else (Some CTAP2_ERR_INVALID_CBOR, s))"

end
