(* ===== verification/Ctap_Commands.thy ===== *)
theory Ctap_Commands
  imports Get_Assertion Cred_Mgmt Large_Blobs Vendor Client_Pin_Commands U2f Otp_Slots
begin

text \<open>
  The rest of the FIDO2 commands (\<open>cbor_get_info.c\<close>, \<open>cbor_reset.c\<close>, \<open>cbor_selection.c\<close>), the
  dispatch of all of them (\<open>cbor_parse\<close> of \<open>cbor.c\<close>) and the commands of the management applet
  that rest on them (\<open>management.c\<close>).

  The options of the build are parameters: \<open>eddsa\<close> (\<open>MBEDTLS_EDDSA_C\<close>) and the record below.
\<close>

record build =
  ENABLE_POWER_ON_RESET :: bool
  FORBID_DISABLE_AUV :: bool
  DEFAULT_MCUV_NOT_REQUIRED :: bool
  DEFAULT_PIN_POLICY :: bool
  ENABLE_OTP_APP :: bool

subsection \<open>Information\<close>

abbreviation (input) DEV_STATE_SIZE :: nat where "DEV_STATE_SIZE \<equiv> 32"

text \<open>
  A block of the device state, encrypted under a key derived from the persistent token behind a
  random initialisation vector.
\<close>

definition encrypt_dev_state_block ::
    "sdk \<Rightarrow> byte \<Rightarrow> 'a fido_scheme \<Rightarrow> bytes option \<times> 'a fido_scheme" where
  "encrypt_dev_state_block k state s =
     (let ef = file_search s EF_DEV_STATE;
          off = (if state = DEV_STATE_DEV_ID then 0 else 16);
          info = (if state = DEV_STATE_DEV_ID then ascii ''encIdentifier'' else ascii ''encCredStoreState'')
      in if state \<noteq> DEV_STATE_DEV_ID \<and> state \<noteq> DEV_STATE_CRED_STATE then (None, s)
         else if file_get_size s ef \<noteq> DEV_STATE_SIZE \<or> length (ppaut_data (ppaut s)) \<noteq> 32 then (None, s)
         else let (ret, key) = sdk_hkdf k MD_SHA256 (replicate 32 0) (ppaut_data (ppaut s)) info 16
         in if ret \<noteq> 0 then (None, s)
         else let (iv, s) = random_fill_buffer k 16 s;
                  (ret, ct) = sdk_aes_enc k key (Some iv) (take 16 (drop off (file_get_data s ef)))
              in if ret \<noteq> PICOKEYS_OK then (None, s) else (Some (iv @ ct), s))"

definition info_options :: "'a plat_scheme \<Rightarrow> cbor list" where
  "info_options s =
     (let opts = get_opts s; item = (\<lambda>x b. [CText (ascii x), CBool b])
      in (if opts AND FIDO2_OPT_EA \<noteq> 0 \<and> file_has_data s (file_search s EF_EE_DEV_EA) then item ''ep'' True else []) @
         item ''rk'' (opts AND FIDO2_OPT_NORK = 0) @ item ''alwaysUv'' (opts AND FIDO2_OPT_AUV \<noteq> 0) @
         item ''credMgmt'' True @ item ''authnrCfg'' True @
         item ''clientPin'' (file_has_data s (file_search s EF_PIN)) @ item ''largeBlobs'' True @
         item ''perCredMgmtRO'' True @ item ''pinUvAuthToken'' True @ item ''setMinPINLength'' True @
         item ''makeCredUvNotRqd'' (opts AND FIDO2_OPT_AUV = 0 \<and> opts AND FIDO2_OPT_MCUV_NOTRQD \<noteq> 0))"

definition info_algorithms :: "sdk \<Rightarrow> bool \<Rightarrow> cbor list" where
  "info_algorithms k eddsa =
     [COSE_public_key 7] @ (if eddsa then [COSE_public_key 8] else []) @ [COSE_public_key 35, COSE_public_key 36] @
     (if sdk_enabled_k1 k then [COSE_public_key 47] else [])"

definition info_front :: "sdk \<Rightarrow> bool \<Rightarrow> 'a plat_scheme \<Rightarrow> cbor list" where
  "info_front k eddsa s =
     (let policy = file_search s EF_PIN_COMPLEXITY_POLICY; minpin = file_search s EF_MINPINLEN;
          texts = map (\<lambda>x. CText (ascii x))
      in [CUInt 0x01, CArray (texts [''U2F_V2'', ''FIDO_2_0'', ''FIDO_2_1'', ''FIDO_2_2'', ''FIDO_2_3'']),
          CUInt 0x02, CArray (texts ([''uvm'', ''credBlob'', ''credProtect'', ''hmac-secret'', ''largeBlobKey'',
            ''minPinLength'', ''hmac-secret-mc'', ''thirdPartyPayment''] @
            (if file_has_data s policy then [''pinComplexityPolicy''] else []))),
          CUInt 0x03, CBytes aaguid, CUInt 0x04, CMap (info_options s), CUInt 0x05, CUInt 1024,
          CUInt 0x06, CArray [CUInt 1, CUInt 2], CUInt 0x07, CUInt 16, CUInt 0x08, CUInt 1024,
          CUInt 0x0A, CArray (info_algorithms k eddsa), CUInt 0x0B, CUInt 2048,
          CUInt 0x0C, CBool (file_has_data s minpin \<and> byte_at (file_get_data s minpin) 1 = 1),
          CUInt 0x0D, CUInt (ucast (min_pin_len s)), CUInt 0x0E, CUInt 0x0706, CUInt 0x0F, CUInt 128,
          CUInt 0x10, CUInt 120] @
         (if sdk_phy_vid k \<noteq> 0x1050
          then [CUInt 0x15, CArray (map CUInt [CTAP_CONFIG_AUT_DISABLE, CTAP_CONFIG_EA_UPLOAD, CTAP_CONFIG_MCUV_NOTRQD,
                  CTAP_CONFIG_AUT_ENABLE, CTAP_CONFIG_NORK, CTAP_CONFIG_PIN_POLICY])]
          else []))"

definition info_back :: "bytes \<Rightarrow> bytes \<Rightarrow> 'a plat_scheme \<Rightarrow> cbor list" where
  "info_back enc_identifier enc_cred_store_state s =
     (let policy = file_search s EF_PIN_COMPLEXITY_POLICY
      in [CUInt 0x19, CBytes enc_identifier, CUInt 0x1B, CBool (file_has_data s policy)] @
         (if file_get_size s policy > 2 then [CUInt 0x1C, CBytes (drop 2 (file_get_data s policy))] else []) @
         [CUInt 0x1D, CUInt 63, CUInt 0x1E, CBytes enc_cred_store_state,
          CUInt 0x1F, CArray [CUInt 0x01, CUInt 0x02, CUInt 0x03, CUInt 0xFF]])"

text \<open>A device state of the wrong size is replaced first. An encoding that fails is \<open>-CTAP2_ERR_INVALID_CBOR\<close>.\<close>

definition cbor_get_info :: "sdk \<Rightarrow> bool \<Rightarrow> 'a fido_scheme \<Rightarrow> ctap_error option \<times> 'a fido_scheme" where
  "cbor_get_info k eddsa s =
     (let front = info_front k eddsa s; ef = file_search s EF_DEV_STATE;
          s = (if file_get_size s ef \<noteq> DEV_STATE_SIZE
               then let (r, s) = random_fill_buffer k 32 s in flash_commit (snd (file_put_data k ef r s)) else s);
          (ident, s) = encrypt_dev_state_block k DEV_STATE_DEV_ID s
      in case ident of
           None \<Rightarrow> (Some CTAP2_ERR_PROCESSING, s)
         | Some ident \<Rightarrow>
             let (state, s) = encrypt_dev_state_block k DEV_STATE_CRED_STATE s
             in case state of
                  None \<Rightarrow> (Some CTAP2_ERR_PROCESSING, s)
                | Some state \<Rightarrow>
                    (case cbor_emit k (CMap (front @ info_back (fit 32 ident) (fit 32 state) s)) of
                       Inl e \<Rightarrow> (Some (CTAP_RC (rc_of_int (- 0x12))), s)
                     | Inr resp \<Rightarrow> (None, s\<lparr>res_APDU := resp\<rparr>)))"

subsection \<open>Reset and selection\<close>

text \<open>
  The firmware as a whole: the globals of the OTP applet beside those of the authenticator, over the
  one device they share. An operation of the OTP applet runs on the device with its own globals.
\<close>

record firmware = ctap +
  otp_globals :: "unit otp_ext"

definition with_otp :: "(otp \<Rightarrow> otp) \<Rightarrow> 'a firmware_scheme \<Rightarrow> 'a firmware_scheme" where
  "with_otp f s =
     (let t = f (device.extend (device.truncate s) (otp_globals s))
      in (device.extend (device.truncate t) (device.more s))\<lparr>otp_globals := device.more t\<rparr>)"

text \<open>The start of the authenticator, and of the OTP applet with it where the build has one.\<close>

definition init_fido :: "sdk \<Rightarrow> build \<Rightarrow> 'a firmware_scheme \<Rightarrow> 'a firmware_scheme" where
  "init_fido k b s =
     (let s = scan_all k (session_invalidate s);
          (_, s) = credential_migrate_rp_secure k s;
          s = (if ENABLE_OTP_APP b then with_otp (init_otp k) s else s)
      in s\<lparr>needs_power_cycle := False\<rparr>)"

definition cbor_reset :: "sdk \<Rightarrow> build \<Rightarrow> 'a firmware_scheme \<Rightarrow> ctap_error option \<times> 'a firmware_scheme" where
  "cbor_reset k b s =
     (if ENABLE_POWER_ON_RESET b \<and> \<not> sdk_no_power_reset k \<and> millis s > 10000 then (Some CTAP2_ERR_NOT_ALLOWED, s)
      else let (wait, s) = wait_button_pressed k s
      in if wait > 0 then (Some CTAP2_ERR_USER_ACTION_TIMEOUT, s)
      else let s = init_fido k b (s\<lparr>files := sdk_init_flash k (tick s) (files s), tick := Suc (tick s)\<rparr>);
               s = (if DEFAULT_MCUV_NOT_REQUIRED b then set_opts k (get_opts s OR FIDO2_OPT_MCUV_NOTRQD) s else s);
               ef = file_search s EF_PIN_COMPLEXITY_POLICY;
               s = (if DEFAULT_PIN_POLICY b \<and> ef \<noteq> None
                    then flash_commit (snd (file_put_data k ef [0, 0] s)) else s)
           in (None, s))"

definition cbor_selection :: "sdk \<Rightarrow> 'a plat_scheme \<Rightarrow> ctap_error option \<times> 'a plat_scheme" where
  "cbor_selection k s =
     (let (ret, s) = wait_button_pressed k s
      in (if ret = 1 then Some CTAP2_ERR_USER_ACTION_TIMEOUT
          else if ret = 2 then Some CTAP2_ERR_OPERATION_DENIED else None, s))"

subsection \<open>The dispatch\<close>

abbreviation (input) CTAPHID_CBOR :: byte where "CTAPHID_CBOR \<equiv> 0x90"
abbreviation (input) CTAP_VENDOR_CBOR :: byte where "CTAP_VENDOR_CBOR \<equiv> 0xC1"

text \<open>
  Every command but the next assertion drops the assertions that are pending. A command that
  writes no response leaves the buffer empty.
\<close>

definition cbor_command ::
    "sdk \<Rightarrow> objs \<Rightarrow> bool \<Rightarrow> build \<Rightarrow> byte \<Rightarrow> bytes \<Rightarrow> 'a firmware_scheme \<Rightarrow> (ctap_error option \<times> 'a firmware_scheme) option" where
  "cbor_command k ob eddsa b cmd d s =
     (let s = (if cmd \<noteq> 0x08 then reset_gna_state s else s)
      in if cmd = 0x01 then Some (cbor_make_credential k ob eddsa d s)
         else if cmd = 0x04 then Some (cbor_get_info k eddsa s)
         else if cmd = 0x07 then Some (cbor_reset k b s)
         else if cmd = 0x06 then Some (cbor_client_pin k d s)
         else if cmd = 0x02 then Some (cbor_get_assertion k ob eddsa d False s)
         else if cmd = 0x08 then Some (cbor_get_next_assertion k ob eddsa s)
         else if cmd = 0x0B then Some (cbor_selection k s)
         else if cmd = 0x0A \<or> cmd = 0x41 then Some (cbor_cred_mgmt k ob eddsa (cmd = 0x41) d s)
         else if cmd = 0x0D then cbor_config k (FORBID_DISABLE_AUV b) d s
         else if cmd = 0x0C then Some (cbor_large_blobs k d s)
         else Some (Some CTAP1_ERR_INVALID_CMD, s))"

definition cbor_parse ::
    "sdk \<Rightarrow> objs \<Rightarrow> bool \<Rightarrow> build \<Rightarrow> byte \<Rightarrow> bytes \<Rightarrow> 'a firmware_scheme \<Rightarrow> (ctap_error option \<times> 'a firmware_scheme) option" where
  "cbor_parse k ob eddsa b cmd d s =
     (let s = pin_uv_auth_token_tick (s\<lparr>res_APDU := []\<rparr>)
      in if d = [] \<and> cmd = CTAPHID_CBOR then Some (Some CTAP1_ERR_INVALID_LEN, s)
         else if \<not> cap_supported k s CAP_FIDO2 then Some (Some CTAP1_ERR_INVALID_CMD, s)
         else if cmd = CTAPHID_CBOR then cbor_command k ob eddsa b (hd d) (tl d) s
         else if cmd = CTAP_VENDOR_CBOR then Some (cbor_vendor k d s)
         else if cmd = 0xC2 then Some (None, let s = man_get_config k s in s\<lparr>res_APDU := tl (res_APDU s)\<rparr>)
         else Some (Some CTAP1_ERR_INVALID_CMD, s))"

subsection \<open>The FIDO applet\<close>

definition fido_select :: "sdk \<Rightarrow> 'a plat_scheme \<Rightarrow> rc" where
  "fido_select k s = (if cap_supported k s CAP_FIDO2 then PICOKEYS_OK else PICOKEYS_ERR_FILE_NOT_FOUND)"

definition fido_unload :: "'a fido_scheme \<Rightarrow> rc \<times> 'a fido_scheme" where
  "fido_unload s = (PICOKEYS_OK, session_invalidate s)"

text \<open>
  The same commands over APDUs: the answer is the status byte, zero, with the response, or a
  status word with the number of the error (\<open>code\<close>).
\<close>

definition apdu_answer :: "(ctap_error \<Rightarrow> byte) \<Rightarrow> ctap_error option \<times> 'a plat_scheme \<Rightarrow> sw \<times> 'a plat_scheme" where
  "apdu_answer code p =
     (case p of
        (Some e, s) \<Rightarrow> (SW_SET 0x64 (code e), s)
      | (None, s) \<Rightarrow> (SW_OK, s\<lparr>res_APDU := 0 # res_APDU s\<rparr>))"

definition cmd_vendor ::
    "sdk \<Rightarrow> (ctap_error \<Rightarrow> byte) \<Rightarrow> apdu \<Rightarrow> 'a ctap_scheme \<Rightarrow> sw \<times> 'a ctap_scheme" where
  "cmd_vendor k code a s = apdu_answer code (cbor_vendor k (nc_data a) s)"

definition cmd_cbor ::
    "sdk \<Rightarrow> objs \<Rightarrow> bool \<Rightarrow> build \<Rightarrow> (ctap_error \<Rightarrow> byte) \<Rightarrow> apdu \<Rightarrow> 'a firmware_scheme \<Rightarrow> (sw \<times> 'a firmware_scheme) option" where
  "cmd_cbor k ob eddsa b code a s = map_option (apdu_answer code) (cbor_parse k ob eddsa b CTAPHID_CBOR (nc_data a) s)"

definition fido_process_apdu ::
    "sdk \<Rightarrow> objs \<Rightarrow> bool \<Rightarrow> build \<Rightarrow> (ctap_error \<Rightarrow> byte) \<Rightarrow> apdu \<Rightarrow> 'a firmware_scheme \<Rightarrow> (sw \<times> 'a firmware_scheme) option" where
  "fido_process_apdu k ob eddsa b code a s =
     (if cla a \<noteq> 0x00 \<and> cla a \<noteq> 0x80 then Some (SW_CLA_NOT_SUPPORTED, s)
      else if \<not> cap_supported k s CAP_U2F then Some (SW_INS_NOT_SUPPORTED, s)
      else if ins a = 0x10 then cmd_cbor k ob eddsa b code a s
      else Some (run_cmd [(0x01, cmd_register k), (0x02, cmd_authenticate k eddsa), (0x03, \<lambda>a s. cmd_version s),
                          (0x41, cmd_vendor k code)] a s))"

subsection \<open>The management applet\<close>

text \<open>Selecting it answers with the version and, when forced, scans the files again and starts the OTP applet.\<close>

definition man_select :: "sdk \<Rightarrow> build \<Rightarrow> bool \<Rightarrow> 'a firmware_scheme \<Rightarrow> rc \<times> 'a firmware_scheme" where
  "man_select k b force s =
     (let s = set_ne (s\<lparr>res_APDU := ascii ''7.6.0''\<rparr>)
      in (PICOKEYS_OK, if \<not> force then s
                       else if ENABLE_OTP_APP b then with_otp (init_otp k) (scan_all k s) else scan_all k s))"

definition cmd_factory_reset :: "sdk \<Rightarrow> build \<Rightarrow> 'a firmware_scheme \<Rightarrow> sw \<times> 'a firmware_scheme" where
  "cmd_factory_reset k b s = (SW_OK, snd (cbor_reset k b s))"

definition man_process_apdu :: "sdk \<Rightarrow> build \<Rightarrow> apdu \<Rightarrow> 'a firmware_scheme \<Rightarrow> sw \<times> 'a firmware_scheme" where
  "man_process_apdu k b a s =
     (if cla a \<noteq> 0x00 then (SW_CLA_NOT_SUPPORTED, s)
      else run_cmd [(0x1D, \<lambda>a s. cmd_read_config k s), (0x1C, cmd_write_config k),
                    (0x1E, \<lambda>a s. cmd_factory_reset k b s)] a s)"

end
