(* ===== verification/Ref_Ctap.thy ===== *)
theory Ref_Ctap
  imports Ctap U2f_Properties
begin

text \<open>
  A concrete state of the FIDO2 commands over given files, with a token whose bytes are all zero,
  and the answer of the reference platform to a request authenticated with it.
\<close>

definition ref_ctap :: "byte \<Rightarrow> files \<Rightarrow> ctap" where
  "ref_ctap perms fs =
     device.extend
       (ref_device fs)
          \<lparr>mse_Qpt = [], mse_key_enc = replicate 44 0, mse_init = True, rp_counter = 0, rp_total = 0,
           cred_counter = 0, cred_total = 0, rpIdHashx = None, expectedLength = 0,
           expectedNextOffset = 0, temp_lba = replicate 2048 0, residentx = False, credsx = [],
           credentialCounter = 0, numberOfCredentialsx = 0, flagsx = 0, timerx = 0, datax = []\<rparr>
     \<lparr>paut := \<lparr>paut_data = replicate 32 0, in_use = True, permissions = perms, rp_id_hash = replicate 32 0,
               has_rp_id = False, user_present = True, user_verified = True\<rparr>\<rparr>"

lemma ref_ctap_sel [simp]:
  "files (ref_ctap perms fs) = fs" "tick (ref_ctap perms fs) = 0" "paut_data (paut (ref_ctap perms fs)) = replicate 32 0"
  "in_use (paut (ref_ctap perms fs))" "permissions (paut (ref_ctap perms fs)) = perms"
  "has_rp_id (paut (ref_ctap perms fs)) = False" "user_verified (paut (ref_ctap perms fs))"
  "user_present (paut (ref_ctap perms fs))" "has_keydev_dec (ref_ctap perms fs) = False"
  "expectedLength (ref_ctap perms fs) = 0" "expectedNextOffset (ref_ctap perms fs) = 0"
  "temp_lba (ref_ctap perms fs) = replicate 2048 0" "mse_init (ref_ctap perms fs)"
  "mse_key_enc (ref_ctap perms fs) = replicate 44 0" "mse_Qpt (ref_ctap perms fs) = []"
  "user_present_time_limit (ref_ctap perms fs) = 0" "ppaut_data (ppaut (ref_ctap perms fs)) = []"
  by (simp_all add: ref_ctap_def ref_device_def device.defs resident.defs ref_resident_def fido.defs ref_fido_def)

lemma ref_verify: "verify ref_sdk 1 (replicate 32 0) d (replicate 16 0)"
  by (simp add: verify_def ref_md_size_def fit_def)

end
