(* ===== verification/Large_Blob_Properties.thy ===== *)
theory Large_Blob_Properties
  imports Large_Blobs Ref_Ctap
begin

text \<open>
  What holds of the large blobs: the transfer stays within its buffer, nothing is stored without
  a token that has the permission, and an array written in fragments is read back.
\<close>

subsection \<open>The transfer stays within its buffer\<close>

definition lb_wf :: "'a ctap_scheme \<Rightarrow> bool" where
  "lb_wf s \<longleftrightarrow> length (temp_lba s) = MAX_LARGE_BLOB_SIZE \<and> unat (expectedLength s) \<le> MAX_LARGE_BLOB_SIZE \<and>
     expectedNextOffset s \<le> expectedLength s"

lemma store_step_transfer:
  fixes s t :: "'a ctap_scheme"
  assumes "store_step s t"
  shows "temp_lba t = temp_lba s" "expectedLength t = expectedLength s" "expectedNextOffset t = expectedNextOffset s"
    "paut t = paut s"
  using assms by (auto simp: store_step_def)

lemma store_step_lb_wf: "store_step s t \<Longrightarrow> lb_wf t = lb_wf (s :: 'a ctap_scheme)"
  by (simp add: lb_wf_def store_step_transfer)

lemma lb_begin_wf:
  assumes "lb_wf s" and "lb_begin r s = (e, t)"
  shows "lb_wf t"
proof -
  have "t = s \<or> t = s\<lparr>expectedLength := lb_length r, expectedNextOffset := 0\<rparr> \<and> unat (lb_length r) \<le> MAX_LARGE_BLOB_SIZE"
    using assms(2) by (auto simp: lb_begin_def split: if_splits)
  then show ?thesis using assms(1) by (auto simp: lb_wf_def)
qed

lemma lb_complete_step: "lb_complete k s = (res, t) \<Longrightarrow> store_step s t"
  by (auto simp: lb_complete_def Let_def split: if_splits prod.splits
      intro: store_step_commit dest: file_put_data_step)

text \<open>A fragment that starts at the next offset and ends within the array ends within the buffer.\<close>

lemma fragment_fits:
  fixes n len :: u64
  assumes "unat len \<le> 2048" and "n \<le> len" and "d \<le> 960" and "\<not> n + word_of_nat d > len"
  shows "unat (n + word_of_nat d) = unat n + d" "unat n + d \<le> unat len"
proof -
  have d: "unat (word_of_nat d :: u64) = d" using assms(3) by (simp add: unat_of_nat take_bit_eq_mod)
  have "unat n \<le> 2048" using assms(1,2) by (simp add: word_le_nat_alt)
  then have "unat n + d < 2 ^ 64" using assms(3) by simp
  then show 1: "unat (n + word_of_nat d) = unat n + d" using d by (subst unat_add_lem [THEN iffD1]) simp_all
  show "unat n + d \<le> unat len" using assms(4) by (simp add: word_less_nat_alt 1)
qed

definition lb_put :: "bytes \<Rightarrow> 'a ctap_scheme \<Rightarrow> 'a ctap_scheme" where
  "lb_put d s = s\<lparr>temp_lba := splice (temp_lba s) (unat (expectedNextOffset s), length d) d,
     expectedNextOffset := expectedNextOffset s + word_of_nat (length d)\<rparr>"

text \<open>What a write that is accepted does: it begins, is authenticated, fits, and is put behind the last one.\<close>

lemma lb_write_cases:
  assumes "lb_write k r d s = (res, t)" and "lb_wf s"
  obtains e u where "lb_begin r s = (e, u)" "\<exists>x. res = Inl x" "t = u"
  | u where "lb_begin r s = (None, u)" "lb_offset r = expectedNextOffset u" "lb_authorize k r d u = None"
      "length d \<le> MAX_FRAGMENT_LENGTH" "unat (expectedNextOffset u) + length d \<le> unat (expectedLength u)"
      "unat (expectedNextOffset u + word_of_nat (length d)) = unat (expectedNextOffset u) + length d"
      "let v = lb_put d (if lb_offset r = 0 then u\<lparr>temp_lba := replicate MAX_LARGE_BLOB_SIZE 0\<rparr> else u)
       in (res, t) = (if expectedNextOffset v = expectedLength v then lb_complete k v else (Inr [], v))"
  | "\<exists>x. res = Inl x" "t = s"
proof -
  obtain e u where b: "lb_begin r s = (e, u)" by (metis surj_pair)
  have wf: "lb_wf u" by (rule lb_begin_wf [OF assms(2) b])
  consider "length d > MAX_FRAGMENT_LENGTH" | "length d \<le> MAX_FRAGMENT_LENGTH"
      "e \<noteq> None \<or> lb_offset r \<noteq> expectedNextOffset u \<or> lb_authorize k r d u \<noteq> None \<or>
       lb_offset r + word_of_nat (length d) > expectedLength u"
    | "length d \<le> MAX_FRAGMENT_LENGTH" "e = None" "lb_offset r = expectedNextOffset u" "lb_authorize k r d u = None"
      "\<not> lb_offset r + word_of_nat (length d) > expectedLength u" by fastforce
  then show thesis
  proof cases
    case 1
    then show thesis using assms(1) that(3) by (auto simp: lb_write_def)
  next
    case 2
    then have "(\<exists>x. res = Inl x) \<and> t = u"
      using assms(1) b by (auto simp: lb_write_def split: option.splits if_splits)
    then show thesis using that(1) b by blast
  next
    case 3
    have len: "unat (expectedLength u) \<le> 2048" "expectedNextOffset u \<le> expectedLength u" using wf by (simp_all add: lb_wf_def)
    note fits = fragment_fits [OF len 3(1) 3(5) [unfolded 3(3)]]
    show thesis
      by (rule that(2) [OF _ 3(3,4,1) fits(2,1)])
         (use assms(1) b 3 in \<open>auto simp: lb_write_def lb_put_def Let_def split: if_splits\<close>)
  qed
qed

lemma lb_put_wf:
  assumes "lb_wf u" and "unat (expectedNextOffset u) + length d \<le> unat (expectedLength u)"
    and "unat (expectedNextOffset u + word_of_nat (length d)) = unat (expectedNextOffset u) + length d"
  shows "lb_wf (lb_put d u)"
  using assms by (simp add: lb_wf_def lb_put_def length_splice word_le_nat_alt)

lemma lb_write_wf:
  assumes "lb_wf s" and "lb_write k r d s = (res, t)"
  shows "lb_wf t"
proof (rule lb_write_cases [OF assms(2,1)])
  fix e u
  assume "lb_begin r s = (e, u)" "t = u"
  then show ?thesis using lb_begin_wf [OF assms(1)] by blast
next
  fix u
  assume b: "lb_begin r s = (None, u)" and f: "unat (expectedNextOffset u) + length d \<le> unat (expectedLength u)"
      "unat (expectedNextOffset u + word_of_nat (length d)) = unat (expectedNextOffset u) + length d"
    and e: "let v = lb_put d (if lb_offset r = 0 then u\<lparr>temp_lba := replicate MAX_LARGE_BLOB_SIZE 0\<rparr> else u)
       in (res, t) = (if expectedNextOffset v = expectedLength v then lb_complete k v else (Inr [], v))"
  let ?u = "if lb_offset r = 0 then u\<lparr>temp_lba := replicate MAX_LARGE_BLOB_SIZE 0\<rparr> else u"
  have "lb_wf u" by (rule lb_begin_wf [OF assms(1) b])
  then have "lb_wf (lb_put d ?u)" using f by (intro lb_put_wf) (auto simp: lb_wf_def)
  then show ?thesis
    using e store_step_lb_wf lb_complete_step by (metis (no_types, lifting) prod.inject)
next
  assume "t = s"
  then show ?thesis using assms(1) by simp
qed

subsection \<open>Nothing is stored without a token\<close>

lemma lb_begin_same: "lb_begin r s = (e, t) \<Longrightarrow> files t = files s \<and> paut t = paut s"
  by (auto simp: lb_begin_def split: if_splits)

lemma lb_authorize_token:
  "lb_authorize k r d s = None \<Longrightarrow>
     \<exists>param. lb_param r = Some param \<and>
       verify k (ucast (lb_protocol r)) (paut_data (paut s)) (lb_verify_data k (lb_offset r) d) param \<and>
       permissions (paut s) AND CTAP_PERMISSION_LBW \<noteq> 0"
  by (auto simp: lb_authorize_def Let_def split: option.splits if_splits)

lemma lb_complete_files:
  assumes "put_law k" and "lb_complete k s = (res, t)" and "files t \<noteq> files s"
  defines "blob \<equiv> take (unat (expectedLength s)) (temp_lba s)"
  shows "files t = (files s)(EF_LARGEBLOB \<mapsto> blob)"
    and "unat (expectedLength s) > 17 \<longrightarrow>
      take 16 (sha256 k (take (unat (expectedLength s) - 16) blob)) = drop (unat (expectedLength s) - 16) blob"
proof -
  obtain r u where p: "file_put_data k (file_search s EF_LARGEBLOB) blob s = (r, u)" by (metis surj_pair)
  have hash: "unat (expectedLength s) > 17 \<longrightarrow>
      take 16 (sha256 k (take (unat (expectedLength s) - 16) blob)) = drop (unat (expectedLength s) - 16) blob"
    and t: "t = flash_commit u"
    using assms(2,3) p by (auto simp: lb_complete_def Let_def blob_def split: if_splits)
  then have "files u \<noteq> files s" using assms(3) by (simp add: flash_commit_def)
  then have "files u = (files s)(EF_LARGEBLOB \<mapsto> blob)"
    using p assms(1) by (auto simp: file_put_data_def put_law_def file_search_def Let_def split: prod.splits if_splits)
       blast+
  then show "files t = (files s)(EF_LARGEBLOB \<mapsto> blob)" using t by (simp add: flash_commit_def)
  from hash show "unat (expectedLength s) > 17 \<longrightarrow>
      take 16 (sha256 k (take (unat (expectedLength s) - 16) blob)) = drop (unat (expectedLength s) - 16) blob" .
qed

text \<open>
  C10: The transfer of a large-blob array stays within its buffer of 2048 bytes whatever the
  requests are, and the stored array changes only by the last fragment of a transfer: that
  fragment is authenticated with the token, which has the permission, the array is complete, and
  from 18 bytes on it ends with its digest.
\<close>

theorem large_blobs_guarded:
  fixes s t :: "'a ctap_scheme"
  assumes "put_law k" and "lb_wf s" and "large_blobs k r s = (res, t)"
  shows "lb_wf t \<and>
    (files t \<noteq> files s \<longrightarrow>
      (\<exists>d param n. lb_set r = Some d \<and> lb_param r = Some param \<and>
        verify k (ucast (lb_protocol r)) (paut_data (paut s)) (lb_verify_data k (lb_offset r) d) param \<and>
        permissions (paut s) AND CTAP_PERMISSION_LBW \<noteq> 0 \<and>
        n = unat (expectedLength t) \<and> n = unat (lb_offset r) + length d \<and>
        files t = (files s)(EF_LARGEBLOB \<mapsto> take n (temp_lba t)) \<and>
        (n > 17 \<longrightarrow> take 16 (sha256 k (take (n - 16) (temp_lba t))) = drop (n - 16) (take n (temp_lba t)))))"
proof (cases "files t = files s \<and> lb_wf t")
  case True
  then show ?thesis by simp
next
  case changed: False
  have same: "lb_read k r n s \<noteq> (res, t)" "t \<noteq> s" for n
    using changed assms(2) by (auto simp: lb_read_def Let_def split: if_splits)
  obtain d where d: "lb_set r = Some d" "lb_write k r d s = (res, t)"
    using assms(3) same by (auto simp: large_blobs_def split: if_splits option.splits)
  have wf: "lb_wf t" by (rule lb_write_wf [OF assms(2) d(2)])
  then have new: "files t \<noteq> files s" using changed by simp
  show ?thesis
  proof (rule lb_write_cases [OF d(2) assms(2)])
    fix e u
    assume "lb_begin r s = (e, u)" "t = u"
    then show ?thesis using lb_begin_same new by blast
  next
    assume "t = s"
    then show ?thesis using new by simp
  next
    fix u
    assume b: "lb_begin r s = (None, u)" and o: "lb_offset r = expectedNextOffset u" and a: "lb_authorize k r d u = None"
      and f: "unat (expectedNextOffset u + word_of_nat (length d)) = unat (expectedNextOffset u) + length d"
      and e: "let v = lb_put d (if lb_offset r = 0 then u\<lparr>temp_lba := replicate MAX_LARGE_BLOB_SIZE 0\<rparr> else u)
         in (res, t) = (if expectedNextOffset v = expectedLength v then lb_complete k v else (Inr [], v))"
    define v where "v = lb_put d (if lb_offset r = 0 then u\<lparr>temp_lba := replicate MAX_LARGE_BLOB_SIZE 0\<rparr> else u)"
    have v: "files v = files s" "expectedNextOffset v = expectedNextOffset u + word_of_nat (length d)"
      using lb_begin_same [OF b] by (simp_all add: v_def lb_put_def)
    have full: "expectedNextOffset v = expectedLength v" and c: "lb_complete k v = (res, t)"
      using e new v(1) by (auto simp: v_def [symmetric] Let_def split: if_splits)
    note st = store_step_transfer [OF lb_complete_step [OF c]]
    have n: "unat (expectedLength v) = unat (lb_offset r) + length d" using full v(2) o f by simp
    show ?thesis
      using wf lb_complete_files [OF assms(1) c] new v(1) n st lb_authorize_token [OF a] lb_begin_same [OF b] d(1)
      by (auto simp: min_def)
  qed
qed

subsection \<open>An array written in fragments is read back\<close>

text \<open>The requests of a transfer: the first gives the length, each comes with its parameter.\<close>

definition fragment_req :: "u64 \<Rightarrow> nat \<Rightarrow> nat \<Rightarrow> bytes \<times> bytes \<Rightarrow> lb_req" where
  "fragment_req proto tot off f =
     lb_init\<lparr>lb_set := Some (snd f), lb_offset := word_of_nat off, lb_length := (if off = 0 then word_of_nat tot else 0),
             lb_param := Some (fst f), lb_protocol := proto\<rparr>"

fun send_array ::
    "sdk \<Rightarrow> u64 \<Rightarrow> nat \<Rightarrow> nat \<Rightarrow> (bytes \<times> bytes) list \<Rightarrow> 'a ctap_scheme \<Rightarrow> ctap_error option \<times> 'a ctap_scheme" where
  "send_array k proto tot off [] s = (None, s)"
| "send_array k proto tot off (f # fs) s =
     (case large_blobs k (fragment_req proto tot off f) s of
        (Inl e, s) \<Rightarrow> (Some e, s)
      | (Inr _, s) \<Rightarrow> send_array k proto tot (off + length (snd f)) fs s)"

definition read_req :: "nat \<Rightarrow> nat \<Rightarrow> lb_req" where
  "read_req off n = lb_init\<lparr>lb_get := Some (word_of_nat n), lb_offset := word_of_nat off\<rparr>"

text \<open>What the state holds when a prefix has been sent.\<close>

definition sent :: "nat \<Rightarrow> bytes \<Rightarrow> 'a ctap_scheme \<Rightarrow> bool" where
  "sent tot p s \<longleftrightarrow> lb_wf s \<and> files s EF_LARGEBLOB \<noteq> None \<and>
     (p \<noteq> [] \<longrightarrow> expectedLength s = word_of_nat tot \<and> expectedNextOffset s = word_of_nat (length p) \<and>
       take (length p) (temp_lba s) = p)"

lemma take_splice_end: "length p \<le> length b \<Longrightarrow> take (length p) b = p \<Longrightarrow> take (length p + length d) (splice b (length p, n) d) = p @ d"
  by (simp add: splice_def)

lemma send_fragment:
  fixes s t :: "'a ctap_scheme"
  assumes "put_law k" and "sent tot p s" and "tot \<le> MAX_LARGE_BLOB_SIZE" and "length p + length d \<le> tot"
    and "large_blobs k (fragment_req proto tot (length p) (q, d)) s = (Inr res, t)"
    and "\<forall>n fs. fst (sdk_put k n fs (Some EF_LARGEBLOB) (p @ d)) = PICOKEYS_OK"
  shows "sent tot (p @ d) t" and "length (p @ d) = tot \<Longrightarrow> files t EF_LARGEBLOB = Some (p @ d)"
proof -
  let ?r = "fragment_req proto tot (length p) (q, d)"
  have small: "unat (word_of_nat n :: u64) = n" if "n \<le> 2048" for n
    using that by (simp add: unat_of_nat take_bit_eq_mod)
  have wf: "lb_wf s" and ex: "files s EF_LARGEBLOB \<noteq> None" using assms(2) by (simp_all add: sent_def)
  have w: "lb_write k ?r d s = (Inr res, t)"
    using assms(5) by (auto simp: large_blobs_def fragment_req_def lb_init_def split: if_splits)
  obtain u where b: "lb_begin ?r s = (None, u)" and o: "lb_offset ?r = expectedNextOffset u"
    and f: "unat (expectedNextOffset u) + length d \<le> unat (expectedLength u)"
      "unat (expectedNextOffset u + word_of_nat (length d)) = unat (expectedNextOffset u) + length d"
    and e: "let v = lb_put d (if lb_offset ?r = 0 then u\<lparr>temp_lba := replicate MAX_LARGE_BLOB_SIZE 0\<rparr> else u)
       in (Inr res, t) = (if expectedNextOffset v = expectedLength v then lb_complete k v else (Inr [], v))"
    by (rule lb_write_cases [OF w wf]) auto
  define x where "x = (if lb_offset ?r = 0 then u\<lparr>temp_lba := replicate MAX_LARGE_BLOB_SIZE 0\<rparr> else u)"
  have zero: "lb_offset ?r = 0 \<longleftrightarrow> p = []"
    using small [of "length p"] assms(3,4) by (auto simp: fragment_req_def lb_init_def unat_eq_0 [symmetric])
  have begun: "u = (if p = [] then s\<lparr>expectedLength := word_of_nat tot, expectedNextOffset := 0\<rparr> else s)"
    using b zero by (auto simp: lb_begin_def fragment_req_def lb_init_def split: if_splits)
  have x: "expectedLength x = word_of_nat tot" "expectedNextOffset x = word_of_nat (length p)" "length (temp_lba x) = 2048"
      "take (length p) (temp_lba x) = p" "files x = files s" "lb_wf x"
    using assms(2) wf lb_begin_wf [OF wf b] by (auto simp: x_def zero begun sent_def lb_wf_def)
  have fx: "unat (expectedNextOffset x) + length d \<le> unat (expectedLength x)"
      "unat (expectedNextOffset x + word_of_nat (length d)) = unat (expectedNextOffset x) + length d"
    using f by (simp_all add: x_def)
  define v where "v = lb_put d x"
  have v: "lb_wf v" "files v = files s" "expectedLength v = word_of_nat tot" "expectedNextOffset v = word_of_nat (length (p @ d))"
    using lb_put_wf [OF x(6) fx] x by (simp_all add: v_def lb_put_def)
  have front: "take (length (p @ d)) (temp_lba v) = p @ d"
    using take_splice_end [of p "temp_lba x" d "length d"] x assms(3,4) small [of "length p"] by (simp add: v_def lb_put_def)
  have full: "files t EF_LARGEBLOB = Some (p @ d) \<and> store_step v t" if "length (p @ d) = tot"
  proof -
    have "expectedNextOffset v = expectedLength v" by (simp only: v(3,4) that)
    then have c: "lb_complete k v = (Inr res, t)" using e by (simp add: v_def [symmetric] x_def [symmetric] Let_def)
    have n: "unat (expectedLength v) = tot" using v(3) small [OF assms(3)] by simp
    have blob: "take tot (temp_lba v) = p @ d" using front that by simp
    have ef: "file_search v EF_LARGEBLOB = Some EF_LARGEBLOB" using ex v(2) by (simp add: file_search_def)
    obtain r y where put: "file_put_data k (Some EF_LARGEBLOB) (p @ d) v = (r, y)" by (metis surj_pair)
    have "r = PICOKEYS_OK" using put assms(6) by (auto simp: file_put_data_def Let_def split: prod.splits) (metis fst_conv)
    then have y: "files y EF_LARGEBLOB = Some (p @ d)" using file_put_data_ok [OF assms(1), of _ _ v y] put by fastforce
    have "t = flash_commit y" using c put by (simp add: lb_complete_def n blob ef Let_def split: if_splits)
    then show ?thesis using y lb_complete_step [OF c] by (simp add: flash_commit_def)
  qed
  have more: "t = v" if "length (p @ d) \<noteq> tot"
    using e that v(3,4) small [of "length (p @ d)"] small [OF assms(3)] assms(3,4)
    by (auto simp: v_def [symmetric] x_def [symmetric] Let_def split: if_splits)
  have "sent tot (p @ d) v" using v ex front by (simp add: sent_def)
  then show "sent tot (p @ d) t"
    using full more by (cases "length (p @ d) = tot") (auto simp: sent_def store_step_lb_wf store_step_transfer)
  show "files t EF_LARGEBLOB = Some (p @ d)" if "length (p @ d) = tot" using full that by blast
qed

lemma send_array_stores:
  fixes s t :: "'a ctap_scheme"
  assumes "put_law k" and "tot \<le> MAX_LARGE_BLOB_SIZE" and "length (p @ concat (map snd fs)) = tot"
    and "send_array k proto tot (length p) fs s = (None, t)" and "sent tot p s"
    and "\<forall>n fs d. length d \<le> tot \<longrightarrow> fst (sdk_put k n fs (Some EF_LARGEBLOB) d) = PICOKEYS_OK"
    and "fs = [] \<longrightarrow> files s EF_LARGEBLOB = Some p"
  shows "files t EF_LARGEBLOB = Some (p @ concat (map snd fs))"
  using assms(3-5,7)
proof (induction fs arbitrary: p s)
  case Nil
  then show ?case by simp
next
  case (Cons f fs)
  obtain q d where qd: "f = (q, d)" by (cases f)
  have fits: "length p + length d \<le> tot" using Cons.prems(1) qd by simp
  obtain res u where u: "large_blobs k (fragment_req proto tot (length p) (q, d)) s = (Inr res, u)"
      "send_array k proto tot (length (p @ d)) fs u = (None, t)"
    using Cons.prems(2) by (auto simp: qd split: prod.splits sum.splits)
  have ok: "\<forall>n fs. fst (sdk_put k n fs (Some EF_LARGEBLOB) (p @ d)) = PICOKEYS_OK" using assms(6) fits by simp
  note st = send_fragment [OF assms(1) Cons.prems(3) assms(2) fits u(1) ok]
  have "files t EF_LARGEBLOB = Some ((p @ d) @ concat (map snd fs))"
    by (rule Cons.IH [OF _ u(2) st(1)]) (use Cons.prems(1) qd st(2) in auto)
  then show ?case by (simp add: qd)
qed

text \<open>
  C17: Writing and reading a large-blob array are inverse. When every fragment of a transfer of at
  most 2048 bytes is accepted, on storage that takes the array, the array is stored, and a request
  to read any part of it, up to a fragment's length, answers with exactly that part.
\<close>

theorem large_blob_round_trip:
  fixes s t :: "'a ctap_scheme"
  assumes "put_law k" and "lb_wf s" and "files s EF_LARGEBLOB \<noteq> None" and "fs \<noteq> []"
    and "blob = concat (map snd fs)" and "length blob \<le> MAX_LARGE_BLOB_SIZE"
    and "\<forall>n fs d. length d \<le> length blob \<longrightarrow> fst (sdk_put k n fs (Some EF_LARGEBLOB) d) = PICOKEYS_OK"
    and "send_array k proto (length blob) 0 fs s = (None, t)"
    and "off \<le> length blob" and "n \<le> MAX_FRAGMENT_LENGTH"
  shows "large_blobs k (read_req off n) t = (cbor_emit k (CMap [CUInt 0x01, CBytes (take n (drop off blob))]), t)"
proof -
  have "sent (length blob) [] s" using assms(2,3) by (simp add: sent_def)
  then have "files t EF_LARGEBLOB = Some ([] @ concat (map snd fs))"
    by (intro send_array_stores [OF assms(1,6) _ _ _ assms(7), where s = s]) (use assms(4,5,8) in auto)
  then have stored: "files t EF_LARGEBLOB = Some blob" using assms(5) by simp
  have small: "unat (word_of_nat m :: u64) = m" if "m \<le> 2048" for m
    using that by (simp add: unat_of_nat take_bit_eq_mod)
  have "(word_of_nat off :: u64) \<noteq> - 1"
  proof
    assume "(word_of_nat off :: u64) = - 1"
    then have "(word_of_nat (Suc off) :: u64) = 0" by simp
    then show False using small [of "Suc off"] small [of off] assms(6,9) by (cases "off = 2048") (simp_all del: of_nat_Suc)
  qed
  moreover have "take (min n (length blob - off)) (drop off blob) = take n (drop off blob)" by (auto simp: min_def)
  ultimately show ?thesis
    using stored small [of off] small [of n] assms(6,9,10)
    by (simp add: large_blobs_def read_req_def lb_read_def lb_init_def Let_def min.commute)
qed

subsection \<open>On the reference platform\<close>

text \<open>Seventeen bytes in two fragments, each with the first sixteen bytes of the token as its parameter.\<close>

definition ref_blob_state :: ctap where
  "ref_blob_state = ref_ctap CTAP_PERMISSION_LBW [EF_LARGEBLOB \<mapsto> []]"

definition ref_fragments :: "(bytes \<times> bytes) list" where
  "ref_fragments = [(replicate 16 0, replicate 10 1), (replicate 16 0, replicate 7 2)]"

lemma ref_blob_wf: "lb_wf ref_blob_state"
  by (simp add: ref_blob_state_def lb_wf_def)

lemma ref_send: "fst (send_array ref_sdk 1 17 0 ref_fragments ref_blob_state) = None"
  by (simp add: ref_fragments_def fragment_req_def lb_init_def large_blobs_def lb_write_def lb_begin_def lb_authorize_def
      ref_blob_state_def ref_verify lb_complete_def split_beta Let_def)

lemma large_blob_round_trip_witness:
  "\<exists>t. send_array ref_sdk 1 17 0 ref_fragments ref_blob_state = (None, t) \<and>
     large_blobs ref_sdk (read_req 9 3) t = (cbor_emit ref_sdk (CMap [CUInt 0x01, CBytes [1, 2, 2]]), t)"
proof -
  obtain t where t: "send_array ref_sdk 1 17 0 ref_fragments ref_blob_state = (None, t)"
    using ref_send by (metis prod.collapse)
  have b: "concat (map snd ref_fragments) = replicate 10 1 @ replicate 7 2" by (simp add: ref_fragments_def)
  have "large_blobs ref_sdk (read_req 9 3) t =
      (cbor_emit ref_sdk (CMap [CUInt 0x01, CBytes (take 3 (drop 9 (replicate 10 1 @ replicate 7 2)))]), t)"
    by (rule large_blob_round_trip [OF ref_put_law ref_blob_wf _ _ b [symmetric], where proto = 1])
       (use t in \<open>simp_all add: ref_blob_state_def ref_fragments_def ref_put_def\<close>)
  then show ?thesis using t by (simp add: numeral_3_eq_3)
qed

lemma large_blobs_guarded_witness:
  "lb_wf (snd (large_blobs ref_sdk (fragment_req 1 17 0 (replicate 16 0, replicate 17 1)) ref_blob_state)) \<and>
   files (snd (large_blobs ref_sdk (fragment_req 1 17 0 (replicate 16 0, replicate 17 1)) ref_blob_state)) EF_LARGEBLOB =
     Some (replicate 17 1)"
proof -
  let ?r = "fragment_req 1 17 0 (replicate 16 0, replicate 17 1)"
  obtain res t where t: "large_blobs ref_sdk ?r ref_blob_state = (res, t)" by (metis surj_pair)
  have "files t EF_LARGEBLOB = Some (replicate 17 1)"
    using t by (auto simp: fragment_req_def lb_init_def large_blobs_def lb_write_def lb_begin_def lb_authorize_def
      ref_blob_state_def ref_verify lb_complete_def split_beta Let_def file_put_data_def ref_put_def flash_commit_def file_search_def splice_def)
  then show ?thesis
    using large_blobs_guarded [OF ref_put_law ref_blob_wf t] t by simp
qed

end
