(* ===== verification/Config_Properties.thy ===== *)
theory Config_Properties
  imports Authenticator_Config Otp_Slot_Properties Ref_Ctap
begin

text \<open>
  What holds of the configuration: which requests return, that the minimum length of the PIN
  only grows, and what the lock of the device key leaves behind.
\<close>

subsection \<open>Which requests return\<close>

lemma cbor_loop_returns:
  assumes "\<And>st xs. I st xs \<Longrightarrow> xs \<noteq> [] \<Longrightarrow>
      (case body st xs of None \<Rightarrow> False | Some (Inl e) \<Rightarrow> True | Some (Inr (u, r)) \<Rightarrow> I u r \<and> length r < length xs)"
    and "I st xs"
  shows "\<exists>y. cbor_loop body st xs = Some y \<and> (\<forall>u. y = Inr u \<longrightarrow> I u [])"
  using assms(2)
proof (induction "length xs" arbitrary: st xs rule: less_induct)
  case less
  show ?case
  proof (cases xs)
    case Nil
    then show ?thesis using less.prems by (subst cbor_loop.simps) simp
  next
    case (Cons x ys)
    then show ?thesis
      using assms(1) [OF less.prems] less.hyps
      by (subst cbor_loop.simps) (auto split: option.splits sum.splits)
  qed
qed

text \<open>A body that leaves everything as it is is run for ever.\<close>

lemma cbor_loop_stuck:
  assumes "body st xs = Some (Inr (st, xs))" and "xs \<noteq> []"
  shows "cbor_loop body st xs = None"
proof -
  have "\<not> (body st xs = Some (Inr (st, xs)) \<and> xs \<noteq> [])" if "cbor_loop body st xs = Some y" for body st xs y
  proof (rule cbor_loop.raw_induct [OF _ that])
    fix loop :: "('s \<Rightarrow> cbor list \<Rightarrow> (ctap_error + 's \<times> cbor list) option) \<Rightarrow> 's \<Rightarrow> cbor list \<Rightarrow> (ctap_error + 's) option"
      and body st xs y
    assume "\<And>body st xs y. loop body st xs = Some y \<Longrightarrow> \<not> (body st xs = Some (Inr (st, xs)) \<and> xs \<noteq> [])"
      and "(case xs of [] \<Rightarrow> Some (Inr st)
        | _ \<Rightarrow> (case body st xs of None \<Rightarrow> None | Some (Inl e) \<Rightarrow> Some (Inl e)
               | Some (Inr (st, r)) \<Rightarrow> loop body st r)) = Some y"
    then show "\<not> (body st xs = Some (Inr (st, xs)) \<and> xs \<noteq> [])" by (fastforce split: list.splits)
  qed
  then show ?thesis using assms by (metis option.exhaust)
qed

lemma set_field_shorter: "set_field f q = Inr (u, r) \<Longrightarrow> \<exists>v. q = Inr (v, r) \<and> u = f v"
  by (cases q) (auto simp: set_field_def map_prod_def)

lemma field_bool_shorter: "field_bool xs = Inr (b, r) \<Longrightarrow> length r < length xs"
  by (auto simp: field_bool_def map_sum_def split: list.splits cbor.splits sum.splits dest!: cbor_advance_length)

lemma field_array_shorter: "field_array body st xs = Inr (u, r) \<Longrightarrow> length r < length xs"
  by (auto simp: field_array_def map_sum_def split: list.splits cbor.splits sum.splits dest!: cbor_advance_length)

lemma set_field_reads:
  "set_field f (field_uint xs) = Inr (u, r) \<Longrightarrow> length r < length xs"
  "set_field f1 (field_bytes xs) = Inr (u, r) \<Longrightarrow> length r < length xs"
  "set_field f1 (field_text xs) = Inr (u, r) \<Longrightarrow> length r < length xs"
  "set_field f2 (field_bool xs) = Inr (u, r) \<Longrightarrow> length r < length xs"
  "set_field f3 (field_array body st xs) = Inr (u, r) \<Longrightarrow> length r < length xs"
  using field_reads_shorter field_bool_shorter field_array_shorter set_field_shorter by metis+

text \<open>The loop over the subcommand parameters ends for the two subcommands that read them, and only for them.\<close>

lemma cfg_subpara_field_reads:
  assumes "cfg_subpara_field r xs = Some (Inr (u, ys))" and "cfg_subcommand r \<in> {0xFF, 0x03}"
  shows "cfg_subcommand u = cfg_subcommand r \<and> cfg_val_c u = cfg_val_c r \<and> length ys < length xs"
proof -
  obtain v zs where v: "field_uint xs = Inr (v, zs)"
    using assms by (auto simp: cfg_subpara_field_def split: sum.splits)
  have z: "length zs < length xs" by (rule field_reads_shorter(1) [OF v])
  have u: "cfg_subcommand u = cfg_subcommand r" "cfg_val_c u = cfg_val_c r"
    using assms v by (auto simp: cfg_subpara_field_def split: if_splits dest!: set_field_shorter)
  have "length ys \<le> length zs"
    using assms v by (auto simp: cfg_subpara_field_def split: if_splits dest!: set_field_reads)
  then show ?thesis using z u by simp
qed

lemma cfg_subpara_returns:
  assumes "cfg_subcommand r \<in> {0xFF, 0x03}"
  shows "\<exists>y. map_loop cfg_subpara_field r c = Some y \<and> (\<forall>u. y = Inr u \<longrightarrow> cfg_val_c u = cfg_val_c r)"
proof -
  let ?I = "\<lambda>u _. cfg_subcommand u \<in> {0xFF, 0x03} \<and> cfg_val_c u = cfg_val_c r"
  have loop: "\<exists>y. cbor_loop cfg_subpara_field r xs = Some y \<and> (\<forall>u. y = Inr u \<longrightarrow> ?I u ([] :: cbor list))" for xs
  proof (rule cbor_loop_returns [where I = ?I])
    fix u :: cfg_req and xs :: "cbor list"
    assume u: "?I u xs"
    then obtain y where y: "cfg_subpara_field u xs = Some y" by (auto simp: cfg_subpara_field_def)
    have "?I v zs \<and> length zs < length xs" if "y = Inr (v, zs)" for v zs
      using cfg_subpara_field_reads [of u xs v zs] y that u by simp
    then show "case cfg_subpara_field u xs of None \<Rightarrow> False | Some (Inl e) \<Rightarrow> True
        | Some (Inr (v, r)) \<Rightarrow> ?I v r \<and> length r < length xs"
      using y by (cases y) auto
  qed (use assms in simp)
  have "(\<exists>e. map_loop cfg_subpara_field r c = Some (Inl e)) \<or>
      (\<exists>xs. map_loop cfg_subpara_field r c = cbor_loop cfg_subpara_field r xs)"
    by (auto simp: map_loop_def split: cbor.splits list.splits)
  then show ?thesis using loop by fastforce
qed

lemma cfg_subpara_iff:
  "map_loop cfg_subpara_field r (CMap ps) = None \<longleftrightarrow>
     cfg_subcommand r \<notin> {0xFF, 0x03} \<and> ps \<noteq> [] \<and> (\<forall>e. hd ps \<noteq> CBad e)"
proof (cases "cfg_subcommand r \<in> {0xFF, 0x03} \<or> ps = [] \<or> (\<exists>e. hd ps = CBad e)")
  case True
  then have "map_loop cfg_subpara_field r (CMap ps) \<noteq> None"
    using cfg_subpara_returns [of r "CMap ps"]
    by (cases ps) (auto simp: map_loop_def cbor_loop.simps)
  then show ?thesis using True by blast
next
  case False
  then obtain p qs where p: "ps = p # qs" "\<And>e. p \<noteq> CBad e" by (cases ps) auto
  have "cbor_loop cfg_subpara_field r ps = None"
    by (rule cbor_loop_stuck) (use False in \<open>auto simp: cfg_subpara_field_def\<close>)
  then have "map_loop cfg_subpara_field r (CMap ps) = None"
    using p by (auto simp: map_loop_def split: cbor.splits)
  then show ?thesis using False by blast
qed

lemma field_reads_tl:
  "field_uint xs = Inr (v, r) \<Longrightarrow> xs \<noteq> [] \<and> r = tl xs" "field_bytes xs = Inr (d, r) \<Longrightarrow> xs \<noteq> [] \<and> r = tl xs"
  by (auto simp: field_uint_def field_bytes_def map_sum_def
      split: list.splits cbor.splits sum.splits dest!: cbor_advance_length)

lemma word_above:
  fixes n v :: u64
  assumes "n \<le> v" and "v \<noteq> - 1"
  shows "n \<le> v + 1"
proof -
  have "1 + v \<noteq> 0" using assms(2) max_word_wrap [of v] by (auto simp: add.commute)
  then have "unat (1 + v) = Suc (unat v)" by (rule unatSuc)
  then show ?thesis using assms(1) by (simp add: word_le_nat_alt add.commute)
qed

text \<open>Behind the subcommand parameters the request reads no further map.\<close>

lemma cfg_field_late:
  assumes "cfg_val_c r \<ge> 3" and "CUInt (- 1) \<notin> set xs" and "xs \<noteq> []"
  shows "case cfg_field r xs of None \<Rightarrow> False | Some (Inl e) \<Rightarrow> True
    | Some (Inr (u, ys)) \<Rightarrow> (cfg_val_c u \<ge> 3 \<and> CUInt (- 1) \<notin> set ys) \<and> length ys < length xs"
proof (cases "field_uint xs")
  case (Inl e)
  then show ?thesis by (simp add: cfg_field_def)
next
  case (Inr p)
  obtain v zs where v: "field_uint xs = Inr (v, zs)" using Inr by (cases p) simp
  then have x: "xs = CUInt v # zs"
    by (auto simp: field_uint_def map_sum_def split: list.splits cbor.splits sum.splits dest!: cbor_advance_length)
  have nv: "v \<noteq> - 1" and zs: "CUInt (- 1) \<notin> set zs" using assms(2) x by auto
  show ?thesis
  proof (cases "v < cfg_val_c r")
    case True
    have "cfg_field r xs = Some (Inl CTAP2_ERR_MISSING_PARAMETER) \<or> cfg_field r xs = Some (Inl CTAP2_ERR_INVALID_CBOR)"
      using v True by (simp add: cfg_field_def)
    then show ?thesis by auto
  next
    case False
    then have ge: "v \<ge> 3" and ge': "v + 1 \<ge> 3" using assms(1) word_above [OF _ nv, of 3] by auto
    have ne: "v \<noteq> 1" "v \<noteq> 2" "\<not> cfg_val_c r \<le> 1" using ge assms(1) by (auto simp: word_le_nat_alt)
    let ?r = "r\<lparr>cfg_val_c := v + 1\<rparr>"
    have run: "cfg_field r xs =
      Some (if v = 0x03 then set_field (\<lambda>w. ?r\<lparr>cfg_protocol := w\<rparr>) (field_uint zs)
            else if v = 0x04 then set_field (\<lambda>d. ?r\<lparr>cfg_param := Some d\<rparr>) (field_bytes zs) else Inr (?r, zs))"
      using v False ne by (auto simp: cfg_field_def Let_def)
    have "ys = zs \<or> zs \<noteq> [] \<and> ys = tl zs" "cfg_val_c u = v + 1" if "cfg_field r xs = Some (Inr (u, ys))" for u ys
      using that run by (auto split: if_splits dest!: set_field_shorter field_reads_tl)
    then have "cfg_val_c u \<ge> 3 \<and> CUInt (- 1) \<notin> set ys \<and> length ys < length xs"
      if "cfg_field r xs = Some (Inr (u, ys))" for u ys
      using that ge' zs x by (metis (no_types, lifting) length_Cons length_tl less_Suc_eq_le diff_le_self le_refl list.set_sel(2))
    then show ?thesis using run by (auto split: option.splits sum.splits)
  qed
qed

text \<open>
  C16: Which configuration requests return. A request with a map of subcommand parameters is
  answered for the two subcommands that read them, whatever else it holds; for every other
  subcommand it never returns unless the map is empty or malformed at its start. No token is
  involved: the loop is entered before the request is authenticated.
\<close>

theorem config_returns_iff:
  assumes "sdk_cbor_dec k d = Inr (CMap (CUInt 0x01 # CUInt c # CUInt 0x02 # CMap ps # rest))"
    and "CUInt (- 1) \<notin> set rest"
  shows "cbor_config k forbid d s = None \<longleftrightarrow> c \<notin> {0xFF, 0x03} \<and> ps \<noteq> [] \<and> (\<forall>e. hd ps \<noteq> CBad e)"
proof -
  let ?r = "cfg_init\<lparr>cfg_val_c := 2, cfg_subcommand := c\<rparr>"
  let ?sub = "map_loop cfg_subpara_field (?r\<lparr>cfg_val_c := 3\<rparr>) (CMap ps)"
  have 1: "cfg_field cfg_init (CUInt 0x01 # CUInt c # CUInt 0x02 # CMap ps # rest) = Some (Inr (?r, CUInt 0x02 # CMap ps # rest))"
    by (simp add: cfg_field_def cfg_init_def field_uint_def cbor_advance_def set_field_def)
  have head: "field_uint (CUInt 0x02 # CMap ps # rest) = Inr (0x02, CMap ps # rest)"
    by (simp add: field_uint_def cbor_advance_def)
  have 2: "cfg_field ?r (CUInt 0x02 # CMap ps # rest) =
      map_option (\<lambda>q. case q of Inl e \<Rightarrow> Inl e
        | Inr r \<Rightarrow> map_sum id (Pair (r\<lparr>cfg_has_para := True\<rparr>)) (cbor_advance (CMap ps # rest))) ?sub"
    using head by (simp add: cfg_field_def)
  have sub: "?sub = None \<longleftrightarrow> c \<notin> {0xFF, 0x03} \<and> ps \<noteq> [] \<and> (\<forall>e. hd ps \<noteq> CBad e)"
    using cfg_subpara_iff [of "?r\<lparr>cfg_val_c := 3\<rparr>" ps] by simp
  have late: "cbor_loop cfg_field u rest \<noteq> None" if "cfg_val_c u = 3" for u
  proof -
    let ?I = "\<lambda>u xs. cfg_val_c u \<ge> 3 \<and> CUInt (- 1) \<notin> set xs"
    have "\<exists>y. cbor_loop cfg_field u rest = Some y \<and> (\<forall>v. y = Inr v \<longrightarrow> ?I v [])"
      by (rule cbor_loop_returns [where I = ?I]) (rule cfg_field_late, use that assms(2) in auto)
    then show ?thesis by auto
  qed
  have val: "cfg_val_c u = 3" if "?sub = Some (Inr u)" for u
  proof (cases "c \<in> {0xFF, 0x03}")
    case True
    then show ?thesis using cfg_subpara_returns [of "?r\<lparr>cfg_val_c := 3\<rparr>" "CMap ps"] that by auto
  next
    case False
    then have "ps = []" using that sub by (cases ps) (auto simp: map_loop_def)
    then show ?thesis using that by (auto simp: map_loop_def cbor_loop.simps)
  qed
  have "map_loop cfg_field cfg_init (CMap (CUInt 0x01 # CUInt c # CUInt 0x02 # CMap ps # rest)) = None \<longleftrightarrow> ?sub = None"
  proof (cases ?sub)
    case None
    then show ?thesis
      using 1 2 by (simp add: map_loop_def cbor_loop.simps [of cfg_field cfg_init] cbor_loop.simps [of cfg_field ?r])
  next
    case (Some q)
    let ?a = "cbor_advance (CMap ps # rest)"
    have "cbor_loop cfg_field ?r (CUInt 0x02 # CMap ps # rest) \<noteq> None"
    proof (cases q)
      case (Inl e)
      then show ?thesis using 2 Some by (simp add: cbor_loop.simps [of cfg_field ?r])
    next
      case (Inr u)
      then have v: "cfg_val_c (u\<lparr>cfg_has_para := True\<rparr>) = 3" using val Some by simp
      show ?thesis
        using 2 Some Inr late [OF v]
        by (cases ?a) (auto simp: cbor_loop.simps [of cfg_field ?r] dest!: cbor_advance_length)
    qed
    then show ?thesis using 1 Some by (simp add: map_loop_def cbor_loop.simps [of cfg_field cfg_init])
  qed
  then show ?thesis
    using assms(1) sub by (auto simp: cbor_config_def split: option.splits sum.splits prod.splits)
qed

lemma config_returns_iff_witness:
  "cbor_config ref_sdk False [0xa2, 0x01, 0x02, 0x02, 0xa1, 0x01, 0x00] (ref_ctap 0 Map.empty) = None"
proof -
  have "ref_cbor_dec [0xa2, 0x01, 0x02, 0x02, 0xa1, 0x01, 0x00] = Inr (CMap [CUInt 0x01, CUInt 0x02, CUInt 0x02, CMap [CUInt 0x01, CUInt 0x00]])"
    by code_simp
  then show ?thesis by (subst config_returns_iff [where c = "0x02" and ps = "[CUInt 0x01, CUInt 0x00]" and rest = "[]"]) simp_all
qed

subsection \<open>The minimum length of the PIN\<close>

abbreviation (input) not_minpin :: "fid set" where "not_minpin \<equiv> - {EF_MINPINLEN}"

text \<open>A write through a pointer that was looked up before, in the order a chain of writes is resolved.\<close>

lemma keeps_write:
  "file_put_data k (file_search u f) d s = (r, t) \<Longrightarrow> put_law k \<Longrightarrow> f \<in> F \<Longrightarrow> keeps F s0 s \<Longrightarrow> keeps F s0 t"
  by (rule keeps_put)

lemma keeps_random: "random_fill_buffer k n s = (d, t) \<Longrightarrow> keeps F s0 s \<Longrightarrow> keeps F s0 t"
  by (auto simp: random_fill_buffer_def)

lemma keeps_calloc: "calloc k n s = (b, t) \<Longrightarrow> keeps F s0 s \<Longrightarrow> keeps F s0 t"
  by (auto simp: calloc_def)

lemma keeps_memory [simp]:
  "keeps F s (t\<lparr>keydev_dec := d\<rparr>) = keeps F s t" "keeps F s (t\<lparr>paut := p\<rparr>) = keeps F s t"
  "keeps F s (t\<lparr>ppaut := q\<rparr>) = keeps F s t" "keeps F s (session_invalidate t) = keeps F s t"
  by (simp_all add: keeps_def)

lemma set_opts_keeps: "put_law k \<Longrightarrow> EF_OPTS \<in> F \<Longrightarrow> keeps F s0 s \<Longrightarrow> keeps F s0 (set_opts k d s)"
  by (auto simp: set_opts_def simp del: file_search_data split: prod.splits intro: keeps_write)

lemma reset_tokens_keep:
  assumes "put_law k" and "keeps F s0 s"
  shows "EF_AUTHTOKEN \<in> F \<Longrightarrow> keeps F s0 (resetPinUvAuthToken k s)"
    and "EF_PAUTHTOKEN \<in> F \<Longrightarrow> keeps F s0 (resetPersistentPinUvAuthToken k s)"
  using assms
  by (auto simp: resetPinUvAuthToken_def resetPersistentPinUvAuthToken_def resetAuthToken_def Let_def
      simp del: file_search_data split: prod.splits intro: keeps_write keeps_random)

lemma config_vendor_keeps:
  assumes "put_law k"
  shows "keeps not_minpin s (snd (config_vendor k r s))"
proof -
  note w = keeps_write [OF _ assms] keeps_random keeps_calloc set_opts_keeps [OF assms] keeps_memory [THEN iffD2]
  have "keeps not_minpin s (snd (aut_disable k s))"
    by (auto simp: aut_disable_def Let_def simp del: file_search_data split: prod.splits if_splits)
       (rule w(1), assumption, simp, rule w(5), rule w(1), assumption, simp_all)
  moreover have "keeps not_minpin s (snd (aut_enable k r s))"
    by (auto simp: aut_enable_def Let_def simp del: file_search_data split: prod.splits if_splits option.splits)
       (rule w(2), assumption, simp, (rule w(1), assumption, simp)+, rule w(2), assumption, simp)
  moreover have "keeps not_minpin s (snd (ea_upload k r s))"
    by (auto simp: ea_upload_def Let_def simp del: file_search_data split: prod.splits if_splits option.splits
        intro: keeps_put_snd [OF assms])
  moreover have "keeps not_minpin s (put_pin_policy k r s)"
    by (auto simp: put_pin_policy_def Let_def simp del: file_search_data split: prod.splits if_splits option.splits
        intro!: keeps_put_snd [OF assms] intro: keeps_calloc)
  ultimately show ?thesis by (simp add: config_vendor_def Let_def set_opts_keeps [OF assms])
qed

lemma min_pin_len_file: "min_pin_len s = (case files s EF_MINPINLEN of Some (b # _) \<Rightarrow> b | _ \<Rightarrow> 4)"
  by (auto simp: min_pin_len_def split: option.splits list.splits)

text \<open>The only subcommand that writes the file of the minimum length.\<close>

lemma set_min_pin_length_grows:
  fixes s t :: "'a fido_scheme"
  assumes "put_law k" and "set_min_pin_length k r s = (e, t)"
  shows "min_pin_len s \<le> min_pin_len t"
proof (cases "newMinPinLength r \<noteq> 0 \<and> (newMinPinLength r > 63 \<or> newMinPinLength r < ucast (min_pin_len s)) \<or>
    forceChangePin r = Some True \<and> \<not> file_has_data s (file_search s EF_PIN)")
  case True
  then have "t = s" using assms(2) by (auto simp: set_min_pin_length_def Let_def split: if_splits)
  then show ?thesis by simp
next
  case ok: False
  define new where "new = (if newMinPinLength r = 0 then ucast (min_pin_len s) else newMinPinLength r)"
  have new: "min_pin_len s \<le> ucast new"
  proof (cases "newMinPinLength r = 0")
    case False
    then have "ucast (min_pin_len s) \<le> newMinPinLength r" "newMinPinLength r \<le> 63" using ok by auto
    then have "unat (min_pin_len s) \<le> unat (newMinPinLength r)" "unat (newMinPinLength r) \<le> 63"
      using unat_byte_less [of "min_pin_len s"] by (simp_all add: word_le_nat_alt unsigned_ucast_eq take_bit_eq_mod)
    then show ?thesis using False unat_byte_less [of "min_pin_len s"] by (simp add: new_def word_le_nat_alt unsigned_ucast_eq take_bit_eq_mod)
  qed (simp add: new_def ucast_up_ucast_id is_up)
  define force where "force = (if file_has_data s (file_search s EF_PIN) \<and>
      ucast (byte_at (file_get_data s (file_search s EF_PIN)) 1) < new then Some True else forceChangePin r)"
  define d where "d = (if force = Some True then 1 else 0) # concat (map (sha256 k) (minPinLengthRPIDs r))"
  define u where "u = (if force \<noteq> None then resetPinUvAuthToken k (resetPersistentPinUvAuthToken k s) else s)"
  have u: "keeps not_minpin s u"
    by (simp add: u_def reset_tokens_keep [OF assms(1)])
  obtain q v where v: "file_put_data k (file_search s EF_MINPINLEN) (ucast new # d) u = (q, v)" by (metis surj_pair)
  have run: "file_put_data k (file_search s EF_MINPINLEN) ([ucast new, if force = Some True then 1 else 0] @
      concat (map (sha256 k) (minPinLengthRPIDs r))) u = (q, v)"
    using v by (simp add: d_def)
  have "t = v \<or> t = flash_commit v \<or> t = flash_commit (snd (file_put_data k (file_search v EF_PIN_COMPLEXITY_POLICY) [0, 0] v))"
    using assms(2) ok
    unfolding set_min_pin_length_def Let_def new_def [symmetric] force_def [symmetric] u_def [symmetric] run prod.case
    by (auto split: if_splits)
  then have t: "keeps not_minpin v t"
    using keeps_put_snd [OF assms(1), of EF_PIN_COMPLEXITY_POLICY not_minpin v v v] by auto
  have "files v EF_MINPINLEN = files s EF_MINPINLEN \<or> files v EF_MINPINLEN = Some (ucast new # d)"
    using file_put_data_cases [OF assms(1) v] u by (auto simp: keeps_def file_search_def split: if_splits)
  moreover have "files t EF_MINPINLEN = files v EF_MINPINLEN" using t by (simp add: keeps_def)
  ultimately show ?thesis using new by (auto simp: min_pin_len_file)
qed

lemma keeps_min_pin_len: "keeps not_minpin s t \<Longrightarrow> min_pin_len t = min_pin_len s"
  by (simp add: min_pin_len_file keeps_def)

lemma config_subcommand_grows:
  assumes "put_law k" and "config_subcommand k forbid r s = (e, t)"
  shows "min_pin_len s \<le> min_pin_len t"
proof (cases "cfg_subcommand r = 0x03")
  case True
  then show ?thesis
    using assms(2) set_min_pin_length_grows [OF assms(1)] by (simp add: config_subcommand_def)
next
  case False
  note o = set_opts_keeps [OF assms(1), of not_minpin s]
  have "keeps not_minpin s (snd (toggle_always_uv k forbid s))"
    by (auto simp: toggle_always_uv_def Let_def intro!: o set_opts_keeps [OF assms(1)])
  then have "keeps not_minpin s (snd (config_subcommand k forbid r s))"
    using False config_vendor_keeps [OF assms(1), of s r] o by (simp add: config_subcommand_def)
  then show ?thesis using assms(2) keeps_min_pin_len by fastforce
qed

text \<open>What the token is asked for.\<close>

definition cfg_payload :: "cfg_req \<Rightarrow> bytes \<Rightarrow> bytes" where
  "cfg_payload r raw = replicate 32 0xff @ [0x0d, ucast (cfg_subcommand r)] @ (if cfg_has_para r then raw else [])"

lemma cfg_authorize_token:
  assumes "cfg_authorize k r (if cfg_has_para r then raw else []) s = None"
  shows "\<exists>param n. cfg_param r = Some param \<and> n = length (cfg_payload r raw) mod 65536 \<and>
    verify k (ucast (cfg_protocol r)) (paut_data (paut s)) (take n (cfg_payload r raw)) param \<and>
    permissions (paut s) AND CTAP_PERMISSION_ACFG \<noteq> 0"
  using assms by (auto simp: cfg_authorize_def cfg_payload_def Let_def split: option.splits if_splits)

text \<open>
  C6: A configuration request never lowers the minimum length of the PIN, and it changes the
  storage only when the request as a whole, subcommand and parameters, is authenticated with the
  token and the token has the permission to configure the authenticator.
\<close>

theorem config_guarded:
  fixes s t :: "'a ctap_scheme"
  assumes "put_law k" and "cbor_config k forbid d s = Some (e, t)"
  shows "min_pin_len s \<le> min_pin_len t \<and>
    (files t \<noteq> files s \<longrightarrow>
      (\<exists>m r param n. sdk_cbor_dec k d = Inr m \<and> map_loop cfg_field cfg_init m = Some (Inr r) \<and>
        cfg_param r = Some param \<and> n = length (cfg_payload r (sdk_cbor_raw k d 3)) mod 65536 \<and>
        verify k (ucast (cfg_protocol r)) (paut_data (paut s)) (take n (cfg_payload r (sdk_cbor_raw k d 3))) param \<and>
        permissions (paut s) AND CTAP_PERMISSION_ACFG \<noteq> 0))"
proof (cases "files t = files s")
  case True
  then have "min_pin_len t = min_pin_len s" by (simp add: min_pin_len_file)
  then show ?thesis using True by simp
next
  case False
  obtain m r where m: "sdk_cbor_dec k d = Inr m" "map_loop cfg_field cfg_init m = Some (Inr r)"
    using assms(2) False by (auto simp: cbor_config_def split: sum.splits option.splits)
  obtain e' u where u: "config k forbid (sdk_cbor_raw k d 3) r s = (e', u)" by (metis surj_pair)
  have t: "t = u \<or> t = u\<lparr>res_APDU := []\<rparr>"
    using assms(2) by (auto simp: cbor_config_def m u split: option.splits)
  then have files: "files u = files t" "min_pin_len u = min_pin_len t" by (auto simp: min_pin_len_file)
  have a: "cfg_authorize k r (if cfg_has_para r then sdk_cbor_raw k d 3 else []) s = None"
    and c: "config_subcommand k forbid r s = (e', u)"
    using u False files by (auto simp: config_def split: option.splits)
  show ?thesis
    using config_subcommand_grows [OF assms(1) c] cfg_authorize_token [OF a] m files by auto
qed

subsection \<open>On the reference platform\<close>

text \<open>A request for a minimum length of six with the parameter the reference platform computes.\<close>

definition ref_minpin_request :: bytes where
  "ref_minpin_request = [0xa4, 0x01, 0x03, 0x02, 0xa1, 0x01, 0x06, 0x03, 0x01, 0x04, 0x50] @ replicate 16 0"

definition ref_minpin_cfg :: cfg_req where
  "ref_minpin_cfg = cfg_init\<lparr>cfg_subcommand := 3, cfg_has_para := True, newMinPinLength := 6, cfg_protocol := 1,
     cfg_param := Some (replicate 16 0), cfg_val_c := 5\<rparr>"

definition ref_minpin_state :: ctap where
  "ref_minpin_state = ref_ctap CTAP_PERMISSION_ACFG [EF_MINPINLEN \<mapsto> [4, 0]]"

lemma ref_minpin_parse:
  "ref_cbor_dec ref_minpin_request = Inr (CMap [CUInt 1, CUInt 3, CUInt 2, CMap [CUInt 1, CUInt 6], CUInt 3, CUInt 1, CUInt 4, CBytes (replicate 16 0)])"
  by code_simp

lemma cbor_loop_Nil: "cbor_loop body st [] = Some (Inr st)"
  by (simp add: cbor_loop.simps)

lemma cbor_loop_Cons: "body st (x # xs) = Some (Inr (u, r)) \<Longrightarrow> cbor_loop body st (x # xs) = cbor_loop body u r"
  by (simp add: cbor_loop.simps [of body st "x # xs"])

lemma ref_minpin_cfg:
  "map_loop cfg_field cfg_init
     (CMap [CUInt 1, CUInt 3, CUInt 2, CMap [CUInt 1, CUInt 6], CUInt 3, CUInt 1, CUInt 4, CBytes (replicate 16 0)]) =
   Some (Inr ref_minpin_cfg)"
  by (simp add: map_loop_def cbor_loop_Nil cbor_loop_Cons cfg_field_def cfg_subpara_field_def cfg_init_def ref_minpin_cfg_def
      field_uint_def field_bytes_def set_field_def cbor_advance_def)

lemma config_guarded_witness:
  "\<exists>t. cbor_config ref_sdk False ref_minpin_request ref_minpin_state = Some (None, t) \<and>
     files t EF_MINPINLEN = Some [6, 0] \<and> min_pin_len ref_minpin_state \<le> min_pin_len t \<and>
     permissions (paut ref_minpin_state) AND CTAP_PERMISSION_ACFG \<noteq> 0"
proof -
  have auth: "cfg_authorize ref_sdk ref_minpin_cfg raw ref_minpin_state = None" for raw
    by (simp add: cfg_authorize_def ref_minpin_cfg_def cfg_init_def ref_minpin_state_def ref_verify Let_def)
  obtain e u where u: "set_min_pin_length ref_sdk ref_minpin_cfg ref_minpin_state = (e, u)" by (metis surj_pair)
  have v: "e = None" "files u EF_MINPINLEN = Some [6, 0]"
    using u by (auto simp: set_min_pin_length_def ref_minpin_cfg_def cfg_init_def ref_minpin_state_def min_pin_len_file
        file_put_data_def ref_put_def file_search_def flash_commit_def Let_def)
  have t: "cbor_config ref_sdk False ref_minpin_request ref_minpin_state = Some (None, u\<lparr>res_APDU := []\<rparr>)"
    using u v(1) by (simp add: cbor_config_def ref_minpin_parse ref_minpin_cfg config_def auth config_subcommand_def)
      (simp add: ref_minpin_cfg_def cfg_init_def)
  have new: "files (u\<lparr>res_APDU := []\<rparr>) \<noteq> files ref_minpin_state" using v(2) by (auto simp: ref_minpin_state_def)
  show ?thesis
    using config_guarded [OF ref_put_law t] t v(2) new by auto
qed

end
