(* ===== verification/Lock_Properties.thy ===== *)
theory Lock_Properties
  imports Vendor Config_Properties
begin

text \<open>
  The lock of the device key: what enabling it leaves in storage, when unlocking gives the key
  back, and what disabling it does to the key in memory.
\<close>




text \<open>A key file of 32 bytes, decrypted when the hardware has a key.\<close>

lemma load_keydev_32:
  assumes "\<not> has_keydev_dec s" and "files s EF_KEY_DEV = Some d" and "length d = 32"
  shows "load_keydev k z s =
    (case sdk_otp_key k of None \<Rightarrow> (PICOKEYS_OK, d, s)
     | Some otp \<Rightarrow> (if fst (sdk_aes_dec k otp None d) \<noteq> PICOKEYS_OK then PICOKEYS_EXEC_ERROR else PICOKEYS_OK,
                     snd (sdk_aes_dec k otp None d), s))"
proof -
  have "d \<noteq> []" using assms(3) by auto
  then show ?thesis
    using assms by (auto simp: load_keydev_def file_reads Let_def split_beta split: option.splits)
qed


text \<open>
  C39: Disabling the lock leaves the authenticator with a device key of zeros: the key goes back to
  its file, but the copy in memory, which is still the one in use, is wiped. Every later state that
  has this copy loads the zeros, whatever is in its files; one without a copy in memory, as after a
  restart, loads the key from the file, where no key of the hardware encrypts it.
\<close>

theorem disabled_lock_zero_key:
  fixes s t :: "'a ctap_scheme"
  assumes "put_law k" and "accepts k EF_KEY_DEV" and "files s EF_KEY_DEV \<noteq> None" and "aut_disable k s = (None, t)"
  shows "files t EF_KEY_DEV = Some (fit 32 (keydev_dec s)) \<and> load_keydev k z t = (PICOKEYS_OK, replicate 32 0, t) \<and>
    (\<forall>u :: 'a ctap_scheme. has_keydev_dec u = has_keydev_dec t \<and> keydev_dec u = keydev_dec t \<longrightarrow>
      load_keydev k z u = (PICOKEYS_OK, replicate 32 0, u)) \<and>
    (\<forall>u :: 'a ctap_scheme. \<not> has_keydev_dec u \<and> files u EF_KEY_DEV = files t EF_KEY_DEV \<and> sdk_otp_key k = None \<longrightarrow>
      load_keydev k z u = (PICOKEYS_OK, fit 32 (keydev_dec s), u))"
proof -
  have on: "has_keydev_dec s" using assms(4) by (auto simp: aut_disable_def Let_def split: if_splits)
  obtain r1 s1 where w1: "file_put_data k (Some EF_KEY_DEV) (fit 32 (keydev_dec s)) s = (r1, s1)" by (metis surj_pair)
  let ?s = "s1\<lparr>keydev_dec := replicate 32 0\<rparr>"
  obtain r2 s2 where w2: "file_put_data k (file_search ?s EF_KEY_DEV_ENC) [] ?s = (r2, s2)" by (metis surj_pair)
  have ef: "file_search s EF_KEY_DEV = Some EF_KEY_DEV" using assms(3) by (simp add: file_search_def)
  have t: "t = flash_commit s2"
    using assms(4) by (auto simp: aut_disable_def Let_def ef w1 w2 simp del: file_search_data split: if_splits)
  have "files s1 = (files s)(EF_KEY_DEV \<mapsto> fit 32 (keydev_dec s))" by (rule accepts_put [OF assms(1,2) _ w1]) simp
  then have "files s2 EF_KEY_DEV = Some (fit 32 (keydev_dec s))"
    using file_put_data_frame [OF assms(1) w2, of EF_KEY_DEV] by (simp add: file_search_def split: if_splits)
  moreover have "has_keydev_dec s2" "keydev_dec s2 = replicate 32 0"
    using file_put_data_step [OF w1] file_put_data_step [OF w2] on by (auto simp: store_step_def)
  moreover have "load_keydev k z u = (PICOKEYS_OK, fit 32 (keydev_dec s), u)"
    if "\<not> has_keydev_dec u" "files u EF_KEY_DEV = Some (fit 32 (keydev_dec s))" "sdk_otp_key k = None" for u :: "'a ctap_scheme"
    using load_keydev_32 [OF that(1,2)] that(3) by simp
  ultimately show ?thesis by (simp add: t load_keydev_def flash_commit_def)
qed

subsection \<open>On the reference platform\<close>






lemma disabled_lock_zero_key_witness:
  "\<exists>t. aut_disable ref_sdk (ref_ctap 0 [EF_KEY_DEV \<mapsto> [], EF_KEY_DEV_ENC \<mapsto> [1]]\<lparr>has_keydev_dec := True, keydev_dec := replicate 32 3\<rparr>) = (None, t) \<and>
     files t EF_KEY_DEV = Some (replicate 32 3) \<and> load_keydev ref_sdk [] t = (PICOKEYS_OK, replicate 32 0, t)"
proof -
  let ?s = "ref_ctap 0 [EF_KEY_DEV \<mapsto> [], EF_KEY_DEV_ENC \<mapsto> [1]]\<lparr>has_keydev_dec := True, keydev_dec := replicate 32 3\<rparr>"
  have acc: "accepts ref_sdk f" for f by (simp add: accepts_def ref_put_def)
  obtain e t where t: "aut_disable ref_sdk ?s = (e, t)" by (metis surj_pair)
  have e: "e = None" using t by (auto simp: aut_disable_def Let_def split_beta)
  show ?thesis
    using disabled_lock_zero_key [OF ref_put_law acc _ t [unfolded e], of "[]"] t e by simp
qed

end
