(* ===== verification/Cred_Mgmt_Properties.thy ===== *)
theory Cred_Mgmt_Properties
  imports Cred_Mgmt Ref_Ctap
begin

text \<open>
  What holds of the management of credentials: without a token that verifies the request nothing
  is told, changed or remembered.
\<close>

text \<open>What a request is authenticated by, and what of the state answers it.\<close>

definition cm_payload :: "cm_req \<Rightarrow> bytes \<Rightarrow> bytes" where
  "cm_payload r raw = ucast (cm_subcommand r) # (if cm_subcommand r \<le> 0x02 then [] else raw)"

definition cm_changes :: "cm_req \<Rightarrow> bool" where
  "cm_changes r \<longleftrightarrow> cm_subcommand r = 0x06 \<or> cm_subcommand r = 0x07"

definition cm_continues :: "cm_req \<Rightarrow> bool" where
  "cm_continues r \<longleftrightarrow> cm_subcommand r = 0x03 \<or> cm_subcommand r = 0x05"

definition cm_proves :: "sdk \<Rightarrow> cm_req \<Rightarrow> bytes \<Rightarrow> bytes \<Rightarrow> bool" where
  "cm_proves k r token d \<longleftrightarrow>
     (\<exists>param. cm_param r = Some param \<and> verify k (ucast (cm_protocol r)) token (take (length d mod 65536) d) param)"

lemma cm_check_param: "cm_check r = None \<Longrightarrow> \<not> cm_continues r \<Longrightarrow> \<exists>param. cm_param r = Some param"
  by (auto simp: cm_check_def cm_continues_def split: if_splits)

lemma cm_verify_proves: "cm_param r = Some param \<Longrightarrow> cm_verify k r token d = cm_proves k r token d"
  by (simp add: cm_verify_def cm_proves_def)

text \<open>The conditions of the subcommands.\<close>

definition cm_authorized :: "sdk \<Rightarrow> bool \<Rightarrow> cm_req \<Rightarrow> bytes \<Rightarrow> 'a fido_scheme \<Rightarrow> bool" where
  "cm_authorized k preview r raw s \<longleftrightarrow>
     (let d = cm_payload r raw
      in cm_proves k r (paut_data (paut s)) d \<and>
           (preview \<or> permissions (paut s) AND CTAP_PERMISSION_CM \<noteq> 0 \<and>
              (has_rp_id (paut s) \<longrightarrow> \<not> cm_subcommand r \<le> 0x02 \<and> cm_rpIdHash r = Some (rp_id_hash (paut s)))) \<or>
         \<not> cm_changes r \<and> cm_proves k r (ppaut_data (ppaut s)) d \<and> ppaut_permissions (ppaut s) AND CTAP_PERMISSION_PCMR \<noteq> 0)"

lemma cm_may_read_authorized:
  assumes "cm_may_read k preview r (cm_payload r raw) scope s" and "cm_param r = Some param" and "\<not> cm_changes r"
    and "scope (rp_id_hash (paut s)) \<longrightarrow> \<not> cm_subcommand r \<le> 0x02 \<and> cm_rpIdHash r = Some (rp_id_hash (paut s))"
  shows "cm_authorized k preview r raw s"
  using assms(1,3,4) unfolding cm_may_read_def cm_verify_proves [OF assms(2)] cm_authorized_def Let_def
  by (auto split: if_splits)

lemma cm_may_write_authorized:
  assumes "cm_may_write k preview r (cm_payload r raw) s" and "cm_param r = Some param" and "\<not> cm_subcommand r \<le> 0x02"
  shows "cm_authorized k preview r raw s"
  using assms(1,3) unfolding cm_may_write_def cm_verify_proves [OF assms(2)] cm_authorized_def Let_def by auto

text \<open>
  C7: Credential management tells and changes nothing without a token. A request that is not the
  continuation of an enumeration is either refused and leaves the whole state as it is, or its
  parameter verifies the subcommand with its parameters under the token, which has the management
  permission and is bound to no relying party but the one the request names, or, for a request
  that only reads, under the persistent token with its permission to read. The preview command
  asks for no permission. A continuation of an enumeration that has nothing left is refused and
  leaves the whole state as it is.
\<close>

theorem cred_mgmt_guarded:
  fixes s t :: "'a ctap_scheme"
  assumes "cred_mgmt k ob eddsa preview raw r s = (res, t)"
  shows "if cm_continues r
    then (t = s \<and> res \<in> range Inl) \<or>
      (if cm_subcommand r = 0x03 then rp_counter s \<le> rp_total s else cred_counter s \<le> cred_total s)
    else (t = s \<and> res \<in> range Inl) \<or> cm_authorized k preview r raw s"
proof (cases "cm_continues r")
  case True
  then show ?thesis
    using assms
    by (auto simp: cm_continues_def cred_mgmt_def cm_enumerate_rps_def cm_enumerate_credentials_def split: option.splits if_splits)
next
  case cont: False
  show ?thesis
  proof (cases "cm_authorized k preview r raw s")
    case False
    have param: "\<exists>param. cm_param r = Some param" if "cm_check r = None" using cm_check_param that cont by blast
    have no_read: "\<not> cm_may_read k preview r d scope s"
      if "cm_check r = None" "\<not> cm_changes r" "d = cm_payload r raw"
        "scope (rp_id_hash (paut s)) \<longrightarrow> \<not> cm_subcommand r \<le> 0x02 \<and> cm_rpIdHash r = Some (rp_id_hash (paut s))" for d scope
      using cm_may_read_authorized [of k preview r raw scope s] param that False by blast
    have no_write: "\<not> cm_may_write k preview r d s"
      if "cm_check r = None" "\<not> cm_subcommand r \<le> 0x02" "d = cm_payload r raw" for d
      using cm_may_write_authorized [of k preview r raw s] param that False by blast
    consider "cm_check r \<noteq> None" | "cm_check r = None" "cm_subcommand r \<in> {0x01, 0x02}" | "cm_check r = None" "cm_subcommand r = 0x04"
      | "cm_check r = None" "cm_changes r" | "cm_subcommand r \<notin> {0x01, 0x02, 0x03, 0x04, 0x05, 0x06, 0x07}"
      using cont by (auto simp: cm_changes_def cm_continues_def)
    then have "t = s \<and> res \<in> range Inl"
    proof cases
      case 2
      have "\<not> cm_may_read k preview r [ucast (cm_subcommand r)] (\<lambda>_. False) s"
        by (rule no_read) (use 2 in \<open>auto simp: cm_payload_def cm_changes_def\<close>)
      then show ?thesis using assms 2 by (auto simp: cred_mgmt_def cm_metadata_def cm_enumerate_rps_def)
    next
      case 3
      have "\<not> cm_may_read k preview r (0x04 # raw) (\<lambda>h. h = the (cm_rpIdHash r)) s" if "cm_rpIdHash r \<noteq> None"
        by (rule no_read) (use 3 that in \<open>auto simp: cm_payload_def cm_changes_def\<close>)
      then show ?thesis using assms 3 by (cases "cm_rpIdHash r") (auto simp: cred_mgmt_def cm_enumerate_credentials_def)
    next
      case 4
      have "\<not> cm_may_write k preview r (ucast (cm_subcommand r) # raw) s"
        by (rule no_write) (use 4 in \<open>auto simp: cm_payload_def cm_changes_def\<close>)
      then show ?thesis
        using assms 4 by (auto simp: cred_mgmt_def cm_changes_def cm_delete_def cm_update_user_def split: option.splits)
    qed (use assms in \<open>auto simp: cred_mgmt_def split: option.splits\<close>)
    then show ?thesis using cont by simp
  qed (use cont in simp)
qed

text \<open>Counting the credentials of an empty authenticator, once with a wrong parameter.\<close>

definition ref_count_req :: "byte \<Rightarrow> cm_req" where
  "ref_count_req b = cm_init\<lparr>cm_subcommand := 0x01, cm_protocol := 1, cm_param := Some (replicate 16 b)\<rparr>"

lemma cred_mgmt_guarded_witness:
  "\<exists>res t. cred_mgmt ref_sdk ref_objs False False [] (ref_count_req 0) (ref_ctap CTAP_PERMISSION_CM Map.empty) = (res, t) \<and> res \<in> range Inr \<and>
     cm_authorized ref_sdk False (ref_count_req 0) [] (ref_ctap CTAP_PERMISSION_CM Map.empty)"
proof -
  let ?s = "ref_ctap CTAP_PERMISSION_CM Map.empty" and ?r = "ref_count_req 0"
  obtain res t where t: "cred_mgmt ref_sdk ref_objs False False [] ?r ?s = (res, t)" by (metis surj_pair)
  have r: "cm_may_read ref_sdk False ?r [0x01] (\<lambda>_. False) ?s"
    by (simp add: cm_may_read_def cm_verify_def ref_count_req_def cm_init_def ref_verify)
      (simp add: verify_def ref_md_size_def fit_def numeral_eq_Suc)
  have "cred_mgmt ref_sdk ref_objs False False [] ?r ?s = cm_metadata ref_sdk False ?r ?s"
    by (simp add: cred_mgmt_def cm_check_def ref_count_req_def cm_init_def descriptor_zero_def)
  then have "res \<in> range Inr"
    using t r by (auto simp: cm_metadata_def cbor_emit_def ref_cbor_enc_def Let_def simp del: ref_cbor_bytes.simps)
  moreover have "\<not> cm_continues ?r" by (simp add: cm_continues_def ref_count_req_def cm_init_def)
  ultimately show ?thesis using cred_mgmt_guarded [OF t] t by auto
qed

end
