(* ===== verification/Make_Credential_Properties.thy ===== *)
theory Make_Credential_Properties
  imports Make_Credential Ref_Ctap
begin

text \<open>
  What holds of making a credential: who may make one, and with which digest its key signs.
\<close>

subsection \<open>Invariants of reading a map\<close>

lemma cbor_items_inv:
  assumes "\<And>st xs u r. I st \<Longrightarrow> body st xs = Inr (u, r) \<Longrightarrow> I u" and "I st" and "cbor_items body n st xs = Inr u"
  shows "I u"
  using assms(2,3)
proof (induction n arbitrary: st xs)
  case 0
  then show ?case by (cases xs) simp_all
next
  case (Suc n)
  show ?case
  proof (cases xs)
    case (Cons x ys)
    then obtain v r where v: "body st xs = Inr (v, r)" "cbor_items body n v r = Inr u"
      using Suc.prems(2) by (auto split: sum.splits prod.splits)
    show ?thesis by (rule Suc.IH [OF assms(1) [OF Suc.prems(1) v(1)] v(2)])
  qed (use Suc.prems in simp)
qed

lemma cbor_map_inv:
  assumes "\<And>st xs u r. I st \<Longrightarrow> body st xs = Inr (u, r) \<Longrightarrow> I u" and "I st" and "cbor_map body st c = Inr u"
  shows "I u"
proof -
  obtain n xs where xs: "cbor_items body n st xs = Inr u"
    using assms(3) by (auto simp: cbor_map_def simp del: cbor_items.simps split: cbor.splits list.splits)
  show ?thesis by (rule cbor_items_inv [where I = I and body = body, OF assms(1,2) xs])
qed

lemma field_map_inv:
  assumes "\<And>st xs u r. I st \<Longrightarrow> body st xs = Inr (u, r) \<Longrightarrow> I u" and "I st" and "field_map body st xs = Inr (u, r)"
  shows "I u"
proof -
  obtain c where c: "cbor_map body st c = Inr u"
    using assms(3) by (auto simp: field_map_def map_sum_def split: list.splits sum.splits)
  show ?thesis by (rule cbor_map_inv [where I = I and body = body, OF assms(1,2) c])
qed

lemma set_field_Inr: "set_field f q = Inr (u, r) \<Longrightarrow> \<exists>v. q = Inr (v, r) \<and> u = f v"
  by (cases q) (auto simp: set_field_def map_prod_def)

subsection \<open>The options of a request\<close>

text \<open>Without options, and with options that do not say, the user is not verified by the device.\<close>

definition uv_known :: "cred_options \<Rightarrow> bool" where
  "uv_known opts \<longleftrightarrow> opt_uv opts \<noteq> None \<and> (\<not> opt_present opts \<longrightarrow> opt_uv opts = Some False)"

lemma request_option_uv:
  assumes "uv_known opts \<and> opt_present opts" and "request_option opts xs = Inr (u, r)"
  shows "uv_known u \<and> opt_present u"
  using assms
  by (auto simp: request_option_def uv_known_def map_sum_def split: sum.splits if_splits prod.splits dest!: set_field_Inr)

lemma mc_sub_field_options:
  "mc_rp_field r xs = Inr (u, ys) \<Longrightarrow> mc_options u = mc_options r"
  "mc_user_field r xs = Inr (u, ys) \<Longrightarrow> mc_options u = mc_options r"
  "mc_ext_field r xs = Inr (u, ys) \<Longrightarrow> mc_options u = mc_options r"
  by (auto simp: mc_rp_field_def mc_user_field_def mc_ext_field_def map_sum_def Let_def
      split: sum.splits if_splits prod.splits dest!: set_field_Inr)

lemma mc_sub_options:
  "field_map mc_rp_field r xs = Inr (u, ys) \<Longrightarrow> mc_options u = mc_options r"
  "field_map mc_user_field r xs = Inr (u, ys) \<Longrightarrow> mc_options u = mc_options r"
  "field_map mc_ext_field r xs = Inr (u, ys) \<Longrightarrow> mc_options u = mc_options r"
  by (rule field_map_inv [where I = "\<lambda>q. mc_options q = mc_options r"]; simp add: mc_sub_field_options)+

lemma mc_field_options:
  assumes "mc_field r xs = Inr (u, ys)"
  shows "mc_options u = mc_options r \<or>
    (\<exists>zs. field_map request_option ((mc_options r)\<lparr>opt_present := True\<rparr>) zs = Inr (mc_options u, ys))"
  using assms unfolding mc_field_def Let_def
  by (auto split: sum.splits if_splits dest!: set_field_Inr mc_sub_options)

lemma mc_field_uv:
  assumes "uv_known (mc_options r)" and "mc_field r xs = Inr (u, ys)"
  shows "uv_known (mc_options u)"
proof -
  have "uv_known o' \<and> opt_present o'"
    if "field_map request_option ((mc_options r)\<lparr>opt_present := True\<rparr>) zs = Inr (o', ys)" for o' zs
    by (rule field_map_inv [OF request_option_uv _ that]) (use assms(1) in \<open>auto simp: uv_known_def\<close>)
  then show ?thesis using mc_field_options [OF assms(2)] assms(1) by auto
qed

lemma mc_request_uv:
  assumes "cbor_map mc_field mc_init m = Inr r"
  shows "uv_known (mc_options r)"
proof (rule cbor_map_inv [where I = "\<lambda>q. uv_known (mc_options q)", OF _ _ assms])
  show "uv_known (mc_options mc_init)" by (simp add: mc_init_def uv_known_def credential_zero_def)
qed (rule mc_field_uv)

subsection \<open>Who may make a credential\<close>

text \<open>The settings under which the specification asks for a token.\<close>

definition mc_protected :: "mc_req \<Rightarrow> 'a plat_scheme \<Rightarrow> bool" where
  "mc_protected r s \<longleftrightarrow> get_opts s AND FIDO2_OPT_AUV \<noteq> 0 \<or>
     file_has_data s (file_search s EF_PIN) \<and>
       (get_opts s AND FIDO2_OPT_MCUV_NOTRQD = 0 \<or> opt_rk (mc_options r) = Some True)"

lemma mc_check_options_uv:
  assumes "uv_known (mc_options r)" and "mc_check_options r s = Inr opts"
  shows "opt_uv opts = Some False" "opt_rk opts = Some True \<longleftrightarrow> opt_rk (mc_options r) = Some True"
  using assms by (auto simp: mc_check_options_def uv_known_def Let_def split: if_splits)

lemma mc_check_rest_token:
  assumes "mc_check_rest r opts s = None" and "opt_uv opts = Some False" and "opt_rk opts = Some True \<longleftrightarrow> opt_rk (mc_options r) = Some True"
    and "mc_protected r s"
  shows "mc_pinUvAuthParam r \<noteq> None"
  using assms by (auto simp: mc_check_rest_def mc_needs_token_def mc_protected_def Let_def split: if_splits)

lemma mc_checked_parts:
  assumes "mc_checked k eddsa r rp s = (Inr (opts, crv, alg, fl), t)"
  obtains "mc_check_options r s = Inr opts" "mc_check_rest r opts s = None" "mc_authorize k r opts rp s = (Inr fl, t)"
proof -
  have same: "u = s" if "pin_param_check k p n s = (None, u)" for p n u
    using that by (auto simp: pin_param_check_def Let_def split: option.splits if_splits prod.splits)
  then show thesis
    using assms that by (auto simp: mc_checked_def split: option.splits sum.splits prod.splits dest!: same)
qed

definition cdh_of :: "mc_req \<Rightarrow> bytes" where
  "cdh_of r = (case mc_clientDataHash r of Some d \<Rightarrow> d | None \<Rightarrow> [])"

lemma mc_authorize_token:
  assumes "mc_authorize k r opts rp s = (Inr fl, t)" and "mc_pinUvAuthParam r = Some param"
  shows "verify k (ucast (mc_protocol r)) (paut_data (paut s))
      (take (length (cdh_of r) mod 65536) (cdh_of r)) param"
    "permissions (paut s) AND CTAP_PERMISSION_MC \<noteq> 0"
    "has_rp_id (paut s) \<longrightarrow> rp_id_hash (paut s) = rp" "in_use (paut s)" "user_verified (paut s)"
  using assms by (auto simp: mc_authorize_def Let_def getUserVerifiedFlagValue_def cdh_of_def split: if_splits)

text \<open>
  C3: Who may make a credential. When the authenticator always verifies its user, or has a PIN and
  the request is not one of the excepted ones, every request that succeeds carries a parameter
  that verifies the hash of the client data under the token, and the token is in use by a user
  who was verified, has the permission to make credentials and is bound to no other relying party.
\<close>

theorem make_credential_authorized:
  fixes s t :: "'a device_scheme"
  assumes "sdk_cbor_dec k d = Inr m" and "cbor_map mc_field mc_init m = Inr r" and "mc_protected r s"
    and "cbor_make_credential k ob eddsa d s = (None, t)"
  shows "\<exists>param. mc_pinUvAuthParam r = Some param \<and>
    verify k (ucast (mc_protocol r)) (paut_data (paut s)) (take (length (cdh_of r) mod 65536) (cdh_of r)) param \<and>
    permissions (paut s) AND CTAP_PERMISSION_MC \<noteq> 0 \<and>
    (has_rp_id (paut s) \<longrightarrow> rp_id_hash (paut s) = sha256 k (case mc_rp_id r of Some d \<Rightarrow> d | None \<Rightarrow> [])) \<and>
    in_use (paut s) \<and> user_verified (paut s)"
proof -
  obtain res u where mc: "make_credential k ob eddsa r s = (Inr res, u)"
    using assms(4) by (auto simp: cbor_make_credential_def assms(1,2) ctap_status_def
        split: prod.splits sum.splits option.splits ctap_error.splits)
  obtain opts crv alg fl v where c: "mc_checked k eddsa r (sha256 k (case mc_rp_id r of Some d \<Rightarrow> d | None \<Rightarrow> [])) s =
      (Inr (opts, crv, alg, fl), v)"
    using mc by (auto simp: make_credential_def Let_def split: prod.splits sum.splits)
  show ?thesis
  proof (rule mc_checked_parts [OF c])
    assume o: "mc_check_options r s = Inr opts" and rest: "mc_check_rest r opts s = None"
      and a: "mc_authorize k r opts (sha256 k (case mc_rp_id r of Some d \<Rightarrow> d | None \<Rightarrow> [])) s = (Inr fl, v)"
    note uv = mc_check_options_uv [OF mc_request_uv [OF assms(2)] o]
    obtain param where p: "mc_pinUvAuthParam r = Some param"
      using mc_check_rest_token [OF rest uv assms(3)] by auto
    show ?thesis using mc_authorize_token [OF a p] p by blast
  qed
qed

subsection \<open>On the reference platform\<close>

definition ref_mc_request :: cbor where
  "ref_mc_request = CMap
     [CUInt 1, CBytes (replicate 32 9), CUInt 2, CMap [CText (ascii ''id''), CText (ascii ''a'')],
      CUInt 3, CMap [CText (ascii ''id''), CBytes [1]],
      CUInt 4, CArray [CMap [CText (ascii ''alg''), CNInt 6, CText (ascii ''type''), CText (ascii ''public-key'')]],
      CUInt 8, CBytes (replicate 16 0), CUInt 9, CUInt 1]"

text \<open>The reference platform, on which every request decodes to the one above.\<close>

definition ref_mc :: sdk where
  "ref_mc = ref_sdk\<lparr>sdk_cbor_dec := (\<lambda>d. Inr ref_mc_request), sdk_cbor_enc_buf := (\<lambda>n c. Inr (ref_cbor_bytes c))\<rparr>"

definition ref_mc_state :: ctap where
  "ref_mc_state = (ref_ctap CTAP_PERMISSION_MC [EF_PIN \<mapsto> [8, 4, 1], EF_COUNTER \<mapsto> [0, 0, 0, 0]])
     \<lparr>has_keydev_dec := True, keydev_dec := replicate 32 3\<rparr>"

definition ref_mc_req :: mc_req where
  "ref_mc_req = mc_init\<lparr>mc_clientDataHash := Some (replicate 32 9), mc_rp_id := Some (ascii ''a''), mc_user_id := Some [1],
     mc_params := [(Some (ascii ''public-key''), - 7)], mc_pinUvAuthParam := Some (replicate 16 0), mc_protocol := 1, mc_val_c := 10\<rparr>"

lemma ref_mc_parse: "cbor_map mc_field mc_init ref_mc_request = Inr ref_mc_req"
  by code_simp

lemma unlocked_keydev: "has_keydev_dec s \<Longrightarrow> load_keydev k z s = (PICOKEYS_OK, keydev_dec s, s)"
  by (simp add: load_keydev_def)

lemma ref_mc_path: "\<exists>h o1. derive_path ref_mc False is h0 out s = (PICOKEYS_OK, h, o1, s)"
  by (induction "is" arbitrary: h0 out) (simp_all add: Let_def ref_mc_def)

lemma ref_mc_load:
  assumes "has_keydev_dec s"
  shows "\<exists>kp. fido_load_key ref_mc e 1 seed key s = (PICOKEYS_OK, kp, s\<lparr>tick := Suc (tick s)\<rparr>) \<and> kp_grp kp = MBEDTLS_ECP_DP_SECP256R1"
proof -
  obtain h o1 where p: "derive_path ref_mc False [0..<8] (hardened_path seed) (fit 67 (take 32 (keydev_dec s))) s = (PICOKEYS_OK, h, o1, s)"
    using ref_mc_path by blast
  show ?thesis
    using assms
    by (simp add: fido_load_key_def fido_curve_to_mbedtls_def derive_key_def unlocked_keydev p Let_def)
       (simp add: ref_mc_def rc_of_int_def)
qed

lemma ref_mc_sign:
  assumes "has_keydev_dec s"
  shows "\<exists>sig t. mc_sign ref_mc False self ekey msg s = (Inr sig, t)"
  using assms by (auto simp: mc_sign_def mc_md_def unlocked_keydev Let_def) (simp_all add: ref_mc_def)

lemma ref_mc_attest:
  assumes "has_keydev_dec s" and "\<not> ext_present (mc_ext r)" and "largeBlobKey (mc_ext r) = None" and "opt_rk opts \<noteq> Some True"
  shows "\<exists>resp t. mc_attest ref_mc ob False r opts 1 alg fl rp cid s = (Inr resp, t)"
proof -
  obtain uv s1 where uv: "getUserVerifiedFlagValue s = (uv, s1)" by (metis surj_pair)
  then have s1: "has_keydev_dec s1" using assms(1) by (auto simp: getUserVerifiedFlagValue_def Let_def split: if_splits)
  define fl' where "fl' = (if uv then fl OR FIDO2_AUT_FLAG_UV else fl)"
  have x: "mc_extensions ref_mc r fl' cid rp s1 = (Inr ([], fl'), s1)" using assms(2) by (simp add: mc_extensions_def)
  obtain kp where kp: "fido_load_key ref_mc False 1 cid keypair_init s1 = (PICOKEYS_OK, kp, s1\<lparr>tick := Suc (tick s1)\<rparr>)"
      "kp_grp kp = MBEDTLS_ECP_DP_SECP256R1" using ref_mc_load [OF s1] by blast
  have bits: "sdk_curve_bits ref_mc MBEDTLS_ECP_DP_SECP256R1 = Some 256" by (simp add: ref_mc_def)
  obtain c where c: "COSE_key ref_mc False kp = Inr c"
    using kp(2) by (auto simp: COSE_key_def COSE_key_params_def mbedtls_curve_to_fido_def bits) (simp add: ref_mc_def)
  have enc: "sdk_cbor_enc_buf ref_mc n c = Inr (ref_cbor_bytes c)" for n c by (simp add: ref_mc_def)
  have fin: "\<exists>resp t. mc_finish ref_mc ob False cid rp pub ctr q v = (Inr resp, t)" for pub ctr q and v :: "'a device_scheme"
    by (simp add: mc_finish_def cbor_emit_def split_beta Let_def) (simp add: ref_mc_def ref_cbor_enc_def split_beta)
  obtain sig v where sig: "mc_sign ref_mc False (mc_self_attested r (find_app_by_rp_id_hash rp)) kp
      (mc_auth_data ref_mc rp fl' (get_sign_counter ref_mc (s1\<lparr>tick := Suc (tick s1)\<rparr>)) cid (ref_cbor_bytes c) [] @
        (case mc_clientDataHash r of Some d \<Rightarrow> d | None \<Rightarrow> [])) (s1\<lparr>tick := Suc (tick s1)\<rparr>) = (Inr sig, v)"
    using ref_mc_sign [of "s1\<lparr>tick := Suc (tick s1)\<rparr>"] s1 by (simp, blast)
  show ?thesis
    using fin assms(3,4)
    by (simp add: mc_attest_def uv fl'_def [symmetric] x kp bits c enc sig Let_def)
qed

lemma ref_mc_succeeds: "\<exists>t. cbor_make_credential ref_mc ref_objs False d ref_mc_state = (None, t)"
proof -
  let ?s = "ref_mc_state"
  have bind: "has_keydev_dec (bind_token rp ?s)" "user_present (paut (bind_token rp ?s))" "in_use (paut (bind_token rp ?s))" for rp
    by (simp_all add: bind_token_def ref_mc_state_def)
  have checked: "mc_checked ref_mc False ref_mc_req rp ?s = (Inr (mc_options ref_mc_req, 1, - 7, 0x44), bind_token rp ?s)" for rp
  proof -
    have alg: "mc_algorithm ref_mc False ref_mc_req = Inr (1, - 7)" by code_simp
    have v: "verify ref_mc 1 (replicate 32 0) d (replicate 16 0)" for d
      using ref_verify [of d] by (simp add: verify_def ref_mc_def)
    have opts: "mc_check_options ref_mc_req ?s = Inr (mc_options ref_mc_req)"
      by (simp add: mc_check_options_def ref_mc_req_def mc_init_def credential_zero_def)
    have rest: "mc_check_rest ref_mc_req (mc_options ref_mc_req) ?s = None"
      by (simp add: mc_check_rest_def mc_needs_token_def ref_mc_req_def mc_init_def credential_zero_def get_opts_def ref_mc_state_def Let_def)
    have auth: "mc_authorize ref_mc ref_mc_req (mc_options ref_mc_req) rp ?s = (Inr 0x44, bind_token rp ?s)"
      by (simp add: mc_authorize_def ref_mc_req_def mc_init_def credential_zero_def v getUserVerifiedFlagValue_def ref_mc_state_def Let_def)
    have front: "mc_hmac_check ref_mc_req = None" "pin_param_check ref_mc (mc_pinUvAuthParam ref_mc_req) (mc_protocol ref_mc_req) ?s = (None, ?s)"
      by (simp_all add: mc_hmac_check_def pin_param_check_def ref_mc_req_def mc_init_def)
    show ?thesis by (simp add: mc_checked_def front alg opts rest auth)
  qed
  have create: "\<exists>resp t. mc_create ref_mc ref_objs False ref_mc_req (mc_options ref_mc_req) 1 (- 7) fl rp v = (Inr resp, t)"
    if k: "has_keydev_dec v" for fl rp and v :: ctap
  proof -
    have cc: "\<exists>cid u. credential_create ref_mc a b c d' e f g j h i v = (Inr cid, u) \<and> has_keydev_dec u" for a b c d' e f g j h i
    proof -
      let ?w = "v\<lparr>tick := Suc (tick v)\<rparr>"
      obtain key where key: "credential_derive_chacha_key ref_mc CRED_PROTO ?w = (PICOKEYS_OK, key, ?w)"
        using k by (simp add: credential_derive_chacha_key_def unlocked_keydev)
      have p: "sdk_cbor_enc_buf ref_mc n x = Inr (ref_cbor_bytes x)" "fst (sdk_chacha_enc ref_mc q z aad d) = 0" for n x q z aad d
        by (simp_all add: ref_mc_def)
      show ?thesis
        using k by (simp add: credential_create_def p(1) key random_fill_buffer_def Let_def split_beta p(2) del: ref_cbor_bytes.simps)
    qed
    have r: "\<not> ext_present (mc_ext ref_mc_req)" "largeBlobKey (mc_ext ref_mc_req) = None" "opt_rk (mc_options ref_mc_req) \<noteq> Some True"
      by (simp_all add: ref_mc_req_def mc_init_def credential_zero_def)
    obtain cid u where u: "credential_create ref_mc (mc_rp_id ref_mc_req) (mc_user_id ref_mc_req) (mc_user_name ref_mc_req)
        (mc_user_display ref_mc_req) (mc_options ref_mc_req) (mc_ext ref_mc_req)
        (case find_app_by_rp_id_hash rp of None \<Rightarrow> True | Some a \<Rightarrow> app_sign_count a = Some True) (- 7) 1
        (replicate MAX_CRED_ID_LENGTH 0) v = (Inr cid, u)" "has_keydev_dec u" using cc by blast
    show ?thesis using ref_mc_attest [OF u(2) r] by (simp add: mc_create_def u(1))
  qed
  have pres: "\<exists>v. mc_presence ref_mc ref_mc_req (mc_options ref_mc_req) 0x44 (bind_token rp ?s) = (Inr 0x45, v) \<and> has_keydev_dec v" for rp
    using bind [of rp] by (simp add: mc_presence_def getUserPresentFlagValue_def ref_mc_req_def mc_init_def credential_zero_def Let_def)
  have req: "mc_exclude ref_mc_req = []" "largeBlobKey (mc_ext ref_mc_req) = None"
    by (simp_all add: ref_mc_req_def mc_init_def credential_zero_def)
  define rp where "rp = sha256 ref_mc (case mc_rp_id ref_mc_req of Some d \<Rightarrow> d | None \<Rightarrow> [])"
  obtain v where v: "mc_presence ref_mc ref_mc_req (mc_options ref_mc_req) 0x44 (bind_token rp ?s) = (Inr 0x45, v)" "has_keydev_dec v"
    using pres by blast
  obtain resp t where "mc_create ref_mc ref_objs False ref_mc_req (mc_options ref_mc_req) 1 (- 7) 0x45 rp v = (Inr resp, t)"
    using create [OF v(2)] by blast
  then have "make_credential ref_mc ref_objs False ref_mc_req ?s = (Inr resp, t)"
    by (simp add: make_credential_def rp_def [symmetric] checked req v(1) Let_def)
  then show ?thesis
    using ref_mc_parse by (auto simp: cbor_make_credential_def) (simp add: ref_mc_def)
qed

lemma make_credential_authorized_witness:
  "\<exists>t. cbor_make_credential ref_mc ref_objs False [] ref_mc_state = (None, t) \<and>
     verify ref_mc 1 (paut_data (paut ref_mc_state)) (replicate 32 9) (replicate 16 0) \<and> in_use (paut ref_mc_state)"
proof -
  obtain t where t: "cbor_make_credential ref_mc ref_objs False [] ref_mc_state = (None, t)" using ref_mc_succeeds by blast
  have dec: "sdk_cbor_dec ref_mc [] = Inr ref_mc_request" by (simp add: ref_mc_def)
  have p: "mc_protected ref_mc_req ref_mc_state"
    by (simp add: mc_protected_def get_opts_def ref_mc_state_def)
  show ?thesis
    using make_credential_authorized [OF dec ref_mc_parse p t] t
    by (simp add: cdh_of_def) (simp add: ref_mc_req_def mc_init_def cdh_of_def)
qed

end
