(* ===== verification/Assertion_Properties.thy ===== *)
theory Assertion_Properties
  imports Get_Assertion Make_Credential_Properties "HOL-Library.Multiset"
begin

text \<open>
  What holds of assertions: which credential signs, which ones wait for the next requests, and
  when the digest is the one the credential was registered with.
\<close>

subsection \<open>The order of the credentials\<close>

abbreviation (input) newer_eq :: "credential \<Rightarrow> credential \<Rightarrow> bool" where
  "newer_eq c d \<equiv> board_creation d \<le> board_creation c"

lemma newest_inner_spec:
  assumes "i < length cs" and "distinct js" and "\<forall>j \<in> set js. i < j \<and> j < length cs"
  defines "ds \<equiv> newest_inner js i cs"
  shows "mset ds = mset cs \<and> length ds = length cs \<and> newer_eq (ds ! i) (cs ! i) \<and>
    (\<forall>j \<in> set js. newer_eq (ds ! i) (ds ! j)) \<and> (\<forall>m. m \<noteq> i \<and> m \<notin> set js \<longrightarrow> ds ! m = cs ! m)"
  using assms(1-3) unfolding ds_def
proof (induction js arbitrary: cs)
  case Nil
  then show ?case by simp
next
  case (Cons j js)
  define es where "es = (if board_creation (cs ! j) > board_creation (cs ! i) then cs[i := cs ! j, j := cs ! i] else cs)"
  have j: "i < j" "j < length cs" using Cons.prems by auto
  have es: "mset es = mset cs" "length es = length cs" "newer_eq (es ! i) (cs ! i)" "newer_eq (es ! i) (es ! j)"
      "\<forall>m. m \<noteq> i \<and> m \<noteq> j \<longrightarrow> es ! m = cs ! m"
    using j Cons.prems(1) mset_swap [of j cs i] by (auto simp: es_def nth_list_update)
  have ih: "mset (newest_inner js i es) = mset es \<and> length (newest_inner js i es) = length es \<and>
      newer_eq (newest_inner js i es ! i) (es ! i) \<and>
      (\<forall>j \<in> set js. newer_eq (newest_inner js i es ! i) (newest_inner js i es ! j)) \<and>
      (\<forall>m. m \<noteq> i \<and> m \<notin> set js \<longrightarrow> newest_inner js i es ! m = es ! m)"
    by (rule Cons.IH) (use Cons.prems es(2) in auto)
  have "newest_inner js i es ! j = es ! j" using ih j Cons.prems(2) by auto
  moreover have "newest_inner (j # js) i cs = newest_inner js i es" by (simp add: es_def)
  ultimately show ?case using ih es by (auto intro: order_trans)
qed

lemma newest_first_spec:
  assumes "m \<le> length cs" and "sorted_wrt newer_eq (take m cs)"
    and "\<forall>a \<in> set (take m cs). \<forall>b \<in> set (drop m cs). newer_eq a b"
  shows "mset (newest_first [m..<length cs] (length cs) cs) = mset cs \<and>
    sorted_wrt newer_eq (newest_first [m..<length cs] (length cs) cs)"
  using assms
proof (induction "length cs - m" arbitrary: m cs)
  case 0
  then show ?case by simp
next
  case (Suc n)
  then have m: "m < length cs" by simp
  define ds where "ds = newest_inner [m + 1..<length cs] m cs"
  have ds: "mset ds = mset cs" "length ds = length cs" "\<forall>j \<in> {m + 1..<length cs}. newer_eq (ds ! m) (ds ! j)"
      "\<forall>i. i < m \<longrightarrow> ds ! i = cs ! i"
    using newest_inner_spec [OF m, of "[m + 1..<length cs]"] by (auto simp: ds_def)
  have front: "take m ds = take m cs" using ds(2,4) m by (intro nth_equalityI) auto
  have rear: "mset (drop m ds) = mset (drop m cs)"
    using ds(1) front by (metis append_take_drop_id mset_append add_left_cancel)
  have step: "drop m ds = ds ! m # drop (Suc m) ds" "take (Suc m) ds = take m ds @ [ds ! m]"
    using m ds(2) by (simp_all add: Cons_nth_drop_Suc take_Suc_conv_app_nth)
  have mem: "set (drop m ds) = set (drop m cs)" using rear by (metis set_mset_mset)
  have hi: "\<forall>b \<in> set (drop (Suc m) ds). newer_eq (ds ! m) b"
    using ds(2,3) by (auto simp: in_set_conv_nth)
  have "mset (newest_first [Suc m..<length ds] (length ds) ds) = mset ds \<and>
      sorted_wrt newer_eq (newest_first [Suc m..<length ds] (length ds) ds)"
  proof (rule Suc.hyps(1))
    show "n = length ds - Suc m" "Suc m \<le> length ds" using Suc.hyps(2) ds(2) m by auto
    show "sorted_wrt newer_eq (take (Suc m) ds)"
      using Suc.prems(2,3) front mem step by (auto simp: sorted_wrt_append)
    show "\<forall>a \<in> set (take (Suc m) ds). \<forall>b \<in> set (drop (Suc m) ds). newer_eq a b"
      using Suc.prems(3) front mem step hi by auto
  qed
  moreover have "newest_first [m..<length cs] (length cs) cs = newest_first [Suc m..<length ds] (length ds) ds"
    using m ds(2) by (simp add: upt_rec [of m] ds_def)
  ultimately show ?case using ds(1) by simp
qed

lemma sort_newest_spec: "mset (sort_newest cs) = mset cs" "sorted_wrt newer_eq (sort_newest cs)"
  using newest_first_spec [of 0 cs] by (simp_all add: sort_newest_def)

subsection \<open>The credential that signs\<close>

text \<open>A request stays silent only while nothing was loaded.\<close>

lemma ga_allowed_silent:
  "ga_allowed k ob rp pcs creds resident silent s = (Inr (cs, rs, True), t) \<Longrightarrow> cs = creds \<and> rs = resident \<and> silent"
proof (induction pcs arbitrary: creds resident silent s)
  case (Cons pc pcs)
  have IH: "silent = True \<and> cs = creds \<and> rs = resident"
    if "ga_allowed k ob rp pcs creds resident silent s = (Inr (cs, rs, True), t)" for creds resident silent s
    using Cons.IH [OF that] by simp
  show ?case
    using Cons.prems by (auto simp: Let_def split: option.splits if_splits prod.splits sum.splits dest!: IH)
qed simp

lemma ga_locate_silent:
  assumes "ga_locate k ob r rp s = (Inr (creds, resident, True), t)"
  shows "creds = []" "ga_allow r \<noteq> [] \<longrightarrow> \<not> resident"
  using assms ga_allowed_silent [of k ob rp "ga_allow r" "[]" False "ga_silent r" s creds resident t]
  by (auto simp: ga_locate_def split: if_splits prod.splits)

lemma ga_authorize_token:
  assumes "ga_authorize k r rp s = (Inr fl, t)" and "fl AND FIDO2_AUT_FLAG_UV \<noteq> 0"
  shows "\<exists>param cdh. ga_pinUvAuthParam r = Some param \<and> cdh = (case ga_clientDataHash r of Some d \<Rightarrow> d | None \<Rightarrow> []) \<and>
    verify k (ucast (ga_protocol r)) (paut_data (paut s)) (take (length cdh mod 65536) cdh) param \<and>
    in_use (paut s) \<and> user_verified (paut s) \<and> permissions (paut s) AND CTAP_PERMISSION_GA \<noteq> 0 \<and>
    (has_rp_id (paut s) \<longrightarrow> rp_id_hash (paut s) = rp)"
  using assms by (auto simp: ga_authorize_def Let_def getUserVerifiedFlagValue_def split: option.splits if_splits)

lemma pin_param_same: "pin_param_check k p n s = (None, u) \<Longrightarrow> u = s"
  by (auto simp: pin_param_check_def Let_def split: option.splits if_splits prod.splits)

text \<open>What a request that selects a credential has gone through.\<close>

lemma ga_select_parts:
  assumes "ga_select k ob d r rp s = (Inr sel, t)" and "sel_cred sel = Some c"
  obtains fl u creds resident v w fl' vis where
    "ga_authorize k r rp s = (Inr fl, u)" "ga_locate k ob r rp u = (Inr (creds, resident, False), v)"
    "vis = filter (ga_visible fl (ga_allow r = [])) creds" "vis \<noteq> []"
    "ga_save d r (sort_newest vis) (length vis) resident False fl' w = (sel, t)"
proof -
  obtain fl u creds resident silent v where a: "ga_authorize k r rp s = (Inr fl, u)"
    and l: "ga_locate k ob r rp u = (Inr (creds, resident, silent), v)"
    using assms(1) by (auto simp: ga_select_def split: prod.splits option.splits sum.splits dest!: pin_param_same)
  define vis where "vis = filter (ga_visible fl (ga_allow r = [])) creds"
  obtain n w0 where n: "(if vis = [] \<and> silent \<and> ga_allow r \<noteq> [] then silent_count k ob rp (ga_allow r) 0 v else (Inr (length vis), v)) = (n, w0)"
    by (metis surj_pair)
  have front: "pin_param_check k (ga_pinUvAuthParam r) (ga_protocol r) s = (None, s)" "ga_check_options r = None" "ga_hmac_check r = None"
    using assms(1) a l by (auto simp: ga_select_def split: prod.splits option.splits sum.splits dest!: pin_param_same)
  note run = assms(1) [unfolded ga_select_def front prod.case option.case sum.case a l Let_def, folded vis_def, unfolded n prod.case]
  obtain count fl' w where c: "n = Inr count" "count \<noteq> 0"
      and save: "ga_save d r (if silent then vis else sort_newest vis) count resident silent fl' w = (sel, t)"
    using run by (auto split: sum.splits if_splits prod.splits)
  have loud: "\<not> silent"
  proof
    assume s: "silent"
    then have e: "vis = []" "ga_allow r \<noteq> [] \<longrightarrow> \<not> resident"
      using ga_locate_silent [of k ob r rp u creds resident v] l by (auto simp: vis_def)
    then have "ga_allow r \<noteq> []" using n c by (auto split: if_splits)
    then show False using save assms(2) s e by (auto simp: ga_save_def)
  qed
  then have "count = length vis" using n c by auto
  then show thesis using that [OF a _ vis_def] l loud save c(2) by auto
qed

text \<open>
  C4: Which credential signs an assertion. The one a request selects is the newest of those that
  were located and may be seen; without a token that verifies the request, one that demands
  verification is not seen, and one that has to be named is not seen without a list. When there
  are more to choose from, all of them are kept for the next requests, the newest first.
\<close>

theorem assertion_selection:
  fixes s t :: "'a ctap_scheme"
  assumes "ga_select k ob d r rp s = (Inr sel, t)" and "sel_cred sel = Some c"
  shows "\<exists>fl u creds resident v vis.
    ga_authorize k r rp s = (Inr fl, u) \<and> ga_locate k ob r rp u = (Inr (creds, resident, False), v) \<and>
    vis = filter (ga_visible fl (ga_allow r = [])) creds \<and> c \<in> set vis \<and> (\<forall>c' \<in> set vis. newer_eq c c') \<and>
    (ext_present (cred_ext c) \<and> ga_pinUvAuthParam r = None \<longrightarrow>
      credProtect (cred_ext c) \<noteq> CRED_PROT_UV_REQUIRED \<and>
      (credProtect (cred_ext c) = CRED_PROT_UV_OPTIONAL_WITH_LIST \<longrightarrow> ga_allow r \<noteq> [])) \<and>
    (sel_count sel > 1 \<longrightarrow> sel_count sel = length vis \<and> mset (credsx t) = mset vis \<and> sorted_wrt newer_eq (credsx t) \<and>
      hd (credsx t) = c \<and> credentialCounter t = 1 \<and> numberOfCredentialsx t = word_of_nat (length vis) \<and> datax t = d)"
proof (rule ga_select_parts [OF assms])
  fix fl u creds resident v w fl' vis
  assume a: "ga_authorize k r rp s = (Inr fl, u)" and l: "ga_locate k ob r rp u = (Inr (creds, resident, False), v)"
    and vis: "vis = filter (ga_visible fl (ga_allow r = [])) creds" "vis \<noteq> []"
    and save: "ga_save d r (sort_newest vis) (length vis) resident False fl' w = (sel, t)"
  note sorted = sort_newest_spec [of vis]
  have set: "set (sort_newest vis) = set vis" using sorted(1) by (metis set_mset_mset)
  have ne: "sort_newest vis \<noteq> []" using sorted(1) vis(2) by auto
  have c: "c = hd (sort_newest vis)" using save assms(2) by (auto simp: ga_save_def Let_def split: if_splits)
  have newest: "\<forall>c' \<in> set vis. newer_eq c c'" and mem: "c \<in> set vis"
    using sorted(2) set ne c by (cases "sort_newest vis"; auto)+
  have "ga_visible fl (ga_allow r = []) c" using mem vis(1) by simp
  moreover have "ga_pinUvAuthParam r = None \<longrightarrow> fl = 0" using a by (auto simp: ga_authorize_def)
  ultimately have prot: "ext_present (cred_ext c) \<and> ga_pinUvAuthParam r = None \<longrightarrow>
      credProtect (cred_ext c) \<noteq> CRED_PROT_UV_REQUIRED \<and>
      (credProtect (cred_ext c) = CRED_PROT_UV_OPTIONAL_WITH_LIST \<longrightarrow> ga_allow r \<noteq> [])"
    by (auto simp: ga_visible_def)
  have len: "length (sort_newest vis) = length vis" using sorted(1) by (metis size_mset)
  have kept: "sel_count sel > 1 \<longrightarrow> sel_count sel = length vis \<and> credsx t = sort_newest vis \<and> credentialCounter t = 1 \<and>
      numberOfCredentialsx t = word_of_nat (length vis) \<and> datax t = d"
    using save len by (auto simp: ga_save_def Let_def split: if_splits)
  have "sel_count sel > 1 \<longrightarrow> sel_count sel = length vis \<and> mset (credsx t) = mset vis \<and> sorted_wrt newer_eq (credsx t) \<and>
      hd (credsx t) = c \<and> credentialCounter t = 1 \<and> numberOfCredentialsx t = word_of_nat (length vis) \<and> datax t = d"
    using kept sorted c by simp
  then show ?thesis using a l vis(1) mem newest prot by blast
qed

subsection \<open>The digest of the signature\<close>

text \<open>
  C40: A credential signs its assertions with the digest it was registered with, for every
  algorithm the authenticator offers but ESB384, ESB512 and Ed448: those are registered with
  SHA-384, SHA-512 and the message itself, and sign with SHA-256 afterwards.
\<close>

theorem signature_digest_agrees:
  assumes "alg_curve k eddsa a = Some c"
  shows "mc_md eddsa (fido_curve_to_mbedtls eddsa c) = ga_md eddsa (fido_curve_to_mbedtls eddsa c) \<longleftrightarrow>
    a \<notin> {- 267, - 268, - 53}"
  using assms
  by (auto simp: alg_curve_def fido_curve_to_mbedtls_def mc_md_def ga_md_def split: if_splits)

lemma signature_digest_agrees_witness:
  "alg_curve ref_sdk False (- 267) = Some 10 \<and>
     mc_md False (fido_curve_to_mbedtls False 10) \<noteq> ga_md False (fido_curve_to_mbedtls False 10)"
  using signature_digest_agrees [of ref_sdk False "- 267" 10] by (simp add: alg_curve_def)

subsection \<open>On the reference platform\<close>

text \<open>
  A platform on which every identifier decrypts to itself, and the text is a credential made at
  the time its first byte says.
\<close>

definition ref_ga :: sdk where
  "ref_ga = ref_sdk\<lparr>sdk_cbor_dec := (\<lambda>d. Inr (CMap [CUInt 6, CUInt (ucast (hd d))])),
     sdk_chacha_dec := (\<lambda>key iv aad t c. (0, c))\<rparr>"

definition ref_ga_state :: ctap where
  "ref_ga_state = (ref_ctap 0 Map.empty)\<lparr>has_keydev_dec := True, keydev_dec := replicate 32 3\<rparr>"

definition ref_ga_cred :: "byte \<Rightarrow> credential" where
  "ref_ga_cred b = credential_zero\<lparr>cred_curve := 1, cred_alg := - 7, board_creation := ucast b,
     cred_id := Some (replicate 40 b), cred_present := True\<rparr>"

definition ref_ga_req :: ga_req where
  "ref_ga_req = ga_init\<lparr>ga_rpId := Some (ascii ''a''), ga_clientDataHash := Some (replicate 32 9),
     ga_allow := map (\<lambda>b. descriptor_zero\<lparr>desc_type := Some (ascii ''public-key''), desc_id := Some (replicate 40 b)\<rparr>) [5, 9, 7]\<rparr>"

lemma ref_ga_load:
  assumes "has_keydev_dec s" and "b \<in> {5, 7, 9}"
  shows "credential_load ref_ga (replicate 40 b) rp s = (Inr (ref_ga_cred b), s)"
proof -
  have new: "\<not> cred_new_format (replicate 40 b)"
  proof -
    have "\<not> cred_new_format (replicate 40 5)" "\<not> cred_new_format (replicate 40 7)" "\<not> cred_new_format (replicate 40 9)" by code_simp+
    then show ?thesis using assms(2) by auto
  qed
  obtain key where key: "credential_derive_chacha_key ref_ga (replicate 40 b) s = (PICOKEYS_OK, key, s)"
    using assms(1) by (simp add: credential_derive_chacha_key_def unlocked_keydev)
  have "splice (replicate 40 b) (16, 8) (replicate 8 b) = replicate 40 b"
    by (simp add: splice_def replicate_add [symmetric])
  then have "credential_verify ref_ga (replicate 40 b) rp False s = (PICOKEYS_OK, replicate 40 b, s)"
    by (simp add: credential_verify_def new key rc_of_int_def) (simp add: ref_ga_def)
  then show ?thesis
    by (simp add: credential_load_def) (simp add: ref_ga_def ref_ga_cred_def cbor_map_def credential_field_def field_uint_def
        cbor_advance_def set_field_def)
qed

lemma no_residents: "files s = Map.empty \<Longrightarrow> has_resident k ob cid rp is s = (False, s)"
  by (induction "is") simp_all

lemma assertion_selection_witness:
  "\<exists>sel t. ga_select ref_ga ref_objs [] ref_ga_req [] ref_ga_state = (Inr sel, t) \<and> sel_cred sel = Some (ref_ga_cred 9) \<and>
     hd (credsx t) = ref_ga_cred 9 \<and> sorted_wrt newer_eq (credsx t)"
proof -
  let ?s = "ref_ga_state" and ?r = "ref_ga_req"
  have k: "has_keydev_dec ?s" "files ?s = Map.empty" by (simp_all add: ref_ga_state_def)
  note load = ref_ga_load [OF k(1)]
  have res: "\<not> credential_is_resident (replicate 40 5)" "\<not> credential_is_resident (replicate 40 7)" "\<not> credential_is_resident (replicate 40 9)"
    by code_simp+
  have lit: "stringz (ascii ''public-key'') = ascii ''public-key''" by code_simp
  have locate: "ga_locate ref_ga ref_objs ?r [] ?s = (Inr (map ref_ga_cred [5, 9, 7], False, False), ?s)"
    by (simp add: ga_locate_def ref_ga_req_def ga_init_def descriptor_zero_def res load no_residents [OF k(2)] lit)
  have vis: "filter (ga_visible 0 False) (map ref_ga_cred [5, 9, 7]) = map ref_ga_cred [5, 9, 7]"
    by (simp add: ga_visible_def ref_ga_cred_def credential_zero_def)
  have newest: "sort_newest (map ref_ga_cred [5, 9, 7]) = map ref_ga_cred [9, 7, 5]" by code_simp
  have "wait_button_pressed ref_ga ?s = (0, ?s\<lparr>tick := Suc (tick ?s)\<rparr>)"
    by (simp add: wait_button_pressed_def ref_ga_def)
  then have button: "check_user_presence ref_ga ?s = (True, ?s\<lparr>tick := Suc (tick ?s)\<rparr>)"
    by (simp add: check_user_presence_def) (simp add: ref_ga_state_def)
  obtain w where pres: "ga_presence ref_ga ?r 0 ?s = (Inr 1, w)"
    using button by (simp add: ga_presence_def ref_ga_req_def ga_init_def credential_zero_def)
  have req: "ga_pinUvAuthParam ?r = None" "ga_allow ?r \<noteq> []" "ga_check_options ?r = None" "ga_hmac_check ?r = None"
      "largeBlobKey (ga_ext ?r) = None" "length (ga_allow ?r) = 3"
    by (simp_all add: ref_ga_req_def ga_init_def ga_check_options_def ga_hmac_check_def credential_zero_def)
  obtain sel t where t: "ga_select ref_ga ref_objs [] ?r [] ?s = (Inr sel, t)" "sel_cred sel = Some (ref_ga_cred 9)" "sel_count sel > 1"
    by (simp add: ga_select_def pin_param_check_def ga_authorize_def req locate vis [simplified] newest [simplified] pres ga_save_def Let_def)
  show ?thesis
    using assertion_selection [OF t(1,2)] t by blast
qed

end
