(* ===== verification/Spec2Isabelle.thy ===== *)
theory Spec2Isabelle
  imports Client_Pin_Set Oath_Lock Oath_Bounds Oath_Otp_Properties Resident_Properties
    Fido_Keys_Properties Otp_Counters Otp_Frames Ref_Cbor Credential_Rp U2f_Properties Ctap_Commands
    Large_Blob_Properties Lock_Properties Cred_Mgmt_Properties Assertion_Properties
begin

text \<open>
  The FIDO firmware of a security key: a shallow model of the code under \<open>src/fido/\<close> and what
  holds of it.

  \<^bold>\<open>The program.\<close> The firmware runs five applications on one flash storage: FIDO2 (CTAP 2.1
  commands in CBOR), U2F, OATH, the one-time passwords of the keyboard interface (OTP), and the
  management of the device configuration. The first two share the device key, from which all
  credential keys are derived, the signature counter and the button; the client PIN of FIDO2 hands
  out a token that the other FIDO2 commands ask for; resident credentials are kept in containers,
  groups of sealed files with two manifests that are switched by a two-phase update. Each command
  is one function from the request and the state to an answer and the next state.

  \<^bold>\<open>Theories and the code they model.\<close>
  \<^item> \<open>Prelude\<close>, \<open>Platform\<close>: bytes, file identifiers (\<open>files.h\<close>), the SDK and mbedTLS as the record
    \<open>sdk\<close> of parameters, the state \<open>plat\<close> that everything shares (the files, a trace of what was
    asked of the flash, the response buffer, the clock). \<open>Dispatch\<close> is the loop over a table of
    commands all applets end in.
  \<^item> \<open>Presence\<close>, \<open>Fido_State\<close>, \<open>Fido_Keys\<close> (\<open>fido.c\<close>, \<open>object_authorization.c\<close>): the wait for the
    button, the globals of the authenticator, the device key with its formats, options, device
    state, key derivation, key handles, the initial scan of the flash.
  \<^item> \<open>Cbor\<close> (\<open>ctap2_cbor.h\<close>, \<open>cbor.c\<close>): reading requests item by item.
  \<^item> \<open>Client_Pin\<close>, \<open>Client_Pin_Commands\<close> (\<open>cbor_client_pin.c\<close>): key agreement, the two PIN
    protocols, the token, every subcommand.
  \<^item> \<open>Object_Provider\<close>, \<open>Resident_Container\<close>, \<open>Resident_Commands\<close> (\<open>object_provider.c\<close>,
    \<open>resident_container.c\<close>): the containers of resident credentials.
  \<^item> \<open>Credential\<close>, \<open>Credential_Store\<close> (\<open>credential.c\<close>): credential identifiers, resident
    credentials, the records of the relying parties.
  \<^item> \<open>Ctap\<close> (\<open>ctap2_cbor.h\<close>, \<open>cbor.c\<close>, \<open>fido.c\<close>), \<open>Known_Apps\<close> (\<open>known_apps.c\<close>): what the commands of FIDO2
    share, and the table of the relying parties with attestation rules of their own.
  \<^item> \<open>Make_Credential\<close> (\<open>cbor_make_credential.c\<close>), \<open>Get_Assertion\<close> (\<open>cbor_get_assertion.c\<close>),
    \<open>Cred_Mgmt\<close> (\<open>cbor_cred_mgmt.c\<close>), \<open>Large_Blobs\<close> (\<open>cbor_large_blobs.c\<close>), \<open>Authenticator_Config\<close>
    (\<open>cbor_config.c\<close>), \<open>Vendor\<close> (\<open>cbor_vendor.c\<close>): one theory for each command, in the order of the
    source: the request and its fields, the checks in their order, the subcommands.
  \<^item> \<open>Ctap_Commands\<close> (\<open>cbor.c\<close>, \<open>cbor_get_info.c\<close>, \<open>cbor_reset.c\<close>, \<open>cbor_selection.c\<close>, \<open>fido.c\<close>,
    \<open>management.c\<close>): the small commands, and the dispatch of all of them.
  \<^item> \<open>U2f\<close> (\<open>cmd_register.c\<close>, \<open>cmd_authenticate.c\<close>, \<open>cmd_version.c\<close>).
  \<^item> \<open>Oath_Store\<close>, \<open>Oath_Commands\<close>, \<open>Oath_Calculate\<close>, \<open>Oath_Pin\<close> (\<open>oath.c\<close>).
  \<^item> \<open>Otp_Slots\<close>, \<open>Otp_Commands\<close> (\<open>otp.c\<close>), \<open>Management\<close> (\<open>management.c\<close>).

  \<^bold>\<open>State.\<close> Global and static variables of a component are the fields of its record, and the records
  extend each other in the order the components call each other; an operation is polymorphic in
  what extends the record it needs. A file is a file identifier bound to its bytes, a \<open>file_t *\<close>
  an optional identifier. The OTP applet and the authenticator have the same device below their own
  variables; \<open>firmware\<close> in \<open>Ctap_Commands\<close> holds both, for the operations that reach both. The flash trace \<open>wlog\<close> lists the requests in order: a power failure is a
  prefix of it of which the requests behind the last synchronous commit that succeeded may be lost
  one by one (\<open>Flash_Trace\<close>).

  \<^bold>\<open>Interfaces.\<close> \<open>Retry\<close> is the contract of a secret with a limited number of tries, used for the
  PIN of OATH (\<open>Oath_Pin_Properties\<close>) and, twice, for the client PIN (\<open>Client_Pin_Lockout\<close>).
  \<open>Two_Phase\<close> is the contract of an update that survives a power failure (\<open>Resident_Crash\<close>).
  \<open>Dispatch\<close> is the contract of a table of commands (\<open>Oath_Lock\<close>, \<open>Oath_Bounds\<close>, \<open>Otp_Access\<close>).

  \<^bold>\<open>What is shown.\<close> The theories named \<open>*_Properties\<close>, \<open>*_Lockout\<close>, \<open>*_Token\<close>, \<open>*_Set\<close>, \<open>*_Lock\<close>,
  \<open>*_Bounds\<close>, \<open>*_Access\<close>, \<open>*_Counters\<close>, \<open>*_Frames\<close>, \<open>*_Crc\<close>, \<open>*_Rp\<close> hold the properties, each behind
  a text block with its number: who can unlock, change or read what, for every applet and every
  command that takes a token; that no answer about a PIN is given without a try that is spent, and that counters advance;
  that what is stored is read back, also over a migration, a lock or a power failure; which
  credential signs; that what is written stays within the buffers; which requests return.
  The theories \<open>Resident_Phases\<close>, \<open>Resident_Update\<close>, \<open>Resident_Frame\<close>, \<open>Resident_Read\<close>,
  \<open>Resident_Store\<close>, \<open>Resident_Liveness\<close> hold the steps on the way to those of the containers.
  \<open>Ref_Platform\<close>, \<open>Ref_Objects\<close>, \<open>Ref_Cbor\<close>, \<open>Ref_Ctap\<close> are a concrete platform on which the hypotheses of the
  properties are shown to hold together; nothing in the model depends on it.

  \<^bold>\<open>Hypotheses.\<close> What the code relies on outside the repository is stated as predicates on \<open>sdk\<close>:
  the storage (\<open>flash_laws\<close>: a write that succeeds binds the file, one that fails changes
  nothing), inverse pairs (encryption and decryption, encoding and decoding) and lengths of digests.
  None of them says anything of the secrecy of a key.

  \<^bold>\<open>Loops.\<close> Every loop is structural or has a measure, with two exceptions: the loop of
  \<open>CBOR_PARSE_MAP_START\<close> takes the number of items as fuel where its body reads something in every
  round, which is enough (\<open>cbor_items_fuel\<close>); in \<open>cbor_config.c\<close>, where the body may read nothing, it is
  a partial function (\<open>cbor_loop\<close>, \<open>map_loop\<close>) whose value \<open>None\<close> says that the request does not return
  (\<open>config_returns_iff\<close>).

  \<^bold>\<open>Abstractions.\<close> A read behind the end of a request is a zero byte. A file pointer kept in a
  global (\<open>ef_counter\<close> and its siblings) is looked up where it is used. The duplication of a string by
  TinyCBOR does not run out of memory; allocations whose result the code checks may fail. The status
  a handler leaves with \<open>set_res_sw\<close> is its return value. The wait for the button is one event; what
  the other core does meanwhile is not modelled. Word arithmetic wraps as in C, and lengths are
  natural numbers that the code keeps in at least sixteen bits, with the wrap-around written out
  where the code can reach it.

  \<^bold>\<open>Not modelled.\<close> The registration of the applets with the SDK, the worker thread (\<open>cbor_thread\<close>,
  \<open>cbor_process\<close>) and the USB transport; the static table of the files (\<open>files.c\<close>, \<open>defs.c\<close>), whose
  identifiers are used; frames of the keyboard interface that are longer than its buffer; the
  ownership of memory, so that a credential freed twice is not seen; what is written behind a buffer
  by the hmac-secret extension with a salt that is too long; the LED and the display of names. A
  handler that closes an encoder it has not opened leaves the error number 769 as a stand-in.
\<close>

end
